(* ===== verification/Mocha_Prelude.thy ===== *)
theory Mocha_Prelude
  imports Complex_Main "HOL-Library.Word"
begin

text \<open>
  Shared material of the development: machine integer abbreviations, the errno values the HALs
  return, the outcome type of operations that may dereference a null pointer, the transcript model
  of the operating system, and generic lemmas on lists and ring indices.
\<close>

section \<open>Machine types and collections of facts\<close>

unbundle bit_operations_syntax

type_synonym u8 = "8 word"
type_synonym u16 = "16 word"
type_synonym u32 = "32 word"
type_synonym u64 = "64 word"

named_theorems hal_simps \<open>unfolding rules of the HAL state components\<close>
named_theorems ring_simps \<open>facts on ring indices\<close>

text \<open>The errno values of the Linux C library that the sources return, negated.\<close>

definition ENOENT :: int where "ENOENT = 2"
definition EIO :: int where "EIO = 5"
definition EBADF :: int where "EBADF = 9"
definition EAGAIN :: int where "EAGAIN = 11"
definition ENOMEM :: int where "ENOMEM = 12"
definition EBUSY :: int where "EBUSY = 16"
definition ENODEV :: int where "ENODEV = 19"
definition EINVAL :: int where "EINVAL = 22"
definition ENOSPC :: int where "ENOSPC = 28"
definition ENOSYS :: int where "ENOSYS = 38"

lemmas errno_defs = ENOENT_def EIO_def EBADF_def EAGAIN_def ENOMEM_def EBUSY_def ENODEV_def EINVAL_def ENOSPC_def ENOSYS_def

text \<open>
  The outcome of an operation of the source: it returns a value, or it has undefined behaviour
  (a null pointer is dereferenced, an index leaves its array), or it throws.
\<close>

datatype 'a outcome = Ret 'a | Crash

fun returns :: "'a outcome \<Rightarrow> bool" where
  "returns (Ret _) = True"
| "returns Crash = False"

section \<open>The operating system as a transcript\<close>

text \<open>
  The kernel, the C library's file calls and the proprietary libraries are not part of the
  sources. They are a parameter: a function from the calls made so far and the present call to
  its answer. A component's state carries the transcript of its calls; every call appends to it,
  so that statements about which calls are made, and in which order, are statements about the
  transcript.
\<close>

type_synonym ('c, 'a) kernel = "'c list \<Rightarrow> 'c \<Rightarrow> 'a"

definition sys :: "('c, 'a) kernel \<Rightarrow> 'c \<Rightarrow> 'c list \<Rightarrow> 'a \<times> 'c list" where
  "sys K c h = (K h c, h @ [c])"

lemma sys_fst [simp]: "fst (sys K c h) = K h c"
  and sys_snd [simp]: "snd (sys K c h) = h @ [c]"
  by (simp_all add: sys_def)

section \<open>Words read as integers\<close>

named_theorems uint_simps \<open>the integer value of word operations\<close>

lemma uint_drop_bit [uint_simps]: "uint (drop_bit n w) = uint w div 2 ^ n"
  for w :: "'a::len word"
  by (simp only: unsigned_drop_bit_eq drop_bit_eq_div [of n "take_bit LENGTH('a) (uint w)"])
    (simp add: take_bit_int_eq_self)

lemma uint_ucast_mod [uint_simps]: "uint (ucast w :: 'b::len word) = uint w mod 2 ^ LENGTH('b)"
  for w :: "'a::len word"
  by (simp only: unsigned_ucast_eq take_bit_eq_mod)

lemma uint_of_int_mod [uint_simps]: "uint (word_of_int i :: 'a::len word) = i mod 2 ^ LENGTH('a)"
  by (simp only: uint_word_of_int_eq take_bit_eq_mod)

lemma uint_plus_mod [uint_simps]: "uint (v + w) = (uint v + uint w) mod 2 ^ LENGTH('a)"
  for v w :: "'a::len word"
  by (simp only: uint_word_ariths)

lemma u8_range: "0 \<le> uint w" "uint w < 256" for w :: u8
  using uint_lt2p [of w] by simp_all

section \<open>Lists and ring indices\<close>

lemma nth_list_update_if: "j < length xs \<Longrightarrow> xs[i := x] ! j = (if i = j then x else xs ! j)"
  by (cases "i < length xs") auto

lemma map_upt_Suc_head: "map f [0..<Suc n] = f 0 # map (\<lambda>i. f (Suc i)) [0..<n]"
  by (simp add: upt_conv_Cons map_Suc_upt [symmetric] del: upt_Suc)

lemma map_upt_add: "map f [0..<m + n] = map f [0..<m] @ map (\<lambda>i. f (m + i)) [0..<n]"
  by (rule nth_equalityI) (auto simp: nth_append)

lemma ring_index_inj_le:
  fixes i j c s :: nat
  assumes "i \<le> j" "j < c" "(s + i) mod c = (s + j) mod c"
  shows "i = j"
proof -
  have "c dvd (s + j) - (s + i)"
    using assms mod_eq_dvd_iff_nat [of "s + i" "s + j" c] by simp
  with assms(1,2) show ?thesis
    by (auto dest: dvd_imp_le)
qed

lemma ring_index_inj [ring_simps]:
  fixes i j c s :: nat
  assumes "i < c" "j < c" "(s + i) mod c = (s + j) mod c"
  shows "i = j"
  using assms ring_index_inj_le [of i j c s] ring_index_inj_le [of j i c s]
  by (cases "i \<le> j") auto

end
