(* ===== verification/SensorEventQueue.thy ===== *)
theory SensorEventQueue
  imports Mocha_Prelude
begin

text \<open>
  The fixed-size circular queue of \<^verbatim>\<open>src/sensors/SensorEventQueue.cpp\<close>: one writer fills a
  contiguous region handed out by \<open>getWritableRegion\<close> without holding the lock, while a reader
  peeks and dequeues under the lock. The theory holds the operations, the representation
  invariant, the refinement to a bounded first-in first-out list, the contract of the queue as two
  locales with their interpretation on the operations, and the interleaved writer and reader as a
  step relation.
\<close>

section \<open>State and operations\<close>

record 'e sensor_queue =
  mCapacity :: int
  mStart :: int
  mSize :: int
  mData :: "'e list"

text \<open>The constructor; \<open>new sensors_event_t[capacity]\<close> leaves the cells indeterminate, so the
  initial array is an argument.\<close>

definition SensorEventQueue_new :: "int \<Rightarrow> 'e list \<Rightarrow> 'e sensor_queue" where
  "SensorEventQueue_new capacity cells =
     \<lparr>mCapacity = capacity, mStart = 0, mSize = 0, mData = cells\<rparr>"

text \<open>The returned pointer \<open>*out\<close> is an index of the array, \<open>None\<close> for \<open>NULL\<close>.\<close>

definition getWritableRegion :: "'e sensor_queue \<Rightarrow> int \<Rightarrow> int option \<times> int" where
  "getWritableRegion q requestedLength =
     (if mSize q = mCapacity q \<or> requestedLength \<le> 0 then (None, 0)
      else
        let firstWritable = (mStart q + mSize q) mod mCapacity q;
            lastWritable0 = firstWritable + requestedLength - 1;
            lastWritable1 = (if lastWritable0 > mCapacity q - 1 then mCapacity q - 1 else lastWritable0);
            lastWritable = (if firstWritable < mStart q \<and> lastWritable1 \<ge> mStart q
                            then mStart q - 1 else lastWritable1)
        in (Some firstWritable, lastWritable - firstWritable + 1))"

definition markAsWritten :: "'e sensor_queue \<Rightarrow> int \<Rightarrow> 'e sensor_queue" where
  "markAsWritten q count = q\<lparr>mSize := mSize q + count\<rparr>"

definition getSize :: "'e sensor_queue \<Rightarrow> int" where
  "getSize q = mSize q"

definition peek :: "'e sensor_queue \<Rightarrow> 'e option" where
  "peek q = (if mSize q = 0 then None else Some (mData q ! nat (mStart q)))"

text \<open>\<open>dequeue\<close> also tells whether it broadcast \<open>mSpaceAvailableCondition\<close>.\<close>

definition dequeue :: "'e sensor_queue \<Rightarrow> 'e sensor_queue \<times> bool" where
  "dequeue q =
     (if mSize q = 0 then (q, False)
      else (q\<lparr>mSize := mSize q - 1, mStart := (mStart q + 1) mod mCapacity q\<rparr>,
            mSize q = mCapacity q))"

text \<open>
  \<open>waitForSpace\<close> blocks while the queue is full: the loop's guard, and the value it returns when
  it runs over the successive states of the queue seen at each wake-up. Running out of wake-ups
  with the queue still full is \<open>None\<close>: the call has not returned.
\<close>

fun waitForSpace :: "'e sensor_queue \<Rightarrow> 'e sensor_queue list \<Rightarrow> (bool \<times> 'e sensor_queue) option" where
  "waitForSpace q [] = (if mSize q = mCapacity q then None else Some (False, q))"
| "waitForSpace q (q' # wakes) =
     (if mSize q = mCapacity q
      then map_option (\<lambda>(_, r). (True, r)) (waitForSpace q' wakes)
      else Some (False, q))"

text \<open>A store of the polling device through the region pointer.\<close>

definition store :: "nat \<Rightarrow> 'e \<Rightarrow> 'e sensor_queue \<Rightarrow> 'e sensor_queue" where
  "store i e q = q\<lparr>mData := (mData q)[i := e]\<rparr>"

lemmas queue_op_defs = getWritableRegion_def markAsWritten_def getSize_def peek_def dequeue_def
  store_def SensorEventQueue_new_def Let_def

section \<open>Invariant and abstraction\<close>

definition q_inv :: "'e sensor_queue \<Rightarrow> bool" where
  "q_inv q \<longleftrightarrow> 0 < mCapacity q \<and> 0 \<le> mStart q \<and> mStart q < mCapacity q \<and>
     0 \<le> mSize q \<and> mSize q \<le> mCapacity q \<and> int (length (mData q)) = mCapacity q"

definition slot :: "'e sensor_queue \<Rightarrow> nat \<Rightarrow> nat" where
  "slot q i = (nat (mStart q) + i) mod nat (mCapacity q)"

definition q_list :: "'e sensor_queue \<Rightarrow> 'e list" where
  "q_list q = map (\<lambda>i. mData q ! slot q i) [0..<nat (mSize q)]"

lemma length_q_list [simp]: "length (q_list q) = nat (mSize q)"
  by (simp add: q_list_def)

lemma q_list_Nil_iff: "q_inv q \<Longrightarrow> q_list q = [] \<longleftrightarrow> mSize q = 0"
  by (auto simp: q_list_def q_inv_def)

lemma length_mData: "q_inv q \<Longrightarrow> length (mData q) = nat (mCapacity q)"
  by (auto simp: q_inv_def)

lemma size_Suc: "q_inv q \<Longrightarrow> mSize q \<noteq> 0 \<Longrightarrow> nat (mSize q) = Suc (nat (mSize q - 1))"
  by (auto simp: q_inv_def)

lemma slot_less: "q_inv q \<Longrightarrow> slot q i < length (mData q)"
  by (simp add: slot_def length_mData q_inv_def)

lemma slot_0: "q_inv q \<Longrightarrow> slot q 0 = nat (mStart q)"
  by (auto simp: slot_def q_inv_def)

lemma slot_inj:
  "q_inv q \<Longrightarrow> i < nat (mCapacity q) \<Longrightarrow> j < nat (mCapacity q) \<Longrightarrow> slot q i = slot q j \<Longrightarrow> i = j"
  unfolding slot_def by (rule ring_index_inj)

lemma q_inv_new:
  "0 < capacity \<Longrightarrow> int (length cells) = capacity \<Longrightarrow> q_inv (SensorEventQueue_new capacity cells)"
  by (simp add: q_inv_def SensorEventQueue_new_def)

lemma q_list_new [simp]: "q_list (SensorEventQueue_new capacity cells) = []"
  by (simp add: q_list_def SensorEventQueue_new_def)

lemma q_inv_dequeue: "q_inv q \<Longrightarrow> q_inv (fst (dequeue q))"
  by (auto simp: q_inv_def dequeue_def)

lemma slot_dequeue:
  assumes "q_inv q" "mSize q \<noteq> 0"
  shows "slot (fst (dequeue q)) i = slot q (Suc i)"
proof -
  have c: "nat ((mStart q + 1) mod mCapacity q) = Suc (nat (mStart q)) mod nat (mCapacity q)"
    using assms by (simp add: q_inv_def nat_mod_distrib Suc_nat_eq_nat_zadd1 add.commute)
  show ?thesis
    using assms by (simp add: slot_def dequeue_def c mod_simps)
qed

lemma q_list_dequeue:
  assumes "q_inv q"
  shows "q_list (fst (dequeue q)) = tl (q_list q)"
proof (cases "mSize q = 0")
  case True
  then show ?thesis by (simp add: dequeue_def q_list_def)
next
  case False
  with assms have "nat (mSize q) = Suc (nat (mSize q - 1))"
    by (rule size_Suc)
  with False show ?thesis
    using slot_dequeue [OF assms False]
    by (simp add: q_list_def dequeue_def map_upt_Suc_head del: upt_Suc)
qed

lemma peek_q_list:
  assumes "q_inv q"
  shows "peek q = (case q_list q of [] \<Rightarrow> None | e # _ \<Rightarrow> Some e)"
proof (cases "mSize q = 0")
  case True
  then show ?thesis by (simp add: peek_def q_list_def)
next
  case False
  with assms have "nat (mSize q) = Suc (nat (mSize q - 1))"
    by (rule size_Suc)
  with False assms show ?thesis
    by (simp add: peek_def q_list_def slot_0 map_upt_Suc_head del: upt_Suc)
qed

section \<open>The writable region\<close>

text \<open>The region starts at the slot after the last readable record.\<close>

lemma region_first:
  assumes "q_inv q" "getWritableRegion q n = (Some f, k)"
  shows "nat f = slot q (nat (mSize q))" "0 \<le> f" "f < mCapacity q"
proof -
  have f: "f = (mStart q + mSize q) mod mCapacity q"
    using assms(2) by (auto simp: getWritableRegion_def Let_def split: if_splits)
  then show "nat f = slot q (nat (mSize q))"
    using assms(1) by (simp add: slot_def q_inv_def nat_mod_distrib nat_add_distrib)
  show "0 \<le> f" "f < mCapacity q"
    using f assms(1) by (simp_all add: q_inv_def)
qed

lemma region_wrapped:
  assumes "q_inv q" "mSize q \<noteq> mCapacity q"
  shows "(mStart q + mSize q) mod mCapacity q =
    (if mStart q + mSize q < mCapacity q then mStart q + mSize q
     else mStart q + mSize q - mCapacity q)"
proof (cases "mStart q + mSize q < mCapacity q")
  case True
  with assms(1) show ?thesis by (simp add: q_inv_def)
next
  case False
  have "(mStart q + mSize q - mCapacity q) mod mCapacity q = mStart q + mSize q - mCapacity q"
    using assms False by (intro mod_pos_pos_trivial) (auto simp: q_inv_def)
  with False show ?thesis by simp
qed

text \<open>
  The region is non-empty, no longer than requested, stays inside the array and, together with
  the readable records, does not exceed the capacity.
\<close>

lemma region_bounds:
  assumes "q_inv q" "getWritableRegion q n = (Some f, k)"
  shows "1 \<le> k" "k \<le> n" "f + k \<le> mCapacity q" "mSize q + k \<le> mCapacity q"
proof -
  have n: "mSize q \<noteq> mCapacity q" "0 < n"
    using assms(2) by (auto simp: getWritableRegion_def split: if_splits)
  define fw where "fw = (mStart q + mSize q) mod mCapacity q"
  have fw: "fw = (if mStart q + mSize q < mCapacity q then mStart q + mSize q
     else mStart q + mSize q - mCapacity q)"
    unfolding fw_def by (rule region_wrapped [OF assms(1) n(1)])
  have k: "k = (let l = (if fw + n - 1 > mCapacity q - 1 then mCapacity q - 1 else fw + n - 1)
     in (if fw < mStart q \<and> l \<ge> mStart q then mStart q - 1 else l) - fw + 1)" and f: "f = fw"
    using assms(2) n by (auto simp: getWritableRegion_def Let_def fw_def [symmetric])
  show "1 \<le> k" "k \<le> n" "f + k \<le> mCapacity q" "mSize q + k \<le> mCapacity q"
    unfolding f k using fw n assms(1) by (auto simp: Let_def q_inv_def split: if_splits)
qed

lemma region_None:
  "getWritableRegion q n = (None, k) \<Longrightarrow> k = 0 \<and> (mSize q = mCapacity q \<or> n \<le> 0)"
  by (auto simp: getWritableRegion_def Let_def split: if_splits)

lemma region_available:
  "mSize q \<noteq> mCapacity q \<Longrightarrow> 0 < n \<Longrightarrow> \<exists>f k. getWritableRegion q n = (Some f, k)"
  by (simp add: getWritableRegion_def Let_def)

text \<open>
  What a reservation \<open>(f, k)\<close> made earlier means for the queue later: it starts at the end of the
  readable region and its \<open>k\<close> slots are free and contiguous.
\<close>

definition reserved :: "'e sensor_queue \<Rightarrow> nat \<Rightarrow> nat \<Rightarrow> bool" where
  "reserved q f k \<longleftrightarrow> f = slot q (nat (mSize q)) \<and> f + k \<le> nat (mCapacity q) \<and>
     nat (mSize q) + k \<le> nat (mCapacity q)"

lemma region_reserved:
  assumes "q_inv q" "getWritableRegion q n = (Some f, k)"
  shows "reserved q (nat f) (nat k)"
  using region_first [OF assms] region_bounds [OF assms] assms(1)
  unfolding reserved_def by (auto simp: q_inv_def)

lemma reserved_slot:
  assumes "q_inv q" "reserved q f k" "i < k"
  shows "slot q (nat (mSize q) + i) = f + i"
proof -
  have "(nat (mStart q) + nat (mSize q)) mod nat (mCapacity q) = f"
    using assms(2) by (simp add: reserved_def slot_def)
  moreover have "f + i < nat (mCapacity q)"
    using assms(2,3) by (simp add: reserved_def)
  ultimately have "(nat (mStart q) + nat (mSize q) + i) mod nat (mCapacity q) = f + i"
    by (metis mod_add_left_eq mod_less)
  then show ?thesis by (simp add: slot_def add.assoc)
qed

lemma reserved_disjoint:
  assumes "q_inv q" "reserved q f k" "i < k" "j < nat (mSize q)"
  shows "slot q j \<noteq> f + i"
proof
  assume "slot q j = f + i"
  with reserved_slot [OF assms(1-3)] have "slot q j = slot q (nat (mSize q) + i)" by simp
  then have "j = nat (mSize q) + i"
    using assms slot_inj [of q j "nat (mSize q) + i"] by (simp add: reserved_def)
  with assms(4) show False by simp
qed

lemma q_inv_store: "q_inv q \<Longrightarrow> q_inv (store i e q)"
  by (simp add: q_inv_def store_def)

lemma slot_store [simp]: "slot (store i e q) j = slot q j"
  by (simp add: slot_def store_def)

lemma reserved_store [simp]: "reserved (store i e q) f k = reserved q f k"
  by (simp add: reserved_def store_def slot_def)

text \<open>A store through a reservation is invisible to the reader.\<close>

lemma q_list_store:
  assumes "q_inv q" "reserved q f k" "i < k"
  shows "q_list (store (f + i) e q) = q_list q"
proof -
  have "mData (store (f + i) e q) ! slot q j = mData q ! slot q j" if "j < nat (mSize q)" for j
    using reserved_disjoint [OF assms that] by (simp add: store_def)
  then show ?thesis by (simp add: q_list_def) (simp add: store_def)
qed

text \<open>A dequeue of the reader does not invalidate the writer's reservation.\<close>

lemma reserved_dequeue:
  assumes "q_inv q" "reserved q f k"
  shows "reserved (fst (dequeue q)) f k"
proof (cases "mSize q = 0")
  case True
  with assms(2) show ?thesis by (simp add: dequeue_def)
next
  case False
  have "slot (fst (dequeue q)) (nat (mSize q - 1)) = slot q (nat (mSize q))"
    using slot_dequeue [OF assms(1) False] size_Suc [OF assms(1) False] by simp
  with False assms size_Suc [OF assms(1) False] show ?thesis
    by (auto simp: reserved_def dequeue_def)
qed

lemma markAsWritten_q_inv:
  assumes "q_inv q" "reserved q f k" "m \<le> k"
  shows "q_inv (markAsWritten q (int m))"
  using assms by (auto simp: q_inv_def markAsWritten_def reserved_def)

text \<open>Committing \<open>m\<close> cells of a reservation appends exactly those cells to the readable list.\<close>

lemma q_list_markAsWritten:
  assumes "q_inv q" "reserved q f k" "m \<le> k"
  shows "q_list (markAsWritten q (int m)) = q_list q @ take m (drop f (mData q))"
proof -
  have sz: "nat (mSize q + int m) = nat (mSize q) + m"
    using assms(1) by (auto simp: q_inv_def)
  have len: "f + m \<le> length (mData q)"
    using assms by (simp add: reserved_def length_mData)
  have "map (\<lambda>i. mData q ! slot q (nat (mSize q) + i)) [0..<m] = map (\<lambda>i. mData q ! (f + i)) [0..<m]"
    using reserved_slot [OF assms(1,2)] assms(3) by simp
  also have "\<dots> = take m (drop f (mData q))"
    using len by (intro nth_equalityI) simp_all
  finally show ?thesis
    by (simp add: q_list_def markAsWritten_def slot_def sz map_upt_add)
qed

section \<open>The contract of the queue\<close>

text \<open>What the reader of a queue relies on.\<close>

locale event_source =
  fixes ok :: "'q \<Rightarrow> bool"
    and contents :: "'q \<Rightarrow> 'e list"
    and front :: "'q \<Rightarrow> 'e option"
    and pop :: "'q \<Rightarrow> 'q"
  assumes front_spec: "ok q \<Longrightarrow> front q = (case contents q of [] \<Rightarrow> None | e # _ \<Rightarrow> Some e)"
    and pop_contents: "ok q \<Longrightarrow> contents (pop q) = tl (contents q)"
    and pop_ok: "ok q \<Longrightarrow> ok (pop q)"
begin

lemma front_None_iff: "ok q \<Longrightarrow> front q = None \<longleftrightarrow> contents q = []"
  by (simp add: front_spec split: list.splits)

lemma front_Some: "ok q \<Longrightarrow> front q = Some e \<Longrightarrow> contents q = e # contents (pop q)"
  by (simp add: front_spec pop_contents split: list.splits)

lemma pop_length: "ok q \<Longrightarrow> front q = Some e \<Longrightarrow> length (contents q) = Suc (length (contents (pop q)))"
  by (simp add: front_Some)

lemma pops_contents: "ok q \<Longrightarrow> contents ((pop ^^ n) q) = drop n (contents q) \<and> ok ((pop ^^ n) q)"
  by (induction n) (simp_all add: pop_contents pop_ok drop_Suc drop_tl)

lemma pop_all_length:
  assumes "list_all ok qs" "i < length qs" "front (qs ! i) = Some e"
  shows "sum_list (map (length \<circ> contents) qs) =
    Suc (sum_list (map (length \<circ> contents) (qs[i := pop (qs ! i)])))"
proof -
  have "ok (qs ! i)" using assms by (simp add: list_all_length)
  with assms show ?thesis
  proof (induction qs arbitrary: i)
    case (Cons q qs)
    then show ?case by (cases i) (simp_all add: pop_length)
  qed simp
qed

end

text \<open>What its writer relies on, on top of that: a reservation of free cells, which stores and pops
  keep, and which a commit turns into contents.\<close>

locale event_buffer = event_source ok contents front pop
  for ok :: "'q \<Rightarrow> bool" and contents :: "'q \<Rightarrow> 'e list" and front pop +
  fixes held :: "'q \<Rightarrow> nat \<Rightarrow> nat \<Rightarrow> bool"
    and put :: "nat \<Rightarrow> 'e \<Rightarrow> 'q \<Rightarrow> 'q"
    and cells :: "'q \<Rightarrow> 'e list"
    and commit :: "'q \<Rightarrow> nat \<Rightarrow> 'q"
  assumes put_ok: "ok q \<Longrightarrow> ok (put i e q)"
    and put_held: "held q f k \<Longrightarrow> held (put i e q) f k"
    and put_hidden: "ok q \<Longrightarrow> held q f k \<Longrightarrow> i < k \<Longrightarrow> contents (put (f + i) e q) = contents q"
    and put_cells: "cells (put i e q) = (cells q)[i := e]"
    and pop_held: "ok q \<Longrightarrow> held q f k \<Longrightarrow> held (pop q) f k"
    and held_cells: "ok q \<Longrightarrow> held q f k \<Longrightarrow> f + k \<le> length (cells q)"
    and commit_ok: "ok q \<Longrightarrow> held q f k \<Longrightarrow> m \<le> k \<Longrightarrow> ok (commit q m)"
    and commit_contents: "ok q \<Longrightarrow> held q f k \<Longrightarrow> m \<le> k \<Longrightarrow>
      contents (commit q m) = contents q @ take m (drop f (cells q))"
begin

text \<open>Filling the cells of a reservation one after the other and committing them appends them.\<close>

fun put_all :: "nat \<Rightarrow> 'e list \<Rightarrow> 'q \<Rightarrow> 'q" where
  "put_all f [] q = q"
| "put_all f (e # es) q = put_all (Suc f) es (put f e q)"

lemma put_all_held: "held q f k \<Longrightarrow> held (put_all g es q) f k"
  by (induction es arbitrary: q g) (simp_all add: put_held)

lemma put_all_hidden:
  "ok q \<Longrightarrow> held q f k \<Longrightarrow> i + length es \<le> k \<Longrightarrow>
   ok (put_all (f + i) es q) \<and> contents (put_all (f + i) es q) = contents q"
proof (induction es arbitrary: q i)
  case (Cons e es)
  have "ok (put_all (f + Suc i) es (put (f + i) e q)) \<and>
      contents (put_all (f + Suc i) es (put (f + i) e q)) = contents (put (f + i) e q)"
    using Cons by (intro Cons.IH) (simp_all add: put_ok put_held)
  with Cons.prems show ?case by (simp add: put_hidden)
qed simp

lemma put_all_cells:
  "g + length es \<le> length (cells q) \<Longrightarrow>
   cells (put_all g es q) = take g (cells q) @ es @ drop (g + length es) (cells q)"
proof (induction es arbitrary: q g)
  case (Cons e es)
  then show ?case
    by (simp add: put_cells take_Suc_conv_app_nth)
qed simp

lemma write_batch:
  assumes "ok q" "held q f k" "length es \<le> k"
  shows "contents (commit (put_all f es q) (length es)) = contents q @ es"
    and "ok (commit (put_all f es q) (length es))"
proof -
  have h: "ok (put_all f es q)" "contents (put_all f es q) = contents q" "held (put_all f es q) f k"
    using put_all_hidden [OF assms(1,2), of 0 es] assms(3) put_all_held [OF assms(2)] by simp_all
  have l: "f + length es \<le> length (cells q)"
    using held_cells [OF assms(1,2)] assms(3) by simp
  show "contents (commit (put_all f es q) (length es)) = contents q @ es"
    using commit_contents [OF h(1,3) assms(3)] l by (simp add: h(2) put_all_cells)
  show "ok (commit (put_all f es q) (length es))"
    using commit_ok [OF h(1,3) assms(3)] .
qed

end

interpretation seq_source: event_source q_inv q_list peek "\<lambda>q. fst (dequeue q)"
  by unfold_locales (simp_all add: peek_q_list q_list_dequeue q_inv_dequeue)

interpretation seq_buffer: event_buffer q_inv q_list peek "\<lambda>q. fst (dequeue q)" reserved store mData
  "\<lambda>q m. markAsWritten q (int m)"
proof unfold_locales
  fix q :: "'a sensor_queue" and f k assume "q_inv q" "reserved q f k"
  then show "f + k \<le> length (mData q)"
    by (simp add: reserved_def length_mData)
qed (auto simp: q_inv_store q_list_store reserved_dequeue markAsWritten_q_inv q_list_markAsWritten,
     simp add: store_def)

end
