(* ===== verification/MultiHal.thy ===== *)
theory MultiHal
  imports SensorEventQueue
begin

text \<open>
  The sensor multi-HAL of \<^verbatim>\<open>src/sensors/multihal.cpp\<close>: global sensor handles, the sensor list
  assembled from the sub-HALs, the fan-out of activate, setDelay, batch and flush, the round-robin
  \<open>poll\<close> over the queues, and the writer threads that fill them. The sub-HAL devices and modules are
  parameters: a transcript kernel answers their calls.
\<close>

section \<open>Handles\<close>

datatype FullHandle = FullHandle (moduleIndex: int) (localHandle: int)

text \<open>\<open>FullHandle::operator<\<close> as the source writes it; it orders the keys of a \<open>std::map\<close>.\<close>

definition FullHandle_less :: "FullHandle \<Rightarrow> FullHandle \<Rightarrow> bool" where
  "FullHandle_less this that =
     (if moduleIndex this < moduleIndex that then True
      else if moduleIndex this > moduleIndex that then False
      else localHandle this < localHandle that)"

instantiation FullHandle :: linorder
begin

definition less_FullHandle :: "FullHandle \<Rightarrow> FullHandle \<Rightarrow> bool" where
  "less_FullHandle = FullHandle_less"

definition less_eq_FullHandle :: "FullHandle \<Rightarrow> FullHandle \<Rightarrow> bool" where
  "less_eq_FullHandle this that \<longleftrightarrow> this < that \<or> this = that"

instance
proof
  fix x y z :: FullHandle
  show "x < y \<longleftrightarrow> x \<le> y \<and> \<not> y \<le> x" "x \<le> x" "x \<le> y \<Longrightarrow> y \<le> x \<Longrightarrow> x = y" "x \<le> y \<or> y \<le> x"
    by (cases x; cases y; auto simp: less_FullHandle_def FullHandle_less_def less_eq_FullHandle_def split: if_splits)+
  show "x \<le> y \<Longrightarrow> y \<le> z \<Longrightarrow> x \<le> z"
    by (cases x; cases y; cases z; auto simp: less_FullHandle_def FullHandle_less_def less_eq_FullHandle_def split: if_splits)
qed

end

definition FullHandle_eq :: "FullHandle \<Rightarrow> FullHandle \<Rightarrow> bool" where
  "FullHandle_eq this that \<longleftrightarrow>
     moduleIndex this = moduleIndex that \<and> localHandle this = localHandle that"

record handles =
  global_to_full :: "int \<rightharpoonup> FullHandle"
  full_to_global :: "FullHandle \<rightharpoonup> int"
  next_global_handle :: int

definition handles_init :: handles where
  "handles_init = \<lparr>global_to_full = Map.empty, full_to_global = Map.empty, next_global_handle = 1\<rparr>"

definition assign_global_handle :: "int \<Rightarrow> int \<Rightarrow> handles \<Rightarrow> int \<times> handles" where
  "assign_global_handle module_index local_handle hs =
     (let global_handle = next_global_handle hs;
          full_handle = FullHandle module_index local_handle
      in (global_handle,
          hs\<lparr>next_global_handle := global_handle + 1,
             full_to_global := (full_to_global hs)(full_handle \<mapsto> global_handle),
             global_to_full := (global_to_full hs)(global_handle \<mapsto> full_handle)\<rparr>))"

definition get_local_handle :: "handles \<Rightarrow> int \<Rightarrow> int" where
  "get_local_handle hs global_handle =
     (case global_to_full hs global_handle of None \<Rightarrow> -1 | Some f \<Rightarrow> localHandle f)"

definition get_module_index :: "handles \<Rightarrow> int \<Rightarrow> int" where
  "get_module_index hs global_handle =
     (case global_to_full hs global_handle of None \<Rightarrow> -1 | Some f \<Rightarrow> moduleIndex f)"

definition get_global_handle :: "handles \<Rightarrow> FullHandle \<Rightarrow> int" where
  "get_global_handle hs full_handle =
     (case full_to_global hs full_handle of None \<Rightarrow> -1 | Some g \<Rightarrow> g)"

text \<open>
  The invariant of the two maps: issued handles are those from 1 up to the next one, and both
  maps only speak of issued handles; every full handle known is the one its global handle names.
\<close>

definition handles_inv :: "handles \<Rightarrow> bool" where
  "handles_inv hs \<longleftrightarrow> 1 \<le> next_global_handle hs \<and>
     dom (global_to_full hs) = {1..<next_global_handle hs} \<and>
     (\<forall>f g. full_to_global hs f = Some g \<longrightarrow> global_to_full hs g = Some f) \<and>
     ran (global_to_full hs) = dom (full_to_global hs)"

lemma handles_inv_init: "handles_inv handles_init"
  by (simp add: handles_inv_def handles_init_def)

lemma handles_inv_fresh: "handles_inv hs \<Longrightarrow> global_to_full hs (next_global_handle hs) = None"
  unfolding handles_inv_def by (auto simp: domIff)

lemma handles_inv_assign:
  assumes "handles_inv hs"
  shows "handles_inv (snd (assign_global_handle m l hs))"
proof -
  have fresh: "global_to_full hs (next_global_handle hs) = None"
    by (rule handles_inv_fresh [OF assms])
  have bound: "g \<noteq> next_global_handle hs" if "full_to_global hs f = Some g" for f g
    using that assms fresh by (auto simp: handles_inv_def)
  have "dom (global_to_full hs) = {1..<next_global_handle hs}"
    "ran (global_to_full hs) = dom (full_to_global hs)" "1 \<le> next_global_handle hs"
    "\<forall>f g. full_to_global hs f = Some g \<longrightarrow> global_to_full hs g = Some f"
    using assms by (simp_all add: handles_inv_def)
  with fresh bound show ?thesis
    by (auto simp: handles_inv_def assign_global_handle_def Let_def)
qed

lemma assign_roundtrip:
  assumes "assign_global_handle m l hs = (g, hs')"
  shows "get_module_index hs' g = m" "get_local_handle hs' g = l"
    "get_global_handle hs' (FullHandle m l) = g" "g = next_global_handle hs"
  using assms by (auto simp: assign_global_handle_def Let_def get_module_index_def
      get_local_handle_def get_global_handle_def)

text \<open>A full handle that is known survives later assignments of other full handles.\<close>

lemma assign_frame:
  assumes "handles_inv hs" "global_to_full hs g = Some f"
  shows "global_to_full (snd (assign_global_handle m l hs)) g = Some f"
  using assms handles_inv_fresh [OF assms(1)]
  by (auto simp: assign_global_handle_def Let_def)

section \<open>Events\<close>

datatype sensor_type = SENSOR_TYPE_META_DATA | SENSOR_TYPE_TILT_DETECTOR | SENSOR_TYPE_PROXIMITY
  | SENSOR_TYPE_OTHER int

text \<open>\<open>sensors_event_t\<close>: the field \<open>sensor\<close>, the type, the handle nested in a meta-data payload, and
  the rest of the bytes.\<close>

record sensors_event =
  ev_sensor :: int
  ev_type :: sensor_type
  ev_meta_sensor :: int
  ev_timestamp :: int
  ev_payload :: "int list"

definition copy_event_remap_handle :: "handles \<Rightarrow> sensors_event \<Rightarrow> int \<Rightarrow> sensors_event" where
  "copy_event_remap_handle hs src sub_index =
     (if ev_type src = SENSOR_TYPE_META_DATA
      then src\<lparr>ev_meta_sensor := get_global_handle hs (FullHandle sub_index (ev_meta_sensor src))\<rparr>
      else src\<lparr>ev_sensor := get_global_handle hs (FullHandle sub_index (ev_sensor src))\<rparr>)"

section \<open>The poll context\<close>

record 'd poll_context =
  sub_hw_devices :: "'d list"
  queues :: "sensors_event sensor_queue list"
  nextReadIndex :: int

definition SENSOR_EVENT_QUEUE_CAPACITY :: int where
  "SENSOR_EVENT_QUEUE_CAPACITY = 36"

text \<open>\<open>addSubHwDevice\<close>; the initial bytes of the new queue's array are indeterminate.\<close>

definition addSubHwDevice :: "sensors_event list \<Rightarrow> 'd \<Rightarrow> 'd poll_context \<Rightarrow> 'd poll_context" where
  "addSubHwDevice cells d ctx =
     ctx\<lparr>sub_hw_devices := sub_hw_devices ctx @ [d],
         queues := queues ctx @ [SensorEventQueue_new SENSOR_EVENT_QUEUE_CAPACITY cells]\<rparr>"

definition get_v0_device_by_handle :: "handles \<Rightarrow> 'd poll_context \<Rightarrow> int \<Rightarrow> 'd option" where
  "get_v0_device_by_handle hs ctx global_handle =
     (let sub_index = get_module_index hs global_handle
      in if sub_index < 0 \<or> sub_index \<ge> int (length (sub_hw_devices ctx)) then None
         else Some (sub_hw_devices ctx ! nat sub_index))"

definition get_v1_device_by_handle :: "handles \<Rightarrow> 'd poll_context \<Rightarrow> int \<Rightarrow> 'd option" where
  "get_v1_device_by_handle hs ctx global_handle =
     (let sub_index = get_module_index hs global_handle
      in if sub_index < 0 \<or> sub_index \<ge> int (length (sub_hw_devices ctx)) then None
         else Some (sub_hw_devices ctx ! nat sub_index))"

definition get_device_version_by_handle :: "('d \<Rightarrow> int) \<Rightarrow> handles \<Rightarrow> 'd poll_context \<Rightarrow> int \<Rightarrow> int" where
  "get_device_version_by_handle version hs ctx handle =
     (case get_v0_device_by_handle hs ctx handle of Some v0 \<Rightarrow> version v0 | None \<Rightarrow> -1)"

text \<open>The calls into a sub-HAL device.\<close>

datatype 'd dev_call =
    DevActivate 'd int int
  | DevSetDelay 'd int int
  | DevBatch 'd int int int int
  | DevFlush 'd int
  | DevClose 'd

type_synonym 'd devs = "('d dev_call, int) kernel"

definition ctx_activate ::
  "'d devs \<Rightarrow> handles \<Rightarrow> 'd poll_context \<Rightarrow> int \<Rightarrow> int \<Rightarrow> 'd dev_call list \<Rightarrow> int outcome \<times> 'd dev_call list" where
  "ctx_activate K hs ctx handle enabled h =
     (let local_handle = get_local_handle hs handle
      in case get_v0_device_by_handle hs ctx handle of
           None \<Rightarrow> (Crash, h)
         | Some v0 \<Rightarrow> (let (r, h') = sys K (DevActivate v0 local_handle enabled) h in (Ret r, h')))"

definition ctx_setDelay ::
  "'d devs \<Rightarrow> handles \<Rightarrow> 'd poll_context \<Rightarrow> int \<Rightarrow> int \<Rightarrow> 'd dev_call list \<Rightarrow> int outcome \<times> 'd dev_call list" where
  "ctx_setDelay K hs ctx handle ns h =
     (let local_handle = get_local_handle hs handle
      in case get_v0_device_by_handle hs ctx handle of
           None \<Rightarrow> (Crash, h)
         | Some v0 \<Rightarrow> (let (r, h') = sys K (DevSetDelay v0 local_handle ns) h in (Ret r, h')))"

definition ctx_batch ::
  "'d devs \<Rightarrow> handles \<Rightarrow> 'd poll_context \<Rightarrow> int \<Rightarrow> int \<Rightarrow> int \<Rightarrow> int \<Rightarrow> 'd dev_call list \<Rightarrow> int outcome \<times> 'd dev_call list" where
  "ctx_batch K hs ctx handle flags period_ns timeout h =
     (let local_handle = get_local_handle hs handle
      in case get_v1_device_by_handle hs ctx handle of
           None \<Rightarrow> (Crash, h)
         | Some v1 \<Rightarrow> (let (r, h') = sys K (DevBatch v1 local_handle flags period_ns timeout) h in (Ret r, h')))"

definition ctx_flush ::
  "'d devs \<Rightarrow> handles \<Rightarrow> 'd poll_context \<Rightarrow> int \<Rightarrow> 'd dev_call list \<Rightarrow> int outcome \<times> 'd dev_call list" where
  "ctx_flush K hs ctx handle h =
     (let local_handle = get_local_handle hs handle
      in case get_v1_device_by_handle hs ctx handle of
           None \<Rightarrow> (Crash, h)
         | Some v1 \<Rightarrow> (let (r, h') = sys K (DevFlush v1 local_handle) h in (Ret r, h')))"

fun close_all :: "'d devs \<Rightarrow> 'd list \<Rightarrow> 'd dev_call list \<Rightarrow> 'd dev_call list" where
  "close_all K [] h = h"
| "close_all K (d # ds) h = close_all K ds (snd (sys K (DevClose d) h))"

definition ctx_close :: "'d devs \<Rightarrow> 'd poll_context \<Rightarrow> 'd dev_call list \<Rightarrow> int \<times> 'd dev_call list" where
  "ctx_close K ctx h = (0, close_all K (sub_hw_devices ctx) h)"

text \<open>The entry points the framework calls: \<open>device__batch\<close> degrades to \<open>setDelay\<close>, and
  \<open>device__flush\<close> is not supported.\<close>

definition device__batch ::
  "'d devs \<Rightarrow> handles \<Rightarrow> 'd poll_context \<Rightarrow> int \<Rightarrow> int \<Rightarrow> int \<Rightarrow> int \<Rightarrow> 'd dev_call list \<Rightarrow> int outcome \<times> 'd dev_call list" where
  "device__batch K hs ctx handle flags period_ns timeout h =
     (case ctx_setDelay K hs ctx handle period_ns h of
        (Crash, h') \<Rightarrow> (Crash, h')
      | (Ret _, h') \<Rightarrow> (Ret 0, h'))"

definition device__flush :: "int \<Rightarrow> int" where
  "device__flush handle = - EINVAL"

definition device__close :: "'d devs \<Rightarrow> 'd poll_context option \<Rightarrow> 'd dev_call list \<Rightarrow> int \<times> 'd dev_call list" where
  "device__close K ctx h = (case ctx of None \<Rightarrow> (0, h) | Some c \<Rightarrow> (0, snd (ctx_close K c h)))"

end
