(* ===== verification/MultiHalPoll.thy ===== *)
theory MultiHalPoll
  imports MultiHal
begin

text \<open>
  \<open>sensors_poll_context_t::poll\<close>: the round-robin scan of the queues, and the outer loop that
  waits for data. The scan carries fuel; \<open>scan_fuel\<close> units are enough from any well-formed context.
\<close>

section \<open>The scan\<close>

text \<open>
  One run of the inner \<open>while\<close>. \<open>data\<close> is the part of the caller's buffer below \<open>eventsRead\<close>,
  so \<open>eventsRead\<close> is its length. \<open>queues.at\<close> throws on an index out of range (\<open>Crash\<close>); fuel
  that runs out is \<open>None\<close>.
\<close>

fun poll_scan ::
  "nat \<Rightarrow> handles \<Rightarrow> int \<Rightarrow> 'd poll_context \<Rightarrow> int \<Rightarrow> sensors_event list
   \<Rightarrow> ('d poll_context \<times> sensors_event list) outcome option" where
  "poll_scan 0 hs maxReads ctx empties data = None"
| "poll_scan (Suc n) hs maxReads ctx empties data =
     (if empties < int (length (queues ctx)) \<and> int (length data) < maxReads
      then
        if nextReadIndex ctx < 0 \<or> nextReadIndex ctx \<ge> int (length (queues ctx)) then Some Crash
        else
          let i = nat (nextReadIndex ctx);
              queue = queues ctx ! i;
              next = (nextReadIndex ctx + 1) mod int (length (queues ctx))
          in case peek queue of
               None \<Rightarrow> poll_scan n hs maxReads (ctx\<lparr>nextReadIndex := next\<rparr>) (empties + 1) data
             | Some event \<Rightarrow>
                 (let e = copy_event_remap_handle hs event (nextReadIndex ctx);
                      data' = (if ev_sensor e = -1 then data else data @ [e])
                  in poll_scan n hs maxReads
                       (ctx\<lparr>queues := (queues ctx)[i := fst (dequeue queue)], nextReadIndex := next\<rparr>) 0 data')
      else Some (Ret (ctx, data)))"

text \<open>
  The outer loop. While nothing was read the reader waits on \<open>data_available_cond\<close>; each element
  of \<open>wakes\<close> is what the writer threads did to the queues while it slept. No element left means
  the call is still blocked: \<open>None\<close>.
\<close>

fun poll ::
  "nat \<Rightarrow> handles \<Rightarrow> 'd poll_context \<Rightarrow> int
   \<Rightarrow> (sensors_event sensor_queue list \<Rightarrow> sensors_event sensor_queue list) list
   \<Rightarrow> ('d poll_context \<times> sensors_event list) outcome option" where
  "poll n hs ctx maxReads wakes =
     (case poll_scan n hs maxReads ctx 0 [] of
        None \<Rightarrow> None
      | Some Crash \<Rightarrow> Some Crash
      | Some (Ret (ctx', data)) \<Rightarrow>
          if data \<noteq> [] then Some (Ret (ctx', data))
          else (case wakes of
                  [] \<Rightarrow> None
                | w # ws \<Rightarrow> poll n hs (ctx'\<lparr>queues := w (queues ctx')\<rparr>) maxReads ws))"

declare poll.simps [simp del] poll_scan.simps(2) [simp del]

section \<open>Well-formed contexts and enough fuel\<close>

definition ctx_inv :: "'d poll_context \<Rightarrow> bool" where
  "ctx_inv ctx \<longleftrightarrow> list_all q_inv (queues ctx) \<and>
     (queues ctx = [] \<or> 0 \<le> nextReadIndex ctx \<and> nextReadIndex ctx < int (length (queues ctx)))"

definition pending :: "'d poll_context \<Rightarrow> nat" where
  "pending ctx = sum_list (map (length \<circ> q_list) (queues ctx))"

definition scan_fuel :: "'d poll_context \<Rightarrow> nat" where
  "scan_fuel ctx = Suc (pending ctx * Suc (length (queues ctx)) + length (queues ctx))"

definition scan_idle :: "'d poll_context \<Rightarrow> 'd poll_context" where
  "scan_idle ctx = ctx\<lparr>nextReadIndex := (nextReadIndex ctx + 1) mod int (length (queues ctx))\<rparr>"

definition scan_take :: "'d poll_context \<Rightarrow> 'd poll_context" where
  "scan_take ctx =
     ctx\<lparr>queues := (queues ctx)[nat (nextReadIndex ctx) := fst (dequeue (queues ctx ! nat (nextReadIndex ctx)))],
         nextReadIndex := (nextReadIndex ctx + 1) mod int (length (queues ctx))\<rparr>"

definition current :: "'d poll_context \<Rightarrow> sensors_event sensor_queue" where
  "current ctx = queues ctx ! nat (nextReadIndex ctx)"

definition deliver :: "handles \<Rightarrow> int \<Rightarrow> sensors_event \<Rightarrow> sensors_event list" where
  "deliver hs i e = (let e' = copy_event_remap_handle hs e i in if ev_sensor e' = -1 then [] else [e'])"

text \<open>The scan, one iteration at a time, from a well-formed context.\<close>

lemma poll_scan_step:
  assumes "ctx_inv ctx" "0 \<le> em"
  shows "poll_scan (Suc n) hs m ctx em data =
     (if em < int (length (queues ctx)) \<and> int (length data) < m
      then (case peek (current ctx) of
              None \<Rightarrow> poll_scan n hs m (scan_idle ctx) (em + 1) data
            | Some e \<Rightarrow> poll_scan n hs m (scan_take ctx) 0 (data @ deliver hs (nextReadIndex ctx) e))
      else Some (Ret (ctx, data)))"
  using assms
  by (auto simp: ctx_inv_def scan_idle_def scan_take_def current_def deliver_def Let_def
      poll_scan.simps(2) split: option.splits)

lemma next_index_range:
  "ctx_inv ctx \<Longrightarrow> queues ctx \<noteq> [] \<Longrightarrow>
     0 \<le> (nextReadIndex ctx + 1) mod int (length (queues ctx)) \<and>
     (nextReadIndex ctx + 1) mod int (length (queues ctx)) < int (length (queues ctx))"
  by simp

lemma scan_idle_queues [simp]: "queues (scan_idle ctx) = queues ctx"
  by (simp add: scan_idle_def)

lemma scan_take_queues:
  "queues (scan_take ctx) = (queues ctx)[nat (nextReadIndex ctx) := fst (dequeue (current ctx))]"
  by (simp add: scan_take_def current_def)

lemma sub_hw_devices_scan [simp]:
  "sub_hw_devices (scan_idle ctx) = sub_hw_devices ctx"
  "sub_hw_devices (scan_take ctx) = sub_hw_devices ctx"
  by (simp_all add: scan_idle_def scan_take_def)

lemma length_scan_take [simp]: "length (queues (scan_take ctx)) = length (queues ctx)"
  by (simp add: scan_take_def)

lemma ctx_inv_idle: "ctx_inv ctx \<Longrightarrow> ctx_inv (scan_idle ctx)"
  using next_index_range [of ctx] by (auto simp: ctx_inv_def scan_idle_def)

lemma current_inv:
  "ctx_inv ctx \<Longrightarrow> queues ctx \<noteq> [] \<Longrightarrow> nat (nextReadIndex ctx) < length (queues ctx) \<and> q_inv (current ctx)"
  by (auto simp: ctx_inv_def current_def list_all_length)

lemma ctx_inv_take:
  assumes "ctx_inv ctx" "queues ctx \<noteq> []"
  shows "ctx_inv (scan_take ctx)"
  using assms next_index_range [OF assms] current_inv [OF assms] q_inv_dequeue [of "current ctx"]
  by (auto simp: ctx_inv_def scan_take_def current_def list_all_length nth_list_update)

lemma pending_idle [simp]: "pending (scan_idle ctx) = pending ctx"
  by (simp add: pending_def)

lemma pending_take:
  assumes "ctx_inv ctx" "queues ctx \<noteq> []" "peek (current ctx) = Some e"
  shows "pending ctx = Suc (pending (scan_take ctx))"
  using assms seq_source.pop_all_length [of "queues ctx" "nat (nextReadIndex ctx)" e]
    current_inv [OF assms(1,2)]
  by (simp add: pending_def scan_take_queues current_def ctx_inv_def)

lemmas scan_inv_simps = ctx_inv_idle ctx_inv_take

lemma scan_terminates:
  assumes "ctx_inv ctx" "0 \<le> em"
    and "pending ctx * Suc (length (queues ctx)) + nat (int (length (queues ctx)) - em) < n"
  shows "\<exists>ctx' data'. poll_scan n hs m ctx em data = Some (Ret (ctx', data'))"
  using assms
proof (induction n arbitrary: ctx em data)
  case 0
  then show ?case by simp
next
  case (Suc n)
  let ?l = "length (queues ctx)"
  show ?case
  proof (cases "em < int ?l \<and> int (length data) < m")
    case True
    then have ne: "queues ctx \<noteq> []" using Suc.prems(2) by auto
    show ?thesis
    proof (cases "peek (current ctx)")
      case None
      have "nat (int ?l - (em + 1)) < nat (int ?l - em)" using True Suc.prems(2) by simp
      then have "\<exists>ctx' data'. poll_scan n hs m (scan_idle ctx) (em + 1) data = Some (Ret (ctx', data'))"
        using Suc.prems by (intro Suc.IH) (simp_all add: ctx_inv_idle)
      with True None show ?thesis by (simp add: poll_scan_step [OF Suc.prems(1,2)])
    next
      case (Some e)
      have "pending ctx = Suc (pending (scan_take ctx))"
        by (rule pending_take [OF Suc.prems(1) ne Some])
      then have "\<exists>ctx' data'. poll_scan n hs m (scan_take ctx) 0 (data @ deliver hs (nextReadIndex ctx) e)
          = Some (Ret (ctx', data'))"
        using Suc.prems by (intro Suc.IH) (simp_all add: ctx_inv_take ne)
      with True Some show ?thesis by (simp add: poll_scan_step [OF Suc.prems(1,2)])
    qed
  next
    case False
    then show ?thesis by (auto simp: poll_scan_step [OF Suc.prems(1,2)])
  qed
qed

lemma scan_fuel_enough:
  assumes "ctx_inv ctx"
  shows "\<exists>ctx' data'. poll_scan (scan_fuel ctx) hs m ctx 0 data = Some (Ret (ctx', data'))"
  using assms by (intro scan_terminates) (simp_all add: scan_fuel_def)

section \<open>The scan as a run\<close>

inductive scan_run ::
  "handles \<Rightarrow> int \<Rightarrow> 'd poll_context \<Rightarrow> int \<Rightarrow> sensors_event list
   \<Rightarrow> 'd poll_context \<Rightarrow> sensors_event list \<Rightarrow> bool"
  for hs m where
  stop: "\<not> (em < int (length (queues ctx)) \<and> int (length data) < m) \<Longrightarrow> scan_run hs m ctx em data ctx data"
| idle: "em < int (length (queues ctx)) \<Longrightarrow> int (length data) < m \<Longrightarrow> peek (current ctx) = None \<Longrightarrow>
    scan_run hs m (scan_idle ctx) (em + 1) data ctx' data' \<Longrightarrow> scan_run hs m ctx em data ctx' data'"
| take: "em < int (length (queues ctx)) \<Longrightarrow> int (length data) < m \<Longrightarrow> peek (current ctx) = Some e \<Longrightarrow>
    scan_run hs m (scan_take ctx) 0 (data @ deliver hs (nextReadIndex ctx) e) ctx' data' \<Longrightarrow>
    scan_run hs m ctx em data ctx' data'"

lemma poll_scan_run:
  "poll_scan n hs m ctx em data = Some (Ret (ctx', data')) \<Longrightarrow> ctx_inv ctx \<Longrightarrow> 0 \<le> em \<Longrightarrow>
   scan_run hs m ctx em data ctx' data'"
proof (induction n arbitrary: ctx em data)
  case (Suc n)
  show ?case
  proof (cases "em < int (length (queues ctx)) \<and> int (length data) < m")
    case True
    then have ne: "queues ctx \<noteq> []" using Suc.prems(3) by auto
    with True Suc.prems Suc.IH show ?thesis
      by (auto simp: poll_scan_step ctx_inv_idle ctx_inv_take split: option.splits intro: scan_run.intros)
  next
    case False
    with Suc.prems show ?thesis by (auto simp: poll_scan_step intro: scan_run.stop)
  qed
qed simp

lemma scan_run_inv:
  "scan_run hs m ctx em data ctx' data' \<Longrightarrow> ctx_inv ctx \<Longrightarrow> 0 \<le> em \<Longrightarrow>
   ctx_inv ctx' \<and> length (queues ctx') = length (queues ctx) \<and> sub_hw_devices ctx' = sub_hw_devices ctx"
proof (induction rule: scan_run.induct)
  case (take em ctx data e ctx' data')
  then have "queues ctx \<noteq> []" by auto
  with take show ?case by (simp add: ctx_inv_take)
qed (simp_all add: ctx_inv_idle)

lemma length_deliver: "length (deliver hs i e) \<le> 1"
  by (simp add: deliver_def Let_def)

lemma scan_run_bound:
  "scan_run hs m ctx em data ctx' data' \<Longrightarrow> int (length data) \<le> max 0 m \<Longrightarrow> int (length data') \<le> max 0 m"
proof (induction rule: scan_run.induct)
  case (take em ctx data e ctx' data')
  then show ?case using length_deliver [of hs "nextReadIndex ctx" e] by simp
qed simp_all

definition taken_from :: "nat \<Rightarrow> (nat \<times> sensors_event) list \<Rightarrow> sensors_event list" where
  "taken_from j tk = map snd (filter (\<lambda>p. fst p = j) tk)"

lemma taken_from_Nil [simp]: "taken_from j [] = []"
  and taken_from_Cons [simp]:
    "taken_from j ((i, e) # tk) = (if i = j then e # taken_from j tk else taken_from j tk)"
  by (simp_all add: taken_from_def)

definition delivered :: "handles \<Rightarrow> (nat \<times> sensors_event) list \<Rightarrow> sensors_event list" where
  "delivered hs tk = concat (map (\<lambda>(i, e). deliver hs (int i) e) tk)"

text \<open>
  What a scan does, as a log of the events it took with the queue each came from: every queue
  loses exactly its events of the log, from its front and in order, and the buffer receives the
  deliverable ones in the order of the log.
\<close>

lemma scan_run_log:
  "scan_run hs m ctx em data ctx' data' \<Longrightarrow> ctx_inv ctx \<Longrightarrow> 0 \<le> em \<Longrightarrow>
   \<exists>tk. data' = data @ delivered hs tk \<and>
     (\<forall>j < length (queues ctx). q_list (queues ctx ! j) = taken_from j tk @ q_list (queues ctx' ! j))"
proof (induction rule: scan_run.induct)
  case (stop em ctx data)
  then show ?case by (intro exI [of _ "[]"]) (simp add: delivered_def)
next
  case (idle em ctx data ctx' data')
  then show ?case by (simp add: ctx_inv_idle)
next
  case (take em ctx data e ctx' data')
  let ?i = "nat (nextReadIndex ctx)"
  have ne: "queues ctx \<noteq> []" using take by auto
  have cur: "?i < length (queues ctx)" "q_inv (current ctx)" "0 \<le> nextReadIndex ctx"
    using current_inv [OF take.prems(1) ne] take.prems(1) ne by (auto simp: ctx_inv_def)
  obtain tk where tk: "data' = (data @ deliver hs (nextReadIndex ctx) e) @ delivered hs tk"
    and qs: "\<forall>j < length (queues ctx). q_list (queues (scan_take ctx) ! j) =
      taken_from j tk @ q_list (queues ctx' ! j)"
    using take.IH ctx_inv_take [OF take.prems(1) ne] by auto
  have hd: "q_list (current ctx) = e # q_list (fst (dequeue (current ctx)))"
    using seq_source.front_Some [OF cur(2) take.hyps(3)] .
  have "q_list (queues ctx ! j) = taken_from j ((?i, e) # tk) @ q_list (queues ctx' ! j)"
    if j: "j < length (queues ctx)" for j
    using qs [rule_format, OF j] hd cur(1)
    by (cases "j = ?i") (simp_all add: scan_take_queues current_def)
  moreover have "data' = data @ delivered hs ((?i, e) # tk)"
    using tk cur(3) by (simp add: delivered_def)
  ultimately show ?case by blast
qed

text \<open>The \<open>empties\<close> counter: the last \<open>em\<close> queues before the read index are empty.\<close>

definition idle_window :: "'d poll_context \<Rightarrow> int \<Rightarrow> bool" where
  "idle_window ctx em \<longleftrightarrow> (\<forall>d. 1 \<le> d \<and> d \<le> em \<longrightarrow>
     q_list (queues ctx ! nat ((nextReadIndex ctx - d) mod int (length (queues ctx)))) = [])"

lemma idle_window_0 [simp]: "idle_window ctx 0"
  by (auto simp: idle_window_def)

lemma idle_window_idle:
  assumes "ctx_inv ctx" "queues ctx \<noteq> []" "peek (current ctx) = None" "idle_window ctx em"
  shows "idle_window (scan_idle ctx) (em + 1)"
  unfolding idle_window_def
proof (intro allI impI)
  fix d :: int assume d: "1 \<le> d \<and> d \<le> em + 1"
  let ?l = "int (length (queues ctx))"
  have idx: "((nextReadIndex ctx + 1) mod ?l - d) mod ?l = (nextReadIndex ctx - (d - 1)) mod ?l"
    by (simp add: mod_diff_left_eq algebra_simps)
  have "q_list (queues ctx ! nat ((nextReadIndex ctx - (d - 1)) mod ?l)) = []"
  proof (cases "d = 1")
    case True
    have "(nextReadIndex ctx) mod ?l = nextReadIndex ctx"
      using assms(1,2) by (simp add: ctx_inv_def)
    with True show ?thesis
      using assms(3) current_inv [OF assms(1,2)] seq_source.front_None_iff [of "current ctx"]
      by (simp add: current_def)
  next
    case False
    with d assms(4) show ?thesis by (simp add: idle_window_def)
  qed
  then show "q_list (queues (scan_idle ctx) ! nat ((nextReadIndex (scan_idle ctx) - d) mod
      int (length (queues (scan_idle ctx))))) = []"
    by (simp add: scan_idle_def idx)
qed

lemma idle_window_all:
  assumes "ctx_inv ctx" "idle_window ctx em" "int (length (queues ctx)) \<le> em" "j < length (queues ctx)"
  shows "q_list (queues ctx ! j) = []"
proof -
  let ?l = "int (length (queues ctx))" and ?r = "nextReadIndex ctx"
  have r: "0 \<le> ?r" "?r < ?l" using assms(1,4) by (auto simp: ctx_inv_def)
  define d where "d = (if int j < ?r then ?r - int j else ?r - int j + ?l)"
  have "1 \<le> d \<and> d \<le> em" using r assms(3,4) by (auto simp: d_def)
  moreover have "(?r - d) mod ?l = int j" using assms(4) by (auto simp: d_def)
  ultimately show ?thesis using assms(2) by (auto simp: idle_window_def)
qed

text \<open>A scan that leaves room in the buffer has drained every queue.\<close>

lemma scan_run_drained:
  "scan_run hs m ctx em data ctx' data' \<Longrightarrow> ctx_inv ctx \<Longrightarrow> 0 \<le> em \<Longrightarrow> idle_window ctx em \<Longrightarrow>
   int (length data') < m \<Longrightarrow> j < length (queues ctx) \<Longrightarrow> q_list (queues ctx' ! j) = []"
proof (induction rule: scan_run.induct)
  case (stop em ctx data)
  then show ?case by (intro idle_window_all) auto
next
  case (idle em ctx data ctx' data')
  then have "queues ctx \<noteq> []" by auto
  with idle show ?case by (simp add: ctx_inv_idle idle_window_idle)
next
  case (take em ctx data e ctx' data')
  then have "queues ctx \<noteq> []" by auto
  with take show ?case by (simp add: ctx_inv_take)
qed

section \<open>Properties of poll\<close>

lemma poll_scan_summary:
  assumes "ctx_inv ctx"
  obtains ctx' tk where
    "poll_scan (scan_fuel ctx) hs m ctx 0 [] = Some (Ret (ctx', delivered hs tk))"
    "ctx_inv ctx'" "length (queues ctx') = length (queues ctx)"
    "int (length (delivered hs tk)) \<le> max 0 m"
    "\<forall>j < length (queues ctx). q_list (queues ctx ! j) = taken_from j tk @ q_list (queues ctx' ! j)"
    "int (length (delivered hs tk)) < m \<longrightarrow> (\<forall>j < length (queues ctx). q_list (queues ctx' ! j) = [])"
proof -
  obtain ctx' data' where r: "poll_scan (scan_fuel ctx) hs m ctx 0 [] = Some (Ret (ctx', data'))"
    using scan_fuel_enough [OF assms] by blast
  then have run: "scan_run hs m ctx 0 [] ctx' data'"
    using assms by (intro poll_scan_run) simp_all
  obtain tk where tk: "data' = delivered hs tk"
    "\<forall>j < length (queues ctx). q_list (queues ctx ! j) = taken_from j tk @ q_list (queues ctx' ! j)"
    using scan_run_log [OF run assms] by auto
  show ?thesis
    using that [of ctx' tk] r tk scan_run_inv [OF run assms] scan_run_bound [OF run]
      scan_run_drained [OF run assms] by simp
qed

text \<open>C1. From any well-formed context the scan of \<open>poll\<close> terminates without throwing, keeps the
  context well-formed, returns at most \<open>maxReads\<close> events, takes from every queue a prefix of its
  contents in first-in first-out order, delivers exactly the deliverable taken events in the order
  it took them, and stops below \<open>maxReads\<close> only when every queue is empty.\<close>

theorem poll_scan_correct:
  assumes "ctx_inv ctx"
  shows "\<exists>ctx' tk. poll_scan (scan_fuel ctx) hs maxReads ctx 0 [] = Some (Ret (ctx', delivered hs tk)) \<and>
     ctx_inv ctx' \<and> int (length (delivered hs tk)) \<le> max 0 maxReads \<and>
     (\<forall>j < length (queues ctx). q_list (queues ctx ! j) = taken_from j tk @ q_list (queues ctx' ! j)) \<and>
     (int (length (delivered hs tk)) < maxReads \<longrightarrow>
        (\<forall>j < length (queues ctx). q_list (queues ctx' ! j) = []))"
  using poll_scan_summary [OF assms, of hs maxReads] by metis

lemma delivered_Nil_taken:
  assumes "delivered hs tk = []" "e \<in> set (taken_from j tk)"
  shows "deliver hs (int j) e = []"
  using assms by (auto simp: delivered_def taken_from_def)

text \<open>C16. \<open>poll\<close> does not block while an event with a known handle is queued: with room for one
  event, it returns at least one event without waiting.\<close>

theorem poll_returns_when_data:
  assumes "ctx_inv ctx" "0 < maxReads" "j < length (queues ctx)" "e \<in> set (q_list (queues ctx ! j))"
    and "deliver hs (int j) e \<noteq> []"
  shows "\<exists>ctx' data. poll (scan_fuel ctx) hs ctx maxReads wakes = Some (Ret (ctx', data)) \<and> data \<noteq> []"
proof -
  obtain ctx' tk where r: "poll_scan (scan_fuel ctx) hs maxReads ctx 0 [] = Some (Ret (ctx', delivered hs tk))"
    and fifo: "\<forall>j < length (queues ctx). q_list (queues ctx ! j) = taken_from j tk @ q_list (queues ctx' ! j)"
    and drained: "int (length (delivered hs tk)) < maxReads \<longrightarrow>
      (\<forall>j < length (queues ctx). q_list (queues ctx' ! j) = [])"
    using poll_scan_summary [OF assms(1), of hs maxReads] by metis
  have "delivered hs tk \<noteq> []"
  proof
    assume n: "delivered hs tk = []"
    then have "e \<in> set (taken_from j tk)"
      using fifo drained assms(2-4) by auto
    from delivered_Nil_taken [OF n this] assms(5) show False by simp
  qed
  with r show ?thesis by (auto simp: poll.simps)
qed

text \<open>Every ordinary event handed to the framework carries a handle issued by
  \<open>assign_global_handle\<close> that names the sub-HAL it came from and its local handle there.\<close>

lemma delivered_event_handle:
  assumes "handles_inv hs" "e' \<in> set (deliver hs i e)" "ev_type e \<noteq> SENSOR_TYPE_META_DATA"
  shows "ev_sensor e' \<in> {1..<next_global_handle hs} \<and>
     get_module_index hs (ev_sensor e') = i \<and> get_local_handle hs (ev_sensor e') = ev_sensor e"
proof -
  have e': "e' = e\<lparr>ev_sensor := get_global_handle hs (FullHandle i (ev_sensor e))\<rparr>" "ev_sensor e' \<noteq> -1"
    using assms(2,3) by (auto simp: deliver_def copy_event_remap_handle_def Let_def split: if_splits)
  then obtain g where g: "full_to_global hs (FullHandle i (ev_sensor e)) = Some g" "ev_sensor e' = g"
    by (auto simp: get_global_handle_def split: option.splits)
  then have "global_to_full hs g = Some (FullHandle i (ev_sensor e))"
    using assms(1) by (simp add: handles_inv_def)
  moreover from this have "g \<in> {1..<next_global_handle hs}"
    using assms(1) unfolding handles_inv_def by blast
  ultimately show ?thesis
    using g by (simp add: get_module_index_def get_local_handle_def)
qed

text \<open>The drop test of \<open>poll\<close> looks at the \<open>sensor\<close> field only: a meta-data event whose nested
  handle is unknown is not dropped but delivered with the nested handle -1.\<close>

lemma meta_event_unknown_handle_delivered:
  assumes "ev_type e = SENSOR_TYPE_META_DATA" "ev_sensor e = 0"
    and "full_to_global hs (FullHandle i (ev_meta_sensor e)) = None"
  shows "deliver hs i e = [e\<lparr>ev_meta_sensor := -1\<rparr>]"
  using assms by (simp add: deliver_def copy_event_remap_handle_def get_global_handle_def)

section \<open>Witnesses\<close>

definition sample_event :: "int \<Rightarrow> sensors_event" where
  "sample_event l = \<lparr>ev_sensor = l, ev_type = SENSOR_TYPE_PROXIMITY, ev_meta_sensor = 0,
     ev_timestamp = 0, ev_payload = []\<rparr>"

definition sample_ctx :: "unit poll_context" where
  "sample_ctx = \<lparr>sub_hw_devices = [()],
     queues = [\<lparr>mCapacity = 2, mStart = 1, mSize = 2, mData = [sample_event 8, sample_event 7]\<rparr>],
     nextReadIndex = 0\<rparr>"

lemma sample_ctx_inv: "ctx_inv sample_ctx"
  by (simp add: ctx_inv_def sample_ctx_def q_inv_def)

definition sample_handles :: handles where
  "sample_handles = snd (assign_global_handle 0 7 handles_init)"

theorem poll_scan_correct_witness:
  "ctx_inv sample_ctx \<and>
   (\<exists>ctx' tk. poll_scan (scan_fuel sample_ctx) sample_handles 5 sample_ctx 0 [] =
      Some (Ret (ctx', delivered sample_handles tk)) \<and> ctx_inv ctx')"
  using poll_scan_correct [OF sample_ctx_inv, of sample_handles 5] sample_ctx_inv by blast

theorem poll_returns_when_data_witness:
  "\<exists>ctx' data. poll (scan_fuel sample_ctx) sample_handles sample_ctx 5 [] = Some (Ret (ctx', data)) \<and> data \<noteq> []"
proof (rule poll_returns_when_data [OF sample_ctx_inv])
  show "(0::int) < 5" and "0 < length (queues sample_ctx)"
    by (simp_all add: sample_ctx_def)
  show "sample_event 7 \<in> set (q_list (queues sample_ctx ! 0))"
    by (simp add: sample_ctx_def q_list_def slot_def upt_rec)
  show "deliver sample_handles (int 0) (sample_event 7) \<noteq> []"
    by (simp add: deliver_def sample_handles_def copy_event_remap_handle_def get_global_handle_def
        assign_global_handle_def handles_init_def sample_event_def Let_def)
qed

end
