(* ===== verification/SensorList.thy ===== *)
theory SensorList
  imports MultiHalPoll
begin

text \<open>
  Module loading and the global sensor list of \<^verbatim>\<open>src/sensors/multihal.cpp\<close>: \<open>add_so_module\<close>,
  \<open>lazy_init_modules\<close>, \<open>fix_sensor_fields\<close>, \<open>lazy_init_sensors_list\<close> and \<open>open_sensors\<close>. The dynamic
  loader and the sub-HAL modules are parameters.
\<close>

section \<open>Data\<close>

record sensor_t =
  s_handle :: int
  s_type :: sensor_type
  fifoReservedEventCount :: int
  fifoMaxEventCount :: int
  s_flags :: u64
  maxRange :: rat
  s_rest :: "int list"

text \<open>What \<open>dlopen\<close> and \<open>dlsym\<close> give for a module file.\<close>

datatype 'm dl_result = DlopenFailed | DlsymFailed | DlsymNull | DlModule 'm

record 'm hal_globals =
  sub_hw_modules :: "'m list option"
  global_sensors_list :: "sensor_t list option"
  global_sensors_count :: int
  hal_handles :: handles

definition hal_globals_init :: "'m hal_globals" where
  "hal_globals_init = \<lparr>sub_hw_modules = None, global_sensors_list = None,
     global_sensors_count = -1, hal_handles = handles_init\<rparr>"

definition starts_with :: "string option \<Rightarrow> string option \<Rightarrow> bool" where
  "starts_with s pre =
     (case (s, pre) of
        (Some s', Some p') \<Rightarrow> length s' \<ge> length p' \<and> take (length p') s' = p'
      | _ \<Rightarrow> False)"

fun add_so_module :: "'m dl_result \<Rightarrow> 'm list \<Rightarrow> 'm list" where
  "add_so_module (DlModule m) ms = ms @ [m]"
| "add_so_module _ ms = ms"

definition lazy_init_modules :: "(string \<Rightarrow> 'm dl_result) \<Rightarrow> 'm hal_globals \<Rightarrow> 'm hal_globals" where
  "lazy_init_modules dl g =
     (case sub_hw_modules g of
        Some _ \<Rightarrow> g
      | None \<Rightarrow> g\<lparr>sub_hw_modules := Some (add_so_module (dl ''libsensors.lsm6db0.so'') [])\<rparr>)"

text \<open>The two flag constants come from the platform's \<open>sensors.h\<close>.\<close>

definition fix_sensor_fields :: "u64 \<Rightarrow> u64 \<Rightarrow> sensor_t \<Rightarrow> sensor_t" where
  "fix_sensor_fields SENSOR_FLAG_WAKE_UP SENSOR_FLAG_ON_CHANGE_MODE s =
     (let s' = s\<lparr>fifoReservedEventCount := 0, fifoMaxEventCount := 0\<rparr>
      in case s_type s of
           SENSOR_TYPE_TILT_DETECTOR \<Rightarrow> s'\<lparr>s_flags := SENSOR_FLAG_WAKE_UP OR SENSOR_FLAG_ON_CHANGE_MODE\<rparr>
         | SENSOR_TYPE_PROXIMITY \<Rightarrow> s'\<lparr>maxRange := 5\<rparr>
         | _ \<Rightarrow> s')"

section \<open>The sensor list\<close>

text \<open>The first loop counts; a module answers each call of \<open>get_sensors_list\<close> from a transcript.\<close>

type_synonym 'm subhals = "('m, sensor_t list) kernel"

fun count_sensors :: "'m subhals \<Rightarrow> 'm list \<Rightarrow> int \<Rightarrow> 'm list \<Rightarrow> int \<times> 'm list" where
  "count_sensors K [] n h = (n, h)"
| "count_sensors K (m # ms) n h =
     (let (l, h') = sys K m h in count_sensors K ms (n + int (length l)) h')"

text \<open>
  The second loop copies the sensors of one module; a copy past the \<open>global_sensors_count\<close> cells
  that were allocated is \<open>Crash\<close>.
\<close>

fun copy_sensors ::
  "u64 \<Rightarrow> u64 \<Rightarrow> int \<Rightarrow> int \<Rightarrow> sensor_t list \<Rightarrow> sensor_t list \<Rightarrow> handles \<Rightarrow> (sensor_t list \<times> handles) outcome" where
  "copy_sensors wu oc cap mi [] out hs = Ret (out, hs)"
| "copy_sensors wu oc cap mi (s # ss) out hs =
     (if int (length out) \<ge> cap then Crash
      else let (g, hs') = assign_global_handle mi (s_handle s) hs
           in copy_sensors wu oc cap mi ss (out @ [fix_sensor_fields wu oc (s\<lparr>s_handle := g\<rparr>)]) hs')"

fun copy_modules ::
  "'m subhals \<Rightarrow> u64 \<Rightarrow> u64 \<Rightarrow> int \<Rightarrow> int \<Rightarrow> 'm list \<Rightarrow> sensor_t list \<Rightarrow> handles \<Rightarrow> 'm list
   \<Rightarrow> (sensor_t list \<times> handles) outcome \<times> 'm list" where
  "copy_modules K wu oc cap mi [] out hs h = (Ret (out, hs), h)"
| "copy_modules K wu oc cap mi (m # ms) out hs h =
     (let (l, h') = sys K m h
      in case copy_sensors wu oc cap mi l out hs of
           Crash \<Rightarrow> (Crash, h')
         | Ret (out', hs') \<Rightarrow> copy_modules K wu oc cap (mi + 1) ms out' hs' h')"

definition lazy_init_sensors_list ::
  "(string \<Rightarrow> 'm dl_result) \<Rightarrow> 'm subhals \<Rightarrow> u64 \<Rightarrow> u64 \<Rightarrow> 'm hal_globals \<Rightarrow> 'm list
   \<Rightarrow> 'm hal_globals outcome \<times> 'm list" where
  "lazy_init_sensors_list dl K wu oc g h =
     (case global_sensors_list g of
        Some _ \<Rightarrow> (Ret g, h)
      | None \<Rightarrow>
          (let g1 = lazy_init_modules dl g;
               ms = the (sub_hw_modules g1);
               (n, h1) = count_sensors K ms 0 h;
               (r, h2) = copy_modules K wu oc n 0 ms [] (hal_handles g1) h1
           in case r of
                Crash \<Rightarrow> (Crash, h2)
              | Ret (out, hs) \<Rightarrow>
                  (Ret (g1\<lparr>global_sensors_list := Some out, global_sensors_count := n, hal_handles := hs\<rparr>), h2)))"

definition module__get_sensors_list ::
  "(string \<Rightarrow> 'm dl_result) \<Rightarrow> 'm subhals \<Rightarrow> u64 \<Rightarrow> u64 \<Rightarrow> 'm hal_globals \<Rightarrow> 'm list
   \<Rightarrow> (int \<times> sensor_t list option \<times> 'm hal_globals) outcome \<times> 'm list" where
  "module__get_sensors_list dl K wu oc g h =
     (case lazy_init_sensors_list dl K wu oc g h of
        (Crash, h') \<Rightarrow> (Crash, h')
      | (Ret g', h') \<Rightarrow> (Ret (global_sensors_count g', global_sensors_list g', g'), h'))"

section \<open>Opening\<close>

text \<open>\<open>open_fn\<close> is the sub-module's open method: its result and the device it hands out; \<open>cells\<close> the
  indeterminate bytes of each new queue.\<close>

fun open_subs :: "('m \<Rightarrow> int \<times> 'd) \<Rightarrow> sensors_event list \<Rightarrow> 'm list \<Rightarrow> 'd poll_context \<Rightarrow> 'd poll_context" where
  "open_subs open_fn cells [] dev = dev"
| "open_subs open_fn cells (m # ms) dev =
     (case open_fn m of
        (sub_open_result, sub_hw_device) \<Rightarrow>
          open_subs open_fn cells ms
            (if sub_open_result = 0 then addSubHwDevice cells sub_hw_device dev else dev))"

definition open_sensors ::
  "(string \<Rightarrow> 'm dl_result) \<Rightarrow> ('m \<Rightarrow> int \<times> 'd) \<Rightarrow> sensors_event list \<Rightarrow> 'm hal_globals
   \<Rightarrow> int \<times> 'd poll_context \<times> 'm hal_globals" where
  "open_sensors dl open_fn cells g =
     (let g' = lazy_init_modules dl g;
          dev = \<lparr>sub_hw_devices = [], queues = [], nextReadIndex = 0\<rparr>
      in (0, open_subs open_fn cells (the (sub_hw_modules g')) dev, g'))"

section \<open>Lemmas\<close>

lemma open_subs_devices:
  "sub_hw_devices (open_subs open_fn cells ms dev) =
     sub_hw_devices dev @ map (snd \<circ> open_fn) (filter (\<lambda>m. fst (open_fn m) = 0) ms)"
  by (induction ms arbitrary: dev) (auto simp: addSubHwDevice_def split: prod.splits)

lemma open_subs_queues:
  "queues (open_subs open_fn cells ms dev) =
     queues dev @ replicate (length (filter (\<lambda>m. fst (open_fn m) = 0) ms))
       (SensorEventQueue_new SENSOR_EVENT_QUEUE_CAPACITY cells)"
  by (induction ms arbitrary: dev)
     (auto simp: addSubHwDevice_def replicate_append_same split: prod.splits)

lemma open_subs_index: "nextReadIndex (open_subs open_fn cells ms dev) = nextReadIndex dev"
  by (induction ms arbitrary: dev) (auto simp: addSubHwDevice_def split: prod.splits)

lemma open_sensors_ctx_inv:
  assumes "length cells = 36"
  shows "ctx_inv (fst (snd (open_sensors dl open_fn cells g)))"
  using assms
  by (auto simp: open_sensors_def Let_def ctx_inv_def open_subs_queues open_subs_index
      list_all_iff SENSOR_EVENT_QUEUE_CAPACITY_def intro!: q_inv_new)

lemma fix_sensor_fields_handle [simp]: "s_handle (fix_sensor_fields wu oc s) = s_handle s"
  by (simp add: fix_sensor_fields_def Let_def split: sensor_type.splits)

lemma fix_sensor_fields_fifo [simp]:
  "fifoReservedEventCount (fix_sensor_fields wu oc s) = 0"
  "fifoMaxEventCount (fix_sensor_fields wu oc s) = 0"
  by (simp_all add: fix_sensor_fields_def Let_def split: sensor_type.splits)

lemma fix_sensor_fields_type [simp]: "s_type (fix_sensor_fields wu oc s) = s_type s"
  by (simp add: fix_sensor_fields_def Let_def split: sensor_type.splits)

text \<open>
  The reference for the two loops: the sensors of all modules in order, paired with their module
  index; the published list numbers them consecutively, and the handle tables record each.
\<close>

fun sensor_pairs :: "('m \<Rightarrow> sensor_t list) \<Rightarrow> int \<Rightarrow> 'm list \<Rightarrow> (int \<times> sensor_t) list" where
  "sensor_pairs S mi [] = []"
| "sensor_pairs S mi (m # ms) = map (Pair mi) (S m) @ sensor_pairs S (mi + 1) ms"

lemma sensor_pairs_index:
  "k < length (sensor_pairs S j ms) \<Longrightarrow> \<exists>i < length ms. fst (sensor_pairs S j ms ! k) = j + int i"
proof (induction ms arbitrary: j k)
  case (Cons m ms)
  show ?case
  proof (cases "k < length (S m)")
    case True
    then show ?thesis by (intro exI [of _ 0]) (simp add: nth_append)
  next
    case False
    then have "k - length (S m) < length (sensor_pairs S (j + 1) ms)" using Cons.prems by simp
    from Cons.IH [OF this] obtain i where "i < length ms"
      "fst (sensor_pairs S (j + 1) ms ! (k - length (S m))) = j + 1 + int i" by blast
    then show ?thesis using False by (intro exI [of _ "Suc i"]) (simp add: nth_append)
  qed
qed simp

fun publish :: "u64 \<Rightarrow> u64 \<Rightarrow> int \<Rightarrow> (int \<times> sensor_t) list \<Rightarrow> sensor_t list" where
  "publish wu oc g [] = []"
| "publish wu oc g (p # ps) = fix_sensor_fields wu oc ((snd p)\<lparr>s_handle := g\<rparr>) # publish wu oc (g + 1) ps"

fun assign_all :: "handles \<Rightarrow> (int \<times> sensor_t) list \<Rightarrow> handles" where
  "assign_all hs [] = hs"
| "assign_all hs (p # ps) = assign_all (snd (assign_global_handle (fst p) (s_handle (snd p)) hs)) ps"

lemma assign_global_handle_next:
  "fst (assign_global_handle mi l hs) = next_global_handle hs"
  "next_global_handle (snd (assign_global_handle mi l hs)) = next_global_handle hs + 1"
  by (simp_all add: assign_global_handle_def Let_def)

lemma length_publish [simp]: "length (publish wu oc g ps) = length ps"
  by (induction ps arbitrary: g) simp_all

lemma publish_append: "publish wu oc g (ps @ qs) = publish wu oc g ps @ publish wu oc (g + int (length ps)) qs"
  by (induction ps arbitrary: g) (simp_all add: algebra_simps)

lemma nth_publish:
  "k < length ps \<Longrightarrow> publish wu oc g ps ! k = fix_sensor_fields wu oc ((snd (ps ! k))\<lparr>s_handle := g + int k\<rparr>)"
proof (induction ps arbitrary: g k)
  case (Cons p ps)
  then show ?case by (cases k) (simp_all add: algebra_simps)
qed simp

lemma assign_all_append: "assign_all hs (ps @ qs) = assign_all (assign_all hs ps) qs"
  by (induction ps arbitrary: hs) simp_all

lemma assign_all_next: "next_global_handle (assign_all hs ps) = next_global_handle hs + int (length ps)"
  by (induction ps arbitrary: hs) (simp_all add: assign_global_handle_next)

lemma assign_all_inv: "handles_inv hs \<Longrightarrow> handles_inv (assign_all hs ps)"
  by (induction ps arbitrary: hs) (simp_all add: handles_inv_assign)

lemma assign_all_frame:
  "handles_inv hs \<Longrightarrow> global_to_full hs g = Some f \<Longrightarrow> global_to_full (assign_all hs ps) g = Some f"
  by (induction ps arbitrary: hs) (simp_all add: assign_frame handles_inv_assign)

lemma assign_all_nth:
  "handles_inv hs \<Longrightarrow> k < length ps \<Longrightarrow>
   global_to_full (assign_all hs ps) (next_global_handle hs + int k) =
     Some (FullHandle (fst (ps ! k)) (s_handle (snd (ps ! k))))"
proof (induction ps arbitrary: hs k)
  case (Cons p ps)
  let ?hs = "snd (assign_global_handle (fst p) (s_handle (snd p)) hs)"
  have inv: "handles_inv ?hs" using Cons.prems(1) by (rule handles_inv_assign)
  show ?case
  proof (cases k)
    case 0
    have "global_to_full ?hs (next_global_handle hs) = Some (FullHandle (fst p) (s_handle (snd p)))"
      by (simp add: assign_global_handle_def Let_def)
    with 0 inv show ?thesis by (simp add: assign_all_frame)
  next
    case (Suc j)
    with Cons.IH [OF inv, of j] Cons.prems(2) show ?thesis
      by (simp add: assign_global_handle_next algebra_simps)
  qed
qed simp

lemma copy_sensors_ok:
  "int (length out + length ss) \<le> cap \<Longrightarrow>
   copy_sensors wu oc cap mi ss out hs =
     Ret (out @ publish wu oc (next_global_handle hs) (map (Pair mi) ss), assign_all hs (map (Pair mi) ss))"
proof (induction ss arbitrary: out hs)
  case (Cons s ss)
  then show ?case
    using assign_global_handle_next [of mi "s_handle s" hs]
    by (cases "assign_global_handle mi (s_handle s) hs") (simp add: Let_def)
qed simp

definition stable :: "'m subhals \<Rightarrow> ('m \<Rightarrow> sensor_t list) \<Rightarrow> bool" where
  "stable K S \<longleftrightarrow> (\<forall>h m. K h m = S m)"

lemma count_sensors_ok:
  "stable K S \<Longrightarrow> fst (count_sensors K ms n h) = n + int (length (sensor_pairs S mi ms))"
proof (induction ms arbitrary: n h mi)
  case (Cons m ms)
  from Cons.prems have "K h m = S m" by (simp add: stable_def)
  with Cons.IH [OF Cons.prems, of "n + int (length (S m))" "h @ [m]" "mi + 1"] show ?case
    by (simp add: sys_def)
qed simp

lemma copy_modules_ok:
  "stable K S \<Longrightarrow> int (length out + length (sensor_pairs S mi ms)) \<le> cap \<Longrightarrow>
   fst (copy_modules K wu oc cap mi ms out hs h) =
     Ret (out @ publish wu oc (next_global_handle hs) (sensor_pairs S mi ms),
          assign_all hs (sensor_pairs S mi ms))"
proof (induction ms arbitrary: mi out hs h)
  case (Cons m ms)
  then have l: "K h m = S m" by (simp add: stable_def)
  have "copy_sensors wu oc cap mi (S m) out hs =
     Ret (out @ publish wu oc (next_global_handle hs) (map (Pair mi) (S m)),
          assign_all hs (map (Pair mi) (S m)))"
    using Cons.prems(2) by (intro copy_sensors_ok) simp
  with Cons l show ?case
    by (simp add: sys_def publish_append assign_all_append assign_all_next)
qed simp

lemma lazy_init_sensors_list_ok:
  assumes "stable K S" "global_sensors_list g = None"
    and ms_def: "ms = the (sub_hw_modules (lazy_init_modules dl g))"
  shows "fst (lazy_init_sensors_list dl K wu oc g h) =
    Ret ((lazy_init_modules dl g)\<lparr>
      global_sensors_list := Some (publish wu oc (next_global_handle (hal_handles g)) (sensor_pairs S 0 ms)),
      global_sensors_count := int (length (sensor_pairs S 0 ms)),
      hal_handles := assign_all (hal_handles g) (sensor_pairs S 0 ms)\<rparr>)"
proof -
  have hs: "hal_handles (lazy_init_modules dl g) = hal_handles g"
    by (simp add: lazy_init_modules_def split: option.splits)
  obtain n h1 where c: "count_sensors K ms 0 h = (n, h1)" by fastforce
  then have n: "n = int (length (sensor_pairs S 0 ms))"
    using count_sensors_ok [OF assms(1), of ms 0 h 0] by simp
  obtain r h2 where r: "copy_modules K wu oc n 0 ms [] (hal_handles g) h1 = (r, h2)" by fastforce
  then have "r = Ret (publish wu oc (next_global_handle (hal_handles g)) (sensor_pairs S 0 ms),
      assign_all (hal_handles g) (sensor_pairs S 0 ms))"
    using copy_modules_ok [OF assms(1), of "[]" 0 ms n wu oc "hal_handles g" h1] n by simp
  with c r n assms(2) show ?thesis
    by (simp add: lazy_init_sensors_list_def Let_def hs ms_def)
qed

section \<open>Properties\<close>

text \<open>The position in the published list of sensor \<open>j\<close> of module \<open>i\<close>.\<close>

definition list_position :: "('m \<Rightarrow> sensor_t list) \<Rightarrow> 'm list \<Rightarrow> nat \<Rightarrow> nat \<Rightarrow> nat" where
  "list_position S ms i j = length (concat (map S (take i ms))) + j"

lemma length_sensor_pairs: "length (sensor_pairs S mi ms) = length (concat (map S ms))"
  by (induction ms arbitrary: mi) simp_all

lemma sensor_pairs_nth:
  "i < length ms \<Longrightarrow> j < length (S (ms ! i)) \<Longrightarrow>
   sensor_pairs S mi ms ! list_position S ms i j = (mi + int i, S (ms ! i) ! j)"
proof (induction ms arbitrary: mi i)
  case (Cons m ms)
  show ?case
  proof (cases i)
    case 0
    then show ?thesis using Cons.prems by (simp add: list_position_def nth_append)
  next
    case (Suc n)
    then show ?thesis using Cons.IH [of n "mi + 1"] Cons.prems by (simp add: list_position_def nth_append algebra_simps)
  qed
qed simp

lemma list_position_less:
  assumes "i < length ms" "j < length (S (ms ! i))"
  shows "list_position S ms i j < length (concat (map S ms))"
proof -
  have "concat (map S ms) = concat (map S (take i ms)) @ S (ms ! i) @ concat (map S (drop (Suc i) ms))"
    using assms(1) by (metis concat.simps(2) concat_append id_take_nth_drop list.simps(9) map_append)
  then show ?thesis using assms(2) by (simp add: list_position_def)
qed

lemma get_sensors_list_run:
  assumes "stable K S" "global_sensors_list g = None" "hal_handles g = handles_init"
    and "sub_hw_modules (lazy_init_modules dl g) = Some ms"
  shows "fst (module__get_sensors_list dl K wu oc g h) =
    (let ps = sensor_pairs S 0 ms; out = publish wu oc 1 ps
     in Ret (int (length out), Some out, (lazy_init_modules dl g)\<lparr>global_sensors_list := Some out,
          global_sensors_count := int (length ps), hal_handles := assign_all handles_init ps\<rparr>))"
  using lazy_init_sensors_list_ok [OF assms(1,2) refl, of dl wu oc h] assms(3,4)
  by (cases "lazy_init_sensors_list dl K wu oc g h") (simp add: module__get_sensors_list_def handles_init_def Let_def)

lemma published_handle:
  assumes "i < length ms" "j < length (S (ms ! i))"
  shows "global_to_full (assign_all handles_init (sensor_pairs S 0 ms)) (int (list_position S ms i j) + 1) =
    Some (FullHandle (int i) (s_handle (S (ms ! i) ! j)))"
  using assign_all_nth [OF handles_inv_init, of "list_position S ms i j" "sensor_pairs S 0 ms"] list_position_less [of i ms j S]
    sensor_pairs_nth [of i ms j S 0] assms
  by (simp add: handles_init_def length_sensor_pairs add.commute)

text \<open>C17. When the sub-HALs answer \<open>get_sensors_list\<close> consistently, the first call of
  \<open>module__get_sensors_list\<close>, which loads the modules unless \<open>open_sensors\<close> has loaded them before,
  publishes the sensors of all loaded modules: sensor \<open>j\<close> of module \<open>i\<close> at the position after the
  sensors before it, under the handle that is this position plus 1, with no FIFO, with the flags of
  a tilt detector and the range of a proximity sensor replaced and with every other field as the
  module gave it; and the handle tables resolve that handle to the module and its local handle.\<close>

theorem get_sensors_list_publishes:
  assumes "stable K S" "global_sensors_list g = None" "hal_handles g = handles_init"
    and "sub_hw_modules (lazy_init_modules dl g) = Some ms"
  shows "\<exists>out g'. fst (module__get_sensors_list dl K wu oc g h) = Ret (int (length out), Some out, g') \<and>
     sub_hw_modules g' = Some ms \<and> length out = length (concat (map S ms)) \<and>
     (\<forall>i < length ms. \<forall>j < length (S (ms ! i)).
        let k = list_position S ms i j; s = S (ms ! i) ! j in
        out ! k = s\<lparr>s_handle := int k + 1, fifoReservedEventCount := 0, fifoMaxEventCount := 0,
          s_flags := (if s_type s = SENSOR_TYPE_TILT_DETECTOR then wu OR oc else s_flags s),
          maxRange := (if s_type s = SENSOR_TYPE_PROXIMITY then 5 else maxRange s)\<rparr> \<and>
        get_module_index (hal_handles g') (int k + 1) = int i \<and>
        get_local_handle (hal_handles g') (int k + 1) = s_handle s)"
proof -
  let ?ps = "sensor_pairs S 0 ms"
  let ?out = "publish wu oc 1 ?ps"
  let ?g' = "(lazy_init_modules dl g)\<lparr>global_sensors_list := Some ?out, global_sensors_count := int (length ?ps),
    hal_handles := assign_all handles_init ?ps\<rparr>"
  have r: "fst (module__get_sensors_list dl K wu oc g h) = Ret (int (length ?out), Some ?out, ?g')"
    using get_sensors_list_run [OF assms, of wu oc h] by (simp add: Let_def)
  have "?out ! list_position S ms i j = fix_sensor_fields wu oc ((S (ms ! i) ! j)\<lparr>s_handle := int (list_position S ms i j) + 1\<rparr>)"
    if "i < length ms" "j < length (S (ms ! i))" for i j
    using that list_position_less [of i ms j S] by (simp add: nth_publish length_sensor_pairs sensor_pairs_nth add.commute)
  then show ?thesis
    using r assms(4) published_handle [of _ ms _ S]
    by (intro exI [of _ ?out] exI [of _ ?g'])
      (simp add: Let_def length_sensor_pairs fix_sensor_fields_def get_module_index_def get_local_handle_def split: sensor_type.split)
qed

text \<open>\<open>get_sensors_list\<close> is idempotent: once the list exists, later calls return the same list and
  count, assign no handles and call no sub-HAL.\<close>

lemma get_sensors_list_idempotent:
  assumes "global_sensors_list g = Some out"
  shows "module__get_sensors_list dl K wu oc g h = (Ret (global_sensors_count g, Some out, g), h)"
  using assms by (simp add: module__get_sensors_list_def lazy_init_sensors_list_def)

text \<open>C18. After the first call of \<open>module__get_sensors_list\<close>, on sub-HALs that answer it consistently,
  and with every sub-module opening, \<open>activate\<close> on the handle that the published list gives sensor
  \<open>j\<close> of module \<open>i\<close>, looked up in the handle tables this call has filled, calls the device opened
  from module \<open>i\<close>, with the sensor's own local handle, and returns what that device returns.\<close>

theorem activate_reaches_owner:
  assumes "stable K S" "global_sensors_list g = None" "hal_handles g = handles_init"
    and "fst (module__get_sensors_list dl K wu oc g h) = Ret (n, Some out, g')" "sub_hw_modules g' = Some ms"
    and "\<forall>m \<in> set ms. fst (open_fn m) = 0" "i < length ms" "j < length (S (ms ! i))"
  shows "let dev = fst (snd (open_sensors dl open_fn cells g')); s = out ! list_position S ms i j;
           c = DevActivate (snd (open_fn (ms ! i))) (s_handle (S (ms ! i) ! j)) enabled
         in ctx_activate D (hal_handles g') dev (s_handle s) enabled hd0 = (Ret (D hd0 c), hd0 @ [c])"
proof -
  let ?ps = "sensor_pairs S 0 ms"
  have "\<exists>ms'. sub_hw_modules (lazy_init_modules dl g) = Some ms'" by (simp add: lazy_init_modules_def split: option.split)
  then obtain ms' where ms': "sub_hw_modules (lazy_init_modules dl g) = Some ms'" by blast
  note R = get_sensors_list_run [OF assms(1-3) ms', of wu oc h, unfolded assms(4) Let_def]
  then have "ms' = ms" using assms(5) ms' by auto
  then have g': "out = publish wu oc 1 ?ps" "hal_handles g' = assign_all handles_init ?ps" using R by simp_all
  have "global_to_full (hal_handles g') (s_handle (out ! list_position S ms i j)) = Some (FullHandle (int i) (s_handle (S (ms ! i) ! j)))"
    using published_handle [of i ms j S] list_position_less [of i ms j S] assms(7,8)
    by (simp add: g' nth_publish length_sensor_pairs add.commute)
  moreover have "sub_hw_devices (fst (snd (open_sensors dl open_fn cells g'))) = map (snd \<circ> open_fn) ms"
    using assms(5,6) by (simp add: open_sensors_def Let_def lazy_init_modules_def open_subs_devices)
  ultimately show ?thesis
    using assms(7) by (simp add: ctx_activate_def get_v0_device_by_handle_def get_module_index_def
        get_local_handle_def sys_def Let_def)
qed

text \<open>The comment in \<open>open_sensors\<close> calls the device vector parallel to \<open>sub_hw_modules\<close>; it is not
  when a sub-module fails to open: with modules A (failing) and B, the handle of a sensor of A
  activates the device of B, and the handle of a sensor of B dereferences a null device.\<close>

lemma failed_open_shifts_devices:
  fixes K :: "string devs"
  shows "ctx_activate K (assign_all handles_init [(0, a), (1, b)])
       (open_subs (\<lambda>m. if m = ''A'' then (-19, ''devA'') else (0, ''devB'')) cells [''A'', ''B'']
          \<lparr>sub_hw_devices = [], queues = [], nextReadIndex = 0\<rparr>) 1 1 h =
     (Ret (K h (DevActivate ''devB'' (s_handle a) 1)), h @ [DevActivate ''devB'' (s_handle a) 1]) \<and>
   fst (ctx_activate K (assign_all handles_init [(0, a), (1, b)])
       (open_subs (\<lambda>m. if m = ''A'' then (-19, ''devA'') else (0, ''devB'')) cells [''A'', ''B'']
          \<lparr>sub_hw_devices = [], queues = [], nextReadIndex = 0\<rparr>) 2 1 h) = Crash"
  by (simp add: ctx_activate_def get_v0_device_by_handle_def get_module_index_def get_local_handle_def
      addSubHwDevice_def assign_global_handle_def handles_init_def sys_def Let_def)

section \<open>Witnesses\<close>

text \<open>One module with two sensors, loaded by the first call from the initial state of the program.\<close>

definition sample_sensor :: "int \<Rightarrow> sensor_t" where
  "sample_sensor l = \<lparr>s_handle = l, s_type = SENSOR_TYPE_PROXIMITY, fifoReservedEventCount = 3,
     fifoMaxEventCount = 4, s_flags = 0, maxRange = 1, s_rest = [8]\<rparr>"

definition sample_list :: "nat \<Rightarrow> sensor_t list" where
  "sample_list m = [sample_sensor 4, sample_sensor 9]"

definition sample_subhals :: "nat subhals" where
  "sample_subhals h m = sample_list m"

definition sample_dl :: "string \<Rightarrow> nat dl_result" where
  "sample_dl path = DlModule 7"

lemma sample_stable: "stable sample_subhals sample_list"
  by (simp add: stable_def sample_subhals_def)

lemma sample_loaded: "sub_hw_modules (lazy_init_modules sample_dl hal_globals_init) = Some [7]"
  by (simp add: lazy_init_modules_def sample_dl_def hal_globals_init_def)

lemma sample_first: "global_sensors_list hal_globals_init = None" "hal_handles hal_globals_init = handles_init"
  by (simp_all add: hal_globals_init_def)

theorem get_sensors_list_publishes_witness:
  "\<exists>g'. fst (module__get_sensors_list sample_dl sample_subhals 1 2 hal_globals_init []) =
      Ret (2, Some [\<lparr>s_handle = 1, s_type = SENSOR_TYPE_PROXIMITY, fifoReservedEventCount = 0, fifoMaxEventCount = 0,
                     s_flags = 0, maxRange = 5, s_rest = [8]\<rparr>,
                   \<lparr>s_handle = 2, s_type = SENSOR_TYPE_PROXIMITY, fifoReservedEventCount = 0, fifoMaxEventCount = 0,
                     s_flags = 0, maxRange = 5, s_rest = [8]\<rparr>], g') \<and>
     get_local_handle (hal_handles g') 2 = 9 \<and> get_module_index (hal_handles g') 2 = 0"
proof -
  obtain out g' where
    r: "fst (module__get_sensors_list sample_dl sample_subhals 1 2 hal_globals_init []) = Ret (int (length out), Some out, g')"
    and n: "length out = length (concat (map sample_list [7]))"
    and k: "\<forall>i < length [7 :: nat]. \<forall>j < length (sample_list ([7] ! i)).
        let k = list_position sample_list [7] i j; s = sample_list ([7] ! i) ! j in
        out ! k = s\<lparr>s_handle := int k + 1, fifoReservedEventCount := 0, fifoMaxEventCount := 0,
          s_flags := (if s_type s = SENSOR_TYPE_TILT_DETECTOR then 1 OR 2 else s_flags s),
          maxRange := (if s_type s = SENSOR_TYPE_PROXIMITY then 5 else maxRange s)\<rparr> \<and>
        get_module_index (hal_handles g') (int k + 1) = int i \<and> get_local_handle (hal_handles g') (int k + 1) = s_handle s"
    using get_sensors_list_publishes [OF sample_stable sample_first sample_loaded, of 1 2 "[]"] by blast
  obtain a b where "out = [a, b]" using n by (auto simp: sample_list_def length_Suc_conv)
  then show ?thesis using r k [rule_format, of 0 0] k [rule_format, of 0 1]
    by (simp add: list_position_def Let_def sample_list_def sample_sensor_def)
qed

theorem activate_reaches_owner_witness:
  "\<exists>n out g'. fst (module__get_sensors_list sample_dl sample_subhals 1 2 hal_globals_init []) = Ret (n, Some out, g') \<and>
     s_handle (out ! 1) = 2 \<and>
     ctx_activate (\<lambda>h c. 0) (hal_handles g') (fst (snd (open_sensors sample_dl (\<lambda>m. (0, ''dev'')) [] g'))) 2 1 [] =
       (Ret 0, [DevActivate ''dev'' 9 1])"
proof -
  note run = get_sensors_list_run [OF sample_stable sample_first sample_loaded, of 1 2 "[]", unfolded Let_def]
  define out where "out = publish 1 2 1 (sensor_pairs sample_list 0 [7])"
  obtain n g' where r: "fst (module__get_sensors_list sample_dl sample_subhals 1 2 hal_globals_init []) = Ret (n, Some out, g')"
    and m: "sub_hw_modules g' = Some [7]"
    using run sample_loaded by (simp add: out_def)
  have o: "s_handle (out ! 1) = 2" by (simp add: out_def sample_list_def)
  show ?thesis
    using activate_reaches_owner [OF sample_stable sample_first r m, of "\<lambda>m. (0, ''dev'')" 0 1 "[]" 1 "\<lambda>h c. 0" "[]"] r o
    by (intro exI [of _ n] exI [of _ out] exI [of _ g']) (simp add: list_position_def sample_list_def sample_sensor_def Let_def)
qed

end
