(* ===== verification/MultiHalThreads.thy ===== *)
theory MultiHalThreads
  imports MultiHalPoll
begin

text \<open>
  The writer threads (\<open>writerTask\<close>) and the polling reader of \<^verbatim>\<open>src/sensors/multihal.cpp\<close> as one
  step relation. Everything done between a lock and the following unlock of \<open>queue_mutex\<close> is one
  step; the blocking poll of a sub-HAL runs outside the lock, so each of its stores into the
  reserved region is a step of its own. Ghost fields record what was committed to and what was
  taken from every queue.
\<close>

section \<open>The threads\<close>

datatype wpc = WIdle | WPolling nat nat

datatype rpc = RIdle | RWaiting bool

record 'd msys =
  sys_ctx :: "'d poll_context"
  writers :: "wpc list"
  reader :: rpc
  waiting_for_data :: bool
  ghost_in :: "sensors_event list list"
  ghost_out :: "sensors_event list list"

definition queue_of :: "'d msys \<Rightarrow> nat \<Rightarrow> sensors_event sensor_queue" where
  "queue_of s i = queues (sys_ctx s) ! i"

definition set_queue :: "nat \<Rightarrow> sensors_event sensor_queue \<Rightarrow> 'd msys \<Rightarrow> 'd msys" where
  "set_queue i q s = s\<lparr>sys_ctx := (sys_ctx s)\<lparr>queues := (queues (sys_ctx s))[i := q]\<rparr>\<rparr>"

text \<open>First critical section of \<open>writerTask\<close>: \<open>waitForSpace\<close> has returned and the region is reserved.\<close>

definition writer_reserve :: "nat \<Rightarrow> 'd msys \<Rightarrow> 'd msys option" where
  "writer_reserve i s =
     (case getWritableRegion (queue_of s i) SENSOR_EVENT_QUEUE_CAPACITY of
        (None, _) \<Rightarrow> None
      | (Some f, k) \<Rightarrow> Some (s\<lparr>writers := (writers s)[i := WPolling (nat f) (nat k)]\<rparr>))"

text \<open>Second critical section: the \<open>m\<close> events polled are published, and a waiting reader is
  woken.\<close>

definition writer_commit :: "nat \<Rightarrow> nat \<Rightarrow> nat \<Rightarrow> 'd msys \<Rightarrow> 'd msys" where
  "writer_commit i f m s =
     (set_queue i (markAsWritten (queue_of s i) (int m)) s)\<lparr>
        writers := (writers s)[i := WIdle],
        reader := (if waiting_for_data s then (case reader s of RWaiting _ \<Rightarrow> RWaiting True | r \<Rightarrow> r) else reader s),
        ghost_in := (ghost_in s)[i := ghost_in s ! i @ take m (drop f (mData (queue_of s i)))]\<rparr>"

text \<open>The reader scans the queues under the lock, from the call of \<open>poll\<close> or after a wake-up, and
  either returns with data or sets \<open>waiting_for_data\<close> and waits.\<close>

definition reader_scan :: "'d poll_context \<Rightarrow> sensors_event list \<Rightarrow> 'd msys \<Rightarrow> 'd msys" where
  "reader_scan ctx' data s =
     s\<lparr>sys_ctx := ctx',
       reader := (if data \<noteq> [] then RIdle else RWaiting False),
       waiting_for_data := (data = []),
       ghost_out := map (\<lambda>i. ghost_out s ! i @
           take (length (q_list (queue_of s i)) - length (q_list (queues ctx' ! i))) (q_list (queue_of s i)))
         [0..<length (ghost_out s)]\<rparr>"

inductive msys_step :: "handles \<Rightarrow> int \<Rightarrow> 'd msys \<Rightarrow> 'd msys \<Rightarrow> bool"
  for hs maxReads where
  reserve: "i < length (writers s) \<Longrightarrow> writers s ! i = WIdle \<Longrightarrow> writer_reserve i s = Some s' \<Longrightarrow>
    msys_step hs maxReads s s'"
| store: "i < length (writers s) \<Longrightarrow> writers s ! i = WPolling f k \<Longrightarrow> j < k \<Longrightarrow>
    msys_step hs maxReads s (set_queue i (store (f + j) e (queue_of s i)) s)"
| retry: "i < length (writers s) \<Longrightarrow> writers s ! i = WPolling f k \<Longrightarrow>
    msys_step hs maxReads s (s\<lparr>writers := (writers s)[i := WIdle]\<rparr>)"
| commit: "i < length (writers s) \<Longrightarrow> writers s ! i = WPolling f k \<Longrightarrow> 0 < m \<Longrightarrow> m \<le> k \<Longrightarrow>
    msys_step hs maxReads s (writer_commit i f m s)"
| scan: "poll_scan n hs maxReads (sys_ctx s) 0 [] = Some (Ret (ctx', data)) \<Longrightarrow>
    msys_step hs maxReads s (reader_scan ctx' data s)"

definition msys_init :: "'d poll_context \<Rightarrow> 'd msys" where
  "msys_init ctx = \<lparr>sys_ctx = ctx, writers = replicate (length (queues ctx)) WIdle, reader = RIdle,
     waiting_for_data = False, ghost_in = replicate (length (queues ctx)) [],
     ghost_out = replicate (length (queues ctx)) []\<rparr>"

inductive msys_reach :: "handles \<Rightarrow> int \<Rightarrow> 'd poll_context \<Rightarrow> 'd msys \<Rightarrow> bool"
  for hs maxReads ctx where
  start: "msys_reach hs maxReads ctx (msys_init ctx)"
| step: "msys_reach hs maxReads ctx s \<Longrightarrow> msys_step hs maxReads s s' \<Longrightarrow> msys_reach hs maxReads ctx s'"

section \<open>The invariant\<close>

definition msys_inv :: "'d msys \<Rightarrow> bool" where
  "msys_inv s \<longleftrightarrow>
     ctx_inv (sys_ctx s) \<and>
     length (writers s) = length (queues (sys_ctx s)) \<and>
     length (ghost_in s) = length (queues (sys_ctx s)) \<and>
     length (ghost_out s) = length (queues (sys_ctx s)) \<and>
     (\<forall>i < length (writers s). \<forall>f k. writers s ! i = WPolling f k \<longrightarrow> reserved (queue_of s i) f k) \<and>
     (\<forall>i < length (writers s). ghost_out s ! i @ q_list (queue_of s i) = ghost_in s ! i) \<and>
     waiting_for_data s = (reader s \<noteq> RIdle) \<and>
     (reader s = RWaiting False \<longrightarrow> (\<forall>i < length (writers s). q_list (queue_of s i) = []))"

lemma msys_inv_q: "msys_inv s \<Longrightarrow> i < length (writers s) \<Longrightarrow> q_inv (queue_of s i)"
  by (simp add: msys_inv_def ctx_inv_def list_all_length queue_of_def)

lemma msys_inv_writer:
  "msys_inv s \<Longrightarrow> i < length (writers s) \<Longrightarrow> writers s ! i = WPolling f k \<Longrightarrow>
   q_inv (queue_of s i) \<and> reserved (queue_of s i) f k \<and> i < length (queues (sys_ctx s))"
  using msys_inv_q [of s i] by (simp add: msys_inv_def)

lemma ctx_inv_update:
  "ctx_inv c \<Longrightarrow> q_inv q \<Longrightarrow> ctx_inv (c\<lparr>queues := (queues c)[i := q]\<rparr>)"
  by (auto simp: ctx_inv_def list_all_length nth_list_update_if)

lemma set_queue_sel [simp]:
  "sys_ctx (set_queue i q s) = (sys_ctx s)\<lparr>queues := (queues (sys_ctx s))[i := q]\<rparr>"
  "writers (set_queue i q s) = writers s" "reader (set_queue i q s) = reader s"
  "waiting_for_data (set_queue i q s) = waiting_for_data s"
  "ghost_in (set_queue i q s) = ghost_in s" "ghost_out (set_queue i q s) = ghost_out s"
  by (simp_all add: set_queue_def)

lemma queue_of_set_queue:
  "i < length (queues (sys_ctx s)) \<Longrightarrow>
   queue_of (set_queue i q s) j = (if j = i then q else queue_of s j)"
  by (simp add: queue_of_def)

lemma inv_reserve:
  assumes "msys_inv s" "i < length (writers s)" "writer_reserve i s = Some s'"
  shows "msys_inv s'"
proof -
  obtain f k where r: "getWritableRegion (queue_of s i) SENSOR_EVENT_QUEUE_CAPACITY = (Some f, k)"
    and s': "s' = s\<lparr>writers := (writers s)[i := WPolling (nat f) (nat k)]\<rparr>"
    using assms(3) by (auto simp: writer_reserve_def split: prod.splits option.splits)
  have "reserved (queue_of s i) (nat f) (nat k)"
    using region_reserved [OF msys_inv_q [OF assms(1,2)] r] .
  with assms(1,2) show ?thesis
    unfolding s' msys_inv_def by (auto simp: nth_list_update_if queue_of_def)
qed

lemma inv_store:
  assumes "msys_inv s" "i < length (writers s)" "writers s ! i = WPolling f k" "j < k"
  shows "msys_inv (set_queue i (store (f + j) e (queue_of s i)) s)"
proof -
  have q: "q_inv (queue_of s i)" "reserved (queue_of s i) f k" and l: "i < length (queues (sys_ctx s))"
    using msys_inv_writer [OF assms(1-3)] by simp_all
  show ?thesis
    using assms(1) q l q_list_store [OF q assms(4), of e]
    unfolding msys_inv_def
    by (simp add: ctx_inv_update q_inv_store queue_of_set_queue)
qed

lemma inv_retry:
  assumes "msys_inv s"
  shows "msys_inv (s\<lparr>writers := (writers s)[i := WIdle]\<rparr>)"
  using assms unfolding msys_inv_def
  by (auto simp: nth_list_update_if queue_of_def)

lemma inv_commit:
  assumes "msys_inv s" "i < length (writers s)" "writers s ! i = WPolling f k" "0 < m" "m \<le> k"
  shows "msys_inv (writer_commit i f m s)"
proof -
  have q: "q_inv (queue_of s i)" "reserved (queue_of s i) f k" and l: "i < length (queues (sys_ctx s))"
    using msys_inv_writer [OF assms(1-3)] by simp_all
  let ?q = "markAsWritten (queue_of s i) (int m)"
  have s': "queue_of (writer_commit i f m s) j = (if j = i then ?q else queue_of s j)" for j
    using l by (simp add: writer_commit_def queue_of_def)
  have c: "ctx_inv (sys_ctx (writer_commit i f m s))"
    using assms(1) markAsWritten_q_inv [OF q assms(5)]
    by (simp add: writer_commit_def msys_inv_def ctx_inv_update)
  have lst: "q_list ?q = q_list (queue_of s i) @ take m (drop f (mData (queue_of s i)))"
    by (rule q_list_markAsWritten [OF q assms(5)])
  have nrw: "reader (writer_commit i f m s) \<noteq> RWaiting False"
    using assms(1) by (auto simp: writer_commit_def msys_inv_def split: rpc.splits)
  have rd: "(reader (writer_commit i f m s) \<noteq> RIdle) = (reader s \<noteq> RIdle)"
    by (auto simp: writer_commit_def split: rpc.splits)
  show ?thesis
    using assms(1) c nrw lst
    unfolding msys_inv_def s' rd
    by (simp add: writer_commit_def nth_list_update_if)
qed

lemma scan_run_reserved:
  "scan_run hs m ctx em data ctx' data' \<Longrightarrow> ctx_inv ctx \<Longrightarrow> 0 \<le> em \<Longrightarrow> j < length (queues ctx) \<Longrightarrow>
   reserved (queues ctx ! j) f k \<Longrightarrow> reserved (queues ctx' ! j) f k"
proof (induction rule: scan_run.induct)
  case (take em ctx data e ctx' data')
  then have ne: "queues ctx \<noteq> []" by auto
  have "reserved (queues (scan_take ctx) ! j) f k"
    using take.prems current_inv [OF take.prems(1) ne] reserved_dequeue [of "current ctx" f k]
    by (cases "j = nat (nextReadIndex ctx)") (simp_all add: scan_take_queues current_def)
  with take ne show ?case by (simp add: ctx_inv_take)
qed (simp_all add: ctx_inv_idle)

lemma inv_scan:
  assumes "msys_inv s" "0 < maxReads"
    and "poll_scan n hs maxReads (sys_ctx s) 0 [] = Some (Ret (ctx', data))"
  shows "msys_inv (reader_scan ctx' data s)"
proof -
  let ?c = "sys_ctx s"
  have c: "ctx_inv ?c" using assms(1) by (simp add: msys_inv_def)
  have run: "scan_run hs maxReads ?c 0 [] ctx' data"
    using poll_scan_run [OF assms(3) c] by simp
  note inv = scan_run_inv [OF run c]
  obtain tk where tk: "\<forall>j < length (queues ?c). q_list (queues ?c ! j) = taken_from j tk @ q_list (queues ctx' ! j)"
    using scan_run_log [OF run c] by auto
  have dr: "data = [] \<Longrightarrow> j < length (queues ?c) \<Longrightarrow> q_list (queues ctx' ! j) = []" for j
    using scan_run_drained [OF run c, of j] assms(2) by simp
  have sp: "take (length (q_list (queues ?c ! j)) - length (q_list (queues ctx' ! j))) (q_list (queues ?c ! j))
      @ q_list (queues ctx' ! j) = q_list (queues ?c ! j)" if "j < length (queues ?c)" for j
    using tk [rule_format, OF that] by (metis append_eq_conv_conj length_append add_diff_cancel_right')
  have rs: "reserved (queues ctx' ! j) f k"
    if "j < length (queues ?c)" "reserved (queues ?c ! j) f k" for j f k
    using scan_run_reserved [OF run c _ that] by simp
  show ?thesis
    using assms(1) inv dr sp rs
    unfolding msys_inv_def
    by (auto simp: reader_scan_def queue_of_def split: if_splits)
qed

lemma msys_step_inv:
  "msys_step hs maxReads s s' \<Longrightarrow> 0 < maxReads \<Longrightarrow> msys_inv s \<Longrightarrow> msys_inv s'"
  by (induction rule: msys_step.induct)
     (auto intro: inv_reserve inv_store inv_retry inv_commit inv_scan)

lemma msys_inv_init:
  assumes "ctx_inv ctx" "\<forall>i < length (queues ctx). q_list (queues ctx ! i) = []"
  shows "msys_inv (msys_init ctx)"
  using assms by (simp add: msys_inv_def msys_init_def queue_of_def)

lemma msys_reach_inv:
  assumes "msys_reach hs maxReads ctx s" "0 < maxReads" "ctx_inv ctx"
    "\<forall>i < length (queues ctx). q_list (queues ctx ! i) = []"
  shows "msys_inv s"
  using assms by (induction rule: msys_reach.induct) (auto intro: msys_inv_init msys_step_inv)

section \<open>Properties\<close>

text \<open>C2. In every interleaving of the writer threads and the reader, for every queue, what the
  reader has taken followed by what is still readable is exactly what the writer has committed:
  no event is lost, duplicated or reordered, although the sub-HAL writes without the lock.\<close>

theorem threads_fifo:
  assumes "msys_reach hs maxReads ctx s" "0 < maxReads" "ctx_inv ctx"
    and "\<forall>i < length (queues ctx). q_list (queues ctx ! i) = []" and "i < length (writers s)"
  shows "ghost_out s ! i @ q_list (queue_of s i) = ghost_in s ! i"
  using msys_reach_inv [OF assms(1-4)] assms(5) by (simp add: msys_inv_def)

text \<open>C15. No wake-up is lost: whenever the reader waits without a pending broadcast, all queues are
  empty.\<close>

theorem no_lost_wakeup:
  assumes "msys_reach hs maxReads ctx s" "0 < maxReads" "ctx_inv ctx"
    and "\<forall>i < length (queues ctx). q_list (queues ctx ! i) = []"
    and "reader s = RWaiting False" "i < length (writers s)"
  shows "q_list (queue_of s i) = []"
  using msys_reach_inv [OF assms(1-4)] assms(5,6) by (simp add: msys_inv_def)

text \<open>The region \<open>getWritableRegion\<close> hands out is as its header documents: empty when the queue is
  full or nothing is requested; otherwise between one cell and the requested length, contiguous
  inside the array, and disjoint from every readable record.\<close>

lemma getWritableRegion_contract:
  assumes "q_inv q"
  shows "case getWritableRegion q n of
      (None, k) \<Rightarrow> k = 0 \<and> (mSize q = mCapacity q \<or> n \<le> 0)
    | (Some f, k) \<Rightarrow> 1 \<le> k \<and> k \<le> n \<and> 0 \<le> f \<and> f + k \<le> mCapacity q \<and>
        (\<forall>i < nat k. \<forall>j < nat (mSize q). slot q j \<noteq> nat f + i)"
proof (cases "getWritableRegion q n")
  case (Pair a k)
  show ?thesis
  proof (cases a)
    case None
    with Pair region_None [of q n k] show ?thesis by simp
  next
    case (Some f)
    with Pair have r: "getWritableRegion q n = (Some f, k)" by simp
    from region_bounds [OF assms r] region_first [OF assms r]
      reserved_disjoint [OF assms region_reserved [OF assms r]]
    show ?thesis by (simp add: r)
  qed
qed

text \<open>\<open>waitForSpace\<close> returns at the first wake-up that finds space, reports that it waited, and
  the queue it returns with can be written; the dequeue that frees the first cell of a full queue
  broadcasts.\<close>

lemma waitForSpace_returns:
  assumes "\<forall>q \<in> set (q0 # full). mSize q = mCapacity q" "mSize q' \<noteq> mCapacity q'"
  shows "waitForSpace q0 (full @ [q']) = Some (True, q')"
  using assms
proof (induction full arbitrary: q0)
  case (Cons q full)
  then have "waitForSpace q (full @ [q']) = Some (True, q')" by simp
  with Cons.prems show ?case by simp
qed simp

section \<open>Witnesses\<close>

definition empty_ctx :: "unit poll_context" where
  "empty_ctx = \<lparr>sub_hw_devices = [()],
     queues = [SensorEventQueue_new 2 [sample_event 0, sample_event 0]], nextReadIndex = 0\<rparr>"

lemma empty_ctx_ok: "ctx_inv empty_ctx" "\<forall>i < length (queues empty_ctx). q_list (queues empty_ctx ! i) = []"
  by (simp_all add: empty_ctx_def ctx_inv_def q_inv_new)

definition polling_sys :: "unit msys" where
  "polling_sys = (msys_init empty_ctx)\<lparr>writers := [WPolling 0 2]\<rparr>"

lemma polling_reach: "msys_reach hs 4 empty_ctx polling_sys"
proof (rule msys_reach.step [OF msys_reach.start])
  show "msys_step hs 4 (msys_init empty_ctx) polling_sys"
    by (rule msys_step.reserve [where i = 0])
       (simp_all add: msys_init_def empty_ctx_def polling_sys_def writer_reserve_def queue_of_def
          getWritableRegion_def SensorEventQueue_new_def SENSOR_EVENT_QUEUE_CAPACITY_def Let_def)
qed

lemma committed_reach: "msys_reach hs 4 empty_ctx (writer_commit 0 0 1 polling_sys)"
  by (rule msys_reach.step [OF polling_reach], rule msys_step.commit [where k = 2])
     (simp_all add: polling_sys_def)

theorem threads_fifo_witness:
  "ghost_out (writer_commit 0 0 1 polling_sys) ! 0 @ q_list (queue_of (writer_commit 0 0 1 polling_sys) 0)
   = ghost_in (writer_commit 0 0 1 polling_sys) ! 0"
  using threads_fifo [OF committed_reach _ empty_ctx_ok, of 0]
  by (simp add: writer_commit_def polling_sys_def)

lemma waiting_reach: "msys_reach hs 4 empty_ctx (reader_scan empty_ctx [] (msys_init empty_ctx))"
proof (rule msys_reach.step [OF msys_reach.start], rule msys_step.scan [where n = 3])
  show "poll_scan 3 hs 4 (sys_ctx (msys_init empty_ctx)) 0 [] = Some (Ret (empty_ctx, []))"
    by (simp add: msys_init_def empty_ctx_def numeral_3_eq_3 poll_scan.simps(2) peek_def SensorEventQueue_new_def)
qed

theorem no_lost_wakeup_witness:
  "q_list (queue_of (reader_scan empty_ctx [] (msys_init empty_ctx)) 0) = []"
  using no_lost_wakeup [OF waiting_reach _ empty_ctx_ok, of 0]
  by (simp add: reader_scan_def msys_init_def empty_ctx_def)

end
