(* ===== verification/InFlightTracker.thy ===== *)
theory InFlightTracker
  imports Mocha_Prelude
begin

text \<open>
  The in-flight request tracker of \<^verbatim>\<open>src/camera/InFlightTracker.h\<close> over a model of the standard
  library's ordered map, whose contract is the locale \<open>ordered_map\<close>. Every method of the tracker holds its
  mutex for its whole body, so each is one atomic operation on the state.
\<close>

section \<open>The ordered map of the standard library\<close>

locale ordered_map =
  fixes ok :: "'m \<Rightarrow> bool"
    and none :: "'m"
    and find :: "'m \<Rightarrow> 'k::linorder \<Rightarrow> 'v option"
    and put :: "'k \<Rightarrow> 'v \<Rightarrow> 'm \<Rightarrow> 'm"
    and erase :: "'k \<Rightarrow> 'm \<Rightarrow> 'm"
    and modify :: "('v \<Rightarrow> 'v) \<Rightarrow> 'm \<Rightarrow> 'm"
    and keys :: "'m \<Rightarrow> 'k list"
  assumes none_ok: "ok none" and find_none: "find none k = None"
    and put_ok: "ok m \<Longrightarrow> ok (put k v m)" and find_put: "ok m \<Longrightarrow> find (put k v m) = (find m)(k \<mapsto> v)"
    and erase_ok: "ok m \<Longrightarrow> ok (erase k m)" and find_erase: "ok m \<Longrightarrow> find (erase k m) = (find m)(k := None)"
    and modify_ok: "ok m \<Longrightarrow> ok (modify f m)"
    and find_modify: "ok m \<Longrightarrow> find (modify f m) k = map_option f (find m k)"
    and keys_sorted: "ok m \<Longrightarrow> sorted_wrt (<) (keys m)"
    and keys_dom: "ok m \<Longrightarrow> set (keys m) = dom (find m)"
begin

lemma keys_distinct: "ok m \<Longrightarrow> distinct (keys m)"
  using keys_sorted strict_sorted_iff by blast

lemma keys_unique: "ok m \<Longrightarrow> keys m = sorted_list_of_set (dom (find m))"
  using keys_sorted keys_dom
  by (metis sorted_list_of_set.idem_if_sorted_distinct strict_sorted_iff)

lemma size_card: "ok m \<Longrightarrow> length (keys m) = card (dom (find m))"
  using keys_dom keys_distinct by (metis distinct_card)

lemma finite_dom_find: "ok m \<Longrightarrow> finite (dom (find m))"
  by (metis keys_dom List.finite_set)

lemma size_put: "ok m \<Longrightarrow> length (keys (put k v m)) = card (insert k (dom (find m)))"
  using size_card [of "put k v m"] by (simp add: put_ok find_put)

lemma size_erase: "ok m \<Longrightarrow> length (keys (erase k m)) = card (dom (find m) - {k})"
  using size_card [of "erase k m"] by (simp add: erase_ok find_erase)

end

text \<open>The model: an association list with strictly increasing keys.\<close>

fun om_put :: "'k::linorder \<Rightarrow> 'v \<Rightarrow> ('k \<times> 'v) list \<Rightarrow> ('k \<times> 'v) list" where
  "om_put k v [] = [(k, v)]"
| "om_put k v ((k', v') # m) =
     (if k < k' then (k, v) # (k', v') # m else if k = k' then (k, v) # m else (k', v') # om_put k v m)"

definition om_erase :: "'k \<Rightarrow> ('k \<times> 'v) list \<Rightarrow> ('k \<times> 'v) list" where
  "om_erase k m = filter (\<lambda>p. fst p \<noteq> k) m"

definition om_modify :: "('v \<Rightarrow> 'v) \<Rightarrow> ('k \<times> 'v) list \<Rightarrow> ('k \<times> 'v) list" where
  "om_modify f m = map (\<lambda>(k, v). (k, f v)) m"

definition om_ok :: "('k::linorder \<times> 'v) list \<Rightarrow> bool" where
  "om_ok m \<longleftrightarrow> sorted_wrt (<) (map fst m)"

lemma om_put_keys: "set (map fst (om_put k v m)) = insert k (set (map fst m))"
  by (induction k v m rule: om_put.induct) auto

lemma om_put_ok: "om_ok m \<Longrightarrow> om_ok (om_put k v m)"
proof (induction k v m rule: om_put.induct)
  case (2 k v k' v' m)
  then show ?case
    using om_put_keys [of k v m] by (auto simp: om_ok_def)
qed (simp add: om_ok_def)

lemma om_find_put: "om_ok m \<Longrightarrow> map_of (om_put k v m) = (map_of m)(k \<mapsto> v)"
proof (induction k v m rule: om_put.induct)
  case (2 k v k' v' m)
  then show ?case by (auto simp: om_ok_def fun_eq_iff)
qed simp

lemma om_find_erase: "map_of (om_erase k m) = (map_of m)(k := None)"
  by (induction m) (auto simp: om_erase_def fun_eq_iff)

lemma om_find_modify: "map_of (om_modify f m) k = map_option f (map_of m k)"
  by (induction m) (auto simp: om_modify_def)

lemma om_erase_ok: "om_ok m \<Longrightarrow> om_ok (om_erase k m)"
  by (simp add: om_ok_def om_erase_def sorted_wrt_map sorted_wrt_filter)

lemma om_modify_ok: "om_ok m \<Longrightarrow> om_ok (om_modify f m)"
  by (simp add: om_ok_def om_modify_def sorted_wrt_map case_prod_beta)

interpretation om: ordered_map om_ok "[]" map_of om_put om_erase om_modify "map fst"
proof unfold_locales
  fix m :: "('a \<times> 'b) list"
  show "om_ok ([] :: ('a \<times> 'b) list)" by (simp add: om_ok_def)
  show "om_ok m \<Longrightarrow> sorted_wrt (<) (map fst m)" by (simp add: om_ok_def)
  show "set (map fst m) = dom (map_of m)" by (simp add: dom_map_of_conv_image_fst)
qed (simp_all add: om_put_ok om_find_put om_find_erase om_find_modify om_erase_ok om_modify_ok)

section \<open>The tracker\<close>

record InFlightRequest =
  frameNumber :: u32
  outputBuffer :: nat
  markedError :: bool

type_synonym tracker = "(u32 \<times> InFlightRequest) list"

definition tracker_new :: tracker where
  "tracker_new = []"

definition tracker_add :: "u32 \<Rightarrow> nat \<Rightarrow> tracker \<Rightarrow> tracker" where
  "tracker_add frame buf t =
     om_put frame \<lparr>frameNumber = frame, outputBuffer = buf, markedError = False\<rparr> t"

definition tracker_remove :: "u32 \<Rightarrow> tracker \<Rightarrow> bool \<times> tracker" where
  "tracker_remove frame t = (map_of t frame \<noteq> None, om_erase frame t)"

definition markAllAsError :: "tracker \<Rightarrow> tracker" where
  "markAllAsError t = om_modify (\<lambda>r. r\<lparr>markedError := True\<rparr>) t"

definition isError :: "u32 \<Rightarrow> tracker \<Rightarrow> bool" where
  "isError frame t = (case map_of t frame of None \<Rightarrow> False | Some r \<Rightarrow> markedError r)"

definition tracker_count :: "tracker \<Rightarrow> nat" where
  "tracker_count t = length t"

definition drainAll :: "tracker \<Rightarrow> u32 list \<times> tracker" where
  "drainAll t = (map fst t, [])"

lemmas tracker_defs = tracker_new_def tracker_add_def tracker_remove_def markAllAsError_def
  isError_def tracker_count_def drainAll_def

text \<open>Keys are the frame numbers of their records.\<close>

definition tracker_inv :: "tracker \<Rightarrow> bool" where
  "tracker_inv t \<longleftrightarrow> om_ok t \<and> (\<forall>f r. map_of t f = Some r \<longrightarrow> frameNumber r = f)"

definition in_flight :: "tracker \<Rightarrow> u32 set" where
  "in_flight t = dom (map_of t)"

lemma tracker_inv_ok [simp]: "tracker_inv t \<Longrightarrow> om_ok t"
  by (simp add: tracker_inv_def)

lemma tracker_inv_new [simp]: "tracker_inv tracker_new"
  by (simp add: tracker_inv_def tracker_new_def om_ok_def)

lemma tracker_inv_add: "tracker_inv t \<Longrightarrow> tracker_inv (tracker_add f b t)"
  by (auto simp: tracker_inv_def tracker_add_def om.put_ok om.find_put)

lemma tracker_inv_remove: "tracker_inv t \<Longrightarrow> tracker_inv (snd (tracker_remove f t))"
  by (auto simp: tracker_inv_def tracker_remove_def om.erase_ok om.find_erase)

lemma tracker_inv_mark: "tracker_inv t \<Longrightarrow> tracker_inv (markAllAsError t)"
  by (auto simp: tracker_inv_def markAllAsError_def om.modify_ok om.find_modify)

lemma tracker_inv_drain: "tracker_inv (snd (drainAll t))"
  by (simp add: tracker_inv_def drainAll_def om_ok_def)

lemmas tracker_invs = tracker_inv_new tracker_inv_add tracker_inv_remove tracker_inv_mark tracker_inv_drain

lemma in_flight_add [simp]: "tracker_inv t \<Longrightarrow> in_flight (tracker_add f b t) = insert f (in_flight t)"
  by (auto simp: in_flight_def tracker_add_def om.find_put)

lemma in_flight_remove [simp]: "tracker_inv t \<Longrightarrow> in_flight (snd (tracker_remove f t)) = in_flight t - {f}"
  by (auto simp: in_flight_def tracker_remove_def om.find_erase tracker_inv_def)

lemma in_flight_mark [simp]: "tracker_inv t \<Longrightarrow> in_flight (markAllAsError t) = in_flight t"
  by (auto simp: in_flight_def markAllAsError_def om.find_modify dom_def)

lemma in_flight_drain [simp]: "in_flight (snd (drainAll t)) = {}"
  by (simp add: in_flight_def drainAll_def)

lemma isError_add: "tracker_inv t \<Longrightarrow> isError g (tracker_add f b t) = (g \<noteq> f \<and> isError g t)"
  by (auto simp: isError_def tracker_add_def om.find_put)

lemma isError_remove: "tracker_inv t \<Longrightarrow> isError g (snd (tracker_remove f t)) = (g \<noteq> f \<and> isError g t)"
  by (auto simp: isError_def tracker_remove_def om.find_erase)

lemma isError_mark: "tracker_inv t \<Longrightarrow> isError g (markAllAsError t) = (g \<in> in_flight t)"
  by (auto simp: isError_def markAllAsError_def om.find_modify in_flight_def split: option.splits)

lemma isError_drain [simp]: "\<not> isError g (snd (drainAll t))"
  by (simp add: isError_def drainAll_def)

text \<open>C28. The tracker refines a finite set of frames with error marks: \<open>add\<close> inserts an unmarked
  frame, \<open>remove\<close> deletes it and tells whether it was there, \<open>markAllAsError\<close> marks exactly the
  frames in flight, \<open>count\<close> is their number, and \<open>drainAll\<close> returns them in increasing order,
  each once, and empties the tracker.\<close>

theorem tracker_refines_set:
  assumes "tracker_inv t"
  shows "in_flight (tracker_add f b t) = insert f (in_flight t) \<and>
     \<not> isError f (tracker_add f b t) \<and>
     fst (tracker_remove f t) = (f \<in> in_flight t) \<and>
     in_flight (snd (tracker_remove f t)) = in_flight t - {f} \<and>
     isError g (markAllAsError t) = (g \<in> in_flight t) \<and>
     tracker_count t = card (in_flight t) \<and>
     fst (drainAll t) = sorted_list_of_set (in_flight t) \<and>
     in_flight (snd (drainAll t)) = {}"
proof -
  have "fst (tracker_remove f t) = (f \<in> in_flight t)"
    by (simp add: tracker_remove_def in_flight_def domIff)
  moreover have "tracker_count t = card (in_flight t)"
    using om.size_card [of t] assms by (simp add: tracker_count_def in_flight_def)
  moreover have "fst (drainAll t) = sorted_list_of_set (in_flight t)"
    using om.keys_unique [of t] assms by (simp add: drainAll_def in_flight_def)
  ultimately show ?thesis
    using assms by (simp add: isError_add isError_mark)
qed

theorem tracker_refines_set_witness:
  "in_flight (tracker_add 5 0 tracker_new) = insert 5 (in_flight tracker_new) \<and>
   tracker_count (tracker_add 5 0 tracker_new) = 1"
  using tracker_refines_set [OF tracker_inv_new, of 5 0 0] by (simp add: tracker_defs)

end
