(* ===== verification/Buffers.thy ===== *)
theory Buffers
  imports Mocha_Prelude "HOL-Library.Monad_Syntax"
begin

text \<open>
  Byte buffers with checked accesses, and counting loops over them. A read or write outside its
  buffer is undefined behaviour in the source and \<open>None\<close> in the model, so that a theorem stating a
  result \<open>Some\<close> also states that no access leaves its buffer.
\<close>

section \<open>Accesses\<close>

type_synonym buf = "u8 list"

definition rd :: "buf \<Rightarrow> nat \<Rightarrow> u8 option" where
  "rd b i = (if i < length b then Some (b ! i) else None)"

definition wr :: "nat \<Rightarrow> u8 \<Rightarrow> buf \<Rightarrow> buf option" where
  "wr i v b = (if i < length b then Some (b[i := v]) else None)"

definition rd_block :: "buf \<Rightarrow> nat \<Rightarrow> nat \<Rightarrow> u8 list option" where
  "rd_block b i n = (if i + n \<le> length b then Some (take n (drop i b)) else None)"

definition wr_block :: "nat \<Rightarrow> u8 list \<Rightarrow> buf \<Rightarrow> buf option" where
  "wr_block i vs b =
     (if i + length vs \<le> length b then Some (take i b @ vs @ drop (i + length vs) b) else None)"

lemma rd_Some [simp]: "i < length b \<Longrightarrow> rd b i = Some (b ! i)"
  by (simp add: rd_def)

lemma wr_Some [simp]: "i < length b \<Longrightarrow> wr i v b = Some (b[i := v])"
  by (simp add: wr_def)

lemma rd_block_Some [simp]: "i + n \<le> length b \<Longrightarrow> rd_block b i n = Some (take n (drop i b))"
  by (simp add: rd_block_def)

lemma wr_length: "wr i v b = Some b' \<Longrightarrow> length b' = length b"
  by (auto simp: wr_def split: if_splits)

lemma wr_block_length: "wr_block i vs b = Some b' \<Longrightarrow> length b' = length b"
  by (auto simp: wr_block_def split: if_splits)

lemma wr_block_Nil [simp]: "i \<le> length b \<Longrightarrow> wr_block i [] b = Some b"
  by (simp add: wr_block_def)

text \<open>A block written at once is the block written byte by byte.\<close>

lemma wr_block_Cons:
  "wr_block i (v # vs) b = (if i < length b then wr_block (Suc i) vs (b[i := v]) else None)"
  by (auto simp: wr_block_def take_Suc_conv_app_nth)

lemma wr_block_append:
  "wr_block i (vs @ ws) b = Option.bind (wr_block i vs b) (wr_block (i + length vs) ws)"
proof (induction vs arbitrary: i b)
  case Nil
  then show ?case by (auto simp: wr_block_def)
next
  case (Cons v vs)
  then show ?case by (simp add: wr_block_Cons)
qed

lemma wr_block_Some: "i + length vs \<le> length b \<Longrightarrow> \<exists>b'. wr_block i vs b = Some b' \<and> length b' = length b"
  by (simp add: wr_block_def)

lemma wr_block_nth:
  assumes "wr_block i vs b = Some b'" "j < length b"
  shows "b' ! j = (if i \<le> j \<and> j < i + length vs then vs ! (j - i) else b ! j)"
  using assms by (auto simp: wr_block_def nth_append min_def split: if_splits)

section \<open>Counting loops\<close>

text \<open>\<open>for (; x + k <= n; x += k) body(x)\<close>, which gives back the final \<open>x\<close>.\<close>

function for_step :: "nat \<Rightarrow> nat \<Rightarrow> (nat \<Rightarrow> 's \<Rightarrow> 's option) \<Rightarrow> nat \<Rightarrow> 's \<Rightarrow> (nat \<times> 's) option" where
  "for_step k n body x s =
     (if 0 < k \<and> x + k \<le> n then Option.bind (body x s) (for_step k n body (x + k)) else Some (x, s))"
  by pat_completeness auto
termination
  by (relation "measure (\<lambda>(k, n, body, x, s). n - x)") auto

declare for_step.simps [simp del]

definition for_range :: "nat \<Rightarrow> nat \<Rightarrow> (nat \<Rightarrow> 's \<Rightarrow> 's option) \<Rightarrow> 's \<Rightarrow> 's option" where
  "for_range a b body s = map_option snd (for_step 1 b body a s)"

lemma for_step_unfold:
  "0 < k \<Longrightarrow> x + k \<le> n \<Longrightarrow> for_step k n body x s = Option.bind (body x s) (for_step k n body (x + k))"
  by (simp add: for_step.simps [of k n body x s])

lemma for_step_done: "n < x + k \<Longrightarrow> for_step k n body x s = Some (x, s)"
  by (simp add: for_step.simps [of k n body x s])

text \<open>Total correctness of a loop from an invariant that the body keeps without failing.\<close>

lemma for_step_rule:
  assumes "0 < k" "I x s"
    and "\<And>y t. x \<le> y \<Longrightarrow> y + k \<le> n \<Longrightarrow> I y t \<Longrightarrow> \<exists>t'. body y t = Some t' \<and> I (y + k) t'"
  shows "\<exists>y t. for_step k n body x s = Some (y, t) \<and> I y t \<and> x \<le> y \<and> n < y + k \<and> (y = x \<or> y \<le> n)"
  using assms
proof (induction k n body x s rule: for_step.induct)
  case (1 k n body x s)
  show ?case
  proof (cases "x + k \<le> n")
    case True
    then obtain t' where t': "body x s = Some t'" "I (x + k) t'" using "1.prems" by blast
    have "\<exists>y t. for_step k n body (x + k) t' = Some (y, t) \<and> I y t \<and> x + k \<le> y \<and> n < y + k \<and>
        (y = x + k \<or> y \<le> n)"
    proof (rule "1.IH")
      show "0 < k \<and> x + k \<le> n" "I (x + k) t'" "0 < k" "body x s = Some t'"
        using True "1.prems" t' by simp_all
      show "\<And>y t. x + k \<le> y \<Longrightarrow> y + k \<le> n \<Longrightarrow> I y t \<Longrightarrow> \<exists>t'. body y t = Some t' \<and> I (y + k) t'"
        using "1.prems"(3) by (meson add_leD1)
    qed
    with True t' "1.prems"(1) show ?thesis by (auto simp: for_step_unfold)
  next
    case False
    then show ?thesis using "1.prems" by (auto simp: for_step_done)
  qed
qed

lemma for_step_total:
  assumes "0 < k" "\<And>y t. x \<le> y \<Longrightarrow> y + k \<le> n \<Longrightarrow> \<exists>t'. body y t = Some t'"
  shows "\<exists>y t. for_step k n body x s = Some (y, t)"
  using for_step_rule [of k "\<lambda>_ _. True" x s n body] assms by blast

text \<open>A loop over every \<open>k\<close>-th point of a grid, rows outside columns.\<close>

lemma grid_loop_total:
  assumes "0 < k" "\<And>y x s. y < h \<Longrightarrow> x < w \<Longrightarrow> \<exists>s'. f y x s = Some s'"
  shows "\<exists>s'. map_option snd (for_step k (h + (k - 1))
    (\<lambda>y s. map_option snd (for_step k (w + (k - 1)) (f y) 0 s)) 0 s) = Some s'"
proof -
  have "\<exists>s'. map_option snd (for_step k (w + (k - 1)) (f y) 0 s) = Some s'" if "y < h" for y s
    using for_step_total [of k 0 "w + (k - 1)" "f y" s] assms that by fastforce
  then have "\<exists>y t. for_step k (h + (k - 1)) (\<lambda>y s. map_option snd (for_step k (w + (k - 1)) (f y) 0 s)) 0 s = Some (y, t)"
    using assms(1) by (intro for_step_total) simp_all
  then show ?thesis by auto
qed

lemma for_range_rule:
  assumes "a \<le> b" "I a s"
    and "\<And>y t. a \<le> y \<Longrightarrow> y < b \<Longrightarrow> I y t \<Longrightarrow> \<exists>t'. body y t = Some t' \<and> I (Suc y) t'"
  shows "\<exists>t. for_range a b body s = Some t \<and> I b t"
proof -
  have "\<exists>y t. for_step 1 b body a s = Some (y, t) \<and> I y t \<and> a \<le> y \<and> b < y + 1 \<and> (y = a \<or> y \<le> b)"
    by (rule for_step_rule) (use assms in auto)
  then obtain y t where "for_step 1 b body a s = Some (y, t)" "I y t" "y = b" using assms(1) by fastforce
  then show ?thesis by (simp add: for_range_def)
qed

text \<open>
  The shape of every vectorised routine: a loop over blocks of \<open>k\<close> followed by a loop over the
  remaining elements. When a block does what \<open>k\<close> single iterations do, the two loops together are
  the plain loop.
\<close>

lemma for_step_split:
  "a + m \<le> b \<Longrightarrow> for_step 1 b body a s =
   Option.bind (for_step 1 (a + m) body a s) (\<lambda>(x, t). for_step 1 b body x t)"
proof (induction m arbitrary: a s)
  case 0
  then show ?case by (simp add: for_step_done)
next
  case (Suc m)
  have "for_step 1 b body a s = Option.bind (body a s) (for_step 1 b body (Suc a))"
    using Suc.prems by (simp add: for_step_unfold)
  moreover have "for_step 1 (a + Suc m) body a s = Option.bind (body a s) (for_step 1 (a + Suc m) body (Suc a))"
    by (simp add: for_step_unfold)
  moreover have "for_step 1 b body (Suc a) t =
      Option.bind (for_step 1 (Suc a + m) body (Suc a) t) (\<lambda>(x, t). for_step 1 b body x t)" for t
    using Suc.prems by (intro Suc.IH) simp
  ultimately show ?case by (cases "body a s") simp_all
qed

lemma for_step_1_end:
  "a \<le> b \<Longrightarrow> for_step 1 b body a s = map_option (Pair b) (for_range a b body s)"
proof (induction "b - a" arbitrary: a s)
  case 0
  then show ?case by (simp add: for_range_def for_step_done)
next
  case (Suc m)
  then have "for_step 1 b body (Suc a) t = map_option (Pair b) (for_range (Suc a) b body t)" for t
    by simp
  moreover have "for_step 1 b body a s = Option.bind (body a s) (for_step 1 b body (Suc a))"
    using Suc.hyps(2) by (simp add: for_step_unfold)
  ultimately show ?case
    by (cases "body a s") (simp_all add: for_range_def option.map_comp o_def)
qed

lemma for_range_0 [simp]: "for_range a a body s = Some s"
  by (simp add: for_range_def for_step_done)

lemma for_range_Suc: "a < b \<Longrightarrow> for_range a b body s = Option.bind (body a s) (for_range (Suc a) b body)"
  by (cases "body a s") (simp_all add: for_range_def for_step_unfold)

lemma for_range_split:
  assumes "a \<le> c" "c \<le> b"
  shows "for_range a b body s = Option.bind (for_range a c body s) (for_range c b body)"
proof -
  have "for_step 1 b body a s =
      Option.bind (map_option (Pair c) (for_range a c body s)) (\<lambda>(x, t). for_step 1 b body x t)"
    using for_step_split [of a "c - a" b body s] for_step_1_end [OF assms(1), of body s] assms by simp
  then have "for_range a b body s = map_option snd
      (Option.bind (map_option (Pair c) (for_range a c body s)) (\<lambda>(x, t). for_step 1 b body x t))"
    by (simp only: for_range_def [of a b])
  moreover have "map_option snd (for_step 1 b body c t) = for_range c b body t" for t
    by (simp only: for_range_def)
  ultimately show ?thesis by (cases "for_range a c body s") simp_all
qed

text \<open>The block loop may stop before the end \<open>e\<close> of the single loop (\<open>n \<le> e\<close>).\<close>

theorem chunked_prefix_eq:
  assumes "0 < k" "x \<le> e" "n \<le> e"
    and "\<And>y t. x \<le> y \<Longrightarrow> y + k \<le> n \<Longrightarrow> block y t = for_range y (y + k) single t"
  shows "Option.bind (for_step k n block x s) (\<lambda>(y, t). map_option snd (for_step 1 e single y t)) =
    for_range x e single s"
  using assms
proof (induction k n block x s rule: for_step.induct)
  case (1 k n block x s)
  show ?case
  proof (cases "x + k \<le> n")
    case True
    have blk: "block x s = for_range x (x + k) single s" using "1.prems" True by simp
    have ih: "Option.bind (for_step k n block (x + k) t) (\<lambda>(y, t). map_option snd (for_step 1 e single y t)) =
        for_range (x + k) e single t" if "block x s = Some t" for t
      by (rule "1.IH") (use True "1.prems" that in \<open>auto intro: add_leD1\<close>)
    have "for_range x e single s =
        Option.bind (for_range x (x + k) single s) (for_range (x + k) e single)"
      by (rule for_range_split) (use True "1.prems"(3) in simp_all)
    moreover have "for_step k n block x s = Option.bind (block x s) (for_step k n block (x + k))"
      using True "1.prems"(1) by (simp add: for_step_unfold)
    ultimately show ?thesis
      using ih unfolding blk [symmetric] by (cases "block x s") simp_all
  next
    case False
    then show ?thesis by (simp add: for_step_done for_range_def)
  qed
qed

corollary chunked_loop_eq:
  assumes "0 < k" "x \<le> n"
    and "\<And>y t. x \<le> y \<Longrightarrow> y + k \<le> n \<Longrightarrow> block y t = for_range y (y + k) single t"
  shows "Option.bind (for_step k n block x s) (\<lambda>(y, t). map_option snd (for_step 1 n single y t)) =
    for_range x n single s"
  using assms by (intro chunked_prefix_eq) auto

section \<open>Loops that write consecutive blocks\<close>

lemma wr_wr_block: "wr i v b = wr_block i [v] b"
  by (auto simp: wr_def wr_block_def upd_conv_take_nth_drop)

lemma wr_block_eq_None: "wr_block i vs b = None \<longleftrightarrow> length b < i + length vs"
  by (auto simp: wr_block_def)

text \<open>
  A loop whose iteration \<open>j\<close> writes the \<open>k\<close> bytes \<open>g j\<close> at \<open>k * j\<close> is one write of all
  the blocks.
\<close>

lemma for_range_wr_blocks:
  assumes "\<And>j t. i \<le> j \<Longrightarrow> j < i + n \<Longrightarrow> single j t = wr_block (k * j) (g j) t"
    and "\<And>j. i \<le> j \<Longrightarrow> j < i + n \<Longrightarrow> length (g j) = k"
    and "0 < n \<or> k * i \<le> length b"
  shows "for_range i (i + n) single b = wr_block (k * i) (concat (map g [i..<i + n])) b"
  using assms
proof (induction n arbitrary: i b)
  case 0
  then show ?case by simp
next
  case (Suc n)
  have up: "[i..<i + Suc n] = i # [Suc i..<Suc i + n]" by (simp add: upt_conv_Cons)
  have one: "single i b = wr_block (k * i) (g i) b" and len: "length (g i) = k"
    using Suc.prems(1,2) by simp_all
  show ?case
  proof (cases "wr_block (k * i) (g i) b")
    case None
    then show ?thesis using one
      by (simp only: for_range_Suc up wr_block_append list.map concat.simps bind.bind_lzero less_add_Suc1)
  next
    case (Some b')
    then have "length b' = length b" "k * Suc i \<le> length b'"
      using len wr_block_length [OF Some] by (auto simp: wr_block_def split: if_splits)
    then have "for_range (Suc i) (Suc i + n) single b' =
        wr_block (k * Suc i) (concat (map g [Suc i..<Suc i + n])) b'"
      by (intro Suc.IH) (use Suc.prems in auto)
    moreover have "for_range i (i + Suc n) single b = for_range (Suc i) (Suc i + n) single b'"
      using one Some by (simp add: for_range_Suc)
    moreover have "wr_block (k * i) (concat (map g [i..<i + Suc n])) b =
        wr_block (k * Suc i) (concat (map g [Suc i..<Suc i + n])) b'"
      unfolding up using Some len by (simp add: wr_block_append add.commute del: upt_Suc)
    ultimately show ?thesis by simp
  qed
qed

text \<open>What such a write leaves at each index.\<close>

lemma concat_blocks_length:
  "(\<And>j. j \<in> set js \<Longrightarrow> length (g j) = k) \<Longrightarrow> length (concat (map g js)) = k * length js"
  by (induction js) auto

lemma concat_blocks_nth:
  assumes "\<And>j. j < n \<Longrightarrow> length (g j) = k" "p < n" "q < k"
  shows "concat (map g [0..<n]) ! (k * p + q) = g p ! q"
  using assms
proof (induction n)
  case 0
  then show ?case by simp
next
  case (Suc n)
  have len: "length (concat (map g [0..<n])) = k * n"
    using Suc.prems(1) by (subst concat_blocks_length [of _ g k]) auto
  show ?case
  proof (cases "p = n")
    case True
    then show ?thesis using len by (simp add: nth_append)
  next
    case False
    then have p: "p < n" using Suc.prems(2) by simp
    then have "k * Suc p \<le> k * n" by (intro mult_le_mono2) simp
    then have "k * p + q < k * n" using Suc.prems(3) by simp
    then show ?thesis using Suc p len by (simp add: nth_append)
  qed
qed

lemma for_range_wr_nth:
  assumes "\<And>j t. j < n \<Longrightarrow> single j t = wr_block (k * j) (g j) t"
    and "\<And>j. j < n \<Longrightarrow> length (g j) = k" and "k * n \<le> length b"
  shows "\<exists>b'. for_range 0 n single b = Some b' \<and> length b' = length b \<and>
    (\<forall>p < n. \<forall>q < k. b' ! (k * p + q) = g p ! q) \<and> (\<forall>i. k * n \<le> i \<longrightarrow> i < length b \<longrightarrow> b' ! i = b ! i)"
proof -
  have w: "for_range 0 n single b = wr_block 0 (concat (map g [0..<n])) b"
    using for_range_wr_blocks [of 0 n single k g b] assms by simp
  have len: "length (concat (map g [0..<n])) = k * n"
    using assms(2) by (subst concat_blocks_length [of _ g k]) auto
  then obtain b' where b': "wr_block 0 (concat (map g [0..<n])) b = Some b'" "length b' = length b"
    using wr_block_Some [of 0 "concat (map g [0..<n])" b] assms(3) by (metis add_0)
  have at: "k * p + q < k * n" if "p < n" "q < k" for p q
  proof -
    have "k * Suc p \<le> k * n" using that by (intro mult_le_mono2) simp
    then show ?thesis using that by simp
  qed
  have "b' ! (k * p + q) = g p ! q" if "p < n" "q < k" for p q
    using wr_block_nth [OF b'(1), of "k * p + q"] at [OF that] len assms(3) that
      concat_blocks_nth [of n g k p q] assms(2) by simp
  moreover have "b' ! i = b ! i" if "k * n \<le> i" "i < length b" for i
    using wr_block_nth [OF b'(1) that(2)] len that by simp
  ultimately show ?thesis using w b' by auto
qed

section \<open>Buffers filled from left to right\<close>

text \<open>\<open>t\<close> is \<open>t0\<close> with its first \<open>n\<close> bytes replaced by \<open>G 0, G 1, \<dots>\<close>.\<close>

definition written :: "buf \<Rightarrow> nat \<Rightarrow> (nat \<Rightarrow> u8) \<Rightarrow> buf \<Rightarrow> bool" where
  "written t0 n G t \<longleftrightarrow> length t = length t0 \<and>
     (\<forall>i < length t0. t ! i = (if i < n then G i else t0 ! i))"

lemma written_0 [simp]: "written t0 0 G t0"
  by (simp add: written_def)

lemma written_length: "written t0 n G t \<Longrightarrow> length t = length t0"
  by (simp add: written_def)

lemma written_block:
  assumes "written t0 n G t" "n + k \<le> length t0" "vs = map G [n..<n + k]"
  shows "\<exists>t'. wr_block n vs t = Some t' \<and> written t0 (n + k) G t'"
proof -
  have len: "length vs = k" "length t = length t0" using assms(1,3) by (simp_all add: written_def)
  then obtain t' where t': "wr_block n vs t = Some t'" "length t' = length t"
    using wr_block_Some [of n vs t] assms(2) by auto
  have "t' ! i = (if i < n + k then G i else t0 ! i)" if "i < length t0" for i
    using wr_block_nth [OF t'(1), of i] assms(1,3) that len by (auto simp: written_def)
  then show ?thesis using t' len by (auto simp: written_def)
qed

end
