(* ===== verification/Demosaic.thy ===== *)
theory Demosaic
  imports Buffers
begin

text \<open>
  The Bayer to RGB stage of the image pipeline (\<open>camera/isp/DemosaicNEON.cpp\<close>): conversion of the
  10-bit samples, the interpolation of one row (first columns, NEON batches of eight pixels, scalar
  remainder), the edges, and the whole frame. NEON registers are lists of lanes and the intrinsics
  are functions on them. Pointers into the 8-bit plane are offsets into it.
\<close>

section \<open>NEON intrinsics\<close>

definition vld1_u8 :: "buf \<Rightarrow> nat \<Rightarrow> u8 list option" where
  "vld1_u8 b p = rd_block b p 8"

fun evens :: "'a list \<Rightarrow> 'a list" and odds :: "'a list \<Rightarrow> 'a list" where
  "evens [] = []"
| "evens (x # xs) = x # odds xs"
| "odds [] = []"
| "odds (x # xs) = evens xs"

definition vuzp_u8 :: "u8 list \<Rightarrow> u8 list \<Rightarrow> u8 list \<times> u8 list" where
  "vuzp_u8 a b = (evens (a @ b), odds (a @ b))"

definition vext_u8 :: "u8 list \<Rightarrow> u8 list \<Rightarrow> nat \<Rightarrow> u8 list" where
  "vext_u8 a b n = take 8 (drop n (a @ b))"

definition vaddl_u8 :: "u8 list \<Rightarrow> u8 list \<Rightarrow> u16 list" where
  "vaddl_u8 = map2 (\<lambda>x y. ucast x + ucast y)"

definition vaddq_u16 :: "u16 list \<Rightarrow> u16 list \<Rightarrow> u16 list" where
  "vaddq_u16 = map2 (+)"

definition vshrn_n_u16 :: "u16 list \<Rightarrow> nat \<Rightarrow> u8 list" where
  "vshrn_n_u16 v n = map (\<lambda>x. ucast (drop_bit n x)) v"

definition vrhadd_u8 :: "u8 list \<Rightarrow> u8 list \<Rightarrow> u8 list" where
  "vrhadd_u8 = map2 (\<lambda>x y. word_of_int ((uint x + uint y + 1) div 2))"

definition vqsub_u8 :: "u8 list \<Rightarrow> u8 list \<Rightarrow> u8 list" where
  "vqsub_u8 = map2 (\<lambda>x y. if x \<le> y then 0 else x - y)"

section \<open>State\<close>

record DemosaicParams =
  width :: u16
  height :: u16
  bayerPattern :: u8
  offset_x :: u8
  offset_y :: u8
  blackLevel :: u16

record demosaic =
  mParams :: DemosaicParams
  mInitialized :: bool
  mBayerBuf :: "buf option"
  mBayerBufSize :: u32

definition DemosaicNEON_new :: demosaic where
  "DemosaicNEON_new =
    \<lparr> mParams = \<lparr> width = 0, height = 0, bayerPattern = 0, offset_x = 0, offset_y = 0, blackLevel = 0 \<rparr>,
      mInitialized = False, mBayerBuf = None, mBayerBufSize = 0 \<rparr>"

text \<open>\<open>realloc\<close> keeps the old bytes, leaves the new ones unspecified (\<open>junk\<close>), and may fail.\<close>

definition realloc_buf :: "bool \<Rightarrow> (nat \<Rightarrow> u8) \<Rightarrow> buf option \<Rightarrow> nat \<Rightarrow> buf option" where
  "realloc_buf ok junk old n =
     (if ok then (let b = (case old of None \<Rightarrow> [] | Some b \<Rightarrow> b)
                  in Some (take n b @ map junk [length b..<n]))
      else None)"

text \<open>
  The product is computed as a signed int, so that a frame of \<open>2 ^ 31\<close> pixels or more is undefined
  behaviour.
\<close>

definition initialize :: "bool \<Rightarrow> (nat \<Rightarrow> u8) \<Rightarrow> DemosaicParams \<Rightarrow> demosaic \<Rightarrow> (int \<times> demosaic) outcome" where
  "initialize ok junk params d =
     (if width params = 0 \<or> height params = 0 then Ret (-1, d)
      else
        let d = d\<lparr>mParams := params\<rparr>;
            n = unat (width params) * unat (height params) + 16;
            needed = (of_nat n :: u32)
        in if 2 ^ 31 \<le> n then Crash
           else if mBayerBufSize d < needed then
             (case realloc_buf ok junk (mBayerBuf d) (unat (needed + 64)) of
                None \<Rightarrow> Ret (-1, d)
              | Some b \<Rightarrow> Ret (0, d\<lparr>mBayerBuf := Some b, mBayerBufSize := needed + 64, mInitialized := True\<rparr>))
           else Ret (0, d\<lparr>mInitialized := True\<rparr>))"

section \<open>Ten bits to eight\<close>

text \<open>\<open>memcpy\<close> of a little-endian 16-bit sample.\<close>

definition rd16 :: "buf \<Rightarrow> nat \<Rightarrow> u16 option" where
  "rd16 b i = do { l \<leftarrow> rd b i; h \<leftarrow> rd b (i + 1); Some (ucast l + 256 * ucast h) }"

fun rd16s :: "buf \<Rightarrow> nat \<Rightarrow> nat \<Rightarrow> u16 list option" where
  "rd16s b i 0 = Some []"
| "rd16s b i (Suc n) = do { v \<leftarrow> rd16 b i; vs \<leftarrow> rd16s b (i + 2) n; Some (v # vs) }"

definition raw10_block :: "buf \<Rightarrow> u16 \<Rightarrow> nat \<Rightarrow> buf \<Rightarrow> buf option" where
  "raw10_block inp bl i out =
     do { tmp \<leftarrow> rd16s inp (i * 2) 16;
          let a = take 8 tmp; b = drop 8 tmp;
              blv = replicate 16 (ucast bl :: u8);
              v = vshrn_n_u16 a 2 @ vshrn_n_u16 b 2
          in wr_block i (vqsub_u8 v blv) out }"

definition raw10_single :: "buf \<Rightarrow> u16 \<Rightarrow> nat \<Rightarrow> buf \<Rightarrow> buf option" where
  "raw10_single inp bl i out =
     do { v \<leftarrow> rd16 inp (i * 2);
          let p = uint (drop_bit 2 v) - uint bl
          in wr i (if 0 < p then word_of_int p else 0) out }"

definition raw10_to_8bit :: "buf \<Rightarrow> buf \<Rightarrow> nat \<Rightarrow> u16 \<Rightarrow> buf option" where
  "raw10_to_8bit inp out tot bl =
     do { (i, out) \<leftarrow> for_step 16 tot (raw10_block inp bl) 0 out;
          map_option snd (for_step 1 tot (raw10_single inp bl) i out) }"

section \<open>One row\<close>

definition clamp :: "int \<Rightarrow> u8" where
  "clamp v = word_of_int (if v div 256 \<noteq> 0 then (if v < 0 then 0 else 255) else v)"

type_synonym rgb = "u8 \<times> u8 \<times> u8"

text \<open>A sample read into an int.\<close>

definition smp :: "buf \<Rightarrow> nat \<Rightarrow> int option" where
  "smp b i = map_option uint (rd b i)"

text \<open>
  The interpolation of one pixel of colour type \<open>ty\<close> at column \<open>x\<close>, from the neighbours at
  columns \<open>xl\<close> and \<open>xr\<close>: the formula every scalar part of the routine spells out per type.
\<close>

definition interp :: "nat \<Rightarrow> buf \<Rightarrow> nat \<Rightarrow> nat \<Rightarrow> nat \<Rightarrow> nat \<Rightarrow> nat \<Rightarrow> nat \<Rightarrow> rgb option" where
  "interp ty b row up dn x xl xr =
     do { v \<leftarrow> smp b (row + x);
          if ty = 0 then
            do { l \<leftarrow> smp b (row + xl); r \<leftarrow> smp b (row + xr); u \<leftarrow> smp b (up + x); d \<leftarrow> smp b (dn + x);
                 ul \<leftarrow> smp b (up + xl); ur \<leftarrow> smp b (up + xr); dl \<leftarrow> smp b (dn + xl); dr \<leftarrow> smp b (dn + xr);
                 Some (clamp v, clamp ((l + r + u + d) div 4), clamp ((ul + ur + dl + dr) div 4)) }
          else if ty = 1 then
            do { l \<leftarrow> smp b (row + xl); r \<leftarrow> smp b (row + xr); u \<leftarrow> smp b (up + x); d \<leftarrow> smp b (dn + x);
                 Some (clamp ((l + r) div 2), clamp v, clamp ((u + d) div 2)) }
          else if ty = 2 then
            do { l \<leftarrow> smp b (row + xl); r \<leftarrow> smp b (row + xr); u \<leftarrow> smp b (up + x); d \<leftarrow> smp b (dn + x);
                 Some (clamp ((u + d) div 2), clamp v, clamp ((l + r) div 2)) }
          else
            do { l \<leftarrow> smp b (row + xl); r \<leftarrow> smp b (row + xr); u \<leftarrow> smp b (up + x); d \<leftarrow> smp b (dn + x);
                 ul \<leftarrow> smp b (up + xl); ur \<leftarrow> smp b (up + xr); dl \<leftarrow> smp b (dn + xl); dr \<leftarrow> smp b (dn + xr);
                 Some (clamp ((ul + ur + dl + dr) div 4), clamp ((l + r + u + d) div 4), clamp v) } }"

definition put_px :: "nat \<Rightarrow> rgb \<Rightarrow> buf \<Rightarrow> buf option" where
  "put_px off t rgb =
     (case t of (r, g, b) \<Rightarrow>
        do { rgb \<leftarrow> wr off r rgb; rgb \<leftarrow> wr (off + 1) g rgb; wr (off + 2) b rgb })"

definition row_column0 :: "nat \<Rightarrow> buf \<Rightarrow> nat \<Rightarrow> nat \<Rightarrow> nat \<Rightarrow> nat \<Rightarrow> buf \<Rightarrow> buf option" where
  "row_column0 ev_type b row up dn out_base rgb =
     do { t \<leftarrow> interp ev_type b row up dn 0 1 1; put_px out_base t rgb }"

definition row_column1 :: "nat \<Rightarrow> buf \<Rightarrow> nat \<Rightarrow> nat \<Rightarrow> nat \<Rightarrow> nat \<Rightarrow> buf \<Rightarrow> buf option" where
  "row_column1 od_type b row up dn out_base rgb =
     do { t \<leftarrow> interp od_type b row up dn 1 0 2; put_px (out_base + 3) t rgb }"

record batch_regs =
  ev_c :: "u8 list"
  od_c :: "u8 list"
  hv_g :: "u8 list"
  diag_b :: "u8 list"
  od_h_r :: "u8 list"
  od_v_b :: "u8 list"
  ev_v_r :: "u8 list"
  od_hv_g :: "u8 list"
  od_diag_r8 :: "u8 list"
  ev_h_b :: "u8 list"

definition batch_load :: "buf \<Rightarrow> nat \<Rightarrow> nat \<Rightarrow> nat \<Rightarrow> nat \<Rightarrow> batch_regs option" where
  "batch_load b row up dn x =
     do { r_lo \<leftarrow> vld1_u8 b (row + x - 1);
          r_hi \<leftarrow> vld1_u8 b (row + x + 1);
          u_v \<leftarrow> vld1_u8 b (up + x);
          d_v \<leftarrow> vld1_u8 b (dn + x);
          u_lo \<leftarrow> vld1_u8 b (up + x - 1);
          d_lo \<leftarrow> vld1_u8 b (dn + x - 1);
          let (ev_left, ev_center) = vuzp_u8 r_lo r_lo;
              (od_center, od_right) = vuzp_u8 r_hi r_hi;
              ev_right = od_center;
              (u_even, u_odd) = vuzp_u8 u_v u_v;
              (d_even, d_odd) = vuzp_u8 d_v d_v;
              (u_diag, _) = vuzp_u8 u_lo u_lo;
              (d_diag, _) = vuzp_u8 d_lo d_lo;
              od_h_sum = vaddl_u8 ev_center (vext_u8 ev_center od_right 1);
              od_hv_sum = vaddq_u16 od_h_sum (vaddl_u8 u_odd d_odd);
              od_diag_l = vaddl_u8 u_even d_even;
              od_diag_r = vaddl_u8 (vext_u8 u_even u_even 1) (vext_u8 d_even d_even 1)
          in Some
            \<lparr> ev_c = take 4 ev_center,
              od_c = take 4 od_center,
              hv_g = vshrn_n_u16 (vaddq_u16 (vaddl_u8 ev_left ev_right) (vaddl_u8 u_even d_even)) 2,
              diag_b = vshrn_n_u16 (vaddq_u16 (vaddl_u8 u_diag d_diag) (vaddl_u8 u_odd d_odd)) 2,
              od_h_r = vrhadd_u8 ev_center (vext_u8 ev_center od_right 1),
              od_v_b = vshrn_n_u16 (vaddl_u8 u_odd d_odd) 1,
              ev_v_r = vshrn_n_u16 (vaddl_u8 u_even d_even) 1,
              od_hv_g = vshrn_n_u16 od_hv_sum 2,
              od_diag_r8 = vshrn_n_u16 (vaddq_u16 od_diag_l od_diag_r) 2,
              ev_h_b = vrhadd_u8 ev_left od_center \<rparr> }"

text \<open>The two switches that pick, per colour type, the registers stored as R, G and B.\<close>

definition batch_even :: "nat \<Rightarrow> batch_regs \<Rightarrow> nat \<Rightarrow> rgb" where
  "batch_even ev_type q i =
     (if ev_type = 0 then (ev_c q ! i, hv_g q ! i, diag_b q ! i)
      else if ev_type = 1 then (od_h_r q ! i, ev_c q ! i, od_v_b q ! i)
      else if ev_type = 2 then (ev_v_r q ! i, ev_c q ! i, ev_h_b q ! i)
      else (diag_b q ! i, hv_g q ! i, ev_c q ! i))"

definition batch_odd :: "nat \<Rightarrow> batch_regs \<Rightarrow> nat \<Rightarrow> rgb" where
  "batch_odd od_type q i =
     (if od_type = 0 then (od_c q ! i, od_hv_g q ! i, od_diag_r8 q ! i)
      else if od_type = 1 then (od_h_r q ! i, od_c q ! i, od_v_b q ! i)
      else if od_type = 2 then (od_v_b q ! i, od_c q ! i, od_v_b q ! i)
      else (od_diag_r8 q ! i, od_hv_g q ! i, od_c q ! i))"

definition row_batch :: "nat \<Rightarrow> nat \<Rightarrow> buf \<Rightarrow> nat \<Rightarrow> nat \<Rightarrow> nat \<Rightarrow> nat \<Rightarrow> nat \<Rightarrow> buf \<Rightarrow> buf option" where
  "row_batch ev_type od_type b row up dn out_base x rgb =
     do { q \<leftarrow> batch_load b row up dn x;
          for_range 0 4 (\<lambda>i rgb.
            do { rgb \<leftarrow> put_px (out_base + (x + 2 * i) * 3) (batch_even ev_type q i) rgb;
                 put_px (out_base + (x + 2 * i + 1) * 3) (batch_odd od_type q i) rgb }) rgb }"

definition row_pair :: "nat \<Rightarrow> nat \<Rightarrow> buf \<Rightarrow> nat \<Rightarrow> nat \<Rightarrow> nat \<Rightarrow> nat \<Rightarrow> nat \<Rightarrow> buf \<Rightarrow> buf option" where
  "row_pair ev_type od_type b row up dn out_base x rgb =
     do { t \<leftarrow> interp ev_type b row up dn x (x - 1) (x + 1);
          rgb \<leftarrow> put_px (out_base + x * 3) t rgb;
          t' \<leftarrow> interp od_type b row up dn (x + 1) x (x + 2);
          put_px (out_base + (x + 1) * 3) t' rgb }"

text \<open>The scalar remainder runs while \<open>x < w - 2\<close>, that is while \<open>x + 2 \<le> w - 1\<close>.\<close>

definition neon_row :: "buf \<Rightarrow> nat \<Rightarrow> nat \<Rightarrow> nat \<Rightarrow> nat \<Rightarrow> nat \<Rightarrow> nat \<Rightarrow> nat \<Rightarrow> buf \<Rightarrow> buf option" where
  "neon_row b row up dn w out_base ev_type od_type rgb =
     do { rgb \<leftarrow> row_column0 ev_type b row up dn out_base rgb;
          rgb \<leftarrow> row_column1 od_type b row up dn out_base rgb;
          (x, rgb) \<leftarrow> for_step 8 (w - 2) (row_batch ev_type od_type b row up dn out_base) 2 rgb;
          map_option snd (for_step 2 (w - 1) (row_pair ev_type od_type b row up dn out_base) x rgb) }"

section \<open>Edges and the frame\<close>

text \<open>A \<open>memcpy\<close> inside one buffer: both ranges inside it, not overlapping.\<close>

definition memcpy :: "int \<Rightarrow> int \<Rightarrow> nat \<Rightarrow> buf \<Rightarrow> buf option" where
  "memcpy d s n b =
     (if d < 0 \<or> s < 0 \<or> \<bar>d - s\<bar> < int n then None
      else do { vs \<leftarrow> rd_block b (nat s) n; wr_block (nat d) vs b })"

definition copy1 :: "int \<Rightarrow> int \<Rightarrow> buf \<Rightarrow> buf option" where
  "copy1 d s b = (if d < 0 \<or> s < 0 then None else do { v \<leftarrow> rd b (nat s); wr (nat d) v b })"

definition fill_edges_row :: "nat \<Rightarrow> nat \<Rightarrow> buf \<Rightarrow> buf option" where
  "fill_edges_row w y rgb =
     (let off = int y * (int w * 3) in
      do { rgb \<leftarrow> copy1 off (off + 3) rgb;
           rgb \<leftarrow> copy1 (off + 1) (off + 4) rgb;
           rgb \<leftarrow> copy1 (off + 2) (off + 5) rgb;
           rgb \<leftarrow> copy1 (off + (int w - 1) * 3) (off + (int w - 2) * 3) rgb;
           rgb \<leftarrow> copy1 (off + (int w - 1) * 3 + 1) (off + (int w - 2) * 3 + 1) rgb;
           copy1 (off + (int w - 1) * 3 + 2) (off + (int w - 2) * 3 + 2) rgb })"

definition fill_edges :: "buf \<Rightarrow> nat \<Rightarrow> nat \<Rightarrow> buf option" where
  "fill_edges rgb w h =
     (let s = int w * 3 in
      do { rgb \<leftarrow> memcpy 0 s (nat s) rgb;
           rgb \<leftarrow> memcpy ((int h - 1) * s) ((int h - 2) * s) (nat s) rgb;
           for_range 0 h (fill_edges_row w) rgb })"

definition pos_color :: "nat list list" where
  "pos_color = [[1, 0, 3, 2], [0, 1, 2, 3], [2, 3, 0, 1], [0, 1, 2, 3]]"

definition row_types :: "DemosaicParams \<Rightarrow> nat \<Rightarrow> nat \<times> nat" where
  "row_types p y =
     (let oy = unat (offset_y p) mod 2; ox = unat (offset_x p) mod 2;
          r = (y + oy) mod 2;
          t = pos_color ! unat (bayerPattern p)
      in (t ! (r * 2 + ox), t ! (r * 2 + 1 - ox)))"

definition process_row :: "DemosaicParams \<Rightarrow> buf \<Rightarrow> nat \<Rightarrow> buf \<Rightarrow> buf option" where
  "process_row p b8 y rgb =
     (let w = unat (width p) in
      if unat (bayerPattern p) < 4 then
        (case row_types p y of (ev_type, od_type) \<Rightarrow>
           neon_row b8 (y * w) ((y - 1) * w) ((y + 1) * w) w (y * (w * 3)) ev_type od_type rgb)
      else None)"

text \<open>
  A null input or output is \<open>None\<close> in the argument. The result holds the plane and the output,
  both unchanged by an early return; a pattern outside the table is an access outside it.
\<close>

definition process :: "demosaic \<Rightarrow> buf option \<Rightarrow> buf option \<Rightarrow> (demosaic \<times> buf option) outcome" where
  "process d bayerInput rgbOutput =
     (case (mInitialized d, bayerInput, rgbOutput, mBayerBuf d) of
        (True, Some inp, Some rgb, Some pl) \<Rightarrow>
          (let w = unat (width (mParams d)); h = unat (height (mParams d))
           in case
             do { b8 \<leftarrow> raw10_to_8bit inp pl (w * h) (blackLevel (mParams d));
                  rgb \<leftarrow> for_range 1 (h - 1) (process_row (mParams d) b8) rgb;
                  rgb \<leftarrow> fill_edges rgb w h;
                  Some (b8, rgb) } of
               None \<Rightarrow> Crash
             | Some (b8, rgb) \<Rightarrow> Ret (d\<lparr>mBayerBuf := Some b8\<rparr>, Some rgb))
      | _ \<Rightarrow> Ret (d, rgbOutput))"

section \<open>Lemmas on the sample conversion\<close>

definition sample16 :: "buf \<Rightarrow> nat \<Rightarrow> u16" where
  "sample16 inp i = ucast (inp ! (2 * i)) + 256 * ucast (inp ! (2 * i + 1))"

definition ten_bit :: "buf \<Rightarrow> nat \<Rightarrow> bool" where
  "ten_bit inp n \<longleftrightarrow> (\<forall>i < n. uint (sample16 inp i) < 1024)"

definition level8 :: "u16 \<Rightarrow> u16 \<Rightarrow> u8" where
  "level8 v bl = (let p = uint (drop_bit 2 v) - uint bl in if 0 < p then word_of_int p else 0)"

lemma rd16_sample: "2 * i + 1 < length inp \<Longrightarrow> rd16 inp (2 * i) = Some (sample16 inp i)"
  by (simp add: rd16_def sample16_def)

lemma rd16s_samples:
  "2 * (i + n) \<le> length inp \<Longrightarrow> rd16s inp (2 * i) n = Some (map (sample16 inp) [i..<i + n])"
proof (induction n arbitrary: i)
  case (Suc n)
  have "rd16s inp (2 * Suc i) n = Some (map (sample16 inp) [Suc i..<Suc i + n])"
    using Suc.prems by (intro Suc.IH) simp
  then show ?case using Suc.prems by (simp add: rd16_sample upt_conv_Cons del: upt_Suc)
qed simp

lemma level8_lane:
  assumes "uint v < 1024" "uint bl < 256"
  shows "(if (ucast (drop_bit 2 v) :: u8) \<le> ucast bl then 0 else ucast (drop_bit 2 v) - ucast bl) = level8 v bl"
proof -
  have v: "uint (ucast (drop_bit 2 v) :: u8) = uint v div 4"
  proof -
    have "0 \<le> uint v div 4" "uint v div 4 < 256" using assms(1) uint_ge_0 [of v] by linarith+
    then show ?thesis by (simp add: uint_simps)
  qed
  have b: "uint (ucast bl :: u8) = uint bl"
    using assms(2) by (simp add: uint_simps)
  have d: "uint (drop_bit 2 v) = uint v div 4" by (simp add: uint_simps)
  show ?thesis
  proof (cases "uint v div 4 \<le> uint bl")
    case True
    then show ?thesis using v b d by (simp add: level8_def word_le_def)
  next
    case False
    have "(ucast (drop_bit 2 v) :: u8) - ucast bl = word_of_int (uint v div 4 - uint bl)"
      by (simp add: v [symmetric] b [symmetric])
    then show ?thesis using v b d False by (simp add: level8_def word_le_def)
  qed
qed

lemma raw10_single_eq:
  "2 * i + 1 < length inp \<Longrightarrow> raw10_single inp bl i out = wr_block i [level8 (sample16 inp i) bl] out"
  by (simp add: raw10_single_def mult.commute [of i] rd16_sample level8_def Let_def wr_wr_block)

lemma raw10_block_eq:
  assumes "2 * (i + 16) \<le> length inp" "ten_bit inp (i + 16)" "uint bl < 256"
  shows "raw10_block inp bl i out = wr_block i (map (\<lambda>j. level8 (sample16 inp j) bl) [i..<i + 16]) out"
proof -
  have "vqsub_u8 (vshrn_n_u16 (take 8 ts) 2 @ vshrn_n_u16 (drop 8 ts) 2) (replicate 16 (ucast bl)) =
      map (\<lambda>v. if (ucast (drop_bit 2 v) :: u8) \<le> ucast bl then 0 else ucast (drop_bit 2 v) - ucast bl) ts"
    if "length ts = 16" for ts :: "u16 list"
    using that by (simp add: vqsub_u8_def vshrn_n_u16_def map_append [symmetric] map2_map_map
        zip_replicate2 comp_def del: map_append)
  moreover have "map (\<lambda>v. if (ucast (drop_bit 2 v) :: u8) \<le> ucast bl then 0 else ucast (drop_bit 2 v) - ucast bl)
      (map (sample16 inp) [i..<i + 16]) = map (\<lambda>j. level8 (sample16 inp j) bl) [i..<i + 16]"
    unfolding map_map comp_def using assms(2,3) by (intro map_cong) (auto simp: ten_bit_def level8_lane)
  ultimately have "vqsub_u8 (vshrn_n_u16 (take 8 ts) 2 @ vshrn_n_u16 (drop 8 ts) 2) (replicate 16 (ucast bl)) =
      map (\<lambda>j. level8 (sample16 inp j) bl) [i..<i + 16]" if "ts = map (sample16 inp) [i..<i + 16]" for ts
    using that by simp
  then show ?thesis
    using rd16s_samples [of i 16 inp] assms(1)
    by (simp add: raw10_block_def mult.commute [of i] Let_def del: upt_Suc map_map)
qed

lemma raw10_to_8bit_eq:
  assumes "2 * tot \<le> length inp" "ten_bit inp tot" "uint bl < 256"
  shows "raw10_to_8bit inp out tot bl = for_range 0 tot (raw10_single inp bl) out"
proof -
  have "raw10_block inp bl y t = for_range y (y + 16) (raw10_single inp bl) t" if "y + 16 \<le> tot" for y t
  proof -
    have "for_range y (y + 16) (raw10_single inp bl) t =
        wr_block (1 * y) (concat (map (\<lambda>j. [level8 (sample16 inp j) bl]) [y..<y + 16])) t"
      by (rule for_range_wr_blocks) (use that assms in \<open>simp_all add: raw10_single_eq\<close>)
    moreover have "ten_bit inp (y + 16)" using that assms(2) by (simp add: ten_bit_def)
    ultimately show ?thesis using raw10_block_eq [of y inp bl t] that assms
      by (simp del: upt_Suc)
  qed
  then show ?thesis unfolding raw10_to_8bit_def by (intro chunked_loop_eq) simp_all
qed

lemma raw10_levels:
  assumes "2 * tot \<le> length inp" "tot \<le> length out" "ten_bit inp tot" "uint bl < 256"
  shows "\<exists>out'. raw10_to_8bit inp out tot bl = Some out' \<and> length out' = length out \<and>
    (\<forall>i < tot. uint (out' ! i) = max 0 (uint (sample16 inp i) div 4 - uint bl)) \<and>
    (\<forall>i. tot \<le> i \<longrightarrow> i < length out \<longrightarrow> out' ! i = out ! i)"
proof -
  have "\<exists>b'. for_range 0 tot (raw10_single inp bl) out = Some b' \<and> length b' = length out \<and>
    (\<forall>p < tot. \<forall>q < 1. b' ! (1 * p + q) = [level8 (sample16 inp p) bl] ! q) \<and>
    (\<forall>i. 1 * tot \<le> i \<longrightarrow> i < length out \<longrightarrow> b' ! i = out ! i)"
    by (rule for_range_wr_nth) (use assms in \<open>simp_all add: raw10_single_eq\<close>)
  then obtain b' where b': "for_range 0 tot (raw10_single inp bl) out = Some b'" "length b' = length out"
      "\<And>p. p < tot \<Longrightarrow> b' ! p = level8 (sample16 inp p) bl"
      "\<And>i. tot \<le> i \<Longrightarrow> i < length out \<Longrightarrow> b' ! i = out ! i" by auto
  have "uint (level8 (sample16 inp i) bl) = max 0 (uint (sample16 inp i) div 4 - uint bl)" if "i < tot" for i
  proof -
    have "uint (sample16 inp i) div 4 < 256" using assms(3) that by (auto simp: ten_bit_def)
    then have "uint (sample16 inp i) div 4 - uint bl < 256" by (smt (verit) uint_ge_0)
    then show ?thesis
      by (auto simp: level8_def Let_def uint_drop_bit max_def uint_of_int_mod simp del: of_int_diff)
  qed
  then show ?thesis using b' raw10_to_8bit_eq [OF assms(1,3,4), of out] by auto
qed

section \<open>Lemmas on the rows\<close>

definition pix :: "buf \<Rightarrow> nat \<Rightarrow> rgb" where
  "pix b p = (b ! (3 * p), b ! (3 * p + 1), b ! (3 * p + 2))"

lemma put_px_Some:
  "3 * p + 2 < length t \<Longrightarrow> \<exists>t'. put_px (3 * p) v t = Some t' \<and> length t' = length t \<and>
     (\<forall>q. 3 * q + 2 < length t \<longrightarrow> pix t' q = (if q = p then v else pix t q))"
proof -
  assume p: "3 * p + 2 < length t"
  obtain r g b where v: "v = (r, g, b)" by (cases v)
  let ?t' = "t[3 * p := r, 3 * p + 1 := g, 3 * p + 2 := b]"
  have "put_px (3 * p) v t = Some ?t'" using p v by (simp add: put_px_def)
  moreover have "pix ?t' q = (if q = p then v else pix t q)" if "3 * q + 2 < length t" for q
  proof (cases "q = p")
    case True
    then show ?thesis using p v by (simp add: pix_def)
  next
    case False
    have "3 * p + i \<noteq> 3 * q + j" if "i < 3" "j < 3" for i j using False that by presburger
    from this [of 0] this [of 1] this [of 2] show ?thesis using False by (simp add: pix_def)
  qed
  ultimately show ?thesis by auto
qed

text \<open>\<open>t\<close> is \<open>t0\<close> with the \<open>n\<close> pixels from \<open>base\<close> on replaced by \<open>R 0, R 1, \<dots>\<close>.\<close>

definition filled :: "buf \<Rightarrow> nat \<Rightarrow> nat \<Rightarrow> (nat \<Rightarrow> rgb) \<Rightarrow> buf \<Rightarrow> bool" where
  "filled t0 base n R t \<longleftrightarrow> length t = length t0 \<and>
     (\<forall>q. 3 * q + 2 < length t0 \<longrightarrow>
        pix t q = (if base \<le> q \<and> q < base + n then R (q - base) else pix t0 q))"

lemma filled_0: "filled t0 base 0 R t0"
  by (auto simp: filled_def)

lemma filled_put:
  assumes "filled t0 base n R t" "3 * (base + n) + 2 < length t0"
  shows "\<exists>t'. put_px (3 * (base + n)) (R n) t = Some t' \<and> filled t0 base (Suc n) R t'"
  using assms put_px_Some [of "base + n" t "R n"] by (auto simp: filled_def less_Suc_eq)

definition batch_end :: "nat \<Rightarrow> nat" where
  "batch_end w = 2 + 8 * ((w - 4) div 8)"

definition batch_px :: "nat \<Rightarrow> nat \<Rightarrow> buf \<Rightarrow> nat \<Rightarrow> nat \<Rightarrow> nat \<Rightarrow> nat \<Rightarrow> rgb option" where
  "batch_px ev_type od_type b row up dn x =
     map_option (\<lambda>q. let i = (x - 2) mod 8 div 2 in if even x then batch_even ev_type q i else batch_odd od_type q i)
       (batch_load b row up dn (2 + 8 * ((x - 2) div 8)))"

definition row_px :: "nat \<Rightarrow> nat \<Rightarrow> buf \<Rightarrow> nat \<Rightarrow> nat \<Rightarrow> nat \<Rightarrow> nat \<Rightarrow> nat \<Rightarrow> rgb option" where
  "row_px ev_type od_type b row up dn w x =
     (if x = 0 then interp ev_type b row up dn 0 1 1
      else if 2 \<le> x \<and> x < batch_end w then batch_px ev_type od_type b row up dn x
      else interp (if even x then ev_type else od_type) b row up dn x (x - 1) (x + 1))"

lemma interp_Some:
  assumes "row + x < length b" "row + xl < length b" "row + xr < length b"
    "up + x < length b" "up + xl < length b" "up + xr < length b"
    "dn + x < length b" "dn + xl < length b" "dn + xr < length b"
  shows "\<exists>t. interp ty b row up dn x xl xr = Some t"
  using assms by (simp add: interp_def smp_def)

lemma batch_load_Some:
  assumes "1 \<le> x" "row + x + 8 < length b" "up + x + 8 < length b" "dn + x + 8 < length b"
  shows "\<exists>q. batch_load b row up dn x = Some q"
proof -
  have "vld1_u8 b p = Some (take 8 (drop p b))" if "p + 8 \<le> length b" for p
    using that by (simp add: vld1_u8_def)
  then show ?thesis using assms by (simp add: batch_load_def split: prod.split)
qed

text \<open>The rows of a plane of width \<open>w\<close> that the routine reads lie inside the plane.\<close>

definition rows_in :: "buf \<Rightarrow> nat \<Rightarrow> nat \<Rightarrow> nat \<Rightarrow> nat \<Rightarrow> bool" where
  "rows_in b row up dn w \<longleftrightarrow> row + w \<le> length b \<and> up + w \<le> length b \<and> dn + w \<le> length b"

lemma rows_in_plane:
  assumes "(y + 2) * w \<le> length b"
  shows "rows_in b (y * w) ((y - 1) * w) ((y + 1) * w) w"
proof -
  have "Y * w + w \<le> length b" if "Y \<le> y + 1" for Y
  proof -
    have "Suc Y * w \<le> (y + 2) * w" using that by (intro mult_le_mono1) simp
    then show ?thesis using assms by simp
  qed
  from this [of y] this [of "y - 1"] this [of "y + 1"] show ?thesis
    unfolding rows_in_def by (metis diff_le_self le_add1 order_trans order_refl)
qed

lemma interp_in:
  "rows_in b row up dn w \<Longrightarrow> x < w \<Longrightarrow> xl < w \<Longrightarrow> xr < w \<Longrightarrow> \<exists>t. interp ty b row up dn x xl xr = Some t"
  by (rule interp_Some) (auto simp: rows_in_def)

lemma row_batch_filled:
  assumes "rows_in b row up dn w" "x + 8 \<le> w - 2" "x < batch_end w" "2 \<le> x" "(x - 2) mod 8 = 0"
    and "filled t0 base x (\<lambda>x. the (row_px ev_type od_type b row up dn w x)) t" "3 * (base + w) \<le> length t0"
  shows "\<exists>t'. row_batch ev_type od_type b row up dn (3 * base) x t = Some t' \<and>
    filled t0 base (x + 8) (\<lambda>x. the (row_px ev_type od_type b row up dn w x)) t'"
proof -
  let ?R = "\<lambda>x. the (row_px ev_type od_type b row up dn w x)"
  obtain q where q: "batch_load b row up dn x = Some q"
  proof -
    have "1 \<le> x" "row + x + 8 < length b" "up + x + 8 < length b" "dn + x + 8 < length b"
      using assms(1,2,4) unfolding rows_in_def by linarith+
    then show ?thesis using that batch_load_Some by blast
  qed
  obtain m where m: "x = 2 + 8 * m" using assms(4,5) by (metis le_add_diff_inverse mod_0_imp_dvd dvdE)
  have be: "x + 8 \<le> batch_end w" using assms(3) m by (simp add: batch_end_def)
  have R: "?R (x + 2 * i) = batch_even ev_type q i" "?R (x + 2 * i + 1) = batch_odd od_type q i" if "i < 4" for i
  proof -
    have "(2 * i + 8 * m) div 8 = m" "(2 * i + 8 * m) mod 8 div 2 = i"
      "(Suc (2 * i + 8 * m)) div 8 = m" "(Suc (2 * i + 8 * m)) mod 8 div 2 = i"
      using that by presburger+
    then show "?R (x + 2 * i) = batch_even ev_type q i" "?R (x + 2 * i + 1) = batch_odd od_type q i"
      using q be that by (simp_all add: row_px_def batch_px_def Let_def m add.commute)
  qed
  have "\<exists>t'. for_range 0 4 (\<lambda>i rgb.
      do { rgb \<leftarrow> put_px (3 * base + (x + 2 * i) * 3) (batch_even ev_type q i) rgb;
           put_px (3 * base + (x + 2 * i + 1) * 3) (batch_odd od_type q i) rgb }) t = Some t' \<and>
      filled t0 base (x + 2 * 4) ?R t'"
  proof (rule for_range_rule [where I = "\<lambda>i t. filled t0 base (x + 2 * i) ?R t"])
    fix i t assume i: "i < (4::nat)" and f: "filled t0 base (x + 2 * i) ?R t"
    have bd: "3 * (base + (x + 2 * i + 1)) + 2 < length t0" using i assms(2,7) by simp
    obtain t1 where t1: "put_px (3 * (base + (x + 2 * i))) (?R (x + 2 * i)) t = Some t1"
        "filled t0 base (x + 2 * i + 1) ?R t1"
      using filled_put [OF f] bd by auto
    obtain t2 where "put_px (3 * (base + (x + 2 * i + 1))) (?R (x + 2 * i + 1)) t1 = Some t2"
        "filled t0 base (x + 2 * Suc i) ?R t2"
      using filled_put [OF t1(2) bd] by auto
    then show "\<exists>t'. (do { rgb \<leftarrow> put_px (3 * base + (x + 2 * i) * 3) (batch_even ev_type q i) t;
           put_px (3 * base + (x + 2 * i + 1) * 3) (batch_odd od_type q i) rgb }) = Some t' \<and>
        filled t0 base (x + 2 * Suc i) ?R t'"
      using t1(1) unfolding R [OF i] by (simp add: algebra_simps)
  qed (use assms(6) in simp_all)
  then show ?thesis using q by (simp add: row_batch_def)
qed

lemma row_pair_filled:
  assumes "rows_in b row up dn w" "x + 2 \<le> w - 1" "batch_end w \<le> x" "even x"
    and "filled t0 base x (\<lambda>x. the (row_px ev_type od_type b row up dn w x)) t" "3 * (base + w) \<le> length t0"
  shows "\<exists>t'. row_pair ev_type od_type b row up dn (3 * base) x t = Some t' \<and>
    filled t0 base (x + 2) (\<lambda>x. the (row_px ev_type od_type b row up dn w x)) t'"
proof -
  let ?R = "\<lambda>x. the (row_px ev_type od_type b row up dn w x)"
  have x2: "2 \<le> x" using assms(3) by (simp add: batch_end_def)
  have lt: "x < w" "x - 1 < w" "x + 1 < w" "x + 2 < w" using assms(2) x2 by linarith+
  obtain v where v: "interp ev_type b row up dn x (x - 1) (x + 1) = Some v"
    using interp_in [OF assms(1), of x "x - 1" "x + 1" ev_type] lt by blast
  obtain v' where v': "interp od_type b row up dn (x + 1) x (x + 2) = Some v'"
    using interp_in [OF assms(1), of "x + 1" x "x + 2" od_type] lt by blast
  have R: "?R x = v" "?R (x + 1) = v'"
    using v v' assms(3,4) x2 by (simp_all add: row_px_def)
  obtain t1 where t1: "put_px (3 * (base + x)) v t = Some t1" "filled t0 base (Suc x) ?R t1"
    using filled_put [OF assms(5)] lt assms(6) R by auto
  obtain t2 where "put_px (3 * (base + Suc x)) v' t1 = Some t2" "filled t0 base (Suc (Suc x)) ?R t2"
    using filled_put [OF t1(2)] lt assms(6) R by auto
  then show ?thesis using t1 v v' by (simp add: row_pair_def algebra_simps)
qed

definition row_end :: "nat \<Rightarrow> nat" where
  "row_end w = w - 2 + w mod 2"

lemma row_columns_filled:
  assumes "rows_in b row up dn w" "3 \<le> w" "3 * (base + w) \<le> length t0"
  shows "\<exists>t1 t2. row_column0 ev_type b row up dn (3 * base) t0 = Some t1 \<and>
    row_column1 od_type b row up dn (3 * base) t1 = Some t2 \<and>
    filled t0 base 2 (\<lambda>x. the (row_px ev_type od_type b row up dn w x)) t2"
proof -
  let ?R = "\<lambda>x. the (row_px ev_type od_type b row up dn w x)"
  obtain v where v: "interp ev_type b row up dn 0 1 1 = Some v"
    using interp_in [OF assms(1), of 0 1 1 ev_type] assms(2) by auto
  obtain v' where v': "interp od_type b row up dn 1 0 2 = Some v'"
    using interp_in [OF assms(1), of 1 0 2 od_type] assms(2) by auto
  have R: "?R 0 = v" "?R 1 = v'" using v v' by (simp_all add: row_px_def numeral_2_eq_2)
  obtain t1 where t1: "put_px (3 * (base + 0)) v t0 = Some t1" "filled t0 base (Suc 0) ?R t1"
    using filled_put [OF filled_0, of base t0 ?R] assms(2,3) R by auto
  obtain t2 where "put_px (3 * (base + Suc 0)) v' t1 = Some t2" "filled t0 base (Suc (Suc 0)) ?R t2"
    using filled_put [OF t1(2)] assms(2,3) R by auto
  then show ?thesis using t1 v v' by (simp add: row_column0_def row_column1_def algebra_simps numeral_2_eq_2)
qed

lemma neon_row_filled:
  assumes "rows_in b row up dn w" "3 \<le> w" "3 * (base + w) \<le> length t0"
  shows "\<exists>t. neon_row b row up dn w (3 * base) ev_type od_type t0 = Some t \<and>
    filled t0 base (row_end w) (\<lambda>x. the (row_px ev_type od_type b row up dn w x)) t"
proof -
  let ?R = "\<lambda>x. the (row_px ev_type od_type b row up dn w x)"
  obtain t1 t2 where t12: "row_column0 ev_type b row up dn (3 * base) t0 = Some t1"
      "row_column1 od_type b row up dn (3 * base) t1 = Some t2" "filled t0 base 2 ?R t2"
    using row_columns_filled [OF assms] by blast
  have "\<exists>x t. for_step 8 (w - 2) (row_batch ev_type od_type b row up dn (3 * base)) 2 t2 = Some (x, t) \<and>
      (filled t0 base x ?R t \<and> (x - 2) mod 8 = 0) \<and> 2 \<le> x \<and> w - 2 < x + 8 \<and> (x = 2 \<or> x \<le> w - 2)"
  proof (rule for_step_rule [where I = "\<lambda>x t. filled t0 base x ?R t \<and> (x - 2) mod 8 = 0"])
    fix x t assume x: "2 \<le> x" "x + 8 \<le> w - 2" and I: "filled t0 base x ?R t \<and> (x - 2) mod 8 = 0"
    then obtain m where m: "x = 2 + 8 * m" by (metis le_add_diff_inverse mod_0_imp_dvd dvdE)
    have "x < batch_end w" using x m by (simp add: batch_end_def)
    moreover have "(x + 8 - 2) mod 8 = 0" using m by simp
    ultimately show "\<exists>t'. row_batch ev_type od_type b row up dn (3 * base) x t = Some t' \<and>
        filled t0 base (x + 8) ?R t' \<and> (x + 8 - 2) mod 8 = 0"
      using row_batch_filled [of b row up dn w x t0 base ev_type od_type t] assms x I by simp
  qed (use t12 in simp_all)
  then obtain x t where xt: "for_step 8 (w - 2) (row_batch ev_type od_type b row up dn (3 * base)) 2 t2 = Some (x, t)"
      "filled t0 base x ?R t" "(x - 2) mod 8 = 0" "2 \<le> x" "w - 2 < x + 8" "x = 2 \<or> x \<le> w - 2"
    by (elim exE conjE)
  obtain m where m: "x = 2 + 8 * m" using xt(3,4) by (metis le_add_diff_inverse mod_0_imp_dvd dvdE)
  have be: "batch_end w \<le> x" using xt m assms(2) by (auto simp: batch_end_def)
  have "\<exists>y t'. for_step 2 (w - 1) (row_pair ev_type od_type b row up dn (3 * base)) x t = Some (y, t') \<and>
      (filled t0 base y ?R t' \<and> even y) \<and> x \<le> y \<and> w - 1 < y + 2 \<and> (y = x \<or> y \<le> w - 1)"
  proof (rule for_step_rule [where I = "\<lambda>y t. filled t0 base y ?R t \<and> even y"])
    fix y t assume "x \<le> y" "y + 2 \<le> w - 1" "filled t0 base y ?R t \<and> even y"
    then show "\<exists>t'. row_pair ev_type od_type b row up dn (3 * base) y t = Some t' \<and>
        filled t0 base (y + 2) ?R t' \<and> even (y + 2)"
      using row_pair_filled [of b row up dn w y t0 base ev_type od_type t] assms be by simp
  qed (use xt m in simp_all)
  then obtain y t' where y: "for_step 2 (w - 1) (row_pair ev_type od_type b row up dn (3 * base)) x t = Some (y, t')"
      "filled t0 base y ?R t'" "even y" "x \<le> y" "w - 1 < y + 2" "y = x \<or> y \<le> w - 1" by blast
  have "y = row_end w"
  proof -
    have "x \<le> w - 1" using xt(6) assms(2) by auto
    then have "y \<le> w - 1" "w - 1 < y + 2" using y by auto
    then show ?thesis using y(3) assms(2) unfolding row_end_def by presburger
  qed
  then show ?thesis using t12 xt y by (auto simp: neon_row_def)
qed

section \<open>Lemmas on the frame\<close>

lemma grid_eq:
  fixes x x' w :: nat
  assumes "x < w" "x' < w"
  shows "y * w + x = y' * w + x' \<longleftrightarrow> y = y' \<and> x = x'"
proof
  assume e: "y * w + x = y' * w + x'"
  have "(y * w + x) div w = y" "(y' * w + x') div w = y'" "(y * w + x) mod w = x" "(y' * w + x') mod w = x'"
    using assms by simp_all
  then show "y = y' \<and> x = x'" using e by metis
qed simp

lemma grid_less:
  fixes x w y h :: nat
  assumes "x < w" "y < h"
  shows "y * w + x < w * h" "3 * (y * w + x) + 2 < 3 * (w * h)"
proof -
  have "Suc y * w \<le> h * w" using assms by (intro mult_le_mono1) simp
  then show "y * w + x < w * h" using assms by (simp add: mult.commute)
  then show "3 * (y * w + x) + 2 < 3 * (w * h)" by simp
qed

text \<open>The pixel that row \<open>y\<close> of the frame gets at column \<open>x\<close> before the edges are filled.\<close>

definition frame_px :: "DemosaicParams \<Rightarrow> buf \<Rightarrow> nat \<Rightarrow> nat \<Rightarrow> rgb" where
  "frame_px p b8 y x =
     (let w = unat (width p) in
      case row_types p y of (ev_type, od_type) \<Rightarrow>
        the (row_px ev_type od_type b8 (y * w) ((y - 1) * w) ((y + 1) * w) w x))"

lemma filled_grid:
  assumes "filled t0 (y * w) n R t" "n \<le> w" "length t0 = 3 * (w * h)" "x < w" "y' < h"
  shows "pix t (y' * w + x) = (if y' = y \<and> x < n then R x else pix t0 (y' * w + x))"
proof -
  have e: "pix t (y' * w + x) = (if y * w \<le> y' * w + x \<and> y' * w + x < y * w + n
      then R (y' * w + x - y * w) else pix t0 (y' * w + x))"
    using assms grid_less [of x w y' h] by (simp add: filled_def)
  have "y * w \<le> y' * w + x \<and> y' * w + x < y * w + n \<longleftrightarrow> y' = y \<and> x < n"
  proof
    assume r: "y * w \<le> y' * w + x \<and> y' * w + x < y * w + n"
    then obtain k where k: "y' * w + x = y * w + k" "k < n" by (metis add_less_cancel_left le_iff_add)
    then show "y' = y \<and> x < n" using grid_eq [of x w k y' y] assms(2,4) by auto
  qed auto
  then show ?thesis unfolding e by auto
qed

lemma rows_loop:
  fixes p w h
  defines "w \<equiv> unat (width p)" and "h \<equiv> unat (height p)"
  assumes "3 \<le> w" "2 \<le> h" "w * h \<le> length b8" "length t0 = 3 * (w * h)" "unat (bayerPattern p) < 4"
  shows "\<exists>t. for_range 1 (h - 1) (process_row p b8) t0 = Some t \<and>
    (length t = length t0 \<and> (\<forall>y < h. \<forall>x < w. pix t (y * w + x) =
       (if 1 \<le> y \<and> y < h - 1 \<and> x < row_end w then frame_px p b8 y x else pix t0 (y * w + x))))"
    (is "\<exists>t. ?loop = Some t \<and> ?I (h - 1) t")
proof (rule for_range_rule [where I = "\<lambda>Y t. length t = length t0 \<and> (\<forall>y < h. \<forall>x < w. pix t (y * w + x) =
       (if 1 \<le> y \<and> y < Y \<and> x < row_end w then frame_px p b8 y x else pix t0 (y * w + x)))"])
  fix Y t
  assume Y: "1 \<le> Y" "Y < h - 1" and I: "length t = length t0 \<and> (\<forall>y < h. \<forall>x < w. pix t (y * w + x) =
       (if 1 \<le> y \<and> y < Y \<and> x < row_end w then frame_px p b8 y x else pix t0 (y * w + x)))"
  obtain ev od where ty: "row_types p Y = (ev, od)" by (cases "row_types p Y")
  have e: "Y * (w * 3) = 3 * (Y * w)" by simp
  have le: "(Y + 2) * w \<le> h * w" using Y by (intro mult_le_mono1) simp
  have "rows_in b8 (Y * w) ((Y - 1) * w) ((Y + 1) * w) w"
    using le assms(5) by (intro rows_in_plane) (simp add: mult.commute)
  moreover have "3 * (Y * w + w) \<le> length t" using le I assms(6) by (simp add: mult.commute)
  ultimately obtain t' where t': "neon_row b8 (Y * w) ((Y - 1) * w) ((Y + 1) * w) w (3 * (Y * w)) ev od t = Some t'"
      "filled t (Y * w) (row_end w) (\<lambda>x. the (row_px ev od b8 (Y * w) ((Y - 1) * w) ((Y + 1) * w) w x)) t'"
    using neon_row_filled assms(3) by blast
  have re: "row_end w \<le> w" using assms(3) by (simp add: row_end_def)
  have "pix t' (y * w + x) = (if 1 \<le> y \<and> y < Suc Y \<and> x < row_end w then frame_px p b8 y x else pix t0 (y * w + x))"
    if "y < h" "x < w" for y x
    using filled_grid [OF t'(2) re _ that(2,1)] I assms(6) that Y(1) ty
    by (auto simp: frame_px_def w_def [symmetric] less_Suc_eq)
  then show "\<exists>t'. process_row p b8 Y t = Some t' \<and> length t' = length t0 \<and> (\<forall>y < h. \<forall>x < w. pix t' (y * w + x) =
       (if 1 \<le> y \<and> y < Suc Y \<and> x < row_end w then frame_px p b8 y x else pix t0 (y * w + x)))"
    using t' ty assms(7) I
    by (intro exI [of _ t']) (simp add: filled_def process_row_def w_def [symmetric] e)
qed (use assms in auto)

lemma memcpy_row:
  assumes "length t = 3 * (w * h)" "r < h" "r' < h" "r \<noteq> r'"
  shows "\<exists>t'. memcpy (3 * int (r * w)) (3 * int (r' * w)) (3 * w) t = Some t' \<and> length t' = length t \<and>
    (\<forall>y < h. \<forall>x < w. pix t' (y * w + x) = (if y = r then pix t (r' * w + x) else pix t (y * w + x)))"
proof -
  have gap: "r * w + w \<le> r' * w \<or> r' * w + w \<le> r * w"
  proof (cases "r < r'")
    case True
    then have "Suc r * w \<le> r' * w" by (intro mult_le_mono1) simp
    then show ?thesis by simp
  next
    case False
    then have "Suc r' * w \<le> r * w" using assms(4) by (intro mult_le_mono1) simp
    then show ?thesis by simp
  qed
  have "Suc r * w \<le> h * w" "Suc r' * w \<le> h * w" using assms(2,3) by (intro mult_le_mono1; simp)+
  then have in_t: "3 * (r * w) + 3 * w \<le> length t" "3 * (r' * w) + 3 * w \<le> length t"
    using assms(1) by (simp_all add: mult.commute)
  have nn: "nat (3 * int (r * w)) = 3 * (r * w)" "nat (3 * int (r' * w)) = 3 * (r' * w)"
    by (simp_all add: nat_mult_distrib)
  let ?vs = "take (3 * w) (drop (3 * (r' * w)) t)"
  have vs: "length ?vs = 3 * w" using in_t by simp
  obtain t' where t': "wr_block (3 * (r * w)) ?vs t = Some t'" "length t' = length t"
    using wr_block_Some [of "3 * (r * w)" ?vs t] in_t vs by auto
  have "\<not> \<bar>3 * int (r * w) - 3 * int (r' * w)\<bar> < int (3 * w)"
  proof -
    have "\<not> \<bar>3 * int A - 3 * int B\<bar> < int (3 * w)" if "A + w \<le> B \<or> B + w \<le> A" for A B
      using that by linarith
    then show ?thesis using gap by blast
  qed
  then have m: "memcpy (3 * int (r * w)) (3 * int (r' * w)) (3 * w) t = Some t'"
    using t' in_t unfolding memcpy_def nn by (simp add: not_less del: of_nat_mult)
  have byte: "t' ! (3 * (y * w + x) + c) = (if y = r then t ! (3 * (r' * w + x) + c) else t ! (3 * (y * w + x) + c))"
    if "y < h" "x < w" "c < 3" for y x c
  proof -
    have lt: "3 * (y * w + x) + c < length t" using grid_less [OF that(2,1)] that(3) assms(1) by simp
    have "3 * (r * w) \<le> 3 * (y * w + x) + c \<and> 3 * (y * w + x) + c < 3 * (r * w) + 3 * w \<longleftrightarrow>
        r * w \<le> y * w + x \<and> y * w + x < r * w + w" 
    proof -
      have "3 * A \<le> 3 * B + c \<and> 3 * B + c < 3 * A + 3 * w \<longleftrightarrow> A \<le> B \<and> B < A + w" for A B :: nat
        using that(3) by presburger
      then show ?thesis by blast
    qed
    also have "\<dots> \<longleftrightarrow> y = r"
    proof
      assume "r * w \<le> y * w + x \<and> y * w + x < r * w + w"
      then obtain k where k: "y * w + x = r * w + k" "k < w" by (metis add_less_cancel_left le_iff_add)
      then show "y = r" using grid_eq [of x w k y r] that(2) by simp
    qed (use that(2) in simp)
    finally show ?thesis
      using wr_block_nth [OF t'(1) lt] vs that in_t by (auto simp: algebra_simps)
  qed
  show ?thesis using m t' byte [of _ _ 0] byte [of _ _ 1] byte [of _ _ 2]
    by (auto simp: pix_def)
qed

lemma copy_pix:
  assumes "p \<noteq> q" "3 * p + 2 < length t" "3 * q + 2 < length t"
  shows "Option.bind (copy1 (3 * int p) (3 * int q) t) (\<lambda>t.
      Option.bind (copy1 (3 * int p + 1) (3 * int q + 1) t) (copy1 (3 * int p + 2) (3 * int q + 2))) =
    put_px (3 * p) (pix t q) t"
proof -
  have n: "nat (3 * int a) = 3 * a" "nat (3 * int a + 1) = 3 * a + 1" "nat (3 * int a + 2) = 3 * a + 2" for a
    by (simp_all add: nat_mult_distrib nat_add_distrib)
  have c: "copy1 (3 * int a) (3 * int b) s = Option.bind (rd s (3 * b)) (\<lambda>v. wr (3 * a) v s)"
    "copy1 (3 * int a + 1) (3 * int b + 1) s = Option.bind (rd s (3 * b + 1)) (\<lambda>v. wr (3 * a + 1) v s)"
    "copy1 (3 * int a + 2) (3 * int b + 2) s = Option.bind (rd s (3 * b + 2)) (\<lambda>v. wr (3 * a + 2) v s)" for a b s
    by (simp_all only: copy1_def n) (simp_all add: not_less)
  have "3 * p + i \<noteq> 3 * q + j" if "i < 3" "j < 3" for i j using assms(1) that by presburger
  from this [of 0 1] this [of 0 2] this [of 1 2] show ?thesis
    using assms unfolding c by (simp add: put_px_def pix_def)
qed

definition edge_x :: "nat \<Rightarrow> nat \<Rightarrow> nat" where
  "edge_x n x = (if x = 0 then 1 else if x = n - 1 then n - 2 else x)"

lemma edge_columns:
  assumes "length t = 3 * (w * h)" "y < h" "3 \<le> w"
  shows "\<exists>t'. fill_edges_row w y t = Some t' \<and>
     length t' = length t \<and>
     (\<forall>y' < h. \<forall>x < w. pix t' (y' * w + x) = pix t (y' * w + (if y' = y then edge_x w x else x)))"
proof -
  let ?p = "y * w + 0" and ?q = "y * w + 1" and ?p' = "y * w + (w - 1)" and ?q' = "y * w + (w - 2)"
  have b: "3 * (y * w + x) + 2 < length t" if "x < w" for x
    using grid_less [OF that assms(2)] assms(1) by simp
  obtain t1 where t1: "put_px (3 * ?p) (pix t ?q) t = Some t1" "length t1 = length t"
      "\<And>r. 3 * r + 2 < length t \<Longrightarrow> pix t1 r = (if r = ?p then pix t ?q else pix t r)"
    using put_px_Some [of ?p t "pix t ?q"] b [of 0] assms(3) by auto
  obtain t2 where t2: "put_px (3 * ?p') (pix t1 ?q') t1 = Some t2" "length t2 = length t1"
      "\<And>r. 3 * r + 2 < length t \<Longrightarrow> pix t2 r = (if r = ?p' then pix t1 ?q' else pix t1 r)"
    using put_px_Some [of ?p' t1 "pix t1 ?q'"] b [of "w - 1"] t1(2) assms(3) by auto
  have o: "int y * (int w * 3) = 3 * int ?p" "3 * int ?p + 3 = 3 * int ?q"
    "3 * int ?p + 4 = 3 * int ?q + 1" "3 * int ?p + 5 = 3 * int ?q + 2"
    "3 * int ?p + (int w - 1) * 3 = 3 * int ?p'" "3 * int ?p + (int w - 2) * 3 = 3 * int ?q'"
    using assms(3) by (simp_all add: algebra_simps)
  have c1: "Option.bind (copy1 (3 * int ?p) (3 * int ?q) t) (\<lambda>t.
      Option.bind (copy1 (3 * int ?p + 1) (3 * int ?q + 1) t) (copy1 (3 * int ?p + 2) (3 * int ?q + 2))) = Some t1"
    using copy_pix [of ?p ?q t] t1(1) b [of 0] b [of 1] assms(3) by simp
  have c2: "Option.bind (copy1 (3 * int ?p') (3 * int ?q') t1) (\<lambda>t.
      Option.bind (copy1 (3 * int ?p' + 1) (3 * int ?q' + 1) t) (copy1 (3 * int ?p' + 2) (3 * int ?q' + 2))) = Some t2"
    using copy_pix [of ?p' ?q' t1] t2(1) t1(2) b [of "w - 1"] b [of "w - 2"] assms(3) by simp
  have r: "pix t2 (y' * w + x) = pix t (y' * w + (if y' = y then edge_x w x else x))" if "y' < h" "x < w" for y' x
  proof -
    have "3 * (y' * w + x) + 2 < length t" using grid_less [OF that(2,1)] assms(1) by simp
    moreover have "pix t1 ?q' = pix t ?q'"
      using t1(3) [OF b [of "w - 2"]] grid_eq [of "w - 2" w 0 y y] assms(3) by simp
    ultimately show ?thesis
      using t1(3) t2(3) grid_eq [of x w 0 y' y] grid_eq [of x w "w - 1" y' y] that assms(3)
      by (auto simp: edge_x_def)
  qed
  have "fill_edges_row w y t = Some t2"
    unfolding fill_edges_row_def Let_def o using c1 c2 by (auto simp: bind_eq_Some_conv)
  then show ?thesis using t1(2) t2(2) r by auto
qed

lemma fill_edges_Some:
  assumes "length t = 3 * (w * h)" "3 \<le> w" "3 \<le> h"
  shows "\<exists>t'. fill_edges t w h = Some t' \<and> length t' = length t \<and>
    (\<forall>y < h. \<forall>x < w. pix t' (y * w + x) = pix t (edge_x h y * w + edge_x w x))"
proof -
  obtain t1 where t1: "memcpy (3 * int (0 * w)) (3 * int (1 * w)) (3 * w) t = Some t1" "length t1 = length t"
      "\<And>y x. y < h \<Longrightarrow> x < w \<Longrightarrow> pix t1 (y * w + x) = (if y = 0 then pix t (1 * w + x) else pix t (y * w + x))"
    using memcpy_row [OF assms(1), of 0 1] assms(3) by auto
  obtain t2 where t2: "memcpy (3 * int ((h - 1) * w)) (3 * int ((h - 2) * w)) (3 * w) t1 = Some t2" "length t2 = length t"
      "\<And>y x. y < h \<Longrightarrow> x < w \<Longrightarrow>
        pix t2 (y * w + x) = (if y = h - 1 then pix t1 ((h - 2) * w + x) else pix t1 (y * w + x))"
  proof -
    have "length t1 = 3 * (w * h)" "h - 1 < h" "h - 2 < h" "h - 1 \<noteq> h - 2" using t1(2) assms(1,3) by linarith+
    from memcpy_row [OF this] show ?thesis using that t1(2) by metis
  qed
  have rows: "pix t2 (y * w + x) = pix t (edge_x h y * w + x)" if "y < h" "x < w" for y x
    using t2(3) [OF that] t1(3) [of "h - 2" x] t1(3) [OF that] that assms(3) by (auto simp: edge_x_def)
  have o: "nat (int w * 3) = 3 * w" "int w * 3 = 3 * int (1 * w)" "(int h - 1) * (int w * 3) = 3 * int ((h - 1) * w)"
    "(int h - 2) * (int w * 3) = 3 * int ((h - 2) * w)"
    using assms(3) by (simp_all add: nat_mult_distrib algebra_simps)
  have "\<exists>t'. for_range 0 h (fill_edges_row w) t2 = Some t' \<and>
     (length t' = length t2 \<and>
      (\<forall>y' < h. \<forall>x < w. pix t' (y' * w + x) = pix t2 (y' * w + (if y' < h then edge_x w x else x))))"
  proof (rule for_range_rule [where I = "\<lambda>y t'. length t' = length t2 \<and>
      (\<forall>y' < h. \<forall>x < w. pix t' (y' * w + x) = pix t2 (y' * w + (if y' < y then edge_x w x else x)))"])
    fix y s assume y: "y < h" and I: "length s = length t2 \<and>
      (\<forall>y' < h. \<forall>x < w. pix s (y' * w + x) = pix t2 (y' * w + (if y' < y then edge_x w x else x)))"
    have ed: "edge_x w x < w" if "x < w" for x using that assms(2) by (auto simp: edge_x_def)
    have "length s = 3 * (w * h)" using I t2(2) assms(1) by simp
    from edge_columns [OF this y assms(2)]
    obtain s' where s': "fill_edges_row w y s = Some s'" "length s' = length s"
      "\<And>y' x. y' < h \<Longrightarrow> x < w \<Longrightarrow> pix s' (y' * w + x) = pix s (y' * w + (if y' = y then edge_x w x else x))"
      by blast
    have "pix s' (y' * w + x) = pix t2 (y' * w + (if y' < Suc y then edge_x w x else x))" if "y' < h" "x < w" for y' x
      using s'(3) [OF that] I that ed by (auto simp: less_Suc_eq)
    then show "\<exists>t'. fill_edges_row w y s = Some t' \<and>
       length t' = length t2 \<and>
       (\<forall>y' < h. \<forall>x < w. pix t' (y' * w + x) = pix t2 (y' * w + (if y' < Suc y then edge_x w x else x)))"
      using s'(1,2) I by (intro exI [of _ s']) simp
  qed simp_all
  then obtain t' where t': "fill_edges t w h = Some t'" "length t' = length t2"
      "\<forall>y' < h. \<forall>x < w. pix t' (y' * w + x) = pix t2 (y' * w + edge_x w x)"
    using t1(1) t2(1) unfolding fill_edges_def Let_def o(1) o(3,4) by (auto simp: o(2))
  have "edge_x w x < w" if "x < w" for x using that assms(2) by (auto simp: edge_x_def)
  then show ?thesis using t' t2(2) rows by auto
qed

lemma take_drop_8:
  "p + 8 \<le> length b \<Longrightarrow> take 8 (drop p b) = map (\<lambda>k. b ! (p + k)) [0..<8]"
  by (rule nth_equalityI) auto

lemma upt_8: "[0..<8] = [0, 1, 2, 3, 4, 5, 6, 7::nat]"
  by (simp add: upt_rec)

definition avg2 :: "u8 \<Rightarrow> u8 \<Rightarrow> u8" where
  "avg2 a b = word_of_int ((uint a + uint b) div 2)"

definition ravg2 :: "u8 \<Rightarrow> u8 \<Rightarrow> u8" where
  "ravg2 a b = word_of_int ((uint a + uint b + 1) div 2)"

definition avg4 :: "u8 \<Rightarrow> u8 \<Rightarrow> u8 \<Rightarrow> u8 \<Rightarrow> u8" where
  "avg4 a b c d = word_of_int ((uint a + uint b + uint c + uint d) div 4)"

lemma avg2_lane: "ucast (drop_bit 1 (ucast a + ucast b :: u16)) = avg2 a b"
proof (rule word_uint_eqI)
  have "uint a + uint b < 512" using u8_range [of a] u8_range [of b] by simp
  then show "uint (ucast (drop_bit 1 (ucast a + ucast b :: u16)) :: u8) = uint (avg2 a b)"
    using u8_range [of a] u8_range [of b] by (simp add: uint_simps avg2_def)
qed

lemma avg4_lane:
  "ucast (drop_bit 2 (ucast a + ucast b + (ucast c + ucast d) :: u16)) = avg4 a b c d"
proof (rule word_uint_eqI)
  have "uint a + uint b + (uint c + uint d) < 1024"
    using u8_range [of a] u8_range [of b] u8_range [of c] u8_range [of d] by simp
  then show "uint (ucast (drop_bit 2 (ucast a + ucast b + (ucast c + ucast d) :: u16)) :: u8) = uint (avg4 a b c d)"
    using u8_range [of a] u8_range [of b] u8_range [of c] u8_range [of d]
    by (simp add: uint_simps avg4_def add.assoc)
qed

lemmas lane_simps = avg2_lane avg4_lane ravg2_def [symmetric]

text \<open>The registers of a batch, lane by lane: what each of the four pixels gets.\<close>

lemma batch_load_lanes:
  fixes b row up dn x i
  defines "R \<equiv> \<lambda>k. b ! (row + k)" and "U \<equiv> \<lambda>k. b ! (up + k)" and "D \<equiv> \<lambda>k. b ! (dn + k)"
  assumes "1 \<le> x" "row + x + 8 < length b" "up + x + 8 < length b" "dn + x + 8 < length b"
  shows "\<exists>q. batch_load b row up dn x = Some q \<and> (\<forall>i < 4.
    ev_c q ! i = R (x + 2 * i) \<and>
    od_c q ! i = R (x + 2 * i + 1) \<and>
    hv_g q ! i = avg4 (R (x + 2 * i - 1)) (R (x + 2 * i + 1)) (U (x + 2 * i)) (D (x + 2 * i)) \<and>
    diag_b q ! i = avg4 (U (x + 2 * i - 1)) (D (x + 2 * i - 1)) (U (x + 2 * i + 1)) (D (x + 2 * i + 1)) \<and>
    od_h_r q ! i = ravg2 (R (x + 2 * i)) (R (if i = 3 then x else x + 2 * i + 2)) \<and>
    od_v_b q ! i = avg2 (U (x + 2 * i + 1)) (D (x + 2 * i + 1)) \<and>
    ev_v_r q ! i = avg2 (U (x + 2 * i)) (D (x + 2 * i)) \<and>
    od_hv_g q ! i = avg4 (R (x + 2 * i)) (R (if i = 3 then x else x + 2 * i + 2)) (U (x + 2 * i + 1)) (D (x + 2 * i + 1)) \<and>
    od_diag_r8 q ! i = avg4 (U (x + 2 * i)) (D (x + 2 * i))
      (U (if i = 3 then x else x + 2 * i + 2)) (D (if i = 3 then x else x + 2 * i + 2)) \<and>
    ev_h_b q ! i = ravg2 (R (x + 2 * i - 1)) (R (x + 2 * i + 1)))"
proof -
  have ld: "vld1_u8 b p = Some (map (\<lambda>k. b ! (p + k)) [0..<8])" if "p + 8 \<le> length b" for p
    using that by (simp add: vld1_u8_def take_drop_8)
  have l: "vld1_u8 b (row + x - 1) = Some (map (\<lambda>k. R (x - 1 + k)) [0..<8])"
    "vld1_u8 b (row + x + 1) = Some (map (\<lambda>k. R (x + 1 + k)) [0..<8])"
    "vld1_u8 b (up + x) = Some (map (\<lambda>k. U (x + k)) [0..<8])"
    "vld1_u8 b (dn + x) = Some (map (\<lambda>k. D (x + k)) [0..<8])"
    "vld1_u8 b (up + x - 1) = Some (map (\<lambda>k. U (x - 1 + k)) [0..<8])"
    "vld1_u8 b (dn + x - 1) = Some (map (\<lambda>k. D (x - 1 + k)) [0..<8])"
    using assms(4-7) by (simp_all add: ld R_def U_def D_def add.assoc)
  obtain x' where x': "x = Suc x'" using assms(4) by (cases x) auto
  have i4: "(\<forall>i < 4. P i) \<longleftrightarrow> P 0 \<and> P 1 \<and> P 2 \<and> P (3::nat)" for P
    by (auto simp: less_Suc_eq numeral_eq_Suc)
  show ?thesis
    unfolding batch_load_def l upt_8 i4 unfolding x'
    by (simp add: vuzp_u8_def vext_u8_def vaddl_u8_def vaddq_u16_def vshrn_n_u16_def vrhadd_u8_def lane_simps
        avg2_lane [unfolded One_nat_def] avg4_lane [unfolded numeral_2_eq_2] numeral_eq_Suc)
qed

lemma clamp_id: "0 \<le> v \<Longrightarrow> v < 256 \<Longrightarrow> clamp v = word_of_int v"
  by (simp add: clamp_def)

lemma clamp_uint [simp]: "clamp (uint (a :: u8)) = a"
  using u8_range [of a] by (simp add: clamp_id)

lemma clamp_avg:
  "clamp ((uint a + uint b) div 2) = avg2 a b"
  "clamp ((uint a + uint b + uint c + uint d) div 4) = avg4 a b c d" for a b c d :: u8
  unfolding avg2_def avg4_def
  by (rule clamp_id; use u8_range [of a] u8_range [of b] u8_range [of c] u8_range [of d] in linarith)+

lemma interp_vals:
  fixes b row up dn
  defines "R \<equiv> \<lambda>k. b ! (row + k)" and "U \<equiv> \<lambda>k. b ! (up + k)" and "D \<equiv> \<lambda>k. b ! (dn + k)"
  assumes "rows_in b row up dn w" "x < w" "xl < w" "xr < w"
  shows "interp ty b row up dn x xl xr = Some
     (let hv = avg4 (R xl) (R xr) (U x) (D x); dg = avg4 (U xl) (U xr) (D xl) (D xr);
          hh = avg2 (R xl) (R xr); vv = avg2 (U x) (D x)
      in if ty = 0 then (R x, hv, dg) else if ty = 1 then (hh, R x, vv)
         else if ty = 2 then (vv, R x, hh) else (dg, hv, R x))"
  using assms(4-) by (simp add: interp_def smp_def rows_in_def clamp_avg Let_def R_def U_def D_def)

text \<open>Two pixels whose channels differ by at most one.\<close>

fun close_px :: "rgb \<Rightarrow> rgb \<Rightarrow> bool" where
  "close_px (r, g, b) (r', g', b') \<longleftrightarrow>
     \<bar>uint r - uint r'\<bar> \<le> 1 \<and> \<bar>uint g - uint g'\<bar> \<le> 1 \<and> \<bar>uint b - uint b'\<bar> \<le> 1"

lemma close_px_refl [simp]: "close_px t t"
  by (cases t) simp

lemma ravg2_close: "\<bar>uint (ravg2 a b) - uint (avg2 a b)\<bar> \<le> 1"
  using u8_range [of a] u8_range [of b] by (simp add: ravg2_def avg2_def uint_of_int_mod)

lemma avg4_swap: "avg4 a b c d = avg4 a c b d"
  by (simp add: avg4_def algebra_simps)

lemma batch_px_close:
  assumes "rows_in b row up dn w" "x0 + 8 < w" "1 \<le> x0" "i < 4" "batch_load b row up dn x0 = Some q"
  shows "ev_type \<noteq> 1 \<Longrightarrow> \<exists>t. interp ev_type b row up dn (x0 + 2 * i) (x0 + 2 * i - 1) (x0 + 2 * i + 1) = Some t \<and>
      close_px (batch_even ev_type q i) t"
    and "od_type \<noteq> 2 \<Longrightarrow> i \<noteq> 3 \<Longrightarrow>
      \<exists>t. interp od_type b row up dn (x0 + 2 * i + 1) (x0 + 2 * i) (x0 + 2 * i + 2) = Some t \<and>
      close_px (batch_odd od_type q i) t"
proof -
  have b: "row + x0 + 8 < length b" "up + x0 + 8 < length b" "dn + x0 + 8 < length b"
    using assms(1,2) by (auto simp: rows_in_def)
  note lanes = batch_load_lanes [OF assms(3) b, unfolded assms(5)]
  have lt: "x0 + 2 * i < w" "x0 + 2 * i - 1 < w" "x0 + 2 * i + 1 < w" "x0 + 2 * i + 2 < w"
    using assms(2,4) by linarith+
  show "\<exists>t. interp ev_type b row up dn (x0 + 2 * i) (x0 + 2 * i - 1) (x0 + 2 * i + 1) = Some t \<and>
      close_px (batch_even ev_type q i) t" if "ev_type \<noteq> 1"
    unfolding interp_vals [OF assms(1) lt(1,2,3)] using lanes assms(4) that
    by (auto simp: batch_even_def Let_def ravg2_close avg4_swap)
  show "\<exists>t. interp od_type b row up dn (x0 + 2 * i + 1) (x0 + 2 * i) (x0 + 2 * i + 2) = Some t \<and>
      close_px (batch_odd od_type q i) t" if "od_type \<noteq> 2" "i \<noteq> 3"
    unfolding interp_vals [OF assms(1) lt(3,1,4)] using lanes assms(4) that
    by (auto simp: batch_odd_def Let_def ravg2_close avg4_swap)
qed

section \<open>Properties\<close>

definition frame_ready :: "demosaic \<Rightarrow> buf \<Rightarrow> buf \<Rightarrow> bool" where
  "frame_ready d inp rgb \<longleftrightarrow>
     (let p = mParams d; w = unat (width p); h = unat (height p) in
      mInitialized d \<and> 3 \<le> w \<and> 3 \<le> h \<and> unat (bayerPattern p) < 4 \<and> uint (blackLevel p) < 256 \<and>
      (case mBayerBuf d of None \<Rightarrow> False | Some pl \<Rightarrow> w * h \<le> length pl) \<and>
      2 * (w * h) \<le> length inp \<and> ten_bit inp (w * h) \<and> length rgb = 3 * (w * h))"

definition test_params :: DemosaicParams where
  "test_params = \<lparr> width = 12, height = 3, bayerPattern = 3, offset_x = 0, offset_y = 0, blackLevel = 0 \<rparr>"

definition test_demosaic :: demosaic where
  "test_demosaic = \<lparr> mParams = test_params, mInitialized = True, mBayerBuf = Some (replicate 116 0), mBayerBufSize = 116 \<rparr>"

text \<open>Initialising the stage with a frame of less than \<open>2 ^ 31 - 80\<close> pixels never has undefined
  behaviour; it keeps the recorded size equal to the size of the plane, and when it returns 0 the
  stage is marked initialised with the new parameters and a plane of at least
  \<open>width * height + 16\<close> bytes. It does return 0 when the dimensions are non-zero and memory is
  available.\<close>

lemma initialize_allocates:
  assumes "length (case mBayerBuf d of None \<Rightarrow> [] | Some b \<Rightarrow> b) = unat (mBayerBufSize d)"
    and "unat (width p) * unat (height p) + 80 < 2 ^ 31"
  shows "\<exists>r d'. initialize ok junk p d = Ret (r, d') \<and> (r = 0 \<or> r = -1) \<and>
    length (case mBayerBuf d' of None \<Rightarrow> [] | Some b \<Rightarrow> b) = unat (mBayerBufSize d') \<and>
    (r = 0 \<longrightarrow> mInitialized d' \<and> mParams d' = p \<and> width p \<noteq> 0 \<and> height p \<noteq> 0 \<and>
       (\<exists>b. mBayerBuf d' = Some b \<and> unat (width p) * unat (height p) + 16 \<le> length b)) \<and>
    (ok \<longrightarrow> width p \<noteq> 0 \<longrightarrow> height p \<noteq> 0 \<longrightarrow> r = 0)"
proof -
  let ?n = "unat (width p) * unat (height p) + 16"
  have "unat (of_nat m :: u32) = m \<and> unat (of_nat m + 64 :: u32) = m + 64" if "m + 64 < 2 ^ 31" for m
    using that unat_of_nat [of m, where 'a = 32] unat_of_nat [of "m + 64", where 'a = 32] by simp
  moreover have "?n + 64 < 2 ^ 31" using assms(2) by simp
  ultimately have n: "unat (of_nat ?n :: u32) = ?n" "unat (of_nat ?n + 64 :: u32) = ?n + 64"
    by blast+
  have lt: "mBayerBufSize d < of_nat ?n \<longleftrightarrow> unat (mBayerBufSize d) < ?n"
    using n(1) by (simp add: word_less_nat_alt)
  show ?thesis
  proof (cases "width p = 0 \<or> height p = 0")
    case True
    then show ?thesis using assms(1) by (auto simp: initialize_def)
  next
    case False
    have b: "\<not> 2 ^ 31 \<le> ?n" using assms(2) by simp
    show ?thesis
    proof (cases "unat (mBayerBufSize d) < ?n")
      case True
      then show ?thesis using assms(1) False b n lt
        by (cases ok) (auto simp: initialize_def Let_def realloc_buf_def split: option.splits)
    next
      case le: False
      then have "mBayerBuf d \<noteq> None" using assms(1) by (auto split: option.splits)
      then show ?thesis using assms(1) False b n lt le
        by (auto simp: initialize_def Let_def split: option.splits)
    qed
  qed
qed

lemma frame_result:
  fixes d :: demosaic
  defines "p \<equiv> mParams d" and "w \<equiv> unat (width (mParams d))" and "h \<equiv> unat (height (mParams d))"
  assumes "frame_ready d inp rgb"
  shows "\<exists>b8 out. process d (Some inp) (Some rgb) = Ret (d\<lparr>mBayerBuf := Some b8\<rparr>, Some out) \<and>
    length out = length rgb \<and> Some (length b8) = map_option length (mBayerBuf d) \<and>
    (\<forall>i < w * h. uint (b8 ! i) = max 0 (uint (sample16 inp i) div 4 - uint (blackLevel p))) \<and>
    (\<forall>y < h. \<forall>x < w. pix out (y * w + x) =
       (if edge_x w x < row_end w then frame_px p b8 (edge_x h y) (edge_x w x)
        else pix rgb (edge_x h y * w + edge_x w x)))"
proof -
  obtain pl where r: "mInitialized d" "3 \<le> w" "3 \<le> h" "unat (bayerPattern p) < 4" "uint (blackLevel p) < 256"
      "mBayerBuf d = Some pl" "w * h \<le> length pl" "2 * (w * h) \<le> length inp" "ten_bit inp (w * h)"
      "length rgb = 3 * (w * h)"
    using assms(4) by (auto simp: frame_ready_def Let_def p_def w_def h_def split: option.splits)
  obtain b8 where b8: "raw10_to_8bit inp pl (w * h) (blackLevel p) = Some b8" "length b8 = length pl"
      "\<forall>i < w * h. uint (b8 ! i) = max 0 (uint (sample16 inp i) div 4 - uint (blackLevel p))"
    using raw10_levels [OF r(8,7,9,5)] by auto
  obtain t where t: "for_range 1 (h - 1) (process_row p b8) rgb = Some t" "length t = length rgb"
      "\<And>y x. y < h \<Longrightarrow> x < w \<Longrightarrow> pix t (y * w + x) =
         (if 1 \<le> y \<and> y < h - 1 \<and> x < row_end w then frame_px p b8 y x else pix rgb (y * w + x))"
    using rows_loop [of p b8 rgb] r b8(2) unfolding w_def h_def p_def by auto
  obtain out where out: "fill_edges t w h = Some out" "length out = length t"
      "\<And>y x. y < h \<Longrightarrow> x < w \<Longrightarrow> pix out (y * w + x) = pix t (edge_x h y * w + edge_x w x)"
    using fill_edges_Some [of t w h] r t(2) by auto
  have e: "edge_x w x < w" "1 \<le> edge_x h y" "edge_x h y < h - 1" if "x < w" "y < h" for x y
    using that r(2,3) by (auto simp: edge_x_def)
  have "process d (Some inp) (Some rgb) = Ret (d\<lparr>mBayerBuf := Some b8\<rparr>, Some out)"
    using r(1,6) b8(1) t(1) out(1) by (simp add: process_def Let_def w_def h_def p_def)
  moreover have "pix out (y * w + x) = (if edge_x w x < row_end w then frame_px p b8 (edge_x h y) (edge_x w x)
        else pix rgb (edge_x h y * w + edge_x w x))" if "y < h" "x < w" for y x
    using out(3) [OF that] t(3) [of "edge_x h y" "edge_x w x"] e [OF that(2,1)] by auto
  ultimately show ?thesis using b8(2,3) out(2) t(2) r(6) by auto
qed

text \<open>C9. A ready frame (both dimensions at least three, ten-bit samples, buffers of the right size) is
  converted without any access outside the input, the plane or the output. The plane gets the
  samples divided by four less the black level, floored at 0. Every pixel of the output is the
  interpolated pixel at the nearest interior coordinates, except in the columns the rows do not
  write, which keep what the output held before.\<close>

theorem process_correct:
  fixes d :: demosaic
  defines "p \<equiv> mParams d" and "w \<equiv> unat (width (mParams d))" and "h \<equiv> unat (height (mParams d))"
  assumes "frame_ready d inp rgb"
  shows "\<exists>b8 out. process d (Some inp) (Some rgb) = Ret (d\<lparr>mBayerBuf := Some b8\<rparr>, Some out) \<and>
    length out = length rgb \<and> Some (length b8) = map_option length (mBayerBuf d) \<and>
    (\<forall>i < w * h. uint (b8 ! i) = max 0 (uint (sample16 inp i) div 4 - uint (blackLevel p))) \<and>
    (\<forall>y < h. \<forall>x < w. pix out (y * w + x) =
       (if edge_x w x < row_end w then frame_px p b8 (edge_x h y) (edge_x w x)
        else pix rgb (edge_x h y * w + edge_x w x)))"
  unfolding p_def w_def h_def by (rule frame_result [OF assms(4)])

lemma test_ready: "frame_ready test_demosaic (replicate 72 0) (replicate 108 7)"
  by (simp add: frame_ready_def test_demosaic_def test_params_def Let_def ten_bit_def sample16_def)

theorem process_correct_witness:
  "\<exists>b8 out. process test_demosaic (Some (replicate 72 0)) (Some (replicate 108 7)) =
      Ret (test_demosaic\<lparr>mBayerBuf := Some b8\<rparr>, Some out) \<and> length out = 108"
  using process_correct [OF test_ready] by auto

text \<open>C39. For an even width the last interior column is never written: in every row of the result the
  last two columns hold what the caller's buffer held at column \<open>w - 2\<close> before the call.\<close>

theorem process_last_columns_stale:
  fixes d :: demosaic
  defines "w \<equiv> unat (width (mParams d))" and "h \<equiv> unat (height (mParams d))"
  assumes "frame_ready d inp rgb" "even w" "y < h"
  shows "\<exists>d' out. process d (Some inp) (Some rgb) = Ret (d', Some out) \<and>
    pix out (y * w + (w - 2)) = pix rgb (edge_x h y * w + (w - 2)) \<and>
    pix out (y * w + (w - 1)) = pix rgb (edge_x h y * w + (w - 2))"
proof -
  have w: "3 \<le> w" using assms(3) by (auto simp: frame_ready_def Let_def w_def)
  then have "edge_x w (w - 2) = w - 2" "edge_x w (w - 1) = w - 2" "\<not> w - 2 < row_end w" "w - 2 < w" "w - 1 < w"
    using assms(4) by (auto simp: edge_x_def row_end_def)
  then show ?thesis
    using frame_result [OF assms(3)] assms(5) unfolding w_def h_def by fastforce
qed

theorem process_last_columns_stale_witness:
  "\<exists>d' out. process test_demosaic (Some (replicate 72 0)) (Some (replicate 108 7)) = Ret (d', Some out) \<and>
     pix out 22 = (7, 7, 7) \<and> pix out 23 = (7, 7, 7)"
  using process_last_columns_stale [OF test_ready, of 1]
  by (simp add: test_demosaic_def test_params_def edge_x_def pix_def)

text \<open>A pixel of the rows, whichever of the vectorised and the scalar loop computes it.\<close>

lemma rggb_row_px_close:
  assumes "bayerPattern p = 3" "even (unat (offset_x p))" "unat (width p) = w" "3 \<le> w"
    and "(y + 2) * w \<le> length b8" "1 \<le> y" "1 \<le> x" "x < row_end w"
    and "x < 2 \<or> (x - 2) mod 8 \<noteq> 7 \<or> batch_end w \<le> x"
  shows "\<exists>t. interp (if even x then fst (row_types p y) else snd (row_types p y))
      b8 (y * w) ((y - 1) * w) ((y + 1) * w) x (x - 1) (x + 1) = Some t \<and>
    close_px (frame_px p b8 y x) t"
proof -
  obtain ev od where ty: "row_types p y = (ev, od)" by (cases "row_types p y")
  have "unat (bayerPattern p) = 3" using assms(1) by simp
  moreover have "unat (offset_x p) mod 2 = 0" using assms(2) by presburger
  moreover have "(y + unat (offset_y p) mod 2) mod 2 = 0 \<or> (y + unat (offset_y p) mod 2) mod 2 = 1" by presburger
  ultimately have evod: "ev \<noteq> 1" "od \<noteq> 2" using ty by (auto simp: row_types_def pos_color_def Let_def)
  have ri: "rows_in b8 (y * w) ((y - 1) * w) ((y + 1) * w) w" by (rule rows_in_plane [OF assms(5)])
  have xw: "x < w" "x - 1 < w" "x + 1 < w" using assms(4,8) by (auto simp: row_end_def)
  show ?thesis
  proof (cases "2 \<le> x \<and> x < batch_end w")
    case False
    obtain t where t: "interp (if even x then ev else od) b8 (y * w) ((y - 1) * w) ((y + 1) * w) x (x - 1) (x + 1) = Some t"
      using interp_in [OF ri xw] by blast
    then have "frame_px p b8 y x = t" using False assms(3,7) ty by (auto simp: frame_px_def row_px_def)
    then show ?thesis using t ty by (intro exI [of _ t]) (auto split: if_splits)
  next
    case True
    define x0 where "x0 = 2 + 8 * ((x - 2) div 8)"
    define i where "i = (x - 2) mod 8 div 2"
    have "x - 2 < (w - 4) div 8 * 8" using True by (auto simp: batch_end_def)
    then have "(x - 2) div 8 < (w - 4) div 8" by (simp add: less_mult_imp_div_less)
    then have x0: "x0 + 8 < w" by (simp add: x0_def)
    have i: "i < 4" by (simp add: i_def)
    have xi: "x = x0 + 2 * i + (if even x then 0 else 1)" "even x \<or> i \<noteq> 3"
    proof -
      obtain z where z: "x = z + 2" using True by (metis le_add_diff_inverse2)
      obtain r where r: "z = 8 * (z div 8) + r" "r < 8" "z mod 8 = r" by (metis mult_div_mod_eq mod_less_divisor zero_less_numeral)
      have "r = 2 * (r div 2) + (if even r then 0 else 1)" by presburger
      moreover have "even x \<longleftrightarrow> even r" using z r by presburger
      ultimately show "x = x0 + 2 * i + (if even x then 0 else 1)" using z r by (simp add: x0_def i_def)
      have "r \<noteq> 7" using assms(9) True z r by simp
      then have "odd r \<Longrightarrow> r div 2 \<noteq> 3" using r(2) by presburger
      then show "even x \<or> i \<noteq> 3" using \<open>even x \<longleftrightarrow> even r\<close> z r by (auto simp: i_def)
    qed
    obtain q where q: "batch_load b8 (y * w) ((y - 1) * w) ((y + 1) * w) x0 = Some q"
      using batch_load_Some [of x0 "y * w" b8 "(y - 1) * w" "(y + 1) * w"] ri x0
      by (auto simp: rows_in_def x0_def)
    have "frame_px p b8 y x = (if even x then batch_even ev q i else batch_odd od q i)"
      using True q ty assms(3,7) by (simp add: frame_px_def row_px_def batch_px_def Let_def x0_def i_def)
    moreover have "1 \<le> x0" by (simp add: x0_def)
    ultimately show ?thesis
      using batch_px_close(1) [OF ri x0 _ i q evod(1)] batch_px_close(2) [OF ri x0 _ i q evod(2)] xi ty
      by (cases "even x") (simp_all del: close_px.simps)
  qed
qed

text \<open>C35. With the pattern the HAL configures (pattern 3, even column offset) and a ready frame, the
  output of \<open>process\<close> has at every interior pixel, in the columns the rows write and outside the last
  column of a NEON batch, a value within one unit per channel of the scalar interpolation formula,
  applied to the samples divided by four less the black level. The columns the rows do not write
  are the last interior column of an even width; the last column of a batch is every eighth from
  column 9 on, in the part of the row the vectorised loop covers.\<close>

theorem rggb_pixels_close:
  fixes d :: demosaic
  defines "p \<equiv> mParams d" and "w \<equiv> unat (width (mParams d))" and "h \<equiv> unat (height (mParams d))"
  assumes "frame_ready d inp rgb" "bayerPattern (mParams d) = 3" "even (unat (offset_x (mParams d)))"
  shows "\<exists>b8 out. process d (Some inp) (Some rgb) = Ret (d\<lparr>mBayerBuf := Some b8\<rparr>, Some out) \<and>
    (\<forall>i < w * h. uint (b8 ! i) = max 0 (uint (sample16 inp i) div 4 - uint (blackLevel p))) \<and>
    (\<forall>y x. 1 \<le> y \<and> y + 1 < h \<and> 1 \<le> x \<and> x + 1 < w \<and> (even w \<longrightarrow> x \<noteq> w - 2) \<and>
       (x < 2 \<or> (x - 2) mod 8 \<noteq> 7 \<or> 2 + 8 * ((w - 4) div 8) \<le> x) \<longrightarrow>
       (\<exists>t. interp (if even x then fst (row_types p y) else snd (row_types p y))
          b8 (y * w) ((y - 1) * w) ((y + 1) * w) x (x - 1) (x + 1) = Some t \<and> close_px (pix out (y * w + x)) t))"
proof -
  obtain b8 out where r: "process d (Some inp) (Some rgb) = Ret (d\<lparr>mBayerBuf := Some b8\<rparr>, Some out)"
      "Some (length b8) = map_option length (mBayerBuf d)"
      "\<forall>i < w * h. uint (b8 ! i) = max 0 (uint (sample16 inp i) div 4 - uint (blackLevel p))"
      "\<forall>y < h. \<forall>x < w. pix out (y * w + x) =
         (if edge_x w x < row_end w then frame_px p b8 (edge_x h y) (edge_x w x) else pix rgb (edge_x h y * w + edge_x w x))"
    using frame_result [OF assms(4)] unfolding p_def w_def h_def by blast
  have sz: "3 \<le> w" "w * h \<le> length b8"
    using assms(4) r(2) by (auto simp: frame_ready_def Let_def w_def h_def split: option.splits)
  have "\<exists>t. interp (if even x then fst (row_types p y) else snd (row_types p y))
          b8 (y * w) ((y - 1) * w) ((y + 1) * w) x (x - 1) (x + 1) = Some t \<and> close_px (pix out (y * w + x)) t"
    if "1 \<le> y" "y + 1 < h" "1 \<le> x" "x + 1 < w" "even w \<longrightarrow> x \<noteq> w - 2"
      "x < 2 \<or> (x - 2) mod 8 \<noteq> 7 \<or> 2 + 8 * ((w - 4) div 8) \<le> x" for y x
  proof -
    have x: "x < row_end w" using that(4,5) unfolding row_end_def by (cases "even w") (auto simp: odd_iff_mod_2_eq_one)
    have y: "(y + 2) * w \<le> length b8" using sz(2) that(2) mult_le_mono1 [of "y + 2" h w] by (simp add: mult.commute)
    have "edge_x w x = x" "edge_x h y = y" using that by (auto simp: edge_x_def)
    then have "pix out (y * w + x) = frame_px p b8 y x" using r(4) x that(2,4) by simp
    then show ?thesis
      using rggb_row_px_close [of p w y b8 x] assms(5,6) sz(1) y that(1,3,6) x by (simp add: p_def w_def batch_end_def)
  qed
  then show ?thesis using r(1,3) by blast
qed

theorem rggb_pixels_close_witness:
  "\<exists>b8 out t. process test_demosaic (Some (replicate 72 0)) (Some (replicate 108 7)) =
      Ret (test_demosaic\<lparr>mBayerBuf := Some b8\<rparr>, Some out) \<and>
    interp 2 b8 12 0 24 4 3 5 = Some t \<and> close_px (pix out 16) t"
proof -
  have m: "mParams test_demosaic = test_params" "unat (width test_params) = 12" "unat (height test_params) = 3"
    by (simp_all add: test_demosaic_def test_params_def)
  have "bayerPattern (mParams test_demosaic) = 3" "even (unat (offset_x (mParams test_demosaic)))"
    by (simp_all add: test_demosaic_def test_params_def)
  from rggb_pixels_close [OF test_ready this, unfolded m] obtain b8 out where
    r: "process test_demosaic (Some (replicate 72 0)) (Some (replicate 108 7)) = Ret (test_demosaic\<lparr>mBayerBuf := Some b8\<rparr>, Some out)"
    and c: "\<forall>y x. 1 \<le> y \<and> y + 1 < 3 \<and> 1 \<le> x \<and> x + 1 < 12 \<and> (even (12 :: nat) \<longrightarrow> x \<noteq> 12 - 2) \<and>
        (x < 2 \<or> (x - 2) mod 8 \<noteq> 7 \<or> 2 + 8 * ((12 - 4) div 8) \<le> x) \<longrightarrow>
       (\<exists>t. interp (if even x then fst (row_types test_params y) else snd (row_types test_params y))
          b8 (y * 12) ((y - 1) * 12) ((y + 1) * 12) x (x - 1) (x + 1) = Some t \<and> close_px (pix out (y * 12 + x)) t)"
    by blast
  have "fst (row_types test_params 1) = 2" by (simp add: row_types_def test_params_def pos_color_def)
  moreover have "\<exists>t. interp (if even (4 :: nat) then fst (row_types test_params 1) else snd (row_types test_params 1))
          b8 (1 * 12) ((1 - 1) * 12) ((1 + 1) * 12) 4 (4 - 1) (4 + 1) = Some t \<and> close_px (pix out (1 * 12 + 4)) t"
    by (rule c [rule_format]) simp
  ultimately show ?thesis using r by (auto simp del: close_px.simps)
qed

text \<open>The last pixel of a NEON batch takes as its right neighbour the first pixel of the batch
  (column \<open>x0\<close>) and not the pixel to its right (column \<open>x0 + 8\<close>), which the lane rotation lost.\<close>

lemma batch_seam_reads_own_batch:
  fixes p :: DemosaicParams and b8 :: buf and y m w :: nat
  defines "R \<equiv> \<lambda>k. b8 ! (y * w + k)" and "x0 \<equiv> 2 + 8 * m"
  assumes "unat (width p) = w" "snd (row_types p y) = 1" "x0 + 10 \<le> w" "1 \<le> y" "(y + 2) * w \<le> length b8"
  shows "fst (frame_px p b8 y (x0 + 7)) = ravg2 (R (x0 + 6)) (R x0)"
proof -
  obtain ev od where ty: "row_types p y = (ev, od)" "od = 1" using assms(4) by (cases "row_types p y") auto
  have "rows_in b8 (y * w) ((y - 1) * w) ((y + 1) * w) w" by (rule rows_in_plane [OF assms(7)])
  then have bd: "1 \<le> x0" "y * w + x0 + 8 < length b8" "(y - 1) * w + x0 + 8 < length b8"
      "(y + 1) * w + x0 + 8 < length b8"
    unfolding rows_in_def using assms(5) by (simp add: x0_def, linarith+)
  obtain q where q: "batch_load b8 (y * w) ((y - 1) * w) ((y + 1) * w) x0 = Some q"
      "od_h_r q ! 3 = ravg2 (R (x0 + 6)) (R x0)"
    using batch_load_lanes [OF bd] by (auto simp: R_def)
  have "(5 + (2 + 8 * m)) div 8 = m" "(5 + (2 + 8 * m)) mod 8 div 2 = 3" by simp_all
  moreover have "x0 + 7 < batch_end w"
  proof -
    have "m + 1 \<le> (w - 4) div 8" using assms(5) by (simp add: x0_def less_eq_div_iff_mult_less_eq)
    then show ?thesis by (simp add: x0_def batch_end_def)
  qed
  ultimately show ?thesis
    using q ty assms(3) by (simp add: frame_px_def row_px_def batch_px_def batch_odd_def Let_def x0_def)
qed

end
