(* ===== verification/ColorConv.thy ===== *)
theory ColorConv
  imports Demosaic
begin

text \<open>
  The colour conversions of the image pipeline (\<open>camera/isp/ColorConvNEON.cpp\<close>): RGB to NV12, RGB to
  RGBA, and RGB to RGBA with white balance, gamma and vertical flip. Each routine has a NEON loop and
  a scalar remainder; both are modelled, the lanes of signed registers as words read with \<open>sint\<close>.
\<close>

section \<open>NEON intrinsics\<close>

definition vld3 :: "nat \<Rightarrow> buf \<Rightarrow> nat \<Rightarrow> (u8 list \<times> u8 list \<times> u8 list) option" where
  "vld3 n b p =
     do { blk \<leftarrow> rd_block b p (3 * n);
          Some (map (\<lambda>i. blk ! (3 * i)) [0..<n], map (\<lambda>i. blk ! (3 * i + 1)) [0..<n],
                map (\<lambda>i. blk ! (3 * i + 2)) [0..<n]) }"

definition vmovl_u8 :: "u8 list \<Rightarrow> u16 list" where
  "vmovl_u8 = map ucast"

definition vget_low :: "'a list \<Rightarrow> 'a list" where
  "vget_low v = take (length v div 2) v"

definition vget_high :: "'a list \<Rightarrow> 'a list" where
  "vget_high v = drop (length v div 2) v"

definition vmull_s16 :: "u16 list \<Rightarrow> u16 list \<Rightarrow> u32 list" where
  "vmull_s16 = map2 (\<lambda>x y. word_of_int (sint x * sint y))"

definition vmlal_s16 :: "u32 list \<Rightarrow> u16 list \<Rightarrow> u16 list \<Rightarrow> u32 list" where
  "vmlal_s16 acc x y = map2 (+) acc (vmull_s16 x y)"

definition vaddq_s32 :: "u32 list \<Rightarrow> u32 list \<Rightarrow> u32 list" where
  "vaddq_s32 = map2 (+)"

definition vshrn_n_s32 :: "u32 list \<Rightarrow> nat \<Rightarrow> u16 list" where
  "vshrn_n_s32 v n = map (\<lambda>x. ucast (signed_drop_bit n x)) v"

definition vaddq_s16 :: "u16 list \<Rightarrow> u16 list \<Rightarrow> u16 list" where
  "vaddq_s16 = map2 (+)"

definition vqmovun_s16 :: "u16 list \<Rightarrow> u8 list" where
  "vqmovun_s16 = map (\<lambda>x. word_of_int (max 0 (min 255 (sint x))))"

definition vmull_u16 :: "u16 list \<Rightarrow> u16 list \<Rightarrow> u32 list" where
  "vmull_u16 = map2 (\<lambda>x y. ucast x * ucast y)"

definition vshrn_n_u32 :: "u32 list \<Rightarrow> nat \<Rightarrow> u16 list" where
  "vshrn_n_u32 v n = map (\<lambda>x. ucast (drop_bit n x)) v"

definition vqmovn_u16 :: "u16 list \<Rightarrow> u8 list" where
  "vqmovn_u16 = map (\<lambda>x. word_of_int (min 255 (uint x)))"

definition vst2 :: "nat \<Rightarrow> u8 list \<Rightarrow> u8 list \<Rightarrow> buf \<Rightarrow> buf option" where
  "vst2 p a b = wr_block p (concat (map2 (\<lambda>x y. [x, y]) a b))"

section \<open>State\<close>

record colorconv =
  mWidth :: u16
  mHeight :: u16
  ccInitialized :: bool

definition ColorConvNEON_new :: colorconv where
  "ColorConvNEON_new = \<lparr> mWidth = 0, mHeight = 0, ccInitialized = False \<rparr>"

definition cc_initialize :: "u16 \<Rightarrow> u16 \<Rightarrow> colorconv \<Rightarrow> int \<times> colorconv" where
  "cc_initialize wd ht c =
     (if wd = 0 \<or> ht = 0 then (-1, c)
      else (0, c\<lparr>mWidth := wd, mHeight := ht, ccInitialized := True\<rparr>))"

section \<open>RGB to NV12\<close>

text \<open>
  The weighted sum of eight pixels with one coefficient per channel: low and high halves in
  32 bits, rounded, narrowed to 16 bits, and the bias added. The source spells this out once for
  each of Y, U and V.
\<close>

definition weighted8 :: "int \<Rightarrow> int \<Rightarrow> int \<Rightarrow> int \<Rightarrow> u16 list \<Rightarrow> u16 list \<Rightarrow> u16 list \<Rightarrow> u16 list" where
  "weighted8 cr cg cb bias r16 g16 b16 =
     (let C_R = replicate 8 (word_of_int cr); C_G = replicate 8 (word_of_int cg); C_B = replicate 8 (word_of_int cb);
          C_ROUND = replicate 4 128;
          lo = vmull_s16 (vget_low C_R) (vget_low r16);
          lo = vmlal_s16 lo (vget_low C_G) (vget_low g16);
          lo = vmlal_s16 lo (vget_low C_B) (vget_low b16);
          hi = vmull_s16 (vget_high C_R) (vget_high r16);
          hi = vmlal_s16 hi (vget_high C_G) (vget_high g16);
          hi = vmlal_s16 hi (vget_high C_B) (vget_high b16)
      in vaddq_s16 (vshrn_n_s32 (vaddq_s32 lo C_ROUND) 8 @ vshrn_n_s32 (vaddq_s32 hi C_ROUND) 8)
           (replicate 8 (word_of_int bias)))"

definition y_block :: "buf \<Rightarrow> nat \<Rightarrow> nat \<Rightarrow> buf \<Rightarrow> buf option" where
  "y_block rgb row_base x yPlane =
     do { (r, g, b) \<leftarrow> vld3 8 rgb ((row_base + x) * 3);
          wr_block (row_base + x)
            (vqmovun_s16 (weighted8 66 129 25 16 (vmovl_u8 r) (vmovl_u8 g) (vmovl_u8 b))) yPlane }"

definition y_single :: "buf \<Rightarrow> nat \<Rightarrow> nat \<Rightarrow> buf \<Rightarrow> buf option" where
  "y_single rgb row_base x yPlane =
     do { let p = (row_base + x) * 3;
          r \<leftarrow> smp rgb p; g \<leftarrow> smp rgb (p + 1); b \<leftarrow> smp rgb (p + 2);
          wr (row_base + x) (word_of_int ((66 * r + 129 * g + 25 * b + 128) div 256 + 16)) yPlane }"

definition y_row :: "buf \<Rightarrow> nat \<Rightarrow> nat \<Rightarrow> buf \<Rightarrow> buf option" where
  "y_row rgb wd y yPlane =
     do { (x, yPlane) \<leftarrow> for_step 8 wd (y_block rgb (y * wd)) 0 yPlane;
          map_option snd (for_step 1 wd (y_single rgb (y * wd)) x yPlane) }"

definition uv_block :: "buf \<Rightarrow> nat \<Rightarrow> nat \<Rightarrow> nat \<Rightarrow> buf \<Rightarrow> buf option" where
  "uv_block rgb wd y x uvPlane =
     do { (r, g, b) \<leftarrow> vld3 16 rgb ((y * wd + x) * 3);
          let r_even = fst (vuzp_u8 (vget_low r) (vget_high r));
              g_even = fst (vuzp_u8 (vget_low g) (vget_high g));
              b_even = fst (vuzp_u8 (vget_low b) (vget_high b));
              r16 = vmovl_u8 r_even; g16 = vmovl_u8 g_even; b16 = vmovl_u8 b_even;
              u16 = weighted8 (-38) (-74) 112 128 r16 g16 b16;
              v16 = weighted8 112 (-94) (-18) 128 r16 g16 b16
          in vst2 (y div 2 * wd + x) (vqmovun_s16 u16) (vqmovun_s16 v16) uvPlane }"

definition uv_single :: "buf \<Rightarrow> nat \<Rightarrow> nat \<Rightarrow> nat \<Rightarrow> buf \<Rightarrow> buf option" where
  "uv_single rgb wd y x uvPlane =
     do { let p = (y * wd + x) * 3;
          r \<leftarrow> smp rgb p; g \<leftarrow> smp rgb (p + 1); b \<leftarrow> smp rgb (p + 2);
          let uv_off = y div 2 * wd + x;
          uvPlane \<leftarrow> wr uv_off (word_of_int ((-38 * r - 74 * g + 112 * b + 128) div 256 + 128)) uvPlane;
          wr (uv_off + 1) (word_of_int ((112 * r - 94 * g - 18 * b + 128) div 256 + 128)) uvPlane }"

text \<open>The remainder loop leaves on \<open>x + 1 \<ge> width\<close>, so it runs while \<open>x + 2 \<le> width\<close>.\<close>

definition uv_row :: "buf \<Rightarrow> nat \<Rightarrow> nat \<Rightarrow> buf \<Rightarrow> buf option" where
  "uv_row rgb wd y uvPlane =
     do { (x, uvPlane) \<leftarrow> for_step 16 wd (uv_block rgb wd y) 0 uvPlane;
          map_option snd (for_step 2 wd (uv_single rgb wd y) x uvPlane) }"

text \<open>\<open>for (y = 0; y < height; y += 2)\<close> runs while \<open>y + 2 \<le> height + 1\<close>.\<close>

definition rgbToNv12 :: "colorconv \<Rightarrow> buf option \<Rightarrow> buf option \<Rightarrow> buf option \<Rightarrow> (buf option \<times> buf option) outcome" where
  "rgbToNv12 c rgb yPlane uvPlane =
     (case (ccInitialized c, rgb, yPlane, uvPlane) of
        (True, Some rgb, Some yp, Some uvp) \<Rightarrow>
          (let wd = unat (mWidth c); ht = unat (mHeight c) in
           case do { yp \<leftarrow> for_range 0 ht (y_row rgb wd) yp;
                     (_, uvp) \<leftarrow> for_step 2 (ht + 1) (uv_row rgb wd) 0 uvp;
                     Some (yp, uvp) } of
             None \<Rightarrow> Crash
           | Some (yp, uvp) \<Rightarrow> Ret (Some yp, Some uvp))
      | _ \<Rightarrow> Ret (yPlane, uvPlane))"

section \<open>RGB to RGBA\<close>

definition rgba_block :: "buf \<Rightarrow> nat \<Rightarrow> buf \<Rightarrow> buf option" where
  "rgba_block rgb i rgba =
     do { (r, g, b) \<leftarrow> vld3 8 rgb (i * 3);
          wr_block (i * 4) (concat (map (\<lambda>k. [r ! k, g ! k, b ! k, 255]) [0..<8])) rgba }"

definition rgba_single :: "buf \<Rightarrow> nat \<Rightarrow> buf \<Rightarrow> buf option" where
  "rgba_single rgb i rgba =
     do { r \<leftarrow> rd rgb (i * 3); rgba \<leftarrow> wr (i * 4) r rgba;
          g \<leftarrow> rd rgb (i * 3 + 1); rgba \<leftarrow> wr (i * 4 + 1) g rgba;
          b \<leftarrow> rd rgb (i * 3 + 2); rgba \<leftarrow> wr (i * 4 + 2) b rgba;
          wr (i * 4 + 3) 255 rgba }"

text \<open>
  The 32-bit counter of the source does not wrap for a frame of less than \<open>2 ^ 32 - 8\<close> pixels;
  a larger one is not modelled (\<open>None\<close>).
\<close>

definition rgbToRgba :: "buf \<Rightarrow> buf \<Rightarrow> nat \<Rightarrow> nat \<Rightarrow> buf option" where
  "rgbToRgba rgb rgba wd ht =
     (let tot = wd * ht in
      if 2 ^ 32 - 8 \<le> tot then None
      else do { (i, rgba) \<leftarrow> for_step 8 tot (rgba_block rgb) 0 rgba;
                map_option snd (for_step 1 tot (rgba_single rgb) i rgba) })"

section \<open>White balance, gamma and flip in one pass\<close>

text \<open>
  \<open>rG\<close>, \<open>gG\<close>, \<open>bG\<close> are the gains in Q8.8, \<open>(int)(gain * 256.0f + 0.5f)\<close>. Offsets are
  natural numbers: the 32-bit products of the source do not wrap for buffers below 4 GB.
\<close>

definition wb8 :: "int \<Rightarrow> u8 list \<Rightarrow> u8 list" where
  "wb8 gain v =
     (let v16 = vmovl_u8 v; Gv = replicate 8 (word_of_int gain);
          lo = vmull_u16 (vget_low v16) (vget_low Gv); hi = vmull_u16 (vget_high v16) (vget_high Gv);
          rnd = replicate 4 128
      in vqmovn_u16 (vshrn_n_u32 (vaddq_s32 lo rnd) 8 @ vshrn_n_u32 (vaddq_s32 hi rnd) 8))"

definition wb_block :: "buf \<Rightarrow> buf \<Rightarrow> int \<Rightarrow> int \<Rightarrow> int \<Rightarrow> nat \<Rightarrow> nat \<Rightarrow> nat \<Rightarrow> buf \<Rightarrow> buf option" where
  "wb_block rgb lut rG gG bG src dst x rgba =
     do { (r, g, b) \<leftarrow> vld3 8 rgb (src + x * 3);
          let rC = wb8 rG r; let gC = wb8 gG g; let bC = wb8 bG b;
          if length lut < 256 then None
          else wr_block (dst + x * 4)
            (concat (map (\<lambda>k. [lut ! unat (rC ! k), lut ! unat (gC ! k), lut ! unat (bC ! k), 255]) [0..<8])) rgba }"

definition wb_level :: "int \<Rightarrow> int \<Rightarrow> int" where
  "wb_level v gain = (let r = (v * gain + 128) div 256 in if 255 < r then 255 else r)"

text \<open>An index into the table; a negative one is outside it.\<close>

definition lut_at :: "buf \<Rightarrow> int \<Rightarrow> u8 option" where
  "lut_at lut i = (if i < 0 then None else rd lut (nat i))"

definition wb_single :: "buf \<Rightarrow> buf \<Rightarrow> int \<Rightarrow> int \<Rightarrow> int \<Rightarrow> nat \<Rightarrow> nat \<Rightarrow> nat \<Rightarrow> buf \<Rightarrow> buf option" where
  "wb_single rgb lut rG gG bG src dst x rgba =
     do { let si = src + x * 3; let di = dst + x * 4;
          r \<leftarrow> smp rgb si; g \<leftarrow> smp rgb (si + 1); b \<leftarrow> smp rgb (si + 2);
          r \<leftarrow> lut_at lut (wb_level r rG); rgba \<leftarrow> wr di r rgba;
          g \<leftarrow> lut_at lut (wb_level g gG); rgba \<leftarrow> wr (di + 1) g rgba;
          b \<leftarrow> lut_at lut (wb_level b bG); rgba \<leftarrow> wr (di + 2) b rgba;
          wr (di + 3) 255 rgba }"

definition wb_row :: "buf \<Rightarrow> buf \<Rightarrow> int \<Rightarrow> int \<Rightarrow> int \<Rightarrow> bool \<Rightarrow> nat \<Rightarrow> nat \<Rightarrow> nat \<Rightarrow> buf \<Rightarrow> buf option" where
  "wb_row rgb lut rG gG bG flipV wd ht y rgba =
     (let srcRow = (if flipV then ht - 1 - y else y);
          src = srcRow * wd * 3; dst = y * (wd * 4)
      in do { (x, rgba) \<leftarrow> for_step 8 wd (wb_block rgb lut rG gG bG src dst) 0 rgba;
              map_option snd (for_step 1 wd (wb_single rgb lut rG gG bG src dst) x rgba) })"

definition rgbToRgbaWbGamma :: "buf option \<Rightarrow> buf option \<Rightarrow> nat \<Rightarrow> nat \<Rightarrow> int \<Rightarrow> int \<Rightarrow> int \<Rightarrow> buf option \<Rightarrow> bool \<Rightarrow>
    buf option outcome" where
  "rgbToRgbaWbGamma rgb rgba wd ht rG gG bG gammaLut flipV =
     (case (rgb, rgba, gammaLut) of
        (Some rgb, Some out, Some lut) \<Rightarrow>
          (case for_range 0 ht (wb_row rgb lut rG gG bG flipV wd ht) out of
             None \<Rightarrow> Crash
           | Some out \<Rightarrow> Ret (Some out))
      | _ \<Rightarrow> Ret rgba)"

section \<open>Lanes\<close>

lemma sint_of_int_small:
  "- (2 ^ (LENGTH('a) - 1)) \<le> k \<Longrightarrow> k < 2 ^ (LENGTH('a) - 1) \<Longrightarrow> sint (word_of_int k :: 'a::len word) = k"
  by (simp add: signed_of_int signed_take_bit_int_eq_self)

lemma ucast_of_int_16: "ucast (word_of_int k :: u32) = (word_of_int k :: u16)"
  by (rule word_uint_eqI) (simp add: uint_simps mod_mod_cancel)

lemma sint_ucast_u8: "sint (ucast (r :: u8) :: u16) = uint r"
proof -
  have e: "(ucast r :: u16) = word_of_int (uint r)" by simp
  show ?thesis unfolding e
  proof (rule sint_of_int_small)
    show "- (2 ^ (LENGTH(16) - 1)) \<le> uint r" by (rule order_trans [of _ 0]) simp_all
    show "uint r < 2 ^ (LENGTH(16) - 1)" using u8_range [of r] by simp
  qed
qed

lemma signed_drop_bit_of_int:
  assumes "- (2 ^ 31) \<le> k" "k < 2 ^ 31"
  shows "signed_drop_bit n (word_of_int k :: u32) = word_of_int (k div 2 ^ n)"
proof -
  have "sint (signed_drop_bit n (word_of_int k :: u32)) = k div 2 ^ n"
    using assms sint_of_int_small [of k, where 'a = 32]
    by (simp add: sint_signed_drop_bit_eq drop_bit_eq_div)
  then show ?thesis by (metis of_int_sint scast_id)
qed

definition wlane :: "int \<Rightarrow> int \<Rightarrow> int \<Rightarrow> int \<Rightarrow> u8 \<Rightarrow> u8 \<Rightarrow> u8 \<Rightarrow> u16" where
  "wlane cr cg cb bias r g b =
     ucast (signed_drop_bit 8 (word_of_int (sint (word_of_int cr :: u16) * sint (ucast r :: u16)) +
       word_of_int (sint (word_of_int cg :: u16) * sint (ucast g :: u16)) +
       word_of_int (sint (word_of_int cb :: u16) * sint (ucast b :: u16)) + 128 :: u32)) + word_of_int bias"

definition wsum :: "int \<Rightarrow> int \<Rightarrow> int \<Rightarrow> u8 \<Rightarrow> u8 \<Rightarrow> u8 \<Rightarrow> int" where
  "wsum cr cg cb r g b = cr * uint r + cg * uint g + cb * uint b + 128"

lemma wsum_bound:
  assumes "\<bar>c\<bar> \<le> 129"
  shows "\<bar>c * uint (r :: u8)\<bar> \<le> 32895"
proof -
  have "\<bar>c\<bar> * uint r \<le> 129 * 255" using assms u8_range [of r] by (intro mult_mono) auto
  then show ?thesis by (simp add: abs_mult)
qed

lemma wlane_eq:
  assumes "\<bar>cr\<bar> \<le> 129" "\<bar>cg\<bar> \<le> 129" "\<bar>cb\<bar> \<le> 129" "0 \<le> bias" "bias \<le> 128"
  shows "sint (wlane cr cg cb bias r g b) = wsum cr cg cb r g b div 256 + bias"
proof -
  have c: "sint (word_of_int c :: u16) = c" if "\<bar>c\<bar> \<le> 129" for c
    using that by (intro sint_of_int_small) auto
  define S where "S = wsum cr cg cb r g b"
  have S: "\<bar>S\<bar> \<le> 100000"
    using wsum_bound [OF assms(1), of r] wsum_bound [OF assms(2), of g] wsum_bound [OF assms(3), of b]
    unfolding S_def wsum_def by linarith
  have "wlane cr cg cb bias r g b = ucast (signed_drop_bit 8 (word_of_int S :: u32)) + word_of_int bias"
    using assms by (simp add: wlane_def c sint_ucast_u8 S_def wsum_def)
  also have "\<dots> = word_of_int (S div 256 + bias)"
    using S signed_drop_bit_of_int [of S 8] by (simp add: ucast_of_int_16 flip: of_int_add)
  finally show ?thesis using S assms(4,5) unfolding S_def [symmetric]
    by (simp add: sint_of_int_small del: of_int_add)
qed

lemma weighted8_lanes:
  assumes "length r = 8" "length g = 8" "length b = 8"
  shows "weighted8 cr cg cb bias (vmovl_u8 r) (vmovl_u8 g) (vmovl_u8 b) =
    map (\<lambda>i. wlane cr cg cb bias (r ! i) (g ! i) (b ! i)) [0..<8]"
proof (rule nth_equalityI)
  fix i assume "i < length (weighted8 cr cg cb bias (vmovl_u8 r) (vmovl_u8 g) (vmovl_u8 b))"
  then have "i < 8" using assms
    by (simp add: weighted8_def Let_def vaddq_s16_def vshrn_n_s32_def vaddq_s32_def vmlal_s16_def
        vmull_s16_def vget_low_def vget_high_def vmovl_u8_def)
  then show "weighted8 cr cg cb bias (vmovl_u8 r) (vmovl_u8 g) (vmovl_u8 b) ! i =
      map (\<lambda>i. wlane cr cg cb bias (r ! i) (g ! i) (b ! i)) [0..<8] ! i"
    using assms
    by (cases "i < 4") (simp_all add: weighted8_def Let_def vaddq_s16_def vshrn_n_s32_def vaddq_s32_def vmlal_s16_def
        vmull_s16_def vget_low_def vget_high_def vmovl_u8_def nth_append wlane_def del: upt_Suc)
qed (use assms in \<open>simp add: weighted8_def Let_def vaddq_s16_def vshrn_n_s32_def vaddq_s32_def vmlal_s16_def
        vmull_s16_def vget_low_def vget_high_def vmovl_u8_def\<close>)

section \<open>The luma plane\<close>

text \<open>The three channels of pixel \<open>p\<close>, and the values the conversion documents for it.\<close>

definition luma :: "rgb \<Rightarrow> int" where
  "luma t = (case t of (r, g, b) \<Rightarrow> wsum 66 129 25 r g b div 256 + 16)"

definition chroma_u :: "rgb \<Rightarrow> int" where
  "chroma_u t = (case t of (r, g, b) \<Rightarrow> wsum (-38) (-74) 112 r g b div 256 + 128)"

definition chroma_v :: "rgb \<Rightarrow> int" where
  "chroma_v t = (case t of (r, g, b) \<Rightarrow> wsum 112 (-94) (-18) r g b div 256 + 128)"

lemma nv12_ranges:
  "16 \<le> luma t \<and> luma t \<le> 235" "16 \<le> chroma_u t \<and> chroma_u t \<le> 240" "16 \<le> chroma_v t \<and> chroma_v t \<le> 240"
proof -
  obtain r g b where t: "t = (r, g, b)" by (cases t)
  show "16 \<le> luma t \<and> luma t \<le> 235" "16 \<le> chroma_u t \<and> chroma_u t \<le> 240" "16 \<le> chroma_v t \<and> chroma_v t \<le> 240"
    using u8_range [of r] u8_range [of g] u8_range [of b]
    unfolding t luma_def chroma_u_def chroma_v_def wsum_def prod.case by linarith+
qed

lemma vld3_pix:
  assumes "3 * (p + n) \<le> length rgb"
  shows "vld3 n rgb (p * 3) = Some (map (\<lambda>i. fst (pix rgb (p + i))) [0..<n],
    map (\<lambda>i. fst (snd (pix rgb (p + i)))) [0..<n], map (\<lambda>i. snd (snd (pix rgb (p + i)))) [0..<n])"
  using assms by (auto simp: vld3_def pix_def algebra_simps)

lemma qmovun_wlane:
  assumes "\<bar>cr\<bar> \<le> 129" "\<bar>cg\<bar> \<le> 129" "\<bar>cb\<bar> \<le> 129" "0 \<le> bias" "bias \<le> 128"
    and "0 \<le> wsum cr cg cb r g b div 256 + bias" "wsum cr cg cb r g b div 256 + bias \<le> 255"
  shows "vqmovun_s16 [wlane cr cg cb bias r g b] = [word_of_int (wsum cr cg cb r g b div 256 + bias)]"
  using wlane_eq [OF assms(1-5), of r g b] assms(6,7) by (simp add: vqmovun_s16_def)

lemma qmovun_wlanes:
  assumes "\<bar>cr\<bar> \<le> 129" "\<bar>cg\<bar> \<le> 129" "\<bar>cb\<bar> \<le> 129" "0 \<le> bias" "bias \<le> 128"
    and "\<And>r g b. 0 \<le> wsum cr cg cb r g b div 256 + bias" "\<And>r g b. wsum cr cg cb r g b div 256 + bias \<le> 255"
  shows "vqmovun_s16 (weighted8 cr cg cb bias (vmovl_u8 (map f [0..<8])) (vmovl_u8 (map g [0..<8])) (vmovl_u8 (map h [0..<8]))) =
    map (\<lambda>i. word_of_int (wsum cr cg cb (f i) (g i) (h i) div 256 + bias)) [0..<8]"
  using wlane_eq [OF assms(1-5)] assms(6,7)
  by (simp add: weighted8_lanes vqmovun_s16_def del: upt_Suc cong: map_cong) 

lemma luma_lanes:
  "vqmovun_s16 (weighted8 66 129 25 16 (vmovl_u8 (map (\<lambda>i. fst (P i)) [0..<8])) (vmovl_u8 (map (\<lambda>i. fst (snd (P i))) [0..<8]))
     (vmovl_u8 (map (\<lambda>i. snd (snd (P i))) [0..<8]))) = map (\<lambda>i. word_of_int (luma (P i))) [0..<8]"
proof -
  have "0 \<le> wsum 66 129 25 r g b div 256 + 16" "wsum 66 129 25 r g b div 256 + 16 \<le> 255" for r g b
    using nv12_ranges(1) [of "(r, g, b)"] by (simp_all add: luma_def)
  then show ?thesis by (simp only: qmovun_wlanes luma_def case_prod_beta)
qed

lemma chroma_u_lanes:
  "vqmovun_s16 (weighted8 (-38) (-74) 112 128 (vmovl_u8 (map (\<lambda>i. fst (P i)) [0..<8])) (vmovl_u8 (map (\<lambda>i. fst (snd (P i))) [0..<8]))
     (vmovl_u8 (map (\<lambda>i. snd (snd (P i))) [0..<8]))) = map (\<lambda>i. word_of_int (chroma_u (P i))) [0..<8]"
proof -
  have "0 \<le> wsum (-38) (-74) 112 r g b div 256 + 128" "wsum (-38) (-74) 112 r g b div 256 + 128 \<le> 255" for r g b
    using nv12_ranges(2) [of "(r, g, b)"] by (simp_all add: chroma_u_def)
  then show ?thesis by (simp only: qmovun_wlanes chroma_u_def case_prod_beta)
qed

lemma chroma_v_lanes:
  "vqmovun_s16 (weighted8 112 (-94) (-18) 128 (vmovl_u8 (map (\<lambda>i. fst (P i)) [0..<8])) (vmovl_u8 (map (\<lambda>i. fst (snd (P i))) [0..<8]))
     (vmovl_u8 (map (\<lambda>i. snd (snd (P i))) [0..<8]))) = map (\<lambda>i. word_of_int (chroma_v (P i))) [0..<8]"
proof -
  have "0 \<le> wsum 112 (-94) (-18) r g b div 256 + 128" "wsum 112 (-94) (-18) r g b div 256 + 128 \<le> 255" for r g b
    using nv12_ranges(3) [of "(r, g, b)"] by (simp_all add: chroma_v_def)
  then show ?thesis by (simp only: qmovun_wlanes chroma_v_def case_prod_beta)
qed

lemma y_block_written:
  assumes "written t0 (base + x) (\<lambda>i. word_of_int (luma (pix rgb i))) t"
    "base + x + 8 \<le> length t0" "3 * (base + x + 8) \<le> length rgb"
  shows "\<exists>t'. y_block rgb base x t = Some t' \<and> written t0 (base + x + 8) (\<lambda>i. word_of_int (luma (pix rgb i))) t'"
proof -
  have "map (\<lambda>i. word_of_int (luma (pix rgb (base + x + i)))) [0..<8] =
      map (\<lambda>i. word_of_int (luma (pix rgb i)) :: u8) [base + x..<base + x + 8]"
    by (rule nth_equalityI) auto
  then show ?thesis
    using written_block [OF assms(1,2)] vld3_pix [of "base + x" 8 rgb] assms(3)
    by (simp add: y_block_def luma_lanes del: upt_Suc)
qed

lemma smp_pix:
  assumes "3 * p + 2 < length rgb"
  shows "smp rgb (p * 3) = Some (uint (fst (pix rgb p)))" "smp rgb (p * 3 + 1) = Some (uint (fst (snd (pix rgb p))))"
    "smp rgb (p * 3 + 2) = Some (uint (snd (snd (pix rgb p))))"
  using assms by (simp_all add: smp_def pix_def mult.commute)

lemma y_single_written:
  assumes "written t0 (base + x) (\<lambda>i. word_of_int (luma (pix rgb i))) t"
    "base + x < length t0" "3 * (base + x) + 2 < length rgb"
  shows "\<exists>t'. y_single rgb base x t = Some t' \<and> written t0 (base + x + 1) (\<lambda>i. word_of_int (luma (pix rgb i))) t'"
proof -
  have "y_single rgb base x t = wr_block (base + x) [word_of_int (luma (pix rgb (base + x)))] t"
    using smp_pix [OF assms(3)] by (simp add: y_single_def Let_def wr_wr_block luma_def wsum_def case_prod_beta)
  then show ?thesis using written_block [OF assms(1), of 1] assms(2) by simp
qed

lemma y_row_written:
  assumes "written t0 (y * w) (\<lambda>i. word_of_int (luma (pix rgb i))) t" "(y + 1) * w \<le> length t0" "3 * ((y + 1) * w) \<le> length rgb"
  shows "\<exists>t'. y_row rgb w y t = Some t' \<and> written t0 ((y + 1) * w) (\<lambda>i. word_of_int (luma (pix rgb i))) t'"
proof -
  let ?G = "\<lambda>i. word_of_int (luma (pix rgb i)) :: u8"
  have "\<exists>x s. for_step 8 w (y_block rgb (y * w)) 0 t = Some (x, s) \<and> written t0 (y * w + x) ?G s \<and>
      0 \<le> x \<and> w < x + 8 \<and> (x = 0 \<or> x \<le> w)"
    by (rule for_step_rule) (use assms y_block_written [of t0 "y * w" _ rgb] in \<open>auto simp: add.assoc\<close>)
  then obtain x s where xs: "for_step 8 w (y_block rgb (y * w)) 0 t = Some (x, s)" "written t0 (y * w + x) ?G s" "x \<le> w"
    by auto
  have "\<exists>t'. for_range x w (y_single rgb (y * w)) s = Some t' \<and> written t0 (y * w + w) ?G t'"
    by (rule for_range_rule) (use xs assms y_single_written [of t0 "y * w" _ rgb] in auto)
  then show ?thesis using xs by (auto simp: y_row_def for_range_def add.commute)
qed

section \<open>The chroma plane\<close>

text \<open>Byte \<open>i\<close> of the chroma plane of a frame of even width \<open>w\<close>.\<close>

definition uv_byte :: "nat \<Rightarrow> buf \<Rightarrow> nat \<Rightarrow> u8" where
  "uv_byte w rgb i =
     (let x = i mod w; t = pix rgb (2 * (i div w) * w + (x - x mod 2))
      in word_of_int (if even x then chroma_u t else chroma_v t))"

lemma uv_byte_at:
  assumes "x + 2 \<le> w" "even x" "even y"
  shows "uv_byte w rgb (y div 2 * w + x) = word_of_int (chroma_u (pix rgb (y * w + x)))"
    "uv_byte w rgb (y div 2 * w + x + 1) = word_of_int (chroma_v (pix rgb (y * w + x)))"
proof -
  have "(y div 2 * w + x) mod w = x" "(y div 2 * w + x) div w = y div 2"
    "(y div 2 * w + x + 1) mod w = x + 1" "(y div 2 * w + x + 1) div w = y div 2"
    using assms(1) by (simp_all only: add.assoc mod_mult_self3 div_mult_self3) simp_all
  moreover have "2 * (y div 2) = y" "x mod 2 = 0" "Suc x mod 2 = 1" using assms(2,3) by presburger+
  ultimately show "uv_byte w rgb (y div 2 * w + x) = word_of_int (chroma_u (pix rgb (y * w + x)))"
    "uv_byte w rgb (y div 2 * w + x + 1) = word_of_int (chroma_v (pix rgb (y * w + x)))"
    using assms(2) by (simp_all add: uv_byte_def Let_def)
qed

lemma uv_single_written:
  assumes "written t0 (y div 2 * w + x) (uv_byte w rgb) t" "x + 2 \<le> w" "even x" "even y"
    "y div 2 * w + x + 2 \<le> length t0" "3 * (y * w + x) + 2 < length rgb"
  shows "\<exists>t'. uv_single rgb w y x t = Some t' \<and> written t0 (y div 2 * w + (x + 2)) (uv_byte w rgb) t'"
proof -
  let ?o = "y div 2 * w + x"
  have "uv_single rgb w y x t = wr_block ?o [uv_byte w rgb ?o, uv_byte w rgb (?o + 1)] t"
    unfolding uv_byte_at [OF assms(2,3,4)] using smp_pix [OF assms(6)]
    by (simp add: uv_single_def Let_def wr_wr_block chroma_u_def chroma_v_def wsum_def case_prod_beta
        wr_block_append [of _ "[_]" "[_]", simplified])
  moreover have "[uv_byte w rgb ?o, uv_byte w rgb (?o + 1)] = map (uv_byte w rgb) [?o..<?o + 2]"
    by (simp add: upt_rec)
  ultimately show ?thesis using written_block [OF assms(1), of 2] assms(5) by (simp add: add.assoc)
qed

lemma upt_16: "[0..<16] = [0, 1, 2, 3, 4, 5, 6, 7, 8, 9, 10, 11, 12, 13, 14, 15::nat]"
  by (simp add: upt_rec)

lemma vuzp_map16:
  "fst (vuzp_u8 (vget_low (map f [0..<16])) (vget_high (map f [0..<16]))) = map (\<lambda>i. f (2 * i)) [0..<8]"
  unfolding upt_16 upt_8 by (simp add: vuzp_u8_def vget_low_def vget_high_def)

lemma uv_block_written:
  assumes "written t0 (y div 2 * w + x) (uv_byte w rgb) t" "x + 16 \<le> w" "even x" "even y"
    "y div 2 * w + x + 16 \<le> length t0" "3 * (y * w + x + 16) \<le> length rgb"
  shows "\<exists>t'. uv_block rgb w y x t = Some t' \<and> written t0 (y div 2 * w + (x + 16)) (uv_byte w rgb) t'"
proof -
  let ?o = "y div 2 * w + x" and ?P = "\<lambda>i. pix rgb (y * w + x + 2 * i)"
  have pair: "uv_byte w rgb (?o + 2 * i) = word_of_int (chroma_u (?P i))"
      "uv_byte w rgb (?o + 2 * i + 1) = word_of_int (chroma_v (?P i))" if "i < 8" for i
    using uv_byte_at [of "x + 2 * i" w y rgb] assms(2-4) that by (simp_all add: add.assoc)
  have "concat (map2 (\<lambda>u v. [u, v]) (map (\<lambda>i. word_of_int (chroma_u (?P i))) [0..<8])
      (map (\<lambda>i. word_of_int (chroma_v (?P i))) [0..<8])) =
      concat (map (\<lambda>i. [uv_byte w rgb (?o + 2 * i), uv_byte w rgb (?o + 2 * i + 1)]) [0..<8])"
    unfolding map2_map_map by (intro arg_cong [where f = concat] map_cong) (use pair in simp_all)
  also have "\<dots> = map (uv_byte w rgb) [?o..<?o + 16]"
  proof -
    have "[?o..<?o + 16] = map (\<lambda>i. ?o + i) [0..<16]" by (rule nth_equalityI) simp_all
    then show ?thesis unfolding upt_8 upt_16 by (simp add: numeral_eq_Suc)
  qed
  finally have "uv_block rgb w y x t = wr_block ?o (map (uv_byte w rgb) [?o..<?o + 16]) t"
    using vld3_pix [of "y * w + x" 16 rgb] assms(6)
    by (simp add: uv_block_def vuzp_map16 chroma_u_lanes chroma_v_lanes vst2_def Let_def del: upt_Suc)
  then show ?thesis using written_block [OF assms(1), of 16] assms(5) by (simp add: add.assoc)
qed

lemma uv_row_written:
  assumes "written t0 (y div 2 * w) (uv_byte w rgb) t" "even w" "even y"
    "(y div 2 + 1) * w \<le> length t0" "3 * ((y + 1) * w) \<le> length rgb"
  shows "\<exists>t'. uv_row rgb w y t = Some t' \<and> written t0 ((y div 2 + 1) * w) (uv_byte w rgb) t'"
proof -
  have "\<exists>x s. for_step 16 w (uv_block rgb w y) 0 t = Some (x, s) \<and>
      (written t0 (y div 2 * w + x) (uv_byte w rgb) s \<and> even x) \<and> 0 \<le> x \<and> w < x + 16 \<and> (x = 0 \<or> x \<le> w)"
  proof (rule for_step_rule)
    fix x s assume x: "x + 16 \<le> w" and I: "written t0 (y div 2 * w + x) (uv_byte w rgb) s \<and> even x"
    then show "\<exists>t'. uv_block rgb w y x s = Some t' \<and>
        written t0 (y div 2 * w + (x + 16)) (uv_byte w rgb) t' \<and> even (x + 16)"
      using uv_block_written [of t0 y w x rgb s] assms by simp
  qed (use assms in simp_all)
  then obtain x s where xs: "for_step 16 w (uv_block rgb w y) 0 t = Some (x, s)"
      "written t0 (y div 2 * w + x) (uv_byte w rgb) s" "even x" "x \<le> w" by auto
  have "\<exists>z t'. for_step 2 w (uv_single rgb w y) x s = Some (z, t') \<and>
      (written t0 (y div 2 * w + z) (uv_byte w rgb) t' \<and> even z) \<and> x \<le> z \<and> w < z + 2 \<and> (z = x \<or> z \<le> w)"
  proof (rule for_step_rule)
    fix z s assume z: "z + 2 \<le> w" and I: "written t0 (y div 2 * w + z) (uv_byte w rgb) s \<and> even z"
    then show "\<exists>t'. uv_single rgb w y z s = Some t' \<and>
        written t0 (y div 2 * w + (z + 2)) (uv_byte w rgb) t' \<and> even (z + 2)"
      using uv_single_written [of t0 y w z rgb s] assms by simp
  qed (use xs in simp_all)
  then obtain z t' where z: "for_step 2 w (uv_single rgb w y) x s = Some (z, t')"
      "written t0 (y div 2 * w + z) (uv_byte w rgb) t'" "even z" "w < z + 2" "z \<le> w" using xs(4) by auto
  have "z = w" using z(3-5) assms(2) by presburger
  then show ?thesis using xs(1) z(1,2) by (simp add: uv_row_def add.commute)
qed

section \<open>Properties\<close>

text \<open>C10. For an initialised converter with an even width and planes of the right size, the NV12
  conversion has no access outside its buffers, and both its NEON and its scalar loops compute the
  documented BT.601 values: every luma byte is the value of its pixel and lies in [16, 235], and every
  chroma pair is that of the even-column pixel of the even row. No value is clipped or wrapped.\<close>

theorem rgbToNv12_correct:
  fixes c :: colorconv and rgb yp uvp :: buf
  defines "w \<equiv> unat (mWidth c)" and "h \<equiv> unat (mHeight c)"
  assumes "ccInitialized c" "even w" "3 * (w * h) \<le> length rgb" "w * h \<le> length yp" "w * ((h + 1) div 2) \<le> length uvp"
  shows "\<exists>yp' uvp'. rgbToNv12 c (Some rgb) (Some yp) (Some uvp) = Ret (Some yp', Some uvp') \<and>
    length yp' = length yp \<and> length uvp' = length uvp \<and>
    (\<forall>i < w * h. uint (yp' ! i) = luma (pix rgb i) \<and> 16 \<le> yp' ! i \<and> yp' ! i \<le> 235) \<and>
    (\<forall>cy < (h + 1) div 2. \<forall>cx < w div 2.
       uint (uvp' ! (cy * w + 2 * cx)) = chroma_u (pix rgb (2 * cy * w + 2 * cx)) \<and>
       uint (uvp' ! (cy * w + 2 * cx + 1)) = chroma_v (pix rgb (2 * cy * w + 2 * cx)))"
proof -
  let ?G = "\<lambda>i. word_of_int (luma (pix rgb i)) :: u8"
  have le: "(y + 1) * w \<le> w * k" if "y < k" for y k
    using that mult_le_mono1 [of "y + 1" k w] by (simp add: mult.commute)
  have "\<exists>yp'. for_range 0 h (y_row rgb w) yp = Some yp' \<and> written yp (h * w) ?G yp'"
  proof (rule for_range_rule)
    fix y t assume "y < h" "written yp (y * w) ?G t"
    then show "\<exists>t'. y_row rgb w y t = Some t' \<and> written yp (Suc y * w) ?G t'"
      using y_row_written [of yp y w rgb t] le [of y h] assms(5,6) by simp
  qed simp_all
  then obtain yp' where yp': "for_range 0 h (y_row rgb w) yp = Some yp'" "written yp (h * w) ?G yp'" by blast
  have "\<exists>y t. for_step 2 (h + 1) (uv_row rgb w) 0 uvp = Some (y, t) \<and>
      (written uvp (y div 2 * w) (uv_byte w rgb) t \<and> even y) \<and> 0 \<le> y \<and> h + 1 < y + 2 \<and> (y = 0 \<or> y \<le> h + 1)"
  proof (rule for_step_rule)
    fix y t assume y: "y + 2 \<le> h + 1" and I: "written uvp (y div 2 * w) (uv_byte w rgb) t \<and> even y"
    have "y div 2 < (h + 1) div 2" "(y + 2) div 2 = y div 2 + 1" using y by presburger+
    then show "\<exists>t'. uv_row rgb w y t = Some t' \<and>
        written uvp ((y + 2) div 2 * w) (uv_byte w rgb) t' \<and> even (y + 2)"
      using uv_row_written [of uvp y w rgb t] le [of "y div 2" "(h + 1) div 2"] le [of y h] I y assms(4,5,7) by simp
  qed simp_all
  then obtain y uvp' where uv: "for_step 2 (h + 1) (uv_row rgb w) 0 uvp = Some (y, uvp')"
      "written uvp (y div 2 * w) (uv_byte w rgb) uvp'" "h + 1 < y + 2" "y = 0 \<or> y \<le> h + 1" "even y" by blast
  have yd: "y div 2 = (h + 1) div 2" using uv(3-5) by presburger
  have Y: "uint (yp' ! i) = luma (pix rgb i)" if "i < w * h" for i
    using yp'(2) that assms(6) nv12_ranges(1) [of "pix rgb i"]
    by (simp add: written_def uint_of_int_mod mult.commute)
  have UV: "uint (uvp' ! (cy * w + 2 * cx)) = chroma_u (pix rgb (2 * cy * w + 2 * cx)) \<and>
       uint (uvp' ! (cy * w + 2 * cx + 1)) = chroma_v (pix rgb (2 * cy * w + 2 * cx))"
    if "cy < (h + 1) div 2" "cx < w div 2" for cy cx
  proof -
    have x: "2 * cx + 2 \<le> w" using that(2) by linarith
    have "cy * w + 2 * cx + 1 < (h + 1) div 2 * w" using le [OF that(1)] x by (simp add: mult.commute)
    moreover from this have "cy * w + 2 * cx + 1 < length uvp" using assms(7) by (simp add: mult.commute)
    ultimately have "uvp' ! (cy * w + 2 * cx) = uv_byte w rgb (cy * w + 2 * cx)"
        "uvp' ! (cy * w + 2 * cx + 1) = uv_byte w rgb (cy * w + 2 * cx + 1)"
      using uv(2) unfolding yd by (simp_all add: written_def)
    then show ?thesis
      using uv_byte_at [of "2 * cx" w "2 * cy" rgb] x nv12_ranges(2,3) [of "pix rgb (2 * cy * w + 2 * cx)"]
      by (simp add: uint_of_int_mod)
  qed
  have "16 \<le> yp' ! i \<and> yp' ! i \<le> 235" if "i < w * h" for i
    using Y [OF that] nv12_ranges(1) [of "pix rgb i"] by (simp add: word_le_def)
  moreover have "rgbToNv12 c (Some rgb) (Some yp) (Some uvp) = Ret (Some yp', Some uvp')"
    using assms(3) yp'(1) uv(1) by (simp add: rgbToNv12_def Let_def w_def h_def)
  ultimately show ?thesis using Y UV yp'(2) uv(2) by (auto simp: written_length)
qed

theorem rgbToNv12_correct_witness:
  "\<exists>yp' uvp'. rgbToNv12 \<lparr> mWidth = 2, mHeight = 1, ccInitialized = True \<rparr>
      (Some (replicate 6 255)) (Some [0, 0]) (Some [0, 0]) = Ret (Some yp', Some uvp') \<and> uint (yp' ! 0) = 235"
  using rgbToNv12_correct [of "\<lparr> mWidth = 2, mHeight = 1, ccInitialized = True \<rparr>" "replicate 6 255" "[0, 0]" "[0, 0]"]
  by (auto simp: pix_def luma_def wsum_def)

text \<open>A buffer of four-byte pixels given pixel by pixel.\<close>

definition quad :: "(nat \<Rightarrow> u8 list) \<Rightarrow> nat \<Rightarrow> u8" where
  "quad Q i = Q (i div 4) ! (i mod 4)"

lemma quad_block:
  assumes "\<And>q. length (Q q) = 4"
  shows "concat (map (\<lambda>k. Q (p + k)) [0..<n]) = map (quad Q) [4 * p..<4 * p + 4 * n]"
proof (rule nth_equalityI)
  have len: "length (concat (map (\<lambda>k. Q (p + k)) [0..<n])) = 4 * n"
    using assms by (subst concat_blocks_length [of _ _ 4]) auto
  then show "length (concat (map (\<lambda>k. Q (p + k)) [0..<n])) = length (map (quad Q) [4 * p..<4 * p + 4 * n])" by simp
  fix i assume "i < length (concat (map (\<lambda>k. Q (p + k)) [0..<n]))"
  then have i: "i < 4 * n" using len by simp
  have "concat (map (\<lambda>k. Q (p + k)) [0..<n]) ! (4 * (i div 4) + i mod 4) = Q (p + i div 4) ! (i mod 4)"
    using assms i by (intro concat_blocks_nth) (auto simp: less_mult_imp_div_less mult.commute)
  then show "concat (map (\<lambda>k. Q (p + k)) [0..<n]) ! i = map (quad Q) [4 * p..<4 * p + 4 * n] ! i"
    using i by (simp add: quad_def)
qed

lemma quad_written:
  assumes "\<And>q. length (Q q) = 4" "written t0 (4 * p) (quad Q) t" "4 * (p + n) \<le> length t0"
  shows "\<exists>t'. wr_block (4 * p) (concat (map (\<lambda>k. Q (p + k)) [0..<n])) t = Some t' \<and> written t0 (4 * (p + n)) (quad Q) t'"
  using written_block [OF assms(2), of "4 * n"] assms(3) quad_block [of Q p n, OF assms(1)] by (simp add: algebra_simps)

lemma wr_quad:
  "Option.bind (wr i a t) (\<lambda>t. Option.bind (wr (i + 1) b t) (\<lambda>t. Option.bind (wr (i + 2) c t) (wr (i + 3) d))) =
   wr_block i [a, b, c, d] t"
  using wr_block_append [of i "[a]" "[b, c, d]" t] wr_block_append [of "i + 1" "[b]" "[c, d]"]
    wr_block_append [of "i + 2" "[c]" "[d]"]
  by (simp add: wr_wr_block numeral_eq_Suc cong: bind_option_cong)

definition rgba_px :: "buf \<Rightarrow> nat \<Rightarrow> u8 list" where
  "rgba_px rgb p = (case pix rgb p of (r, g, b) \<Rightarrow> [r, g, b, 255])"

lemma rgba_px_length [simp]: "length (rgba_px rgb p) = 4"
  by (simp add: rgba_px_def split: prod.split)

lemma rgba_block_written:
  assumes "written t0 (4 * i) (quad (rgba_px rgb)) t" "4 * (i + 8) \<le> length t0" "3 * (i + 8) \<le> length rgb"
  shows "\<exists>t'. rgba_block rgb i t = Some t' \<and> written t0 (4 * (i + 8)) (quad (rgba_px rgb)) t'"
proof -
  have "rgba_block rgb i t = wr_block (4 * i) (concat (map (\<lambda>k. rgba_px rgb (i + k)) [0..<8])) t"
    using vld3_pix [of i 8 rgb] assms(3)
    by (simp add: rgba_block_def rgba_px_def case_prod_beta mult.commute [of i] upt_8)
  then show ?thesis using quad_written [OF _ assms(1,2)] by simp
qed

lemma rgba_single_written:
  assumes "written t0 (4 * i) (quad (rgba_px rgb)) t" "4 * (i + 1) \<le> length t0" "3 * (i + 1) \<le> length rgb"
  shows "\<exists>t'. rgba_single rgb i t = Some t' \<and> written t0 (4 * (i + 1)) (quad (rgba_px rgb)) t'"
proof -
  have "rgba_single rgb i t = wr_block (4 * i) (rgba_px rgb i) t"
    using wr_quad [of "4 * i" _ t] assms(3)
    by (simp add: rgba_single_def rgba_px_def pix_def mult.commute [of i])
  then show ?thesis using quad_written [OF _ assms(1,2)] by simp
qed

text \<open>The RGBA conversion copies the three channels of every pixel, sets alpha to 255, writes
  nothing past the frame and stays inside its buffers.\<close>

lemma rgbToRgba_correct:
  assumes "w * h < 2 ^ 32 - 8" "3 * (w * h) \<le> length rgb" "4 * (w * h) \<le> length rgba"
  shows "\<exists>out. rgbToRgba rgb rgba w h = Some out \<and> length out = length rgba \<and>
    (\<forall>p < w * h. (out ! (4 * p), out ! (4 * p + 1), out ! (4 * p + 2)) = pix rgb p \<and> out ! (4 * p + 3) = 255) \<and>
    (\<forall>i. 4 * (w * h) \<le> i \<longrightarrow> i < length rgba \<longrightarrow> out ! i = rgba ! i)"
proof -
  let ?G = "quad (rgba_px rgb)"
  have "\<exists>i s. for_step 8 (w * h) (rgba_block rgb) 0 rgba = Some (i, s) \<and> written rgba (4 * i) ?G s \<and>
      0 \<le> i \<and> w * h < i + 8 \<and> (i = 0 \<or> i \<le> w * h)"
    by (rule for_step_rule) (use assms rgba_block_written [of rgba _ rgb] in auto)
  then obtain i s where s: "for_step 8 (w * h) (rgba_block rgb) 0 rgba = Some (i, s)" "written rgba (4 * i) ?G s" "i \<le> w * h"
    by auto
  have "\<exists>out. for_range i (w * h) (rgba_single rgb) s = Some out \<and> written rgba (4 * (w * h)) ?G out"
    by (rule for_range_rule) (use s assms rgba_single_written [of rgba _ rgb] in auto)
  then obtain out where out: "rgbToRgba rgb rgba w h = Some out" "written rgba (4 * (w * h)) ?G out"
    using s(1) assms(1) by (auto simp: rgbToRgba_def Let_def for_range_def)
  have "out ! (4 * p + c) = rgba_px rgb p ! c" if "p < w * h" "c < 4" for p c
    using out(2) that assms(3) by (simp add: written_def quad_def)
  from this [of _ 0] this [of _ 1] this [of _ 2] this [of _ 3] show ?thesis
    using out by (auto simp: rgba_px_def written_def pix_def)
qed

section \<open>White balance and gamma\<close>

definition wb_px :: "buf \<Rightarrow> buf \<Rightarrow> int \<Rightarrow> int \<Rightarrow> int \<Rightarrow> nat \<Rightarrow> u8 list" where
  "wb_px rgb lut rG gG bG p =
     (case pix rgb p of (r, g, b) \<Rightarrow>
        [lut ! nat (wb_level (uint r) rG), lut ! nat (wb_level (uint g) gG), lut ! nat (wb_level (uint b) bG), 255])"

lemma wb_px_length [simp]: "length (wb_px rgb lut rG gG bG p) = 4"
  by (simp add: wb_px_def split: prod.split)

lemma wb_level_range: "0 \<le> gain \<Longrightarrow> 0 \<le> wb_level (uint v) gain \<and> wb_level (uint v) gain \<le> 255"
proof -
  assume "0 \<le> gain"
  then have "0 \<le> uint v * gain" by simp
  then have "0 \<le> (uint v * gain + 128) div 256" by simp
  then show ?thesis by (simp add: wb_level_def Let_def)
qed

lemma wb_lane:
  assumes "0 \<le> gain" "gain < 2 ^ 16"
  shows "word_of_int (min 255 (uint (ucast (drop_bit 8 (ucast (ucast (v :: u8) :: u16) * ucast (word_of_int gain :: u16) + 128 :: u32)) :: u16))) =
    (word_of_int (wb_level (uint v) gain) :: u8)"
proof -
  have m: "0 \<le> uint v * gain" "uint v * gain \<le> 255 * 65535"
    using assms u8_range [of v] mult_mono [of "uint v" 255 gain 65535] by simp_all
  have "uint (ucast (ucast v :: u16) * ucast (word_of_int gain :: u16) + 128 :: u32) = uint v * gain + 128"
    using assms m u8_range [of v] by (simp add: uint_simps uint_word_ariths)
  moreover have "(uint v * gain + 128) div 256 < 65536" "0 \<le> (uint v * gain + 128) div 256" using m by simp_all
  ultimately show ?thesis by (simp add: uint_simps wb_level_def Let_def min_def)
qed

lemma wb8_lanes:
  assumes "0 \<le> gain" "gain < 2 ^ 16"
  shows "wb8 gain (map f [0..<8]) = map (\<lambda>i. word_of_int (wb_level (uint (f i)) gain)) [0..<8]"
proof (rule nth_equalityI)
  fix i assume "i < length (wb8 gain (map f [0..<8]))"
  then have "i < 8" by (simp add: wb8_def Let_def vqmovn_u16_def vshrn_n_u32_def vaddq_s32_def vmull_u16_def
        vget_low_def vget_high_def vmovl_u8_def)
  then show "wb8 gain (map f [0..<8]) ! i = map (\<lambda>i. word_of_int (wb_level (uint (f i)) gain)) [0..<8] ! i"
    using wb_lane [OF assms, of "f i"]
    by (cases "i < 4") (simp_all add: wb8_def Let_def vqmovn_u16_def vshrn_n_u32_def vaddq_s32_def vmull_u16_def
        vget_low_def vget_high_def vmovl_u8_def nth_append del: upt_Suc)
qed (simp add: wb8_def Let_def vqmovn_u16_def vshrn_n_u32_def vaddq_s32_def vmull_u16_def
        vget_low_def vget_high_def vmovl_u8_def)

text \<open>The source pixel of pixel \<open>q\<close> of the output.\<close>

definition wb_src :: "bool \<Rightarrow> nat \<Rightarrow> nat \<Rightarrow> nat \<Rightarrow> nat" where
  "wb_src flipV w h q = (if flipV then h - 1 - q div w else q div w) * w + q mod w"

lemma wb_src_at: "x < w \<Longrightarrow> wb_src flipV w h (y * w + x) = (if flipV then h - 1 - y else y) * w + x"
  by (simp add: wb_src_def)

definition gains_ok :: "int \<Rightarrow> int \<Rightarrow> int \<Rightarrow> bool" where
  "gains_ok rG gG bG \<longleftrightarrow> (0 \<le> rG \<and> rG < 2 ^ 16) \<and> (0 \<le> gG \<and> gG < 2 ^ 16) \<and> (0 \<le> bG \<and> bG < 2 ^ 16)"

lemma unat_level: "0 \<le> gain \<Longrightarrow> unat (word_of_int (wb_level (uint v) gain) :: u8) = nat (wb_level (uint v) gain)"
  using wb_level_range [of gain v] by (simp only: unat_eq_nat_uint) (simp add: uint_of_int_mod)

lemma wb_block_eq:
  assumes "gains_ok rG gG bG" "256 \<le> length lut" "3 * (s + x + 8) \<le> length rgb"
  shows "wb_block rgb lut rG gG bG (s * 3) (d * 4) x t =
    wr_block (d * 4 + x * 4) (concat (map (\<lambda>k. wb_px rgb lut rG gG bG (s + x + k)) [0..<8])) t"
proof -
  let ?r = "map (\<lambda>i. fst (pix rgb (s + x + i))) [0..<8]" and ?g = "map (\<lambda>i. fst (snd (pix rgb (s + x + i)))) [0..<8]"
    and ?b = "map (\<lambda>i. snd (snd (pix rgb (s + x + i)))) [0..<8]"
  have m: "map (\<lambda>k. [lut ! unat (wb8 rG ?r ! k), lut ! unat (wb8 gG ?g ! k), lut ! unat (wb8 bG ?b ! k), 255]) [0..<8] =
      map (\<lambda>k. wb_px rgb lut rG gG bG (s + x + k)) [0..<8]"
    using assms(1)
    by (intro map_cong) (simp_all add: wb8_lanes gains_ok_def unat_level wb_px_def case_prod_beta del: upt_Suc)
  have "(s + x) * 3 = s * 3 + x * 3" by simp
  then show ?thesis unfolding m [symmetric]
    using vld3_pix [of "s + x" 8 rgb] assms(2,3) by (simp add: wb_block_def Let_def del: upt_Suc)
qed

lemma wb_single_eq:
  assumes "gains_ok rG gG bG" "256 \<le> length lut" "3 * (s + x) + 2 < length rgb"
  shows "wb_single rgb lut rG gG bG (s * 3) (d * 4) x t =
    wr_block (d * 4 + x * 4) (wb_px rgb lut rG gG bG (s + x)) t"
proof -
  have lut: "lut_at lut (wb_level (uint v) gain) = Some (lut ! nat (wb_level (uint v) gain))" if "0 \<le> gain" for v :: u8 and gain
  proof -
    have "nat (wb_level (uint v) gain) < length lut" using wb_level_range [OF that, of v] assms(2) by linarith
    then show ?thesis using wb_level_range [OF that, of v] by (simp add: lut_at_def)
  qed
  have "(s + x) * 3 = s * 3 + x * 3" by simp
  then show ?thesis
    using smp_pix [OF assms(3)] assms(1) wr_quad [of "d * 4 + x * 4" _ t]
    by (simp add: wb_single_def lut gains_ok_def wb_px_def case_prod_beta Let_def)
qed

lemma wb_row_written:
  fixes rgb lut flipV w h rG gG bG
  defines "Q \<equiv> \<lambda>q. wb_px rgb lut rG gG bG (wb_src flipV w h q)"
  assumes "gains_ok rG gG bG" "256 \<le> length lut" "3 * (w * h) \<le> length rgb" "4 * (w * h) \<le> length t0" "y < h"
    and "written t0 (4 * (y * w)) (quad Q) t"
  shows "\<exists>t'. wb_row rgb lut rG gG bG flipV w h y t = Some t' \<and> written t0 (4 * (Suc y * w)) (quad Q) t'"
proof -
  define s where "s = (if flipV then h - 1 - y else y) * w"
  have "(if flipV then h - 1 - y else y) + 1 \<le> h" using assms(6) by auto
  then have "((if flipV then h - 1 - y else y) + 1) * w \<le> h * w" by (rule mult_le_mono1)
  then have sb: "s + w \<le> w * h" by (simp add: s_def mult.commute [of w] add.commute)
  have yb: "y * w + w \<le> w * h" using mult_le_mono1 [of "Suc y" h w] assms(6) by (simp add: mult.commute [of w])
  have len: "\<And>q. length (Q q) = 4" by (simp add: Q_def)
  have ad: "y * w * 4 + x * 4 = 4 * (y * w + x)" for x by simp
  have Qx: "Q (y * w + x) = wb_px rgb lut rG gG bG (s + x)" if "x < w" for x
    using wb_src_at [OF that, of flipV h y] by (simp add: Q_def s_def)
  have "\<exists>x t'. for_step 8 w (wb_block rgb lut rG gG bG (s * 3) (y * w * 4)) 0 t = Some (x, t') \<and>
      written t0 (4 * (y * w + x)) (quad Q) t' \<and> 0 \<le> x \<and> w < x + 8 \<and> (x = 0 \<or> x \<le> w)"
  proof (rule for_step_rule)
    fix x t assume x: "x + 8 \<le> w" and I: "written t0 (4 * (y * w + x)) (quad Q) t"
    have "concat (map (\<lambda>k. wb_px rgb lut rG gG bG (s + x + k)) [0..<8]) = concat (map (\<lambda>k. Q (y * w + x + k)) [0..<8])"
      using x Qx by (intro arg_cong [where f = concat] map_cong) (simp_all add: add.assoc)
    then show "\<exists>t'. wb_block rgb lut rG gG bG (s * 3) (y * w * 4) x t = Some t' \<and>
        written t0 (4 * (y * w + (x + 8))) (quad Q) t'"
      using wb_block_eq [OF assms(2,3), of s x rgb "y * w" t, unfolded ad] quad_written [OF len I, of 8] x sb yb assms(4,5)
      by (simp add: add.assoc)
  qed (use assms(7) in simp_all)
  then obtain x t1 where x: "for_step 8 w (wb_block rgb lut rG gG bG (s * 3) (y * w * 4)) 0 t = Some (x, t1)"
      "written t0 (4 * (y * w + x)) (quad Q) t1" "x \<le> w" by auto
  have "\<exists>t'. for_range x w (wb_single rgb lut rG gG bG (s * 3) (y * w * 4)) t1 = Some t' \<and>
      written t0 (4 * (y * w + w)) (quad Q) t'"
  proof (rule for_range_rule [where I = "\<lambda>x t. written t0 (4 * (y * w + x)) (quad Q) t"])
    fix x t assume x: "x < w" and I: "written t0 (4 * (y * w + x)) (quad Q) t"
    show "\<exists>t'. wb_single rgb lut rG gG bG (s * 3) (y * w * 4) x t = Some t' \<and>
        written t0 (4 * (y * w + Suc x)) (quad Q) t'"
      using wb_single_eq [OF assms(2,3), of s x rgb "y * w" t, unfolded ad] quad_written [OF len I, of 1] Qx [OF x] x sb yb assms(4,5)
      by simp
  qed (use x in simp_all)
  then show ?thesis using x(1)
    by (auto simp: wb_row_def Let_def s_def for_range_def mult.assoc add.commute)
qed

lemma wb_gamma_result:
  assumes "gains_ok rG gG bG" "256 \<le> length lut" "3 * (w * h) \<le> length rgb" "4 * (w * h) \<le> length rgba"
  shows "\<exists>out. rgbToRgbaWbGamma (Some rgb) (Some rgba) w h rG gG bG (Some lut) flipV = Ret (Some out) \<and>
    length out = length rgba \<and>
    (\<forall>y < h. \<forall>x < w. \<forall>c < 4.
       out ! (4 * (y * w + x) + c) = wb_px rgb lut rG gG bG ((if flipV then h - 1 - y else y) * w + x) ! c)"
proof -
  let ?Q = "\<lambda>q. wb_px rgb lut rG gG bG (wb_src flipV w h q)"
  have "\<exists>out. for_range 0 h (wb_row rgb lut rG gG bG flipV w h) rgba = Some out \<and> written rgba (4 * (h * w)) (quad ?Q) out"
    by (rule for_range_rule) (use wb_row_written [OF assms] in simp_all)
  then obtain out where out: "for_range 0 h (wb_row rgb lut rG gG bG flipV w h) rgba = Some out"
      "written rgba (4 * (h * w)) (quad ?Q) out" by blast
  have "out ! (4 * (y * w + x) + c) = wb_px rgb lut rG gG bG ((if flipV then h - 1 - y else y) * w + x) ! c"
    if "y < h" "x < w" "c < 4" for y x c
  proof -
    have "4 * (y * w + x) + c < 4 * (h * w)" using grid_less(1) [OF that(2,1)] that(3) by (simp add: mult.commute)
    then have "out ! (4 * (y * w + x) + c) = quad ?Q (4 * (y * w + x) + c)"
      using out(2) assms(4) unfolding written_def mult.commute [of w] by simp
    moreover have "(4 * (y * w + x) + c) div 4 = y * w + x" "(4 * (y * w + x) + c) mod 4 = c"
      using that(3) by presburger+
    ultimately show ?thesis unfolding quad_def wb_src_at [OF that(2), of flipV h y, symmetric] by simp
  qed
  then show ?thesis using out by (auto simp: rgbToRgbaWbGamma_def written_length)
qed

text \<open>C11. For Q8.8 gains in [0, 65536) and a table of 256 entries, the merged white balance, gamma and
  flip pass writes for every pixel of every row the table entry of the rounded and clipped gain
  product of its source pixel (of the mirrored row when flipping) and alpha 255; the NEON loop and
  the remainder agree, and no access leaves its buffer.\<close>

theorem rgbToRgbaWbGamma_correct:
  assumes "gains_ok rG gG bG" "256 \<le> length lut" "3 * (w * h) \<le> length rgb" "4 * (w * h) \<le> length rgba"
  shows "\<exists>out. rgbToRgbaWbGamma (Some rgb) (Some rgba) w h rG gG bG (Some lut) flipV = Ret (Some out) \<and>
    length out = length rgba \<and>
    (\<forall>y < h. \<forall>x < w. \<forall>c < 4.
       out ! (4 * (y * w + x) + c) = wb_px rgb lut rG gG bG ((if flipV then h - 1 - y else y) * w + x) ! c)"
  using assms by (rule wb_gamma_result)

theorem rgbToRgbaWbGamma_correct_witness:
  "\<exists>out. rgbToRgbaWbGamma (Some [10, 20, 200]) (Some [0, 0, 0, 0]) 1 1 256 256 512 (Some (map of_nat [0..<256])) True =
     Ret (Some out) \<and> out ! 0 = 10 \<and> out ! 2 = 255"
proof -
  have "gains_ok 256 256 512" by (simp add: gains_ok_def)
  from rgbToRgbaWbGamma_correct [OF this, of "map of_nat [0..<256]" 1 1 "[10, 20, 200]" "[0, 0, 0, 0]" True]
  show ?thesis by (auto simp: wb_px_def pix_def wb_level_def nth_append)
qed

end
