(* ===== verification/Float32.thy ===== *)
theory Float32
  imports Mocha_Prelude
begin

text \<open>
  Single precision arithmetic on the rationals: every operation is the exact one followed by
  rounding to nearest, ties to even, with 24 significant bits and gradual underflow below
  \<open>2 ^ -126\<close>. Infinities and NaN are not represented: overflow past \<open>2 ^ 128\<close> is outside the model,
  and no divisor of the modelled code is zero. Rounding is monotone and keeps representable values,
  which is what the control loops of the pipeline rest on.
\<close>

section \<open>Rounding\<close>

definition round_even :: "rat \<Rightarrow> int" where
  "round_even q =
     (let f = \<lfloor>q\<rfloor>; r = q - of_int f
      in if r < 1 / 2 then f else if 1 / 2 < r then f + 1 else if even f then f else f + 1)"

text \<open>The exponent of a positive value, searched upwards from the least normal one.\<close>

fun find_exp :: "nat \<Rightarrow> int \<Rightarrow> rat \<Rightarrow> int" where
  "find_exp 0 e x = e"
| "find_exp (Suc n) e x = (if x < 2 powi (e + 1) then e else find_exp n (e + 1) x)"

definition fexp :: "rat \<Rightarrow> int" where
  "fexp x = find_exp 253 (-126) x"

definition fround_pos :: "rat \<Rightarrow> rat" where
  "fround_pos x = (let u = 2 powi (fexp x - 23) in of_int (round_even (x / u)) * u)"

definition fround :: "rat \<Rightarrow> rat" where
  "fround x = (if x < 0 then - fround_pos (- x) else fround_pos x)"

definition fadd :: "rat \<Rightarrow> rat \<Rightarrow> rat" where "fadd x y = fround (x + y)"
definition fsub :: "rat \<Rightarrow> rat \<Rightarrow> rat" where "fsub x y = fround (x - y)"
definition fmul :: "rat \<Rightarrow> rat \<Rightarrow> rat" where "fmul x y = fround (x * y)"
definition fdiv :: "rat \<Rightarrow> rat \<Rightarrow> rat" where "fdiv x y = fround (x / y)"
definition fint :: "int \<Rightarrow> rat" where "fint i = fround (of_int i)"

text \<open>The conversion \<open>(int)x\<close> drops the fraction.\<close>

definition ftrunc :: "rat \<Rightarrow> int" where
  "ftrunc x = (if x < 0 then - \<lfloor>- x\<rfloor> else \<lfloor>x\<rfloor>)"

section \<open>Monotonicity\<close>

lemma round_even_bounds: "\<lfloor>q\<rfloor> \<le> round_even q" "round_even q \<le> \<lfloor>q\<rfloor> + 1"
  by (simp_all add: round_even_def Let_def)

lemma round_even_of_int [simp]: "round_even (of_int i) = i"
  by (simp add: round_even_def Let_def)

lemma round_even_numeral [simp]: "round_even (numeral n) = numeral n"
  using round_even_of_int [of "numeral n"] by simp

lemma round_even_mono: "p \<le> q \<Longrightarrow> round_even p \<le> round_even q"
proof -
  assume pq: "p \<le> q"
  show ?thesis
  proof (cases "\<lfloor>p\<rfloor> = \<lfloor>q\<rfloor>")
    case True
    then show ?thesis using pq by (auto simp: round_even_def Let_def)
  next
    case False
    then have "\<lfloor>p\<rfloor> + 1 \<le> \<lfloor>q\<rfloor>" using pq floor_mono [OF pq] by simp
    then show ?thesis using round_even_bounds [of p] round_even_bounds [of q] by linarith
  qed
qed

lemma powi_mono: "i \<le> j \<Longrightarrow> (2 :: rat) powi i \<le> 2 powi j"
  by (rule power_int_increasing) simp_all

lemma find_exp_ge: "e \<le> find_exp n e x"
  by (induction n e x rule: find_exp.induct) (auto intro: order_trans)

lemma find_exp_le: "find_exp n e x \<le> e + int n"
  by (induction n e x rule: find_exp.induct) auto

lemma find_exp_low: "find_exp n e x = e \<or> 2 powi (find_exp n e x) \<le> x"
  by (induction n e x rule: find_exp.induct) auto

lemma find_exp_high: "find_exp n e x = e + int n \<or> x < 2 powi (find_exp n e x + 1)"
  by (induction n e x rule: find_exp.induct) auto

lemma find_exp_mono: "x \<le> y \<Longrightarrow> find_exp n e x \<le> find_exp n e y"
  by (induction n e x rule: find_exp.induct) (auto intro: order_trans [OF _ find_exp_ge])

lemma fexp_mono: "x \<le> y \<Longrightarrow> fexp x \<le> fexp y"
  by (simp add: fexp_def find_exp_mono)

lemma fexp_low: "fexp x = -126 \<or> 2 powi (fexp x) \<le> x"
  unfolding fexp_def by (rule find_exp_low)

lemma fexp_high: "fexp x = 127 \<or> x < 2 powi (fexp x + 1)"
  using find_exp_high [of 253 "-126" x] unfolding fexp_def by simp

lemma powi_24: "(2 :: rat) powi (e + 1) = 2 ^ 24 * 2 powi (e - 23)"
proof -
  have "(2 :: rat) powi (e - 23 + 24) = 2 powi (e - 23) * 2 powi 24" by (rule power_int_add) simp
  then show ?thesis by (simp add: mult.commute add.commute)
qed

lemma powi_23: "(2 :: rat) powi e = 2 ^ 23 * 2 powi (e - 23)"
proof -
  have "(2 :: rat) powi (e - 23 + 23) = 2 powi (e - 23) * 2 powi 23" by (rule power_int_add) simp
  then show ?thesis by (simp add: mult.commute)
qed

lemma fround_pos_le_next: "fexp x < 127 \<Longrightarrow> fround_pos x \<le> 2 powi (fexp x + 1)"
proof -
  assume "fexp x < 127"
  define u :: rat where "u = 2 powi (fexp x - 23)"
  have u: "0 < u" by (simp add: u_def)
  have "x < 2 ^ 24 * u" using fexp_high [of x] \<open>fexp x < 127\<close> by (simp add: powi_24 u_def)
  then have "x / u \<le> 16777216" using u by (simp add: pos_divide_le_eq)
  then have "round_even (x / u) \<le> 16777216" using round_even_mono [of "x / u" 16777216] by simp
  then have "of_int (round_even (x / u)) \<le> (16777216 :: rat)" by (metis of_int_le_iff of_int_numeral)
  then have "of_int (round_even (x / u)) * u \<le> 16777216 * u" using u by (intro mult_right_mono) simp_all
  then show ?thesis unfolding fround_pos_def Let_def u_def [symmetric] powi_24 by simp
qed

lemma fround_pos_ge_exp: "-126 < fexp x \<Longrightarrow> 2 powi (fexp x) \<le> fround_pos x"
proof -
  assume "-126 < fexp x"
  define u :: rat where "u = 2 powi (fexp x - 23)"
  have u: "0 < u" by (simp add: u_def)
  have "2 ^ 23 * u \<le> x" using fexp_low [of x] \<open>-126 < fexp x\<close> by (simp add: powi_23 [of "fexp x"] u_def)
  then have "8388608 \<le> x / u" using u by (simp add: pos_le_divide_eq)
  then have "8388608 \<le> round_even (x / u)" using round_even_mono [of 8388608 "x / u"] by simp
  then have "(8388608 :: rat) \<le> of_int (round_even (x / u))" by (metis of_int_le_iff of_int_numeral)
  then have "8388608 * u \<le> of_int (round_even (x / u)) * u" using u by (intro mult_right_mono) simp_all
  then show ?thesis unfolding fround_pos_def Let_def powi_23 [of "fexp x"] u_def [symmetric] by simp
qed

lemma fround_pos_mono: "x \<le> y \<Longrightarrow> fround_pos x \<le> fround_pos y"
proof -
  assume xy: "x \<le> y"
  show ?thesis
  proof (cases "fexp x = fexp y")
    case True
    have "x / 2 powi (fexp y - 23) \<le> y / 2 powi (fexp y - 23)" using xy by (simp add: divide_right_mono)
    then have "round_even (x / 2 powi (fexp y - 23)) \<le> round_even (y / 2 powi (fexp y - 23))"
      by (rule round_even_mono)
    then show ?thesis using True by (simp add: fround_pos_def Let_def mult_right_mono)
  next
    case False
    then have lt: "fexp x < fexp y" using fexp_mono [OF xy] by simp
    have r: "-126 \<le> fexp x" "fexp y \<le> 127"
      using find_exp_ge [of "-126" 253 x] find_exp_le [of 253 "-126" y] by (simp_all add: fexp_def)
    have "fround_pos x \<le> 2 powi (fexp x + 1)" using lt r by (intro fround_pos_le_next) simp
    also have "\<dots> \<le> 2 powi (fexp y)" using lt by (intro powi_mono) simp
    also have "\<dots> \<le> fround_pos y" using lt r by (intro fround_pos_ge_exp) simp
    finally show ?thesis .
  qed
qed

lemma fround_pos_nonneg: "0 \<le> x \<Longrightarrow> 0 \<le> fround_pos x"
proof -
  assume "0 \<le> x"
  then have "fround_pos 0 \<le> fround_pos x" by (rule fround_pos_mono)
  moreover have "round_even 0 = 0" using round_even_of_int [of 0] by simp
  ultimately show ?thesis by (simp add: fround_pos_def Let_def)
qed

theorem fround_mono: "x \<le> y \<Longrightarrow> fround x \<le> fround y"
  using fround_pos_mono [of x y] fround_pos_mono [of "- y" "- x"] fround_pos_nonneg [of y] fround_pos_nonneg [of "- x"]
  by (auto simp: fround_def)

lemma fround_nonneg: "0 \<le> x \<Longrightarrow> 0 \<le> fround x"
  by (simp add: fround_def fround_pos_nonneg)

text \<open>A value with at most 24 significant bits is its own rounding.\<close>

lemma fround_exact:
  assumes "x = of_int m * 2 powi k" "0 \<le> x" "fexp x - 23 \<le> k"
  shows "fround x = x"
proof -
  define u :: rat where "u = 2 powi (fexp x - 23)"
  define n where "n = nat (k - (fexp x - 23))"
  have u: "u \<noteq> 0" by (simp add: u_def)
  have "k = (fexp x - 23) + int n" using assms(3) by (simp add: n_def)
  then have "(2 :: rat) powi k = u * 2 powi (int n)" 
    unfolding u_def using power_int_add [of "2 :: rat" "fexp x - 23" "int n"] by simp
  then have "(2 :: rat) powi k = u * 2 ^ n" by simp
  then have "x / u = of_int (m * 2 ^ n)" using u assms(1) by simp
  then have "round_even (x / u) = m * 2 ^ n" by (simp only: round_even_of_int)
  then have "fround_pos x = of_int (m * 2 ^ n) * u" by (simp only: fround_pos_def Let_def u_def [symmetric])
  also have "\<dots> = x" using \<open>x / u = of_int (m * 2 ^ n)\<close> u by (metis nonzero_eq_divide_eq)
  finally show ?thesis using assms(2) by (simp add: fround_def)
qed

section \<open>Evaluation\<close>

lemma fexp_eqI:
  assumes "-126 \<le> e" "e < 127" "2 powi e \<le> x" "x < 2 powi (e + 1)"
  shows "fexp x = e"
proof (rule antisym)
  show "fexp x \<le> e"
  proof (rule ccontr)
    assume "\<not> fexp x \<le> e"
    then have "2 powi (fexp x) \<le> x" "2 powi (e + 1) \<le> (2 :: rat) powi (fexp x)"
      using fexp_low [of x] assms(1) by (auto intro: powi_mono)
    then show False using assms(4) by simp
  qed
  show "e \<le> fexp x"
  proof (rule ccontr)
    assume "\<not> e \<le> fexp x"
    then have "x < 2 powi (fexp x + 1)" "(2 :: rat) powi (fexp x + 1) \<le> 2 powi e"
      using fexp_high [of x] assms(2) by (auto intro: powi_mono)
    then show False using assms(3) by simp
  qed
qed

lemma fround_eval:
  assumes "-126 \<le> e" "e \<le> 23" "2 powi e \<le> x" "x < 2 powi (e + 1)"
  shows "fround x = of_int (round_even (x * 2 ^ nat (23 - e))) / 2 ^ nat (23 - e)"
proof -
  have e: "fexp x = e" using assms by (intro fexp_eqI) simp_all
  have "(0 :: rat) < 2 powi e" by simp
  then have "0 < x" using assms(3) by (rule less_le_trans)
  moreover have "(2 :: rat) powi (e - 23) = inverse (2 ^ nat (23 - e))"
    using assms(2) by (simp add: power_int_def power_one_over inverse_eq_divide)
  ultimately show ?thesis by (simp add: fround_def fround_pos_def Let_def e divide_inverse)
qed

lemma round_even_near: "\<bar>q - of_int n\<bar> < 1 / 2 \<Longrightarrow> round_even q = n"
proof -
  assume n: "\<bar>q - of_int n\<bar> < 1 / 2"
  show ?thesis
  proof (cases "of_int n \<le> q")
    case True
    then have "\<lfloor>q\<rfloor> = n" using n by (intro floor_unique) (auto simp: abs_if split: if_splits)
    then show ?thesis using n True by (simp add: round_even_def Let_def)
  next
    case False
    then have "\<lfloor>q\<rfloor> = n - 1" using n by (intro floor_unique) (auto simp: abs_if split: if_splits)
    then show ?thesis using n False by (auto simp: round_even_def Let_def abs_if split: if_splits)
  qed
qed

lemma fround_half [simp]: "fround (1 / 2) = 1 / 2"
  by (subst fround_eval [of "-1"]) simp_all

lemma fround_three [simp]: "fround 3 = 3"
  by (subst fround_eval [of 1]) simp_all

lemma alpha_value: "fround (3 / 10) = 5033165 / 16777216"
  using round_even_near [of "50331648 / 5" 10066330] by (subst fround_eval [of "-2"]) simp_all

lemma one_minus_alpha: "fsub 1 (5033165 / 16777216) = 11744051 / 16777216"
  unfolding fsub_def by (subst fround_eval [of "-1"]) simp_all

text \<open>The weighted mean of two values in [0.5, 3] with the weights \<open>1 - 0.3f\<close> and \<open>0.3f\<close>.\<close>

definition fmix :: "rat \<Rightarrow> rat \<Rightarrow> rat" where
  "fmix g r = (let alpha = fround (3 / 10) in fadd (fmul g (fsub 1 alpha)) (fmul r alpha))"

lemma fmix_mono: "g \<le> g' \<Longrightarrow> r \<le> r' \<Longrightarrow> fmix g r \<le> fmix g' r'"
  unfolding fmix_def Let_def alpha_value one_minus_alpha fadd_def fmul_def
  by (intro fround_mono add_mono mult_right_mono) simp_all

lemma fmix_low: "fmix (1 / 2) (1 / 2) = 1 / 2"
proof -
  have a: "fmul (1 / 2) (11744051 / 16777216) = 11744051 / 33554432"
    unfolding fmul_def by (subst fround_eval [of "-2"]) simp_all
  have b: "fmul (1 / 2) (5033165 / 16777216) = 5033165 / 33554432"
    unfolding fmul_def by (subst fround_eval [of "-3"]) simp_all
  show ?thesis unfolding fmix_def Let_def alpha_value one_minus_alpha a b by (simp add: fadd_def)
qed

lemma fmix_high: "fmix 3 3 = 3"
proof -
  have a: "fmul 3 (11744051 / 16777216) = 8808038 / 4194304"
    unfolding fmul_def using round_even_near [of "35232153 / 4" 8808038] by (subst fround_eval [of 1]) simp_all
  have b: "fmul 3 (5033165 / 16777216) = 15099495 / 16777216"
    unfolding fmul_def by (subst fround_eval [of "-1"]) simp_all
  have c: "fround (50331647 / 16777216) = 3"
    using round_even_near [of "50331647 / 4" 12582912] by (subst fround_eval [of 1]) simp_all
  show ?thesis unfolding fmix_def Let_def alpha_value one_minus_alpha a b using c by (simp add: fadd_def)
qed

lemma fmix_range: "1 / 2 \<le> g \<Longrightarrow> g \<le> 3 \<Longrightarrow> 1 / 2 \<le> r \<Longrightarrow> r \<le> 3 \<Longrightarrow> 1 / 2 \<le> fmix g r \<and> fmix g r \<le> 3"
  using fmix_mono [of "1 / 2" g "1 / 2" r] fmix_mono [of g 3 r 3] fmix_low fmix_high by simp

end
