(* ===== verification/Pipeline.thy ===== *)
theory Pipeline
  imports ColorConv Float32
begin

text \<open>
  The capture pipeline (\<open>camera/CameraPipeline.cpp\<close>): the V4L2 device and its state machine, the
  mapped buffers, frame capture with its retry loop, exposure and white balance control, focus and
  the contrast autofocus scan. The video driver is a parameter that answers every system call from
  the calls made before it; a component's state carries that transcript. A null dereference or an
  access outside a buffer is \<open>None\<close>.
\<close>

section \<open>The driver\<close>

datatype control = Exposure | Gain | FocusAbsolute

datatype memory = MMAP | USERPTR

datatype vcall =
    VOpen string
  | VClose int
  | VQuerycap int
  | VSetCtrl int control int
  | VGetCtrl int control
  | VSetFmt int u32 u32 u32
  | VReqBufs int nat
  | VQueryBuf int nat
  | VMmap int nat nat
  | VMunmap nat nat
  | VQBuf int nat memory
  | VDQBuf int memory
  | VStreamOn int
  | VStreamOff int
  | VPoll int nat
  | VUsleep nat

text \<open>An answer: the return value, \<open>errno\<close>, and the fields of the argument the driver fills in.\<close>

record vans =
  r_ret :: int
  r_errno :: int
  r_capture :: bool
  r_streaming :: bool
  r_value :: int
  r_count :: nat
  r_length :: nat
  r_offset :: nat
  r_addr :: nat
  r_pollin :: bool
  r_index :: nat
  r_bytesused :: nat
  r_data :: buf

type_synonym driver = "(vcall, vans) kernel"

section \<open>State\<close>

datatype PipelineState = PIPELINE_CLOSED | PIPELINE_OPENED | PIPELINE_STREAMING

record PipelineConfig =
  cfg_width :: u32
  cfg_height :: u32
  cfg_pixelFormat :: u32
  cfg_bayerPattern :: u8
  cfg_offset_x :: u8
  cfg_offset_y :: u8
  cfg_flipV :: bool
  cfg_enableISP :: bool
  cfg_blackLevel :: u16
  cfg_wbGain :: "rat list"
  cfg_gamma :: rat
  cfg_enableAE :: bool
  cfg_enableAWB :: bool
  cfg_targetLuma :: rat
  cfg_digitalGain :: rat

record V4l2Buffer =
  vb_start :: "nat option"
  vb_length :: nat
  vb_allocated :: bool

record pipeline =
  mFd :: int
  mCameraId :: int
  mState :: PipelineState
  mStreaming :: bool
  mDemosaic :: "demosaic option"
  mColorConv :: "colorconv option"
  mConfig :: PipelineConfig
  mBuffers :: "V4l2Buffer list"
  mBufferCount :: nat
  mRgbBuffer :: "buf option"
  mRgbBufferSize :: u32
  mCurrentExposure :: int
  mCurrentGain :: int
  mAwbGains :: "rat list"
  mHasAwbInit :: bool
  mGammaLut :: buf
  mLastGamma :: rat
  mFocusPosition :: int
  mAfState :: int
  calls :: "vcall list"

definition ask :: "driver \<Rightarrow> vcall \<Rightarrow> pipeline \<Rightarrow> vans \<times> pipeline" where
  "ask K c p = (K (calls p) c, p\<lparr>calls := calls p @ [c]\<rparr>)"

definition no_buffer :: V4l2Buffer where
  "no_buffer = \<lparr> vb_start = None, vb_length = 0, vb_allocated = False \<rparr>"

definition CameraPipeline_new :: "PipelineConfig \<Rightarrow> int \<Rightarrow> buf \<Rightarrow> vcall list \<Rightarrow> pipeline" where
  "CameraPipeline_new cfg0 id0 lut0 h =
    \<lparr> mFd = -1, mCameraId = id0, mState = PIPELINE_CLOSED, mStreaming = False, mDemosaic = None, mColorConv = None,
      mConfig = cfg0, mBuffers = replicate 4 no_buffer, mBufferCount = 0, mRgbBuffer = None, mRgbBufferSize = 0,
      mCurrentExposure = 2400, mCurrentGain = 150, mAwbGains = [1, 1, 1, 1], mHasAwbInit = False,
      mGammaLut = lut0, mLastGamma = 0, mFocusPosition = 0, mAfState = 0, calls = h \<rparr>"

section \<open>Opening and closing\<close>

definition initFocuser :: "pipeline \<Rightarrow> pipeline" where
  "initFocuser p = p\<lparr>mFocusPosition := -1\<rparr>"

definition pl_open :: "driver \<Rightarrow> int \<Rightarrow> pipeline \<Rightarrow> int \<times> pipeline" where
  "pl_open K cameraId p =
     (if mState p \<noteq> PIPELINE_CLOSED then (-EBUSY, p)
      else
        let p = p\<lparr>mCameraId := cameraId\<rparr>;
            (r, p) = ask K (VOpen (if cameraId = 0 then ''/dev/video0'' else ''/dev/video1'')) p;
            p = p\<lparr>mFd := r_ret r\<rparr>
        in if mFd p < 0 then (-ENODEV, p)
           else
             let (r, p) = ask K (VQuerycap (mFd p)) p in
             if r_ret r < 0 \<or> \<not> r_capture r \<or> \<not> r_streaming r then
               let (_, p) = ask K (VClose (mFd p)) p in (-ENODEV, p\<lparr>mFd := -1\<rparr>)
             else
               let p = (if cameraId = 0 then initFocuser p else p)
               in (0, p\<lparr>mState := PIPELINE_OPENED\<rparr>))"

text \<open>
  The loops that unmap the first \<open>n\<close> buffers. \<open>stopStreaming\<close> tests only the pointer, \<open>close\<close>
  also the flag, and the error paths of \<open>configure\<close> clear pointer and flag in any case.
\<close>

definition unmap_one :: "driver \<Rightarrow> nat \<Rightarrow> pipeline \<Rightarrow> pipeline" where
  "unmap_one K i p =
     (case vb_start (mBuffers p ! i) of
        None \<Rightarrow> p
      | Some a \<Rightarrow>
          let (_, p') = ask K (VMunmap a (vb_length (mBuffers p ! i))) p
          in p'\<lparr>mBuffers := (mBuffers p')[i := (mBuffers p' ! i)\<lparr>vb_start := None, vb_allocated := False\<rparr>]\<rparr>)"

fun unmap_first :: "driver \<Rightarrow> nat \<Rightarrow> pipeline \<Rightarrow> pipeline" where
  "unmap_first K 0 p = p"
| "unmap_first K (Suc n) p = unmap_one K n (unmap_first K n p)"

fun unmap_allocated :: "driver \<Rightarrow> nat \<Rightarrow> pipeline \<Rightarrow> pipeline" where
  "unmap_allocated K 0 p = p"
| "unmap_allocated K (Suc n) p =
     (let p = unmap_allocated K n p in if vb_allocated (mBuffers p ! n) then unmap_one K n p else p)"

definition release_one :: "driver \<Rightarrow> nat \<Rightarrow> pipeline \<Rightarrow> pipeline" where
  "release_one K i p =
     (let p = (case vb_start (mBuffers p ! i) of
                 None \<Rightarrow> p
               | Some a \<Rightarrow> snd (ask K (VMunmap a (vb_length (mBuffers p ! i))) p))
      in p\<lparr>mBuffers := (mBuffers p)[i := (mBuffers p ! i)\<lparr>vb_start := None, vb_allocated := False\<rparr>]\<rparr>)"

fun release_first :: "driver \<Rightarrow> nat \<Rightarrow> pipeline \<Rightarrow> pipeline" where
  "release_first K 0 p = p"
| "release_first K (Suc n) p = release_one K n (release_first K n p)"

definition stopStreaming :: "driver \<Rightarrow> pipeline \<Rightarrow> int \<times> pipeline" where
  "stopStreaming K p =
     (if \<not> mStreaming p then (0, p)
      else
        let (_, p) = ask K (VStreamOff (mFd p)) p;
            p = unmap_first K (mBufferCount p) p
        in (0, p\<lparr>mBufferCount := 0, mStreaming := False, mState := PIPELINE_OPENED\<rparr>))"

definition pl_close :: "driver \<Rightarrow> pipeline \<Rightarrow> int \<times> pipeline" where
  "pl_close K p =
     (let (_, p) = stopStreaming K p;
          p = unmap_allocated K (mBufferCount p) p;
          p = p\<lparr>mBufferCount := 0\<rparr>;
          p = (if mRgbBuffer p \<noteq> None then p\<lparr>mRgbBuffer := None, mRgbBufferSize := 0\<rparr> else p);
          p = (if 0 \<le> mFd p then (let (_, p) = ask K (VClose (mFd p)) p in p\<lparr>mFd := -1\<rparr>) else p)
      in (0, p\<lparr>mState := PIPELINE_CLOSED\<rparr>))"

section \<open>Exposure, gain and focus controls\<close>

definition setExposure :: "driver \<Rightarrow> int \<Rightarrow> pipeline \<Rightarrow> int \<times> pipeline" where
  "setExposure K e p =
     (let (r, p) = ask K (VSetCtrl (mFd p) Exposure e) p
      in (r_ret r, if r_ret r = 0 then p\<lparr>mCurrentExposure := e\<rparr> else p))"

definition setGain :: "driver \<Rightarrow> int \<Rightarrow> pipeline \<Rightarrow> int \<times> pipeline" where
  "setGain K g p =
     (let (r, p) = ask K (VSetCtrl (mFd p) Gain g) p
      in (r_ret r, if r_ret r = 0 then p\<lparr>mCurrentGain := g\<rparr> else p))"

definition getExposure :: "driver \<Rightarrow> pipeline \<Rightarrow> int \<times> pipeline" where
  "getExposure K p =
     (let (r, p) = ask K (VGetCtrl (mFd p) Exposure) p
      in if r_ret r = 0 then (r_value r, p\<lparr>mCurrentExposure := r_value r\<rparr>) else (mCurrentExposure p, p))"

definition getGain :: "driver \<Rightarrow> pipeline \<Rightarrow> int \<times> pipeline" where
  "getGain K p =
     (let (r, p) = ask K (VGetCtrl (mFd p) Gain) p
      in if r_ret r = 0 then (r_value r, p\<lparr>mCurrentGain := r_value r\<rparr>) else (mCurrentGain p, p))"

definition setFocus :: "driver \<Rightarrow> int \<Rightarrow> pipeline \<Rightarrow> int \<times> pipeline" where
  "setFocus K position p =
     (let position = (if position < 0 then 0 else position);
          position = (if position > 1023 then 1023 else position);
          (r, p) = ask K (VSetCtrl (mFd p) FocusAbsolute position) p
      in (r_ret r, if r_ret r = 0 then p\<lparr>mFocusPosition := position\<rparr> else p))"

section \<open>Configuration\<close>

text \<open>
  Mapping the buffers \<open>i, i + 1, \<dots>\<close>; the array has four elements and the source indexes it with
  the count the driver returned. \<open>Inl\<close> is the error to return.
\<close>

fun map_buffers :: "driver \<Rightarrow> nat \<Rightarrow> nat \<Rightarrow> pipeline \<Rightarrow> ((int + unit) \<times> pipeline) option" where
  "map_buffers K 0 i p = Some (Inr (), p)"
| "map_buffers K (Suc n) i p =
     (let (r, p) = ask K (VQueryBuf (mFd p) i) p in
      if r_ret r < 0 then
        Some (Inl (- r_errno r), (release_first K i p)\<lparr>mBufferCount := 0\<rparr>)
      else if length (mBuffers p) \<le> i then None
      else
        let p = p\<lparr>mBuffers := (mBuffers p)[i := (mBuffers p ! i)\<lparr>vb_length := r_length r\<rparr>]\<rparr>;
            (m, p) = ask K (VMmap (mFd p) (r_length r) (r_offset r)) p
        in if r_ret m < 0 then
             let p = p\<lparr>mBuffers := (mBuffers p)[i := (mBuffers p ! i)\<lparr>vb_start := None\<rparr>]\<rparr>
             in Some (Inl (- ENOMEM), (release_first K i p)\<lparr>mBufferCount := 0\<rparr>)
           else
             map_buffers K n (Suc i)
               (p\<lparr>mBuffers := (mBuffers p)[i := (mBuffers p ! i)\<lparr>vb_start := Some (r_addr m), vb_allocated := True\<rparr>]\<rparr>))"

text \<open>The entry \<open>i\<close> of the gamma table; \<open>powf\<close> is the C library's.\<close>

definition gamma_entry :: "(rat \<Rightarrow> rat \<Rightarrow> rat) \<Rightarrow> rat \<Rightarrow> nat \<Rightarrow> u8" where
  "gamma_entry powf g i =
     word_of_int (ftrunc (fadd (fmul (powf (fdiv (of_nat i) 255) g) 255) (1 / 2)))"

definition gamma_lut :: "(rat \<Rightarrow> rat \<Rightarrow> rat) \<Rightarrow> rat \<Rightarrow> buf" where
  "gamma_lut powf g = map (gamma_entry powf g) [0..<256]"

definition configure_isp :: "(nat \<Rightarrow> u8) \<Rightarrow> PipelineConfig \<Rightarrow> pipeline \<Rightarrow> (int \<times> pipeline) option" where
  "configure_isp junk config p =
     (let dp = \<lparr> width = ucast (cfg_width config), height = ucast (cfg_height config),
                 bayerPattern = cfg_bayerPattern config, offset_x = cfg_offset_x config,
                 offset_y = cfg_offset_y config, blackLevel = cfg_blackLevel config \<rparr>
      in case initialize True junk dp DemosaicNEON_new of
           Crash \<Rightarrow> None
         | Ret (ret, d) \<Rightarrow>
             let p = p\<lparr>mDemosaic := Some d\<rparr> in
             if ret \<noteq> 0 then Some (ret, p)
             else
               let (ret, c) = cc_initialize (ucast (cfg_width config)) (ucast (cfg_height config)) ColorConvNEON_new;
                   p = p\<lparr>mColorConv := Some c\<rparr>
               in if ret \<noteq> 0 then Some (ret, p)
                  else
                    let size = cfg_width config * cfg_height config * 3
                    in Some (0, p\<lparr>mRgbBufferSize := size, mRgbBuffer := Some (map junk [0..<unat size])\<rparr>))"

text \<open>What follows the mapping of the buffers: the software pipeline and the gamma table.\<close>

definition configure_rest :: "(rat \<Rightarrow> rat \<Rightarrow> rat) \<Rightarrow> (nat \<Rightarrow> u8) \<Rightarrow> PipelineConfig \<Rightarrow> pipeline \<Rightarrow> (int \<times> pipeline) option" where
  "configure_rest powf junk config p =
     (case (if cfg_enableISP config then configure_isp junk config p else Some (0, p)) of
        None \<Rightarrow> None
      | Some (ret, p) \<Rightarrow>
          if ret \<noteq> 0 then Some (ret, p)
          else
            let p = p\<lparr>mHasAwbInit := False\<rparr>
            in Some (0, if mLastGamma p \<noteq> cfg_gamma config
                        then p\<lparr>mGammaLut := gamma_lut powf (cfg_gamma config), mLastGamma := cfg_gamma config\<rparr>
                        else p))"

definition configure :: "driver \<Rightarrow> (rat \<Rightarrow> rat \<Rightarrow> rat) \<Rightarrow> (nat \<Rightarrow> u8) \<Rightarrow> PipelineConfig \<Rightarrow> pipeline \<Rightarrow>
    (int \<times> pipeline) option" where
  "configure K powf junk config p =
     (if mState p = PIPELINE_STREAMING then Some (-EBUSY, p)
      else
        let p = p\<lparr>mConfig := config\<rparr> in
        if mFd p < 0 then Some (-ENODEV, p)
        else
          let (r, p) = ask K (VSetFmt (mFd p) (cfg_width config) (cfg_height config) (cfg_pixelFormat config)) p in
          if r_ret r < 0 then Some (- r_errno r, p)
          else
            let (r, p) = ask K (VReqBufs (mFd p) 2) p in
            if r_ret r < 0 then Some (- r_errno r, p)
            else if r_count r < 2 then Some (-ENOMEM, p)
            else
              case map_buffers K (r_count r) 0 (p\<lparr>mBufferCount := r_count r\<rparr>) of
                None \<Rightarrow> None
              | Some (Inl e, p) \<Rightarrow> Some (e, p)
              | Some (Inr _, p) \<Rightarrow> configure_rest powf junk config p)"

section \<open>Streaming\<close>

fun queue_buffers :: "driver \<Rightarrow> nat \<Rightarrow> nat \<Rightarrow> pipeline \<Rightarrow> (int + unit) \<times> pipeline" where
  "queue_buffers K 0 i p = (Inr (), p)"
| "queue_buffers K (Suc n) i p =
     (let (r, p) = ask K (VQBuf (mFd p) i MMAP) p
      in if r_ret r < 0 then (Inl (- r_errno r), p) else queue_buffers K n (Suc i) p)"

definition startStreaming :: "driver \<Rightarrow> pipeline \<Rightarrow> int \<times> pipeline" where
  "startStreaming K p =
     (if mState p \<noteq> PIPELINE_OPENED then (-EINVAL, p)
      else
        case queue_buffers K (mBufferCount p) 0 p of
          (Inl e, p) \<Rightarrow> (e, p)
        | (Inr _, p) \<Rightarrow>
            let (r, p) = ask K (VStreamOn (mFd p)) p in
            if r_ret r < 0 then (- r_errno r, p)
            else
              let (_, p) = setExposure K (mCurrentExposure p) p;
                  (_, p) = setGain K (mCurrentGain p) p
              in (0, p\<lparr>mStreaming := True, mState := PIPELINE_STREAMING\<rparr>))"

section \<open>Exposure and white balance control\<close>

text \<open>\<open>for (z = 0; z < n; z += k)\<close> runs while \<open>z + k \<le> n + k - 1\<close>.\<close>

definition ae_sample :: "buf \<Rightarrow> nat \<Rightarrow> nat \<Rightarrow> nat \<Rightarrow> nat \<times> nat \<Rightarrow> (nat \<times> nat) option" where
  "ae_sample rgb w y x s =
     (case s of (sm, count) \<Rightarrow>
        do { let off = (y * w + x) * 3;
             r \<leftarrow> smp rgb off; g \<leftarrow> smp rgb (off + 1); b \<leftarrow> smp rgb (off + 2);
             Some (sm + nat ((r * 77 + g * 150 + b * 29) div 256), count + 1) })"

definition ae_sum :: "buf \<Rightarrow> nat \<Rightarrow> nat \<Rightarrow> (nat \<times> nat) option" where
  "ae_sum rgb w h =
     map_option snd (for_step 8 (h + 7) (\<lambda>y s. map_option snd (for_step 8 (w + 7) (ae_sample rgb w y) 0 s)) 0 (0, 0))"

definition ae_ratio :: "rat \<Rightarrow> rat \<Rightarrow> rat" where
  "ae_ratio target avgLuma =
     (let ratio = fdiv target (if avgLuma > fround (1 / 1000) then avgLuma else fround (1 / 1000))
      in if ratio < 1 / 2 then 1 / 2 else if ratio > 4 then 4 else ratio)"

text \<open>The exposure and gain the control loop asks for, from the current ones and the ratio.\<close>

definition ae_target :: "int \<Rightarrow> int \<Rightarrow> rat \<Rightarrow> int \<times> int" where
  "ae_target exposure gain ratio =
     (let newExp = ftrunc (fmul (fint exposure) ratio);
          newGain = gain;
          (newExp, newGain) =
            (if newExp > 2490 then (2490, ftrunc (fmul (fint gain) (fdiv (fint newExp) 2490)))
             else if newGain > 150 \<and> newExp < 2490 then
               (let e = ftrunc (fmul (fint newExp) (fdiv (fint newGain) 150)) in (if e > 2490 then 2490 else e, 150))
             else (newExp, newGain));
          newExp = (if newExp < 10 then 10 else newExp);
          newGain = (if newGain > 180 then 180 else newGain);
          newGain = (if newGain < 1 then 1 else newGain)
      in (newExp, newGain))"

definition doAutoExposure :: "driver \<Rightarrow> buf option \<Rightarrow> pipeline \<Rightarrow> pipeline option" where
  "doAutoExposure K rgbBuffer p =
     (case rgbBuffer of
        None \<Rightarrow> Some p
      | Some rgb \<Rightarrow>
          if \<not> cfg_enableAE (mConfig p) then Some p
          else
            do { (sm, count) \<leftarrow> ae_sum rgb (unat (cfg_width (mConfig p))) (unat (cfg_height (mConfig p)));
                 if count = 0 then Some p
                 else
                   let avgLuma = fdiv (fdiv (fint (int sm)) (fint (int count))) 255;
                       ratio = ae_ratio (cfg_targetLuma (mConfig p)) avgLuma;
                       (newExp, newGain) = ae_target (mCurrentExposure p) (mCurrentGain p) ratio;
                       p' = (if newGain \<noteq> mCurrentGain p then snd (setGain K newGain p) else p);
                       p' = (if newExp \<noteq> mCurrentExposure p then snd (setExposure K newExp p') else p')
                   in Some p' })"

definition awb_sample :: "buf \<Rightarrow> nat \<Rightarrow> nat \<Rightarrow> nat \<Rightarrow> nat \<times> nat \<times> nat \<times> nat \<Rightarrow> (nat \<times> nat \<times> nat \<times> nat) option" where
  "awb_sample rgb w y x s =
     (case s of (sR, sG, sB, n) \<Rightarrow>
        do { let off = (y * w + x) * 3;
             r \<leftarrow> rd rgb off; g \<leftarrow> rd rgb (off + 1); b \<leftarrow> rd rgb (off + 2);
             Some (sR + unat r, sG + unat g, sB + unat b, n + 1) })"

definition awb_sum :: "buf \<Rightarrow> nat \<Rightarrow> nat \<Rightarrow> (nat \<times> nat \<times> nat \<times> nat) option" where
  "awb_sum rgb w h =
     map_option snd (for_step 16 (h + 15)
       (\<lambda>y s. map_option snd (for_step 16 (w + 15) (awb_sample rgb w y) 0 s)) 0 (0, 0, 0, 0))"

definition awb_clamp :: "rat \<Rightarrow> rat" where
  "awb_clamp g = (if g < 1 / 2 then 1 / 2 else if g > 3 then 3 else g)"

definition doAutoWhiteBalance :: "buf option \<Rightarrow> pipeline \<Rightarrow> pipeline option" where
  "doAutoWhiteBalance rgbBuffer p =
     (case rgbBuffer of
        None \<Rightarrow> Some p
      | Some rgb \<Rightarrow>
          if \<not> cfg_enableAWB (mConfig p) then Some p
          else
            do { (sumR, sumG, sumB, pixelCount) \<leftarrow> awb_sum rgb (unat (cfg_width (mConfig p))) (unat (cfg_height (mConfig p)));
                 if pixelCount < 100 then Some p
                 else
                   let avgR = fdiv (fint (int sumR)) (fint (int pixelCount));
                       avgG = fdiv (fint (int sumG)) (fint (int pixelCount));
                       avgB = fdiv (fint (int sumB)) (fint (int pixelCount))
                   in if avgR < 5 \<or> avgG < 5 \<or> avgB < 5 then Some p
                      else
                        let rGain = awb_clamp (fdiv avgG avgR); bGain = awb_clamp (fdiv avgG avgB)
                        in Some (if \<not> mHasAwbInit p
                                 then p\<lparr>mAwbGains := [rGain, 1, bGain, 1], mHasAwbInit := True\<rparr>
                                 else p\<lparr>mAwbGains := [fmix (mAwbGains p ! 0) rGain, 1, fmix (mAwbGains p ! 2) bGain, 1]\<rparr>) })"

section \<open>The frame\<close>

definition apply_lut :: "buf \<Rightarrow> nat \<Rightarrow> buf \<Rightarrow> buf option" where
  "apply_lut lut i rgb = do { v \<leftarrow> rd rgb i; g \<leftarrow> rd lut (unat v); wr i g rgb }"

definition applyGamma :: "(rat \<Rightarrow> rat \<Rightarrow> rat) \<Rightarrow> buf \<Rightarrow> nat \<Rightarrow> nat \<Rightarrow> rat \<Rightarrow> buf option" where
  "applyGamma powf rgb w h g = for_range 0 (w * h * 3) (apply_lut (gamma_lut powf g)) rgb"

definition flip_rows :: "nat \<Rightarrow> nat \<Rightarrow> nat \<Rightarrow> buf \<Rightarrow> buf option" where
  "flip_rows rowSize h y b =
     do { let topOff = y * rowSize; let botOff = (h - 1 - y) * rowSize;
          tmp \<leftarrow> rd_block b topOff rowSize;
          bot \<leftarrow> rd_block b botOff rowSize;
          b \<leftarrow> wr_block topOff bot b;
          wr_block botOff tmp b }"

definition flipVertical :: "buf \<Rightarrow> nat \<Rightarrow> nat \<Rightarrow> nat \<Rightarrow> buf option" where
  "flipVertical b w h bpp = for_range 0 (h div 2) (flip_rows (w * bpp) h) b"

text \<open>A channel times a gain, clipped above at 255.\<close>

definition gained :: "u8 \<Rightarrow> rat \<Rightarrow> u8" where
  "gained v g = (let r = ftrunc (fmul (of_int (uint v)) g) in if r > 255 then 255 else word_of_int r)"

definition gain_px :: "rat \<Rightarrow> rat \<Rightarrow> rat \<Rightarrow> nat \<Rightarrow> buf \<Rightarrow> buf option" where
  "gain_px rG gG bG i rgb =
     do { let off = i * 3;
          r \<leftarrow> rd rgb off; g \<leftarrow> rd rgb (off + 1); b \<leftarrow> rd rgb (off + 2);
          rgb \<leftarrow> wr off (gained r rG) rgb;
          rgb \<leftarrow> wr (off + 1) (gained g gG) rgb;
          wr (off + 2) (gained b bG) rgb }"

definition HAL_PIXEL_FORMAT_RGBA_8888 :: u32 where "HAL_PIXEL_FORMAT_RGBA_8888 = 1"
definition HAL_PIXEL_FORMAT_BLOB :: u32 where "HAL_PIXEL_FORMAT_BLOB = 0x21"
definition HAL_PIXEL_FORMAT_IMPLEMENTATION_DEFINED :: u32 where "HAL_PIXEL_FORMAT_IMPLEMENTATION_DEFINED = 0x22"
definition HAL_PIXEL_FORMAT_YCBCR_420_888 :: u32 where "HAL_PIXEL_FORMAT_YCBCR_420_888 = 0x23"

lemmas pixel_formats = HAL_PIXEL_FORMAT_RGBA_8888_def HAL_PIXEL_FORMAT_BLOB_def
  HAL_PIXEL_FORMAT_IMPLEMENTATION_DEFINED_def HAL_PIXEL_FORMAT_YCBCR_420_888_def

definition awb_gain :: "pipeline \<Rightarrow> nat \<Rightarrow> rat" where
  "awb_gain p i = (if cfg_enableAWB (mConfig p) then mAwbGains p ! i else cfg_wbGain (mConfig p) ! i)"

definition gain_q8 :: "rat \<Rightarrow> int" where
  "gain_q8 g = ftrunc (fadd (fmul g 256) (1 / 2))"

fun of_outcome :: "'a outcome \<Rightarrow> 'a option" where
  "of_outcome (Ret x) = Some x"
| "of_outcome Crash = None"

text \<open>White balance and gamma in place, unless all the gains are 1.\<close>

definition balance :: "(rat \<Rightarrow> rat \<Rightarrow> rat) \<Rightarrow> rat \<Rightarrow> rat \<Rightarrow> rat \<Rightarrow> PipelineConfig \<Rightarrow> buf \<Rightarrow> buf option" where
  "balance powf rG gG bG cfg rgb =
     (let w = unat (cfg_width cfg); h = unat (cfg_height cfg) in
      do { rgb \<leftarrow> (if rG \<noteq> 1 \<or> gG \<noteq> 1 \<or> bG \<noteq> 1 then for_range 0 (w * h) (gain_px rG gG bG) rgb else Some rgb);
           applyGamma powf rgb w h (cfg_gamma cfg) })"

text \<open>
  The first half of the frame, which the capture and the autofocus measurement share: demosaic,
  then the exposure and the white balance loops on the result.
\<close>

definition isp_update :: "driver \<Rightarrow> buf option \<Rightarrow> demosaic \<Rightarrow> pipeline \<Rightarrow> pipeline option" where
  "isp_update K bayerData d p =
     do { (d, rgbb) \<leftarrow> of_outcome (process d bayerData (mRgbBuffer p));
          let p = p\<lparr>mDemosaic := Some d, mRgbBuffer := rgbb\<rparr>;
          p \<leftarrow> (if cfg_enableAE (mConfig p) then doAutoExposure K (mRgbBuffer p) p else Some p);
          if cfg_enableAWB (mConfig p) then doAutoWhiteBalance (mRgbBuffer p) p else Some p }"

text \<open>The second half: gains, and the conversion to the output format.\<close>

definition isp_output :: "(rat \<Rightarrow> rat \<Rightarrow> rat) \<Rightarrow> colorconv \<Rightarrow> buf \<Rightarrow> u32 \<Rightarrow> pipeline \<Rightarrow> (int \<times> buf \<times> pipeline) option" where
  "isp_output powf c output outputFormat p =
     (let cfg = mConfig p;
          w = unat (cfg_width cfg); h = unat (cfg_height cfg);
          rG = fmul (awb_gain p 0) (cfg_digitalGain cfg);
          gG = fmul (awb_gain p 1) (cfg_digitalGain cfg);
          bG = fmul (awb_gain p 2) (cfg_digitalGain cfg)
      in
      if outputFormat = HAL_PIXEL_FORMAT_YCBCR_420_888 then
        do { rgb \<leftarrow> mRgbBuffer p;
             rgb \<leftarrow> balance powf rG gG bG cfg rgb;
             if length output < w * h then None
             else
               do { (yp, uvp) \<leftarrow> of_outcome (rgbToNv12 c (Some rgb) (Some (take (w * h) output)) (Some (drop (w * h) output)));
                    yp \<leftarrow> yp; uvp \<leftarrow> uvp;
                    Some (0, yp @ uvp, p\<lparr>mRgbBuffer := Some rgb\<rparr>) } }
      else if outputFormat = HAL_PIXEL_FORMAT_RGBA_8888 \<or>
              outputFormat = HAL_PIXEL_FORMAT_IMPLEMENTATION_DEFINED then
        do { out \<leftarrow> of_outcome (rgbToRgbaWbGamma (mRgbBuffer p) (Some output) w h
               (gain_q8 rG) (gain_q8 gG) (gain_q8 bG) (Some (mGammaLut p)) (cfg_flipV cfg));
             out \<leftarrow> out;
             Some (0, out, p) }
      else
        do { rgb \<leftarrow> mRgbBuffer p;
             rgb \<leftarrow> balance powf rG gG bG cfg rgb;
             vs \<leftarrow> rd_block rgb 0 (unat (mRgbBufferSize p));
             out \<leftarrow> wr_block 0 vs output;
             Some (0, out, p\<lparr>mRgbBuffer := Some rgb\<rparr>) })"

definition processBayerToYuv :: "driver \<Rightarrow> (rat \<Rightarrow> rat \<Rightarrow> rat) \<Rightarrow> buf option \<Rightarrow> buf \<Rightarrow> u32 \<Rightarrow> pipeline \<Rightarrow>
    (int \<times> buf \<times> pipeline) option" where
  "processBayerToYuv K powf bayerData output outputFormat p =
     (case (bayerData, mDemosaic p, mColorConv p) of
        (Some bayer, Some d, Some c) \<Rightarrow>
          do { p \<leftarrow> isp_update K (Some bayer) d p; isp_output powf c output outputFormat p }
      | _ \<Rightarrow> Some (-EINVAL, output, p))"

text \<open>The poll loop of \<open>captureFrame\<close>: \<open>n\<close> is the number of attempts left of six.\<close>

fun poll_retry :: "driver \<Rightarrow> nat \<Rightarrow> pipeline \<Rightarrow> (int + unit) \<times> pipeline" where
  "poll_retry K 0 p = (Inl (-EAGAIN), p)"
| "poll_retry K (Suc n) p =
     (let (r, p) = ask K (VPoll (mFd p) 300) p in
      if r_ret r < 0 then (Inl (- r_errno r), p)
      else if r_ret r = 0 then poll_retry K n p
      else if \<not> r_pollin r then (Inl (-EAGAIN), p)
      else (Inr (), p))"

text \<open>The bytes of a dequeued buffer: the mapping must exist.\<close>

definition frame_of :: "pipeline \<Rightarrow> vans \<Rightarrow> buf option" where
  "frame_of p r = (case vb_start (mBuffers p ! r_index r) of None \<Rightarrow> None | Some _ \<Rightarrow> Some (r_data r))"

text \<open>The dequeued buffer \<open>r\<close> is converted or copied, and given back to the driver.\<close>

definition deliver :: "driver \<Rightarrow> (rat \<Rightarrow> rat \<Rightarrow> rat) \<Rightarrow> buf \<Rightarrow> u32 \<Rightarrow> vans \<Rightarrow> pipeline \<Rightarrow> (int \<times> buf \<times> pipeline) option" where
  "deliver K powf output outputFormat r p =
     do { (ret, out, p) \<leftarrow>
            (if cfg_enableISP (mConfig p) \<and> mDemosaic p \<noteq> None \<and> mColorConv p \<noteq> None
             then processBayerToYuv K powf (frame_of p r) output outputFormat p
             else do { d \<leftarrow> frame_of p r;
                       vs \<leftarrow> rd_block d 0 (r_bytesused r);
                       out \<leftarrow> wr_block 0 vs output;
                       Some (0, out, p) });
          let (q, p) = ask K (VQBuf (mFd p) (r_index r) MMAP) p
          in Some (if r_ret q < 0 then - r_errno q else ret, out, p) }"

definition captureFrame :: "driver \<Rightarrow> (rat \<Rightarrow> rat \<Rightarrow> rat) \<Rightarrow> buf option \<Rightarrow> u32 \<Rightarrow> pipeline \<Rightarrow>
    (int \<times> buf option \<times> pipeline) option" where
  "captureFrame K powf outputBuffer outputFormat p =
     (if mState p \<noteq> PIPELINE_STREAMING then Some (-EINVAL, outputBuffer, p)
      else
        case outputBuffer of
          None \<Rightarrow> Some (-EINVAL, None, p)
        | Some output \<Rightarrow>
            (case poll_retry K 6 p of
               (Inl e, p) \<Rightarrow> Some (e, Some output, p)
             | (Inr _, p) \<Rightarrow>
                 let (r, p) = ask K (VDQBuf (mFd p) MMAP) p in
                 if r_ret r < 0 then Some (- r_errno r, Some output, p)
                 else if mBufferCount p \<le> r_index r then Some (-EINVAL, Some output, p)
                 else if length (mBuffers p) \<le> r_index r then None
                 else map_option (\<lambda>(ret, out, p). (ret, Some out, p)) (deliver K powf output outputFormat r p)))"

section \<open>Autofocus\<close>

definition grad :: "buf \<Rightarrow> nat \<Rightarrow> nat \<Rightarrow> nat \<Rightarrow> int \<Rightarrow> int option" where
  "grad rgb row a b tot =
     do { u \<leftarrow> smp rgb (row + a * 3 + 1); v \<leftarrow> smp rgb (row + b * 3 + 1); Some (tot + \<bar>u - v\<bar>) }"

definition sobelEnergy :: "buf option \<Rightarrow> nat \<Rightarrow> nat \<Rightarrow> int option" where
  "sobelEnergy rgb w h =
     (case rgb of
        None \<Rightarrow> Some 0
      | Some rgb \<Rightarrow>
          if w < 3 \<or> h < 3 then Some 0
          else for_range 1 (h - 1) (\<lambda>y. for_range 1 (w - 1) (\<lambda>x. grad rgb (y * (w * 3)) (x + 1) (x - 1))) 0)"

definition sobel8 :: "buf \<Rightarrow> nat \<Rightarrow> nat \<Rightarrow> int \<Rightarrow> int option" where
  "sobel8 rgb row x tot =
     do { g0 \<leftarrow> grad rgb row (x + 1) (x - 1) 0; g1 \<leftarrow> grad rgb row (x + 2) (x + 0) 0;
          g2 \<leftarrow> grad rgb row (x + 3) (x + 1) 0; g3 \<leftarrow> grad rgb row (x + 4) (x + 2) 0;
          g4 \<leftarrow> grad rgb row (x + 5) (x + 3) 0; g5 \<leftarrow> grad rgb row (x + 6) (x + 4) 0;
          g6 \<leftarrow> grad rgb row (x + 7) (x + 5) 0; g7 \<leftarrow> grad rgb row (x + 8) (x + 6) 0;
          Some (tot + (g0 + g1 + g2 + g3 + g4 + g5 + g6 + g7)) }"

text \<open>\<open>while (x + 8 < w - 1)\<close> runs while \<open>x + 8 \<le> w - 2\<close>.\<close>

definition sobelEnergyNw :: "buf option \<Rightarrow> nat \<Rightarrow> nat \<Rightarrow> int option" where
  "sobelEnergyNw rgb w h =
     (case rgb of
        None \<Rightarrow> Some 0
      | Some rgb \<Rightarrow>
          if w < 3 \<or> h < 3 then Some 0
          else for_range 1 (h - 1) (\<lambda>y tot.
            do { (x, tot) \<leftarrow> for_step 8 (w - 2) (sobel8 rgb (y * (w * 3))) 1 tot;
                 map_option snd (for_step 1 (w - 1) (\<lambda>x. grad rgb (y * (w * 3)) (x + 1) (x - 1)) x tot) }) 0)"

text \<open>The energy of the dequeued buffer \<open>r\<close>, 0 without the software pipeline.\<close>

definition af_energy :: "driver \<Rightarrow> (rat \<Rightarrow> rat \<Rightarrow> rat) \<Rightarrow> vans \<Rightarrow> pipeline \<Rightarrow> (int \<times> pipeline) option" where
  "af_energy K powf r p =
     (case (cfg_enableISP (mConfig p), mDemosaic p, mColorConv p) of
        (True, Some d, Some _) \<Rightarrow>
          do { p \<leftarrow> isp_update K (frame_of p r) d p;
               let cfg = mConfig p;
               let w = unat (cfg_width cfg); let h = unat (cfg_height cfg);
               rgb \<leftarrow> mRgbBuffer p;
               rgb \<leftarrow> for_range 0 (w * h) (gain_px (awb_gain p 0) (awb_gain p 1) (awb_gain p 2)) rgb;
               rgb \<leftarrow> applyGamma powf rgb w h (cfg_gamma cfg);
               energy \<leftarrow> sobelEnergyNw (Some rgb) w h;
               Some (energy, p\<lparr>mRgbBuffer := Some rgb\<rparr>) }
      | _ \<Rightarrow> Some (0, p))"

definition captureForAf :: "driver \<Rightarrow> (rat \<Rightarrow> rat \<Rightarrow> rat) \<Rightarrow> pipeline \<Rightarrow> (int \<times> pipeline) option" where
  "captureForAf K powf p =
     (if mState p \<noteq> PIPELINE_STREAMING then Some (-EINVAL, p)
      else
        let (r, p) = ask K (VPoll (mFd p) 500) p in
        if r_ret r \<le> 0 \<or> \<not> r_pollin r then Some (-EAGAIN, p)
        else
          let (r, p) = ask K (VDQBuf (mFd p) USERPTR) p in
          if r_ret r < 0 then Some (- r_errno r, p)
          else if mBufferCount p \<le> r_index r then Some (-EINVAL, p)
          else if length (mBuffers p) \<le> r_index r then None
          else
            do { (energy, p) \<leftarrow> af_energy K powf r p;
                 let (q, p) = ask K (VQBuf (mFd p) (r_index r) USERPTR) p
                 in Some (if r_ret q < 0 then - r_errno q else energy, p) })"

text \<open>One position of the sweep: move, wait, measure, and keep the best.\<close>

definition af_step :: "driver \<Rightarrow> (rat \<Rightarrow> rat \<Rightarrow> rat) \<Rightarrow> int \<Rightarrow> int \<times> int \<times> pipeline \<Rightarrow> (int \<times> int \<times> pipeline) option" where
  "af_step K powf pos s =
     (case s of (bestEnergy, bestPos, p) \<Rightarrow>
        do { let p = snd (setFocus K pos p);
             let p = snd (ask K (VUsleep 60000) p);
             (energy, p) \<leftarrow> captureForAf K powf p;
             Some (if energy < 0 then (bestEnergy, bestPos, p)
                   else if energy > bestEnergy then (energy, pos, p) else (bestEnergy, bestPos, p)) })"

fun af_coarse :: "driver \<Rightarrow> (rat \<Rightarrow> rat \<Rightarrow> rat) \<Rightarrow> int list \<Rightarrow> int \<times> int \<times> pipeline \<Rightarrow> (int \<times> int \<times> pipeline) option" where
  "af_coarse K powf [] s = Some s"
| "af_coarse K powf (pos # ps) s = Option.bind (af_step K powf pos s) (af_coarse K powf ps)"

fun af_fine :: "driver \<Rightarrow> (rat \<Rightarrow> rat \<Rightarrow> rat) \<Rightarrow> int list \<Rightarrow> int \<times> int \<times> pipeline \<Rightarrow> (int \<times> int \<times> pipeline) option" where
  "af_fine K powf [] s = Some s"
| "af_fine K powf (pos # ps) s =
     (if pos = fst (snd s) then af_fine K powf ps s
      else Option.bind (af_step K powf pos s) (af_fine K powf ps))"

text \<open>The values of \<open>for (pos = a; pos <= b; pos += step)\<close>.\<close>

definition positions :: "int \<Rightarrow> int \<Rightarrow> int \<Rightarrow> int list" where
  "positions a b step = map (\<lambda>k. a + int k * step) [0..<nat ((b - a) div step + 1)]"

definition startAfScan :: "driver \<Rightarrow> (rat \<Rightarrow> rat \<Rightarrow> rat) \<Rightarrow> pipeline \<Rightarrow> pipeline option" where
  "startAfScan K powf p =
     (if mState p \<noteq> PIPELINE_STREAMING then Some (p\<lparr>mAfState := 0\<rparr>)
      else
        do { (bestEnergy, bestPos, p) \<leftarrow> af_coarse K powf (positions 140 640 50) (0, 400, p\<lparr>mAfState := 1\<rparr>);
             let fineStart = max 140 (bestPos - 50); let fineEnd = min 640 (bestPos + 50);
             (bestEnergy, bestPos, p) \<leftarrow> af_fine K powf (positions fineStart fineEnd 10) (bestEnergy, bestPos, p);
             let p = snd (setFocus K bestPos p);
             let p = snd (ask K (VUsleep 60000) p);
             Some (p\<lparr>mAfState := 4\<rparr>) })"

definition cancelAf :: "driver \<Rightarrow> pipeline \<Rightarrow> pipeline" where
  "cancelAf K p = (snd (setFocus K 0 p))\<lparr>mAfState := 0\<rparr>"

end
