(* ===== verification/PipelineControl.thy ===== *)
theory PipelineControl
  imports Pipeline
begin

text \<open>
  The exposure and white balance loops stay in range, the vectorised gradient routine equals the
  scalar one, and the row exchange reverses an image.
\<close>

section \<open>Lemmas on the controls\<close>

lemma ask_simps [simp]:
  "fst (ask K c p) = K (calls p) c" "calls (snd (ask K c p)) = calls p @ [c]"
  by (simp_all add: ask_def)

lemma ask_eq: "ask K c p = (K (calls p) c, p\<lparr>calls := calls p @ [c]\<rparr>)"
  by (simp add: ask_def)

lemma ae_target_range:
  "10 \<le> fst (ae_target e g ratio) \<and> fst (ae_target e g ratio) \<le> 2490 \<and>
   1 \<le> snd (ae_target e g ratio) \<and> snd (ae_target e g ratio) \<le> 180"
  by (simp add: ae_target_def Let_def)

lemma ae_sample_Some:
  assumes "3 * (w * h) \<le> length rgb" "x < w" "y < h"
  shows "\<exists>s'. ae_sample rgb w y x s = Some s'"
proof -
  obtain a b where s: "s = (a, b)" by (cases s)
  show ?thesis unfolding s using smp_pix [of "y * w + x" rgb] grid_less(2) [OF assms(2,3)] assms(1)
    by (simp add: ae_sample_def)
qed

lemma ae_sum_Some: "3 * (w * h) \<le> length rgb \<Longrightarrow> \<exists>s. ae_sum rgb w h = Some s"
  using grid_loop_total [of 8 h w "ae_sample rgb w" "(0, 0)"] ae_sample_Some [of w h rgb]
  by (simp add: ae_sum_def)

lemma awb_sample_Some:
  assumes "3 * (w * h) \<le> length rgb" "x < w" "y < h"
  shows "\<exists>s'. awb_sample rgb w y x s = Some s'"
proof -
  obtain a b c d where s: "s = (a, b, c, d)" by (cases s)
  show ?thesis unfolding s using grid_less(2) [OF assms(2,3)] assms(1)
    by (simp add: awb_sample_def Let_def)
qed

lemma awb_sum_Some: "3 * (w * h) \<le> length rgb \<Longrightarrow> \<exists>s. awb_sum rgb w h = Some s"
  using grid_loop_total [of 16 h w "awb_sample rgb w" "(0, 0, 0, 0)"] awb_sample_Some [of w h rgb]
  by (simp add: awb_sum_def)

text \<open>What the exposure loop may do to the pipeline: set the gain, then the exposure.\<close>

definition ae_moves :: "driver \<Rightarrow> pipeline \<Rightarrow> pipeline \<Rightarrow> bool" where
  "ae_moves K p p' \<longleftrightarrow> p' = p \<or> (\<exists>e g. 10 \<le> e \<and> e \<le> 2490 \<and> 1 \<le> g \<and> g \<le> 180 \<and>
     (p' = snd (setGain K g p) \<or> p' = snd (setExposure K e p) \<or> p' = snd (setExposure K e (snd (setGain K g p)))))"

lemma doAutoExposure_moves:
  assumes "doAutoExposure K rgb p = Some p'"
  shows "ae_moves K p p'"
proof (cases "rgb = None \<or> \<not> cfg_enableAE (mConfig p)")
  case True
  then have "p' = p" using assms by (cases rgb) (simp_all add: doAutoExposure_def)
  then show ?thesis by (simp add: ae_moves_def)
next
  case False
  then obtain b where b: "rgb = Some b" by auto
  obtain sm count where s: "ae_sum b (unat (cfg_width (mConfig p))) (unat (cfg_height (mConfig p))) = Some (sm, count)"
  proof (cases "ae_sum b (unat (cfg_width (mConfig p))) (unat (cfg_height (mConfig p)))")
    case None
    then show ?thesis using assms False b by (simp add: doAutoExposure_def)
  qed (use that in auto)
  define ratio where "ratio = ae_ratio (cfg_targetLuma (mConfig p)) (fdiv (fdiv (fint (int sm)) (fint (int count))) 255)"
  obtain e g where eg: "ae_target (mCurrentExposure p) (mCurrentGain p) ratio = (e, g)" by (cases "ae_target (mCurrentExposure p) (mCurrentGain p) ratio")
  have r: "10 \<le> e" "e \<le> 2490" "1 \<le> g" "g \<le> 180"
    using ae_target_range [of "mCurrentExposure p" "mCurrentGain p" ratio] eg by simp_all
  show ?thesis using assms False b s eg r
    by (auto simp: doAutoExposure_def ae_moves_def Let_def ratio_def [symmetric] split: if_splits)
qed

lemma doAutoExposure_Some:
  assumes "3 * (unat (cfg_width (mConfig p)) * unat (cfg_height (mConfig p))) \<le> length rgb"
  shows "\<exists>p'. doAutoExposure K (Some rgb) p = Some p'"
  using ae_sum_Some [OF assms] by (auto simp: doAutoExposure_def Let_def split: prod.split)

lemma awb_clamp_range: "1 / 2 \<le> awb_clamp g \<and> awb_clamp g \<le> 3"
  by (simp add: awb_clamp_def)

definition awb_ok :: "pipeline \<Rightarrow> bool" where
  "awb_ok p \<longleftrightarrow> length (mAwbGains p) = 4 \<and> (\<forall>i < 4. 1 / 2 \<le> mAwbGains p ! i \<and> mAwbGains p ! i \<le> 3)"

lemma all_4: "(\<forall>i < 4. P i) \<longleftrightarrow> P 0 \<and> P 1 \<and> P 2 \<and> P (3::nat)"
  by (auto simp: less_Suc_eq numeral_eq_Suc)

lemma doAutoWhiteBalance_cases:
  assumes "doAutoWhiteBalance rgb p = Some p'"
  shows "p' = p \<or> (\<exists>r x. p' = p\<lparr>mAwbGains := [awb_clamp r, 1, awb_clamp x, 1], mHasAwbInit := True\<rparr>) \<or>
    (\<exists>r x. p' = p\<lparr>mAwbGains := [fmix (mAwbGains p ! 0) (awb_clamp r), 1, fmix (mAwbGains p ! 2) (awb_clamp x), 1]\<rparr>)"
proof (cases "rgb = None \<or> \<not> cfg_enableAWB (mConfig p)")
  case True
  then have "p' = p" using assms(1) by (cases rgb) (simp_all add: doAutoWhiteBalance_def)
  then show ?thesis by simp
next
  case False
  then obtain b where b: "rgb = Some b" by auto
  obtain sR sG sB n where s: "awb_sum b (unat (cfg_width (mConfig p))) (unat (cfg_height (mConfig p))) = Some (sR, sG, sB, n)"
    using assms(1) False b
    by (cases "awb_sum b (unat (cfg_width (mConfig p))) (unat (cfg_height (mConfig p)))") (auto simp: doAutoWhiteBalance_def)
  define aR aG aB where "aR = fdiv (fint (int sR)) (fint (int n))" "aG = fdiv (fint (int sG)) (fint (int n))"
    "aB = fdiv (fint (int sB)) (fint (int n))"
  have "Some p' = (if n < 100 then Some p else if aR < 5 \<or> aG < 5 \<or> aB < 5 then Some p
      else if \<not> mHasAwbInit p then Some (p\<lparr>mAwbGains := [awb_clamp (fdiv aG aR), 1, awb_clamp (fdiv aG aB), 1], mHasAwbInit := True\<rparr>)
      else Some (p\<lparr>mAwbGains := [fmix (mAwbGains p ! 0) (awb_clamp (fdiv aG aR)), 1,
        fmix (mAwbGains p ! 2) (awb_clamp (fdiv aG aB)), 1]\<rparr>))"
    using assms(1) [unfolded doAutoWhiteBalance_def Let_def] False b s unfolding aR_aG_aB_def
    by (auto split: if_splits)
  then show ?thesis by (simp split: if_splits) blast+
qed

lemma awb_ok_new:
  assumes "1 / 2 \<le> r \<and> r \<le> 3" "1 / 2 \<le> b \<and> b \<le> 3" "mAwbGains p = [r, 1, b, 1]"
  shows "awb_ok p"
  unfolding awb_ok_def all_4 assms(3) using assms(1,2) by simp

lemma doAutoWhiteBalance_keeps:
  assumes "doAutoWhiteBalance rgb p = Some p'" "awb_ok p"
  shows "awb_ok p' \<and> (\<exists>gs b. p' = p\<lparr>mAwbGains := gs, mHasAwbInit := b\<rparr>)"
proof -
  have g: "1 / 2 \<le> mAwbGains p ! i \<and> mAwbGains p ! i \<le> 3" if "i < 4" for i using assms(2) that unfolding awb_ok_def by blast
  have mix: "1 / 2 \<le> fmix (mAwbGains p ! i) (awb_clamp x) \<and> fmix (mAwbGains p ! i) (awb_clamp x) \<le> 3" if "i < 4" for i x
    using fmix_range g [OF that] awb_clamp_range [of x] by blast
  consider "p' = p" | r x where "p' = p\<lparr>mAwbGains := [awb_clamp r, 1, awb_clamp x, 1], mHasAwbInit := True\<rparr>"
    | r x where "p' = p\<lparr>mAwbGains := [fmix (mAwbGains p ! 0) (awb_clamp r), 1, fmix (mAwbGains p ! 2) (awb_clamp x), 1]\<rparr>"
    using doAutoWhiteBalance_cases [OF assms(1)] by blast
  then show ?thesis
  proof cases
    case 1
    moreover have "p = p\<lparr>mAwbGains := mAwbGains p, mHasAwbInit := mHasAwbInit p\<rparr>" by simp
    ultimately show ?thesis using assms(2) by metis
  next
    case 2
    then have "awb_ok p'" by (intro awb_ok_new [OF awb_clamp_range awb_clamp_range]) simp
    then show ?thesis using 2 by blast
  next
    case 3
    then have "awb_ok p'" by (intro awb_ok_new [OF mix [of 0] mix [of 2]]) simp_all
    moreover have "p' = p\<lparr>mAwbGains := mAwbGains p', mHasAwbInit := mHasAwbInit p\<rparr>" using 3 by simp
    ultimately show ?thesis by blast
  qed
qed

section \<open>Lemmas on the energy measure\<close>

lemma grad_acc: "grad rgb row a b tot = map_option ((+) tot) (grad rgb row a b 0)"
  by (cases "smp rgb (row + a * 3 + 1)"; cases "smp rgb (row + b * 3 + 1)") (simp_all add: grad_def)

lemma sobel8_eq: "1 \<le> x \<Longrightarrow> sobel8 rgb row x tot = for_range x (x + 8) (\<lambda>x. grad rgb row (x + 1) (x - 1)) tot"
proof -
  assume "1 \<le> x"
  define G where "G = (\<lambda>y. grad rgb row (y + 1) (y - 1) 0)"
  have body: "(\<lambda>x. grad rgb row (x + 1) (x - 1)) = (\<lambda>x t. map_option ((+) t) (G x))"
    by (intro ext) (simp only: G_def, rule grad_acc)
  have lanes: "grad rgb row (x + 2) (x + 0) 0 = G (x + 1)" "grad rgb row (x + 3) (x + 1) 0 = G (x + 2)"
    "grad rgb row (x + 4) (x + 2) 0 = G (x + 3)" "grad rgb row (x + 5) (x + 3) 0 = G (x + 4)"
    "grad rgb row (x + 6) (x + 4) 0 = G (x + 5)" "grad rgb row (x + 7) (x + 5) 0 = G (x + 6)"
    "grad rgb row (x + 8) (x + 6) 0 = G (x + 7)" "grad rgb row (x + 1) (x - 1) 0 = G x"
    by (simp_all add: G_def numeral_eq_Suc)
  have unroll: "for_range x (x + 8) f tot = Option.bind (f x tot) (\<lambda>t. Option.bind (f (x + 1) t) (\<lambda>t. Option.bind (f (x + 2) t)
      (\<lambda>t. Option.bind (f (x + 3) t) (\<lambda>t. Option.bind (f (x + 4) t) (\<lambda>t. Option.bind (f (x + 5) t)
      (\<lambda>t. Option.bind (f (x + 6) t) (f (x + 7))))))))" for f :: "nat \<Rightarrow> int \<Rightarrow> int option"
    by (simp add: for_range_Suc numeral_eq_Suc cong: bind_option_cong)
  show ?thesis unfolding sobel8_def body unroll lanes
    by (cases "G x", simp, cases "G (x + 1)", simp, cases "G (x + 2)", simp, cases "G (x + 3)", simp,
        cases "G (x + 4)", simp, cases "G (x + 5)", simp, cases "G (x + 6)", simp, cases "G (x + 7)", simp_all)
qed

text \<open>C14. The vectorised gradient energy, which handles eight columns at a time and finishes the
  row with a scalar loop, returns the same value as the scalar reference routine for every image
  buffer (a missing buffer included) and every size, out-of-range reads included.\<close>

theorem sobelEnergyNw_eq: "sobelEnergyNw rgb w h = sobelEnergy rgb w h"
proof (cases rgb)
  case None
  then show ?thesis by (simp add: sobelEnergyNw_def sobelEnergy_def)
next
  case (Some b)
  have "Option.bind (for_step 8 (w - 2) (sobel8 b row) 1 tot)
      (\<lambda>(x, tot). map_option snd (for_step 1 (w - 1) (\<lambda>x. grad b row (x + 1) (x - 1)) x tot)) =
      for_range 1 (w - 1) (\<lambda>x. grad b row (x + 1) (x - 1)) tot" if "3 \<le> w" for row tot
    by (rule chunked_prefix_eq) (use that in \<open>simp_all add: sobel8_eq\<close>)
  then show ?thesis using Some by (simp add: sobelEnergyNw_def sobelEnergy_def)
qed

section \<open>Lemmas on the row exchange\<close>

definition rowb :: "nat \<Rightarrow> nat \<Rightarrow> buf \<Rightarrow> u8 list" where
  "rowb n y b = take n (drop (y * n) b)"

lemma rowb_length: "(y + 1) * n \<le> length b \<Longrightarrow> length (rowb n y b) = n"
  by (simp add: rowb_def)

lemma rowb_nth: "(y + 1) * n \<le> length b \<Longrightarrow> i < n \<Longrightarrow> rowb n y b ! i = b ! (y * n + i)"
  by (simp add: rowb_def)

lemma wr_row:
  assumes "length vs = n" "(r + 1) * n \<le> length b"
  shows "\<exists>b'. wr_block (r * n) vs b = Some b' \<and> length b' = length b \<and>
    (\<forall>y. (y + 1) * n \<le> length b \<longrightarrow> rowb n y b' = (if y = r then vs else rowb n y b))"
proof -
  obtain b' where b': "wr_block (r * n) vs b = Some b'" "length b' = length b"
    using wr_block_Some [of "r * n" vs b] assms by auto
  have "rowb n y b' = (if y = r then vs else rowb n y b)" if y: "(y + 1) * n \<le> length b" for y
  proof (rule nth_equalityI)
    show "length (rowb n y b') = length (if y = r then vs else rowb n y b)"
      using y b'(2) assms(1) rowb_length [of y n b] rowb_length [of y n b'] by simp
    fix i assume "i < length (rowb n y b')"
    then have i: "i < n" using y b'(2) rowb_length [of y n b'] by simp
    have "y * n + i < length b" using y i by simp
    then have "b' ! (y * n + i) = (if r * n \<le> y * n + i \<and> y * n + i < r * n + n then vs ! (y * n + i - r * n) else b ! (y * n + i))"
      using wr_block_nth [OF b'(1)] assms(1) by simp
    moreover have "r * n \<le> y * n + i \<and> y * n + i < r * n + n \<longleftrightarrow> y = r"
    proof
      assume "r * n \<le> y * n + i \<and> y * n + i < r * n + n"
      then obtain k where "y * n + i = r * n + k" "k < n" by (metis add_less_cancel_left le_iff_add)
      then show "y = r" using grid_eq [of i n k y r] i by simp
    qed (use i in simp)
    ultimately show "rowb n y b' ! i = (if y = r then vs else rowb n y b) ! i"
      using rowb_nth [of y n b' i] rowb_nth [of y n b i] y i b'(2) by auto
  qed
  then show ?thesis using b' by auto
qed

text \<open>\<open>flipVertical\<close> on a buffer of \<open>h\<close> rows succeeds and row \<open>y\<close> of the result is row
  \<open>h - 1 - y\<close> of the argument, also for the middle row of an odd height.\<close>

lemma flipVertical_reverses:
  assumes "length b = h * (w * bpp)"
  shows "\<exists>b'. flipVertical b w h bpp = Some b' \<and> length b' = length b \<and>
    (\<forall>y < h. rowb (w * bpp) y b' = rowb (w * bpp) (h - 1 - y) b)"
proof -
  define n where "n = w * bpp"
  have fit: "(y + 1) * n \<le> length b" if "y < h" for y
    using that mult_le_mono1 [of "y + 1" h n] assms by (simp add: n_def)
  let ?I = "\<lambda>k t. length t = length b \<and> (\<forall>y < h. rowb n y t = rowb n (if y < k \<or> h - 1 - y < k then h - 1 - y else y) b)"
  have "\<exists>t. for_range 0 (h div 2) (flip_rows n h) b = Some t \<and> ?I (h div 2) t"
  proof (rule for_range_rule [where I = ?I])
    fix k t assume k: "k < h div 2" and I: "?I k t"
    define r where "r = h - 1 - k"
    have kr: "k < h" "r < h" "k \<noteq> r" "k < r" using k by (auto simp: r_def)
    have fk: "(k + 1) * n \<le> length t" "(r + 1) * n \<le> length t" using fit [OF kr(1)] fit [OF kr(2)] I by auto
    obtain t1 where t1: "wr_block (k * n) (rowb n r t) t = Some t1" "length t1 = length t"
        "\<And>y. (y + 1) * n \<le> length t \<Longrightarrow> rowb n y t1 = (if y = k then rowb n r t else rowb n y t)"
      using wr_row [OF rowb_length [OF fk(2)] fk(1)] by auto
    have fr: "(r + 1) * n \<le> length t1" using fk t1(2) by simp
    obtain t2 where t2: "wr_block (r * n) (rowb n k t) t1 = Some t2" "length t2 = length t1"
        "\<And>y. (y + 1) * n \<le> length t1 \<Longrightarrow> rowb n y t2 = (if y = r then rowb n k t else rowb n y t1)"
      using wr_row [OF rowb_length [OF fk(1)] fr] by auto
    have "flip_rows n h k t = Some t2"
    proof -
      have "rd_block t (k * n) n = Some (rowb n k t)" "rd_block t (r * n) n = Some (rowb n r t)"
        using fk by (simp_all add: rowb_def)
      then show ?thesis unfolding flip_rows_def Let_def r_def [symmetric] using t1(1) t2(1) by simp
    qed
    moreover have "rowb n y t2 = rowb n (if y < Suc k \<or> h - 1 - y < Suc k then h - 1 - y else y) b" if y: "y < h" for y
    proof -
      have a: "(y + 1) * n \<le> length t" "(y + 1) * n \<le> length t1" using fit [OF y] I t1(2) by auto
      have b: "rowb n y t2 = (if y = r then rowb n k t else if y = k then rowb n r t else rowb n y t)"
        using t2(3) [OF a(2)] t1(3) [OF a(1)] by simp
      have c: "rowb n k t = rowb n k b" "rowb n r t = rowb n r b" using I kr by (auto simp: r_def)
      have d: "y = r \<longleftrightarrow> h - 1 - y = k" using y kr by (auto simp: r_def)
      show ?thesis using b c d I y kr(4) by (auto simp: less_Suc_eq r_def)
    qed
    ultimately show "\<exists>t'. flip_rows n h k t = Some t' \<and> ?I (Suc k) t'" using t2(2) t1(2) I by auto
  qed simp_all
  then obtain t where t: "for_range 0 (h div 2) (flip_rows n h) b = Some t" "?I (h div 2) t" by blast
  have "rowb n y t = rowb n (h - 1 - y) b" if "y < h" for y
  proof (cases "y < h div 2 \<or> h - 1 - y < h div 2")
    case False
    then have "h - 1 - y = y" using that by linarith
    moreover have "rowb n y t = rowb n y b" using t(2) that False by presburger
    ultimately show ?thesis by simp
  next
    case True
    then show ?thesis using t(2) that by presburger
  qed
  then show ?thesis using t by (auto simp: flipVertical_def n_def)
qed

end
