(* ===== verification/PipelineStates.thy ===== *)
theory PipelineStates
  imports PipelineControl
begin

text \<open>
  The pipeline as a state machine: the operations a client can call are the steps, and an invariant
  relates the state, the descriptor, the buffer table and the mappings in the call transcript.
\<close>

section \<open>Mappings in the transcript\<close>

definition map_delta :: "driver \<Rightarrow> vcall list \<Rightarrow> vcall \<Rightarrow> int" where
  "map_delta K h c =
     (case c of VMmap _ _ _ \<Rightarrow> (if r_ret (K h c) < 0 then 0 else 1) | VMunmap _ _ \<Rightarrow> -1 | _ \<Rightarrow> 0)"

fun live_from :: "driver \<Rightarrow> vcall list \<Rightarrow> vcall list \<Rightarrow> int" where
  "live_from K h [] = 0"
| "live_from K h (c # cs) = map_delta K h c + live_from K (h @ [c]) cs"

text \<open>The number of mappings alive after the calls \<open>h\<close>: successful \<open>mmap\<close>s less \<open>munmap\<close>s.\<close>

definition live :: "driver \<Rightarrow> vcall list \<Rightarrow> int" where
  "live K h = live_from K [] h"

lemma live_from_append: "live_from K h (xs @ ys) = live_from K h xs + live_from K (h @ xs) ys"
  by (induction xs arbitrary: h) simp_all

lemma live_snoc: "live K (h @ [c]) = live K h + map_delta K h c"
  by (simp add: live_def live_from_append)

definition mapcall :: "vcall \<Rightarrow> bool" where
  "mapcall c \<longleftrightarrow> (\<exists>a b d. c = VMmap a b d) \<or> (\<exists>a b. c = VMunmap a b)"

lemma live_other: "\<not> mapcall c \<Longrightarrow> live K (h @ [c]) = live K h"
  by (cases c) (auto simp: live_snoc map_delta_def mapcall_def)

text \<open>Steps that touch neither the device, the state nor the mappings.\<close>

definition same_core :: "pipeline \<Rightarrow> pipeline \<Rightarrow> bool" where
  "same_core p p' \<longleftrightarrow> mFd p' = mFd p \<and> mState p' = mState p \<and> mStreaming p' = mStreaming p \<and>
     mBuffers p' = mBuffers p \<and> mBufferCount p' = mBufferCount p \<and> mConfig p' = mConfig p \<and>
     (\<exists>cs. calls p' = calls p @ cs \<and> (\<forall>c \<in> set cs. \<not> mapcall c))"

lemma same_core_refl [simp]: "same_core p p"
  by (simp add: same_core_def)

lemma same_core_trans: "same_core p q \<Longrightarrow> same_core q r \<Longrightarrow> same_core p r"
  by (auto simp: same_core_def)

lemma live_append_other: "\<forall>c \<in> set cs. \<not> mapcall c \<Longrightarrow> live K (h @ cs) = live K h"
proof (induction cs rule: rev_induct)
  case (snoc c cs)
  then show ?case using live_other [of c K "h @ cs"] by simp
qed simp

lemma same_core_live: "same_core p p' \<Longrightarrow> live K (calls p') = live K (calls p)"
  using live_append_other by (auto simp: same_core_def)

lemma same_core_ask: "\<not> mapcall c \<Longrightarrow> same_core p (snd (ask K c p))"
  by (simp add: same_core_def ask_def)

lemma mapcall_simps [simp]:
  "\<not> mapcall (VOpen s)" "\<not> mapcall (VClose fd)" "\<not> mapcall (VQuerycap fd)" "\<not> mapcall (VSetCtrl fd ctl v)"
  "\<not> mapcall (VGetCtrl fd ctl)" "\<not> mapcall (VSetFmt fd a b c)" "\<not> mapcall (VReqBufs fd n)" "\<not> mapcall (VQueryBuf fd n)"
  "\<not> mapcall (VQBuf fd n m)" "\<not> mapcall (VDQBuf fd m)" "\<not> mapcall (VStreamOn fd)" "\<not> mapcall (VStreamOff fd)"
  "\<not> mapcall (VPoll fd n)" "\<not> mapcall (VUsleep n)"
  by (simp_all add: mapcall_def)

lemma same_core_controls [simp]:
  "same_core p (snd (setExposure K e p))" "same_core p (snd (setGain K g p))" "same_core p (snd (getExposure K p))"
  "same_core p (snd (getGain K p))" "same_core p (snd (setFocus K f p))"
  by (simp_all add: setExposure_def setGain_def getExposure_def getGain_def setFocus_def ask_def Let_def same_core_def)

lemma same_core_ae: "doAutoExposure K rgb p = Some p' \<Longrightarrow> same_core p p'"
  using doAutoExposure_moves [of K rgb p p'] same_core_trans same_core_controls
  unfolding ae_moves_def by (metis same_core_refl)

lemma same_core_awb: "doAutoWhiteBalance rgb p = Some p' \<Longrightarrow> same_core p p'"
  using doAutoWhiteBalance_cases [of rgb p p'] by (auto simp: same_core_def)

lemma same_core_upd [simp]:
  "same_core p (q\<lparr>mDemosaic := d\<rparr>) \<longleftrightarrow> same_core p q" "same_core p (q\<lparr>mRgbBuffer := r\<rparr>) \<longleftrightarrow> same_core p q"
  "same_core p (q\<lparr>mAfState := a\<rparr>) \<longleftrightarrow> same_core p q"
  by (simp_all add: same_core_def)

lemma same_core_upd_left [simp]:
  "same_core (p\<lparr>mDemosaic := d\<rparr>) q \<longleftrightarrow> same_core p q" "same_core (p\<lparr>mRgbBuffer := r\<rparr>) q \<longleftrightarrow> same_core p q"
  "same_core (p\<lparr>mAfState := a\<rparr>) q \<longleftrightarrow> same_core p q"
  by (simp_all add: same_core_def)

lemma bind_SomeE:
  assumes "Option.bind x f = Some y"
  obtains z where "x = Some z" "f z = Some y"
  using assms by (cases x) auto

lemma same_core_update:
  assumes "isp_update K bayer d p = Some p'"
  shows "same_core p p'"
proof -
  obtain d' rgbb where z: "of_outcome (process d bayer (mRgbBuffer p)) = Some (d', rgbb)"
    using assms unfolding isp_update_def by (elim bind_SomeE) (metis prod.exhaust)
  define q where "q = p\<lparr>mDemosaic := Some d', mRgbBuffer := rgbb\<rparr>"
  have "Option.bind (if cfg_enableAE (mConfig q) then doAutoExposure K (mRgbBuffer q) q else Some q)
      (\<lambda>p. if cfg_enableAWB (mConfig p) then doAutoWhiteBalance (mRgbBuffer p) p else Some p) = Some p'"
    using assms z unfolding isp_update_def Let_def q_def by simp
  then obtain p2 where
    2: "(if cfg_enableAE (mConfig q) then doAutoExposure K (mRgbBuffer q) q else Some q) = Some p2"
    and 3: "(if cfg_enableAWB (mConfig p2) then doAutoWhiteBalance (mRgbBuffer p2) p2 else Some p2) = Some p'"
    by (rule bind_SomeE)
  have "same_core q p2" using 2 same_core_ae by (auto split: if_splits)
  moreover have "same_core p2 p'" using 3 same_core_awb by (auto split: if_splits)
  ultimately have "same_core q p'" by (rule same_core_trans)
  then show ?thesis by (simp add: q_def)
qed

lemma isp_output_state:
  assumes "isp_output powf c output fmt p = Some (ret, out, p')"
  shows "p' = p \<or> (\<exists>r. p' = p\<lparr>mRgbBuffer := r\<rparr>)"
  using assms unfolding isp_output_def Let_def by (auto elim!: bind_SomeE split: if_splits)

lemma same_core_process:
  assumes "processBayerToYuv K powf bayer output fmt p = Some (ret, out, p')"
  shows "same_core p p'"
proof (cases "\<exists>b d c. bayer = Some b \<and> mDemosaic p = Some d \<and> mColorConv p = Some c")
  case False
  then show ?thesis using assms by (auto simp: processBayerToYuv_def split: option.splits)
next
  case True
  then obtain b d c where bdc: "bayer = Some b" "mDemosaic p = Some d" "mColorConv p = Some c" by blast
  obtain p1 where "isp_update K (Some b) d p = Some p1" "isp_output powf c output fmt p1 = Some (ret, out, p')"
    using assms bdc by (auto simp: processBayerToYuv_def elim: bind_SomeE)
  then show ?thesis using same_core_update isp_output_state by fastforce
qed

lemma same_core_poll: "poll_retry K n p = (r, p') \<Longrightarrow> same_core p p'"
proof (induction n arbitrary: p)
  case (Suc n)
  have "same_core p (snd (ask K (VPoll (mFd p) 300) p))" by (rule same_core_ask) simp
  then show ?case using Suc by (auto simp: Let_def ask_eq split: if_splits dest!: Suc.IH intro: same_core_trans)
qed simp

lemma same_core_deliver:
  assumes "deliver K powf output fmt r p = Some (ret, out, p')"
  shows "same_core p p'"
proof -
  define x where "x = (if cfg_enableISP (mConfig p) \<and> mDemosaic p \<noteq> None \<and> mColorConv p \<noteq> None
      then processBayerToYuv K powf (frame_of p r) output fmt p
      else do { d \<leftarrow> frame_of p r; vs \<leftarrow> rd_block d 0 (r_bytesused r); out \<leftarrow> wr_block 0 vs output; Some (0, out, p) })"
  obtain ret1 out1 p1 where x: "x = Some (ret1, out1, p1)"
    using assms unfolding deliver_def x_def [symmetric] by (elim bind_SomeE) (metis prod.exhaust)
  have "same_core p p1"
    using x unfolding x_def by (auto dest: same_core_process elim!: bind_SomeE split: if_splits)
  moreover have "p' = snd (ask K (VQBuf (mFd p1) (r_index r) MMAP) p1)"
    using assms x unfolding deliver_def x_def [symmetric] by (simp add: ask_eq)
  ultimately show ?thesis using same_core_trans [OF _ same_core_ask] by simp
qed

lemma same_core_capture:
  assumes "captureFrame K powf output fmt p = Some (ret, out, p')"
  shows "same_core p p'"
proof (cases "mState p = PIPELINE_STREAMING \<and> output \<noteq> None")
  case False
  then show ?thesis using assms by (auto simp: captureFrame_def split: if_splits option.splits)
next
  case True
  then obtain o1 where o: "output = Some o1" by auto
  obtain s p1 where 1: "poll_retry K 6 p = (s, p1)" by (cases "poll_retry K 6 p")
  define p2 where "p2 = snd (ask K (VDQBuf (mFd p1) MMAP) p1)"
  have c2: "same_core p p2" using same_core_trans [OF same_core_poll [OF 1]] same_core_ask by (simp add: p2_def)
  have "p' = p1 \<or> p' = p2 \<or> same_core p2 p'"
    using assms True o 1
    by (auto simp: captureFrame_def Let_def p2_def ask_eq split: sum.splits if_splits dest: same_core_deliver)
  then show ?thesis using c2 same_core_poll [OF 1] same_core_trans by blast
qed


lemma same_core_energy:
  assumes "af_energy K powf r p = Some (e, p')"
  shows "same_core p p'"
proof (cases "cfg_enableISP (mConfig p) \<and> mDemosaic p \<noteq> None \<and> mColorConv p \<noteq> None")
  case False
  then show ?thesis using assms by (auto simp: af_energy_def split: option.splits bool.splits)
next
  case True
  then obtain d c where dc: "mDemosaic p = Some d" "mColorConv p = Some c" by auto
  obtain p1 rgb where "isp_update K (frame_of p r) d p = Some p1" "p' = p1\<lparr>mRgbBuffer := rgb\<rparr>"
    using assms True dc by (auto simp: af_energy_def Let_def elim!: bind_SomeE)
  then show ?thesis using same_core_update by simp
qed

lemma same_core_af:
  assumes "captureForAf K powf p = Some (e, p')"
  shows "same_core p p'"
proof (cases "mState p = PIPELINE_STREAMING")
  case False
  then show ?thesis using assms by (simp add: captureForAf_def)
next
  case True
  define p1 where "p1 = snd (ask K (VPoll (mFd p) 500) p)"
  define p2 where "p2 = snd (ask K (VDQBuf (mFd p1) USERPTR) p1)"
  have c: "same_core p p1" "same_core p p2"
    using same_core_ask [of _ p K] same_core_trans [OF _ same_core_ask, of p p1] by (simp_all add: p1_def p2_def)
  have "p' = p1 \<or> p' = p2 \<or> (\<exists>p3 i. same_core p2 p3 \<and> p' = snd (ask K (VQBuf (mFd p3) i USERPTR) p3))"
    using assms True unfolding captureForAf_def Let_def ask_eq p1_def p2_def
    by (auto split: if_splits elim!: bind_SomeE dest!: same_core_energy)
  then show ?thesis using c same_core_trans [OF _ same_core_ask] same_core_trans [OF c(2)] by fastforce
qed

lemma same_core_af_step: "af_step K powf pos (b, bp, p) = Some (b', bp', p') \<Longrightarrow> same_core p p'"
proof -
  assume a: "af_step K powf pos (b, bp, p) = Some (b', bp', p')"
  define p1 where "p1 = snd (ask K (VUsleep 60000) (snd (setFocus K pos p)))"
  have "same_core p p1" unfolding p1_def by (rule same_core_trans [OF same_core_controls(5) same_core_ask]) simp
  moreover obtain e where "captureForAf K powf p1 = Some (e, p')"
    using a by (auto simp: af_step_def Let_def p1_def [symmetric] elim!: bind_SomeE split: if_splits)
  ultimately show ?thesis using same_core_af same_core_trans by blast
qed

lemma same_core_af_step': "af_step K powf pos s = Some t \<Longrightarrow> same_core (snd (snd s)) (snd (snd t))"
  using same_core_af_step [of K powf pos "fst s" "fst (snd s)" "snd (snd s)" "fst t" "fst (snd t)" "snd (snd t)"] by simp

lemma same_core_coarse: "af_coarse K powf ps s = Some s' \<Longrightarrow> same_core (snd (snd s)) (snd (snd s'))"
proof (induction ps arbitrary: s)
  case (Cons pos ps)
  then obtain t where "af_step K powf pos s = Some t" "af_coarse K powf ps t = Some s'"
    by (metis af_coarse.simps(2) bind_SomeE)
  then show ?case using Cons.IH same_core_af_step' same_core_trans by blast
qed simp

lemma same_core_fine: "af_fine K powf ps s = Some s' \<Longrightarrow> same_core (snd (snd s)) (snd (snd s'))"
proof (induction ps arbitrary: s)
  case (Cons pos ps)
  show ?case
  proof (cases "pos = fst (snd s)")
    case False
    then obtain t where "af_step K powf pos s = Some t" "af_fine K powf ps t = Some s'"
      using Cons.prems by (metis af_fine.simps(2) bind_SomeE)
    then show ?thesis using Cons.IH same_core_af_step' same_core_trans by blast
  qed (use Cons in simp)
qed simp

lemma same_core_scan: "startAfScan K powf p = Some p' \<Longrightarrow> same_core p p'"
proof (cases "mState p = PIPELINE_STREAMING")
  case False
  then show "startAfScan K powf p = Some p' \<Longrightarrow> same_core p p'" by (auto simp: startAfScan_def)
next
  case True
  assume "startAfScan K powf p = Some p'"
  then obtain s1 s2 f1 f2 where
    1: "af_coarse K powf (positions 140 640 50) (0, 400, p\<lparr>mAfState := 1\<rparr>) = Some s1" and
    2: "af_fine K powf (positions f1 f2 10) s1 = Some s2" and
    3: "p' = (snd (ask K (VUsleep 60000) (snd (setFocus K (fst (snd s2)) (snd (snd s2))))))\<lparr>mAfState := 4\<rparr>"
    using True by (auto simp: startAfScan_def Let_def elim!: bind_SomeE)
  have "same_core p (snd (snd s2))"
    using same_core_coarse [OF 1] same_core_fine [OF 2] same_core_trans by auto
  then have "same_core p (snd (ask K (VUsleep 60000) (snd (setFocus K (fst (snd s2)) (snd (snd s2))))))"
    by (meson same_core_trans same_core_controls(5) same_core_ask mapcall_simps(14))
  then show ?thesis using 3 by simp
qed


section \<open>Lemmas on the mappings\<close>

text \<open>The first \<open>k\<close> of the four buffers are mapped. The entries behind them may be left over from an
  earlier configuration.\<close>

definition bufs_mapped :: "nat \<Rightarrow> pipeline \<Rightarrow> bool" where
  "bufs_mapped k p \<longleftrightarrow> length (mBuffers p) = 4 \<and>
     (\<forall>i < k. vb_start (mBuffers p ! i) \<noteq> None \<and> vb_allocated (mBuffers p ! i))"

text \<open>The first \<open>n\<close> of the \<open>k\<close> mapped buffers have been unmapped.\<close>

definition bufs_between :: "nat \<Rightarrow> nat \<Rightarrow> pipeline \<Rightarrow> bool" where
  "bufs_between n k p \<longleftrightarrow> length (mBuffers p) = 4 \<and>
     (\<forall>i. n \<le> i \<and> i < k \<longrightarrow> vb_start (mBuffers p ! i) \<noteq> None \<and> vb_allocated (mBuffers p ! i))"

lemma bufs_between_0: "bufs_between 0 k p \<longleftrightarrow> bufs_mapped k p"
  by (simp add: bufs_between_def bufs_mapped_def)

lemma bufs_between_all: "bufs_between k k p \<longleftrightarrow> bufs_mapped 0 p"
  by (auto simp: bufs_between_def bufs_mapped_def)

definition rest_eq :: "pipeline \<Rightarrow> pipeline \<Rightarrow> bool" where
  "rest_eq p q \<longleftrightarrow> q = p\<lparr>mBuffers := mBuffers q, calls := calls q\<rparr>"

lemma rest_eq_upd [simp]: "rest_eq p (p\<lparr>mBuffers := b\<rparr>)" "rest_eq p (p\<lparr>calls := c\<rparr>)"
  by (simp_all add: rest_eq_def)

lemma unmap_one_between:
  assumes "bufs_between n k p" "n < k" "k \<le> 4"
  shows "bufs_between (Suc n) k (unmap_one K n p)" "live K (calls (unmap_one K n p)) = live K (calls p) - 1"
    "rest_eq p (unmap_one K n p)"
proof -
  have n: "n < 4" "length (mBuffers p) = 4" using assms by (auto simp: bufs_between_def)
  have "vb_start (mBuffers p ! n) \<noteq> None" using assms n by (simp add: bufs_between_def)
  then obtain a where a: "vb_start (mBuffers p ! n) = Some a" by auto
  have u: "unmap_one K n p = p\<lparr>calls := calls p @ [VMunmap a (vb_length (mBuffers p ! n))],
      mBuffers := (mBuffers p)[n := (mBuffers p ! n)\<lparr>vb_start := None, vb_allocated := False\<rparr>]\<rparr>"
    by (simp add: unmap_one_def a ask_eq)
  show "bufs_between (Suc n) k (unmap_one K n p)"
    using assms n unfolding u bufs_between_def by (auto simp: nth_list_update_if)
  show "live K (calls (unmap_one K n p)) = live K (calls p) - 1"
    unfolding u by (simp add: live_snoc map_delta_def)
  show "rest_eq p (unmap_one K n p)" unfolding u rest_eq_def by simp
qed

lemma release_one_between:
  assumes "bufs_between n k p" "n < k" "k \<le> 4"
  shows "release_one K n p = unmap_one K n p"
proof -
  have "vb_start (mBuffers p ! n) \<noteq> None" using assms by (simp add: bufs_between_def)
  then show ?thesis by (auto simp: release_one_def unmap_one_def ask_eq)
qed

lemma rest_eq_trans: "rest_eq p q \<Longrightarrow> rest_eq q r \<Longrightarrow> rest_eq p r"
proof -
  assume "rest_eq p q" "rest_eq q r"
  then obtain b c b' c' where "q = p\<lparr>mBuffers := b, calls := c\<rparr>" "r = q\<lparr>mBuffers := b', calls := c'\<rparr>"
    unfolding rest_eq_def by blast
  then show ?thesis by (simp add: rest_eq_def)
qed

lemma rest_eq_count: "rest_eq p q \<Longrightarrow> rest_eq (p\<lparr>mBufferCount := k\<rparr>) (q\<lparr>mBufferCount := k\<rparr>)"
proof -
  assume "rest_eq p q"
  then obtain b c where "q = p\<lparr>mBuffers := b, calls := c\<rparr>" unfolding rest_eq_def by blast
  then show ?thesis by (simp add: rest_eq_def)
qed

lemma rest_eq_refl [simp]: "rest_eq p p"
  by (simp add: rest_eq_def)

lemma unmap_first_between:
  assumes "bufs_mapped k p" "n \<le> k" "k \<le> 4"
  shows "bufs_between n k (unmap_first K n p) \<and> live K (calls (unmap_first K n p)) = live K (calls p) - int n \<and>
    rest_eq p (unmap_first K n p)"
  using assms(2)
proof (induction n)
  case 0
  then show ?case using assms(1) by (simp add: bufs_between_0)
next
  case (Suc n)
  then show ?case using unmap_one_between [of n k "unmap_first K n p" K] assms(3) rest_eq_trans by auto
qed

lemma unmap_variants:
  assumes "bufs_mapped k p" "n \<le> k" "k \<le> 4"
  shows "unmap_allocated K n p = unmap_first K n p" "release_first K n p = unmap_first K n p"
  using assms(2)
proof (induction n)
  case (Suc n)
  {
    case 1
    have "bufs_between n k (unmap_first K n p)" using unmap_first_between [of k p n K] assms 1 by simp
    then have "vb_allocated (mBuffers (unmap_first K n p) ! n)" using 1 assms(3) by (simp add: bufs_between_def)
    then show ?case using Suc 1 by (simp add: Let_def)
  next
    case 2
    have "bufs_between n k (unmap_first K n p)" using unmap_first_between [of k p n K] assms 2 by simp
    then show ?case using release_one_between [of n k "unmap_first K n p" K] Suc 2 assms(3) by simp
  }
qed simp_all


lemma release_all:
  assumes "bufs_mapped i q" "i \<le> 4"
  shows "bufs_mapped 0 ((release_first K i q)\<lparr>mBufferCount := 0\<rparr>)"
    "live K (calls ((release_first K i q)\<lparr>mBufferCount := 0\<rparr>)) = live K (calls q) - int i"
    "rest_eq (q\<lparr>mBufferCount := 0\<rparr>) ((release_first K i q)\<lparr>mBufferCount := 0\<rparr>)"
proof -
  have u: "bufs_between i i (unmap_first K i q)" "live K (calls (unmap_first K i q)) = live K (calls q) - int i"
      "rest_eq q (unmap_first K i q)" and e: "release_first K i q = unmap_first K i q"
    using unmap_first_between [of i q i K] unmap_variants(2) [of i q i K] assms by simp_all
  show "bufs_mapped 0 ((release_first K i q)\<lparr>mBufferCount := 0\<rparr>)"
    using u(1) unfolding e bufs_between_all by (simp add: bufs_mapped_def)
  show "live K (calls ((release_first K i q)\<lparr>mBufferCount := 0\<rparr>)) = live K (calls q) - int i"
    using u(2) unfolding e by simp
  show "rest_eq (q\<lparr>mBufferCount := 0\<rparr>) ((release_first K i q)\<lparr>mBufferCount := 0\<rparr>)"
    unfolding e by (rule rest_eq_count [OF u(3)])
qed

text \<open>One round of the mapping loop.\<close>

definition set_buf :: "nat \<Rightarrow> (V4l2Buffer \<Rightarrow> V4l2Buffer) \<Rightarrow> pipeline \<Rightarrow> pipeline" where
  "set_buf i f p = p\<lparr>mBuffers := (mBuffers p)[i := f (mBuffers p ! i)]\<rparr>"

lemma set_buf_simps [simp]:
  "calls (set_buf i f p) = calls p" "mFd (set_buf i f p) = mFd p" "length (mBuffers (set_buf i f p)) = length (mBuffers p)"
  "rest_eq p (set_buf i f p)"
  by (simp_all add: set_buf_def)

definition said :: "vcall \<Rightarrow> pipeline \<Rightarrow> pipeline" where
  "said c p = p\<lparr>calls := calls p @ [c]\<rparr>"

lemma said_simps [simp]:
  "calls (said c p) = calls p @ [c]" "mFd (said c p) = mFd p" "mBuffers (said c p) = mBuffers p" "rest_eq p (said c p)"
  by (simp_all add: said_def)

lemma map_buffers_Suc:
  fixes K i p
  defines "r \<equiv> K (calls p) (VQueryBuf (mFd p) i)"
  defines "p2 \<equiv> set_buf i (\<lambda>b. b\<lparr>vb_length := r_length r\<rparr>) (said (VQueryBuf (mFd p) i) p)"
  defines "c \<equiv> VMmap (mFd p) (r_length r) (r_offset r)"
  assumes "i < length (mBuffers p)"
  shows "map_buffers K (Suc n) i p =
    (if r_ret r < 0 then Some (Inl (- r_errno r), (release_first K i (said (VQueryBuf (mFd p) i) p))\<lparr>mBufferCount := 0\<rparr>)
     else if r_ret (K (calls p2) c) < 0 then
       Some (Inl (- ENOMEM), (release_first K i (set_buf i (\<lambda>b. b\<lparr>vb_start := None\<rparr>) (said c p2)))\<lparr>mBufferCount := 0\<rparr>)
     else map_buffers K n (Suc i)
       (set_buf i (\<lambda>b. b\<lparr>vb_start := Some (r_addr (K (calls p2) c)), vb_allocated := True\<rparr>) (said c p2)))"
  using assms(4) by (simp add: r_def p2_def c_def ask_eq Let_def set_buf_def said_def)

lemma bufs_mapped_set:
  assumes "bufs_mapped i p" "i < 4"
  shows "bufs_mapped i (set_buf i (\<lambda>b. b\<lparr>vb_length := n\<rparr>) p)" "bufs_mapped i (set_buf i (\<lambda>b. b\<lparr>vb_start := None\<rparr>) p)"
    "bufs_mapped (Suc i) (set_buf i (\<lambda>b. b\<lparr>vb_start := Some a, vb_allocated := True\<rparr>) p)"
  using assms by (auto simp: bufs_mapped_def set_buf_def nth_list_update_if less_Suc_eq)

lemma bufs_mapped_said [simp]: "bufs_mapped k (said c p) \<longleftrightarrow> bufs_mapped k p"
  by (simp add: bufs_mapped_def)

definition mapped_to :: "driver \<Rightarrow> pipeline \<Rightarrow> nat \<Rightarrow> nat \<Rightarrow> (int + unit) \<times> pipeline \<Rightarrow> bool" where
  "mapped_to K p i k x =
     (case x of
        (Inr _, p') \<Rightarrow> bufs_mapped k p' \<and> live K (calls p') = live K (calls p) + int k - int i \<and> rest_eq p p'
      | (Inl _, p') \<Rightarrow> bufs_mapped 0 p' \<and> live K (calls p') = live K (calls p) - int i \<and> rest_eq (p\<lparr>mBufferCount := 0\<rparr>) p')"

lemma map_buffers_maps:
  assumes "bufs_mapped i p" "i + n \<le> 4"
  shows "\<exists>x. map_buffers K n i p = Some x \<and> mapped_to K p i (i + n) x"
  using assms
proof (induction n arbitrary: i p)
  case 0
  then show ?case by (simp add: mapped_to_def)
next
  case (Suc n)
  have i: "i < 4" "i < length (mBuffers p)" using Suc.prems by (auto simp: bufs_mapped_def)
  note def = map_buffers_Suc [OF i(2), of K n]
  define r where "r = K (calls p) (VQueryBuf (mFd p) i)"
  define p1 where "p1 = said (VQueryBuf (mFd p) i) p"
  define p2 where "p2 = set_buf i (\<lambda>b. b\<lparr>vb_length := r_length r\<rparr>) p1"
  define c where "c = VMmap (mFd p) (r_length r) (r_offset r)"
  have p1: "bufs_mapped i p1" "live K (calls p1) = live K (calls p)" "rest_eq p p1"
    using Suc.prems(1) by (simp_all add: p1_def live_other)
  have p2: "bufs_mapped i p2" "live K (calls p2) = live K (calls p)" "rest_eq p p2"
    using bufs_mapped_set(1) [OF p1(1) i(1)] p1(2) rest_eq_trans [OF p1(3)] by (simp_all add: p2_def)
  have set_said: "rest_eq p (set_buf i f (said c p2))" for f
    by (rule rest_eq_trans [OF rest_eq_trans [OF p2(3) said_simps(4)] set_buf_simps(4)])
  have fail: "mapped_to K p i (i + Suc n) (Inl e, (release_first K i q)\<lparr>mBufferCount := 0\<rparr>)"
    if "bufs_mapped i q" "live K (calls q) = live K (calls p)" "rest_eq p q" for e q
    using release_all [OF that(1), of K] that(2) i rest_eq_trans [OF rest_eq_count [OF that(3)]]
    by (simp add: mapped_to_def)
  consider (query) "r_ret r < 0" | (mmap) "\<not> r_ret r < 0" "r_ret (K (calls p2) c) < 0"
    | (ok) "\<not> r_ret r < 0" "\<not> r_ret (K (calls p2) c) < 0" by blast
  then show ?case
  proof cases
    case query
    then show ?thesis using fail [OF p1, of "- r_errno r"] unfolding def p1_def r_def by simp
  next
    case mmap
    define q where "q = set_buf i (\<lambda>b. b\<lparr>vb_start := None\<rparr>) (said c p2)"
    have "mapped_to K p i (i + Suc n) (Inl (- ENOMEM), (release_first K i q)\<lparr>mBufferCount := 0\<rparr>)"
    proof (rule fail)
      show "bufs_mapped i q" unfolding q_def by (rule bufs_mapped_set) (use p2 i in simp_all)
      show "live K (calls q) = live K (calls p)" using mmap p2(2) by (simp add: q_def live_snoc map_delta_def c_def)
      show "rest_eq p q" unfolding q_def by (rule set_said)
    qed
    then show ?thesis using mmap unfolding def p1_def r_def p2_def c_def q_def by simp
  next
    case ok
    define q where "q = set_buf i (\<lambda>b. b\<lparr>vb_start := Some (r_addr (K (calls p2) c)), vb_allocated := True\<rparr>) (said c p2)"
    have q: "bufs_mapped (Suc i) q" "live K (calls q) = live K (calls p) + 1" "rest_eq p q"
      using bufs_mapped_set(3) [of i "said c p2"] p2 i ok set_said
      by (simp_all add: q_def live_snoc map_delta_def c_def)
    obtain x where x: "map_buffers K n (Suc i) q = Some x" "mapped_to K q (Suc i) (Suc i + n) x"
      using Suc.IH [OF q(1)] Suc.prems(2) by auto
    have "mapped_to K p i (i + Suc n) x"
      using x(2) q rest_eq_trans [OF q(3)] rest_eq_trans [OF rest_eq_count [OF q(3)]]
      by (auto simp: mapped_to_def split: prod.splits sum.splits)
    then show ?thesis using x(1) ok unfolding def p1_def r_def p2_def c_def q_def by simp
  qed
qed


section \<open>The state machine\<close>

text \<open>
  Whether a call of \<open>configure\<close> gets as far as its mapping loop: the pipeline is not streaming and
  has a descriptor, and the driver accepts the format and grants at least two buffers. From there
  on the entries of the buffer table are overwritten, without releasing what they held.
\<close>

definition buffers_granted :: "driver \<Rightarrow> PipelineConfig \<Rightarrow> pipeline \<Rightarrow> bool" where
  "buffers_granted K cfg p \<longleftrightarrow>
     (let c1 = VSetFmt (mFd p) (cfg_width cfg) (cfg_height cfg) (cfg_pixelFormat cfg);
          r1 = K (calls p) c1; r2 = K (calls p @ [c1]) (VReqBufs (mFd p) 2)
      in mState p \<noteq> PIPELINE_STREAMING \<and> \<not> mFd p < 0 \<and> \<not> r_ret r1 < 0 \<and> \<not> r_ret r2 < 0 \<and> 2 \<le> r_count r2)"

text \<open>
  The steps of a client: every public operation of the class, in any state. The label is the number
  of mappings the step forgets, which is not 0 only for a \<open>configure\<close> that overwrites the table while
  buffers are mapped.
\<close>

inductive pl_step :: "driver \<Rightarrow> (rat \<Rightarrow> rat \<Rightarrow> rat) \<Rightarrow> pipeline \<Rightarrow> nat \<Rightarrow> pipeline \<Rightarrow> bool" for K powf where
  st_open: "pl_step K powf p 0 (snd (pl_open K cameraId p))"
| st_configure: "configure K powf junk cfg p = Some (r, p') \<Longrightarrow>
    pl_step K powf p (if buffers_granted K cfg p then mBufferCount p else 0) p'"
| st_start: "pl_step K powf p 0 (snd (startStreaming K p))"
| st_stop: "pl_step K powf p 0 (snd (stopStreaming K p))"
| st_close: "pl_step K powf p 0 (snd (pl_close K p))"
| st_capture: "captureFrame K powf output fmt p = Some (r, output', p') \<Longrightarrow> pl_step K powf p 0 p'"
| st_scan: "startAfScan K powf p = Some p' \<Longrightarrow> pl_step K powf p 0 p'"
| st_cancel: "pl_step K powf p 0 (cancelAf K p)"
| st_focus: "pl_step K powf p 0 (snd (setFocus K position p))"
| st_set_exposure: "pl_step K powf p 0 (snd (setExposure K exposure p))"
| st_set_gain: "pl_step K powf p 0 (snd (setGain K gain p))"
| st_get_exposure: "pl_step K powf p 0 (snd (getExposure K p))"
| st_get_gain: "pl_step K powf p 0 (snd (getGain K p))"

text \<open>A run is a sequence of steps, labelled with the number of mappings they forget together.\<close>

inductive pl_run :: "driver \<Rightarrow> (rat \<Rightarrow> rat \<Rightarrow> rat) \<Rightarrow> pipeline \<Rightarrow> nat \<Rightarrow> pipeline \<Rightarrow> bool" for K powf where
  run_nil: "pl_run K powf p 0 p"
| run_step: "pl_run K powf p n q \<Longrightarrow> pl_step K powf q m r \<Longrightarrow> pl_run K powf p (n + m) r"

text \<open>V4L2 lets a driver give more buffers than requested; the array of the pipeline has four.\<close>

definition four_buffers :: "driver \<Rightarrow> bool" where
  "four_buffers K \<longleftrightarrow> (\<forall>h fd n. r_count (K h (VReqBufs fd n)) \<le> 4)"

definition pl_based :: "driver \<Rightarrow> int \<Rightarrow> pipeline \<Rightarrow> bool" where
  "pl_based K b p \<longleftrightarrow> bufs_mapped (mBufferCount p) p \<and> mBufferCount p \<le> 4 \<and>
     (mStreaming p \<longleftrightarrow> mState p = PIPELINE_STREAMING) \<and> (mState p = PIPELINE_CLOSED \<longleftrightarrow> mFd p < 0) \<and>
     (mState p = PIPELINE_CLOSED \<longrightarrow> mBufferCount p = 0) \<and>
     live K (calls p) = b + int (mBufferCount p)"

text \<open>With no mapping forgotten since the calls \<open>h0\<close>.\<close>

abbreviation pl_inv :: "driver \<Rightarrow> vcall list \<Rightarrow> pipeline \<Rightarrow> bool" where
  "pl_inv K h0 p \<equiv> pl_based K (live K h0) p"

lemmas pl_inv_def = pl_based_def

lemma pl_inv_core: "pl_based K b p \<Longrightarrow> same_core p p' \<Longrightarrow> pl_based K b p'"
  using same_core_live [of p p' K] by (simp add: pl_inv_def same_core_def bufs_mapped_def)

lemma pl_inv_new: "pl_inv K h0 (CameraPipeline_new cfg0 id0 lut0 h0)"
  by (simp add: pl_inv_def CameraPipeline_new_def bufs_mapped_def no_buffer_def)

lemma pl_inv_open: "pl_based K b p \<Longrightarrow> pl_based K b (snd (pl_open K cameraId p))"
  by (auto simp: pl_open_def pl_inv_def bufs_mapped_def Let_def ask_eq initFocuser_def live_append_other split: if_splits)

lemma stopStreaming_inv:
  assumes "pl_based K b p"
  shows "pl_based K b (snd (stopStreaming K p)) \<and> \<not> mStreaming (snd (stopStreaming K p)) \<and>
    (mStreaming p \<longrightarrow> mBufferCount (snd (stopStreaming K p)) = 0)"
proof (cases "mStreaming p")
  case False
  then show ?thesis using assms by (simp add: stopStreaming_def)
next
  case True
  define p1 where "p1 = p\<lparr>calls := calls p @ [VStreamOff (mFd p)]\<rparr>"
  have p1: "bufs_mapped (mBufferCount p) p1" "live K (calls p1) = b + int (mBufferCount p)" "mBufferCount p \<le> 4"
      "mFd p1 = mFd p" "mState p = PIPELINE_STREAMING" "\<not> mFd p < 0" "mBufferCount p1 = mBufferCount p"
    using assms True by (auto simp: pl_inv_def p1_def bufs_mapped_def live_snoc map_delta_def)
  define p2 where "p2 = unmap_first K (mBufferCount p) p1"
  have p2: "bufs_mapped 0 p2" "live K (calls p2) = b" "rest_eq p1 p2"
    using unmap_first_between [OF p1(1) order_refl p1(3), of K] p1(2) by (simp_all add: p2_def bufs_between_all)
  have "mFd p2 = mFd p1" using p2(3) unfolding rest_eq_def by (metis pipeline.select_convs(1) pipeline.surjective
    pipeline.update_convs(8,20))
  moreover have "snd (stopStreaming K p) = p2\<lparr>mBufferCount := 0, mStreaming := False, mState := PIPELINE_OPENED\<rparr>"
    using True by (simp add: stopStreaming_def ask_eq Let_def p1_def [symmetric] p2_def p1(7))
  ultimately show ?thesis using p2 p1(4,6) by (simp add: pl_inv_def bufs_mapped_def)
qed

lemma close_inv:
  assumes "pl_based K b p"
  shows "pl_based K b (snd (pl_close K p)) \<and> mState (snd (pl_close K p)) = PIPELINE_CLOSED"
proof -
  define p1 where "p1 = snd (stopStreaming K p)"
  have p1: "pl_based K b p1" "\<not> mStreaming p1" using stopStreaming_inv [OF assms] by (simp_all add: p1_def)
  define p2 where "p2 = unmap_first K (mBufferCount p1) p1"
  have bm: "bufs_mapped (mBufferCount p1) p1" "mBufferCount p1 \<le> 4" using p1(1) by (simp_all add: pl_inv_def)
  have p2: "bufs_mapped 0 p2" "live K (calls p2) = b" "rest_eq p1 p2"
    using unmap_first_between [OF bm(1) order_refl bm(2), of K] p1(1) by (simp_all add: p2_def bufs_between_all pl_inv_def)
  have ua: "unmap_allocated K (mBufferCount p1) p1 = p2" using unmap_variants(1) [OF bm(1) order_refl bm(2)] by (simp add: p2_def)
  have st: "\<not> mStreaming p2" using p2(3) p1(2) unfolding rest_eq_def
    by (metis pipeline.select_convs(4) pipeline.surjective pipeline.update_convs(8,20))
  show ?thesis
    unfolding pl_close_def case_prod_beta Let_def p1_def [symmetric] ua using p2 st
    by (simp add: ask_eq pl_inv_def bufs_mapped_def live_append_other)
qed


lemma same_core_queue: "queue_buffers K n i p = (x, p') \<Longrightarrow> same_core p p'"
proof (induction n arbitrary: i p)
  case (Suc n)
  have "same_core p (snd (ask K (VQBuf (mFd p) i MMAP) p))" by (rule same_core_ask) simp
  then show ?case using Suc by (auto simp: Let_def ask_eq split: if_splits dest!: Suc.IH intro: same_core_trans)
qed simp

lemma startStreaming_inv:
  assumes "pl_based K b p"
  shows "pl_based K b (snd (startStreaming K p)) \<and> mBufferCount (snd (startStreaming K p)) = mBufferCount p"
proof (cases "mState p = PIPELINE_OPENED")
  case False
  then show ?thesis using assms by (simp add: startStreaming_def)
next
  case True
  obtain x p1 where q: "queue_buffers K (mBufferCount p) 0 p = (x, p1)" by (cases "queue_buffers K (mBufferCount p) 0 p")
  define p2 where "p2 = snd (ask K (VStreamOn (mFd p1)) p1)"
  define p3 where "p3 = snd (setExposure K (mCurrentExposure p2) p2)"
  define p4 where "p4 = snd (setGain K (mCurrentGain p3) p3)"
  have c1: "same_core p p1" by (rule same_core_queue [OF q])
  have c2: "same_core p p2" unfolding p2_def by (rule same_core_trans [OF c1 same_core_ask]) simp
  have c4: "same_core p p4" unfolding p4_def p3_def
    by (rule same_core_trans [OF same_core_trans [OF c2 same_core_controls(1)] same_core_controls(2)])
  have "snd (startStreaming K p) \<in> {p1, p2, p4\<lparr>mStreaming := True, mState := PIPELINE_STREAMING\<rparr>}"
    using True q by (auto simp: startStreaming_def case_prod_beta Let_def p2_def p3_def p4_def split: sum.split)
  moreover have "pl_based K b (p4\<lparr>mStreaming := True, mState := PIPELINE_STREAMING\<rparr>)"
    using pl_inv_core [OF assms c4] c4 True assms by (auto simp: pl_inv_def bufs_mapped_def same_core_def)
  ultimately show ?thesis using pl_inv_core [OF assms c1] pl_inv_core [OF assms c2] c1 c2 c4
    by (auto simp: same_core_def)
qed

text \<open>A failing system call sets a positive \<open>errno\<close>.\<close>

definition errno_set :: "driver \<Rightarrow> bool" where
  "errno_set K \<longleftrightarrow> (\<forall>h c. r_ret (K h c) < 0 \<longrightarrow> 0 < r_errno (K h c))"

lemma errno_setD: "errno_set K \<Longrightarrow> r_ret (K h c) < 0 \<Longrightarrow> 0 < r_errno (K h c)"
  by (simp add: errno_set_def)

text \<open>Steps that leave the image processor and its settings alone.\<close>

definition same_isp :: "pipeline \<Rightarrow> pipeline \<Rightarrow> bool" where
  "same_isp p p' \<longleftrightarrow> mConfig p' = mConfig p \<and> mDemosaic p' = mDemosaic p \<and> mColorConv p' = mColorConv p \<and>
     mRgbBuffer p' = mRgbBuffer p \<and> mAwbGains p' = mAwbGains p \<and> mGammaLut p' = mGammaLut p"

lemma same_isp_refl [simp]: "same_isp p p"
  by (simp add: same_isp_def)

lemma same_isp_trans: "same_isp p q \<Longrightarrow> same_isp q r \<Longrightarrow> same_isp p r"
  by (simp add: same_isp_def)

lemma same_isp_controls [simp]:
  "same_isp p (snd (setExposure K e p))" "same_isp p (snd (setGain K g p))" "same_isp p (snd (getExposure K p))"
  "same_isp p (snd (getGain K p))" "same_isp p (snd (setFocus K f p))" "same_isp p (snd (ask K c p))"
  by (simp_all add: setExposure_def setGain_def getExposure_def getGain_def setFocus_def ask_def Let_def same_isp_def)

lemma queue_buffers_isp: "queue_buffers K n i p = (x, p') \<Longrightarrow> same_isp p p'"
proof (induction n arbitrary: i p)
  case (Suc n)
  show ?case
    using Suc.prems Suc.IH [of "Suc i" "snd (ask K (VQBuf (mFd p) i MMAP) p)"]
      same_isp_trans [OF same_isp_controls(6) [of p K "VQBuf (mFd p) i MMAP"]]
    by (auto simp: Let_def case_prod_beta split: if_splits)
qed simp

lemma queue_buffers_error: "errno_set K \<Longrightarrow> queue_buffers K n i p = (Inl e, p') \<Longrightarrow> e < 0"
  by (induction n arbitrary: i p) (auto simp: Let_def ask_eq errno_set_def split: if_splits)

lemma unmap_one_isp: "same_isp p (unmap_one K i p)"
  by (simp add: unmap_one_def ask_eq Let_def same_isp_def split: option.split)

lemma unmap_first_isp: "same_isp p (unmap_first K n p)"
  by (induction n) (auto intro: unmap_one_isp same_isp_trans)

lemma startStreaming_effect:
  assumes "startStreaming K p = (r, p')"
  shows "mConfig p' = mConfig p \<and> mBufferCount p' = mBufferCount p \<and> same_isp p p' \<and>
    (mState p' = mState p \<or> mState p = PIPELINE_OPENED \<and> mState p' = PIPELINE_STREAMING) \<and>
    (r = 0 \<and> errno_set K \<longrightarrow> mState p' = PIPELINE_STREAMING)"
proof (cases "mState p = PIPELINE_OPENED")
  case False
  then show ?thesis using assms by (auto simp: startStreaming_def errno_defs)
next
  case True
  obtain x p1 where q: "queue_buffers K (mBufferCount p) 0 p = (x, p1)" by (cases "queue_buffers K (mBufferCount p) 0 p")
  have c1: "same_core p p1" "same_isp p p1" using same_core_queue [OF q] queue_buffers_isp [OF q] by simp_all
  show ?thesis
  proof (cases x)
    case (Inl e)
    then have "r = e" "p' = p1" using True q assms by (simp_all add: startStreaming_def)
    moreover have "errno_set K \<Longrightarrow> e < 0" using queue_buffers_error q Inl by blast
    ultimately show ?thesis using c1 True by (auto simp: same_core_def)
  next
    case (Inr u)
    define p2 where "p2 = snd (ask K (VStreamOn (mFd p1)) p1)"
    define p3 where "p3 = snd (setExposure K (mCurrentExposure p2) p2)"
    define p4 where "p4 = snd (setGain K (mCurrentGain p3) p3)"
    have c2: "same_core p p2" unfolding p2_def by (rule same_core_trans [OF c1(1) same_core_ask]) simp
    have c4: "same_core p p4" unfolding p4_def p3_def
      by (rule same_core_trans [OF same_core_trans [OF c2 same_core_controls(1)] same_core_controls(2)])
    have d: "same_isp p p2" "same_isp p p4" unfolding p4_def p3_def p2_def
      by (meson c1(2) same_isp_trans same_isp_controls)+
    have "startStreaming K p = (if r_ret (K (calls p1) (VStreamOn (mFd p1))) < 0 then (- r_errno (K (calls p1) (VStreamOn (mFd p1))), p2)
        else (0, p4\<lparr>mStreaming := True, mState := PIPELINE_STREAMING\<rparr>))"
      using True q Inr by (simp add: startStreaming_def case_prod_beta Let_def p2_def p3_def p4_def ask_eq)
    then show ?thesis using assms c2 c4 d True errno_setD [of K "calls p1" "VStreamOn (mFd p1)"]
      by (auto simp: same_core_def same_isp_def split: if_splits)
  qed
qed

lemma stopStreaming_effect:
  "same_isp p (snd (stopStreaming K p)) \<and>
   (mState (snd (stopStreaming K p)) = (if mStreaming p then PIPELINE_OPENED else mState p))"
proof (cases "mStreaming p")
  case True
  define p1 where "p1 = snd (ask K (VStreamOff (mFd p)) p)"
  have "snd (stopStreaming K p) = (unmap_first K (mBufferCount p) p1)\<lparr>mBufferCount := 0, mStreaming := False, mState := PIPELINE_OPENED\<rparr>"
    using True by (simp add: stopStreaming_def ask_eq Let_def p1_def)
  moreover have "same_isp p p1" by (simp add: p1_def)
  ultimately show ?thesis using True unmap_first_isp [of p1 K "mBufferCount p"] by (simp add: same_isp_def)
qed (simp add: stopStreaming_def)

lemma configure_isp_core: "configure_isp junk cfg p = Some (r, p') \<Longrightarrow> same_core p p'"
  by (auto simp: configure_isp_def same_core_def Let_def case_prod_beta split: outcome.splits prod.splits if_splits)

lemma rest_eq_fields:
  assumes "rest_eq p q"
  shows "mFd q = mFd p" "mState q = mState p" "mStreaming q = mStreaming p" "mBufferCount q = mBufferCount p" "mConfig q = mConfig p"
proof -
  obtain b c where "q = p\<lparr>mBuffers := b, calls := c\<rparr>" using assms unfolding rest_eq_def by blast
  then show "mFd q = mFd p" "mState q = mState p" "mStreaming q = mStreaming p" "mBufferCount q = mBufferCount p" "mConfig q = mConfig p"
    by simp_all
qed

lemma configure_rest_core:
  assumes "configure_rest powf junk cfg p = Some (r, p')"
  shows "same_core p p'"
proof -
  obtain ret q where q: "(if cfg_enableISP cfg then configure_isp junk cfg p else Some (0, p)) = Some (ret, q)"
    using assms unfolding configure_rest_def by (auto split: option.splits)
  then have "same_core p q" using configure_isp_core by (auto split: if_splits)
  moreover have "same_core q p'" using assms unfolding configure_rest_def q by (auto simp: Let_def same_core_def split: if_splits)
  ultimately show ?thesis by (rule same_core_trans)
qed

lemma said_same_core: "\<not> mapcall c \<Longrightarrow> same_core p (said c p)"
  by (simp add: same_core_def said_def)

lemma pl_inv_mapped:
  assumes "mapped_to K (p\<lparr>mBufferCount := k\<rparr>) 0 k (res, q)" "pl_based K b p" "k \<le> 4"
    "mState p = PIPELINE_OPENED"
  shows "pl_based K (b + int (mBufferCount p)) q"
proof (cases res)
  case (Inl e)
  then have "rest_eq (p\<lparr>mBufferCount := 0\<rparr>) q" "bufs_mapped 0 q" "live K (calls q) = live K (calls p)"
    using assms(1) by (simp_all add: mapped_to_def)
  then show ?thesis using rest_eq_fields [of "p\<lparr>mBufferCount := 0\<rparr>" q] assms(2-4) by (simp add: pl_inv_def)
next
  case (Inr u)
  then have "rest_eq (p\<lparr>mBufferCount := k\<rparr>) q" "bufs_mapped k q" "live K (calls q) = live K (calls p) + int k"
    using assms(1) by (simp_all add: mapped_to_def)
  then show ?thesis using rest_eq_fields [of "p\<lparr>mBufferCount := k\<rparr>" q] assms(2-4) by (simp add: pl_inv_def)
qed

lemma mapped_config: "mapped_to K (p\<lparr>mBufferCount := k\<rparr>) 0 k (res, q) \<Longrightarrow> mConfig q = mConfig p \<and> mState q = mState p"
  using rest_eq_fields [of "p\<lparr>mBufferCount := 0\<rparr>" q] rest_eq_fields [of "p\<lparr>mBufferCount := k\<rparr>" q]
  by (cases res) (auto simp: mapped_to_def)

lemma configure_effect:
  assumes "configure K powf junk cfg p = Some (r, p')" "pl_based K b p" "four_buffers K"
  shows "pl_based K (b + (if buffers_granted K cfg p then int (mBufferCount p) else 0)) p' \<and>
    (r = 0 \<longrightarrow> mConfig p' = cfg \<and> mState p' = mState p)"
proof -
  define p0 where "p0 = p\<lparr>mConfig := cfg\<rparr>"
  define c1 where "c1 = VSetFmt (mFd p) (cfg_width cfg) (cfg_height cfg) (cfg_pixelFormat cfg)"
  define p1 where "p1 = said c1 p0"
  define p2 where "p2 = said (VReqBufs (mFd p) 2) p1"
  define k where "k = r_count (K (calls p1) (VReqBufs (mFd p) 2))"
  have i0: "pl_based K b p0" "mBufferCount p0 = mBufferCount p" "mConfig p0 = cfg" "mState p0 = mState p"
    using assms(2) by (simp_all add: p0_def pl_inv_def bufs_mapped_def)
  have c1: "same_core p0 p1" unfolding p1_def c1_def by (rule said_same_core) simp
  have c2: "same_core p0 p2" unfolding p2_def by (rule same_core_trans [OF c1 said_same_core]) simp
  have e: "mFd p0 = mFd p" "mFd p1 = mFd p" by (simp_all add: p1_def p0_def)
  have g: "buffers_granted K cfg p \<longleftrightarrow> mState p \<noteq> PIPELINE_STREAMING \<and> \<not> mFd p < 0 \<and> \<not> r_ret (K (calls p0) c1) < 0 \<and>
      \<not> r_ret (K (calls p1) (VReqBufs (mFd p) 2)) < 0 \<and> 2 \<le> k"
    by (simp add: buffers_granted_def Let_def p1_def p0_def c1_def k_def)
  note a = assms(1) [unfolded configure_def ask_eq p0_def [symmetric] Let_def prod.case]
  consider "p' = p" "r = -EBUSY" "\<not> buffers_granted K cfg p" | "p' \<in> {p0, p1, p2}" "\<not> buffers_granted K cfg p"
    | "mState p = PIPELINE_OPENED" "buffers_granted K cfg p" "(case map_buffers K k 0 (p2\<lparr>mBufferCount := k\<rparr>) of
         None \<Rightarrow> None | Some (Inl e, p) \<Rightarrow> Some (e, p) | Some (Inr _, p) \<Rightarrow> configure_rest powf junk cfg p) = Some (r, p')"
    using a assms(2) unfolding said_def [symmetric] e c1_def [symmetric] p1_def [symmetric] p2_def [symmetric] k_def [symmetric]
    by (cases "mState p") (auto simp: pl_inv_def e g split: if_splits)
  then show ?thesis
  proof cases
    case 1
    then show ?thesis using assms(2) by (simp add: errno_defs)
  next
    case 2
    then show ?thesis using pl_inv_core [OF i0(1)] i0 c1 c2 by (auto simp: same_core_def)
  next
    case 3
    have k4: "k \<le> 4" using assms(3) by (simp add: four_buffers_def k_def)
    have i2: "pl_based K b p2" by (rule pl_inv_core [OF i0(1) c2])
    have z: "mBufferCount p2 = mBufferCount p" "mState p2 = PIPELINE_OPENED" "mConfig p2 = cfg"
      using c2 i0 3(1) by (simp_all add: same_core_def)
    have "bufs_mapped 0 (p2\<lparr>mBufferCount := k\<rparr>)" using i2 by (simp add: pl_inv_def bufs_mapped_def)
    then obtain res q where x: "map_buffers K k 0 (p2\<lparr>mBufferCount := k\<rparr>) = Some (res, q)"
        "mapped_to K (p2\<lparr>mBufferCount := k\<rparr>) 0 k (res, q)"
      using map_buffers_maps [of 0 "p2\<lparr>mBufferCount := k\<rparr>" k K] k4 by auto
    have q: "pl_based K (b + int (mBufferCount p)) q" using pl_inv_mapped [OF x(2) i2 k4 z(2)] z(1) by simp
    have "same_core q p'" using 3(3) unfolding x(1) by (cases res) (auto dest: configure_rest_core)
    then show ?thesis using pl_inv_core [OF q] mapped_config [OF x(2)] z 3(1,2) by (simp add: same_core_def)
  qed
qed

lemma configure_fresh:
  assumes "configure K powf junk cfg p = Some (r, p')" "pl_based K b p" "mBufferCount p = 0" "four_buffers K"
  shows "pl_based K b p' \<and> (r = 0 \<longrightarrow> mConfig p' = cfg \<and> mState p' = mState p)"
  using configure_effect [OF assms(1,2,4)] assms(3) by (simp split: if_splits)

lemma pl_step_inv:
  assumes "pl_step K powf p n p'" "pl_based K b p" "four_buffers K"
  shows "pl_based K (b + int n) p'"
  using assms(1)
proof cases
  case (st_configure junk cfg r)
  then show ?thesis using configure_effect [OF st_configure(2) assms(2,3)] by (simp split: if_splits)
next
  case st_cancel
  then show ?thesis using pl_inv_core [OF assms(2)] by (simp add: cancelAf_def)
next
  case (st_open cameraId)
  then show ?thesis using pl_inv_open [OF assms(2)] by simp
next
  case st_start
  then show ?thesis using startStreaming_inv [OF assms(2)] by simp
next
  case st_stop
  then show ?thesis using stopStreaming_inv [OF assms(2)] by simp
next
  case st_close
  then show ?thesis using close_inv [OF assms(2)] by simp
next
  case (st_capture o1 fmt r o2)
  then show ?thesis using pl_inv_core [OF assms(2) same_core_capture] by simp
next
  case st_scan
  then show ?thesis using pl_inv_core [OF assms(2) same_core_scan] by simp
qed (use pl_inv_core [OF assms(2)] in simp_all)

lemma pl_run_inv:
  assumes "pl_run K powf p n p'" "pl_based K b p" "four_buffers K"
  shows "pl_based K (b + int n) p'"
  using assms(1,2)
proof (induction rule: pl_run.induct)
  case (run_step p n q m r)
  then show ?case using pl_step_inv [OF run_step.hyps(2) _ assms(3)] by (fastforce simp: add.assoc)
qed simp

end
