(* ===== verification/PipelineProps.thy ===== *)
theory PipelineProps
  imports PipelineStates
begin

text \<open>
  What the camera pipeline promises its client: state consistency, release of mappings, bounded
  control loops, return of buffers and memory safety of a capture, and the behaviour of the
  autofocus scan.
\<close>

section \<open>Properties\<close>

text \<open>C3. For a driver that grants at most four buffers, the size of the buffer table, and any sequence
  of calls of the pipeline's public operations that return, in any order, on a new pipeline: the
  streaming flag agrees with the state, the descriptor is open exactly when the state is not closed,
  a closed pipeline has no buffer, the first \<open>mBufferCount\<close> of the four entries are mapped, and the
  memory mappings alive in the transcript of system calls are these \<open>mBufferCount\<close> and the \<open>n\<close> that
  the calls of \<open>configure\<close> have overwritten. Only a \<open>configure\<close> that comes to its mapping loop while
  buffers are mapped, which the code does not check, overwrites any; no other operation leaks a
  mapping or releases one twice, and a \<open>close\<close> releases all but those \<open>n\<close>.\<close>

theorem pipeline_reachable:
  assumes "four_buffers K" "pl_run K powf (CameraPipeline_new cfg0 id0 lut0 h0) n p"
  shows "(mStreaming p \<longleftrightarrow> mState p = PIPELINE_STREAMING) \<and> (mState p = PIPELINE_CLOSED \<longleftrightarrow> mFd p < 0) \<and>
    (mState p = PIPELINE_CLOSED \<longrightarrow> mBufferCount p = 0) \<and>
    mBufferCount p \<le> 4 \<and> length (mBuffers p) = 4 \<and>
    (\<forall>i < mBufferCount p. vb_start (mBuffers p ! i) \<noteq> None \<and> vb_allocated (mBuffers p ! i)) \<and>
    live K (calls p) = live K h0 + int n + int (mBufferCount p) \<and>
    live K (calls (snd (pl_close K p))) = live K h0 + int n"
proof -
  have i: "pl_based K (live K h0 + int n) p" by (rule pl_run_inv [OF assms(2) pl_inv_new assms(1)])
  moreover have "live K (calls (snd (pl_close K p))) = live K h0 + int n"
    using close_inv [OF i] by (simp add: pl_inv_def)
  ultimately show ?thesis by (simp add: pl_inv_def bufs_mapped_def)
qed

definition no_ans :: vans where
  "no_ans = \<lparr> r_ret = 0, r_errno = 0, r_capture = True, r_streaming = True, r_value = 0, r_count = 2, r_length = 8,
     r_offset = 0, r_addr = 4096, r_pollin = True, r_index = 0, r_bytesused = 0, r_data = [] \<rparr>"

text \<open>A driver that accepts everything, with two buffers and descriptor 0.\<close>

definition test_driver :: driver where
  "test_driver h c = (case c of VPoll _ _ \<Rightarrow> no_ans\<lparr>r_ret := 1\<rparr> | _ \<Rightarrow> no_ans)"

definition test_config :: PipelineConfig where
  "test_config = \<lparr> cfg_width = 12, cfg_height = 3, cfg_pixelFormat = 0, cfg_bayerPattern = 3, cfg_offset_x = 0,
     cfg_offset_y = 0, cfg_flipV = False, cfg_enableISP = True, cfg_blackLevel = 0, cfg_wbGain = [1, 1, 1, 1],
     cfg_gamma = 1, cfg_enableAE = True, cfg_enableAWB = True, cfg_targetLuma = 1 / 2, cfg_digitalGain = 6 \<rparr>"

lemma test_driver_four: "four_buffers test_driver"
  by (simp add: four_buffers_def test_driver_def no_ans_def)

definition test_new :: pipeline where
  "test_new = CameraPipeline_new test_config 0 [] []"

text \<open>Opening, configuring twice and closing: the two mappings of the first configuration stay.\<close>

definition test_opened :: pipeline where
  "test_opened = snd (pl_open test_driver 0 test_new)"

definition test_plain :: PipelineConfig where
  "test_plain = test_config\<lparr>cfg_enableISP := False\<rparr>"

lemma test_opened_run: "pl_run test_driver (\<lambda>_ _. 0) test_new 0 test_opened" "mState test_opened = PIPELINE_OPENED"
  "mFd test_opened = 0" "mBufferCount test_opened = 0" "length (mBuffers test_opened) = 4"
proof -
  show "pl_run test_driver (\<lambda>_ _. 0) test_new 0 test_opened"
    using run_step [OF run_nil st_open, of test_driver "\<lambda>_ _. 0" test_new 0] by (simp add: test_opened_def)
qed (simp_all add: test_opened_def pl_open_def test_new_def CameraPipeline_new_def ask_eq Let_def test_driver_def no_ans_def initFocuser_def)

lemma test_plain_configure:
  assumes "mState p = PIPELINE_OPENED" "mFd p = 0" "length (mBuffers p) = 4"
  shows "buffers_granted test_driver test_plain p \<and> (\<exists>q. configure test_driver (\<lambda>_ _. 0) junk test_plain p = Some (0, q) \<and>
    mState q = PIPELINE_OPENED \<and> mFd q = 0 \<and> length (mBuffers q) = 4 \<and> mBufferCount q = 2)"
proof -
  have "mBuffers p \<noteq> []" using assms(3) by auto
  then show ?thesis using assms
    by (simp add: buffers_granted_def configure_def configure_rest_def ask_eq Let_def test_driver_def no_ans_def test_plain_def test_config_def
        numeral_2_eq_2)
qed

theorem pipeline_reachable_witness:
  "\<exists>p. pl_run test_driver (\<lambda>_ _. 0) test_new 2 p \<and> mState p = PIPELINE_OPENED \<and> mBufferCount p = 2 \<and>
     live test_driver (calls p) = 4 \<and> live test_driver (calls (snd (pl_close test_driver p))) = 2"
proof -
  obtain q where q: "configure test_driver (\<lambda>_ _. 0) (\<lambda>_. 0) test_plain test_opened = Some (0, q)" "mState q = PIPELINE_OPENED"
      "mFd q = 0" "length (mBuffers q) = 4" "mBufferCount q = 2"
    using test_plain_configure [OF test_opened_run(2,3,5)] by blast
  obtain p where p: "buffers_granted test_driver test_plain q" "configure test_driver (\<lambda>_ _. 0) (\<lambda>_. 0) test_plain q = Some (0, p)"
      "mState p = PIPELINE_OPENED" "mBufferCount p = 2"
    using test_plain_configure [OF q(2-4)] by blast
  have "pl_run test_driver (\<lambda>_ _. 0) test_new 2 p"
    using run_step [OF run_step [OF test_opened_run(1) st_configure [OF q(1)]] st_configure [OF p(2)]] test_opened_run(4) p(1) q(5)
    by (simp add: numeral_2_eq_2 split: if_splits)
  then show ?thesis using pipeline_reachable [OF test_driver_four, of "\<lambda>_ _. 0" test_config 0 "[]" "[]" 2 p] p(3,4)
    unfolding test_new_def by (auto simp: live_def)
qed

lemma poll_retry_calls:
  "poll_retry K n p = (x, p') \<Longrightarrow> \<exists>m \<le> n. p' = p\<lparr>calls := calls p @ replicate m (VPoll (mFd p) 300)\<rparr> \<and> (x = Inr () \<longrightarrow> 1 \<le> m)"
proof (induction n arbitrary: p)
  case 0
  then show ?case by auto
next
  case (Suc n)
  let ?q = "p\<lparr>calls := calls p @ [VPoll (mFd p) 300]\<rparr>"
  show ?case
  proof (cases "r_ret (K (calls p) (VPoll (mFd p) 300)) = 0")
    case True
    then have "poll_retry K n ?q = (x, p')" using Suc.prems by (simp add: ask_eq)
    from Suc.IH [OF this] obtain m where "m \<le> n" "p' = p\<lparr>calls := calls p @ replicate (Suc m) (VPoll (mFd p) 300)\<rparr>"
      by auto
    then show ?thesis by (intro exI [of _ "Suc m"]) simp
  next
    case False
    then have "p' = ?q" using Suc.prems by (auto simp: ask_eq Let_def split: if_splits)
    then show ?thesis by (intro exI [of _ 1]) simp
  qed
qed

lemma setctrl_calls:
  "calls (snd (setGain K g p)) = calls p @ [VSetCtrl (mFd p) Gain g]" "mFd (snd (setGain K g p)) = mFd p"
  "calls (snd (setExposure K e p)) = calls p @ [VSetCtrl (mFd p) Exposure e]" "mFd (snd (setExposure K e p)) = mFd p"
  by (simp_all add: setGain_def setExposure_def ask_eq Let_def)

definition ae_call :: "int \<Rightarrow> vcall \<Rightarrow> bool" where
  "ae_call fd c \<longleftrightarrow> (\<exists>e. c = VSetCtrl fd Exposure e \<and> 10 \<le> e \<and> e \<le> 2490) \<or> (\<exists>g. c = VSetCtrl fd Gain g \<and> 1 \<le> g \<and> g \<le> 180)"

lemma ae_moves_calls:
  assumes "ae_moves K p p'"
  shows "\<exists>cs. calls p' = calls p @ cs \<and> (\<forall>c \<in> set cs. ae_call (mFd p) c) \<and> length cs \<le> 2"
  using assms unfolding ae_moves_def by (auto simp: setctrl_calls ae_call_def)

text \<open>C34. On an image of the configured size the exposure loop terminates without reading out of
  bounds, makes at most two driver calls, and whatever the image and the driver's answers these set
  the exposure to 10..2490 lines or the gain to 1..180.\<close>

theorem auto_exposure_bounded:
  assumes "3 * (unat (cfg_width (mConfig p)) * unat (cfg_height (mConfig p))) \<le> length rgb"
  shows "\<exists>p' cs. doAutoExposure K (Some rgb) p = Some p' \<and> calls p' = calls p @ cs \<and> length cs \<le> 2 \<and>
    (\<forall>c \<in> set cs. (\<exists>e. c = VSetCtrl (mFd p) Exposure e \<and> 10 \<le> e \<and> e \<le> 2490) \<or>
       (\<exists>g. c = VSetCtrl (mFd p) Gain g \<and> 1 \<le> g \<and> g \<le> 180))"
proof -
  obtain p' where p': "doAutoExposure K (Some rgb) p = Some p'" using doAutoExposure_Some [OF assms] by blast
  then obtain cs where "calls p' = calls p @ cs" "\<forall>c \<in> set cs. ae_call (mFd p) c" "length cs \<le> 2"
    using ae_moves_calls [OF doAutoExposure_moves [OF p']] by blast
  then show ?thesis using p' unfolding ae_call_def by blast
qed

theorem auto_exposure_bounded_witness:
  "\<exists>p' cs. doAutoExposure test_driver (Some (replicate 108 0)) test_new = Some p' \<and> calls p' = calls test_new @ cs \<and> length cs \<le> 2"
  using auto_exposure_bounded [of test_new "replicate 108 0" test_driver]
  by (auto simp: test_new_def CameraPipeline_new_def test_config_def)

lemma doAutoWhiteBalance_Some:
  assumes "3 * (unat (cfg_width (mConfig p)) * unat (cfg_height (mConfig p))) \<le> length rgb"
  shows "\<exists>p'. doAutoWhiteBalance (Some rgb) p = Some p'"
proof -
  obtain a b c d where "awb_sum rgb (unat (cfg_width (mConfig p))) (unat (cfg_height (mConfig p))) = Some (a, b, c, d)"
    using awb_sum_Some [OF assms] by (metis prod_cases4)
  then have "doAutoWhiteBalance (Some rgb) p \<noteq> None"
    unfolding doAutoWhiteBalance_def Let_def option.case by (auto split: if_splits)
  then show ?thesis by blast
qed

text \<open>On an image of the configured size the white balance estimator keeps both gains within
  their limits, from any state where they are, and never calls the driver.\<close>

lemma auto_white_balance_bounded:
  assumes "awb_ok p" "3 * (unat (cfg_width (mConfig p)) * unat (cfg_height (mConfig p))) \<le> length rgb"
  shows "\<exists>p'. doAutoWhiteBalance (Some rgb) p = Some p' \<and> awb_ok p' \<and> calls p' = calls p"
proof -
  obtain p' where p': "doAutoWhiteBalance (Some rgb) p = Some p'"
    using doAutoWhiteBalance_Some [OF assms(2)] by blast
  then show ?thesis using doAutoWhiteBalance_keeps [OF p' assms(1)] by auto
qed

section \<open>Capturing\<close>

lemma poll_retry_error: "errno_set K \<Longrightarrow> poll_retry K n p = (Inl e, p') \<Longrightarrow> e < 0"
proof (induction n arbitrary: p)
  case 0
  then show ?case by (simp add: errno_defs)
next
  case (Suc n)
  then show ?case by (auto simp: Let_def ask_eq errno_set_def errno_defs split: if_splits)
qed

lemma capture_no_buffers:
  assumes "mState p = PIPELINE_STREAMING" "mBufferCount p = 0" "errno_set K"
  shows "\<exists>r p'. captureFrame K powf (Some out) fmt p = Some (r, Some out, p') \<and> r < 0"
proof -
  obtain x p1 where q: "poll_retry K 6 p = (x, p1)" by (cases "poll_retry K 6 p")
  have "mBufferCount p1 = 0" using same_core_poll [OF q] assms(2) by (simp add: same_core_def)
  then show ?thesis
    using assms q poll_retry_error [OF assms(3)]
    by (cases x) (auto simp: captureFrame_def ask_eq Let_def errno_set_def errno_defs)
qed

text \<open>When streaming is stopped and started again without a new configuration, the pipeline has
  no buffer, and although it reports streaming every capture fails.\<close>

lemma restart_without_buffers:
  assumes "pl_inv K h0 p" "mState p = PIPELINE_STREAMING" "errno_set K"
    and "startStreaming K (snd (stopStreaming K p)) = (0, p1)" "mState p1 = PIPELINE_STREAMING"
  shows "mBufferCount p1 = 0 \<and>
    (\<exists>r p2. captureFrame K powf (Some out) fmt p1 = Some (r, Some out, p2) \<and> r < 0)"
proof -
  have "pl_inv K h0 (snd (stopStreaming K p))" "mBufferCount (snd (stopStreaming K p)) = 0"
    using stopStreaming_inv [OF assms(1)] assms(1,2) by (auto simp: pl_inv_def)
  then have "mBufferCount p1 = 0" using startStreaming_inv [of K "live K h0" "snd (stopStreaming K p)"] assms(4) by simp
  then show ?thesis using capture_no_buffers [OF assms(5) _ assms(3)] by blast
qed

definition test_streaming :: pipeline where
  "test_streaming = test_new\<lparr>mFd := 3, mState := PIPELINE_STREAMING, mStreaming := True\<rparr>"

lemma ask_pair: "snd (ask K c p) = said c p"
  by (simp add: ask_eq said_def)

lemma isp_updateE:
  assumes "isp_update K bayer d p = Some p'"
  obtains d' rgbb p2 where "of_outcome (process d bayer (mRgbBuffer p)) = Some (d', rgbb)"
    "ae_moves K (p\<lparr>mDemosaic := Some d', mRgbBuffer := rgbb\<rparr>) p2"
    "p' = p2 \<or> doAutoWhiteBalance (mRgbBuffer p2) p2 = Some p'"
proof -
  obtain d' rgbb where z: "of_outcome (process d bayer (mRgbBuffer p)) = Some (d', rgbb)"
    using assms unfolding isp_update_def by (elim bind_SomeE) (metis prod.exhaust)
  define q where "q = p\<lparr>mDemosaic := Some d', mRgbBuffer := rgbb\<rparr>"
  have "Option.bind (if cfg_enableAE (mConfig q) then doAutoExposure K (mRgbBuffer q) q else Some q)
      (\<lambda>p. if cfg_enableAWB (mConfig p) then doAutoWhiteBalance (mRgbBuffer p) p else Some p) = Some p'"
    using assms z unfolding isp_update_def Let_def q_def by simp
  then obtain p2 where
    2: "(if cfg_enableAE (mConfig q) then doAutoExposure K (mRgbBuffer q) q else Some q) = Some p2"
    and 3: "(if cfg_enableAWB (mConfig p2) then doAutoWhiteBalance (mRgbBuffer p2) p2 else Some p2) = Some p'"
    by (rule bind_SomeE)
  have "ae_moves K q p2" using 2 doAutoExposure_moves by (auto simp: ae_moves_def split: if_splits)
  moreover have "p' = p2 \<or> doAutoWhiteBalance (mRgbBuffer p2) p2 = Some p'" using 3 by (auto split: if_splits)
  ultimately show thesis using that z q_def by blast
qed

lemma awb_calls: "doAutoWhiteBalance rgb p = Some p' \<Longrightarrow> calls p' = calls p \<and> mFd p' = mFd p"
  using doAutoWhiteBalance_cases [of rgb p p'] by auto

lemma isp_update_calls:
  assumes "isp_update K bayer d p = Some p'"
  shows "\<exists>cs. calls p' = calls p @ cs \<and> (\<forall>c \<in> set cs. ae_call (mFd p) c)"
proof -
  obtain d' rgbb p2 where z: "ae_moves K (p\<lparr>mDemosaic := Some d', mRgbBuffer := rgbb\<rparr>) p2"
      "p' = p2 \<or> doAutoWhiteBalance (mRgbBuffer p2) p2 = Some p'"
    using assms by (rule isp_updateE)
  have "calls p' = calls p2" using z(2) awb_calls by auto
  then show ?thesis using ae_moves_calls [OF z(1)] by auto
qed

lemma process_calls:
  assumes "processBayerToYuv K powf bayer out fmt p = Some (ret, out', p')"
  shows "\<exists>cs. calls p' = calls p @ cs \<and> (\<forall>c \<in> set cs. ae_call (mFd p) c)"
proof (cases "\<exists>b d c. bayer = Some b \<and> mDemosaic p = Some d \<and> mColorConv p = Some c")
  case False
  then show ?thesis using assms by (auto simp: processBayerToYuv_def split: option.splits)
next
  case True
  then obtain b d c where bdc: "bayer = Some b" "mDemosaic p = Some d" "mColorConv p = Some c" by blast
  obtain p1 where p1: "isp_update K (Some b) d p = Some p1" "isp_output powf c out fmt p1 = Some (ret, out', p')"
    using assms bdc by (auto simp: processBayerToYuv_def elim: bind_SomeE)
  have "calls p' = calls p1" using isp_output_state [OF p1(2)] by auto
  then show ?thesis using isp_update_calls [OF p1(1)] by auto
qed

lemma deliver_calls:
  assumes "deliver K powf out fmt r p = Some (ret, out', p')"
  shows "\<exists>cs. calls p' = calls p @ cs @ [VQBuf (mFd p) (r_index r) MMAP] \<and> (\<forall>c \<in> set cs. ae_call (mFd p) c)"
proof -
  define x where "x = (if cfg_enableISP (mConfig p) \<and> mDemosaic p \<noteq> None \<and> mColorConv p \<noteq> None
      then processBayerToYuv K powf (frame_of p r) out fmt p
      else do { d \<leftarrow> frame_of p r; vs \<leftarrow> rd_block d 0 (r_bytesused r); out \<leftarrow> wr_block 0 vs out; Some (0, out, p) })"
  obtain ret1 out1 p1 where x: "x = Some (ret1, out1, p1)"
    using assms unfolding deliver_def x_def [symmetric] by (elim bind_SomeE) (metis prod.exhaust)
  have "\<exists>cs. calls p1 = calls p @ cs \<and> (\<forall>c \<in> set cs. ae_call (mFd p) c)"
    using x unfolding x_def by (auto dest: process_calls elim!: bind_SomeE split: if_splits)
  moreover have "same_core p p1"
    using x unfolding x_def by (auto dest: same_core_process elim!: bind_SomeE split: if_splits)
  moreover have "p' = snd (ask K (VQBuf (mFd p1) (r_index r) MMAP) p1)"
    using assms x unfolding deliver_def x_def [symmetric] by (simp add: ask_eq)
  ultimately show ?thesis by (auto simp: same_core_def)
qed

text \<open>A successful capture polls between one and six times, dequeues one buffer, makes only
  control calls while it processes the frame, and queues a buffer back whose index is one of the
  mapped buffers: the driver never loses a buffer on the success path.\<close>

lemma capture_requeues:
  assumes "captureFrame K powf (Some out) fmt p = Some (0, out', p')" "errno_set K"
  shows "\<exists>n i cs. 1 \<le> n \<and> n \<le> 6 \<and> i < mBufferCount p \<and>
    calls p' = calls p @ replicate n (VPoll (mFd p) 300) @ VDQBuf (mFd p) MMAP # cs @ [VQBuf (mFd p) i MMAP] \<and>
    (\<forall>c \<in> set cs. \<exists>ctl v. c = VSetCtrl (mFd p) ctl v)"
proof -
  have st: "mState p = PIPELINE_STREAMING" using assms(1) by (auto simp: captureFrame_def errno_defs split: if_splits)
  obtain x p1 where q: "poll_retry K 6 p = (x, p1)" by (cases "poll_retry K 6 p")
  have x: "x = Inr ()" using assms st q poll_retry_error [OF assms(2)] by (cases x) (auto simp: captureFrame_def)
  obtain n where n: "n \<le> 6" "1 \<le> n" "p1 = p\<lparr>calls := calls p @ replicate n (VPoll (mFd p) 300)\<rparr>"
    using poll_retry_calls [OF q] x by auto
  define r where "r = K (calls p1) (VDQBuf (mFd p1) MMAP)"
  define p2 where "p2 = said (VDQBuf (mFd p1) MMAP) p1"
  have p2: "calls p2 = calls p @ replicate n (VPoll (mFd p) 300) @ [VDQBuf (mFd p) MMAP]" "mFd p2 = mFd p"
      "mBufferCount p2 = mBufferCount p"
    using n(3) by (simp_all add: p2_def said_def)
  have ok: "\<not> r_ret r < 0" "r_index r < mBufferCount p"
    and d: "\<exists>out1. deliver K powf out fmt r p2 = Some (0, out1, p')"
  proof -
    have run: "captureFrame K powf (Some out) fmt p = (if r_ret r < 0 then Some (- r_errno r, Some out, p2)
        else if mBufferCount p2 \<le> r_index r then Some (-EINVAL, Some out, p2)
        else if length (mBuffers p2) \<le> r_index r then None
        else map_option (\<lambda>(ret, out, p). (ret, Some out, p)) (deliver K powf out fmt r p2))"
      using st q x by (simp add: captureFrame_def ask_eq Let_def r_def p2_def said_def)
    have er: "r_ret r < 0 \<Longrightarrow> r_errno r \<noteq> 0" using assms(2) unfolding errno_set_def r_def by force
    show "\<not> r_ret r < 0" "r_index r < mBufferCount p" "\<exists>out1. deliver K powf out fmt r p2 = Some (0, out1, p')"
      using assms(1) er unfolding run p2(3) by (auto simp: errno_defs split: if_splits)
  qed
  obtain out1 where "deliver K powf out fmt r p2 = Some (0, out1, p')" using d by blast
  from deliver_calls [OF this] obtain cs where
    cs: "calls p' = calls p2 @ cs @ [VQBuf (mFd p2) (r_index r) MMAP]" "\<forall>c \<in> set cs. ae_call (mFd p2) c" by blast
  have "\<forall>c \<in> set cs. \<exists>ctl v. c = VSetCtrl (mFd p) ctl v" using cs(2) p2(2) by (auto simp: ae_call_def)
  then show ?thesis using n(1,2) ok(2) cs(1) p2
    by (intro exI [of _ n] exI [of _ "r_index r"] exI [of _ cs]) simp
qed

definition test_copying :: pipeline where
  "test_copying = test_new\<lparr>mFd := 3, mState := PIPELINE_STREAMING, mStreaming := True, mBufferCount := 1,
     mConfig := test_config\<lparr>cfg_enableISP := False\<rparr>,
     mBuffers := \<lparr> vb_start = Some 4096, vb_length = 8, vb_allocated = True \<rparr> # replicate 3 no_buffer\<rparr>"

section \<open>A frame is captured without leaving any buffer\<close>

definition isp_ready :: "pipeline \<Rightarrow> bool" where
  "isp_ready p \<longleftrightarrow>
     (let cfg = mConfig p; w = unat (cfg_width cfg); h = unat (cfg_height cfg) in
      cfg_enableISP cfg \<and> cfg_enableAWB cfg \<and> 0 \<le> cfg_digitalGain cfg \<and> cfg_digitalGain cfg \<le> 80 \<and>
      mColorConv p \<noteq> None \<and> awb_ok p \<and> length (mGammaLut p) = 256 \<and>
      (\<exists>rgb. mRgbBuffer p = Some rgb \<and> length rgb = 3 * (w * h)) \<and>
      (\<exists>d pl. mDemosaic p = Some d \<and> mInitialized d \<and> mBayerBuf d = Some pl \<and> w * h \<le> length pl \<and>
         unat (width (mParams d)) = w \<and> unat (height (mParams d)) = h \<and> 3 \<le> w \<and> 3 \<le> h \<and>
         unat (bayerPattern (mParams d)) < 4 \<and> uint (blackLevel (mParams d)) < 256))"

lemma ftrunc_mono: "0 \<le> x \<Longrightarrow> x \<le> y \<Longrightarrow> 0 \<le> ftrunc x \<and> ftrunc x \<le> ftrunc y"
  by (auto simp: ftrunc_def intro: floor_mono)

lemma gain_q8_range:
  assumes "1 / 2 \<le> g" "g \<le> 3" "0 \<le> d" "d \<le> 80"
  shows "0 \<le> gain_q8 (fmul g d) \<and> gain_q8 (fmul g d) < 2 ^ 16"
proof -
  have f240: "fround 240 = 240" by (subst fround_eval [of 7]) simp_all
  have f61440: "fround 61440 = 61440" by (subst fround_eval [of 15]) simp_all
  have f61440h: "fround (122881 / 2) = 122881 / 2" by (subst fround_eval [of 15]) simp_all
  have "g * d \<le> 3 * 80" using assms by (intro mult_mono) simp_all
  then have x: "0 \<le> fmul g d" "fmul g d \<le> 240"
    using fround_mono [of "g * d" 240] f240 fround_nonneg [of "g * d"] assms by (simp_all add: fmul_def)
  then have y: "0 \<le> fmul (fmul g d) 256" "fmul (fmul g d) 256 \<le> 61440"
    using fround_mono [of "fmul g d * 256" 61440] f61440 fround_nonneg [of "fmul g d * 256"]
    unfolding fmul_def [of "fmul g d"] by simp_all
  then have "0 \<le> fadd (fmul (fmul g d) 256) (1 / 2)" "fadd (fmul (fmul g d) 256) (1 / 2) \<le> 122881 / 2"
    using fround_mono [of "fmul (fmul g d) 256 + 1 / 2" "122881 / 2"] f61440h
      fround_nonneg [of "fmul (fmul g d) 256 + 1 / 2"] unfolding fadd_def by simp_all
  then have "0 \<le> gain_q8 (fmul g d) \<and> gain_q8 (fmul g d) \<le> ftrunc (122881 / 2)"
    unfolding gain_q8_def by (rule ftrunc_mono)
  moreover have "\<lfloor>122881 / 2 :: rat\<rfloor> = 61440" by (rule floor_unique) simp_all
  then have "ftrunc (122881 / 2) = 61440" by (simp add: ftrunc_def)
  ultimately show ?thesis by simp
qed

lemma ae_moves_frame:
  assumes "ae_moves K p p'"
  shows "mConfig p' = mConfig p \<and> mColorConv p' = mColorConv p \<and> mDemosaic p' = mDemosaic p \<and>
    mRgbBuffer p' = mRgbBuffer p \<and> mGammaLut p' = mGammaLut p \<and> mAwbGains p' = mAwbGains p"
  using assms unfolding ae_moves_def
  by (elim disjE exE conjE) (simp_all add: setGain_def setExposure_def ask_eq Let_def)

lemma isp_update_ready:
  assumes "isp_ready p" "mDemosaic p = Some d"
    and "2 * (unat (cfg_width (mConfig p)) * unat (cfg_height (mConfig p))) \<le> length inp"
    and "ten_bit inp (unat (cfg_width (mConfig p)) * unat (cfg_height (mConfig p)))"
  shows "\<exists>p'. isp_update K (Some inp) d p = Some p' \<and> isp_ready p' \<and> mConfig p' = mConfig p"
proof -
  define w where "w = unat (cfg_width (mConfig p))"
  define h where "h = unat (cfg_height (mConfig p))"
  obtain rgb where rgb: "mRgbBuffer p = Some rgb" "length rgb = 3 * (w * h)"
    using assms(1) by (auto simp: isp_ready_def Let_def w_def h_def)
  obtain pl where d: "mInitialized d" "mBayerBuf d = Some pl" "w * h \<le> length pl" "unat (width (mParams d)) = w"
      "unat (height (mParams d)) = h" "3 \<le> w" "3 \<le> h" "unat (bayerPattern (mParams d)) < 4" "uint (blackLevel (mParams d)) < 256"
    using assms(1,2) by (auto simp: isp_ready_def Let_def w_def h_def)
  have "frame_ready d inp rgb"
    using d rgb(2) assms(3,4) by (simp add: frame_ready_def Let_def w_def h_def)
  from frame_result [OF this] obtain b8 out where
    pr: "process d (Some inp) (Some rgb) = Ret (d\<lparr>mBayerBuf := Some b8\<rparr>, Some out)" "length out = length rgb" "length b8 = length pl"
    using d(2) by auto
  define q where "q = p\<lparr>mDemosaic := Some (d\<lparr>mBayerBuf := Some b8\<rparr>), mRgbBuffer := Some out\<rparr>"
  have q: "isp_ready q" "mConfig q = mConfig p" "mRgbBuffer q = Some out"
    using assms(1) d pr(2,3) rgb(2) unfolding q_def isp_ready_def Let_def by (simp_all add: awb_ok_def w_def h_def)
  have fits: "3 * (unat (cfg_width (mConfig q)) * unat (cfg_height (mConfig q))) \<le> length out"
    using pr(2) rgb(2) q(2) by (simp add: w_def h_def)
  obtain p2 where p2: "(if cfg_enableAE (mConfig q) then doAutoExposure K (mRgbBuffer q) q else Some q) = Some p2"
    using doAutoExposure_Some [OF fits] q(3) by (cases "cfg_enableAE (mConfig q)") auto
  have "ae_moves K q p2" using p2 doAutoExposure_moves by (auto simp: ae_moves_def split: if_splits)
  note f2 = ae_moves_frame [OF this]
  have r2: "isp_ready p2" using q(1) f2 unfolding isp_ready_def Let_def by (simp add: awb_ok_def)
  have "3 * (unat (cfg_width (mConfig p2)) * unat (cfg_height (mConfig p2))) \<le> length out" using fits f2 by simp
  then obtain p3 where p3: "doAutoWhiteBalance (Some out) p2 = Some p3" using doAutoWhiteBalance_Some by blast
  have "awb_ok p2" using r2 by (simp add: isp_ready_def Let_def)
  from doAutoWhiteBalance_keeps [OF p3 this] obtain gs b where
    k: "awb_ok p3" "p3 = p2\<lparr>mAwbGains := gs, mHasAwbInit := b\<rparr>" by blast
  have "isp_ready p3" using r2 k unfolding isp_ready_def Let_def by simp
  moreover have "isp_update K (Some inp) d p = Some p3"
  proof -
    have "cfg_enableAWB (mConfig p2)" "mRgbBuffer p2 = Some out" using r2 f2 q(3) by (simp_all add: isp_ready_def Let_def)
    moreover have "of_outcome (process d (Some inp) (mRgbBuffer p)) = Some (d\<lparr>mBayerBuf := Some b8\<rparr>, Some out)"
      using pr(1) rgb(1) by simp
    then have "isp_update K (Some inp) d p =
        Option.bind (if cfg_enableAE (mConfig q) then doAutoExposure K (mRgbBuffer q) q else Some q)
          (\<lambda>p. if cfg_enableAWB (mConfig p) then doAutoWhiteBalance (mRgbBuffer p) p else Some p)"
      unfolding isp_update_def q_def by (simp add: Let_def)
    ultimately show ?thesis using p2 p3 by simp
  qed
  ultimately show ?thesis using k(2) f2 q(2) by auto
qed

lemma isp_output_rgba:
  assumes "isp_ready p" "4 * (unat (cfg_width (mConfig p)) * unat (cfg_height (mConfig p))) \<le> length out"
    and "fmt = HAL_PIXEL_FORMAT_RGBA_8888 \<or> fmt = HAL_PIXEL_FORMAT_IMPLEMENTATION_DEFINED"
  shows "\<exists>out'. isp_output powf c out fmt p = Some (0, out', p) \<and> length out' = length out"
proof -
  define w where "w = unat (cfg_width (mConfig p))"
  define h where "h = unat (cfg_height (mConfig p))"
  define G where "G = (\<lambda>i. gain_q8 (fmul (awb_gain p i) (cfg_digitalGain (mConfig p))))"
  have r: "cfg_enableAWB (mConfig p)" "0 \<le> cfg_digitalGain (mConfig p)" "cfg_digitalGain (mConfig p) \<le> 80" "awb_ok p"
      "length (mGammaLut p) = 256"
    using assms(1) by (simp_all add: isp_ready_def Let_def)
  obtain rgb where rgb: "mRgbBuffer p = Some rgb" "length rgb = 3 * (w * h)"
    using assms(1) by (auto simp: isp_ready_def Let_def w_def h_def)
  have "0 \<le> G i \<and> G i < 2 ^ 16" if "i < 4" for i
    using gain_q8_range [OF _ _ r(2,3)] r(1,4) that by (simp add: G_def awb_gain_def awb_ok_def)
  then have "gains_ok (G 0) (G 1) (G 2)" by (simp add: gains_ok_def)
  from wb_gamma_result [OF this, of "mGammaLut p" w h rgb out "cfg_flipV (mConfig p)"] obtain out' where
    o: "rgbToRgbaWbGamma (Some rgb) (Some out) w h (G 0) (G 1) (G 2) (Some (mGammaLut p)) (cfg_flipV (mConfig p)) = Ret (Some out')"
      "length out' = length out"
    using r(5) rgb(2) assms(2) by (auto simp: w_def h_def)
  have f: "fmt \<noteq> HAL_PIXEL_FORMAT_YCBCR_420_888" using assms(3) by (auto simp: pixel_formats)
  have "isp_output powf c out fmt p = Some (0, out', p)"
    unfolding isp_output_def Let_def using f assms(3) o(1) rgb(1) by (simp add: w_def h_def G_def)
  then show ?thesis using o(2) by blast
qed

lemma capture_rgba_total:
  fixes p :: pipeline
  defines "n \<equiv> unat (cfg_width (mConfig p)) * unat (cfg_height (mConfig p))"
  assumes "isp_ready p" "pl_inv K h0 p" "4 * n \<le> length out"
    and "fmt = HAL_PIXEL_FORMAT_RGBA_8888 \<or> fmt = HAL_PIXEL_FORMAT_IMPLEMENTATION_DEFINED"
    and "\<forall>h fd. 2 * n \<le> length (r_data (K h (VDQBuf fd MMAP))) \<and> ten_bit (r_data (K h (VDQBuf fd MMAP))) n"
  shows "\<exists>r out' p'. captureFrame K powf (Some out) fmt p = Some (r, Some out', p') \<and> length out' = length out \<and>
    isp_ready p' \<and> pl_inv K h0 p'"
proof -
  obtain x p1 where q: "poll_retry K 6 p = (x, p1)" by (cases "poll_retry K 6 p")
  obtain m where p1: "p1 = p\<lparr>calls := calls p @ replicate m (VPoll (mFd p) 300)\<rparr>" using poll_retry_calls [OF q] by blast
  define r where "r = K (calls p1) (VDQBuf (mFd p1) MMAP)"
  define p2 where "p2 = said (VDQBuf (mFd p1) MMAP) p1"
  have rd: "isp_ready p1" "isp_ready p2" "mConfig p2 = mConfig p" "mBuffers p2 = mBuffers p" "mBufferCount p2 = mBufferCount p"
    using assms(2) unfolding p1 p2_def said_def isp_ready_def Let_def by (simp_all add: awb_ok_def)
  obtain d where d: "mDemosaic p2 = Some d" using rd(2) by (auto simp: isp_ready_def Let_def)
  obtain c where c: "mColorConv p2 = Some c" using rd(2) by (auto simp: isp_ready_def Let_def)
  have dl: "\<exists>ret out' p3. deliver K powf out fmt r p2 = Some (ret, out', p3) \<and> length out' = length out \<and> isp_ready p3"
    if "r_index r < mBufferCount p2"
  proof -
    have "frame_of p2 r = Some (r_data r)"
      using that rd(4,5) assms(3) by (auto simp: frame_of_def pl_inv_def bufs_mapped_def split: option.split)
    moreover obtain p3 where p3: "isp_update K (Some (r_data r)) d p2 = Some p3" "isp_ready p3" "mConfig p3 = mConfig p2"
      using isp_update_ready [OF rd(2) d, of "r_data r" K] assms(6) rd(3) by (auto simp: r_def n_def)
    moreover have "4 * (unat (cfg_width (mConfig p3)) * unat (cfg_height (mConfig p3))) \<le> length out"
      using assms(4) p3(3) rd(3) by (simp add: n_def)
    from isp_output_rgba [OF p3(2) this assms(5)]
    obtain out' where o: "isp_output powf c out fmt p3 = Some (0, out', p3)" "length out' = length out" by blast
    moreover have "cfg_enableISP (mConfig p2)" using rd(2) by (simp add: isp_ready_def Let_def)
    ultimately have "deliver K powf out fmt r p2 = (let (q, p) = ask K (VQBuf (mFd p3) (r_index r) MMAP) p3
        in Some (if r_ret q < 0 then - r_errno q else 0, out', p))"
      using d c by (simp add: deliver_def processBayerToYuv_def)
    moreover have "isp_ready (said (VQBuf (mFd p3) (r_index r) MMAP) p3)"
      using p3(2) unfolding said_def isp_ready_def Let_def by (simp add: awb_ok_def)
    ultimately show ?thesis using o(2) by (simp add: ask_eq said_def)
  qed
  have "\<exists>r out' p'. captureFrame K powf (Some out) fmt p = Some (r, Some out', p') \<and> length out' = length out \<and> isp_ready p'"
  proof (cases "mState p \<noteq> PIPELINE_STREAMING \<or> x \<noteq> Inr () \<or> r_ret r < 0 \<or> mBufferCount p2 \<le> r_index r")
    case True
    then show ?thesis
      using q rd(1,2) assms(2) by (cases x) (auto simp: captureFrame_def ask_eq Let_def r_def p2_def said_def)
  next
    case False
    then have "r_index r < mBufferCount p2" by simp
    from dl [OF this] obtain ret out' p3 where
      d3: "deliver K powf out fmt r p2 = Some (ret, out', p3)" "length out' = length out" "isp_ready p3" by blast
    have "r_index r < length (mBuffers p2)" using False rd(4,5) assms(3) by (simp add: pl_inv_def bufs_mapped_def)
    then have "captureFrame K powf (Some out) fmt p = map_option (\<lambda>(ret, out, p). (ret, Some out, p)) (deliver K powf out fmt r p2)"
      using False q by (simp add: captureFrame_def ask_eq Let_def r_def p2_def said_def)
    then show ?thesis using d3 by simp
  qed
  then show ?thesis using pl_inv_core [OF assms(3)] same_core_capture by blast
qed

lemma isp_ready_cong: "same_isp p p' \<Longrightarrow> isp_ready p \<Longrightarrow> isp_ready p'"
  by (simp add: same_isp_def isp_ready_def awb_ok_def)

text \<open>C4. In any state of a pipeline whose image processor is ready for the configured size, a capture in
  an RGBA format into an output of at least 4 bytes per pixel of that size never reads or writes out
  of bounds, keeps the length of the output and leaves a state in which the next such capture is
  safe again. This rests on the driver delivering, in every buffer it gives back, a full frame of
  samples of at most ten bits; for the rest it may answer what it likes, errors included. The code
  checks neither the length of the output nor that of the frame.\<close>

theorem capture_rgba_safe:
  fixes p :: pipeline
  defines "n \<equiv> unat (cfg_width (mConfig p)) * unat (cfg_height (mConfig p))"
  assumes "isp_ready p" "pl_inv K h0 p" "4 * n \<le> length out"
    and "fmt = HAL_PIXEL_FORMAT_RGBA_8888 \<or> fmt = HAL_PIXEL_FORMAT_IMPLEMENTATION_DEFINED"
    and "\<forall>h fd. 2 * n \<le> length (r_data (K h (VDQBuf fd MMAP))) \<and> ten_bit (r_data (K h (VDQBuf fd MMAP))) n"
  shows "\<exists>r out' p'. captureFrame K powf (Some out) fmt p = Some (r, Some out', p') \<and> length out' = length out \<and>
    isp_ready p' \<and> pl_inv K h0 p'"
  by (rule capture_rgba_total [OF assms(2-6) [unfolded n_def], folded n_def])

definition test_frames :: driver where
  "test_frames h c = (test_driver h c)\<lparr>r_data := replicate 72 0\<rparr>"

definition test_isp :: pipeline where
  "test_isp = test_copying\<lparr>mConfig := test_config, mDemosaic := Some test_demosaic, mColorConv := Some ColorConvNEON_new,
     mRgbBuffer := Some (replicate 108 0), mGammaLut := replicate 256 0, calls := [VMmap 3 8 0]\<rparr>"

lemma test_isp_ready: "isp_ready test_isp"
proof -
  have "awb_ok test_isp"
    by (rule awb_ok_new [of 1 1]) (simp_all add: test_isp_def test_copying_def test_new_def CameraPipeline_new_def)
  then show ?thesis
    by (simp add: isp_ready_def Let_def test_isp_def test_config_def test_demosaic_def test_params_def)
qed

lemma test_isp_inv: "pl_inv test_frames [] test_isp"
  by (auto simp: pl_inv_def test_isp_def test_copying_def bufs_mapped_def no_buffer_def nth_Cons' live_def
      map_delta_def test_frames_def test_driver_def no_ans_def)

theorem capture_rgba_safe_witness:
  "\<exists>r out' p'. captureFrame test_frames (\<lambda>_ _. 0) (Some (replicate 144 7)) HAL_PIXEL_FORMAT_RGBA_8888 test_isp =
     Some (r, Some out', p') \<and> length out' = 144 \<and> isp_ready p'"
proof -
  have "ten_bit (replicate 72 0) 36" by (simp add: ten_bit_def sample16_def)
  then have "\<forall>h fd. 2 * (12 * 3) \<le> length (r_data (test_frames h (VDQBuf fd MMAP))) \<and>
      ten_bit (r_data (test_frames h (VDQBuf fd MMAP))) (12 * 3)" by (simp add: test_frames_def)
  then show ?thesis
    using capture_rgba_safe [OF test_isp_ready test_isp_inv, of "replicate 144 7" HAL_PIXEL_FORMAT_RGBA_8888 "\<lambda>_ _. 0"]
    by (auto simp: test_isp_def test_config_def)
qed

section \<open>Autofocus\<close>

text \<open>
  V4L2 refuses to dequeue with a memory type other than the one the buffers were requested with;
  the pipeline requests \<open>MMAP\<close> buffers.
\<close>

definition rejects_userptr :: "driver \<Rightarrow> bool" where
  "rejects_userptr K \<longleftrightarrow> (\<forall>h fd. r_ret (K h (VDQBuf fd USERPTR)) < 0)"

lemma captureForAf_fails:
  assumes "errno_set K" "rejects_userptr K"
  shows "\<exists>e p'. captureForAf K powf p = Some (e, p') \<and> e < 0"
  using assms by (auto simp: captureForAf_def ask_eq Let_def errno_set_def rejects_userptr_def errno_defs)

lemma af_step_keeps:
  assumes "errno_set K" "rejects_userptr K"
  shows "\<exists>p'. af_step K powf pos (b, bp, p) = Some (b, bp, p')"
proof -
  define p1 where "p1 = snd (ask K (VUsleep 60000) (snd (setFocus K pos p)))"
  obtain e p' where "captureForAf K powf p1 = Some (e, p')" "e < 0" using captureForAf_fails [OF assms] by blast
  then show ?thesis by (simp add: af_step_def Let_def p1_def)
qed

lemma af_sweeps_keep:
  assumes "errno_set K" "rejects_userptr K"
  shows "\<exists>p'. af_coarse K powf ps (b, bp, p) = Some (b, bp, p')" "\<exists>p'. af_fine K powf ps (b, bp, p) = Some (b, bp, p')"
proof (induction ps arbitrary: p)
  case (Cons pos ps)
  {
    case 1
    obtain p' where "af_step K powf pos (b, bp, p) = Some (b, bp, p')" using af_step_keeps [OF assms] by blast
    then show ?case using Cons.IH(1) by simp
  next
    case 2
    obtain p' where "af_step K powf pos (b, bp, p) = Some (b, bp, p')" using af_step_keeps [OF assms] by blast
    then show ?case using Cons.IH(2) by simp
  }
qed simp_all

text \<open>On a driver that follows V4L2, which refuses to dequeue memory-mapped buffers as user
  pointers, the autofocus scan never measures a frame, and always locks the start position 400.\<close>

lemma af_scan_never_measures:
  assumes "errno_set K" "rejects_userptr K" "mState p = PIPELINE_STREAMING"
  shows "\<exists>p' cs. startAfScan K powf p = Some p' \<and> mAfState p' = 4 \<and>
    calls p' = cs @ [VSetCtrl (mFd p) FocusAbsolute 400, VUsleep 60000]"
proof -
  obtain p1 where 1: "af_coarse K powf (positions 140 640 50) (0, 400, p\<lparr>mAfState := 1\<rparr>) = Some (0, 400, p1)"
    using af_sweeps_keep(1) [OF assms(1,2)] by blast
  obtain p2 where 2: "af_fine K powf (positions 350 450 10) (0, 400, p1) = Some (0, 400, p2)"
    using af_sweeps_keep(2) [OF assms(1,2)] by blast
  have "same_core p p2" using same_core_coarse [OF 1] same_core_fine [OF 2] same_core_trans by auto
  then have "mFd p2 = mFd p" by (simp add: same_core_def)
  then show ?thesis using 1 2 assms(3)
    by (auto simp: startAfScan_def Let_def setFocus_def ask_eq)
qed

text \<open>The best position stays among the ones the sweeps visit.\<close>

lemma af_step_pos:
  assumes "af_step K powf pos (b, bp, p) = Some (b', bp', p')" "140 \<le> bp \<and> bp \<le> 640" "140 \<le> pos \<and> pos \<le> 640" "0 \<le> b"
  shows "140 \<le> bp' \<and> bp' \<le> 640 \<and> b \<le> b'"
  using assms by (auto simp: af_step_def Let_def elim!: bind_SomeE split: if_splits)

lemma positions_range:
  assumes "0 < step" "pos \<in> set (positions a b step)"
  shows "a \<le> pos \<and> pos \<le> b"
proof -
  have "\<exists>k < nat ((b - a) div step + 1). pos = a + int k * step" using assms(2) by (auto simp: positions_def)
  then obtain k where k: "pos = a + int k * step" "k < nat ((b - a) div step + 1)" by blast
  then have "int k \<le> (b - a) div step" by linarith
  then have "int k * step \<le> (b - a) div step * step" using assms(1) by (intro mult_right_mono) simp_all
  also have "\<dots> \<le> b - a" using assms(1) by (simp add: minus_mod_eq_div_mult [symmetric])
  finally show ?thesis using k(1) assms(1) by simp
qed

lemma af_coarse_pos:
  assumes "af_coarse K powf ps (b, bp, p) = Some (b', bp', p')" "140 \<le> bp \<and> bp \<le> 640" "0 \<le> b"
    and "\<And>pos. pos \<in> set ps \<Longrightarrow> 140 \<le> pos \<and> pos \<le> 640"
  shows "140 \<le> bp' \<and> bp' \<le> 640 \<and> 0 \<le> b'"
  using assms
proof (induction ps arbitrary: b bp p)
  case (Cons pos ps)
  then obtain b1 bp1 p1 where 1: "af_step K powf pos (b, bp, p) = Some (b1, bp1, p1)" "af_coarse K powf ps (b1, bp1, p1) = Some (b', bp', p')"
    by (auto elim: bind_SomeE)
  have "140 \<le> bp1 \<and> bp1 \<le> 640 \<and> b \<le> b1" using af_step_pos [OF 1(1)] Cons.prems by simp
  then show ?case using Cons.IH [OF 1(2)] Cons.prems by simp
qed simp

lemma af_fine_pos:
  assumes "af_fine K powf ps (b, bp, p) = Some (b', bp', p')" "140 \<le> bp \<and> bp \<le> 640" "0 \<le> b"
    and "\<And>pos. pos \<in> set ps \<Longrightarrow> 140 \<le> pos \<and> pos \<le> 640"
  shows "140 \<le> bp' \<and> bp' \<le> 640"
  using assms
proof (induction ps arbitrary: b bp p)
  case (Cons pos ps)
  show ?case
  proof (cases "pos = bp")
    case False
    then obtain b1 bp1 p1 where 1: "af_step K powf pos (b, bp, p) = Some (b1, bp1, p1)" "af_fine K powf ps (b1, bp1, p1) = Some (b', bp', p')"
      using Cons.prems(1) by (auto elim: bind_SomeE)
    have "140 \<le> bp1 \<and> bp1 \<le> 640 \<and> b \<le> b1" using af_step_pos [OF 1(1)] Cons.prems by simp
    then show ?thesis using Cons.IH [OF 1(2)] Cons.prems by simp
  qed (use Cons in simp)
qed simp

text \<open>An autofocus scan that returns ends locked, in the streaming state, at a lens position
  between 140 and 640, which is the last position it sent to the focuser.\<close>

lemma af_scan_locks_in_range:
  assumes "startAfScan K powf p = Some p'" "mState p = PIPELINE_STREAMING"
  shows "\<exists>cs pos. 140 \<le> pos \<and> pos \<le> 640 \<and> mAfState p' = 4 \<and> mState p' = PIPELINE_STREAMING \<and>
    calls p' = cs @ [VSetCtrl (mFd p) FocusAbsolute pos, VUsleep 60000]"
proof -
  define tail where "tail = (\<lambda>(bestEnergy :: int, bestPos, p). Some ((snd (ask K (VUsleep 60000) (snd (setFocus K bestPos p))))\<lparr>mAfState := 4\<rparr>))"
  have run: "Option.bind (af_coarse K powf (positions 140 640 50) (0, 400, p\<lparr>mAfState := 1\<rparr>)) (\<lambda>(bestEnergy, bestPos, p).
      Option.bind (af_fine K powf (positions (max 140 (bestPos - 50)) (min 640 (bestPos + 50)) 10) (bestEnergy, bestPos, p)) tail) = Some p'"
    using assms unfolding startAfScan_def tail_def Let_def by simp
  then obtain e1 bp1 p1 where 1: "af_coarse K powf (positions 140 640 50) (0, 400, p\<lparr>mAfState := 1\<rparr>) = Some (e1, bp1, p1)"
    by (elim bind_SomeE) (metis prod_cases3)
  have b1: "140 \<le> bp1 \<and> bp1 \<le> 640 \<and> 0 \<le> e1"
  proof (rule af_coarse_pos [OF 1])
    show "140 \<le> pos \<and> pos \<le> 640" if "pos \<in> set (positions 140 640 50)" for pos
      using positions_range [OF _ that] by simp
  qed simp_all
  define f1 where "f1 = max 140 (bp1 - 50)"
  define f2 where "f2 = min 640 (bp1 + 50)"
  have run2: "Option.bind (af_fine K powf (positions f1 f2 10) (e1, bp1, p1)) tail = Some p'"
    using run unfolding 1 f1_def f2_def by simp
  then obtain e2 bp2 p2 where 2: "af_fine K powf (positions f1 f2 10) (e1, bp1, p1) = Some (e2, bp2, p2)"
    by (elim bind_SomeE) (metis prod_cases3)
  have b2: "140 \<le> bp2 \<and> bp2 \<le> 640"
  proof (rule af_fine_pos [OF 2])
    show "140 \<le> pos \<and> pos \<le> 640" if "pos \<in> set (positions f1 f2 10)" for pos
      using positions_range [OF _ that] by (simp add: f1_def f2_def)
  qed (use b1 in simp_all)
  have core: "same_core p p2" using same_core_coarse [OF 1] same_core_fine [OF 2] same_core_trans by auto
  have "p' = (snd (ask K (VUsleep 60000) (snd (setFocus K bp2 p2))))\<lparr>mAfState := 4\<rparr>"
    using run2 unfolding 2 tail_def by simp
  then show ?thesis using b2 core assms(2)
    by (intro exI [of _ "calls p2"] exI [of _ bp2]) (simp add: setFocus_def ask_eq Let_def same_core_def)
qed

end
