(* ===== verification/CameraCharacteristics.thy ===== *)
theory CameraCharacteristics
  imports Float32
begin

text \<open>
  The metadata tables of the camera HAL (\<open>camera/MochaCameraHAL.cpp\<close>): the static characteristics
  it publishes, the default settings of the request templates and the metadata of a capture
  result. Tags and enumerators are constants of the platform's headers and stand for themselves by
  name. The metadata library (\<open>system/camera_metadata.h\<close>) is a parameter that decides for every
  entry whether it is accepted; a buffer holds the entries accepted so far.
\<close>

section \<open>Metadata buffers\<close>

datatype mval = Named string | Lit int | Real rat | Ratio int int

type_synonym mentry = "string \<times> mval list"

record metadata =
  entry_capacity :: nat
  data_capacity :: nat
  entries :: "mentry list"

record mlib =
  m_alloc :: "nat \<Rightarrow> nat \<Rightarrow> bool"
  m_add :: "metadata \<Rightarrow> mentry \<Rightarrow> bool"

definition allocate_camera_metadata :: "mlib \<Rightarrow> nat \<Rightarrow> nat \<Rightarrow> metadata option" where
  "allocate_camera_metadata L ec dc =
     (if m_alloc L ec dc then Some \<lparr> entry_capacity = ec, data_capacity = dc, entries = [] \<rparr> else None)"

definition add_camera_metadata_entry :: "mlib \<Rightarrow> mentry \<Rightarrow> metadata \<Rightarrow> metadata" where
  "add_camera_metadata_entry L e m = (if m_add L m e then m\<lparr>entries := entries m @ [e]\<rparr> else m)"

text \<open>A run of calls whose results the source ignores.\<close>

definition add_entries :: "mlib \<Rightarrow> mentry list \<Rightarrow> metadata \<Rightarrow> metadata" where
  "add_entries L es m = fold (add_camera_metadata_entry L) es m"

section \<open>Static characteristics\<close>

datatype facing = CAMERA_FACING_BACK | CAMERA_FACING_FRONT

record MochaCameraInfo =
  cam_id :: int
  sensorName :: string
  facing :: facing
  orientation :: int
  maxResolution :: int
  supportsZSL :: bool

definition kCameras :: "MochaCameraInfo list" where
  "kCameras = [\<lparr> cam_id = 0, sensorName = ''IMX179'', facing = CAMERA_FACING_BACK, orientation = 90,
                 maxResolution = 3280, supportsZSL = False \<rparr>]"

definition kNumCameras :: int where
  "kNumCameras = int (length kCameras)"

definition static_sensor :: "int \<Rightarrow> MochaCameraInfo \<Rightarrow> mentry list" where
  "static_sensor cameraId cam =
    (let sensor_width = maxResolution cam;
         sensor_height = (if maxResolution cam = 3280 then 2464 else 1944)
     in
    [(''ANDROID_LENS_FACING'',
        [
         Named (if facing cam = CAMERA_FACING_BACK then ''ANDROID_LENS_FACING_BACK'' else ''ANDROID_LENS_FACING_FRONT'')]),
     (''ANDROID_SENSOR_ORIENTATION'', [Lit (orientation cam)]),
     (''ANDROID_SCALER_AVAILABLE_STREAM_CONFIGURATIONS'',
        [Named ''HAL_PIXEL_FORMAT_IMPLEMENTATION_DEFINED'', Lit 1280, Lit 720,
         Named ''CAMERA3_STREAM_OUTPUT'', Named ''HAL_PIXEL_FORMAT_YCbCr_420_888'', Lit 1280, Lit 720,
         Named ''CAMERA3_STREAM_OUTPUT'', Named ''HAL_PIXEL_FORMAT_YV12'', Lit 1280, Lit 720,
         Named ''CAMERA3_STREAM_OUTPUT'', Named ''HAL_PIXEL_FORMAT_BLOB'', Lit 1280, Lit 720,
         Named ''CAMERA3_STREAM_OUTPUT'', Named ''HAL_PIXEL_FORMAT_BLOB'', Lit 1920, Lit 1080,
         Named ''CAMERA3_STREAM_OUTPUT'', Named ''HAL_PIXEL_FORMAT_BLOB'', Lit 3280, Lit 2464,
         Named ''CAMERA3_STREAM_OUTPUT'']),
     (''ANDROID_SCALER_AVAILABLE_MIN_FRAME_DURATIONS'',
        [Named ''HAL_PIXEL_FORMAT_IMPLEMENTATION_DEFINED'', Lit 1280, Lit 720, Lit 33333333,
         Named ''HAL_PIXEL_FORMAT_YCbCr_420_888'', Lit 1280, Lit 720, Lit 33333333,
         Named ''HAL_PIXEL_FORMAT_YV12'', Lit 1280, Lit 720, Lit 33333333, Named ''HAL_PIXEL_FORMAT_BLOB'',
         Lit 1280, Lit 720, Lit 500000000, Named ''HAL_PIXEL_FORMAT_BLOB'', Lit 1920, Lit 1080, Lit 500000000,
         Named ''HAL_PIXEL_FORMAT_BLOB'', Lit 3280, Lit 2464, Lit 500000000]),
     (''ANDROID_SCALER_AVAILABLE_STALL_DURATIONS'',
        [Named ''HAL_PIXEL_FORMAT_IMPLEMENTATION_DEFINED'', Lit 1280, Lit 720, Lit 0,
         Named ''HAL_PIXEL_FORMAT_YCbCr_420_888'', Lit 1280, Lit 720, Lit 0, Named ''HAL_PIXEL_FORMAT_YV12'',
         Lit 1280, Lit 720, Lit 0, Named ''HAL_PIXEL_FORMAT_BLOB'', Lit 1280, Lit 720, Lit 500000000,
         Named ''HAL_PIXEL_FORMAT_BLOB'', Lit 1920, Lit 1080, Lit 500000000, Named ''HAL_PIXEL_FORMAT_BLOB'',
         Lit 3280, Lit 2464, Lit 500000000]),
     (''ANDROID_SCALER_AVAILABLE_PROCESSED_SIZES'', [Lit 1280, Lit 720]),
     (''ANDROID_SCALER_AVAILABLE_JPEG_SIZES'', [Lit 1280, Lit 720, Lit 1920, Lit 1080, Lit 3280, Lit 2464]),
     (''ANDROID_SCALER_AVAILABLE_MAX_DIGITAL_ZOOM'', [Real 4]),
     (''ANDROID_FLASH_INFO_AVAILABLE'', [Lit 0]),
     (''ANDROID_SENSOR_INFO_ACTIVE_ARRAY_SIZE'', [Lit 0, Lit 0, Lit sensor_width, Lit sensor_height]),
     (''ANDROID_SENSOR_INFO_PIXEL_ARRAY_SIZE'', [Lit sensor_width, Lit sensor_height]),
     (''ANDROID_SENSOR_INFO_PRE_CORRECTION_ACTIVE_ARRAY_SIZE'', [Lit 0, Lit 0, Lit sensor_width, Lit sensor_height]),
     (''ANDROID_SENSOR_INFO_PHYSICAL_SIZE'',
        [Real (fround (if cameraId = 0 then 3676 / 1000 else 28 / 10)),
         Real (fround (if cameraId = 0 then 2757 / 1000 else 21 / 10))]),
     (''ANDROID_SENSOR_INFO_TIMESTAMP_SOURCE'', [Named ''ANDROID_SENSOR_INFO_TIMESTAMP_SOURCE_UNKNOWN'']),
     (''ANDROID_INFO_SUPPORTED_HARDWARE_LEVEL'', [Named ''ANDROID_INFO_SUPPORTED_HARDWARE_LEVEL_LIMITED''])])"

definition static_keys :: "mentry list" where
  "static_keys =
    [(''ANDROID_REQUEST_AVAILABLE_CAPABILITIES'',
        [Named ''ANDROID_REQUEST_AVAILABLE_CAPABILITIES_BACKWARD_COMPATIBLE'',
         Named ''ANDROID_REQUEST_AVAILABLE_CAPABILITIES_MANUAL_SENSOR'',
         Named ''ANDROID_REQUEST_AVAILABLE_CAPABILITIES_MANUAL_POST_PROCESSING'']),
     (''ANDROID_REQUEST_AVAILABLE_REQUEST_KEYS'',
        [Named ''ANDROID_CONTROL_AE_MODE'', Named ''ANDROID_CONTROL_AE_TARGET_FPS_RANGE'',
         Named ''ANDROID_CONTROL_AF_MODE'', Named ''ANDROID_CONTROL_AF_TRIGGER'',
         Named ''ANDROID_CONTROL_AWB_MODE'', Named ''ANDROID_COLOR_CORRECTION_MODE'',
         Named ''ANDROID_CONTROL_MODE'', Named ''ANDROID_FLASH_MODE'', Named ''ANDROID_JPEG_QUALITY'',
         Named ''ANDROID_LENS_FOCUS_DISTANCE'', Named ''ANDROID_NOISE_REDUCTION_MODE'',
         Named ''ANDROID_REQUEST_ID'', Named ''ANDROID_SCALER_CROP_REGION'',
         Named ''ANDROID_SENSOR_FRAME_DURATION'', Named ''ANDROID_SENSOR_EXPOSURE_TIME'',
         Named ''ANDROID_SENSOR_SENSITIVITY'', Named ''ANDROID_STATISTICS_FACE_DETECT_MODE'']),
     (''ANDROID_REQUEST_AVAILABLE_RESULT_KEYS'',
        [Named ''ANDROID_CONTROL_AE_MODE'', Named ''ANDROID_CONTROL_AE_STATE'',
         Named ''ANDROID_CONTROL_AF_MODE'', Named ''ANDROID_CONTROL_AF_TRIGGER'',
         Named ''ANDROID_CONTROL_AWB_MODE'', Named ''ANDROID_CONTROL_AWB_STATE'',
         Named ''ANDROID_CONTROL_MODE'', Named ''ANDROID_FLASH_MODE'', Named ''ANDROID_JPEG_QUALITY'',
         Named ''ANDROID_LENS_FOCUS_DISTANCE'', Named ''ANDROID_LENS_STATE'', Named ''ANDROID_REQUEST_ID'',
         Named ''ANDROID_SCALER_CROP_REGION'', Named ''ANDROID_SENSOR_EXPOSURE_TIME'',
         Named ''ANDROID_SENSOR_FRAME_DURATION'', Named ''ANDROID_SENSOR_SENSITIVITY'',
         Named ''ANDROID_SENSOR_TIMESTAMP'']),
     (''ANDROID_CONTROL_AVAILABLE_SCENE_MODES'', [Named ''ANDROID_CONTROL_SCENE_MODE_DISABLED'']),
     (''ANDROID_CONTROL_AE_AVAILABLE_MODES'',
        [Named ''ANDROID_CONTROL_AE_MODE_ON'', Named ''ANDROID_CONTROL_AE_MODE_OFF'']),
     (''ANDROID_CONTROL_AF_AVAILABLE_MODES'',
        [Named ''ANDROID_CONTROL_AF_MODE_OFF'', Named ''ANDROID_CONTROL_AF_MODE_AUTO'',
         Named ''ANDROID_CONTROL_AF_MODE_CONTINUOUS_PICTURE'']),
     (''ANDROID_CONTROL_AWB_AVAILABLE_MODES'',
        [Named ''ANDROID_CONTROL_AWB_MODE_AUTO'', Named ''ANDROID_CONTROL_AWB_MODE_OFF'']),
     (''ANDROID_CONTROL_AE_AVAILABLE_TARGET_FPS_RANGES'', [Lit 15, Lit 30]),
     (''ANDROID_JPEG_AVAILABLE_THUMBNAIL_SIZES'', [Lit 0, Lit 0, Lit 160, Lit 120, Lit 320, Lit 240])]"

definition static_modes :: "mentry list" where
  "static_modes =
    [(''ANDROID_HOT_PIXEL_AVAILABLE_HOT_PIXEL_MODES'',
        [Named ''ANDROID_HOT_PIXEL_MODE_FAST'', Named ''ANDROID_HOT_PIXEL_MODE_HIGH_QUALITY'']),
     (''ANDROID_EDGE_AVAILABLE_EDGE_MODES'',
        [Named ''ANDROID_EDGE_MODE_OFF'', Named ''ANDROID_EDGE_MODE_FAST'',
         Named ''ANDROID_EDGE_MODE_HIGH_QUALITY'']),
     (''ANDROID_NOISE_REDUCTION_AVAILABLE_NOISE_REDUCTION_MODES'',
        [Named ''ANDROID_NOISE_REDUCTION_MODE_OFF'', Named ''ANDROID_NOISE_REDUCTION_MODE_FAST'',
         Named ''ANDROID_NOISE_REDUCTION_MODE_HIGH_QUALITY'']),
     (''ANDROID_SHADING_AVAILABLE_MODES'',
        [Named ''ANDROID_SHADING_MODE_OFF'', Named ''ANDROID_SHADING_MODE_FAST'',
         Named ''ANDROID_SHADING_MODE_HIGH_QUALITY'']),
     (''ANDROID_STATISTICS_INFO_AVAILABLE_LENS_SHADING_MAP_MODES'',
        [Named ''ANDROID_STATISTICS_LENS_SHADING_MAP_MODE_OFF'']),
     (''ANDROID_STATISTICS_INFO_MAX_FACE_COUNT'', [Lit 0]),
     (''ANDROID_STATISTICS_INFO_AVAILABLE_FACE_DETECT_MODES'', [Named ''ANDROID_STATISTICS_FACE_DETECT_MODE_OFF'']),
     (''ANDROID_TONEMAP_AVAILABLE_TONE_MAP_MODES'',
        [Named ''ANDROID_TONEMAP_MODE_CONTRAST_CURVE'', Named ''ANDROID_TONEMAP_MODE_FAST'',
         Named ''ANDROID_TONEMAP_MODE_HIGH_QUALITY'']),
     (''ANDROID_SENSOR_INFO_COLOR_FILTER_ARRANGEMENT'', [Named ''ANDROID_SENSOR_INFO_COLOR_FILTER_ARRANGEMENT_RGGB'']),
     (''ANDROID_CONTROL_AE_LOCK_AVAILABLE'', [Named ''ANDROID_CONTROL_AE_LOCK_AVAILABLE_TRUE'']),
     (''ANDROID_CONTROL_AWB_LOCK_AVAILABLE'', [Named ''ANDROID_CONTROL_AWB_LOCK_AVAILABLE_TRUE'']),
     (''ANDROID_CONTROL_AE_COMPENSATION_RANGE'', [Lit (-9), Lit 9]),
     (''ANDROID_CONTROL_AE_COMPENSATION_STEP'', [Ratio 1 3]),
     (''ANDROID_SENSOR_INFO_EXPOSURE_TIME_RANGE'', [Lit 10000, Lit 500000000]),
     (''ANDROID_SENSOR_INFO_SENSITIVITY_RANGE'', [Lit 100, Lit 1600]),
     (''ANDROID_SENSOR_MAX_ANALOG_SENSITIVITY'', [Lit 1600]),
     (''ANDROID_JPEG_MAX_SIZE'', [Lit (3280 * 2464 * 2)]),
     (''ANDROID_REQUEST_PIPELINE_MAX_DEPTH'', [Lit 4]),
     (''ANDROID_REQUEST_MAX_NUM_INPUT_STREAMS'', [Lit 0])]"

definition static_lens :: "int \<Rightarrow> mentry list" where
  "static_lens cameraId =
    [(''ANDROID_LENS_INFO_HYPERFOCAL_DISTANCE'', [Real 0]),
     (''ANDROID_LENS_INFO_MINIMUM_FOCUS_DISTANCE'', [Real (if cameraId = 0 then 10 else 0)]),
     (''ANDROID_LENS_INFO_FOCUS_DISTANCE_CALIBRATION'',
        [Named ''ANDROID_LENS_INFO_FOCUS_DISTANCE_CALIBRATION_UNCALIBRATED'']),
     (''ANDROID_CONTROL_AVAILABLE_EFFECTS'', [Named ''ANDROID_CONTROL_EFFECT_MODE_OFF'']),
     (''ANDROID_CONTROL_AE_AVAILABLE_ANTIBANDING_MODES'', [Named ''ANDROID_CONTROL_AE_ANTIBANDING_MODE_OFF'']),
     (''ANDROID_CONTROL_AVAILABLE_VIDEO_STABILIZATION_MODES'', [Named ''ANDROID_CONTROL_VIDEO_STABILIZATION_MODE_OFF'']),
     (''ANDROID_LENS_INFO_AVAILABLE_OPTICAL_STABILIZATION'', [Named ''ANDROID_LENS_OPTICAL_STABILIZATION_MODE_OFF'']),
     (''ANDROID_COLOR_CORRECTION_AVAILABLE_ABERRATION_MODES'', [Named ''ANDROID_COLOR_CORRECTION_ABERRATION_MODE_OFF'']),
     (''ANDROID_CONTROL_AVAILABLE_MODES'', [Named ''ANDROID_CONTROL_MODE_AUTO'', Named ''ANDROID_CONTROL_MODE_OFF'']),
     (''ANDROID_SENSOR_AVAILABLE_TEST_PATTERN_MODES'', [Named ''ANDROID_SENSOR_TEST_PATTERN_MODE_OFF'']),
     (''ANDROID_LENS_INFO_AVAILABLE_FOCAL_LENGTHS'', [Real (fround (35 / 10))]),
     (''ANDROID_LENS_INFO_AVAILABLE_APERTURES'', [Real (fround (28 / 10))]),
     (''ANDROID_LENS_INFO_AVAILABLE_FILTER_DENSITIES'', [Real 0]),
     (''ANDROID_CONTROL_MAX_REGIONS'', [Lit 1, Lit 1, Lit 0]),
     (''ANDROID_REQUEST_MAX_NUM_OUTPUT_STREAMS'', [Lit 3, Lit 3, Lit 1]),
     (''ANDROID_REQUEST_PARTIAL_RESULT_COUNT'', [Lit 1]),
     (''ANDROID_SYNC_MAX_LATENCY'', [Named ''ANDROID_SYNC_MAX_LATENCY_PER_FRAME_CONTROL''])]"

definition static_characteristics_keys :: "mentry list" where
  "static_characteristics_keys =
    [(''ANDROID_REQUEST_AVAILABLE_CHARACTERISTICS_KEYS'',
        [Named ''ANDROID_COLOR_CORRECTION_AVAILABLE_ABERRATION_MODES'',
         Named ''ANDROID_CONTROL_AE_AVAILABLE_ANTIBANDING_MODES'',
         Named ''ANDROID_CONTROL_AE_AVAILABLE_MODES'',
         Named ''ANDROID_CONTROL_AE_AVAILABLE_TARGET_FPS_RANGES'',
         Named ''ANDROID_CONTROL_AE_COMPENSATION_RANGE'', Named ''ANDROID_CONTROL_AE_COMPENSATION_STEP'',
         Named ''ANDROID_CONTROL_AE_LOCK_AVAILABLE'', Named ''ANDROID_CONTROL_AF_AVAILABLE_MODES'',
         Named ''ANDROID_CONTROL_AVAILABLE_EFFECTS'', Named ''ANDROID_CONTROL_AVAILABLE_MODES'',
         Named ''ANDROID_CONTROL_AVAILABLE_SCENE_MODES'',
         Named ''ANDROID_CONTROL_AVAILABLE_VIDEO_STABILIZATION_MODES'',
         Named ''ANDROID_CONTROL_AWB_AVAILABLE_MODES'', Named ''ANDROID_CONTROL_AWB_LOCK_AVAILABLE'',
         Named ''ANDROID_CONTROL_MAX_REGIONS'', Named ''ANDROID_EDGE_AVAILABLE_EDGE_MODES'',
         Named ''ANDROID_FLASH_INFO_AVAILABLE'', Named ''ANDROID_HOT_PIXEL_AVAILABLE_HOT_PIXEL_MODES'',
         Named ''ANDROID_INFO_SUPPORTED_HARDWARE_LEVEL'', Named ''ANDROID_JPEG_AVAILABLE_THUMBNAIL_SIZES'',
         Named ''ANDROID_JPEG_MAX_SIZE'', Named ''ANDROID_LENS_FACING'',
         Named ''ANDROID_LENS_INFO_AVAILABLE_APERTURES'',
         Named ''ANDROID_LENS_INFO_AVAILABLE_FILTER_DENSITIES'',
         Named ''ANDROID_LENS_INFO_AVAILABLE_FOCAL_LENGTHS'',
         Named ''ANDROID_LENS_INFO_AVAILABLE_OPTICAL_STABILIZATION'',
         Named ''ANDROID_LENS_INFO_FOCUS_DISTANCE_CALIBRATION'',
         Named ''ANDROID_LENS_INFO_HYPERFOCAL_DISTANCE'', Named ''ANDROID_LENS_INFO_MINIMUM_FOCUS_DISTANCE'',
         Named ''ANDROID_NOISE_REDUCTION_AVAILABLE_NOISE_REDUCTION_MODES'',
         Named ''ANDROID_REQUEST_AVAILABLE_CAPABILITIES'',
         Named ''ANDROID_REQUEST_AVAILABLE_CHARACTERISTICS_KEYS'',
         Named ''ANDROID_REQUEST_AVAILABLE_REQUEST_KEYS'', Named ''ANDROID_REQUEST_AVAILABLE_RESULT_KEYS'',
         Named ''ANDROID_REQUEST_MAX_NUM_INPUT_STREAMS'', Named ''ANDROID_REQUEST_MAX_NUM_OUTPUT_STREAMS'',
         Named ''ANDROID_REQUEST_PARTIAL_RESULT_COUNT'', Named ''ANDROID_REQUEST_PIPELINE_MAX_DEPTH'',
         Named ''ANDROID_SCALER_AVAILABLE_MAX_DIGITAL_ZOOM'',
         Named ''ANDROID_SCALER_AVAILABLE_MIN_FRAME_DURATIONS'',
         Named ''ANDROID_SCALER_AVAILABLE_STALL_DURATIONS'',
         Named ''ANDROID_SCALER_AVAILABLE_STREAM_CONFIGURATIONS'',
         Named ''ANDROID_SENSOR_AVAILABLE_TEST_PATTERN_MODES'',
         Named ''ANDROID_SENSOR_INFO_ACTIVE_ARRAY_SIZE'',
         Named ''ANDROID_SENSOR_INFO_COLOR_FILTER_ARRANGEMENT'',
         Named ''ANDROID_SENSOR_INFO_EXPOSURE_TIME_RANGE'', Named ''ANDROID_SENSOR_INFO_PHYSICAL_SIZE'',
         Named ''ANDROID_SENSOR_INFO_PIXEL_ARRAY_SIZE'',
         Named ''ANDROID_SENSOR_INFO_PRE_CORRECTION_ACTIVE_ARRAY_SIZE'',
         Named ''ANDROID_SENSOR_INFO_SENSITIVITY_RANGE'', Named ''ANDROID_SENSOR_INFO_TIMESTAMP_SOURCE'',
         Named ''ANDROID_SENSOR_MAX_ANALOG_SENSITIVITY'', Named ''ANDROID_SENSOR_ORIENTATION'',
         Named ''ANDROID_SHADING_AVAILABLE_MODES'',
         Named ''ANDROID_STATISTICS_INFO_AVAILABLE_FACE_DETECT_MODES'',
         Named ''ANDROID_STATISTICS_INFO_AVAILABLE_LENS_SHADING_MAP_MODES'',
         Named ''ANDROID_STATISTICS_INFO_MAX_FACE_COUNT'', Named ''ANDROID_SYNC_MAX_LATENCY'',
         Named ''ANDROID_TONEMAP_AVAILABLE_TONE_MAP_MODES''])]"

definition static_entries :: "int \<Rightarrow> MochaCameraInfo \<Rightarrow> mentry list" where
  "static_entries cameraId cam =
     static_sensor cameraId cam @ static_keys @ static_modes @ static_lens cameraId @ static_characteristics_keys"

text \<open>
  The cache \<open>gCameraCharacteristics\<close> has two elements, the camera table one; reading past the table
  is \<open>Crash\<close>. The sort at the end, which keeps the entries and only orders them by tag, and the debug
  output after it are left out.
\<close>

definition init_static_characteristics ::
  "mlib \<Rightarrow> int \<Rightarrow> metadata option list \<Rightarrow> (metadata option \<times> metadata option list) outcome" where
  "init_static_characteristics L cameraId g =
     (if cameraId < 0 \<or> cameraId \<ge> 2 then Ret (None, g)
      else
        case g ! nat cameraId of
          Some m \<Rightarrow> Ret (Some m, g)
        | None \<Rightarrow>
            (case allocate_camera_metadata L 100 8192 of
               None \<Rightarrow> Ret (None, g)
             | Some m \<Rightarrow>
                 if nat cameraId \<ge> length kCameras then Crash
                 else
                   let m = add_entries L (static_entries cameraId (kCameras ! nat cameraId)) m
                   in Ret (Some m, g[nat cameraId := Some m])))"

record camera_info =
  ci_facing :: facing
  ci_orientation :: int
  ci_device_version :: string
  ci_characteristics :: "metadata option"
  ci_resource_cost :: int

definition getNumberOfCameras :: int where
  "getNumberOfCameras = kNumCameras"

text \<open>The information, when the call fills it in; the error code otherwise.\<close>

definition getCameraInfo ::
  "mlib \<Rightarrow> int \<Rightarrow> metadata option list \<Rightarrow> ((int + camera_info) \<times> metadata option list) outcome" where
  "getCameraInfo L cameraId g =
     (if cameraId < 0 \<or> cameraId \<ge> kNumCameras then Ret (Inl (-EINVAL), g)
      else
        let cam = kCameras ! nat cameraId in
        case init_static_characteristics L cameraId g of
          Crash \<Rightarrow> Crash
        | Ret (m, g) \<Rightarrow>
            Ret (Inr \<lparr> ci_facing = facing cam, ci_orientation = orientation cam,
                       ci_device_version = ''CAMERA_DEVICE_API_VERSION_3_2'', ci_characteristics = m,
                       ci_resource_cost = 100 \<rparr>, g))"

section \<open>Request templates\<close>

datatype request_template = CAMERA3_TEMPLATE_PREVIEW | CAMERA3_TEMPLATE_STILL_CAPTURE
  | CAMERA3_TEMPLATE_VIDEO_RECORD | CAMERA3_TEMPLATE_ZERO_SHUTTER_LAG | CAMERA3_TEMPLATE_MANUAL
  | CAMERA3_TEMPLATE_OTHER int

definition default_common :: "mentry list" where
  "default_common =
    [(''ANDROID_CONTROL_CAPTURE_INTENT'', [Named ''ANDROID_CONTROL_CAPTURE_INTENT_PREVIEW'']),
     (''ANDROID_REQUEST_METADATA_MODE'', [Named ''ANDROID_REQUEST_METADATA_MODE_FULL'']),
     (''ANDROID_REQUEST_ID'', [Lit 0]),
     (''ANDROID_CONTROL_AE_MODE'', [Named ''ANDROID_CONTROL_AE_MODE_ON'']),
     (''ANDROID_CONTROL_AWB_MODE'', [Named ''ANDROID_CONTROL_AWB_MODE_AUTO'']),
     (''ANDROID_CONTROL_MODE'', [Named ''ANDROID_CONTROL_MODE_AUTO'']),
     (''ANDROID_CONTROL_SCENE_MODE'', [Named ''ANDROID_CONTROL_SCENE_MODE_DISABLED'']),
     (''ANDROID_CONTROL_AE_TARGET_FPS_RANGE'', [Lit 15, Lit 30]),
     (''ANDROID_CONTROL_AE_PRECAPTURE_TRIGGER'', [Named ''ANDROID_CONTROL_AE_PRECAPTURE_TRIGGER_IDLE'']),
     (''ANDROID_CONTROL_AF_MODE'', [Named ''ANDROID_CONTROL_AF_MODE_AUTO'']),
     (''ANDROID_CONTROL_AF_TRIGGER'', [Named ''ANDROID_CONTROL_AF_TRIGGER_IDLE'']),
     (''ANDROID_CONTROL_AE_LOCK'', [Named ''ANDROID_CONTROL_AE_LOCK_OFF'']),
     (''ANDROID_CONTROL_AWB_LOCK'', [Named ''ANDROID_CONTROL_AWB_LOCK_OFF'']),
     (''ANDROID_CONTROL_EFFECT_MODE'', [Named ''ANDROID_CONTROL_EFFECT_MODE_OFF'']),
     (''ANDROID_CONTROL_AE_ANTIBANDING_MODE'', [Named ''ANDROID_CONTROL_AE_ANTIBANDING_MODE_AUTO'']),
     (''ANDROID_CONTROL_VIDEO_STABILIZATION_MODE'', [Named ''ANDROID_CONTROL_VIDEO_STABILIZATION_MODE_OFF'']),
     (''ANDROID_EDGE_MODE'', [Named ''ANDROID_EDGE_MODE_OFF'']),
     (''ANDROID_NOISE_REDUCTION_MODE'', [Named ''ANDROID_NOISE_REDUCTION_MODE_FAST'']),
     (''ANDROID_COLOR_CORRECTION_MODE'', [Named ''ANDROID_COLOR_CORRECTION_MODE_FAST'']),
     (''ANDROID_COLOR_CORRECTION_TRANSFORM'', [Lit 1, Lit 0, Lit 0, Lit 0, Lit 1, Lit 0, Lit 0, Lit 0, Lit 1]),
     (''ANDROID_COLOR_CORRECTION_GAINS'', [Lit 1, Lit 0, Lit 1, Lit 0]),
     (''ANDROID_TONEMAP_MODE'', [Named ''ANDROID_TONEMAP_MODE_FAST'']),
     (''ANDROID_SHADING_MODE'', [Named ''ANDROID_SHADING_MODE_FAST'']),
     (''ANDROID_STATISTICS_LENS_SHADING_MAP_MODE'', [Named ''ANDROID_STATISTICS_LENS_SHADING_MAP_MODE_OFF'']),
     (''ANDROID_HOT_PIXEL_MODE'', [Named ''ANDROID_HOT_PIXEL_MODE_FAST'']),
     (''ANDROID_STATISTICS_FACE_DETECT_MODE'', [Named ''ANDROID_STATISTICS_FACE_DETECT_MODE_OFF'']),
     (''ANDROID_SENSOR_TEST_PATTERN_MODE'', [Named ''ANDROID_SENSOR_TEST_PATTERN_MODE_OFF''])]"

fun template_entries :: "request_template \<Rightarrow> mentry list" where
  "template_entries CAMERA3_TEMPLATE_STILL_CAPTURE =
    [(''ANDROID_JPEG_QUALITY'', [Lit 95]),
     (''ANDROID_JPEG_THUMBNAIL_QUALITY'', [Lit 95]),
     (''ANDROID_JPEG_THUMBNAIL_SIZE'', [Lit 320, Lit 240])]"
| "template_entries CAMERA3_TEMPLATE_MANUAL =
    [(''ANDROID_CONTROL_AE_MODE'', [Named ''ANDROID_CONTROL_AE_MODE_OFF'']),
     (''ANDROID_CONTROL_AWB_MODE'', [Named ''ANDROID_CONTROL_AWB_MODE_OFF''])]"
| "template_entries _ = []"

fun capture_intent :: "request_template \<Rightarrow> string" where
  "capture_intent CAMERA3_TEMPLATE_VIDEO_RECORD = ''ANDROID_CONTROL_CAPTURE_INTENT_VIDEO_RECORD''"
| "capture_intent CAMERA3_TEMPLATE_STILL_CAPTURE = ''ANDROID_CONTROL_CAPTURE_INTENT_STILL_CAPTURE''"
| "capture_intent CAMERA3_TEMPLATE_ZERO_SHUTTER_LAG = ''ANDROID_CONTROL_CAPTURE_INTENT_ZERO_SHUTTER_LAG''"
| "capture_intent CAMERA3_TEMPLATE_MANUAL = ''ANDROID_CONTROL_CAPTURE_INTENT_MANUAL''"
| "capture_intent _ = ''ANDROID_CONTROL_CAPTURE_INTENT_PREVIEW''"

text \<open>A null device gives \<open>None\<close>, and so does a failed allocation.\<close>

definition construct_default_request_settings :: "mlib \<Rightarrow> bool \<Rightarrow> request_template \<Rightarrow> metadata option" where
  "construct_default_request_settings L device type =
     (if \<not> device then None
      else
        map_option
          (add_entries L (default_common @ template_entries type @
             [(''ANDROID_CONTROL_CAPTURE_INTENT'', [Named (capture_intent type)])]))
          (allocate_camera_metadata L 20 80))"

section \<open>Result metadata\<close>

definition focus_distance :: "int \<Rightarrow> rat" where
  "focus_distance focusPos = (if focusPos > 0 then fdiv (fmul 10 (fint focusPos)) 1023 else 0)"

definition lens_state :: "int \<Rightarrow> string" where
  "lens_state afState =
     (if afState = 0 then ''ANDROID_LENS_STATE_STATIONARY''
      else if afState = 1 then ''ANDROID_LENS_STATE_MOVING''
      else if afState = 4 then ''ANDROID_LENS_STATE_STATIONARY''
      else ''ANDROID_LENS_STATE_STATIONARY'')"

definition result_entries :: "u32 \<Rightarrow> int \<Rightarrow> int \<Rightarrow> int \<Rightarrow> int \<Rightarrow> int \<Rightarrow> mentry list" where
  "result_entries frameNumber timestamp exposureVal sensitivity afState focusPos =
    [(''ANDROID_CONTROL_AE_MODE'', [Named ''ANDROID_CONTROL_AE_MODE_ON'']),
     (''ANDROID_CONTROL_AE_STATE'', [Named ''ANDROID_CONTROL_AE_STATE_CONVERGED'']),
     (''ANDROID_CONTROL_AWB_MODE'', [Named ''ANDROID_CONTROL_AWB_MODE_AUTO'']),
     (''ANDROID_CONTROL_AWB_STATE'', [Named ''ANDROID_CONTROL_AWB_STATE_CONVERGED'']),
     (''ANDROID_CONTROL_MODE'', [Named ''ANDROID_CONTROL_MODE_AUTO'']),
     (''ANDROID_FLASH_MODE'', [Named ''ANDROID_FLASH_MODE_OFF'']),
     (''ANDROID_JPEG_QUALITY'', [Lit 95]),
     (''ANDROID_LENS_FOCUS_DISTANCE'', [Real (focus_distance focusPos)]),
     (''ANDROID_LENS_STATE'', [Named (lens_state afState)]),
     (''ANDROID_CONTROL_AF_MODE'', [Named ''ANDROID_CONTROL_AF_MODE_AUTO'']),
     (''ANDROID_CONTROL_AF_TRIGGER'', [Named ''ANDROID_CONTROL_AF_TRIGGER_IDLE'']),
     (''ANDROID_REQUEST_ID'', [Lit (sint frameNumber)]),
     (''ANDROID_SCALER_CROP_REGION'', [Lit 0, Lit 0, Lit 3280, Lit 2464]),
     (''ANDROID_SENSOR_EXPOSURE_TIME'', [Lit (exposureVal * 1000)]),
     (''ANDROID_SENSOR_FRAME_DURATION'', [Lit 33333333]),
     (''ANDROID_SENSOR_SENSITIVITY'', [Lit sensitivity]),
     (''ANDROID_SENSOR_TIMESTAMP'', [Lit timestamp])]"

definition build_result_metadata :: "mlib \<Rightarrow> u32 \<Rightarrow> int \<Rightarrow> int \<Rightarrow> int \<Rightarrow> int \<Rightarrow> int \<Rightarrow> metadata option" where
  "build_result_metadata L frameNumber timestamp exposureVal sensitivity afState focusPos =
     map_option (add_entries L (result_entries frameNumber timestamp exposureVal sensitivity afState focusPos))
       (allocate_camera_metadata L 30 1024)"

section \<open>Capacity\<close>

text \<open>
  The documented behaviour of the library: an entry of at most four bytes is stored in the entry
  itself and a longer one takes a multiple of eight bytes of the data area; an entry is accepted
  exactly when both areas have room for it. \<open>tsize\<close> is the size of the type of a tag.
\<close>

definition entry_bytes :: "(string \<Rightarrow> nat) \<Rightarrow> mentry \<Rightarrow> nat" where
  "entry_bytes tsize e = (let b = tsize (fst e) * length (snd e) in if b \<le> 4 then 0 else (b + 7) div 8 * 8)"

definition data_used :: "(string \<Rightarrow> nat) \<Rightarrow> mentry list \<Rightarrow> nat" where
  "data_used tsize es = sum_list (map (entry_bytes tsize) es)"

definition capacity_law :: "mlib \<Rightarrow> (string \<Rightarrow> nat) \<Rightarrow> bool" where
  "capacity_law L tsize \<longleftrightarrow>
     (\<forall>m e. m_add L m e \<longleftrightarrow> length (entries m) < entry_capacity m \<and>
        data_used tsize (entries m) + entry_bytes tsize e \<le> data_capacity m)"

lemma entry_bytes_le: "tsize (fst e) \<le> 8 \<Longrightarrow> entry_bytes tsize e \<le> 8 * length (snd e)"
proof -
  assume "tsize (fst e) \<le> 8"
  then have "tsize (fst e) * length (snd e) \<le> 8 * length (snd e)" by simp
  then have "(tsize (fst e) * length (snd e) + 7) div 8 \<le> length (snd e)" by linarith
  then show ?thesis unfolding entry_bytes_def Let_def by auto
qed

lemma data_used_le:
  assumes "\<And>t. tsize t \<le> 8"
  shows "data_used tsize es \<le> 8 * sum_list (map (length \<circ> snd) es)"
  using entry_bytes_le assms by (induction es) (force simp: data_used_def add_mono)+

lemma capacity_lawD:
  "capacity_law L tsize \<Longrightarrow> m_add L m e = (length (entries m) < entry_capacity m \<and>
     data_used tsize (entries m) + entry_bytes tsize e \<le> data_capacity m)"
  by (simp only: capacity_law_def)

lemma data_used_simps [simp]:
  "data_used tsize [] = 0" "data_used tsize (e # es) = entry_bytes tsize e + data_used tsize es"
  "data_used tsize (es @ fs) = data_used tsize es + data_used tsize fs"
  by (simp_all add: data_used_def)

lemma add_entries_simps [simp]:
  "add_entries L [] m = m" "add_entries L (e # es) m = add_entries L es (add_camera_metadata_entry L e m)"
  by (simp_all add: add_entries_def)

lemma add_entries_append: "add_entries L (es @ fs) m = add_entries L fs (add_entries L es m)"
  by (simp add: add_entries_def)

text \<open>Entries that fit are all kept, and a buffer without a free entry keeps none.\<close>

lemma add_entries_fit:
  assumes "capacity_law L tsize" "length (entries m) + length es \<le> entry_capacity m"
    and "data_used tsize (entries m) + data_used tsize es \<le> data_capacity m"
  shows "add_entries L es m = m\<lparr>entries := entries m @ es\<rparr>"
  using assms(2,3)
proof (induction es arbitrary: m)
  case (Cons e es)
  then have "m_add L m e" using assms(1) by (simp add: capacity_lawD)
  then show ?case using Cons by (simp add: add_camera_metadata_entry_def)
qed simp

lemma add_entries_full:
  assumes "capacity_law L tsize" "entry_capacity m \<le> length (entries m)"
  shows "add_entries L es m = m"
  using assms by (induction es) (simp_all add: add_camera_metadata_entry_def capacity_lawD)

section \<open>Announced keys\<close>

fun named :: "mval list \<Rightarrow> string list" where
  "named [] = []"
| "named (Named t # vs) = t # named vs"
| "named (_ # vs) = named vs"

definition announced :: "string \<Rightarrow> mentry list \<Rightarrow> string list" where
  "announced key es = (case map_of es key of None \<Rightarrow> [] | Some vs \<Rightarrow> named vs)"

lemmas static_defs = static_entries_def static_sensor_def static_keys_def static_modes_def static_lens_def
  static_characteristics_keys_def

lemma static_distinct: "distinct (map fst (static_entries i c))"
  by (simp add: static_defs Let_def)

lemma static_size: "length (static_entries i c) = 61" "sum_list (map (length \<circ> snd) (static_entries i c)) \<le> 1024"
  by (simp_all add: static_defs Let_def)

lemma announced_member: "distinct (map fst es) \<Longrightarrow> (key, vs) \<in> set es \<Longrightarrow> announced key es = named vs"
  by (simp add: announced_def)

lemma announced_lists:
  "announced ''ANDROID_REQUEST_AVAILABLE_RESULT_KEYS'' (static_entries i c) = named (snd (static_keys ! 2))"
  "announced ''ANDROID_REQUEST_AVAILABLE_CHARACTERISTICS_KEYS'' (static_entries i c) = named (snd (static_characteristics_keys ! 0))"
proof -
  have "fst (static_keys ! 2) = ''ANDROID_REQUEST_AVAILABLE_RESULT_KEYS''" "static_keys ! 2 \<in> set static_keys"
    by (simp_all add: static_keys_def)
  then show "announced ''ANDROID_REQUEST_AVAILABLE_RESULT_KEYS'' (static_entries i c) = named (snd (static_keys ! 2))"
    by (intro announced_member [OF static_distinct]) (cases "static_keys ! 2", simp add: static_entries_def)
  have "fst (static_characteristics_keys ! 0) = ''ANDROID_REQUEST_AVAILABLE_CHARACTERISTICS_KEYS''"
      "static_characteristics_keys ! 0 \<in> set static_characteristics_keys"
    by (simp_all add: static_characteristics_keys_def)
  then show "announced ''ANDROID_REQUEST_AVAILABLE_CHARACTERISTICS_KEYS'' (static_entries i c) = named (snd (static_characteristics_keys ! 0))"
    by (intro announced_member [OF static_distinct]) (cases "static_characteristics_keys ! 0", simp add: static_entries_def)
qed

lemma result_announced:
  "set (named (snd (static_keys ! 2))) = set (map fst (result_entries f t e s a p))"
proof -
  have 1: "list_all (\<lambda>k. k \<in> set (map fst (result_entries f t e s a p))) (named (snd (static_keys ! 2)))"
    by (simp add: static_keys_def result_entries_def)
  have 2: "list_all (\<lambda>k. k \<in> set (named (snd (static_keys ! 2)))) (map fst (result_entries f t e s a p))"
    by (simp add: static_keys_def result_entries_def)
  show ?thesis using 1 2 unfolding list_all_iff by blast
qed

text \<open>The position of every announced key in the table.\<close>

lemma static_announced_positions:
  "named (snd (static_characteristics_keys ! 0)) = map ((!) (map fst (static_entries i c)))
    [50, 47, 19, 22, 35, 36, 33, 20, 46, 51, 18, 48, 21, 34, 56, 25, 8, 24, 14, 23, 40, 0, 54, 55, 53,
     49, 45, 43, 44, 26, 15, 60, 16, 17, 42, 57, 58, 41, 7, 3, 4, 2, 52, 9, 32, 37, 12, 10, 11, 38, 13,
     39, 1, 27, 30, 28, 29, 59, 31]"
  by (simp add: static_defs Let_def)

lemma static_announced_in:
  "set (named (snd (static_characteristics_keys ! 0))) \<subseteq> set (map fst (static_entries i c))"
proof -
  have "map fst (static_entries i c) ! n \<in> set (map fst (static_entries i c))" if "n < 61" for n
    using nth_mem [of n "map fst (static_entries i c)"] that static_size(1) [of i c] by simp
  then show ?thesis unfolding static_announced_positions [of i c] by auto
qed

lemma result_distinct: "distinct (map fst (result_entries f t e s a p))"
  by (simp add: result_entries_def)

lemma default_first: "take 20 (default_common @ es) = take 20 default_common" "length default_common = 27"
  by (simp_all add: default_common_def)

lemma default_used:
  assumes "tsize ''ANDROID_COLOR_CORRECTION_TRANSFORM'' = 8" "tsize ''ANDROID_CONTROL_AE_TARGET_FPS_RANGE'' = 4"
    and "\<forall>e \<in> set default_common. length (snd e) = 1 \<longrightarrow> tsize (fst e) \<le> 4"
  shows "data_used tsize (take 20 default_common) = 80"
  using assms by (simp add: default_common_def entry_bytes_def)

section \<open>Properties\<close>

text \<open>C13. On a metadata library that follows its documented capacity rule, every static characteristic
  of the camera is published: the hundred entries and 8192 bytes the HAL reserves are enough, no
  tag is entered twice, every key the HAL announces is present, and a second query returns the
  same cached characteristics.\<close>

theorem static_characteristics_published:
  assumes "capacity_law L tsize" "\<forall>t. tsize t \<le> 8" "m_alloc L 100 8192"
  shows "\<exists>ci m g. getCameraInfo L 0 [None, None] = Ret (Inr ci, g) \<and> ci_characteristics ci = Some m \<and>
    entries m = static_entries 0 (kCameras ! 0) \<and> distinct (map fst (entries m)) \<and>
    set (announced ''ANDROID_REQUEST_AVAILABLE_CHARACTERISTICS_KEYS'' (entries m)) \<subseteq> set (map fst (entries m)) \<and>
    getCameraInfo L 0 g = Ret (Inr ci, g)"
proof -
  define es where "es = static_entries 0 (kCameras ! 0)"
  have "data_used tsize es \<le> 8192"
    using data_used_le [of tsize es] assms(2) static_size(2) [of 0 "kCameras ! 0"] by (simp add: es_def)
  then have add: "add_entries L es \<lparr>entry_capacity = 100, data_capacity = 8192, entries = []\<rparr> =
      \<lparr>entry_capacity = 100, data_capacity = 8192, entries = es\<rparr>"
    using add_entries_fit [OF assms(1), of "\<lparr>entry_capacity = 100, data_capacity = 8192, entries = []\<rparr>" es]
      static_size(1) [of 0 "kCameras ! 0"] by (simp add: es_def)
  have "set (announced ''ANDROID_REQUEST_AVAILABLE_CHARACTERISTICS_KEYS'' es) \<subseteq> set (map fst es)"
    using static_announced_in [of 0 "kCameras ! 0"] unfolding announced_lists es_def .
  moreover have "distinct (map fst es)" unfolding es_def by (rule static_distinct)
  ultimately show ?thesis
    using assms(3) add unfolding es_def
    by (simp add: getCameraInfo_def kNumCameras_def kCameras_def init_static_characteristics_def
        allocate_camera_metadata_def Let_def)
qed

text \<open>The metadata of every capture result holds exactly the keys the static characteristics
  announce as result keys, each once, whatever the values reported: the thirty entries reserved
  are enough.\<close>

lemma result_metadata_as_announced:
  assumes "capacity_law L tsize" "\<forall>t. tsize t \<le> 8" "m_alloc L 30 1024"
  shows "\<exists>m. build_result_metadata L frame timestamp exposure sensitivity afState focusPos = Some m \<and>
    entries m = result_entries frame timestamp exposure sensitivity afState focusPos \<and>
    distinct (map fst (entries m)) \<and>
    set (map fst (entries m)) = set (announced ''ANDROID_REQUEST_AVAILABLE_RESULT_KEYS'' (static_entries 0 (kCameras ! 0)))"
proof -
  define es where "es = result_entries frame timestamp exposure sensitivity afState focusPos"
  have "data_used tsize es \<le> 1024" "length es = 17"
    using data_used_le [of tsize es] assms(2) by (simp_all add: es_def result_entries_def)
  then have "add_entries L es \<lparr>entry_capacity = 30, data_capacity = 1024, entries = []\<rparr> =
      \<lparr>entry_capacity = 30, data_capacity = 1024, entries = es\<rparr>"
    using add_entries_fit [OF assms(1), of "\<lparr>entry_capacity = 30, data_capacity = 1024, entries = []\<rparr>" es] by simp
  then show ?thesis
    using assms(3) result_distinct result_announced unfolding announced_lists
    by (simp add: build_result_metadata_def allocate_camera_metadata_def es_def)
qed

text \<open>The default settings buffer has room for twenty entries only, while every template adds at
  least 28: for every template the settings are the first twenty common entries, so the capture
  intent stays at preview and the manual and still capture settings are lost.\<close>

lemma default_settings_truncated:
  assumes "capacity_law L tsize" "m_alloc L 20 80"
    and "tsize ''ANDROID_COLOR_CORRECTION_TRANSFORM'' = 8" "tsize ''ANDROID_CONTROL_AE_TARGET_FPS_RANGE'' = 4"
    and "\<forall>e \<in> set default_common. length (snd e) = 1 \<longrightarrow> tsize (fst e) \<le> 4"
  shows "\<exists>m. construct_default_request_settings L True template = Some m \<and> entries m = take 20 default_common \<and>
    map_of (entries m) ''ANDROID_CONTROL_CAPTURE_INTENT'' = Some [Named ''ANDROID_CONTROL_CAPTURE_INTENT_PREVIEW'']"
proof -
  define es where "es = default_common @ template_entries template @
    [(''ANDROID_CONTROL_CAPTURE_INTENT'', [Named (capture_intent template)])]"
  let ?m = "\<lparr>entry_capacity = 20, data_capacity = 80, entries = []\<rparr>"
  have "add_entries L (take 20 es) ?m = ?m\<lparr>entries := take 20 default_common\<rparr>"
    using add_entries_fit [OF assms(1), of ?m "take 20 default_common"] default_used [OF assms(3-5)]
    by (simp add: es_def default_first)
  then have "add_entries L es ?m = ?m\<lparr>entries := take 20 default_common\<rparr>"
    using add_entries_append [of L "take 20 es" "drop 20 es" ?m]
      add_entries_full [OF assms(1), of "?m\<lparr>entries := take 20 default_common\<rparr>" "drop 20 es"] by (simp add: default_first)
  moreover have "map_of (take 20 default_common) ''ANDROID_CONTROL_CAPTURE_INTENT'' =
      Some [Named ''ANDROID_CONTROL_CAPTURE_INTENT_PREVIEW'']" by (simp add: default_common_def)
  ultimately show ?thesis
    using assms(2) by (simp add: construct_default_request_settings_def allocate_camera_metadata_def es_def)
qed

definition test_size :: "string \<Rightarrow> nat" where
  "test_size t = (if t = ''ANDROID_COLOR_CORRECTION_TRANSFORM'' then 8 else 4)"

definition test_mlib :: mlib where
  "test_mlib = \<lparr> m_alloc = \<lambda>_ _. True, m_add = \<lambda>m e. length (entries m) < entry_capacity m \<and>
     data_used test_size (entries m) + entry_bytes test_size e \<le> data_capacity m \<rparr>"

lemma test_mlib_law: "capacity_law test_mlib test_size" "\<forall>t. test_size t \<le> 8" "m_alloc test_mlib a b"
  by (simp_all add: capacity_law_def test_mlib_def test_size_def)

theorem static_characteristics_published_witness:
  "\<exists>ci m g. getCameraInfo test_mlib 0 [None, None] = Ret (Inr ci, g) \<and> ci_characteristics ci = Some m \<and>
    distinct (map fst (entries m)) \<and> getCameraInfo test_mlib 0 g = Ret (Inr ci, g)"
  using static_characteristics_published [OF test_mlib_law] by blast

end
