(* ===== verification/JpegEncoder.thy ===== *)
theory JpegEncoder
  imports Buffers
begin

text \<open>
  The still image encoder (\<open>camera/JpegEncoder.cpp\<close>): it feeds the RGB part of every row of an RGBA
  image to \<open>libjpeg\<close>, which stores its output through the destination manager of this file. The
  library is a parameter that answers every call from the calls made before it with the bytes it
  stores, with whether it asked for more room, with the number of rows it took, and with whether it
  gave up: the error handler the encoder installs, \<open>jpeg_std_error\<close>, then ends the process. The call
  that starts the compression names the size of the destination, which the library reads from the
  manager.
\<close>

section \<open>The library\<close>

datatype jcall =
    JCreate
  | JStart nat nat int nat
  | JWrite "u8 list"
  | JFinish
  | JDestroy

record jans =
  a_stored :: "u8 list"
  a_empty :: bool
  a_rows :: nat
  a_error :: bool

type_synonym jpeglib = "(jcall, jans) kernel"

section \<open>The destination manager\<close>

record jpeg_dest_mgr =
  next_output_byte :: nat
  free_in_buffer :: nat
  dest_buffer :: buf
  bufferSize :: nat
  overflow :: bool

definition dest_init_destination :: "jpeg_dest_mgr \<Rightarrow> jpeg_dest_mgr" where
  "dest_init_destination d = d\<lparr>next_output_byte := 0, free_in_buffer := bufferSize d, overflow := False\<rparr>"

definition dest_empty_output_buffer :: "jpeg_dest_mgr \<Rightarrow> bool \<times> jpeg_dest_mgr" where
  "dest_empty_output_buffer d = (False, d\<lparr>overflow := True\<rparr>)"

text \<open>
  The effect of a call of the library on the destination: it stores its bytes from
  \<open>next_output_byte\<close> on, counts them off, and calls \<open>dest_empty_output_buffer\<close> when it lacks room.
  \<open>None\<close> is a store outside the buffer.
\<close>

definition dest_store :: "jans \<Rightarrow> jpeg_dest_mgr \<Rightarrow> jpeg_dest_mgr option" where
  "dest_store a d =
     (if free_in_buffer d < length (a_stored a) then None
      else
        do { b \<leftarrow> wr_block (next_output_byte d) (a_stored a) (dest_buffer d);
             let d = d\<lparr>dest_buffer := b, next_output_byte := next_output_byte d + length (a_stored a),
                       free_in_buffer := free_in_buffer d - length (a_stored a)\<rparr>;
             Some (if a_empty a then snd (dest_empty_output_buffer d) else d) })"

section \<open>Encoding\<close>

definition rgb_px :: "buf \<Rightarrow> nat \<Rightarrow> nat \<Rightarrow> buf \<Rightarrow> buf option" where
  "rgb_px rgba src x row =
     do { r \<leftarrow> rd rgba (src + x * 4 + 0);
          g \<leftarrow> rd rgba (src + x * 4 + 1);
          b \<leftarrow> rd rgba (src + x * 4 + 2);
          row \<leftarrow> wr (x * 3 + 0) r row;
          row \<leftarrow> wr (x * 3 + 1) g row;
          wr (x * 3 + 2) b row }"

text \<open>
  The loop over the rows that are left. The library takes a row, asks for room or gives up; a round
  in which it does none of these leaves the loop where it was, and fuel that runs out is \<open>None\<close>.
  \<open>Inl\<close> is the end of the process in the error handler, with the calls made so far.
\<close>

fun write_rows :: "jpeglib \<Rightarrow> buf \<Rightarrow> nat \<Rightarrow> nat \<Rightarrow> nat \<Rightarrow> nat \<Rightarrow> buf \<Rightarrow> jpeg_dest_mgr \<Rightarrow> jcall list \<Rightarrow>
    (jcall list + jpeg_dest_mgr \<times> jcall list) option" where
  "write_rows J rgba width height 0 next_scanline row d h = (if next_scanline < height then None else Some (Inr (d, h)))"
| "write_rows J rgba width height (Suc n) next_scanline row d h =
     (if next_scanline < height then
        do { row \<leftarrow> for_range 0 width (rgb_px rgba (next_scanline * (width * 4))) row;
             let (a, h) = sys J (JWrite row) h;
             if a_error a then Some (Inl h)
             else
               do { d \<leftarrow> dest_store a d;
                    if overflow d then Some (Inr (d, h))
                    else write_rows J rgba width height n (next_scanline + a_rows a) row d h } }
      else Some (Inr (d, h)))"

text \<open>From the end of the rows on: finishing, and the result.\<close>

definition finish_image :: "jpeglib \<Rightarrow> nat \<Rightarrow> jpeg_dest_mgr \<Rightarrow> jcall list \<Rightarrow>
    (jcall list + int \<times> buf \<times> nat option \<times> jcall list) option" where
  "finish_image J outputSize d h =
     (let (a, h) = sys J JFinish h in
      if a_error a then Some (Inl h)
      else
        do { d \<leftarrow> dest_store a d;
             let jpegSize = outputSize - free_in_buffer d;
             if overflow d then Some (Inr (-ENOSPC, dest_buffer d, Some jpegSize, h @ [JDestroy]))
             else Some (Inr (0, dest_buffer d, Some jpegSize, h @ [JDestroy])) })"

text \<open>
  \<open>malloc_ok\<close> tells whether the row buffer is allocated and \<open>junk\<close> is what it then holds. The result
  is the return value, the output buffer and \<open>jpegSize\<close>, which is only written after the rows, or
  the end of the process.
\<close>

definition encodeRGBA ::
  "jpeglib \<Rightarrow> bool \<Rightarrow> (nat \<Rightarrow> u8) \<Rightarrow> buf \<Rightarrow> nat \<Rightarrow> nat \<Rightarrow> int \<Rightarrow> buf \<Rightarrow> nat \<Rightarrow> jcall list \<Rightarrow>
     (jcall list + int \<times> buf \<times> nat option \<times> jcall list) option" where
  "encodeRGBA J malloc_ok junk rgba width height quality out outputSize h =
     (let (_, h) = sys J JCreate h;
          d = \<lparr>next_output_byte = 0, free_in_buffer = 0, dest_buffer = out, bufferSize = outputSize, overflow = False\<rparr>;
          d = dest_init_destination d;
          (a, h) = sys J (JStart width height quality outputSize) h
      in if a_error a then Some (Inl h)
         else
           do { d \<leftarrow> dest_store a d;
                if \<not> malloc_ok then Some (Inr (-ENOMEM, dest_buffer d, None, h @ [JDestroy]))
                else
                  do { w \<leftarrow> write_rows J rgba width height height 0 (map junk [0..<width * 3]) d h;
                       case w of Inl h \<Rightarrow> Some (Inl h) | Inr (d, h) \<Rightarrow> finish_image J outputSize d h } })"

section \<open>The contract of the library\<close>

text \<open>The bytes stored by a sequence of calls after the calls \<open>h\<close>, and the rows taken.\<close>

fun stored :: "jpeglib \<Rightarrow> jcall list \<Rightarrow> jcall list \<Rightarrow> u8 list" where
  "stored J h [] = []"
| "stored J h (c # cs) = a_stored (J h c) @ stored J (h @ [c]) cs"

fun taken :: "jpeglib \<Rightarrow> jcall list \<Rightarrow> jcall list \<Rightarrow> nat" where
  "taken J h [] = 0"
| "taken J h (c # cs) = a_rows (J h c) + taken J (h @ [c]) cs"

text \<open>No call of the sequence asks for room.\<close>

fun roomy :: "jpeglib \<Rightarrow> jcall list \<Rightarrow> jcall list \<Rightarrow> bool" where
  "roomy J h [] = True"
| "roomy J h (c # cs) = (\<not> a_empty (J h c) \<and> roomy J (h @ [c]) cs)"

lemma seq_append:
  "stored J h (xs @ ys) = stored J h xs @ stored J (h @ xs) ys" "taken J h (xs @ ys) = taken J h xs + taken J (h @ xs) ys"
  "roomy J h (xs @ ys) \<longleftrightarrow> roomy J h xs \<and> roomy J (h @ xs) ys"
  by (induction xs arbitrary: h) simp_all

text \<open>
  What \<open>libjpeg\<close> documents of its calls. Between a start and the finish it stores at most as many
  bytes as the destination has. A call with one row takes it; when the destination returns \<open>FALSE\<close> it
  suspends and takes none. Only the call with rows can suspend: the start and the finish, and the
  headers written with the first row, end in the error handler when they lack room. The finish is
  an error when fewer rows than the height of the image were taken. For an image of 1 to 65500 by
  1 to 65500 pixels there is no other error.
\<close>

definition jpeg_contract :: "jpeglib \<Rightarrow> bool" where
  "jpeg_contract J \<longleftrightarrow>
     (\<forall>h w ht q n rows. length (stored J h (JStart w ht q n # map JWrite rows @ [JFinish])) \<le> n) \<and>
     (\<forall>h w ht q n. 0 < w \<and> w \<le> 65500 \<and> 0 < ht \<and> ht \<le> 65500 \<longrightarrow>
        a_error (J h (JStart w ht q n)) = a_empty (J h (JStart w ht q n))) \<and>
     (\<forall>h row. (a_error (J h (JWrite row)) \<longrightarrow> a_empty (J h (JWrite row))) \<and>
        a_rows (J h (JWrite row)) = (if a_empty (J h (JWrite row)) then 0 else 1)) \<and>
     (\<forall>h w ht q n rows. let h1 = h @ [JStart w ht q n]; h2 = h1 @ map JWrite rows in
        a_error (J h2 JFinish) \<longleftrightarrow> a_empty (J h2 JFinish) \<or> taken J h1 (map JWrite rows) < ht)"

section \<open>Lemmas\<close>

definition rgb_row :: "buf \<Rightarrow> nat \<Rightarrow> nat \<Rightarrow> u8 list" where
  "rgb_row rgba w y =
     concat (map (\<lambda>x. [rgba ! (4 * (y * w + x)), rgba ! (4 * (y * w + x) + 1), rgba ! (4 * (y * w + x) + 2)]) [0..<w])"

lemma wr_triple:
  "Option.bind (wr i a t) (\<lambda>t. Option.bind (wr (i + 1) b t) (wr (i + 2) c)) = wr_block i [a, b, c] t"
  using wr_block_append [of i "[a]" "[b, c]" t] wr_block_append [of "i + 1" "[b]" "[c]"]
  by (simp add: wr_wr_block numeral_eq_Suc cong: bind_option_cong)

lemma rgb_px_eq:
  assumes "x < w" "y < ht" "4 * (ht * w) \<le> length rgba"
  shows "rgb_px rgba (y * (w * 4)) x t = wr_block (3 * x)
    [rgba ! (4 * (y * w + x)), rgba ! (4 * (y * w + x) + 1), rgba ! (4 * (y * w + x) + 2)] t"
proof -
  have e: "y * (w * 4) + x * 4 = 4 * (y * w + x)" by (simp add: algebra_simps)
  have "y * w + x < ht * w"
    using assms(1,2) mult_le_mono1 [of "Suc y" ht w] by simp
  then have "4 * Suc (y * w + x) \<le> length rgba" using assms(3) by (metis Suc_leI le_trans mult_le_mono2)
  then have "4 * (y * w + x) + 3 < length rgba" by simp
  then have "rgb_px rgba (y * (w * 4)) x t = Option.bind (wr (3 * x) (rgba ! (4 * (y * w + x))) t)
      (\<lambda>t. Option.bind (wr (3 * x + 1) (rgba ! (4 * (y * w + x) + 1)) t) (wr (3 * x + 2) (rgba ! (4 * (y * w + x) + 2))))"
    unfolding rgb_px_def e by (simp add: mult.commute [of x])
  then show ?thesis unfolding wr_triple .
qed

lemma rgb_row_loop:
  assumes "y < ht" "4 * (ht * w) \<le> length rgba" "length row = w * 3"
  shows "for_range 0 w (rgb_px rgba (y * (w * 4))) row = Some (rgb_row rgba w y)"
proof -
  let ?g = "\<lambda>x. [rgba ! (4 * (y * w + x)), rgba ! (4 * (y * w + x) + 1), rgba ! (4 * (y * w + x) + 2)]"
  have "for_range 0 (0 + w) (rgb_px rgba (y * (w * 4))) row = wr_block (3 * 0) (concat (map ?g [0..<0 + w])) row"
    by (rule for_range_wr_blocks) (use rgb_px_eq [OF _ assms(1,2)] in simp_all)
  then have "for_range 0 w (rgb_px rgba (y * (w * 4))) row = wr_block 0 (rgb_row rgba w y) row"
    by (simp only: rgb_row_def mult_0_right add_0)
  moreover have "length (rgb_row rgba w y) = 3 * w"
    unfolding rgb_row_def by (subst concat_blocks_length [of _ _ 3]) simp_all
  ultimately show ?thesis using assms(3) by (simp add: wr_block_def)
qed

text \<open>What the destination holds while the library runs: the bytes stored so far, then what it held.\<close>

definition dest_inv :: "buf \<Rightarrow> nat \<Rightarrow> u8 list \<Rightarrow> jpeg_dest_mgr \<Rightarrow> bool" where
  "dest_inv out n bs d \<longleftrightarrow> next_output_byte d = length bs \<and> free_in_buffer d = n - length bs \<and> length bs \<le> n \<and>
     dest_buffer d = bs @ drop (length bs) out"

lemma dest_store_inv:
  assumes "dest_inv out n bs d" "n \<le> length out" "length bs + length (a_stored a) \<le> n"
  shows "\<exists>d'. dest_store a d = Some d' \<and> dest_inv out n (bs @ a_stored a) d' \<and> overflow d' = (overflow d \<or> a_empty a)"
proof -
  have "wr_block (length bs) (a_stored a) (dest_buffer d) = Some ((bs @ a_stored a) @ drop (length (bs @ a_stored a)) out)"
    using assms by (simp add: wr_block_def dest_inv_def add.commute)
  then show ?thesis using assms by (auto simp: dest_store_def dest_inv_def dest_empty_output_buffer_def Let_def)
qed

lemma rgb_row_length: "length (rgb_row rgba w y) = w * 3"
  unfolding rgb_row_def by (subst concat_blocks_length [of _ _ 3]) simp_all

lemma upt_rows: "y < ht \<Longrightarrow> map f [y..<ht] = f y # map f [Suc y..<ht]"
  by (simp add: upt_conv_Cons)

text \<open>
  The row loop from row \<open>y\<close> on, when the library has stored \<open>bs\<close> and will store at most the rest. If
  no row asks for room, all are taken; otherwise the loop is left with fewer rows taken than are
  due, unless the process has ended.
\<close>

lemma write_rows_run:
  fixes rgba w ht
  defines "calls \<equiv> \<lambda>y. map JWrite (map (rgb_row rgba w) [y..<ht])"
  assumes "n \<le> length out" "4 * (ht * w) \<le> length rgba" "length row = w * 3" "jpeg_contract J"
    and "\<And>rows. length bs + length (stored J h (map JWrite rows @ [JFinish])) \<le> n"
    and "dest_inv out n bs d" "\<not> overflow d" "y + m = ht"
  shows "if roomy J h (calls y)
    then \<exists>d'. write_rows J rgba w ht m y row d h = Some (Inr (d', h @ calls y)) \<and>
      dest_inv out n (bs @ stored J h (calls y)) d' \<and> \<not> overflow d' \<and> taken J h (calls y) = m
    else (\<exists>h'. write_rows J rgba w ht m y row d h = Some (Inl h')) \<or>
      (\<exists>d' rows. write_rows J rgba w ht m y row d h = Some (Inr (d', h @ map JWrite rows)) \<and> taken J h (map JWrite rows) < m)"
  using assms(4,6-9)
proof (induction m arbitrary: y row d h bs)
  case 0
  then show ?case by (simp add: calls_def)
next
  case (Suc m)
  define r where "r = rgb_row rgba w y"
  define a where "a = J h (JWrite r)"
  have c: "calls y = JWrite r # calls (Suc y)" unfolding calls_def r_def using Suc.prems(5) by (simp add: upt_rows)
  have loop: "for_range 0 w (rgb_px rgba (y * (w * 4))) row = Some r"
    using rgb_row_loop [OF _ assms(3) Suc.prems(1), of y] Suc.prems(5) by (simp add: r_def)
  have fit: "length bs + length (a_stored a) \<le> n" using Suc.prems(2) [of "[r]"] by (simp add: a_def)
  obtain d1 where d1: "dest_store a d = Some d1" "dest_inv out n (bs @ a_stored a) d1" "overflow d1 = a_empty a"
    using dest_store_inv [OF Suc.prems(3) assms(2) fit] Suc.prems(4) by auto
  have J: "a_error a \<longrightarrow> a_empty a" "a_rows a = (if a_empty a then 0 else 1)"
    using assms(5) unfolding jpeg_contract_def a_def by blast+
  have run: "write_rows J rgba w ht (Suc m) y row d h =
      (if a_error a then Some (Inl (h @ [JWrite r])) else if a_empty a then Some (Inr (d1, h @ map JWrite [r]))
       else write_rows J rgba w ht m (y + 1) r d1 (h @ [JWrite r]))"
    using loop d1(1,3) Suc.prems(5) J(2) by (simp add: sys_def a_def [symmetric] Let_def)
  show ?case
  proof (cases "a_empty a")
    case True
    then have "\<not> roomy J h (calls y)" "taken J h (map JWrite [r]) < Suc m" using J(2) by (simp_all add: c a_def)
    then show ?thesis using True unfolding run by (auto intro!: exI [of _ "[r]"])
  next
    case False
    have later: "length (bs @ a_stored a) + length (stored J (h @ [JWrite r]) (map JWrite rs @ [JFinish])) \<le> n" for rs
      using Suc.prems(2) [of "r # rs"] by (simp add: a_def)
    have y: "Suc y + m = ht" "\<not> overflow d1" "length r = w * 3" using Suc.prems(5) d1(3) False by (simp_all add: r_def rgb_row_length)
    have run': "write_rows J rgba w ht (Suc m) y row d h = write_rows J rgba w ht m (Suc y) r d1 (h @ [JWrite r])"
      using run False J(1) by auto
    have e: "roomy J h (calls y) = roomy J (h @ [JWrite r]) (calls (Suc y))" "h @ calls y = (h @ [JWrite r]) @ calls (Suc y)"
        "bs @ stored J h (calls y) = (bs @ a_stored a) @ stored J (h @ [JWrite r]) (calls (Suc y))"
        "taken J h (calls y) = Suc (taken J (h @ [JWrite r]) (calls (Suc y)))"
        "taken J h (map JWrite (r # rs)) = Suc (taken J (h @ [JWrite r]) (map JWrite rs))" for rs
      using False J(2) by (simp_all add: c a_def)
    note IH = Suc.IH [OF y(3) later d1(2) y(2,1)]
    show ?thesis
    proof (cases "roomy J (h @ [JWrite r]) (calls (Suc y))")
      case True
      then show ?thesis using IH unfolding run' e(1-4) by simp
    next
      case no: False
      then consider h' where "write_rows J rgba w ht m (Suc y) r d1 (h @ [JWrite r]) = Some (Inl h')"
        | d' rs where "write_rows J rgba w ht m (Suc y) r d1 (h @ [JWrite r]) = Some (Inr (d', (h @ [JWrite r]) @ map JWrite rs))"
          "taken J (h @ [JWrite r]) (map JWrite rs) < m"
        using IH by auto
      then show ?thesis
      proof cases
        case 1
        then show ?thesis using no unfolding run' e(1) by simp
      next
        case 2
        then show ?thesis using no e(5) [of rs] unfolding run' e(1) by (auto intro!: exI [of _ d'] exI [of _ "r # rs"])
      qed
    qed
  qed
qed

text \<open>The calls that encode an image, after the compressor is created.\<close>

definition image_calls :: "buf \<Rightarrow> nat \<Rightarrow> nat \<Rightarrow> int \<Rightarrow> nat \<Rightarrow> jcall list" where
  "image_calls rgba w ht q n = JStart w ht q n # map JWrite (map (rgb_row rgba w) [0..<ht]) @ [JFinish]"

lemma encodeRGBA_run:
  fixes J rgba width height quality outputSize h
  defines "cs \<equiv> image_calls rgba width height quality outputSize"
  defines "bs \<equiv> stored J (h @ [JCreate]) cs"
  assumes "jpeg_contract J" "0 < width" "width \<le> 65500" "0 < height" "height \<le> 65500"
    and "4 * (height * width) \<le> length rgba" "outputSize \<le> length out"
  shows "if roomy J (h @ [JCreate]) cs
    then encodeRGBA J True junk rgba width height quality out outputSize h =
      Some (Inr (0, bs @ drop (length bs) out, Some (length bs), h @ JCreate # cs @ [JDestroy])) \<and> length bs \<le> outputSize
    else \<exists>h'. encodeRGBA J True junk rgba width height quality out outputSize h = Some (Inl h')"
proof -
  define s where "s = JStart width height quality outputSize"
  define h1 where "h1 = h @ [JCreate]"
  define a where "a = J h1 s"
  define ws where "ws = map JWrite (map (rgb_row rgba width) [0..<height])"
  define d0 where "d0 = \<lparr>next_output_byte = 0, free_in_buffer = outputSize, dest_buffer = out, bufferSize = outputSize, overflow = False\<rparr>"
  have cs: "cs = s # ws @ [JFinish]" by (simp add: cs_def image_calls_def s_def ws_def)
  have later: "length (a_stored a) + length (stored J (h1 @ [s]) (map JWrite rows @ [JFinish])) \<le> outputSize" for rows
  proof -
    have "length (stored J h1 (s # map JWrite rows @ [JFinish])) \<le> outputSize"
      using assms(3) unfolding jpeg_contract_def s_def by blast
    then show ?thesis by (simp add: a_def)
  qed
  have err: "a_error a = a_empty a" using assms(3-7) unfolding jpeg_contract_def a_def s_def by blast
  have fin: "a_error (J ((h1 @ [s]) @ map JWrite rows) JFinish) \<longleftrightarrow>
      a_empty (J ((h1 @ [s]) @ map JWrite rows) JFinish) \<or> taken J (h1 @ [s]) (map JWrite rows) < height" for rows
    using assms(3) unfolding jpeg_contract_def s_def Let_def by blast
  define x where "x = encodeRGBA J True junk rgba width height quality out outputSize h"
  have "length (a_stored a) \<le> outputSize" using later [of "[]"] by simp
  then obtain d1 where d1: "dest_store a d0 = Some d1" "dest_inv out outputSize (a_stored a) d1" "overflow d1 = a_empty a"
    using dest_store_inv [of out outputSize "[]" d0 a] assms(9) by (auto simp: dest_inv_def d0_def)
  have run: "x = (if a_empty a then Some (Inl (h1 @ [s])) else
      Option.bind (write_rows J rgba width height height 0 (map junk [0..<width * 3]) d1 (h1 @ [s]))
        (\<lambda>w. case w of Inl h \<Rightarrow> Some (Inl h) | Inr (d, h) \<Rightarrow> finish_image J outputSize d h))"
    using d1(1) err by (simp add: x_def encodeRGBA_def sys_def dest_init_destination_def Let_def d0_def a_def h1_def s_def)
  have goal: "if roomy J h1 cs then x = Some (Inr (0, bs @ drop (length bs) out, Some (length bs), h1 @ cs @ [JDestroy])) \<and> length bs \<le> outputSize
    else \<exists>h'. x = Some (Inl h')"
  proof (cases "a_empty a")
    case True
    then show ?thesis using run by (simp add: cs a_def)
  next
    case False
    then have no: "\<not> overflow d1" using d1(3) by simp
    note W = write_rows_run [OF assms(9,8) _ assms(3) later d1(2) no, of "map junk [0..<width * 3]" 0 height, folded ws_def, simplified]
    have run': "x = Option.bind (write_rows J rgba width height height 0 (map junk [0..<width * 3]) d1 (h1 @ [s]))
        (\<lambda>w. case w of Inl h \<Rightarrow> Some (Inl h) | Inr (d, h) \<Rightarrow> finish_image J outputSize d h)"
      using run False by simp
    show ?thesis
    proof (cases "roomy J (h1 @ [s]) ws")
      case True
      then obtain d2 where d2: "write_rows J rgba width height height 0 (map junk [0..<width * 3]) d1 (h1 @ [s]) = Some (Inr (d2, (h1 @ [s]) @ ws))"
          "dest_inv out outputSize (a_stored a @ stored J (h1 @ [s]) ws) d2" "\<not> overflow d2" "taken J (h1 @ [s]) ws = height"
        using W by auto
      define f where "f = J ((h1 @ [s]) @ ws) JFinish"
      have bs: "bs = (a_stored a @ stored J (h1 @ [s]) ws) @ a_stored f" by (simp add: bs_def cs seq_append a_def f_def h1_def)
      have room: "roomy J h1 cs \<longleftrightarrow> \<not> a_empty f" using False True by (simp add: cs seq_append a_def f_def)
      have e: "a_error f \<longleftrightarrow> a_empty f" using fin [of "map (rgb_row rgba width) [0..<height]"] d2(4) by (simp add: f_def ws_def)
      have "length (a_stored a @ stored J (h1 @ [s]) ws) + length (a_stored f) \<le> outputSize"
        using later [of "map (rgb_row rgba width) [0..<height]"] by (simp add: seq_append ws_def f_def)
      from dest_store_inv [OF d2(2) assms(9) this] d2(3) obtain d3 where
        d3: "dest_store f d2 = Some d3" "dest_inv out outputSize bs d3" "overflow d3 = a_empty f" unfolding bs by auto
      have "finish_image J outputSize d2 ((h1 @ [s]) @ ws) = (if a_empty f then Some (Inl (((h1 @ [s]) @ ws) @ [JFinish]))
          else Some (Inr (0, dest_buffer d3, Some (outputSize - free_in_buffer d3), (((h1 @ [s]) @ ws) @ [JFinish]) @ [JDestroy])))"
        using d3(1,3) e by (simp add: finish_image_def sys_def f_def [simplified] Let_def)
      then show ?thesis using room d3(2) unfolding run' d2(1) by (auto simp: dest_inv_def cs)
    next
      case False
      then have "\<not> roomy J h1 cs" by (simp add: cs seq_append)
      moreover have "\<exists>h'. x = Some (Inl h')"
      proof -
        consider h' where "write_rows J rgba width height height 0 (map junk [0..<width * 3]) d1 (h1 @ [s]) = Some (Inl h')"
          | d' rows where "write_rows J rgba width height height 0 (map junk [0..<width * 3]) d1 (h1 @ [s]) =
              Some (Inr (d', (h1 @ [s]) @ map JWrite rows))" "taken J (h1 @ [s]) (map JWrite rows) < height"
          using W False by auto
        then show ?thesis
        proof cases
          case 2
          then show ?thesis using fin [of rows] unfolding run' by (simp add: finish_image_def sys_def Let_def)
        qed (simp add: run')
      qed
      ultimately show ?thesis by simp
    qed
  qed
  have "h1 @ cs @ [JDestroy] = h @ JCreate # cs @ [JDestroy]" by (simp add: h1_def)
  from goal [unfolded this] show ?thesis unfolding x_def h1_def .
qed

text \<open>Without the row buffer nothing but the start is asked of the library.\<close>

lemma encodeRGBA_no_row:
  fixes J width height quality outputSize h
  defines "a \<equiv> J (h @ [JCreate]) (JStart width height quality outputSize)"
  assumes "jpeg_contract J" "outputSize \<le> length out"
  shows "encodeRGBA J False junk rgba width height quality out outputSize h =
    Some (if a_error a then Inl (h @ [JCreate, JStart width height quality outputSize])
          else Inr (-ENOMEM, a_stored a @ drop (length (a_stored a)) out, None, h @ [JCreate, JStart width height quality outputSize, JDestroy]))"
proof -
  define d0 where "d0 = \<lparr>next_output_byte = 0, free_in_buffer = outputSize, dest_buffer = out, bufferSize = outputSize, overflow = False\<rparr>"
  have "length (stored J (h @ [JCreate]) (JStart width height quality outputSize # map JWrite [] @ [JFinish])) \<le> outputSize"
    using assms(2) unfolding jpeg_contract_def by blast
  then have "length [] + length (a_stored a) \<le> outputSize" by (simp add: a_def)
  moreover have "dest_inv out outputSize [] d0" by (simp add: dest_inv_def d0_def)
  ultimately obtain d1 where "dest_store a d0 = Some d1" "dest_inv out outputSize ([] @ a_stored a) d1"
    using dest_store_inv [OF _ assms(3)] by blast
  then show ?thesis
    by (simp add: encodeRGBA_def sys_def dest_init_destination_def Let_def d0_def a_def dest_inv_def)
qed

text \<open>
  The library has room for every image of the given size: no call of such an encoding asks for more.
\<close>

definition never_short :: "jpeglib \<Rightarrow> nat \<Rightarrow> nat \<Rightarrow> int \<Rightarrow> nat \<Rightarrow> bool" where
  "never_short J w ht q n \<longleftrightarrow> (\<forall>h rgba. roomy J h (image_calls rgba w ht q n))"

lemma encodeRGBA_total:
  assumes "jpeg_contract J" "0 < width" "width \<le> 65500" "0 < height" "height \<le> 65500"
    and "4 * (height * width) \<le> length rgba" "outputSize \<le> length out" "never_short J width height quality outputSize"
  shows "\<exists>r out' size h'. encodeRGBA J ok junk rgba width height quality out outputSize h = Some (Inr (r, out', size, h')) \<and>
    length out' = length out"
proof -
  define cs where "cs = image_calls rgba width height quality outputSize"
  have room: "roomy J (h @ [JCreate]) cs" using assms(8) by (simp add: never_short_def cs_def)
  show ?thesis
  proof (cases ok)
    case True
    then show ?thesis using encodeRGBA_run [OF assms(1-7), of h quality junk] room assms(7) by (simp add: cs_def)
  next
    case False
    define a where "a = J (h @ [JCreate]) (JStart width height quality outputSize)"
    have "a_error a = a_empty a" using assms(1-5) unfolding jpeg_contract_def a_def by blast
    then have "\<not> a_error a" using room by (simp add: cs_def image_calls_def a_def)
    moreover have "length (a_stored a) \<le> outputSize"
    proof -
      have "length (stored J (h @ [JCreate]) (JStart width height quality outputSize # map JWrite [] @ [JFinish])) \<le> outputSize"
        using assms(1) unfolding jpeg_contract_def by blast
      then show ?thesis by (simp add: a_def)
    qed
    ultimately show ?thesis using False encodeRGBA_no_row [OF assms(1,7)] assms(7)
      by (simp add: a_def)
  qed
qed

section \<open>Properties\<close>

text \<open>C12. With a \<open>libjpeg\<close> that keeps its documented contract, an image of 1 to 65500 by 1 to 65500
  pixels, an RGBA buffer that holds it, an output buffer of at least \<open>outputSize\<close> bytes and the row
  buffer allocated, the encoder has no access outside a buffer and terminates. When no call of the
  library asks for more room, it returns 0: the library was given the RGB bytes of all rows in
  order, the output holds exactly the bytes the library stored, in order, followed by what it held
  before, and \<open>jpegSize\<close> is their number, at most \<open>outputSize\<close>. When a call does ask for room, the
  process ends in the error handler of the library: the start and the finish of a compression must
  not suspend, and the finish after the early \<open>break\<close> is an error for missing rows. So \<open>-ENOSPC\<close> is
  never returned.\<close>

theorem encodeRGBA_correct:
  fixes J rgba width height quality outputSize h
  defines "cs \<equiv> JStart width height quality outputSize # map JWrite (map (rgb_row rgba width) [0..<height]) @ [JFinish]"
  defines "bs \<equiv> stored J (h @ [JCreate]) cs"
  assumes "jpeg_contract J" "0 < width" "width \<le> 65500" "0 < height" "height \<le> 65500"
    and "4 * (height * width) \<le> length rgba" "outputSize \<le> length out"
  shows "if roomy J (h @ [JCreate]) cs
    then encodeRGBA J True junk rgba width height quality out outputSize h =
      Some (Inr (0, bs @ drop (length bs) out, Some (length bs), h @ JCreate # cs @ [JDestroy])) \<and> length bs \<le> outputSize
    else \<exists>h'. encodeRGBA J True junk rgba width height quality out outputSize h = Some (Inl h')"
  unfolding cs_def bs_def by (rule encodeRGBA_run [OF assms(3-9), unfolded image_calls_def])

text \<open>A library that stores two bytes at the start when the destination has them, and nothing later.\<close>

definition test_jpeglib :: jpeglib where
  "test_jpeglib h c =
     (case c of
        JStart w ht q n \<Rightarrow> \<lparr> a_stored = (if n < 2 then [] else [255, 216]), a_empty = n < 2, a_rows = 0,
                            a_error = n < 2 \<or> w = 0 \<or> ht = 0 \<or> 65500 < w \<or> 65500 < ht \<rparr>
      | JWrite row \<Rightarrow> \<lparr> a_stored = [], a_empty = False, a_rows = 1, a_error = False \<rparr>
      | JFinish \<Rightarrow> \<lparr> a_stored = [], a_empty = False, a_rows = 0,
                     a_error = length (takeWhile (\<lambda>c. \<exists>row. c = JWrite row) (rev h)) <
                       (case dropWhile (\<lambda>c. \<exists>row. c = JWrite row) (rev h) of JStart w ht q n # _ \<Rightarrow> ht | _ \<Rightarrow> 0) \<rparr>
      | _ \<Rightarrow> \<lparr> a_stored = [], a_empty = False, a_rows = 0, a_error = False \<rparr>)"

lemma test_jpeglib_rows: "stored test_jpeglib h (map JWrite rows) = []" "taken test_jpeglib h (map JWrite rows) = length rows"
  by (induction rows arbitrary: h) (simp_all add: test_jpeglib_def)

lemma test_jpeglib_contract: "jpeg_contract test_jpeglib"
proof -
  have w: "takeWhile (\<lambda>c. \<exists>row. c = JWrite row) (rev (map JWrite rows) @ x # ys) = rev (map JWrite rows)"
      "dropWhile (\<lambda>c. \<exists>row. c = JWrite row) (rev (map JWrite rows) @ x # ys) = x # ys"
    if "\<not> (\<exists>row. x = JWrite row)" for rows x ys
    using that by (auto simp: takeWhile_append dropWhile_append)
  have "a_error (test_jpeglib ((h @ [JStart a ht q n]) @ map JWrite rows) JFinish) \<longleftrightarrow> length rows < ht" for h a ht q n rows
    using w [of "JStart a ht q n" rows "rev h"] by (simp add: test_jpeglib_def)
  moreover have "\<not> a_empty (test_jpeglib h JFinish)" "stored test_jpeglib h [JFinish] = []" for h by (simp_all add: test_jpeglib_def)
  ultimately show ?thesis unfolding jpeg_contract_def Let_def seq_append test_jpeglib_rows
    by (auto simp: seq_append test_jpeglib_rows) (simp_all add: test_jpeglib_def)
qed

theorem encodeRGBA_correct_witness:
  "encodeRGBA test_jpeglib True (\<lambda>_. 0) [1, 2, 3, 4] 1 1 90 [7, 8, 9] 3 [] =
     Some (Inr (0, [255, 216, 9], Some 2, [JCreate, JStart 1 1 90 3, JWrite [1, 2, 3], JFinish, JDestroy])) \<and>
   (\<exists>h'. encodeRGBA test_jpeglib True (\<lambda>_. 0) [1, 2, 3, 4] 1 1 90 [7, 8, 9] 1 [] = Some (Inl h'))"
  using encodeRGBA_correct [OF test_jpeglib_contract, of 1 1 "[1, 2, 3, 4]" 3 "[7, 8, 9]" "[]" 90 "\<lambda>_. 0"]
    encodeRGBA_correct [OF test_jpeglib_contract, of 1 1 "[1, 2, 3, 4]" 1 "[7, 8, 9]" "[]" 90 "\<lambda>_. 0"]
  by (simp, simp add: test_jpeglib_def, simp add: rgb_row_def)

end
