(* ===== verification/CStrings.thy ===== *)
theory CStrings
  imports Mocha_Prelude
begin

text \<open>
  Strings of the C library: decimal numbers as \<open>snprintf\<close> prints and \<open>atoi\<close> reads them, the tokens of
  \<open>strtok\<close>, comparisons, and the string a byte buffer holds.
\<close>

section \<open>Decimal numbers\<close>

definition digit :: "char \<Rightarrow> bool" where
  "digit c \<longleftrightarrow> of_char c \<ge> (48 :: int) \<and> of_char c \<le> (57 :: int)"

fun digits :: "int \<Rightarrow> string \<Rightarrow> int" where
  "digits n [] = n"
| "digits n (c # s) = (if digit c then digits (10 * n + (of_char c - 48)) s else n)"

definition blank :: "char \<Rightarrow> bool" where
  "blank c \<longleftrightarrow> c = CHR 0x20 \<or> (9 \<le> (of_char c :: int) \<and> (of_char c :: int) \<le> 13)"

text \<open>\<open>atoi\<close>, \<open>atol\<close> and \<open>strtol\<close> in base ten: leading blanks, an optional sign, digits.\<close>

definition atoi :: "string \<Rightarrow> int" where
  "atoi s =
     (case dropWhile blank s of
        [] \<Rightarrow> 0
      | c # t \<Rightarrow> if c = CHR ''-'' then - digits 0 t else if c = CHR ''+'' then digits 0 t else digits 0 (c # t))"

definition digit_char :: "nat \<Rightarrow> char" where
  "digit_char d = char_of (48 + d)"

fun itoa_nat :: "nat \<Rightarrow> string" where
  "itoa_nat n = (if n < 10 then [digit_char n] else itoa_nat (n div 10) @ [digit_char (n mod 10)])"

declare itoa_nat.simps [simp del]

text \<open>The conversion \<open>%d\<close>.\<close>

definition itoa :: "int \<Rightarrow> string" where
  "itoa i = (if i < 0 then CHR ''-'' # itoa_nat (nat (- i)) else itoa_nat (nat i))"

lemma digit_char_code [simp]: "d < 10 \<Longrightarrow> of_char (digit_char d) = (48 + of_nat d :: int)"
proof -
  assume "d < 10"
  then have "of_char (digit_char d) = 48 + d" by (simp add: digit_char_def)
  then show ?thesis by (metis of_nat_of_char of_nat_add of_nat_numeral)
qed

lemma digit_digit_char [simp]: "d < 10 \<Longrightarrow> digit (digit_char d)"
  by (simp add: digit_def)

lemma not_digit_special: "digit c \<Longrightarrow> c \<noteq> CHR '' '' \<and> c \<noteq> CHR ''-'' \<and> c \<noteq> CHR ''+'' \<and> \<not> blank c"
  by (auto simp: digit_def blank_def)

lemma itoa_nat_digits: "\<forall>c \<in> set (itoa_nat n). digit c"
proof (induction n rule: itoa_nat.induct)
  case (1 n)
  then show ?case by (subst itoa_nat.simps) auto
qed

lemma itoa_nat_nonempty [simp]: "itoa_nat n \<noteq> []"
  by (subst itoa_nat.simps) simp

lemma digits_append: "\<forall>c \<in> set s. digit c \<Longrightarrow> digits n (s @ t) = digits (digits n s) t"
  by (induction s arbitrary: n) auto

lemma digits_stop: "s = [] \<or> \<not> digit (hd s) \<Longrightarrow> digits n s = n"
  by (cases s) auto

lemma digits_itoa_nat: "s = [] \<or> \<not> digit (hd s) \<Longrightarrow> digits 0 (itoa_nat n @ s) = int n"
proof (induction n arbitrary: s rule: itoa_nat.induct)
  case (1 n)
  show ?case
  proof (cases "n < 10")
    case True
    then show ?thesis using "1.prems" by (subst itoa_nat.simps) (simp add: digits_stop)
  next
    case False
    have "digits 0 (itoa_nat (n div 10)) = int (n div 10)" using "1.IH" [OF False, of "[]"] by simp
    then have "digits 0 (itoa_nat n @ s) = 10 * int (n div 10) + int (n mod 10)"
      using False "1.prems" itoa_nat_digits [of "n div 10"]
      by (subst itoa_nat.simps) (simp add: digits_append digits_stop)
    then show ?thesis by (metis mult_div_mod_eq of_nat_add of_nat_mult of_nat_numeral)
  qed
qed

text \<open>\<open>atoi\<close> reads back what \<open>%d\<close> prints, up to the first character that is not a digit.\<close>

lemma atoi_itoa: "s = [] \<or> \<not> digit (hd s) \<Longrightarrow> atoi (itoa i @ s) = i"
proof -
  assume s: "s = [] \<or> \<not> digit (hd s)"
  obtain c t where n: "itoa_nat (nat i) = c # t" "digit c"
    using itoa_nat_digits [of "nat i"] by (cases "itoa_nat (nat i)") auto
  show ?thesis
  proof (cases "i < 0")
    case True
    then show ?thesis using digits_itoa_nat [OF s, of "nat (- i)"] by (simp add: atoi_def itoa_def blank_def)
  next
    case False
    then have "atoi (itoa i @ s) = digits 0 (itoa_nat (nat i) @ s)"
      using n not_digit_special [OF n(2)] by (simp add: atoi_def itoa_def)
    then show ?thesis using digits_itoa_nat [OF s, of "nat i"] False by simp
  qed
qed

lemma itoa_nat_length: "n < 10 ^ k \<Longrightarrow> 0 < k \<Longrightarrow> length (itoa_nat n) \<le> k"
proof (induction n arbitrary: k rule: itoa_nat.induct)
  case (1 n)
  show ?case
  proof (cases "n < 10")
    case True
    then show ?thesis using "1.prems"(2) by (subst itoa_nat.simps) simp
  next
    case False
    then obtain j where k: "k = Suc j" "0 < j" using "1.prems" by (cases k; cases "k - 1") auto
    have "n div 10 < 10 ^ j" using "1.prems"(1) k(1) by (simp add: less_mult_imp_div_less mult.commute)
    then show ?thesis using "1.IH" [OF False, of j] k False by (subst itoa_nat.simps) simp
  qed
qed

lemma itoa_length: "\<bar>i\<bar> < 10 ^ k \<Longrightarrow> 0 < k \<Longrightarrow> length (itoa i) \<le> (if i < 0 then Suc k else k)"
proof -
  assume a: "\<bar>i\<bar> < 10 ^ k" "0 < k"
  then have "nat \<bar>i\<bar> < 10 ^ k" by (simp add: nat_less_iff)
  from itoa_nat_length [OF this a(2)] show ?thesis by (simp add: itoa_def abs_if split: if_splits)
qed

lemma itoa_clean: "c \<in> set (itoa i) \<Longrightarrow> digit c \<or> c = CHR ''-''"
  using itoa_nat_digits by (auto simp: itoa_def split: if_splits)

lemma itoa_no_space [simp]: "CHR '' '' \<notin> set (itoa i)" "itoa i \<noteq> []"
proof -
  show "CHR '' '' \<notin> set (itoa i)" using itoa_clean [of "CHR '' ''" i] by (auto simp: digit_def)
  show "itoa i \<noteq> []" by (simp add: itoa_def)
qed

section \<open>Tokens\<close>

text \<open>The tokens \<open>strtok\<close> finds with the delimiter space.\<close>

function tokens :: "string \<Rightarrow> string list" where
  "tokens s =
     (let t = dropWhile (\<lambda>c. c = CHR '' '') s
      in if t = [] then [] else takeWhile (\<lambda>c. c \<noteq> CHR '' '') t # tokens (dropWhile (\<lambda>c. c \<noteq> CHR '' '') t))"
  by pat_completeness auto
termination
proof (relation "measure length", goal_cases)
  case (2 s t)
  then have "t \<noteq> []" "hd t \<noteq> CHR '' ''" using hd_dropWhile [of "\<lambda>c. c = CHR '' ''" s] by auto
  then obtain c u where t: "t = c # u" "c \<noteq> CHR '' ''" by (cases t) auto
  have "length (dropWhile (\<lambda>c. c \<noteq> CHR '' '') t) \<le> length u" using t by (simp add: length_dropWhile_le)
  moreover have "length t \<le> length s" using 2(1) by (simp add: length_dropWhile_le)
  ultimately show ?case using t(1) by simp
qed simp

declare tokens.simps [simp del]

lemma tokens_Nil [simp]: "tokens [] = []"
  by (simp add: tokens.simps)

lemma split_at_space:
  "CHR '' '' \<notin> set x \<Longrightarrow> takeWhile (\<lambda>c. c \<noteq> CHR '' '') (x @ CHR '' '' # s) = x"
  "CHR '' '' \<notin> set x \<Longrightarrow> dropWhile (\<lambda>c. c \<noteq> CHR '' '') (x @ CHR '' '' # s) = CHR '' '' # s"
  "CHR '' '' \<notin> set x \<Longrightarrow> takeWhile (\<lambda>c. c \<noteq> CHR '' '') x = x"
  "CHR '' '' \<notin> set x \<Longrightarrow> dropWhile (\<lambda>c. c \<noteq> CHR '' '') x = []"
  by (induction x) auto

lemma tokens_one: "x \<noteq> [] \<Longrightarrow> CHR '' '' \<notin> set x \<Longrightarrow> tokens (x @ CHR '' '' # s) = x # tokens s"
proof -
  assume x: "x \<noteq> []" "CHR '' '' \<notin> set x"
  have d: "dropWhile (\<lambda>c. c = CHR '' '') (x @ CHR '' '' # s) = x @ CHR '' '' # s" using x by (cases x) auto
  note t = split_at_space(1,2) [OF x(2), of s]
  have "tokens (CHR '' '' # s) = tokens s" by (simp add: tokens.simps [of "CHR '' '' # s"] tokens.simps [of s] Let_def)
  then show ?thesis by (subst tokens.simps) (use d t x in \<open>simp add: Let_def\<close>)
qed

lemma tokens_last: "x \<noteq> [] \<Longrightarrow> CHR '' '' \<notin> set x \<Longrightarrow> tokens x = [x]"
proof -
  assume x: "x \<noteq> []" "CHR '' '' \<notin> set x"
  then have "dropWhile (\<lambda>c. c = CHR '' '') x = x" by (cases x) auto
  then show ?thesis unfolding tokens.simps [of x] Let_def using x by (simp add: split_at_space(3,4) [OF x(2)])
qed

section \<open>Buffers and comparisons\<close>

text \<open>The string a buffer holds: the characters before the first NUL, which must be there.\<close>

definition cstring :: "string \<Rightarrow> string option" where
  "cstring b = (if CHR 0x00 \<in> set b then Some (takeWhile (\<lambda>c. c \<noteq> CHR 0x00) b) else None)"

definition strncmp_eq :: "nat \<Rightarrow> string \<Rightarrow> string \<Rightarrow> bool" where
  "strncmp_eq n a b \<longleftrightarrow> take n a = take n b"

definition lower :: "char \<Rightarrow> char" where
  "lower c = (if 65 \<le> (of_char c :: nat) \<and> (of_char c :: nat) \<le> 90 then char_of (of_char c + 32 :: nat) else c)"

definition strcasecmp_eq :: "string \<Rightarrow> string \<Rightarrow> bool" where
  "strcasecmp_eq a b \<longleftrightarrow> map lower a = map lower b"

text \<open>What \<open>snprintf\<close> leaves in a buffer of the given size.\<close>

definition snprintf :: "nat \<Rightarrow> string \<Rightarrow> string" where
  "snprintf n s = take (n - 1) s"

end
