(* ===== verification/CameraHAL.thy ===== *)
theory CameraHAL
  imports PipelineProps InFlightTracker CameraCharacteristics JpegEncoder CStrings
begin

text \<open>
  The camera device (\<open>camera/MochaCameraHAL.cpp\<close>): opening and closing, stream configuration,
  capture requests and flush, on top of the capture pipeline, the in-flight tracker, the metadata
  tables and the still image encoder. The framework's callbacks, the buffer allocator and the
  fences are seen through the events an operation emits; what they answer is a parameter of the
  request. An operation that dereferences a null pointer or leaves a buffer is \<open>None\<close>.
\<close>

section \<open>Data\<close>

datatype stream_type = CAMERA3_STREAM_OUTPUT | CAMERA3_STREAM_OTHER

record camera3_stream =
  st_type :: stream_type
  st_width :: u32
  st_height :: u32
  st_format :: u32
  max_buffers :: nat

datatype af_mode = AF_MODE_OFF | AF_MODE_AUTO | AF_MODE_CONTINUOUS_PICTURE | AF_MODE_OTHER u8

datatype af_trigger = AF_TRIGGER_IDLE | AF_TRIGGER_START | AF_TRIGGER_CANCEL | AF_TRIGGER_OTHER u8

text \<open>
  The device. \<open>callback_ops\<close> tells, when it is set, whether its \<open>notify\<close> member is; the output
  stream is an index into the configured streams. The last two fields are the transcripts of the
  video driver while no pipeline exists and of the JPEG library.
\<close>

record camera_device =
  camera_id :: int
  callback_ops :: "bool option"
  is_initialized :: bool
  streams_configured :: bool
  dev_pipeline :: "pipeline option"
  inflight_tracker :: "tracker option"
  output_stream :: "nat option"
  pipeline_width :: u32
  pipeline_height :: u32
  last_config_width :: u32
  last_config_height :: u32
  jpeg_encoder :: bool
  temp_rgba :: "buf option"
  temp_rgba_size :: u32
  dev_af_mode :: af_mode
  dev_af_trigger :: af_trigger
  af_trigger_handled :: bool
  vlog :: "vcall list"
  jlog :: "jcall list"

datatype buffer_status = CAMERA3_BUFFER_STATUS_OK | CAMERA3_BUFFER_STATUS_ERROR

text \<open>
  What the framework, the allocator and the fences see. A result names its frame, its metadata,
  the status of its one output buffer (none when it has no buffer) and \<open>partial_result\<close>.
\<close>

datatype hal_event =
    NotifyShutter u32 int
  | NotifyError u32
  | CaptureResult u32 "metadata option" "buffer_status option" nat
  | FencePoll int
  | FenceClose int
  | GrallocLock int
  | GrallocUnlock

text \<open>
  The platform: the video driver, \<open>powf\<close>, the bytes of fresh memory and of a new pipeline's
  uninitialised members, the metadata and JPEG libraries and the layout of the JPEG trailer.
\<close>

record platform =
  drv :: driver
  powf_fn :: "rat \<Rightarrow> rat \<Rightarrow> rat"
  fresh :: "nat \<Rightarrow> u8"
  fresh_cfg :: PipelineConfig
  fresh_id :: int
  fresh_lut :: buf
  mdlib :: mlib
  jlib :: jpeglib
  blob_bytes :: "nat \<Rightarrow> u8 list"

section \<open>Opening and closing\<close>

definition camera_device_init :: "vcall list \<Rightarrow> jcall list \<Rightarrow> camera_device" where
  "camera_device_init h j =
     \<lparr> camera_id = 0, callback_ops = None, is_initialized = False, streams_configured = False,
       dev_pipeline = None, inflight_tracker = Some tracker_new, output_stream = None,
       pipeline_width = 0, pipeline_height = 0, last_config_width = 0, last_config_height = 0,
       jpeg_encoder = False, temp_rgba = None, temp_rgba_size = 0,
       dev_af_mode = AF_MODE_AUTO, dev_af_trigger = AF_TRIGGER_IDLE, af_trigger_handled = False,
       vlog = h, jlog = j \<rparr>"

text \<open>Closing and deleting a pipeline; its destructor closes it once more.\<close>

definition drop_pipeline :: "driver \<Rightarrow> pipeline \<Rightarrow> vcall list" where
  "drop_pipeline K p = calls (snd (pl_close K (snd (pl_close K p))))"

text \<open>The device is freed at the end, so only the return value and the transcript are left.\<close>

definition camera_device_close :: "driver \<Rightarrow> camera_device option \<Rightarrow> int \<times> vcall list option" where
  "camera_device_close K device =
     (case device of
        None \<Rightarrow> (-EINVAL, None)
      | Some dev \<Rightarrow>
          (0, Some (case dev_pipeline dev of None \<Rightarrow> vlog dev | Some p \<Rightarrow> drop_pipeline K p)))"

definition camera_device_initialize :: "camera_device option \<Rightarrow> bool option \<Rightarrow> int \<times> camera_device option" where
  "camera_device_initialize device ops =
     (case (device, ops) of
        (Some dev, Some notify) \<Rightarrow> (0, Some (dev\<lparr>callback_ops := Some notify, is_initialized := True\<rparr>))
      | _ \<Rightarrow> (-EINVAL, device))"

definition openCamera :: "int \<Rightarrow> vcall list \<Rightarrow> jcall list \<Rightarrow> int \<times> camera_device option" where
  "openCamera cameraId h j =
     (if cameraId < 0 \<or> cameraId \<ge> kNumCameras then (-EINVAL, None)
      else (0, Some ((camera_device_init h j)\<lparr>camera_id := cameraId\<rparr>)))"

definition hal_open :: "string option \<Rightarrow> vcall list \<Rightarrow> jcall list \<Rightarrow> int \<times> camera_device option" where
  "hal_open name h j = (case name of None \<Rightarrow> (-EINVAL, None) | Some s \<Rightarrow> openCamera (atoi s) h j)"

definition open_legacy :: "string option \<Rightarrow> u32 \<Rightarrow> vcall list \<Rightarrow> jcall list \<Rightarrow> int \<times> camera_device option" where
  "open_legacy name halVersion h j =
     (case name of
        None \<Rightarrow> (-EINVAL, None)
      | Some s \<Rightarrow> if halVersion \<ge> 0x30000 then openCamera (atoi s) h j else (-ENOSYS, None))"

definition set_torch_mode :: "string option \<Rightarrow> bool \<Rightarrow> int outcome" where
  "set_torch_mode camera enabled =
     (case camera of
        None \<Rightarrow> Crash
      | Some s \<Rightarrow>
          let cameraId = atoi s
          in Ret (if cameraId < 0 \<or> cameraId \<ge> kNumCameras then -EINVAL else if cameraId \<noteq> 0 then -ENOSYS else 0))"

section \<open>Stream configuration\<close>

record stream_choice =
  pipelineStream :: "nat option"
  outputStream :: "nat option"
  rgbaStream :: "nat option"

definition choose_stream :: "nat \<Rightarrow> camera3_stream \<Rightarrow> stream_choice \<Rightarrow> stream_choice" where
  "choose_stream i s c =
     (if st_type s = CAMERA3_STREAM_OUTPUT then
        let c = c\<lparr>outputStream := Some i\<rparr> in
        if pipelineStream c = None \<and> st_format s \<noteq> HAL_PIXEL_FORMAT_BLOB then
          if st_format s = HAL_PIXEL_FORMAT_RGBA_8888 then c\<lparr>pipelineStream := Some i, rgbaStream := Some i\<rparr>
          else if rgbaStream c = None \<and> st_format s = HAL_PIXEL_FORMAT_IMPLEMENTATION_DEFINED then c\<lparr>rgbaStream := Some i\<rparr>
          else if pipelineStream c = None then c\<lparr>pipelineStream := Some i\<rparr>
          else c
        else c
      else c)"

text \<open>The validation loop; \<open>None\<close> is the early return on an empty stream.\<close>

fun scan_streams :: "nat \<Rightarrow> camera3_stream list \<Rightarrow> stream_choice \<Rightarrow> camera3_stream list \<times> stream_choice option" where
  "scan_streams i [] c = ([], Some c)"
| "scan_streams i (s # ss) c =
     (if st_width s = 0 \<or> st_height s = 0 then (s # ss, None)
      else
        let s' = (if st_type s = CAMERA3_STREAM_OUTPUT then s\<lparr>max_buffers := 2\<rparr> else s);
            (ss', r) = scan_streams (Suc i) ss (choose_stream i s c)
        in (s' # ss', r))"

definition override_format :: "camera3_stream \<Rightarrow> camera3_stream" where
  "override_format s =
     (if st_type s = CAMERA3_STREAM_OUTPUT \<and> st_format s = HAL_PIXEL_FORMAT_IMPLEMENTATION_DEFINED
      then s\<lparr>st_format := HAL_PIXEL_FORMAT_RGBA_8888\<rparr> else s)"

definition V4L2_PIX_FMT_SRGGB10 :: u32 where "V4L2_PIX_FMT_SRGGB10 = 0x30314752"
definition V4L2_PIX_FMT_SBGGR10 :: u32 where "V4L2_PIX_FMT_SBGGR10 = 0x30314742"

definition stream_config :: "int \<Rightarrow> u32 \<Rightarrow> u32 \<Rightarrow> PipelineConfig" where
  "stream_config cameraId w h =
     \<lparr> cfg_width = w, cfg_height = h,
       cfg_pixelFormat = (if cameraId = 0 then V4L2_PIX_FMT_SRGGB10 else V4L2_PIX_FMT_SBGGR10),
       cfg_bayerPattern = 3, cfg_offset_x = 0, cfg_offset_y = 0, cfg_flipV = False, cfg_enableISP = True,
       cfg_blackLevel = 0, cfg_wbGain = [1, 1, 1, 1], cfg_gamma = fround (55 / 100),
       cfg_enableAE = True, cfg_enableAWB = True, cfg_targetLuma = fround (55 / 100), cfg_digitalGain = 6 \<rparr>"

text \<open>The results that complete the frames in flight; the callback table must be there.\<close>

definition drain_results :: "u32 list \<Rightarrow> hal_event list" where
  "drain_results frames = map (\<lambda>f. CaptureResult f None None 0) frames"

definition drain_inflight :: "camera_device \<Rightarrow> (camera_device \<times> hal_event list) option" where
  "drain_inflight dev =
     (case inflight_tracker dev of
        None \<Rightarrow> Some (dev, [])
      | Some t \<Rightarrow>
          if tracker_count t > 0 then
            if callback_ops dev = None then None
            else
              let (frames, t) = drainAll t
              in Some (dev\<lparr>inflight_tracker := Some t\<rparr>, drain_results frames)
          else Some (dev, []))"

definition close_previous :: "driver \<Rightarrow> camera_device \<Rightarrow> camera_device" where
  "close_previous K dev =
     (case dev_pipeline dev of
        None \<Rightarrow> dev
      | Some p \<Rightarrow> dev\<lparr>dev_pipeline := None, vlog := drop_pipeline K p\<rparr>)"

text \<open>A new pipeline, when it can be opened.\<close>

definition open_pipeline :: "platform \<Rightarrow> camera_device \<Rightarrow> pipeline + vcall list" where
  "open_pipeline P dev =
     (let p = CameraPipeline_new (fresh_cfg P) (fresh_id P) (fresh_lut P) (vlog dev);
          (ret, p) = pl_open (drv P) (camera_id dev) p
      in if ret \<noteq> 0 then Inr (calls (snd (pl_close (drv P) p))) else Inl p)"

text \<open>Configuring and starting it at the given size.\<close>

definition start_pipeline :: "platform \<Rightarrow> u32 \<Rightarrow> u32 \<Rightarrow> pipeline \<Rightarrow> camera_device \<Rightarrow> (int \<times> camera_device) option" where
  "start_pipeline P w h p dev =
     do { (ret, p) \<leftarrow> configure (drv P) (powf_fn P) (fresh P) (stream_config (camera_id dev) w h) p;
          if ret \<noteq> 0 then Some (ret, dev\<lparr>dev_pipeline := None, vlog := drop_pipeline (drv P) p\<rparr>)
          else
            let (ret, p) = startStreaming (drv P) p
            in if ret \<noteq> 0 then Some (ret, dev\<lparr>dev_pipeline := None, vlog := drop_pipeline (drv P) p\<rparr>)
               else Some (0, dev\<lparr>dev_pipeline := Some p\<rparr>) }"

definition same_configuration :: "camera3_stream \<Rightarrow> camera_device \<Rightarrow> bool" where
  "same_configuration s dev \<longleftrightarrow>
     last_config_width dev = st_width s \<and> last_config_height dev = st_height s \<and> streams_configured dev \<and>
     (\<exists>p \<in> set_option (dev_pipeline dev). mState p = PIPELINE_STREAMING)"

text \<open>
  The formats are overridden once the new pipeline is open. The streams the caller passed are
  given back as the call leaves them.
\<close>

definition reconfigure ::
  "platform \<Rightarrow> camera3_stream list \<Rightarrow> camera3_stream \<Rightarrow> nat option \<Rightarrow> camera_device \<Rightarrow>
     (int \<times> camera3_stream list \<times> camera_device \<times> hal_event list) option" where
  "reconfigure P streams s out dev =
     do { (dev, evs) \<leftarrow> drain_inflight dev;
          let dev = close_previous (drv P) dev;
          case open_pipeline P dev of
            Inr h \<Rightarrow> Some (-ENODEV, streams, dev\<lparr>vlog := h\<rparr>, evs)
          | Inl p \<Rightarrow>
              do { (ret, dev) \<leftarrow> start_pipeline P (st_width s) (st_height s) p dev;
                   Some (ret, map override_format streams,
                     if ret \<noteq> 0 then dev
                     else dev\<lparr>output_stream := out, pipeline_width := st_width s, pipeline_height := st_height s,
                              last_config_width := st_width s, last_config_height := st_height s,
                              streams_configured := True\<rparr>, evs) } }"

definition configure_streams ::
  "platform \<Rightarrow> camera_device option \<Rightarrow> camera3_stream list option \<Rightarrow>
     (int \<times> camera3_stream list option \<times> camera_device option \<times> hal_event list) option" where
  "configure_streams P device config =
     (case (device, config) of
        (Some dev, Some streams) \<Rightarrow>
          if streams = [] \<or> length streams > 20 then Some (-EINVAL, config, device, [])
          else
            (case scan_streams 0 streams \<lparr>pipelineStream = None, outputStream = None, rgbaStream = None\<rparr> of
               (streams, None) \<Rightarrow> Some (-EINVAL, Some streams, device, [])
             | (streams, Some c) \<Rightarrow>
                 (case (if rgbaStream c \<noteq> None then rgbaStream c else pipelineStream c) of
                    None \<Rightarrow> None
                  | Some i \<Rightarrow>
                      if same_configuration (streams ! i) dev then Some (0, Some streams, device, [])
                      else
                        map_option (\<lambda>(ret, streams, dev, evs). (ret, Some streams, Some dev, evs))
                          (reconfigure P streams (streams ! i) (outputStream c) dev)))
      | _ \<Rightarrow> Some (-EINVAL, config, device, []))"

section \<open>Capture requests\<close>

text \<open>
  What the settings of a request say about focus: the first byte of the entry when it is there.
  The focus distance is only logged.
\<close>

record settings =
  set_af_mode :: "af_mode option"
  set_af_trigger :: "af_trigger option"

record stream_buffer =
  sb_buffer :: "nat option"
  sb_stream :: camera3_stream
  acquire_fence :: int

record capture_request =
  rq_frame :: u32
  rq_settings :: "settings option"
  rq_buffers :: "stream_buffer list option"

text \<open>
  What the platform answers during a request: the clock at the end, whether the allocator module
  is found, the result of locking the buffer with the memory it gives, and whether the two
  allocations of the still capture succeed.
\<close>

record request_env =
  end_sec :: int
  end_nsec :: int
  gralloc_found :: bool
  gralloc_lock :: "int \<times> buf option"
  gralloc_lock_ycbcr :: "int \<times> buf option"
  malloc_rgba :: bool
  malloc_row :: bool

definition untrack :: "u32 \<Rightarrow> camera_device \<Rightarrow> camera_device" where
  "untrack frame dev = dev\<lparr>inflight_tracker := map_option (\<lambda>t. snd (tracker_remove frame t)) (inflight_tracker dev)\<rparr>"

definition track :: "u32 \<Rightarrow> nat option \<Rightarrow> camera_device \<Rightarrow> camera_device" where
  "track frame buffer dev =
     dev\<lparr>inflight_tracker := map_option (tracker_add frame (case buffer of None \<Rightarrow> 0 | Some b \<Rightarrow> b)) (inflight_tracker dev)\<rparr>"

definition flushed :: "u32 \<Rightarrow> camera_device \<Rightarrow> bool" where
  "flushed frame dev \<longleftrightarrow> (\<exists>t \<in> set_option (inflight_tracker dev). isError frame t)"

definition apply_settings :: "settings option \<Rightarrow> camera_device \<Rightarrow> camera_device" where
  "apply_settings st dev =
     (case st of
        None \<Rightarrow> dev
      | Some s \<Rightarrow>
          let dev = (case set_af_mode s of None \<Rightarrow> dev | Some m \<Rightarrow> dev\<lparr>dev_af_mode := m\<rparr>)
          in (case set_af_trigger s of None \<Rightarrow> dev | Some t \<Rightarrow> dev\<lparr>dev_af_trigger := t\<rparr>))"

definition af_control :: "platform \<Rightarrow> camera_device \<Rightarrow> camera_device option" where
  "af_control P dev =
     (case dev_pipeline dev of
        None \<Rightarrow> Some dev
      | Some p \<Rightarrow>
          if dev_af_mode dev = AF_MODE_AUTO \<or> dev_af_mode dev = AF_MODE_CONTINUOUS_PICTURE then
            if dev_af_trigger dev = AF_TRIGGER_START \<and> \<not> af_trigger_handled dev then
              map_option (\<lambda>p. dev\<lparr>dev_pipeline := Some p, af_trigger_handled := True\<rparr>) (startAfScan (drv P) (powf_fn P) p)
            else if dev_af_trigger dev = AF_TRIGGER_CANCEL then
              Some (dev\<lparr>dev_pipeline := Some (cancelAf (drv P) p), af_trigger_handled := False\<rparr>)
            else Some dev
          else Some dev)"

definition wait_fence :: "int \<Rightarrow> hal_event list" where
  "wait_fence fence = (if fence \<ge> 0 then [FencePoll fence, FenceClose fence] else [])"

definition capture_into :: "platform \<Rightarrow> u32 \<Rightarrow> buf \<Rightarrow> camera_device \<Rightarrow> (int \<times> buf \<times> camera_device) option" where
  "capture_into P fmt out dev =
     do { p \<leftarrow> dev_pipeline dev;
          (ret, out, p) \<leftarrow> captureFrame (drv P) (powf_fn P) (Some out) fmt p;
          out \<leftarrow> out;
          Some (ret, out, dev\<lparr>dev_pipeline := Some p\<rparr>) }"

text \<open>How the capture ends: the function returns a code, or goes on with a captured frame or without.\<close>

datatype captured = Return int | Captured bool

definition alloc_temp :: "platform \<Rightarrow> request_env \<Rightarrow> camera_device \<Rightarrow> camera_device" where
  "alloc_temp P E dev =
     (let rgbaSize = pipeline_width dev * pipeline_height dev * 4
      in if temp_rgba dev = None \<or> temp_rgba_size dev < rgbaSize
         then dev\<lparr>temp_rgba := (if malloc_rgba E then Some (map (fresh P) [0..<unat rgbaSize]) else None),
                  temp_rgba_size := rgbaSize\<rparr>
         else dev)"

text \<open>
  Encoding into the locked buffer \<open>vaddr\<close> and writing the trailer at its end. An encoder that ends the
  process does not return: \<open>None\<close>.
\<close>

definition encode_blob :: "platform \<Rightarrow> request_env \<Rightarrow> camera3_stream \<Rightarrow> buf \<Rightarrow> buf \<Rightarrow> camera_device \<Rightarrow>
    (bool \<times> buf \<times> camera_device) option" where
  "encode_blob P E s rgba vaddr dev =
     (let blobSize = unat (st_width s * st_height s * 2) in
      do { r \<leftarrow> encodeRGBA (jlib P) (malloc_row E) (fresh P) rgba
             (unat (pipeline_width dev)) (unat (pipeline_height dev)) 90 vaddr blobSize (jlog dev);
           (ret, out, size, j) \<leftarrow> (case r of Inl _ \<Rightarrow> None | Inr x \<Rightarrow> Some x);
           let dev = dev\<lparr>jpeg_encoder := True, jlog := j\<rparr>;
           let jpegSize = (case size of None \<Rightarrow> 0 | Some n \<Rightarrow> n);
           if ret = 0 \<and> jpegSize > 0 then
             if blobSize < length (blob_bytes P jpegSize) then None
             else
               do { out \<leftarrow> wr_block (blobSize - length (blob_bytes P jpegSize)) (blob_bytes P jpegSize) out;
                    Some (True, out, dev) }
           else Some (False, out, dev) })"

definition capture_blob :: "platform \<Rightarrow> request_env \<Rightarrow> camera3_stream \<Rightarrow> u32 \<Rightarrow> camera_device \<Rightarrow>
    (captured \<times> buf option \<times> camera_device \<times> hal_event list) option" where
  "capture_blob P E s frame dev =
     (let dev = alloc_temp P E dev in
      case temp_rgba dev of
        None \<Rightarrow> Some (Captured False, None, dev, [])
      | Some rgba \<Rightarrow>
          do { (ret, rgba, dev) \<leftarrow> capture_into P HAL_PIXEL_FORMAT_RGBA_8888 rgba dev;
               let dev = dev\<lparr>temp_rgba := Some rgba\<rparr>;
               if ret = 0 then
                 (case gralloc_lock E of
                    (ret, vaddr) \<Rightarrow>
                      (case (if ret = 0 then vaddr else None) of
                         None \<Rightarrow> Some (Captured False, None, dev, [GrallocLock ret])
                       | Some vaddr \<Rightarrow>
                           do { (ok, out, dev) \<leftarrow> encode_blob P E s rgba vaddr dev;
                                Some (Captured ok, Some out, dev, [GrallocLock ret, GrallocUnlock]) }))
               else if ret = -EAGAIN then Some (Return (-EAGAIN), None, untrack frame dev, [])
               else Some (Captured False, None, dev, []) })"

text \<open>The two other formats differ in the locking call only.\<close>

definition capture_locked :: "platform \<Rightarrow> int \<times> buf option \<Rightarrow> u32 \<Rightarrow> u32 \<Rightarrow> camera_device \<Rightarrow>
    (captured \<times> buf option \<times> camera_device \<times> hal_event list) option" where
  "capture_locked P lock fmt frame dev =
     (case lock of
        (ret, vaddr) \<Rightarrow>
          (case (if ret = 0 then vaddr else None) of
             None \<Rightarrow> Some (Captured False, None, dev, [GrallocLock ret])
           | Some vaddr \<Rightarrow>
               do { (ret', out, dev) \<leftarrow> capture_into P fmt vaddr dev;
                    if ret' = -EAGAIN
                    then Some (Return (-EAGAIN), Some out, untrack frame dev, [GrallocLock ret, GrallocUnlock])
                    else Some (Captured (ret' = 0), Some out, dev, [GrallocLock ret, GrallocUnlock]) }))"

definition capture_frame :: "platform \<Rightarrow> request_env \<Rightarrow> camera3_stream \<Rightarrow> u32 \<Rightarrow> camera_device \<Rightarrow>
    (captured \<times> buf option \<times> camera_device \<times> hal_event list) option" where
  "capture_frame P E s frame dev =
     (if \<not> gralloc_found E then Some (Captured False, None, dev, [])
      else if st_format s = HAL_PIXEL_FORMAT_BLOB then capture_blob P E s frame dev
      else if st_format s = HAL_PIXEL_FORMAT_YCBCR_420_888
      then capture_locked P (gralloc_lock_ycbcr E) (st_format s) frame dev
      else capture_locked P (gralloc_lock E) (st_format s) frame dev)"

text \<open>A pipeline that \<open>flush\<close> stopped is started again first.\<close>

definition restart_and_capture :: "platform \<Rightarrow> request_env \<Rightarrow> camera3_stream \<Rightarrow> u32 \<Rightarrow> camera_device \<Rightarrow>
    (captured \<times> buf option \<times> camera_device \<times> hal_event list) option" where
  "restart_and_capture P E s frame dev =
     (case dev_pipeline dev of
        None \<Rightarrow> Some (Captured False, None, dev, [])
      | Some p \<Rightarrow>
          if \<not> streams_configured dev then Some (Captured False, None, dev, [])
          else if mState p = PIPELINE_OPENED then
            let (ret, p) = startStreaming (drv P) p;
                dev = dev\<lparr>dev_pipeline := Some p\<rparr>
            in if ret \<noteq> 0 then Some (Return (-ENODEV), None, untrack frame dev, [])
               else capture_frame P E s frame dev
          else capture_frame P E s frame dev)"

text \<open>The values of a result: those of the pipeline, or the defaults when there is none.\<close>

definition result_values :: "platform \<Rightarrow> camera_device \<Rightarrow> (int \<times> int \<times> int \<times> int) \<times> camera_device" where
  "result_values P dev =
     (case dev_pipeline dev of
        None \<Rightarrow> ((2400, 128, 0, 0), dev)
      | Some p \<Rightarrow>
          let (exposure, p) = getExposure (drv P) p;
              (sensitivity, p) = getGain (drv P) p
          in ((exposure, sensitivity, mAfState p, mFocusPosition p), dev\<lparr>dev_pipeline := Some p\<rparr>))"

text \<open>Completion: the frame leaves the tracker, the framework is notified and gets the result.\<close>

definition complete_request :: "platform \<Rightarrow> request_env \<Rightarrow> u32 \<Rightarrow> bool \<Rightarrow> camera_device \<Rightarrow> camera_device \<times> hal_event list" where
  "complete_request P E frame frameCaptured dev =
     (let frameFlushed = flushed frame dev;
          dev = untrack frame dev;
          timestamp = end_sec E * 1000000000 + end_nsec E;
          notify = (callback_ops dev = Some True);
          shutter = (if frameCaptured \<and> notify then [NotifyShutter frame timestamp] else []);
          status = (if frameCaptured \<and> \<not> frameFlushed then CAMERA3_BUFFER_STATUS_OK else CAMERA3_BUFFER_STATUS_ERROR);
          err = (if \<not> frameFlushed \<and> \<not> frameCaptured \<and> notify then [NotifyError frame] else []);
          (md, dev) = (if frameCaptured \<and> \<not> frameFlushed then
                         let ((exposure, sensitivity, afState, focusPos), dev) = result_values P dev
                         in (build_result_metadata (mdlib P) frame timestamp exposure sensitivity afState focusPos, dev)
                       else (None, dev))
      in (dev, shutter @ err @ [CaptureResult frame md (Some status) 1]))"

definition process_request :: "platform \<Rightarrow> request_env \<Rightarrow> capture_request \<Rightarrow> camera_device \<Rightarrow>
    (int \<times> buf option \<times> camera_device \<times> hal_event list) option" where
  "process_request P E rq dev =
     (let frame = rq_frame rq in
      if \<not> is_initialized dev \<or> callback_ops dev = None then Some (-ENOSYS, None, dev, [])
      else
        case rq_buffers rq of
          None \<Rightarrow> Some (-EINVAL, None, dev, [])
        | Some [] \<Rightarrow> Some (-EINVAL, None, dev, [])
        | Some (sb # _) \<Rightarrow>
            if flushed frame dev then Some (-EAGAIN, None, untrack frame dev, [])
            else
              do { dev \<leftarrow> af_control P (apply_settings (rq_settings rq) (track frame (sb_buffer sb) dev));
                   if sb_buffer sb = None then Some (-EINVAL, None, untrack frame dev, [])
                   else
                     do { (c, out, dev, evs) \<leftarrow> restart_and_capture P E (sb_stream sb) frame dev;
                          let evs = wait_fence (acquire_fence sb) @ evs;
                          case c of
                            Return e \<Rightarrow> Some (e, out, dev, evs)
                          | Captured ok \<Rightarrow>
                              let (dev, evs') = complete_request P E frame ok dev
                              in Some (0, out, dev, evs @ evs') } })"

definition process_capture_request ::
  "platform \<Rightarrow> request_env \<Rightarrow> camera_device option \<Rightarrow> capture_request option \<Rightarrow>
     (int \<times> buf option \<times> camera_device option \<times> hal_event list) option" where
  "process_capture_request P E device request =
     (case (device, request) of
        (Some dev, Some rq) \<Rightarrow>
          map_option (\<lambda>(ret, out, dev, evs). (ret, out, Some dev, evs)) (process_request P E rq dev)
      | _ \<Rightarrow> Some (-EINVAL, None, device, []))"

section \<open>Flush\<close>

definition camera_device_flush :: "driver \<Rightarrow> camera_device option \<Rightarrow> int \<times> camera_device option" where
  "camera_device_flush K device =
     (case device of
        None \<Rightarrow> (-EINVAL, None)
      | Some dev \<Rightarrow>
          let dev = (case dev_pipeline dev of
                       None \<Rightarrow> dev
                     | Some p \<Rightarrow> if streams_configured dev then dev\<lparr>dev_pipeline := Some (snd (stopStreaming K p))\<rparr> else dev);
              dev = dev\<lparr>inflight_tracker := map_option (\<lambda>t. snd (drainAll (markAllAsError t))) (inflight_tracker dev)\<rparr>
          in (0, Some dev))"

end
