(* ===== verification/CameraHALProps.thy ===== *)
theory CameraHALProps
  imports CameraHAL
begin

text \<open>
  What the operations of the camera device change and what they leave alone: the invariant of the
  device and its preservation by requests and flushes, the captures of a device without buffers,
  and the outcome of a stream configuration.
\<close>

section \<open>What an operation leaves alone\<close>

fun callback :: "hal_event \<Rightarrow> bool" where
  "callback (NotifyShutter _ _) = True"
| "callback (NotifyError _) = True"
| "callback (CaptureResult _ _ _ _) = True"
| "callback _ = False"

definition same_set_up :: "camera_device \<Rightarrow> camera_device \<Rightarrow> bool" where
  "same_set_up d d' \<longleftrightarrow> camera_id d' = camera_id d \<and> callback_ops d' = callback_ops d \<and>
     is_initialized d' = is_initialized d \<and> streams_configured d' = streams_configured d \<and>
     pipeline_width d' = pipeline_width d \<and> pipeline_height d' = pipeline_height d \<and>
     last_config_width d' = last_config_width d \<and> last_config_height d' = last_config_height d"

lemma same_set_up_refl [simp]: "same_set_up d d"
  by (simp add: same_set_up_def)

lemma same_set_up_trans: "same_set_up d d' \<Longrightarrow> same_set_up d' d'' \<Longrightarrow> same_set_up d d''"
  by (simp add: same_set_up_def)

lemma same_set_up_upd [simp]:
  "same_set_up d (d'\<lparr>dev_pipeline := p\<rparr>) = same_set_up d d'" "same_set_up d (d'\<lparr>inflight_tracker := t\<rparr>) = same_set_up d d'"
  "same_set_up d (d'\<lparr>temp_rgba := b\<rparr>) = same_set_up d d'" "same_set_up d (d'\<lparr>temp_rgba_size := n\<rparr>) = same_set_up d d'"
  "same_set_up d (d'\<lparr>jpeg_encoder := j\<rparr>) = same_set_up d d'" "same_set_up d (d'\<lparr>jlog := l\<rparr>) = same_set_up d d'"
  "same_set_up d (d'\<lparr>dev_af_mode := m\<rparr>) = same_set_up d d'" "same_set_up d (d'\<lparr>dev_af_trigger := tr\<rparr>) = same_set_up d d'"
  "same_set_up d (d'\<lparr>af_trigger_handled := hx\<rparr>) = same_set_up d d'"
  by (simp_all add: same_set_up_def)

text \<open>The pipeline of the device changes only inside: same mappings, state and descriptor.\<close>

definition same_device :: "camera_device \<Rightarrow> camera_device \<Rightarrow> bool" where
  "same_device d d' \<longleftrightarrow> same_set_up d d' \<and> vlog d' = vlog d \<and>
     (dev_pipeline d = None \<longrightarrow> dev_pipeline d' = None) \<and>
     (\<forall>p. dev_pipeline d = Some p \<longrightarrow> (\<exists>p'. dev_pipeline d' = Some p' \<and> same_core p p'))"

lemma same_device_set_up: "same_device d d' \<Longrightarrow> same_set_up d d'"
  by (simp add: same_device_def)

lemma same_device_refl [simp]: "same_device d d"
  by (simp add: same_device_def)

lemma same_device_trans: "same_device d d' \<Longrightarrow> same_device d' d'' \<Longrightarrow> same_device d d''"
  by (auto simp: same_device_def intro: same_set_up_trans) (metis same_core_trans)

lemma same_device_upd [simp]:
  "same_device d (d'\<lparr>inflight_tracker := t\<rparr>) = same_device d d'"
  "same_device d (d'\<lparr>temp_rgba := b\<rparr>) = same_device d d'" "same_device d (d'\<lparr>temp_rgba_size := n\<rparr>) = same_device d d'"
  "same_device d (d'\<lparr>jpeg_encoder := j\<rparr>) = same_device d d'" "same_device d (d'\<lparr>jlog := l\<rparr>) = same_device d d'"
  "same_device d (d'\<lparr>dev_af_mode := m\<rparr>) = same_device d d'" "same_device d (d'\<lparr>dev_af_trigger := tr\<rparr>) = same_device d d'"
  "same_device d (d'\<lparr>af_trigger_handled := hx\<rparr>) = same_device d d'"
  by (simp_all add: same_device_def)

lemma same_device_untrack [simp]: "same_device d (untrack f d') = same_device d d'"
  by (simp add: untrack_def)

lemma same_device_track [simp]: "same_device d (track f b d') = same_device d d'"
  by (simp add: track_def)

lemma untrack_fields [simp]:
  "dev_pipeline (untrack f d) = dev_pipeline d" "callback_ops (untrack f d) = callback_ops d" "temp_rgba (untrack f d) = temp_rgba d"
  "temp_rgba_size (untrack f d) = temp_rgba_size d" "vlog (untrack f d) = vlog d"
  by (simp_all add: untrack_def)

lemma same_device_settings [simp]: "same_device d (apply_settings s d)" "inflight_tracker (apply_settings s d) = inflight_tracker d"
  by (simp_all add: apply_settings_def Let_def split: option.split)

lemma af_control_same:
  assumes "af_control P d = Some d'"
  shows "same_device d d' \<and> inflight_tracker d' = inflight_tracker d \<and> temp_rgba d' = temp_rgba d \<and> temp_rgba_size d' = temp_rgba_size d"
proof (cases "dev_pipeline d")
  case None
  then show ?thesis using assms by (simp add: af_control_def)
next
  case (Some p)
  have c: "same_core p (cancelAf (drv P) p)" by (simp add: cancelAf_def)
  from Some assms c show ?thesis
    by (auto simp: af_control_def same_device_def dest: same_core_scan split: if_splits)
qed

lemma capture_intoE:
  assumes "capture_into P fmt out d = Some (r, out', d')"
  obtains p p' where "dev_pipeline d = Some p" "d' = d\<lparr>dev_pipeline := Some p'\<rparr>" "same_core p p'"
    "captureFrame (drv P) (powf_fn P) (Some out) fmt p = Some (r, Some out', p')"
proof -
  obtain p where p: "dev_pipeline d = Some p" using assms by (auto simp: capture_into_def elim: bind_SomeE)
  obtain o1 p' where c: "captureFrame (drv P) (powf_fn P) (Some out) fmt p = Some (r, Some o1, p')" "out' = o1"
      "d' = d\<lparr>dev_pipeline := Some p'\<rparr>"
    using assms p by (auto simp: capture_into_def elim!: bind_SomeE)
  show thesis using that p c same_core_capture [OF c(1)] by simp
qed

lemma alloc_temp_fields [simp]:
  "dev_pipeline (alloc_temp P E d) = dev_pipeline d" "inflight_tracker (alloc_temp P E d) = inflight_tracker d"
  "vlog (alloc_temp P E d) = vlog d" "same_set_up d (alloc_temp P E d)"
  by (simp_all add: alloc_temp_def Let_def)

text \<open>What a capture does besides the frame: nothing to the callbacks, and to the tracker only when it returns.\<close>

definition capture_effect :: "u32 \<Rightarrow> camera_device \<Rightarrow> captured \<Rightarrow> camera_device \<Rightarrow> hal_event list \<Rightarrow> bool" where
  "capture_effect f d c d' evs \<longleftrightarrow> same_device d d' \<and> (\<forall>e \<in> set evs. \<not> callback e) \<and>
     inflight_tracker d' = (case c of Return _ \<Rightarrow> inflight_tracker (untrack f d) | Captured _ \<Rightarrow> inflight_tracker d) \<and>
     (\<forall>e. c = Return e \<longrightarrow> e < 0)"

lemma encode_blob_effect:
  "encode_blob P E s rgba vaddr d = Some (ok, out, d') \<Longrightarrow> same_device d d' \<and> inflight_tracker d' = inflight_tracker d"
  by (auto simp: encode_blob_def Let_def elim!: bind_SomeE split: if_splits)

lemma capture_blob_effect:
  assumes "capture_blob P E s f d = Some (c, out, d', evs)"
  shows "capture_effect f d c d' evs"
proof (cases "temp_rgba (alloc_temp P E d)")
  case None
  have "same_device d (alloc_temp P E d)" by (simp add: same_device_def)
  then show ?thesis using None assms by (auto simp: capture_blob_def Let_def capture_effect_def)
next
  case (Some rgba)
  obtain r rgba1 d1 where i: "capture_into P HAL_PIXEL_FORMAT_RGBA_8888 rgba (alloc_temp P E d) = Some (r, rgba1, d1)"
    using assms Some by (auto simp: capture_blob_def Let_def elim!: bind_SomeE)
  define d2 where "d2 = d1\<lparr>temp_rgba := Some rgba1\<rparr>"
  have d2: "same_device d d2" "inflight_tracker d2 = inflight_tracker d"
    using i by (auto elim!: capture_intoE simp: d2_def same_device_def)
  show ?thesis
  proof (cases "r = 0")
    case False
    then have "(c = Return (-EAGAIN) \<and> d' = untrack f d2 \<or> c = Captured False \<and> d' = d2) \<and> evs = []"
      using assms Some i by (auto simp: capture_blob_def Let_def d2_def split: if_splits)
    then show ?thesis using d2 by (auto simp: capture_effect_def untrack_def errno_defs)
  next
    case True
    obtain lr va where l: "gralloc_lock E = (lr, va)" by (cases "gralloc_lock E")
    show ?thesis
    proof (cases "if lr = 0 then va else None")
      case None
      then have "c = Captured False" "d' = d2" "evs = [GrallocLock lr]"
        using assms Some i True l by (simp_all add: capture_blob_def Let_def d2_def)
      then show ?thesis using d2 by (simp add: capture_effect_def)
    next
      case (Some v)
      obtain ok o2 where e: "encode_blob P E s rgba1 v d2 = Some (ok, o2, d')" "c = Captured ok" "evs = [GrallocLock lr, GrallocUnlock]"
        using assms \<open>temp_rgba (alloc_temp P E d) = Some rgba\<close> i True l Some
        by (auto simp: capture_blob_def Let_def d2_def elim!: bind_SomeE)
      show ?thesis using encode_blob_effect [OF e(1)] e(2,3) d2 same_device_trans by (auto simp: capture_effect_def)
    qed
  qed
qed

lemma capture_locked_effect:
  assumes "capture_locked P l fmt f d = Some (c, out, d', evs)"
  shows "capture_effect f d c d' evs"
proof -
  obtain lr va where l: "l = (lr, va)" by (cases l)
  show ?thesis
  proof (cases "if lr = 0 then va else None")
    case None
    then show ?thesis using assms l by (auto simp: capture_locked_def capture_effect_def)
  next
    case (Some v)
    obtain r o1 d1 where i: "capture_into P fmt v d = Some (r, o1, d1)"
      using assms l Some by (auto simp: capture_locked_def elim!: bind_SomeE)
    have d1: "same_device d d1" "inflight_tracker d1 = inflight_tracker d"
      using i by (auto elim!: capture_intoE simp: same_device_def)
    show ?thesis using assms l Some i d1
      by (auto simp: capture_locked_def capture_effect_def untrack_def errno_defs split: if_splits)
  qed
qed

lemma capture_frame_effect: "capture_frame P E s f d = Some (c, out, d', evs) \<Longrightarrow> capture_effect f d c d' evs"
  using capture_blob_effect capture_locked_effect
  by (auto simp: capture_frame_def capture_effect_def split: if_splits)


section \<open>The invariant of the device\<close>

text \<open>
  The mappings alive are those of the pipeline's buffers, the tracker is a map, and a configured
  pipeline has the size the device remembers.
\<close>

definition dev_inv :: "platform \<Rightarrow> vcall list \<Rightarrow> camera_device \<Rightarrow> bool" where
  "dev_inv P h0 d \<longleftrightarrow>
     (dev_pipeline d = None \<longrightarrow> live (drv P) (vlog d) = live (drv P) h0) \<and>
     (\<forall>p. dev_pipeline d = Some p \<longrightarrow> pl_inv (drv P) h0 p \<and> streams_configured d \<and>
        cfg_width (mConfig p) = pipeline_width d \<and> cfg_height (mConfig p) = pipeline_height d \<and>
        last_config_width d = pipeline_width d \<and> last_config_height d = pipeline_height d) \<and>
     (\<exists>t. inflight_tracker d = Some t \<and> tracker_inv t)"

lemma dev_invD:
  assumes "dev_inv P h0 d"
  shows "dev_pipeline d = None \<Longrightarrow> live (drv P) (vlog d) = live (drv P) h0"
    "dev_pipeline d = Some p \<Longrightarrow> pl_inv (drv P) h0 p" "\<exists>t. inflight_tracker d = Some t \<and> tracker_inv t"
  using assms unfolding dev_inv_def by blast+

lemma dev_inv_same:
  assumes "dev_inv P h0 d" "same_device d d'" "\<exists>t. inflight_tracker d' = Some t \<and> tracker_inv t"
  shows "dev_inv P h0 d'"
proof (cases "dev_pipeline d")
  case None
  then show ?thesis using assms by (simp add: dev_inv_def same_device_def)
next
  case (Some p)
  then obtain p' where p': "dev_pipeline d' = Some p'" "same_core p p'" using assms(2) unfolding same_device_def by blast
  have "pl_inv (drv P) h0 p'" using pl_inv_core [OF _ p'(2)] dev_invD(2) [OF assms(1) Some] by blast
  then show ?thesis using assms Some p' by (simp add: dev_inv_def same_device_def same_set_up_def same_core_def)
qed

lemma dev_inv_start:
  assumes "dev_inv P h0 d" "dev_pipeline d = Some p"
  shows "dev_inv P h0 (d\<lparr>dev_pipeline := Some (snd (startStreaming (drv P) p))\<rparr>)"
  using assms startStreaming_inv [of "drv P" "live (drv P) h0" p] startStreaming_effect [of "drv P" p, OF prod.collapse [symmetric]]
  by (simp add: dev_inv_def)

lemma tracked_untrack: "\<exists>t. inflight_tracker d = Some t \<and> tracker_inv t \<Longrightarrow> \<exists>t. inflight_tracker (untrack f d) = Some t \<and> tracker_inv t"
  by (auto simp: untrack_def tracker_inv_remove)

lemma capture_effect_tracked:
  assumes "capture_effect f d c d' evs" "\<exists>t. inflight_tracker d = Some t \<and> tracker_inv t"
  shows "\<exists>t. inflight_tracker d' = Some t \<and> tracker_inv t"
  using assms tracked_untrack [OF assms(2)] by (auto simp: capture_effect_def split: captured.splits)

lemma restart_cases:
  assumes "restart_and_capture P E s f d = Some (c, out, d', evs)"
  obtains d1 where "d1 = d \<or> (\<exists>p. dev_pipeline d = Some p \<and> d1 = d\<lparr>dev_pipeline := Some (snd (startStreaming (drv P) p))\<rparr>)"
    "capture_effect f d1 c d' evs" "c = Captured True \<Longrightarrow> capture_frame P E s f d1 = Some (c, out, d', evs)"
proof (cases "\<exists>p. dev_pipeline d = Some p \<and> streams_configured d")
  case False
  then have "c = Captured False" "d' = d" "evs = []" using assms by (auto simp: restart_and_capture_def split: option.splits)
  then show thesis using that [of d] by (simp add: capture_effect_def)
next
  case True
  then obtain p where p: "dev_pipeline d = Some p" "streams_configured d" by blast
  define d1 where "d1 = d\<lparr>dev_pipeline := Some (snd (startStreaming (drv P) p))\<rparr>"
  consider "capture_frame P E s f d = Some (c, out, d', evs)" | "capture_frame P E s f d1 = Some (c, out, d', evs)"
    | "c = Return (-ENODEV)" "d' = untrack f d1" "evs = []"
    using assms p by (auto simp: restart_and_capture_def d1_def Let_def case_prod_beta split: if_splits)
  then show thesis
  proof cases
    case 1
    then show thesis using that [of d] capture_frame_effect by blast
  next
    case 2
    then show thesis using that [of d1] capture_frame_effect p(1) d1_def by blast
  next
    case 3
    then show thesis using that [of d1] p(1) by (auto simp: capture_effect_def d1_def untrack_def errno_defs)
  qed
qed

lemma restart_inv:
  assumes "restart_and_capture P E s f d = Some (c, out, d', evs)" "dev_inv P h0 d"
  shows "dev_inv P h0 d' \<and> same_set_up d d'"
  using assms(1)
proof (rule restart_cases)
  fix d1 assume 1: "d1 = d \<or> (\<exists>p. dev_pipeline d = Some p \<and> d1 = d\<lparr>dev_pipeline := Some (snd (startStreaming (drv P) p))\<rparr>)"
    and 2: "capture_effect f d1 c d' evs"
  have d1: "dev_inv P h0 d1" "same_set_up d d1" using 1 assms(2) dev_inv_start by auto
  have s: "same_device d1 d'" using 2 by (simp add: capture_effect_def)
  have "dev_inv P h0 d'"
    by (rule dev_inv_same [OF d1(1) s capture_effect_tracked [OF 2 dev_invD(3) [OF d1(1)]]])
  then show ?thesis using same_set_up_trans [OF d1(2) same_device_set_up [OF s]] by blast
qed

section \<open>Completion\<close>

lemma result_values_same: "same_device d (snd (result_values P d)) \<and> inflight_tracker (snd (result_values P d)) = inflight_tracker d"
proof (cases "dev_pipeline d")
  case None
  then show ?thesis by (simp add: result_values_def)
next
  case (Some p)
  have "same_core p (snd (getGain (drv P) (snd (getExposure (drv P) p))))"
    by (rule same_core_trans [OF same_core_controls(3) same_core_controls(4)])
  then show ?thesis using Some by (simp add: result_values_def case_prod_beta Let_def same_device_def)
qed

lemma complete_request_effect:
  assumes "complete_request P E f ok d = (d', evs)"
  shows "same_device d d' \<and> inflight_tracker d' = inflight_tracker (untrack f d) \<and>
    (\<exists>md. evs = (if ok \<and> callback_ops d = Some True then [NotifyShutter f (end_sec E * 1000000000 + end_nsec E)] else []) @
       (if \<not> flushed f d \<and> \<not> ok \<and> callback_ops d = Some True then [NotifyError f] else []) @
       [CaptureResult f md (Some (if ok \<and> \<not> flushed f d then CAMERA3_BUFFER_STATUS_OK else CAMERA3_BUFFER_STATUS_ERROR)) 1])"
proof -
  have "same_device d (untrack f d)" by simp
  then show ?thesis
    using assms result_values_same [of "untrack f d" P] same_device_trans [of d "untrack f d" "snd (result_values P (untrack f d))"]
    by (auto simp: complete_request_def Let_def case_prod_beta split: if_splits)
qed


section \<open>Requests\<close>

lemma tracker_track:
  assumes "inflight_tracker d = Some t" "tracker_inv t"
  shows "\<exists>t'. inflight_tracker (track f b d) = Some t' \<and> tracker_inv t' \<and> in_flight t' = insert f (in_flight t) \<and> \<not> isError f t'"
  using assms by (auto simp: track_def tracker_inv_add isError_add)

text \<open>The request from the point where it is tracked: the device handed to the capture.\<close>

lemma process_requestE:
  assumes "process_request P E rq d = Some (ret, out, d', evs)" "is_initialized d" "callback_ops d \<noteq> None" "rq_buffers rq = Some (sb # sbs)"
  obtains "flushed (rq_frame rq) d" "ret = -EAGAIN" "d' = untrack (rq_frame rq) d" "evs = []"
  | d1 where "\<not> flushed (rq_frame rq) d" "af_control P (apply_settings (rq_settings rq) (track (rq_frame rq) (sb_buffer sb) d)) = Some d1"
      "ret = -EINVAL" "d' = untrack (rq_frame rq) d1" "evs = []"
  | d1 e d2 evs1 where "\<not> flushed (rq_frame rq) d" "af_control P (apply_settings (rq_settings rq) (track (rq_frame rq) (sb_buffer sb) d)) = Some d1"
      "restart_and_capture P E (sb_stream sb) (rq_frame rq) d1 = Some (Return e, out, d', evs1)" "ret = e"
      "evs = wait_fence (acquire_fence sb) @ evs1"
  | d1 ok d2 evs1 evs2 where "\<not> flushed (rq_frame rq) d"
      "af_control P (apply_settings (rq_settings rq) (track (rq_frame rq) (sb_buffer sb) d)) = Some d1"
      "restart_and_capture P E (sb_stream sb) (rq_frame rq) d1 = Some (Captured ok, out, d2, evs1)"
      "complete_request P E (rq_frame rq) ok d2 = (d', evs2)" "ret = 0" "evs = (wait_fence (acquire_fence sb) @ evs1) @ evs2"
proof (cases "flushed (rq_frame rq) d")
  case True
  then show thesis using assms that(1) by (auto simp: process_request_def Let_def)
next
  case False
  obtain d1 where d1: "af_control P (apply_settings (rq_settings rq) (track (rq_frame rq) (sb_buffer sb) d)) = Some d1"
    using assms False by (auto simp: process_request_def Let_def elim!: bind_SomeE split: if_splits)
  show thesis
  proof (cases "sb_buffer sb")
    case None
    then show thesis using assms False d1 that(2) by (auto simp: process_request_def Let_def)
  next
    case (Some b)
    obtain c o2 d2 evs1 where r: "restart_and_capture P E (sb_stream sb) (rq_frame rq) d1 = Some (c, o2, d2, evs1)"
      using assms False d1 Some by (auto simp: process_request_def Let_def elim!: bind_SomeE split: if_splits)
    show thesis
    proof (cases c)
      case (Return e)
      then show thesis using assms False d1 Some r that(3) by (auto simp: process_request_def Let_def)
    next
      case (Captured ok)
      then show thesis using assms False d1 Some r that(4) [of d1 ok d2 evs1 "snd (complete_request P E (rq_frame rq) ok d2)"]
        by (auto simp: process_request_def Let_def case_prod_beta split: prod.splits)
    qed
  qed
qed

lemma wait_fence_quiet: "e \<in> set (wait_fence n) \<Longrightarrow> \<not> callback e"
  by (auto simp: wait_fence_def split: if_splits)

lemma in_flight_untrack:
  assumes "inflight_tracker d = Some t" "tracker_inv t"
  shows "\<exists>t'. inflight_tracker (untrack f d) = Some t' \<and> tracker_inv t' \<and> in_flight t' = in_flight t - {f}"
  using assms by (auto simp: untrack_def tracker_inv_remove)

lemma request_device:
  assumes "af_control P (apply_settings st (track f b d)) = Some d1" "inflight_tracker d = Some t" "tracker_inv t"
  shows "same_device d d1 \<and> (\<exists>t1. inflight_tracker d1 = Some t1 \<and> tracker_inv t1 \<and> in_flight t1 = insert f (in_flight t) \<and> \<not> isError f t1)"
proof -
  have "same_device (apply_settings st (track f b d)) d1" "inflight_tracker d1 = inflight_tracker (apply_settings st (track f b d))"
    using af_control_same [OF assms(1)] by simp_all
  moreover have "same_device d (apply_settings st (track f b d))"
    by (rule same_device_trans [of _ "track f b d"]) simp_all
  ultimately show ?thesis using tracker_track [OF assms(2,3), of f b] same_device_trans by fastforce
qed

lemma restart_tracker:
  assumes "restart_and_capture P E s f d = Some (c, out, d', evs)"
  shows "inflight_tracker d' = (case c of Return _ \<Rightarrow> inflight_tracker (untrack f d) | Captured _ \<Rightarrow> inflight_tracker d) \<and>
    callback_ops d' = callback_ops d \<and> (\<forall>e \<in> set evs. \<not> callback e) \<and> (\<forall>e. c = Return e \<longrightarrow> e < 0)"
  using assms
proof (rule restart_cases)
  fix d1 assume 1: "d1 = d \<or> (\<exists>p. dev_pipeline d = Some p \<and> d1 = d\<lparr>dev_pipeline := Some (snd (startStreaming (drv P) p))\<rparr>)"
    and 2: "capture_effect f d1 c d' evs"
  have "inflight_tracker d1 = inflight_tracker d" "callback_ops d1 = callback_ops d" using 1 by auto
  then show ?thesis using 2 by (simp add: capture_effect_def same_device_def same_set_up_def untrack_def split: captured.split)
qed

lemma process_request_inv:
  assumes "process_request P E rq d = Some (ret, out, d', evs)" "dev_inv P h0 d"
  shows "dev_inv P h0 d' \<and> same_set_up d d'"
proof (cases "is_initialized d \<and> callback_ops d \<noteq> None \<and> (\<exists>sb sbs. rq_buffers rq = Some (sb # sbs))")
  case False
  then have "d' = d" using assms(1) by (auto simp: process_request_def Let_def split: option.splits list.splits if_splits)
  then show ?thesis using assms(2) by simp
next
  case True
  then obtain sb sbs where g: "is_initialized d" "callback_ops d \<noteq> None" "rq_buffers rq = Some (sb # sbs)" by blast
  obtain t where t: "inflight_tracker d = Some t" "tracker_inv t" using dev_invD(3) [OF assms(2)] by blast
  have first: "dev_inv P h0 d1 \<and> same_set_up d d1"
    if "af_control P (apply_settings (rq_settings rq) (track (rq_frame rq) (sb_buffer sb) d)) = Some d1" for d1
    using request_device [OF that t] dev_inv_same [OF assms(2)] same_device_set_up by blast
  have un: "dev_inv P h0 (untrack f d1) \<and> same_set_up d (untrack f d1)" if "dev_inv P h0 d1" "same_set_up d d1" for d1 f
    using dev_inv_same [OF that(1), of "untrack f d1"] tracked_untrack [OF dev_invD(3) [OF that(1)]] that(2)
    by (simp add: untrack_def)
  from assms(1) g show ?thesis
  proof (rule process_requestE)
    assume "d' = untrack (rq_frame rq) d"
    then show ?thesis using un [OF assms(2)] by simp
  next
    fix d1 assume "af_control P (apply_settings (rq_settings rq) (track (rq_frame rq) (sb_buffer sb) d)) = Some d1"
      "d' = untrack (rq_frame rq) d1"
    then show ?thesis using un first by blast
  next
    fix d1 e d2 evs1 assume "af_control P (apply_settings (rq_settings rq) (track (rq_frame rq) (sb_buffer sb) d)) = Some d1"
      "restart_and_capture P E (sb_stream sb) (rq_frame rq) d1 = Some (Return e, out, d', evs1)"
    then show ?thesis using first restart_inv same_set_up_trans by blast
  next
    fix d1 ok d2 evs1 evs2 assume a: "af_control P (apply_settings (rq_settings rq) (track (rq_frame rq) (sb_buffer sb) d)) = Some d1"
      "restart_and_capture P E (sb_stream sb) (rq_frame rq) d1 = Some (Captured ok, out, d2, evs1)"
      "complete_request P E (rq_frame rq) ok d2 = (d', evs2)"
    have d2: "dev_inv P h0 d2" "same_set_up d d2" using first [OF a(1)] restart_inv [OF a(2)] same_set_up_trans by blast+
    have "same_device d2 d'" "inflight_tracker d' = inflight_tracker (untrack (rq_frame rq) d2)"
      using complete_request_effect [OF a(3)] by simp_all
    then show ?thesis using dev_inv_same [OF d2(1), of d'] tracked_untrack [OF dev_invD(3) [OF d2(1)]] d2(2)
        same_set_up_trans [OF d2(2)] same_device_set_up [of d2 d'] by simp
  qed
qed

section \<open>Flush\<close>

fun process_all :: "platform \<Rightarrow> (request_env \<times> capture_request) list \<Rightarrow> camera_device \<Rightarrow> (camera_device \<times> hal_event list) option" where
  "process_all P [] d = Some (d, [])"
| "process_all P ((E, rq) # rs) d =
     do { (ret, out, d, evs) \<leftarrow> process_request P E rq d;
          (d, evs') \<leftarrow> process_all P rs d;
          Some (d, evs @ evs') }"

definition starved :: "camera_device \<Rightarrow> bool" where
  "starved d \<longleftrightarrow> (\<exists>p. dev_pipeline d = Some p \<and> mBufferCount p = 0)"

definition no_valid_result :: "hal_event list \<Rightarrow> bool" where
  "no_valid_result evs \<longleftrightarrow> (\<forall>f md n. CaptureResult f md (Some CAMERA3_BUFFER_STATUS_OK) n \<notin> set evs)"

lemma no_valid_result_append: "no_valid_result (xs @ ys) \<longleftrightarrow> no_valid_result xs \<and> no_valid_result ys"
  by (auto simp: no_valid_result_def)

lemma quiet_no_valid_result: "\<forall>e \<in> set evs. \<not> callback e \<Longrightarrow> no_valid_result evs"
  by (force simp: no_valid_result_def)

lemma starved_same: "starved d \<Longrightarrow> same_device d d' \<Longrightarrow> starved d'"
  by (auto simp: starved_def same_device_def same_core_def)

lemma starved_capture_into:
  assumes "starved d" "errno_set (drv P)" "capture_into P fmt out d = Some (r, out', d')"
  shows "r < 0"
proof -
  obtain p p' where p: "dev_pipeline d = Some p" "captureFrame (drv P) (powf_fn P) (Some out) fmt p = Some (r, Some out', p')"
    using assms(3) by (rule capture_intoE)
  show ?thesis
  proof (cases "mState p = PIPELINE_STREAMING")
    case True
    then show ?thesis using capture_no_buffers [OF True _ assms(2), of "powf_fn P" out fmt] assms(1) p by (auto simp: starved_def)
  next
    case False
    then show ?thesis using p(2) by (simp add: captureFrame_def errno_defs)
  qed
qed

lemma starved_capture_frame:
  assumes "starved d" "errno_set (drv P)" "capture_frame P E s f d = Some (c, out, d', evs)"
  shows "c \<noteq> Captured True"
proof
  assume c: "c = Captured True"
  have b: "capture_blob P E s f d = Some (c, out, d', evs) \<Longrightarrow> False"
    using starved_capture_into [of "alloc_temp P E d" P] assms(1,2) c
    by (fastforce simp: capture_blob_def Let_def starved_def elim!: bind_SomeE split: option.splits if_splits)
  have l: "capture_locked P l fmt f d = Some (c, out, d', evs) \<Longrightarrow> False" for l fmt
    using starved_capture_into [OF assms(1,2)] c
    by (fastforce simp: capture_locked_def elim!: bind_SomeE split: prod.splits option.splits if_splits)
  show False using assms(3) b l [of "gralloc_lock_ycbcr E" "st_format s"] l [of "gralloc_lock E" "st_format s"] c
    by (simp add: capture_frame_def split: if_splits)
qed

lemma starved_restart:
  assumes "starved d" "errno_set (drv P)" "restart_and_capture P E s f d = Some (c, out, d', evs)"
  shows "starved d' \<and> c \<noteq> Captured True"
  using assms(3)
proof (rule restart_cases)
  fix d1 assume 1: "d1 = d \<or> (\<exists>p. dev_pipeline d = Some p \<and> d1 = d\<lparr>dev_pipeline := Some (snd (startStreaming (drv P) p))\<rparr>)"
    and 2: "capture_effect f d1 c d' evs" and 3: "c = Captured True \<Longrightarrow> capture_frame P E s f d1 = Some (c, out, d', evs)"
  have "starved d1" using 1 assms(1) startStreaming_effect [of "drv P" _, OF prod.collapse [symmetric]] by (auto simp: starved_def)
  then show ?thesis using 3 starved_capture_frame [OF \<open>starved d1\<close> assms(2)] starved_same [OF \<open>starved d1\<close>] 2
    unfolding capture_effect_def by blast
qed

lemma starved_request:
  assumes "process_request P E rq d = Some (ret, out, d', evs)" "dev_inv P h0 d" "starved d" "errno_set (drv P)"
  shows "starved d' \<and> no_valid_result evs"
proof (cases "is_initialized d \<and> callback_ops d \<noteq> None \<and> (\<exists>sb sbs. rq_buffers rq = Some (sb # sbs))")
  case False
  then have "d' = d" "evs = []" using assms(1) by (auto simp: process_request_def Let_def split: option.splits list.splits if_splits)
  then show ?thesis using assms(3) by (simp add: no_valid_result_def)
next
  case True
  then obtain sb sbs where g: "is_initialized d" "callback_ops d \<noteq> None" "rq_buffers rq = Some (sb # sbs)" by blast
  obtain t where t: "inflight_tracker d = Some t" "tracker_inv t" using dev_invD(3) [OF assms(2)] by blast
  have first: "starved d1" if "af_control P (apply_settings (rq_settings rq) (track (rq_frame rq) (sb_buffer sb) d)) = Some d1" for d1
    using request_device [OF that t] starved_same [OF assms(3)] by blast
  have un: "starved (untrack f d1) = starved d1" for f d1 by (simp add: starved_def)
  from assms(1) g show ?thesis
  proof (rule process_requestE)
    assume "d' = untrack (rq_frame rq) d" "evs = []"
    then show ?thesis using assms(3) un by (simp add: no_valid_result_def)
  next
    fix d1 assume "af_control P (apply_settings (rq_settings rq) (track (rq_frame rq) (sb_buffer sb) d)) = Some d1"
      "d' = untrack (rq_frame rq) d1" "evs = []"
    then show ?thesis using first un by (simp add: no_valid_result_def)
  next
    fix d1 e d2 evs1 assume a: "af_control P (apply_settings (rq_settings rq) (track (rq_frame rq) (sb_buffer sb) d)) = Some d1"
      "restart_and_capture P E (sb_stream sb) (rq_frame rq) d1 = Some (Return e, out, d', evs1)"
      "evs = wait_fence (acquire_fence sb) @ evs1"
    have "\<forall>e \<in> set evs. \<not> callback e" using restart_tracker [OF a(2)] a(3) wait_fence_quiet by auto
    then show ?thesis using starved_restart [OF first [OF a(1)] assms(4) a(2)] quiet_no_valid_result by blast
  next
    fix d1 ok d2 evs1 evs2 assume a: "af_control P (apply_settings (rq_settings rq) (track (rq_frame rq) (sb_buffer sb) d)) = Some d1"
      "restart_and_capture P E (sb_stream sb) (rq_frame rq) d1 = Some (Captured ok, out, d2, evs1)"
      "complete_request P E (rq_frame rq) ok d2 = (d', evs2)" "evs = (wait_fence (acquire_fence sb) @ evs1) @ evs2"
    have d2: "starved d2" "\<not> ok" using starved_restart [OF first [OF a(1)] assms(4) a(2)] by auto
    have "\<forall>e \<in> set (wait_fence (acquire_fence sb) @ evs1). \<not> callback e" using restart_tracker [OF a(2)] wait_fence_quiet by auto
    moreover have "no_valid_result evs2" using complete_request_effect [OF a(3)] d2(2) by (auto simp: no_valid_result_def)
    ultimately show ?thesis using a(4) starved_same [OF d2(1)] complete_request_effect [OF a(3)] quiet_no_valid_result
      by (simp add: no_valid_result_append)
  qed
qed

lemma starved_all:
  "process_all P rs d = Some (d', evs) \<Longrightarrow> dev_inv P h0 d \<Longrightarrow> starved d \<Longrightarrow> errno_set (drv P) \<Longrightarrow> no_valid_result evs"
proof (induction P rs d arbitrary: d' evs rule: process_all.induct)
  case (1 P d)
  then show ?case by (simp add: no_valid_result_def)
next
  case (2 P E rq rs d)
  obtain ret out d1 evs1 evs2 where p: "process_request P E rq d = Some (ret, out, d1, evs1)"
      "process_all P rs d1 = Some (d', evs2)" "evs = evs1 @ evs2"
    using "2.prems"(1) by (auto elim!: bind_SomeE)
  have 1: "dev_inv P h0 d1" "starved d1" "no_valid_result evs1"
    using process_request_inv [OF p(1) "2.prems"(2)] starved_request [OF p(1) "2.prems"(2-4)] by simp_all
  have "no_valid_result evs2"
    by (rule "2.IH" [OF p(1) refl refl refl p(2) 1(1,2) "2.prems"(4)])
  then show ?case using 1(3) p(3) by (simp add: no_valid_result_append)
qed

lemma flush_inv:
  assumes "camera_device_flush (drv P) (Some d) = (r, device')" "dev_inv P h0 d"
  shows "\<exists>d'. device' = Some d' \<and> dev_inv P h0 d' \<and> same_set_up d d' \<and>
    (\<forall>p. dev_pipeline d = Some p \<longrightarrow> mState p = PIPELINE_STREAMING \<longrightarrow> starved d') \<and> inflight_tracker d' = Some []"
proof -
  obtain t where t: "inflight_tracker d = Some t" "tracker_inv t" using dev_invD(3) [OF assms(2)] by blast
  have tr: "snd (drainAll (markAllAsError t)) = []" by (simp add: drainAll_def)
  show ?thesis
  proof (cases "dev_pipeline d")
    case None
    then show ?thesis using assms t tr by (auto simp: camera_device_flush_def dev_inv_def tracker_inv_new [unfolded tracker_new_def])
  next
    case (Some p)
    define q where "q = snd (stopStreaming (drv P) p)"
    have i: "pl_inv (drv P) h0 p" "streams_configured d" using assms(2) Some by (simp_all add: dev_inv_def)
    have q: "pl_inv (drv P) h0 q" "mStreaming p \<longrightarrow> mBufferCount q = 0" "mConfig q = mConfig p"
      using stopStreaming_inv [OF i(1)] stopStreaming_effect [of p "drv P"] by (simp_all add: q_def same_isp_def)
    have "device' = Some (d\<lparr>dev_pipeline := Some q, inflight_tracker := Some []\<rparr>)"
      using assms(1) Some i(2) t tr by (simp add: camera_device_flush_def q_def)
    then show ?thesis using q i assms(2) Some tracker_inv_new
      by (auto simp: dev_inv_def starved_def pl_inv_def tracker_new_def)
  qed
qed

section \<open>Stream configuration\<close>

text \<open>
  The streams the pipeline can be sized by, with their positions: the output streams that are not
  BLOB. The first one is chosen, unless it has no format of its own and the next is RGBA.
\<close>

definition sized_by :: "camera3_stream \<Rightarrow> bool" where
  "sized_by s \<longleftrightarrow> st_type s = CAMERA3_STREAM_OUTPUT \<and> st_format s \<noteq> HAL_PIXEL_FORMAT_BLOB"

fun first_choice :: "(nat \<times> camera3_stream) list \<Rightarrow> nat option" where
  "first_choice [] = None"
| "first_choice [(i, s)] = Some i"
| "first_choice ((i, s) # (j, r) # _) =
     Some (if st_format s = HAL_PIXEL_FORMAT_IMPLEMENTATION_DEFINED \<and> st_format r = HAL_PIXEL_FORMAT_RGBA_8888 then j else i)"

fun numbered :: "nat \<Rightarrow> camera3_stream list \<Rightarrow> (nat \<times> camera3_stream) list" where
  "numbered i [] = []"
| "numbered i (s # ss) = (if sized_by s then (i, s) # numbered (Suc i) ss else numbered (Suc i) ss)"

definition chosen :: "stream_choice \<Rightarrow> nat option" where
  "chosen c = (if rgbaStream c \<noteq> None then rgbaStream c else pipelineStream c)"

lemmas hal_formats = HAL_PIXEL_FORMAT_BLOB_def HAL_PIXEL_FORMAT_RGBA_8888_def HAL_PIXEL_FORMAT_IMPLEMENTATION_DEFINED_def

lemma scan_settled:
  "pipelineStream c \<noteq> None \<Longrightarrow> scan_streams i ss c = (ss', Some c') \<Longrightarrow> chosen c' = chosen c"
proof (induction i ss c arbitrary: ss' c' rule: scan_streams.induct)
  case (2 i s ss c)
  have e: "pipelineStream (choose_stream i s c) = pipelineStream c" "chosen (choose_stream i s c) = chosen c"
    using "2.prems"(1) by (auto simp: choose_stream_def Let_def chosen_def)
  obtain ss1 where 1: "scan_streams (Suc i) ss (choose_stream i s c) = (ss1, Some c')" "\<not> (st_width s = 0 \<or> st_height s = 0)"
    using "2.prems"(2) by (auto simp: Let_def split: if_splits prod.splits)
  show ?case using "2.IH" [OF 1(2) refl _ 1(1)] "2.prems"(1) e by simp
qed simp

lemma scan_half:
  "pipelineStream c = None \<Longrightarrow> rgbaStream c = Some k \<Longrightarrow> scan_streams i ss c = (ss', Some c') \<Longrightarrow>
    chosen c' = Some (case numbered i ss of [] \<Rightarrow> k | (j, r) # _ \<Rightarrow> if st_format r = HAL_PIXEL_FORMAT_RGBA_8888 then j else k)"
proof (induction i ss c arbitrary: ss' c' rule: scan_streams.induct)
  case (1 i c)
  then show ?case by (auto simp: chosen_def)
next
  case (2 i s ss c)
  obtain ss1 where 1: "scan_streams (Suc i) ss (choose_stream i s c) = (ss1, Some c')" "\<not> (st_width s = 0 \<or> st_height s = 0)"
    using "2.prems"(3) by (auto simp: Let_def split: if_splits prod.splits)
  show ?case
  proof (cases "sized_by s")
    case True
    have "pipelineStream (choose_stream i s c) \<noteq> None"
         "chosen (choose_stream i s c) = Some (if st_format s = HAL_PIXEL_FORMAT_RGBA_8888 then i else k)"
      using True "2.prems"(1,2) by (auto simp: choose_stream_def Let_def sized_by_def chosen_def)
    then show ?thesis using scan_settled [OF _ 1(1)] True by simp
  next
    case False
    then have "pipelineStream (choose_stream i s c) = None" "rgbaStream (choose_stream i s c) = Some k"
      using "2.prems"(1,2) by (auto simp: choose_stream_def Let_def sized_by_def)
    then show ?thesis using "2.IH" [OF _ _ _ _ 1(1)] 1(2) False by simp
  qed
qed

lemma scan_chosen:
  "pipelineStream c = None \<Longrightarrow> rgbaStream c = None \<Longrightarrow> scan_streams i ss c = (ss', Some c') \<Longrightarrow>
    chosen c' = first_choice (numbered i ss)"
proof (induction i ss c arbitrary: ss' c' rule: scan_streams.induct)
  case (1 i c)
  then show ?case by (auto simp: chosen_def)
next
  case (2 i s ss c)
  obtain ss1 where 1: "scan_streams (Suc i) ss (choose_stream i s c) = (ss1, Some c')" "\<not> (st_width s = 0 \<or> st_height s = 0)"
    using "2.prems"(3) by (auto simp: Let_def split: if_splits prod.splits)
  consider "\<not> sized_by s" | "sized_by s" "st_format s = HAL_PIXEL_FORMAT_IMPLEMENTATION_DEFINED"
    | "sized_by s" "st_format s \<noteq> HAL_PIXEL_FORMAT_IMPLEMENTATION_DEFINED" by blast
  then show ?case
  proof cases
    case 1
    then have "pipelineStream (choose_stream i s c) = None" "rgbaStream (choose_stream i s c) = None"
      using "2.prems"(1,2) by (auto simp: choose_stream_def Let_def sized_by_def)
    then show ?thesis using "2.IH" [OF _ _ _ _ \<open>scan_streams (Suc i) ss (choose_stream i s c) = (ss1, Some c')\<close>]
      \<open>\<not> (st_width s = 0 \<or> st_height s = 0)\<close> 1 by simp
  next
    case 2
    then have "pipelineStream (choose_stream i s c) = None" "rgbaStream (choose_stream i s c) = Some i"
      using "2.prems"(1,2) by (auto simp: choose_stream_def Let_def sized_by_def hal_formats)
    from scan_half [OF this 1(1)] 2 show ?thesis by (cases "numbered (Suc i) ss") auto
  next
    case 3
    have "pipelineStream (choose_stream i s c) \<noteq> None" "chosen (choose_stream i s c) = Some i"
      using 3 "2.prems"(1,2) by (auto simp: choose_stream_def Let_def sized_by_def chosen_def)
    from scan_settled [OF this(1) 1(1)] this(2) 3 show ?thesis by (cases "numbered (Suc i) ss") auto
  qed
qed

lemma numbered_nth: "(k, s) \<in> set (numbered i ss) \<Longrightarrow> i \<le> k \<and> k - i < length ss \<and> ss ! (k - i) = s \<and> sized_by s"
proof (induction i ss rule: numbered.induct)
  case (2 i s ss)
  then show ?case by (cases "k = i") (auto simp: nth_Cons' split: if_splits)
qed simp

lemma first_choice_in: "first_choice ps = Some k \<Longrightarrow> \<exists>s. (k, s) \<in> set ps"
  by (cases ps rule: first_choice.cases) (auto split: if_splits)

lemma first_choice_nth: "first_choice (numbered 0 ss) = Some k \<Longrightarrow> k < length ss \<and> sized_by (ss ! k)"
  using first_choice_in numbered_nth [of k _ 0 ss] by fastforce

lemma scan_sizes: "scan_streams i ss c = (ss', r) \<Longrightarrow>
  length ss' = length ss \<and> (\<forall>k < length ss. st_width (ss' ! k) = st_width (ss ! k) \<and> st_height (ss' ! k) = st_height (ss ! k))"
proof (induction i ss c arbitrary: ss' r rule: scan_streams.induct)
  case (2 i s ss c)
  show ?case
  proof (cases "st_width s = 0 \<or> st_height s = 0")
    case False
    then obtain ss1 where "scan_streams (Suc i) ss (choose_stream i s c) = (ss1, r)"
        "ss' = (if st_type s = CAMERA3_STREAM_OUTPUT then s\<lparr>max_buffers := 2\<rparr> else s) # ss1"
      using "2.prems" by (auto simp: Let_def split: prod.splits)
    then show ?thesis using "2.IH" [OF False refl, of ss1 r] by (auto simp: nth_Cons split: nat.split)
  qed (use "2.prems" in simp)
qed simp

definition invalid_streams :: "camera3_stream list \<Rightarrow> bool" where
  "invalid_streams ss \<longleftrightarrow> ss = [] \<or> length ss > 20 \<or> (\<exists>s \<in> set ss. st_width s = 0 \<or> st_height s = 0)"

text \<open>The validation sets \<open>max_buffers\<close> of the output streams up to the first stream without a size.\<close>

definition prepared :: "camera3_stream \<Rightarrow> camera3_stream" where
  "prepared s = (if st_type s = CAMERA3_STREAM_OUTPUT then s\<lparr>max_buffers := 2\<rparr> else s)"

definition scanned :: "camera3_stream list \<Rightarrow> camera3_stream list" where
  "scanned ss = map prepared (takeWhile (\<lambda>s. st_width s \<noteq> 0 \<and> st_height s \<noteq> 0) ss) @
     dropWhile (\<lambda>s. st_width s \<noteq> 0 \<and> st_height s \<noteq> 0) ss"

lemma scan_list: "scan_streams i ss c = (ss', r) \<Longrightarrow> ss' = scanned ss"
proof (induction i ss c arbitrary: ss' r rule: scan_streams.induct)
  case (2 i s ss c)
  obtain ss1 r1 where "scan_streams (Suc i) ss (choose_stream i s c) = (ss1, r1)" by fastforce
  then show ?case using "2.prems" "2.IH" [OF _ refl, of ss1 r1] by (auto simp: scanned_def prepared_def Let_def split: if_splits)
qed (simp add: scanned_def)

lemma scanned_valid: "\<forall>s \<in> set ss. st_width s \<noteq> 0 \<and> st_height s \<noteq> 0 \<Longrightarrow> scanned ss = map prepared ss"
  by (simp add: scanned_def takeWhile_eq_all_conv [THEN iffD2] dropWhile_eq_Nil_conv [THEN iffD2])

lemma scan_rejects: "snd (scan_streams i ss c) = None \<longleftrightarrow> (\<exists>s \<in> set ss. st_width s = 0 \<or> st_height s = 0)"
  by (induction i ss c rule: scan_streams.induct) (auto simp: Let_def case_prod_beta)

lemma pl_inv_rebase: "pl_inv K h p \<Longrightarrow> live K h = live K h0 \<Longrightarrow> pl_inv K h0 p"
  by (simp add: pl_inv_def)

lemma drop_pipeline_live: "pl_inv K h0 p \<Longrightarrow> live K (drop_pipeline K p) = live K h0"
  using close_inv [OF conjunct1 [OF close_inv, of K "live K h0" p]] by (simp add: drop_pipeline_def pl_inv_def)

lemma close_previous_effect:
  assumes "dev_inv P h0 d"
  shows "dev_pipeline (close_previous (drv P) d) = None \<and> live (drv P) (vlog (close_previous (drv P) d)) = live (drv P) h0 \<and>
    inflight_tracker (close_previous (drv P) d) = inflight_tracker d \<and> same_set_up d (close_previous (drv P) d)"
  using dev_invD(1,2) [OF assms] drop_pipeline_live
  by (cases "dev_pipeline d") (auto simp: close_previous_def same_set_up_def)

lemma open_pipeline_effect:
  assumes "live (drv P) (vlog d) = live (drv P) h0"
  shows "open_pipeline P d = Inl p \<Longrightarrow> pl_inv (drv P) h0 p \<and> mBufferCount p = 0"
    and "open_pipeline P d = Inr h \<Longrightarrow> live (drv P) h = live (drv P) h0"
proof -
  define q where "q = snd (pl_open (drv P) (camera_id d) (CameraPipeline_new (fresh_cfg P) (fresh_id P) (fresh_lut P) (vlog d)))"
  have q: "pl_inv (drv P) h0 q" "mBufferCount q = 0"
    using pl_inv_rebase [OF pl_inv_open [OF pl_inv_new] assms]
    by (auto simp: q_def pl_open_def CameraPipeline_new_def Let_def ask_eq initFocuser_def)
  have o: "open_pipeline P d = Inl q \<or> open_pipeline P d = Inr (calls (snd (pl_close (drv P) q)))"
    by (simp add: open_pipeline_def q_def Let_def case_prod_beta)
  show "open_pipeline P d = Inl p \<Longrightarrow> pl_inv (drv P) h0 p \<and> mBufferCount p = 0" using o q by auto
  show "open_pipeline P d = Inr h \<Longrightarrow> live (drv P) h = live (drv P) h0"
    using o close_inv [OF q(1)] by (auto simp: pl_inv_def)
qed

lemma start_pipeline_effect:
  assumes "start_pipeline P w h p d = Some (ret, d')" "pl_inv (drv P) h0 p" "mBufferCount p = 0" "four_buffers (drv P)" "errno_set (drv P)"
  shows "(ret \<noteq> 0 \<and> (\<exists>l. d' = d\<lparr>dev_pipeline := None, vlog := l\<rparr> \<and> live (drv P) l = live (drv P) h0)) \<or>
    (ret = 0 \<and> (\<exists>q. d' = d\<lparr>dev_pipeline := Some q\<rparr> \<and> pl_inv (drv P) h0 q \<and> mState q = PIPELINE_STREAMING \<and>
       mConfig q = stream_config (camera_id d) w h))"
proof -
  obtain r p1 where 1: "configure (drv P) (powf_fn P) (fresh P) (stream_config (camera_id d) w h) p = Some (r, p1)"
    using assms(1) by (auto simp: start_pipeline_def elim!: bind_SomeE)
  have p1: "pl_inv (drv P) h0 p1" "r = 0 \<longrightarrow> mConfig p1 = stream_config (camera_id d) w h"
    using configure_fresh [OF 1 assms(2-4)] by simp_all
  obtain r2 q where 2: "startStreaming (drv P) p1 = (r2, q)" by (cases "startStreaming (drv P) p1")
  have q: "pl_inv (drv P) h0 q" "mConfig q = mConfig p1" "r2 = 0 \<longrightarrow> mState q = PIPELINE_STREAMING"
    using startStreaming_inv [OF p1(1)] startStreaming_effect [OF 2] 2 assms(5) by simp_all
  show ?thesis using assms(1) 1 2 p1 q drop_pipeline_live
    by (auto simp: start_pipeline_def split: if_splits)
qed

lemma drain_inflight_effect:
  assumes "drain_inflight d = Some (d', evs)" "inflight_tracker d = Some t" "tracker_inv t"
  shows "d' = d\<lparr>inflight_tracker := Some []\<rparr> \<and> evs = drain_results (sorted_list_of_set (in_flight t))"
proof (cases "t = []")
  case True
  have "d = d\<lparr>inflight_tracker := Some []\<rparr>" using assms(2) True by simp
  then show ?thesis using assms True by (simp add: drain_inflight_def tracker_count_def in_flight_def drain_results_def)
next
  case False
  then show ?thesis using assms om.keys_unique [of t]
    by (auto simp: drain_inflight_def tracker_count_def drainAll_def in_flight_def split: if_splits)
qed

text \<open>What a reconfiguration ends in.\<close>

definition reconfigured :: "platform \<Rightarrow> vcall list \<Rightarrow> u32 \<Rightarrow> u32 \<Rightarrow> int \<Rightarrow> camera_device \<Rightarrow> bool" where
  "reconfigured P h0 w h ret d \<longleftrightarrow>
     (ret \<noteq> 0 \<longrightarrow> dev_pipeline d = None \<and> live (drv P) (vlog d) = live (drv P) h0) \<and>
     (ret = 0 \<longrightarrow> streams_configured d \<and> (\<exists>p. dev_pipeline d = Some p \<and> mState p = PIPELINE_STREAMING \<and>
        mConfig p = stream_config (camera_id d) w h)) \<and>
     inflight_tracker d = Some []"

lemma reconfigure_effect:
  assumes "reconfigure P ss s out d = Some (ret, ss', d', evs)" "dev_inv P h0 d" "inflight_tracker d = Some t"
    "four_buffers (drv P)" "errno_set (drv P)"
  shows "dev_inv P h0 d' \<and> reconfigured P h0 (st_width s) (st_height s) ret d' \<and>
    evs = drain_results (sorted_list_of_set (in_flight t)) \<and> callback_ops d' = callback_ops d \<and> is_initialized d' = is_initialized d \<and>
    (ss' = map override_format ss \<or> ret = -ENODEV \<and> ss' = ss)"
proof -
  have t: "tracker_inv t" using dev_invD(3) [OF assms(2)] assms(3) by auto
  obtain d1 evs1 where 1: "drain_inflight d = Some (d1, evs1)" using assms(1) by (auto simp: reconfigure_def elim!: bind_SomeE)
  have d1: "d1 = d\<lparr>inflight_tracker := Some []\<rparr>" "evs1 = drain_results (sorted_list_of_set (in_flight t))"
    using drain_inflight_effect [OF 1 assms(3) t] by simp_all
  have ti: "tracker_inv []" using tracker_inv_new by (simp add: tracker_new_def)
  define d2 where "d2 = close_previous (drv P) d1"
  have "dev_inv P h0 d1" using assms(2) d1(1) ti by (simp add: dev_inv_def)
  then have d2: "dev_pipeline d2 = None" "live (drv P) (vlog d2) = live (drv P) h0" "inflight_tracker d2 = Some []" "same_set_up d d2"
    using close_previous_effect [of P h0 d1] d1(1) by (simp_all add: d2_def same_set_up_def)
  show ?thesis
  proof (cases "open_pipeline P d2")
    case (Inr l)
    then have "ret = -ENODEV" "d' = d2\<lparr>vlog := l\<rparr>" "evs = evs1" "ss' = ss"
      using assms(1) 1 by (simp_all add: reconfigure_def d2_def)
    then show ?thesis using open_pipeline_effect(2) [OF d2(2) Inr] d2 d1(2) ti
      by (simp add: dev_inv_def reconfigured_def errno_defs same_set_up_def)
  next
    case (Inl p)
    obtain d3 where 3: "start_pipeline P (st_width s) (st_height s) p d2 = Some (ret, d3)" and e: "evs = evs1" "ss' = map override_format ss"
      and d': "d' = (if ret \<noteq> 0 then d3 else d3\<lparr>output_stream := out, pipeline_width := st_width s, pipeline_height := st_height s,
          last_config_width := st_width s, last_config_height := st_height s, streams_configured := True\<rparr>)"
      using assms(1) 1 Inl by (auto simp: reconfigure_def d2_def elim!: bind_SomeE)
    have p: "pl_inv (drv P) h0 p" "mBufferCount p = 0" using open_pipeline_effect(1) [OF d2(2) Inl] by simp_all
    show ?thesis using start_pipeline_effect [OF 3 p assms(4,5)] d2 d1(2) e d' ti
      by (auto simp: dev_inv_def reconfigured_def same_set_up_def stream_config_def)
  qed
qed

end
