(* ===== verification/CameraHALSafety.thy ===== *)
theory CameraHALSafety
  imports CameraHALProps
begin

text \<open>
  Memory safety of the camera device: a configured pipeline is ready to process frames, and every
  operation of a request keeps the device ready. Then the steps of the device and their invariant.
\<close>

section \<open>Memory safety of requests\<close>

text \<open>A configured size the image processor accepts.\<close>

definition frame_size_ok :: "u32 \<Rightarrow> u32 \<Rightarrow> bool" where
  "frame_size_ok w h \<longleftrightarrow> 3 \<le> unat w \<and> 3 \<le> unat h \<and> unat w \<le> 65500 \<and> unat h \<le> 65500 \<and> unat w * unat h < 2 ^ 29"

lemma frame_size_words:
  assumes "frame_size_ok w h"
  shows "unat (ucast w :: u16) = unat w" "unat (ucast h :: u16) = unat h" "unat (w * h * 3) = 3 * (unat w * unat h)"
    "unat (w * h * 4) = 4 * (unat w * unat h)"
proof -
  have wh: "unat (w * h) = unat w * unat h" using assms by (simp add: frame_size_ok_def unat_mult_lem [THEN iffD1])
  show "unat (ucast w :: u16) = unat w" "unat (ucast h :: u16) = unat h"
    using assms by (simp_all add: frame_size_ok_def unsigned_ucast_eq take_bit_nat_eq_self)
  have "unat (w * h) * unat (3 :: u32) < 2 ^ 32" "unat (w * h) * unat (4 :: u32) < 2 ^ 32"
    using assms unfolding wh frame_size_ok_def by (simp_all add: mult.commute)
  then show "unat (w * h * 3) = 3 * (unat w * unat h)" "unat (w * h * 4) = 4 * (unat w * unat h)"
    using unat_mult_lem [of "w * h" 3] unat_mult_lem [of "w * h" 4] wh by simp_all
qed

lemma gamma_set: "fround (55 / 100) \<noteq> 0"
  using fround_mono [of "1 / 2" "55 / 100"] by auto

lemma configure_isp_ready:
  assumes "frame_size_ok w h" "cfg = stream_config i w h"
  shows "\<exists>r q. configure_isp junk cfg p = Some (r, q) \<and> mAwbGains q = mAwbGains p \<and> mLastGamma q = mLastGamma p \<and> mConfig q = mConfig p \<and>
    (r = 0 \<longrightarrow> mColorConv q \<noteq> None \<and> (\<exists>rgb. mRgbBuffer q = Some rgb \<and> length rgb = 3 * (unat w * unat h)) \<and>
      (\<exists>d pl. mDemosaic q = Some d \<and> mInitialized d \<and> mBayerBuf d = Some pl \<and> unat w * unat h \<le> length pl \<and>
         unat (width (mParams d)) = unat w \<and> unat (height (mParams d)) = unat h \<and>
         bayerPattern (mParams d) = 3 \<and> blackLevel (mParams d) = 0))"
proof -
  note u = frame_size_words [OF assms(1)]
  define dp where "dp = \<lparr> width = ucast (cfg_width cfg), height = ucast (cfg_height cfg), bayerPattern = cfg_bayerPattern cfg,
    offset_x = cfg_offset_x cfg, offset_y = cfg_offset_y cfg, blackLevel = cfg_blackLevel cfg \<rparr>"
  have dp: "unat (width dp) = unat w" "unat (height dp) = unat h" "bayerPattern dp = 3" "blackLevel dp = 0"
    using u assms(2) by (simp_all add: dp_def stream_config_def)
  have "unat w * unat h < 2 ^ 29" using assms(1) by (simp add: frame_size_ok_def)
  then have b: "unat (width dp) * unat (height dp) + 80 < 2 ^ 31" using dp(1,2) by simp
  have "length (case mBayerBuf DemosaicNEON_new of None \<Rightarrow> [] | Some b \<Rightarrow> b) = unat (mBayerBufSize DemosaicNEON_new)"
    by (simp add: DemosaicNEON_new_def)
  from initialize_allocates [OF this b, of True junk] obtain r d where i: "initialize True junk dp DemosaicNEON_new = Ret (r, d)"
    "r = 0 \<longrightarrow> mInitialized d \<and> mParams d = dp \<and> (\<exists>b. mBayerBuf d = Some b \<and> unat (width dp) * unat (height dp) + 16 \<le> length b)"
    by blast
  then show ?thesis using u dp assms(2)
    unfolding configure_isp_def Let_def dp_def [symmetric] i(1)
    by (auto simp: stream_config_def Let_def cc_initialize_def split: prod.splits)
qed

lemma configure_rest_ready:
  assumes "frame_size_ok w h" "cfg = stream_config i w h" "mConfig p = cfg" "mAwbGains p = [1, 1, 1, 1]" "mLastGamma p = 0"
  shows "\<exists>r q. configure_rest powf junk cfg p = Some (r, q) \<and> (r = 0 \<longrightarrow> isp_ready q)"
proof -
  obtain r q where q: "configure_isp junk cfg p = Some (r, q)" "mAwbGains q = mAwbGains p" "mLastGamma q = mLastGamma p" "mConfig q = mConfig p"
    and ok: "r = 0 \<longrightarrow> mColorConv q \<noteq> None \<and> (\<exists>rgb. mRgbBuffer q = Some rgb \<and> length rgb = 3 * (unat w * unat h)) \<and>
      (\<exists>d pl. mDemosaic q = Some d \<and> mInitialized d \<and> mBayerBuf d = Some pl \<and> unat w * unat h \<le> length pl \<and>
         unat (width (mParams d)) = unat w \<and> unat (height (mParams d)) = unat h \<and>
         bayerPattern (mParams d) = 3 \<and> blackLevel (mParams d) = 0)"
    using configure_isp_ready [OF assms(1,2), of junk p] by blast
  have c: "cfg_enableISP cfg" "cfg_enableAWB cfg" "cfg_digitalGain cfg = 6" "cfg_width cfg = w" "cfg_height cfg = h" "cfg_gamma cfg \<noteq> 0"
    using assms(2) gamma_set by (simp_all add: stream_config_def)
  define q' where "q' = q\<lparr>mHasAwbInit := False, mGammaLut := gamma_lut powf (cfg_gamma cfg), mLastGamma := cfg_gamma cfg\<rparr>"
  have e: "configure_rest powf junk cfg p = Some (if r \<noteq> 0 then (r, q) else (0, q'))"
    using q(1,3) c(1,6) assms(5) by (simp add: configure_rest_def q'_def)
  have "awb_ok q'" using q(2) assms(4) by (intro awb_ok_new [of 1 1]) (simp_all add: q'_def)
  then have "r = 0 \<Longrightarrow> isp_ready q'"
    using ok c q(4) assms(1,3) by (auto simp: isp_ready_def Let_def q'_def gamma_lut_def frame_size_ok_def)
  then show ?thesis using e by simp
qed

lemma rest_eq_isp: "rest_eq p q \<Longrightarrow> mConfig q = mConfig p \<and> mAwbGains q = mAwbGains p \<and> mLastGamma q = mLastGamma p"
proof -
  assume "rest_eq p q"
  then obtain b c where "q = p\<lparr>mBuffers := b, calls := c\<rparr>" unfolding rest_eq_def by blast
  then show ?thesis by simp
qed

lemma map_buffers_error: "errno_set K \<Longrightarrow> map_buffers K n i p = Some (Inl e, q) \<Longrightarrow> e < 0"
  by (induction n arbitrary: i p) (auto simp: Let_def ask_eq errno_set_def errno_defs split: if_splits)

lemma configure_ready:
  assumes "frame_size_ok w h" "cfg = stream_config i w h" "pl_inv K h0 p" "mBufferCount p = 0" "four_buffers K"
    "mAwbGains p = [1, 1, 1, 1]" "mLastGamma p = 0" "errno_set K"
  shows "\<exists>r q. configure K powf junk cfg p = Some (r, q) \<and> (r = 0 \<longrightarrow> isp_ready q)"
proof -
  define p0 where "p0 = p\<lparr>mConfig := cfg\<rparr>"
  define c1 where "c1 = VSetFmt (mFd p) (cfg_width cfg) (cfg_height cfg) (cfg_pixelFormat cfg)"
  define p1 where "p1 = said c1 p0"
  define p2 where "p2 = said (VReqBufs (mFd p) 2) p1"
  define k where "k = r_count (K (calls p1) (VReqBufs (mFd p) 2))"
  have e: "mFd p0 = mFd p" "mFd p1 = mFd p" by (simp_all add: p1_def p0_def)
  have f: "mConfig p2 = cfg" "mAwbGains p2 = [1, 1, 1, 1]" "mLastGamma p2 = 0" "mBuffers p2 = mBuffers p" and c0: "calls p0 = calls p"
    using assms(6,7) by (simp_all add: p2_def p1_def p0_def said_def)
  have k4: "k \<le> 4" using assms(5) by (simp add: four_buffers_def k_def)
  have "bufs_mapped 0 (p2\<lparr>mBufferCount := k\<rparr>)" using assms(3,4) f(4) by (simp add: pl_inv_def bufs_mapped_def)
  then obtain res q where x: "map_buffers K k 0 (p2\<lparr>mBufferCount := k\<rparr>) = Some (res, q)"
      "mapped_to K (p2\<lparr>mBufferCount := k\<rparr>) 0 k (res, q)"
    using map_buffers_maps [of 0 "p2\<lparr>mBufferCount := k\<rparr>" k K] k4 by auto
  have conf: "configure K powf junk cfg p =
     (if mState p = PIPELINE_STREAMING then Some (-EBUSY, p) else if mFd p < 0 then Some (-ENODEV, p0)
      else if r_ret (K (calls p) c1) < 0 then Some (- r_errno (K (calls p) c1), p1)
      else if r_ret (K (calls p1) (VReqBufs (mFd p) 2)) < 0 then Some (- r_errno (K (calls p1) (VReqBufs (mFd p) 2)), p2)
      else if k < 2 then Some (-ENOMEM, p2)
      else case res of Inl e \<Rightarrow> Some (e, q) | Inr _ \<Rightarrow> configure_rest powf junk cfg q)"
    unfolding configure_def ask_eq p0_def [symmetric] Let_def prod.case e c1_def [symmetric] p1_def [symmetric] said_def [symmetric]
    using x(1) by (cases res) (simp_all add: c0 k_def e p2_def [symmetric] p1_def [symmetric] c1_def [symmetric] said_def [symmetric])
  show ?thesis
  proof (cases res)
    case (Inl e)
    then have "e < 0" using map_buffers_error [OF assms(8)] x(1) by blast
    then show ?thesis using Inl errno_setD [OF assms(8)] unfolding conf by (fastforce simp: errno_defs)
  next
    case (Inr u)
    have "rest_eq (p2\<lparr>mBufferCount := k\<rparr>) q" using x(2) Inr by (simp add: mapped_to_def)
    then have "mConfig q = cfg \<and> mAwbGains q = [1, 1, 1, 1] \<and> mLastGamma q = 0"
      using rest_eq_isp f(1-3) by fastforce
    then show ?thesis using configure_rest_ready [OF assms(1,2), of q powf junk] Inr errno_setD [OF assms(8)] unfolding conf
      by (fastforce simp: errno_defs)
  qed
qed

text \<open>The frames the driver delivers fill the configured size with ten-bit samples.\<close>

definition frames_ok :: "driver \<Rightarrow> nat \<Rightarrow> bool" where
  "frames_ok K n \<longleftrightarrow> (\<forall>h fd. 2 * n \<le> length (r_data (K h (VDQBuf fd MMAP))) \<and> ten_bit (r_data (K h (VDQBuf fd MMAP))) n)"

text \<open>A device whose pipeline, when there is one, can process frames of \<open>n\<close> pixels.\<close>

definition dev_ready :: "platform \<Rightarrow> vcall list \<Rightarrow> nat \<Rightarrow> camera_device \<Rightarrow> bool" where
  "dev_ready P h0 n d \<longleftrightarrow> dev_inv P h0 d \<and>
     (\<forall>p. dev_pipeline d = Some p \<longrightarrow> isp_ready p) \<and>
     frame_size_ok (pipeline_width d) (pipeline_height d) \<and> unat (pipeline_width d) * unat (pipeline_height d) = n \<and>
     (\<forall>b. temp_rgba d = Some b \<longrightarrow> length b = unat (temp_rgba_size d))"

lemma dev_ready_cong:
  assumes "dev_ready P h0 n d" "same_set_up d d'" "dev_inv P h0 d'" "\<And>p. dev_pipeline d' = Some p \<Longrightarrow> isp_ready p"
    "temp_rgba d' = temp_rgba d" "temp_rgba_size d' = temp_rgba_size d"
  shows "dev_ready P h0 n d'"
  using assms by (simp add: dev_ready_def same_set_up_def)

lemma dev_ready_same:
  assumes "dev_ready P h0 n d" "same_device d d'" "\<exists>t. inflight_tracker d' = Some t \<and> tracker_inv t"
    "\<And>p. dev_pipeline d' = Some p \<Longrightarrow> isp_ready p" "temp_rgba d' = temp_rgba d" "temp_rgba_size d' = temp_rgba_size d"
  shows "dev_ready P h0 n d'"
proof (rule dev_ready_cong [OF assms(1) same_device_set_up [OF assms(2)] _ assms(4-6)])
  show "dev_inv P h0 d'" using dev_inv_same [OF _ assms(2,3)] assms(1) by (simp add: dev_ready_def)
qed

lemma dev_readyD:
  assumes "dev_ready P h0 n d"
  shows "dev_inv P h0 d" "\<exists>t. inflight_tracker d = Some t \<and> tracker_inv t" "dev_pipeline d = Some p \<Longrightarrow> isp_ready p"
  using assms dev_invD(3) [of P h0 d] by (simp_all add: dev_ready_def)

lemma dev_ready_untrack: "dev_ready P h0 n d \<Longrightarrow> dev_ready P h0 n (untrack f d)"
  by (rule dev_ready_same) (simp_all add: tracked_untrack dev_readyD)

lemma capture_into_ready:
  assumes "dev_ready P h0 n d" "dev_pipeline d \<noteq> None" "4 * n \<le> length out" "frames_ok (drv P) n"
    "fmt = HAL_PIXEL_FORMAT_RGBA_8888 \<or> fmt = HAL_PIXEL_FORMAT_IMPLEMENTATION_DEFINED"
  shows "\<exists>r out' d'. capture_into P fmt out d = Some (r, out', d') \<and> length out' = length out \<and> dev_ready P h0 n d' \<and>
    temp_rgba d' = temp_rgba d \<and> temp_rgba_size d' = temp_rgba_size d \<and> pipeline_width d' = pipeline_width d \<and>
    pipeline_height d' = pipeline_height d"
proof -
  obtain p where p: "dev_pipeline d = Some p" using assms(2) by blast
  have i: "isp_ready p" "pl_inv (drv P) h0 p" "unat (cfg_width (mConfig p)) * unat (cfg_height (mConfig p)) = n"
    using assms(1) p by (simp_all add: dev_ready_def dev_inv_def)
  obtain r out' p' where c: "captureFrame (drv P) (powf_fn P) (Some out) fmt p = Some (r, Some out', p')" "length out' = length out"
      "isp_ready p'"
    using capture_rgba_total [OF i(1,2) _ assms(5)] assms(3,4) unfolding i(3) frames_ok_def by blast
  then have e: "capture_into P fmt out d = Some (r, out', d\<lparr>dev_pipeline := Some p'\<rparr>)" using p by (simp add: capture_into_def)
  have "same_device d (d\<lparr>dev_pipeline := Some p'\<rparr>)" using p same_core_capture [OF c(1)] by (simp add: same_device_def)
  then have "dev_ready P h0 n (d\<lparr>dev_pipeline := Some p'\<rparr>)"
    using dev_readyD(2) [OF assms(1)] c(3) by (intro dev_ready_same [OF assms(1)]) simp_all
  then show ?thesis using e c(2) by auto
qed

lemma alloc_temp_ready:
  assumes "dev_ready P h0 n d"
  shows "dev_ready P h0 n (alloc_temp P E d)" "\<And>b. temp_rgba (alloc_temp P E d) = Some b \<Longrightarrow> 4 * n \<le> length b"
proof -
  have u: "unat (pipeline_width d * pipeline_height d * 4) = 4 * n"
    using assms frame_size_words(4) by (simp add: dev_ready_def)
  have "same_device d (alloc_temp P E d)" by (simp add: same_device_def)
  then have i: "dev_inv P h0 (alloc_temp P E d)"
    using dev_inv_same [of P h0 d "alloc_temp P E d"] dev_invD(3) assms by (simp add: dev_ready_def)
  have w: "pipeline_width (alloc_temp P E d) = pipeline_width d" "pipeline_height (alloc_temp P E d) = pipeline_height d"
    by (simp_all add: alloc_temp_def Let_def)
  have t: "temp_rgba (alloc_temp P E d) = Some b \<Longrightarrow> length b = unat (temp_rgba_size (alloc_temp P E d)) \<and> 4 * n \<le> length b" for b
    using assms u by (auto simp: alloc_temp_def Let_def dev_ready_def word_less_nat_alt split: if_splits)
  show "dev_ready P h0 n (alloc_temp P E d)" using assms i t w by (simp add: dev_ready_def)
  show "\<And>b. temp_rgba (alloc_temp P E d) = Some b \<Longrightarrow> 4 * n \<le> length b" using t by blast
qed

text \<open>
  What a request must bring: an RGBA buffer with 4 bytes per pixel of the pipeline's image, or a BLOB
  buffer of the size the device assumes, with room for the trailer and for the JPEG image of every
  picture of the pipeline's size.
\<close>

definition blob_size :: "camera3_stream \<Rightarrow> nat" where
  "blob_size s = unat (st_width s * st_height s * 2)"

definition request_ok :: "platform \<Rightarrow> nat \<Rightarrow> request_env \<Rightarrow> camera3_stream \<Rightarrow> bool" where
  "request_ok P n E s \<longleftrightarrow>
     (st_format s = HAL_PIXEL_FORMAT_RGBA_8888 \<and> (\<forall>r b. gralloc_lock E = (r, Some b) \<longrightarrow> 4 * n \<le> length b)) \<or>
     (st_format s = HAL_PIXEL_FORMAT_BLOB \<and> (\<forall>r b. gralloc_lock E = (r, Some b) \<longrightarrow> blob_size s \<le> length b) \<and>
        (\<forall>k. length (blob_bytes P k) \<le> blob_size s) \<and> (\<forall>w h. w * h = n \<longrightarrow> never_short (jlib P) w h 90 (blob_size s)))"

lemma encode_blob_ready:
  assumes "dev_ready P h0 n d" "4 * n \<le> length rgba" "blob_size s \<le> length va" "\<forall>k. length (blob_bytes P k) \<le> blob_size s"
    "jpeg_contract (jlib P)" "\<forall>w h. w * h = n \<longrightarrow> never_short (jlib P) w h 90 (blob_size s)"
  shows "\<exists>ok out d'. encode_blob P E s rgba va d = Some (ok, out, d') \<and> dev_ready P h0 n d'"
proof -
  have sz: "0 < unat (pipeline_width d)" "unat (pipeline_width d) \<le> 65500" "0 < unat (pipeline_height d)" "unat (pipeline_height d) \<le> 65500"
    using assms(1) by (auto simp: dev_ready_def frame_size_ok_def)
  have ns: "never_short (jlib P) (unat (pipeline_width d)) (unat (pipeline_height d)) 90 (blob_size s)"
    using assms(1,6) by (simp add: dev_ready_def)
  have "4 * (unat (pipeline_height d) * unat (pipeline_width d)) \<le> length rgba" using assms(1,2) by (simp add: dev_ready_def mult.commute)
  from encodeRGBA_total [OF assms(5) sz this assms(3) ns, of "malloc_row E" "fresh P" "jlog d"]
  obtain r out sz j where e: "encodeRGBA (jlib P) (malloc_row E) (fresh P) rgba (unat (pipeline_width d)) (unat (pipeline_height d)) 90 va
      (blob_size s) (jlog d) = Some (Inr (r, out, sz, j))" "length out = length va" by blast
  have rd: "dev_ready P h0 n (d\<lparr>jpeg_encoder := True, jlog := j\<rparr>)"
    using assms(1) by (simp add: dev_ready_def dev_inv_def)
  have "\<exists>o2. wr_block (blob_size s - length (blob_bytes P k)) (blob_bytes P k) out = Some o2" for k
    using e(2) assms(3,4) by (simp add: wr_block_def)
  then obtain o2 where "wr_block (blob_size s - length (blob_bytes P k)) (blob_bytes P k) out = Some (o2 k)" for k by metis
  then show ?thesis using e(1) rd assms(4) unfolding encode_blob_def blob_size_def [symmetric] Let_def
    by (simp add: not_less [symmetric]) blast
qed

text \<open>What a safe capture returns: a ready device, and the pipeline is still there.\<close>

lemma capture_frame_ready:
  assumes "dev_ready P h0 n d" "dev_pipeline d \<noteq> None" "request_ok P n E s" "frames_ok (drv P) n" "jpeg_contract (jlib P)"
  shows "\<exists>c out d' evs. capture_frame P E s f d = Some (c, out, d', evs) \<and> dev_ready P h0 n d'"
proof (cases "gralloc_found E")
  case False
  then show ?thesis using assms(1) by (simp add: capture_frame_def)
next
  case g: True
  obtain lr va where l: "gralloc_lock E = (lr, va)" by (cases "gralloc_lock E")
  from assms(3) consider
      "st_format s = HAL_PIXEL_FORMAT_RGBA_8888" "\<forall>b. va = Some b \<longrightarrow> 4 * n \<le> length b"
    | "st_format s = HAL_PIXEL_FORMAT_BLOB" "\<forall>b. va = Some b \<longrightarrow> blob_size s \<le> length b" "\<forall>k. length (blob_bytes P k) \<le> blob_size s"
        "\<forall>w h. w * h = n \<longrightarrow> never_short (jlib P) w h 90 (blob_size s)"
    using l unfolding request_ok_def by auto
  then show ?thesis
  proof cases
    case 1
    have f: "capture_frame P E s f d = capture_locked P (lr, va) (st_format s) f d"
      using g 1(1) l by (simp add: capture_frame_def pixel_formats)
    show ?thesis
    proof (cases "if lr = 0 then va else None")
      case None
      then show ?thesis using assms(1) by (simp add: f capture_locked_def)
    next
      case (Some v)
      then have "4 * n \<le> length v" using 1(2) by (simp split: if_splits)
      then show ?thesis using capture_into_ready [OF assms(1,2) _ assms(4), of v "st_format s"] 1(1) Some dev_ready_untrack
        by (auto simp: f capture_locked_def)
    qed
  next
    case 2
    note a = alloc_temp_ready [OF assms(1), of E]
    have f: "capture_frame P E s f d = capture_blob P E s f d" using g 2(1) by (simp add: capture_frame_def)
    show ?thesis
    proof (cases "temp_rgba (alloc_temp P E d)")
      case None
      then show ?thesis using a(1) by (simp add: f capture_blob_def)
    next
      case (Some rgba)
      have "dev_pipeline (alloc_temp P E d) \<noteq> None" "4 * n \<le> length rgba" using assms(2) a(2) Some by simp_all
      from capture_into_ready [OF a(1) this assms(4), of HAL_PIXEL_FORMAT_RGBA_8888]
      obtain r rgba1 d1 where i: "capture_into P HAL_PIXEL_FORMAT_RGBA_8888 rgba (alloc_temp P E d) = Some (r, rgba1, d1)"
          "length rgba1 = length rgba" "dev_ready P h0 n d1" "temp_rgba d1 = temp_rgba (alloc_temp P E d)"
        by blast
      define d2 where "d2 = d1\<lparr>temp_rgba := Some rgba1\<rparr>"
      have d2: "dev_ready P h0 n d2" using i(2-4) Some by (simp add: d2_def dev_ready_def dev_inv_def)
      have "\<exists>ok out d'. encode_blob P E s rgba1 v d2 = Some (ok, out, d') \<and> dev_ready P h0 n d'" if "va = Some v" for v
        using encode_blob_ready [OF d2 _ _ 2(3) assms(5) 2(4)] i(2) 2(2) that \<open>4 * n \<le> length rgba\<close> by simp
      then show ?thesis unfolding f capture_blob_def using Some i(1) l d2 dev_ready_untrack [OF d2]
        by (cases va) (fastforce simp: d2_def [symmetric])+
    qed
  qed
qed

lemma restart_ready:
  assumes "dev_ready P h0 n d" "request_ok P n E s" "frames_ok (drv P) n" "jpeg_contract (jlib P)"
  shows "\<exists>c out d' evs. restart_and_capture P E s f d = Some (c, out, d', evs) \<and> dev_ready P h0 n d'"
proof (cases "dev_pipeline d")
  case None
  then show ?thesis using assms(1) by (simp add: restart_and_capture_def)
next
  case (Some p)
  obtain r q where q: "startStreaming (drv P) p = (r, q)" by (cases "startStreaming (drv P) p")
  define d1 where "d1 = d\<lparr>dev_pipeline := Some q\<rparr>"
  have "isp_ready q" using isp_ready_cong [of p q] startStreaming_effect [OF q] dev_readyD(3) [OF assms(1) Some] by simp
  moreover have "dev_inv P h0 d1" using dev_inv_start [OF dev_readyD(1) [OF assms(1)] Some] q by (simp add: d1_def)
  ultimately have d1: "dev_ready P h0 n d1" by (intro dev_ready_cong [OF assms(1)]) (simp_all add: d1_def)
  note c = capture_frame_ready [OF _ _ assms(2-4), of h0 _ f]
  have "dev_pipeline d1 \<noteq> None" by (simp add: d1_def)
  then show ?thesis using Some q d1 assms(1) c [OF assms(1)] c [OF d1] dev_ready_untrack [OF d1]
    by (auto simp: restart_and_capture_def d1_def [symmetric])
qed

lemma captureForAf_isp:
  assumes "errno_set K" "rejects_userptr K" "captureForAf K powf p = Some (e, p')"
  shows "same_isp p p'"
  using assms by (auto simp: captureForAf_def ask_eq Let_def rejects_userptr_def same_isp_def split: if_splits)

lemma af_step_isp:
  assumes "errno_set K" "rejects_userptr K" "af_step K powf pos (b, bp, p) = Some (b', bp', p')"
  shows "same_isp p p'"
proof -
  obtain e where c: "captureForAf K powf (snd (ask K (VUsleep 60000) (snd (setFocus K pos p)))) = Some (e, p')"
    using assms(3) by (auto simp: af_step_def Let_def elim!: bind_SomeE split: if_splits)
  show ?thesis using captureForAf_isp [OF assms(1,2) c] by (auto simp: same_isp_def ask_eq setFocus_def Let_def split: if_splits)
qed

lemma af_coarse_isp: "errno_set K \<Longrightarrow> rejects_userptr K \<Longrightarrow> af_coarse K powf ps (b, bp, p) = Some (b', bp', p') \<Longrightarrow> same_isp p p'"
proof (induction ps arbitrary: b bp p)
  case (Cons pos ps)
  then obtain b1 bp1 p1 where 1: "af_step K powf pos (b, bp, p) = Some (b1, bp1, p1)" "af_coarse K powf ps (b1, bp1, p1) = Some (b', bp', p')"
    by (auto elim!: bind_SomeE)
  show ?case using af_step_isp [OF Cons.prems(1,2) 1(1)] Cons.IH [OF Cons.prems(1,2) 1(2)] same_isp_trans by blast
qed simp

lemma af_fine_isp: "errno_set K \<Longrightarrow> rejects_userptr K \<Longrightarrow> af_fine K powf ps (b, bp, p) = Some (b', bp', p') \<Longrightarrow> same_isp p p'"
proof (induction ps arbitrary: b bp p)
  case (Cons pos ps)
  show ?case
  proof (cases "pos = bp")
    case True
    then show ?thesis using Cons by simp
  next
    case False
    then obtain b1 bp1 p1 where 1: "af_step K powf pos (b, bp, p) = Some (b1, bp1, p1)" "af_fine K powf ps (b1, bp1, p1) = Some (b', bp', p')"
      using Cons.prems(3) by (auto elim!: bind_SomeE)
    show ?thesis using af_step_isp [OF Cons.prems(1,2) 1(1)] Cons.IH [OF Cons.prems(1,2) 1(2)] same_isp_trans by blast
  qed
qed simp

lemma startAfScan_isp:
  assumes "errno_set K" "rejects_userptr K"
  shows "\<exists>p'. startAfScan K powf p = Some p' \<and> same_isp p p'"
proof (cases "mState p = PIPELINE_STREAMING")
  case False
  then show ?thesis by (simp add: startAfScan_def same_isp_def)
next
  case True
  obtain p1 where 1: "af_coarse K powf (positions 140 640 50) (0, 400, p\<lparr>mAfState := 1\<rparr>) = Some (0, 400, p1)"
    using af_sweeps_keep(1) [OF assms] by blast
  obtain p2 where 2: "af_fine K powf (positions 350 450 10) (0, 400, p1) = Some (0, 400, p2)"
    using af_sweeps_keep(2) [OF assms] by blast
  have "same_isp (p\<lparr>mAfState := 1\<rparr>) p2" using af_coarse_isp [OF assms 1] af_fine_isp [OF assms 2] same_isp_trans by blast
  then have "same_isp p (p2\<lparr>calls := c, mFocusPosition := v, mAfState := 4\<rparr>)" for c v by (simp add: same_isp_def)
  then show ?thesis using 1 2 True
    by (auto simp: startAfScan_def Let_def setFocus_def ask_eq same_isp_def)
qed

lemma af_control_ready:
  assumes "dev_ready P h0 n d" "errno_set (drv P)" "rejects_userptr (drv P)"
  shows "\<exists>d'. af_control P d = Some d' \<and> dev_ready P h0 n d'"
proof -
  have "\<exists>d'. af_control P d = Some d' \<and> (\<forall>p'. dev_pipeline d' = Some p' \<longrightarrow> isp_ready p')"
  proof (cases "dev_pipeline d")
    case None
    then show ?thesis by (simp add: af_control_def)
  next
    case (Some p)
    obtain p1 where p1: "startAfScan (drv P) (powf_fn P) p = Some p1" "same_isp p p1" using startAfScan_isp [OF assms(2,3)] by blast
    have "same_isp p (cancelAf (drv P) p)" by (auto simp: cancelAf_def same_isp_def setFocus_def ask_eq Let_def)
    then have "isp_ready p" "isp_ready p1" "isp_ready (cancelAf (drv P) p)"
      using dev_readyD(3) [OF assms(1) Some] p1(2) isp_ready_cong by blast+
    then show ?thesis using Some p1(1) by (simp add: af_control_def)
  qed
  then obtain d' where d': "af_control P d = Some d'" "\<And>p'. dev_pipeline d' = Some p' \<Longrightarrow> isp_ready p'" by blast
  note e = af_control_same [OF d'(1)]
  have "dev_ready P h0 n d'" using e d'(2) dev_readyD(2) [OF assms(1)] by (intro dev_ready_same [OF assms(1)]) simp_all
  then show ?thesis using d'(1) by blast
qed

lemma complete_request_ready:
  assumes "dev_ready P h0 n d" "complete_request P E f ok d = (d', evs)"
  shows "dev_ready P h0 n d'"
proof -
  note e = complete_request_effect [OF assms(2)]
  have "temp_rgba d' = temp_rgba d \<and> temp_rgba_size d' = temp_rgba_size d \<and> (\<forall>p'. dev_pipeline d' = Some p' \<longrightarrow> isp_ready p')"
  proof (cases "dev_pipeline d")
    case None
    then show ?thesis using assms(2) by (auto simp: complete_request_def Let_def result_values_def split: if_splits)
  next
    case (Some p)
    have "same_isp p (snd (getGain (drv P) (snd (getExposure (drv P) p))))"
      by (auto simp: getGain_def getExposure_def same_isp_def ask_eq Let_def)
    then have "isp_ready p" "isp_ready (snd (getGain (drv P) (snd (getExposure (drv P) p))))"
      using dev_readyD(3) [OF assms(1) Some] isp_ready_cong by blast+
    then show ?thesis using assms(2) Some
      by (auto simp: complete_request_def Let_def result_values_def case_prod_beta split: if_splits)
  qed
  then show ?thesis using e tracked_untrack [OF dev_readyD(2) [OF assms(1)], of f] by (intro dev_ready_same [OF assms(1)]) simp_all
qed

definition good_request :: "platform \<Rightarrow> nat \<Rightarrow> request_env \<times> capture_request \<Rightarrow> bool" where
  "good_request P n r \<longleftrightarrow> (\<forall>sb sbs. rq_buffers (snd r) = Some (sb # sbs) \<longrightarrow> request_ok P n (fst r) (sb_stream sb))"

lemma process_request_ready:
  assumes "dev_ready P h0 n d" "good_request P n (E, rq)" "frames_ok (drv P) n" "jpeg_contract (jlib P)"
    "errno_set (drv P)" "rejects_userptr (drv P)"
  shows "\<exists>ret out d' evs. process_request P E rq d = Some (ret, out, d', evs) \<and> dev_ready P h0 n d'"
proof (cases "is_initialized d \<and> callback_ops d \<noteq> None \<and> (\<exists>sb sbs. rq_buffers rq = Some (sb # sbs))")
  case False
  then show ?thesis using assms(1) by (auto simp: process_request_def Let_def split: option.split list.split)
next
  case True
  then obtain sb sbs where g: "is_initialized d" "callback_ops d \<noteq> None" "rq_buffers rq = Some (sb # sbs)" by blast
  define d0 where "d0 = apply_settings (rq_settings rq) (track (rq_frame rq) (sb_buffer sb) d)"
  have tr: "\<exists>t. inflight_tracker d0 = Some t \<and> tracker_inv t"
    using dev_readyD(2) [OF assms(1)] by (auto simp: d0_def track_def tracker_inv_add)
  have "dev_ready P h0 n d0"
  proof (rule dev_ready_same [OF assms(1) _ tr])
    show "same_device d d0" using same_device_trans [of d "track (rq_frame rq) (sb_buffer sb) d" d0] by (simp add: d0_def)
  qed (use dev_readyD(3) [OF assms(1)] in \<open>auto simp: d0_def track_def apply_settings_def Let_def split: option.splits\<close>)
  then obtain d1 where d1: "af_control P d0 = Some d1" "dev_ready P h0 n d1" using af_control_ready [OF _ assms(5,6)] by blast
  obtain c out d2 evs where d2: "restart_and_capture P E (sb_stream sb) (rq_frame rq) d1 = Some (c, out, d2, evs)" "dev_ready P h0 n d2"
    using restart_ready [OF d1(2) _ assms(3,4), of E "sb_stream sb" "rq_frame rq"] assms(2) g(3) by (auto simp: good_request_def)
  obtain d3 evs' where d3: "complete_request P E (rq_frame rq) (c = Captured True) d2 = (d3, evs')"
    by (cases "complete_request P E (rq_frame rq) (c = Captured True) d2")
  have "\<exists>ret out d' evs. process_request P E rq d = Some (ret, out, d', evs) \<and>
      (d' = untrack (rq_frame rq) d \<or> d' = untrack (rq_frame rq) d1 \<or> d' = d2 \<or> d' = d3)"
    using g d1(1) d2(1) d3 by (cases c) (auto simp: process_request_def Let_def d0_def [symmetric] case_prod_beta)
  then show ?thesis using d1(2) d2(2) complete_request_ready [OF d2(2) d3] dev_ready_untrack assms(1) by blast
qed

lemma process_all_ready:
  "dev_ready P h0 n d \<Longrightarrow> \<forall>r \<in> set rs. good_request P n r \<Longrightarrow> frames_ok (drv P) n \<Longrightarrow> jpeg_contract (jlib P) \<Longrightarrow>
    errno_set (drv P) \<Longrightarrow> rejects_userptr (drv P) \<Longrightarrow> \<exists>d' evs. process_all P rs d = Some (d', evs) \<and> dev_ready P h0 n d'"
proof (induction rs arbitrary: d)
  case (Cons r rs)
  obtain E rq where r: "r = (E, rq)" by (cases r)
  obtain ret out d1 evs where 1: "process_request P E rq d = Some (ret, out, d1, evs)" "dev_ready P h0 n d1"
    using process_request_ready [OF Cons.prems(1) _ Cons.prems(3-6), of E rq] Cons.prems(2) r by auto
  show ?case using Cons.IH [OF 1(2)] Cons.prems 1(1) r by auto
qed simp

lemma reconfigure_ready:
  assumes "dev_inv P h0 d" "callback_ops d \<noteq> None" "four_buffers (drv P)" "errno_set (drv P)" "frame_size_ok (st_width s) (st_height s)"
    "\<forall>b. temp_rgba d = Some b \<longrightarrow> length b = unat (temp_rgba_size d)"
  shows "\<exists>ret ss' d' evs. reconfigure P ss s out d = Some (ret, ss', d', evs) \<and>
    (ret = 0 \<longrightarrow> dev_ready P h0 (unat (st_width s) * unat (st_height s)) d')"
proof -
  obtain t where t: "inflight_tracker d = Some t" "tracker_inv t" using dev_invD(3) [OF assms(1)] by blast
  have "drain_inflight d \<noteq> None" using t(1) assms(2) by (auto simp: drain_inflight_def case_prod_beta Let_def)
  then obtain d1 evs where 1: "drain_inflight d = Some (d1, evs)" by auto
  have d1: "d1 = d\<lparr>inflight_tracker := Some []\<rparr>" using drain_inflight_effect [OF 1 t] by simp
  define d2 where "d2 = close_previous (drv P) d1"
  have "dev_inv P h0 d1" using assms(1) d1 tracker_inv_new by (simp add: dev_inv_def tracker_new_def)
  then have d2: "live (drv P) (vlog d2) = live (drv P) h0" using close_previous_effect [of P h0 d1] by (simp add: d2_def)
  have tm: "temp_rgba d2 = temp_rgba d" "temp_rgba_size d2 = temp_rgba_size d" using d1
    by (simp_all add: d2_def close_previous_def split: option.split)
  show ?thesis
  proof (cases "open_pipeline P d2")
    case (Inr l)
    then show ?thesis using 1 by (simp add: reconfigure_def d2_def errno_defs)
  next
    case (Inl p)
    have p: "pl_inv (drv P) h0 p" "mBufferCount p = 0" using open_pipeline_effect(1) [OF d2 Inl] by simp_all
    have "mAwbGains p = [1, 1, 1, 1]" "mLastGamma p = 0"
      using Inl by (auto simp: open_pipeline_def Let_def case_prod_beta pl_open_def CameraPipeline_new_def ask_eq initFocuser_def split: if_splits)
    from configure_ready [OF assms(5) refl p assms(3) this assms(4)]
    obtain r q where q: "configure (drv P) (powf_fn P) (fresh P) (stream_config (camera_id d2) (st_width s) (st_height s)) p = Some (r, q)"
      "r = 0 \<longrightarrow> isp_ready q" by blast
    obtain r2 q2 where q2: "startStreaming (drv P) q = (r2, q2)" by (cases "startStreaming (drv P) q")
    have i: "r = 0 \<longrightarrow> isp_ready q2" using startStreaming_effect [OF q2] isp_ready_cong [of q q2] q(2) by simp
    have "\<exists>ret ss' d'. reconfigure P ss s out d = Some (ret, ss', d', evs) \<and>
        (ret = 0 \<longrightarrow> r = 0 \<and> dev_pipeline d' = Some q2 \<and> pipeline_width d' = st_width s \<and> pipeline_height d' = st_height s \<and>
           temp_rgba d' = temp_rgba d2 \<and> temp_rgba_size d' = temp_rgba_size d2)"
      using 1 Inl q(1) q2 by (cases "r = 0"; cases "r2 = 0") (simp_all add: reconfigure_def d2_def [symmetric] start_pipeline_def)
    then obtain ret ss' d' where R: "reconfigure P ss s out d = Some (ret, ss', d', evs)"
        "ret = 0 \<longrightarrow> r = 0 \<and> dev_pipeline d' = Some q2 \<and> pipeline_width d' = st_width s \<and> pipeline_height d' = st_height s \<and>
           temp_rgba d' = temp_rgba d2 \<and> temp_rgba_size d' = temp_rgba_size d2" by blast
    have "dev_inv P h0 d'" using reconfigure_effect [OF R(1) assms(1) t(1) assms(3,4)] by simp
    then show ?thesis using R i assms(5,6) tm by (auto simp: dev_ready_def)
  qed
qed

lemma opened_inv: "openCamera i h0 j = (0, Some d) \<Longrightarrow> dev_inv P h0 d \<and> temp_rgba d = None \<and> callback_ops d = None \<and> inflight_tracker d = Some []"
  by (auto simp: openCamera_def camera_device_init_def dev_inv_def tracker_new_def tracker_inv_new [unfolded tracker_new_def] split: if_splits)

lemma initialize_keeps:
  "camera_device_initialize (Some d) ops = (r, Some d') \<Longrightarrow> dev_inv P h0 d \<Longrightarrow> dev_inv P h0 d'"
  by (auto simp: camera_device_initialize_def dev_inv_def split: option.splits)

lemma configure_streams_run:
  assumes "\<not> invalid_streams streams" "first_choice (numbered 0 streams) = Some i" "\<not> same_configuration (streams ! i) d"
  obtains ss out where "configure_streams P (Some d) (Some streams) =
      map_option (\<lambda>(ret, ss, d, evs). (ret, Some ss, Some d, evs)) (reconfigure P ss (ss ! i) out d)"
    "st_width (ss ! i) = st_width (streams ! i)" "st_height (ss ! i) = st_height (streams ! i)"
proof -
  let ?c0 = "\<lparr>pipelineStream = None, outputStream = None, rgbaStream = None\<rparr>"
  obtain ss r where 1: "scan_streams 0 streams ?c0 = (ss, r)" by (cases "scan_streams 0 streams ?c0")
  have "r \<noteq> None" using scan_rejects [of 0 streams ?c0] 1 assms(1) by (auto simp: invalid_streams_def)
  then obtain c where c: "r = Some c" by blast
  have ch: "chosen c = Some i" using scan_chosen [of ?c0 0 streams ss c] 1 c assms(2) by simp
  have sz: "st_width (ss ! i) = st_width (streams ! i)" "st_height (ss ! i) = st_height (streams ! i)"
    using scan_sizes [OF 1] first_choice_nth [OF assms(2)] by simp_all
  then have "\<not> same_configuration (ss ! i) d" using assms(3) by (simp add: same_configuration_def)
  then show thesis using that [of ss "outputStream c"] sz 1 c ch assms(1)
    by (simp add: configure_streams_def invalid_streams_def chosen_def)
qed

section \<open>The steps of the device\<close>

inductive hal_step :: "platform \<Rightarrow> camera_device \<Rightarrow> camera_device \<Rightarrow> bool" for P where
  hal_initialize: "camera_device_initialize (Some d) ops = (r, Some d') \<Longrightarrow> hal_step P d d'"
| hal_configure: "configure_streams P (Some d) config = Some (r, config', Some d', evs) \<Longrightarrow> hal_step P d d'"
| hal_request: "process_capture_request P E (Some d) request = Some (r, out, Some d', evs) \<Longrightarrow> hal_step P d d'"
| hal_flush: "camera_device_flush (drv P) (Some d) = (r, Some d') \<Longrightarrow> hal_step P d d'"

lemma configure_streams_inv:
  assumes "configure_streams P (Some d) config = Some (r, config', Some d', evs)" "dev_inv P h0 d" "four_buffers (drv P)" "errno_set (drv P)"
  shows "dev_inv P h0 d'"
proof (cases config)
  case None
  then show ?thesis using assms(1,2) by (simp add: configure_streams_def)
next
  case (Some streams)
  obtain t where t: "inflight_tracker d = Some t" using dev_invD(3) [OF assms(2)] by blast
  show ?thesis
  proof (cases "d' = d")
    case False
    then obtain ss s out ss' where "reconfigure P ss s out d = Some (r, ss', d', evs)"
      using assms(1) Some by (auto simp: configure_streams_def split: if_splits option.splits prod.splits)
    then show ?thesis using reconfigure_effect [OF _ assms(2) t assms(3,4)] by blast
  qed (use assms(2) in simp)
qed

lemma hal_step_inv:
  assumes "hal_step P d d'" "dev_inv P h0 d" "four_buffers (drv P)" "errno_set (drv P)"
  shows "dev_inv P h0 d'"
  using assms(1)
proof cases
  case (hal_request E request r out evs)
  show ?thesis
  proof (cases request)
    case None
    then show ?thesis using hal_request assms(2) by (simp add: process_capture_request_def)
  next
    case (Some rq)
    then show ?thesis using hal_request process_request_inv [of P E rq d r out d' evs h0] assms(2)
      by (auto simp: process_capture_request_def)
  qed
qed (use assms(2-) initialize_keeps configure_streams_inv flush_inv in fastforce)+

lemma hal_reach_inv: "(hal_step P)\<^sup>*\<^sup>* d d' \<Longrightarrow> dev_inv P h0 d \<Longrightarrow> four_buffers (drv P) \<Longrightarrow> errno_set (drv P) \<Longrightarrow> dev_inv P h0 d'"
  by (induction rule: rtranclp_induct) (auto intro: hal_step_inv)

end
