(* ===== verification/CameraHALTheorems.thy ===== *)
theory CameraHALTheorems
  imports CameraHALSafety
begin

text \<open>
  The properties of the camera device with a concrete run for each: the platform of the runs is a
  driver that answers every call as V4L2 documents, with black frames of 12 by 3 pixels.
\<close>

section \<open>A platform for concrete runs\<close>

definition hal_driver :: driver where
  "hal_driver h c =
     (case c of VDQBuf fd USERPTR \<Rightarrow> no_ans\<lparr>r_ret := -1, r_errno := 22\<rparr> | VReqBufs fd n \<Rightarrow> no_ans\<lparr>r_count := 2\<rparr> | _ \<Rightarrow> test_frames h c)"

definition test_platform :: platform where
  "test_platform = \<lparr> drv = hal_driver, powf_fn = \<lambda>_ _. 0, fresh = \<lambda>_. 0, fresh_cfg = test_config, fresh_id = 0, fresh_lut = [],
     mdlib = test_mlib, jlib = test_jpeglib, blob_bytes = \<lambda>n. replicate 8 0 \<rparr>"

lemma hal_driver_contract: "four_buffers hal_driver" "errno_set hal_driver" "rejects_userptr hal_driver" "frames_ok hal_driver 36"
proof -
  show "four_buffers hal_driver" by (simp add: four_buffers_def hal_driver_def no_ans_def)
  show "errno_set hal_driver"
    by (simp add: errno_set_def hal_driver_def test_frames_def test_driver_def no_ans_def split: vcall.split memory.split)
  show "rejects_userptr hal_driver" by (simp add: rejects_userptr_def hal_driver_def no_ans_def)
  have "ten_bit (replicate 72 0) 36" by (simp add: ten_bit_def sample16_def)
  then show "frames_ok hal_driver 36" by (simp add: frames_ok_def hal_driver_def test_frames_def)
qed

lemma test_platform_simps [simp]:
  "drv test_platform = hal_driver" "jlib test_platform = test_jpeglib" "powf_fn test_platform = (\<lambda>_ _. 0)"
  "fresh test_platform = (\<lambda>_. 0)" "blob_bytes test_platform = (\<lambda>n. replicate 8 0)" "mdlib test_platform = test_mlib"
  by (simp_all add: test_platform_def)

definition opened :: camera_device where
  "opened = camera_device_init [] []"

definition ready :: camera_device where
  "ready = opened\<lparr>callback_ops := Some True, is_initialized := True\<rparr>"

lemma opened_run: "openCamera 0 [] [] = (0, Some opened)" "camera_device_initialize (Some opened) (Some True) = (0, Some ready)"
  by (simp_all add: openCamera_def kNumCameras_def kCameras_def opened_def ready_def camera_device_initialize_def camera_device_init_def)

definition rgba_stream :: camera3_stream where
  "rgba_stream = \<lparr> st_type = CAMERA3_STREAM_OUTPUT, st_width = 12, st_height = 3, st_format = HAL_PIXEL_FORMAT_RGBA_8888, max_buffers = 0 \<rparr>"

definition test_request :: capture_request where
  "test_request = \<lparr> rq_frame = 7, rq_settings = None,
     rq_buffers = Some [\<lparr> sb_buffer = Some 1, sb_stream = rgba_stream, acquire_fence = -1 \<rparr>] \<rparr>"

definition test_env :: request_env where
  "test_env = \<lparr> end_sec = 1, end_nsec = 2, gralloc_found = True, gralloc_lock = (0, Some (replicate 144 0)),
     gralloc_lock_ycbcr = (0, None), malloc_rgba = True, malloc_row = True \<rparr>"

lemma map_two: "map_buffers K 2 0 p = map_buffers K (Suc (Suc 0)) 0 p" "queue_buffers K 2 0 p = queue_buffers K (Suc (Suc 0)) 0 p"
  by (simp_all add: numeral_2_eq_2)

lemma test_isp: "\<exists>q. configure_isp (\<lambda>_. 0) (stream_config 0 12 3) p = Some (0, q) \<and> same_core p q"
  by (simp add: configure_isp_def initialize_def stream_config_def Let_def DemosaicNEON_new_def realloc_buf_def cc_initialize_def
    ColorConvNEON_new_def same_core_def)

lemma test_open: "\<exists>p. open_pipeline test_platform ready = Inl p \<and> mState p = PIPELINE_OPENED \<and> mFd p = 0 \<and> mBuffers p = replicate 4 no_buffer"
  by (simp add: open_pipeline_def test_platform_def ready_def opened_def camera_device_init_def pl_open_def ask_eq Let_def
      CameraPipeline_new_def hal_driver_def test_frames_def test_driver_def no_ans_def initFocuser_def)

lemma hal_answers [simp]:
  "r_ret (hal_driver h (VSetFmt a b c d)) = 0" "r_ret (hal_driver h (VReqBufs a n)) = 0" "r_count (hal_driver h (VReqBufs a n)) = 2"
  "r_ret (hal_driver h (VQueryBuf a n)) = 0" "r_ret (hal_driver h (VMmap a n m)) = 0" "r_ret (hal_driver h (VQBuf a n MMAP)) = 0"
  "r_ret (hal_driver h (VStreamOn a)) = 0" "r_ret (hal_driver h (VPoll a k)) = 1" "r_ret (hal_driver h (VDQBuf a MMAP)) = 0"
  "r_index (hal_driver h (VDQBuf a MMAP)) = 0" "r_pollin (hal_driver h (VPoll a k))"
  by (simp_all add: hal_driver_def test_frames_def test_driver_def no_ans_def)

lemma poll6: "poll_retry hal_driver 6 p = (Inr (), p\<lparr>calls := calls p @ [VPoll (mFd p) 300]\<rparr>)"
proof -
  have "poll_retry hal_driver (Suc n) p = (Inr (), p\<lparr>calls := calls p @ [VPoll (mFd p) 300]\<rparr>)" for n by (simp add: ask_eq Let_def)
  from this [of 5] show ?thesis by simp
qed

lemma test_start: "mState p = PIPELINE_OPENED \<Longrightarrow> mBufferCount p = 2 \<Longrightarrow> fst (startStreaming hal_driver p) = 0"
  by (simp add: startStreaming_def ask_eq Let_def map_two case_prod_beta)

lemma test_configure:
  assumes "mState p = PIPELINE_OPENED" "mFd p = 0" "mBuffers p = replicate 4 no_buffer"
  shows "\<exists>q. configure hal_driver (\<lambda>_ _. 0) (\<lambda>_. 0) (stream_config 0 12 3) p = Some (0, q) \<and> mState q = PIPELINE_OPENED \<and> mBufferCount q = 2"
proof -
  have e: "cfg_enableISP (stream_config 0 12 3)" by (simp add: stream_config_def)
  obtain f where f: "configure_isp (\<lambda>_. 0) (stream_config 0 12 3) p = Some (0, f p)" "same_core p (f p)" for p
    using test_isp by metis
  have s: "mState (f p) = mState p" "mBufferCount (f p) = mBufferCount p" for p using f(2) [of p] by (simp_all add: same_core_def)
  show ?thesis using assms by (simp add: configure_def ask_eq Let_def map_two configure_rest_def e f(1) s)
qed

lemma test_configured: "\<exists>ss d'. configure_streams test_platform (Some ready) (Some [rgba_stream]) = Some (0, ss, Some d', [])"
proof -
  obtain p where p: "open_pipeline test_platform ready = Inl p" "mState p = PIPELINE_OPENED" "mFd p = 0" "mBuffers p = replicate 4 no_buffer"
    using test_open by blast
  obtain q where q: "configure hal_driver (\<lambda>_ _. 0) (\<lambda>_. 0) (stream_config 0 12 3) p = Some (0, q)" "mState q = PIPELINE_OPENED" "mBufferCount q = 2"
    using test_configure [OF p(2-4)] by blast
  obtain q2 where q2: "startStreaming hal_driver q = (0, q2)" using test_start [OF q(2,3)] by (cases "startStreaming hal_driver q") simp
  have d: "drain_inflight ready = Some (ready, [])" "close_previous hal_driver ready = ready" "camera_id ready = 0"
    by (simp_all add: drain_inflight_def close_previous_def ready_def opened_def camera_device_init_def tracker_defs)
  have "\<not> same_configuration (rgba_stream\<lparr>max_buffers := 2\<rparr>) ready"
    by (simp add: same_configuration_def ready_def opened_def camera_device_init_def)
  then show ?thesis using p(1) q(1) q2 d
    by (simp add: configure_streams_def rgba_stream_def choose_stream_def Let_def hal_formats reconfigure_def start_pipeline_def)
qed

section \<open>Properties\<close>

text \<open>C5. From opening the camera on: when the camera is opened, initialised and configured with valid
  streams, with an output stream among them that is not BLOB, and the stream that sizes the pipeline
  has a size the image processor and the JPEG library accept (3 to 65500 each way, less than
  \<open>2 ^ 29\<close> pixels), the configuration returns. After it returned 0, every sequence of requests with
  the following buffers, with whatever settings, autofocus triggers and driver errors, is processed
  without leaving a buffer, following a null pointer or ending the process. The first buffer of a
  request is of an RGBA stream and locks to at least 4 bytes per pixel of the size of the pipeline,
  or it is of a BLOB stream and locks to at least 2 bytes per pixel of that stream, which hold the
  trailer and, without a request for more room, the JPEG image of any picture of the size of the
  pipeline. The code checks none of this: it writes a picture of the pipeline's size into every
  buffer, so a smaller RGBA stream beside the first is overrun. The theorem also rests on the driver
  granting at most four buffers, delivering full ten-bit frames, reporting errors through \<open>errno\<close>
  and refusing user pointers, and on the contract of the JPEG library.\<close>

theorem configured_requests_safe:
  assumes "openCamera cameraId h0 j0 = (0, Some dev0)" "camera_device_initialize (Some dev0) (Some notify) = (0, Some dev)"
    and "\<not> invalid_streams streams" "first_choice (numbered 0 streams) = Some i" "s = streams ! i"
    and "frame_size_ok (st_width s) (st_height s)" "n = unat (st_width s) * unat (st_height s)"
    and "four_buffers (drv P)" "errno_set (drv P)" "rejects_userptr (drv P)" "frames_ok (drv P) n" "jpeg_contract (jlib P)"
    and "\<forall>r \<in> set rs. good_request P n r"
  shows "\<exists>ret streams' dev1 evs. configure_streams P (Some dev) (Some streams) = Some (ret, streams', Some dev1, evs) \<and>
    (ret = 0 \<longrightarrow> (\<exists>dev2 evs'. process_all P rs dev1 = Some (dev2, evs') \<and> dev_ready P h0 n dev2))"
proof -
  have d: "dev_inv P h0 dev" "temp_rgba dev = None" "callback_ops dev \<noteq> None" "dev_pipeline dev = None"
    using opened_inv [OF assms(1), of P] assms(1,2) initialize_keeps [OF assms(2), of P h0]
    by (auto simp: camera_device_initialize_def openCamera_def camera_device_init_def split: if_splits)
  have "\<not> same_configuration (streams ! i) dev" using d(4) by (simp add: same_configuration_def)
  from configure_streams_run [OF assms(3,4) this, of P] obtain ss out where c: "configure_streams P (Some dev) (Some streams) =
      map_option (\<lambda>(ret, ss, d, evs). (ret, Some ss, Some d, evs)) (reconfigure P ss (ss ! i) out dev)"
    and sz: "st_width (ss ! i) = st_width s" "st_height (ss ! i) = st_height s" unfolding assms(5) by blast
  have "frame_size_ok (st_width (ss ! i)) (st_height (ss ! i))" using assms(6) sz by simp
  then obtain ret ss' d' evs where r: "reconfigure P ss (ss ! i) out dev = Some (ret, ss', d', evs)" "ret = 0 \<longrightarrow> dev_ready P h0 n d'"
    using reconfigure_ready [OF d(1,3) assms(8,9), of "ss ! i" ss out] d(2) sz assms(7) by auto
  have "ret = 0 \<Longrightarrow> \<exists>dev2 evs'. process_all P rs d' = Some (dev2, evs') \<and> dev_ready P h0 n dev2"
    using process_all_ready [OF _ assms(13) assms(11,12,9,10)] r(2) by blast
  then show ?thesis using c r(1) by auto
qed

theorem configured_requests_safe_witness:
  "\<exists>streams' dev1 evs. configure_streams test_platform (Some ready) (Some [rgba_stream]) = Some (0, streams', Some dev1, evs) \<and>
    (\<exists>dev2 evs'. process_all test_platform [(test_env, test_request), (test_env, test_request)] dev1 = Some (dev2, evs') \<and>
       dev_ready test_platform [] 36 dev2)"
proof -
  have v: "\<not> invalid_streams [rgba_stream]" "first_choice (numbered 0 [rgba_stream]) = Some 0"
    by (simp_all add: invalid_streams_def rgba_stream_def sized_by_def hal_formats)
  have z: "rgba_stream = [rgba_stream] ! 0" "frame_size_ok (st_width rgba_stream) (st_height rgba_stream)"
      "36 = unat (st_width rgba_stream) * unat (st_height rgba_stream)"
    by (simp_all add: rgba_stream_def frame_size_ok_def)
  have r: "\<forall>r \<in> set [(test_env, test_request), (test_env, test_request)]. good_request test_platform 36 r"
    by (simp add: good_request_def request_ok_def test_request_def test_env_def rgba_stream_def)
  have k: "four_buffers (drv test_platform)" "errno_set (drv test_platform)" "rejects_userptr (drv test_platform)"
      "frames_ok (drv test_platform) 36" "jpeg_contract (jlib test_platform)"
    using hal_driver_contract test_jpeglib_contract by simp_all
  obtain ret ss d evs where c: "configure_streams test_platform (Some ready) (Some [rgba_stream]) = Some (ret, ss, Some d, evs)"
    and p: "ret = 0 \<longrightarrow> (\<exists>dev2 evs'. process_all test_platform [(test_env, test_request), (test_env, test_request)] d = Some (dev2, evs') \<and>
       dev_ready test_platform [] 36 dev2)"
    using configured_requests_safe [OF opened_run v z k r] by blast
  have "ret = 0" using c test_configured by auto
  then show ?thesis using c p by blast
qed

text \<open>C6. The framework gets exactly one answer for every request an initialised device accepts. When
  the call returns 0, the last event is the one result for the frame, with one buffer, after
  exactly one notification: the shutter when the buffer is valid, an error otherwise. When it
  returns an error there is no callback at all. In both cases the frame is no longer in flight and
  no other frame is touched.\<close>

theorem request_answered_once:
  assumes "dev_inv P h0 dev" "is_initialized dev" "callback_ops dev = Some True" "rq_buffers rq = Some (sb # sbs)"
    and "process_capture_request P E (Some dev) (Some rq) = Some (ret, out, device', evs)"
  shows "\<exists>dev' t t'. device' = Some dev' \<and> inflight_tracker dev = Some t \<and> inflight_tracker dev' = Some t' \<and>
    in_flight t' = in_flight t - {rq_frame rq} \<and>
    (ret \<noteq> 0 \<longrightarrow> (\<forall>e \<in> set evs. \<not> callback e)) \<and>
    (ret = 0 \<longrightarrow> (\<exists>pre md st. (\<forall>e \<in> set pre. \<not> callback e) \<and>
       evs = pre @ [if st = CAMERA3_BUFFER_STATUS_OK then NotifyShutter (rq_frame rq) (end_sec E * 1000000000 + end_nsec E)
                    else NotifyError (rq_frame rq), CaptureResult (rq_frame rq) md (Some st) 1]))"
proof -
  let ?f = "rq_frame rq"
  obtain d' where d': "device' = Some d'" "process_request P E rq dev = Some (ret, out, d', evs)"
    using assms(5) by (auto simp: process_capture_request_def)
  obtain t where t: "inflight_tracker dev = Some t" "tracker_inv t" using dev_invD(3) [OF assms(1)] by blast
  have cb: "callback_ops dev \<noteq> None" using assms(3) by simp
  have gone: "\<exists>t'. inflight_tracker (untrack ?f d1) = Some t' \<and> in_flight t' = in_flight t - {?f}"
    if "inflight_tracker d1 = Some t1" "tracker_inv t1" "in_flight t1 = insert ?f (in_flight t)" for d1 t1
    using in_flight_untrack [OF that(1,2), of ?f] that(3) by auto
  from d'(2) assms(2) cb assms(4) show ?thesis
  proof (rule process_requestE)
    assume "ret = -EAGAIN" "d' = untrack ?f dev" "evs = []"
    then show ?thesis using d'(1) t in_flight_untrack [OF t, of ?f] by (auto simp: errno_defs)
  next
    fix d1 assume a: "af_control P (apply_settings (rq_settings rq) (track ?f (sb_buffer sb) dev)) = Some d1"
      "ret = -EINVAL" "d' = untrack ?f d1" "evs = []"
    then show ?thesis using request_device [OF a(1) t] gone d'(1) t by (fastforce simp: errno_defs)
  next
    fix d1 e d2 evs1 assume a: "af_control P (apply_settings (rq_settings rq) (track ?f (sb_buffer sb) dev)) = Some d1"
      "restart_and_capture P E (sb_stream sb) ?f d1 = Some (Return e, out, d', evs1)" "ret = e"
      "evs = wait_fence (acquire_fence sb) @ evs1"
    have r: "inflight_tracker d' = inflight_tracker (untrack ?f d1)" "\<forall>e \<in> set evs1. \<not> callback e" "e < 0"
      using restart_tracker [OF a(2)] by simp_all
    then have "\<forall>e \<in> set evs. \<not> callback e" using a(4) wait_fence_quiet by auto
    then show ?thesis using request_device [OF a(1) t] gone [of d1] r d'(1) t a(3) by fastforce
  next
    fix d1 ok d2 evs1 evs2 assume a: "af_control P (apply_settings (rq_settings rq) (track ?f (sb_buffer sb) dev)) = Some d1"
      "restart_and_capture P E (sb_stream sb) ?f d1 = Some (Captured ok, out, d2, evs1)"
      "complete_request P E ?f ok d2 = (d', evs2)" "ret = 0" "evs = (wait_fence (acquire_fence sb) @ evs1) @ evs2"
    obtain t1 where t1: "same_device dev d1" "inflight_tracker d1 = Some t1" "tracker_inv t1"
        "in_flight t1 = insert ?f (in_flight t)" "\<not> isError ?f t1"
      using request_device [OF a(1) t] by blast
    have r: "inflight_tracker d2 = Some t1" "callback_ops d2 = Some True" "\<forall>e \<in> set evs1. \<not> callback e"
      using restart_tracker [OF a(2)] t1 assms(3) by (simp_all add: same_device_def same_set_up_def)
    have "\<not> flushed ?f d2" using r(1) t1(5) by (simp add: flushed_def)
    moreover have "\<exists>t'. inflight_tracker d' = Some t' \<and> in_flight t' = in_flight t - {?f}"
      using complete_request_effect [OF a(3)] gone [OF r(1) t1(3,4)] by simp
    moreover have "\<forall>e \<in> set (wait_fence (acquire_fence sb) @ evs1). \<not> callback e" using r(3) wait_fence_quiet by auto
    ultimately show ?thesis using complete_request_effect [OF a(3)] r(2) d'(1) t a(4,5)
      by (cases ok) (fastforce simp: r(2))+
  qed
qed

theorem request_answered_once_witness:
  "process_capture_request test_platform test_env (Some ready) (Some test_request) =
     Some (0, None, Some ready, [NotifyError 7, CaptureResult 7 None (Some CAMERA3_BUFFER_STATUS_ERROR) 1]) \<and>
   (\<exists>t'. inflight_tracker ready = Some t' \<and> 7 \<notin> in_flight t')"
proof -
  have inv: "dev_inv test_platform [] ready" using opened_run initialize_keeps opened_inv by blast
  have run: "process_capture_request test_platform test_env (Some ready) (Some test_request) =
      Some (0, None, Some ready, [NotifyError 7, CaptureResult 7 None (Some CAMERA3_BUFFER_STATUS_ERROR) 1])"
    by (simp add: process_capture_request_def process_request_def test_request_def ready_def opened_def camera_device_init_def flushed_def
        apply_settings_def track_def untrack_def af_control_def restart_and_capture_def wait_fence_def complete_request_def Let_def
        tracker_defs om_erase_def)
  have g: "is_initialized ready" "callback_ops ready = Some True" by (simp_all add: ready_def)
  have b: "rq_buffers test_request = Some (\<lparr> sb_buffer = Some 1, sb_stream = rgba_stream, acquire_fence = -1 \<rparr> # [])"
    by (simp add: test_request_def)
  have f: "rq_frame test_request = 7" by (simp add: test_request_def)
  obtain dev' t' where "Some ready = Some dev'" "inflight_tracker dev' = Some t'" "7 \<notin> in_flight t'"
    using request_answered_once [OF inv g b run] unfolding f by blast
  then show ?thesis using run by auto
qed

text \<open>C7. A call that configures streams and returns, on a device that holds its invariant, with a driver
  that grants at most four buffers and reports errors through \<open>errno\<close>. (With no output stream but
  BLOB streams the call does not return: it follows a null pointer.) An empty list, one of more than
  20 streams and one with a stream without a size are refused with \<open>-EINVAL\<close>, the device unchanged and
  no callback; the output streams before the one without a size have got \<open>max_buffers\<close> 2 by then.
  Otherwise every output stream gets it, and the pipeline is sized by the first output stream that is
  not BLOB, also when it is a YUV stream and an RGBA stream follows; only when the first is
  \<open>IMPLEMENTATION_DEFINED\<close> and the next one RGBA the latter is taken. When the device
  already streams at that size nothing else happens; else every frame in flight is completed once,
  in increasing order, and the call ends either with a pipeline that streams at that size and code
  0, or with an error code, no pipeline, and every mapping released; the \<open>IMPLEMENTATION_DEFINED\<close>
  streams are made RGBA unless the pipeline could not be opened.\<close>

theorem configure_streams_outcome:
  assumes "dev_inv P h0 dev" "inflight_tracker dev = Some t" "four_buffers (drv P)" "errno_set (drv P)"
    and "configure_streams P (Some dev) (Some streams) = Some (ret, streams', device', evs)"
  shows "\<exists>dev'. device' = Some dev' \<and> dev_inv P h0 dev' \<and>
    (invalid_streams streams \<and> ret = -EINVAL \<and> dev' = dev \<and> evs = [] \<and>
       streams' = Some (if length streams > 20 then streams else scanned streams) \<or>
     (\<exists>i. \<not> invalid_streams streams \<and> first_choice (numbered 0 streams) = Some i \<and> i < length streams \<and>
       (ret = 0 \<and> dev' = dev \<and> evs = [] \<and> same_configuration (streams ! i) dev \<and> streams' = Some (map prepared streams) \<or>
        \<not> same_configuration (streams ! i) dev \<and>
        reconfigured P h0 (st_width (streams ! i)) (st_height (streams ! i)) ret dev' \<and>
        evs = drain_results (sorted_list_of_set (in_flight t)) \<and>
        (streams' = Some (map override_format (map prepared streams)) \<or> ret = -ENODEV \<and> streams' = Some (map prepared streams)))))"
proof -
  let ?c0 = "\<lparr>pipelineStream = None, outputStream = None, rgbaStream = None\<rparr>"
  obtain ss r where 1: "scan_streams 0 streams ?c0 = (ss, r)" by (cases "scan_streams 0 streams ?c0")
  have r: "r = None \<longleftrightarrow> (\<exists>s \<in> set streams. st_width s = 0 \<or> st_height s = 0)" using scan_rejects [of 0 streams ?c0] 1 by simp
  have ss: "ss = scanned streams" by (rule scan_list [OF 1])
  consider "ret = -EINVAL" "device' = Some dev" "evs = []" "invalid_streams streams"
      "streams' = Some (if length streams > 20 then streams else ss)"
    | c i where "\<not> invalid_streams streams" "r = Some c" "chosen c = Some i"
      "(if same_configuration (ss ! i) dev then Some (0, Some ss, Some dev, [])
        else map_option (\<lambda>(ret, streams, dev, evs). (ret, Some streams, Some dev, evs))
               (reconfigure P ss (ss ! i) (outputStream c) dev)) = Some (ret, streams', device', evs)"
    using assms(5) 1 r by (auto simp: configure_streams_def chosen_def invalid_streams_def split: if_splits option.splits)
  then show ?thesis
  proof cases
    case 1
    then show ?thesis using assms(1) ss by blast
  next
    case (2 c i)
    have ss': "ss = map prepared streams" using scanned_valid [of streams] 2(1) ss by (auto simp: invalid_streams_def)
    have i: "first_choice (numbered 0 streams) = Some i" using scan_chosen [of ?c0 0 streams ss c] 1 2(2,3) by simp
    then have il: "i < length streams" using first_choice_nth by blast
    have sz: "st_width (ss ! i) = st_width (streams ! i)" "st_height (ss ! i) = st_height (streams ! i)"
      using scan_sizes [OF 1] il by simp_all
    then have sc: "same_configuration (ss ! i) dev = same_configuration (streams ! i) dev" by (simp add: same_configuration_def)
    show ?thesis
    proof (cases "same_configuration (ss ! i) dev")
      case True
      then show ?thesis using 2(1,4) i il sc assms(1) ss' by auto
    next
      case False
      then obtain ss2 d' where r: "reconfigure P ss (ss ! i) (outputStream c) dev = Some (ret, ss2, d', evs)" "device' = Some d'" "streams' = Some ss2"
        using 2(4) by auto
      have E: "dev_inv P h0 d'" "reconfigured P h0 (st_width (streams ! i)) (st_height (streams ! i)) ret d'"
          "evs = drain_results (sorted_list_of_set (in_flight t))" "ss2 = map override_format ss \<or> ret = -ENODEV \<and> ss2 = ss"
        using reconfigure_effect [OF r(1) assms(1-4)] sz by simp_all
      have "\<not> same_configuration (streams ! i) dev" using False sc by simp
      then show ?thesis using E r(2,3) i il 2(1) unfolding ss' by blast
    qed
  qed
qed

theorem configure_streams_outcome_witness:
  "\<exists>streams' dev' evs. configure_streams test_platform (Some ready) (Some [rgba_stream]) = Some (0, streams', Some dev', evs) \<and>
    reconfigured test_platform [] 12 3 0 dev'"
proof -
  have inv: "dev_inv test_platform [] ready" using opened_run initialize_keeps opened_inv by blast
  have t: "inflight_tracker ready = Some []" "\<not> invalid_streams [rgba_stream]" "dev_pipeline ready = None"
      "st_width rgba_stream = 12" "st_height rgba_stream = 3"
    by (simp_all add: ready_def opened_def camera_device_init_def tracker_new_def invalid_streams_def rgba_stream_def)
  obtain ss d' where c: "configure_streams test_platform (Some ready) (Some [rgba_stream]) = Some (0, ss, Some d', [])"
    using test_configured by blast
  have "reconfigured test_platform [] 12 3 0 d'"
    using configure_streams_outcome [OF inv t(1) _ _ c] hal_driver_contract t by (auto simp: same_configuration_def)
  then show ?thesis using c by blast
qed

text \<open>C8. No memory mapping outlives the device: after any sequence of initialisations, stream
  configurations, requests and flushes, closing returns 0 and leaves exactly the mappings that
  existed when the camera was opened.\<close>

theorem device_close_releases:
  assumes "openCamera cameraId h0 j0 = (0, Some dev0)" "four_buffers (drv P)" "errno_set (drv P)" "(hal_step P)\<^sup>*\<^sup>* dev0 dev"
  shows "\<exists>h. camera_device_close (drv P) (Some dev) = (0, Some h) \<and> live (drv P) h = live (drv P) h0"
proof -
  have "dev_inv P h0 dev" using hal_reach_inv [OF assms(4) _ assms(2,3)] opened_inv [OF assms(1)] by blast
  then show ?thesis using drop_pipeline_live dev_invD(1,2) [of P h0 dev]
    by (cases "dev_pipeline dev") (auto simp: camera_device_close_def)
qed

theorem device_close_releases_witness:
  "\<exists>ss dev h. configure_streams test_platform (Some ready) (Some [rgba_stream]) = Some (0, ss, Some dev, []) \<and>
    camera_device_close hal_driver (Some dev) = (0, Some h) \<and> live hal_driver h = live hal_driver []"
proof -
  obtain ss dev where c: "configure_streams test_platform (Some ready) (Some [rgba_stream]) = Some (0, ss, Some dev, [])"
    using test_configured by blast
  have "(hal_step test_platform)\<^sup>*\<^sup>* opened dev"
    using hal_initialize [OF opened_run(2)] hal_configure [OF c] by (meson rtranclp.rtrancl_into_rtrancl rtranclp.rtrancl_refl)
  from device_close_releases [OF opened_run(1) _ _ this] hal_driver_contract c show ?thesis by auto
qed

text \<open>C40. After a flush of a streaming device no later capture succeeds: whatever the requests that
  follow and whatever the answers of a driver that reports errors through \<open>errno\<close>, no result of
  these requests, as long as they return and the streams are not configured again, has a valid
  buffer.\<close>

theorem flush_starves_captures:
  assumes "dev_inv P h0 dev" "dev_pipeline dev = Some p" "mState p = PIPELINE_STREAMING" "errno_set (drv P)"
    and "camera_device_flush (drv P) (Some dev) = (0, Some dev1)" "process_all P rs dev1 = Some (dev2, evs)"
  shows "CaptureResult f md (Some CAMERA3_BUFFER_STATUS_OK) n \<notin> set evs"
proof -
  have "dev_inv P h0 dev1" "starved dev1" using flush_inv [OF assms(5,1)] assms(2,3) by auto
  then show ?thesis using starved_all [OF assms(6) _ _ assms(4)] by (auto simp: no_valid_result_def)
qed

definition streaming_device :: camera_device where
  "streaming_device = ready\<lparr>dev_pipeline := Some test_streaming, streams_configured := True, pipeline_width := 12, pipeline_height := 3,
     last_config_width := 12, last_config_height := 3\<rparr>"

definition flushed_device :: camera_device where
  "flushed_device = streaming_device\<lparr>dev_pipeline := Some (snd (stopStreaming hal_driver test_streaming))\<rparr>"

lemma streaming_device_inv: "dev_inv test_platform [] streaming_device" "mState test_streaming = PIPELINE_STREAMING"
proof -
  have "pl_inv hal_driver [] test_streaming"
    by (simp add: pl_inv_def test_streaming_def test_new_def CameraPipeline_new_def bufs_mapped_def no_buffer_def)
  then show "dev_inv test_platform [] streaming_device" using tracker_inv_new
    by (simp add: dev_inv_def streaming_device_def ready_def opened_def camera_device_init_def test_streaming_def test_new_def
        CameraPipeline_new_def test_config_def)
qed (simp add: test_streaming_def)

theorem flush_starves_captures_witness:
  "\<exists>dev2 evs. process_all test_platform [(test_env, test_request)] flushed_device = Some (dev2, evs) \<and>
     (\<forall>md. CaptureResult 7 md (Some CAMERA3_BUFFER_STATUS_OK) 1 \<notin> set evs)"
proof -
  have fl: "camera_device_flush (drv test_platform) (Some streaming_device) = (0, Some flushed_device)"
    by (simp add: camera_device_flush_def streaming_device_def flushed_device_def ready_def opened_def camera_device_init_def tracker_defs om_modify_def)
  have p: "dev_pipeline streaming_device = Some test_streaming" by (simp add: streaming_device_def)
  define q where "q = snd (stopStreaming hal_driver test_streaming)"
  have q: "mState q = PIPELINE_OPENED" "mBufferCount q = 0"
    by (simp_all add: q_def stopStreaming_def test_streaming_def test_new_def CameraPipeline_new_def ask_eq Let_def)
  obtain q1 where q1: "startStreaming hal_driver q = (0, q1)" "mState q1 = PIPELINE_STREAMING" "mBufferCount q1 = 0"
    using q by (simp add: startStreaming_def ask_eq Let_def case_prod_beta setExposure_def setGain_def)
  obtain e q2 where q2: "captureFrame hal_driver (\<lambda>_ _. 0) (Some (replicate 144 0)) HAL_PIXEL_FORMAT_RGBA_8888 q1 = Some (e, Some (replicate 144 0), q2)"
    using capture_no_buffers [OF q1(2,3)] hal_driver_contract(2) by blast
  have rc: "restart_and_capture test_platform test_env rgba_stream f d \<noteq> None" if "dev_pipeline d = Some q" for d f
    using that q(1) q1(1) q2 by (simp add: restart_and_capture_def capture_frame_def test_env_def rgba_stream_def hal_formats
        HAL_PIXEL_FORMAT_YCBCR_420_888_def capture_locked_def capture_into_def)
  have "process_all test_platform [(test_env, test_request)] flushed_device \<noteq> None"
  proof -
    define d1 where "d1 = track 7 (Some (Suc 0)) flushed_device"
    have d1: "af_control test_platform d1 = Some d1" "dev_pipeline d1 = Some q" "is_initialized flushed_device"
        "callback_ops flushed_device = Some True" "\<not> flushed 7 flushed_device"
      by (simp_all add: d1_def track_def flushed_device_def q_def streaming_device_def ready_def opened_def camera_device_init_def
          af_control_def flushed_def tracker_defs)
    obtain c out d2 evs where r: "restart_and_capture test_platform test_env rgba_stream 7 d1 = Some (c, out, d2, evs)"
      using rc [OF d1(2)] by fastforce
    show ?thesis using d1 r
      by (cases c) (simp_all add: process_request_def test_request_def d1_def [symmetric] apply_settings_def case_prod_beta)
  qed
  then obtain dev2 evs where r: "process_all test_platform [(test_env, test_request)] flushed_device = Some (dev2, evs)" by auto
  show ?thesis using flush_starves_captures [OF streaming_device_inv(1) p streaming_device_inv(2) _ fl r] hal_driver_contract r by auto
qed

text \<open>A configuration whose output streams are all BLOB streams, as for still capture only, follows
  the null pointer \<open>pipelineStream\<close>, whatever the state of the device.\<close>

lemma blob_only_configuration:
  assumes "\<not> invalid_streams streams" "\<forall>s \<in> set streams. st_format s = HAL_PIXEL_FORMAT_BLOB"
  shows "configure_streams P (Some dev) (Some streams) = None"
proof -
  let ?c0 = "\<lparr>pipelineStream = None, outputStream = None, rgbaStream = None\<rparr>"
  obtain ss r where 1: "scan_streams 0 streams ?c0 = (ss, r)" by (cases "scan_streams 0 streams ?c0")
  have "r \<noteq> None" using scan_rejects [of 0 streams ?c0] 1 assms(1) by (auto simp: invalid_streams_def)
  then obtain c where c: "r = Some c" by blast
  have "numbered k ss = []" if "\<forall>s \<in> set ss. st_format s = HAL_PIXEL_FORMAT_BLOB" for k ss
    using that by (induction k ss rule: numbered.induct) (auto simp: sized_by_def)
  then have "chosen c = None" using scan_chosen [of ?c0 0 streams ss c] 1 c assms(2) by simp
  then show ?thesis using 1 c assms(1) by (simp add: configure_streams_def invalid_streams_def chosen_def)
qed

end
