(* ===== verification/PowerSys.thy ===== *)
theory PowerSys
  imports CStrings
begin

text \<open>
  The utilities of the power HAL (\<open>hardware/nvidia/power/powerhal_utils.cpp\<close>): reading and writing
  sysfs nodes and system properties. The kernel, the property service and the message loop of the
  platform are seen through the transcript of the calls.
\<close>

section \<open>Calls\<close>

datatype pcall =
    PAccess string
  | POpen string
  | PRead int nat
  | PWrite int string
  | PWriteInt int int
  | PClose int
  | PPropertyGet string
  | PPropertySet string string
  | PPipe
  | PAddFd int
  | PRemoveFd int
  | PSleep nat
  | PDlopen string
  | PDlsym string
  | PSendHint int int int
  | PCancelHints int int
  | PIoctl int string

text \<open>
  An answer: the return value, the text it delivers (the bytes read, the value of a property, or the
  text of the error) and the two descriptors of a pipe.
\<close>

record pans =
  p_ret :: int
  p_text :: string
  p_client :: int
  p_server :: int

type_synonym os = "(pcall, pans) kernel"

definition run :: "os \<Rightarrow> pcall \<Rightarrow> pcall list \<Rightarrow> pcall list" where
  "run K c h = snd (sys K c h)"

section \<open>Files and properties\<close>

definition sysfs_write :: "os \<Rightarrow> string \<Rightarrow> string \<Rightarrow> pcall list \<Rightarrow> pcall list" where
  "sysfs_write K path s h =
     (let (a, h) = sys K (POpen path) h
      in if p_ret a < 0 then h
         else
           let (_, h) = sys K (PWrite (p_ret a) s) h
           in run K (PClose (p_ret a)) h)"

text \<open>The error text, cut to the buffer, with its NUL.\<close>

definition strerror_r :: "string \<Rightarrow> nat \<Rightarrow> string \<Rightarrow> string" where
  "strerror_r msg sz buf = (let m = take (sz - 1) msg @ [CHR 0x00] in m @ drop (length m) buf)"

definition sysfs_read :: "os \<Rightarrow> string \<Rightarrow> string \<Rightarrow> nat \<Rightarrow> pcall list \<Rightarrow> string \<times> pcall list" where
  "sysfs_read K path s sz h =
     (let (a, h) = sys K (POpen path) h
      in if p_ret a < 0 then (strerror_r (p_text a) sz s, h)
         else
           let (r, h) = sys K (PRead (p_ret a) sz) h;
               h = run K (PClose (p_ret a)) h;
               data = take (min sz (nat (p_ret r))) (p_text r)
           in if p_ret r < 0 then (strerror_r (p_text r) sz s, h)
              else (data @ drop (length data) s, h))"

text \<open>The descriptor is closed also when it is -1.\<close>

definition sysfs_exists :: "os \<Rightarrow> string \<Rightarrow> pcall list \<Rightarrow> bool \<times> pcall list" where
  "sysfs_exists K path h =
     (let (a, h) = sys K (POpen path) h
      in (\<not> p_ret a < 0, run K (PClose (p_ret a)) h))"

definition get_property_bool :: "os \<Rightarrow> string \<Rightarrow> bool \<Rightarrow> pcall list \<Rightarrow> bool \<times> pcall list" where
  "get_property_bool K key default_value h =
     (let (a, h) = sys K (PPropertyGet key) h; value = p_text a
      in (if p_ret a > 0 then
            if value = ''1'' \<or> strcasecmp_eq value ''on'' \<or> strcasecmp_eq value ''true'' then True
            else if value = ''0'' \<or> strcasecmp_eq value ''off'' \<or> strcasecmp_eq value ''false'' then False
            else default_value
          else default_value, h))"

definition PROPERTY_VALUE_MAX :: nat where "PROPERTY_VALUE_MAX = 92"

definition set_property_int :: "os \<Rightarrow> string \<Rightarrow> int \<Rightarrow> pcall list \<Rightarrow> pcall list" where
  "set_property_int K key v h = run K (PPropertySet key (snprintf PROPERTY_VALUE_MAX (itoa v))) h"

definition sysfs_write_int :: "os \<Rightarrow> string \<Rightarrow> int \<Rightarrow> pcall list \<Rightarrow> pcall list" where
  "sysfs_write_int K path v h = sysfs_write K path (snprintf PROPERTY_VALUE_MAX (itoa v)) h"

section \<open>Descriptors\<close>

text \<open>
  How often a descriptor has been given out and not yet closed: the descriptors of a pipe count once
  on the server side; the client side belongs to the client.
\<close>

definition fd_delta :: "pans \<Rightarrow> pcall \<Rightarrow> int \<Rightarrow> int" where
  "fd_delta a c fd =
     (case c of
        POpen _ \<Rightarrow> (if p_ret a = fd \<and> 0 \<le> fd then 1 else 0)
      | PPipe \<Rightarrow> (if p_ret a = 0 \<and> p_server a = fd \<and> 0 \<le> fd then 1 else 0)
      | PClose f \<Rightarrow> (if f = fd \<and> 0 \<le> fd then -1 else 0)
      | _ \<Rightarrow> 0)"

fun balance_from :: "os \<Rightarrow> pcall list \<Rightarrow> pcall list \<Rightarrow> int \<Rightarrow> int" where
  "balance_from K h [] fd = 0"
| "balance_from K h (c # cs) fd = fd_delta (K h c) c fd + balance_from K (h @ [c]) cs fd"

definition balance :: "os \<Rightarrow> pcall list \<Rightarrow> int \<Rightarrow> int" where
  "balance K h fd = balance_from K [] h fd"

lemma balance_from_append: "balance_from K h (xs @ ys) fd = balance_from K h xs fd + balance_from K (h @ xs) ys fd"
  by (induction xs arbitrary: h) simp_all

lemma balance_append [simp]: "balance K (h @ cs) fd = balance K h fd + balance_from K h cs fd"
  by (simp add: balance_def balance_from_append)

lemma run_eq [simp]: "run K c h = h @ [c]"
  by (simp add: run_def sys_def)

lemma sysfs_write_balance [simp]: "balance K (sysfs_write K path s h) fd = balance K h fd"
  by (auto simp: sysfs_write_def sys_def Let_def fd_delta_def)

lemma sysfs_read_balance [simp]: "balance K (snd (sysfs_read K path s sz h)) fd = balance K h fd"
  by (auto simp: sysfs_read_def sys_def Let_def fd_delta_def)

lemma sysfs_exists_balance [simp]: "balance K (snd (sysfs_exists K path h)) fd = balance K h fd"
  by (auto simp: sysfs_exists_def sys_def Let_def fd_delta_def)

lemma sysfs_write_int_balance [simp]: "balance K (sysfs_write_int K path v h) fd = balance K h fd"
  by (simp add: sysfs_write_int_def)

lemma set_property_int_balance [simp]: "balance K (set_property_int K key v h) fd = balance K h fd"
  by (simp add: set_property_int_def fd_delta_def)

end
