(* ===== verification/TimeoutPoker.thy ===== *)
theory TimeoutPoker
  imports PowerSys InFlightTracker
begin

text \<open>
  The request thread of the power HAL (\<open>hardware/nvidia/power/timeoutpoker.cpp\<close>): quality-of-service
  requests are open descriptors of device nodes, held for a time or as long as a client holds the
  other end of a pipe. Events wait in a map from keys to events, and the message loop of the
  platform delivers each key when its time has come. The map is the ordered map of the tracker.
\<close>

section \<open>Requests and events\<close>

definition COMMAND_SIZE :: nat where "COMMAND_SIZE = 20"

definition createConstraintCommand :: "nat \<Rightarrow> int \<Rightarrow> int \<Rightarrow> int \<Rightarrow> string" where
  "createConstraintCommand sz priority mx mn =
     snprintf sz (itoa mx @ CHR '' '' # itoa mn @ CHR '' '' # itoa priority @ CHR '' '' # ''0'')"

text \<open>A request without priority writes one number, one with priority a command.\<close>

datatype pm_request =
    NodeVal string int
  | NodePriority string int int int

datatype queued_event =
    PmQosOpenTimedEvent pm_request int
  | PmQosOpenHandleEvent pm_request nat
  | TimeoutEvent int

text \<open>
  The handler: the next key, the events by key, the messages of the loop in the order of their time,
  the pipes the loop watches with the descriptor each keeps open, the results handed to waiting
  clients, the clock and the transcript.
\<close>

record poker =
  mKey :: u32
  mQueuedEvents :: "(u32 \<times> queued_event) list"
  messages :: "(int \<times> u32) list"
  watched :: "(int \<times> int) list"
  results :: "(nat \<times> int) list"
  clock :: int
  plog :: "pcall list"

definition poker_new :: "int \<Rightarrow> pcall list \<Rightarrow> poker" where
  "poker_new t h = \<lparr> mKey = 0, mQueuedEvents = [], messages = [], watched = [], results = [], clock = t, plog = h \<rparr>"

section \<open>Descriptors\<close>

definition call :: "os \<Rightarrow> pcall \<Rightarrow> poker \<Rightarrow> pans \<times> poker" where
  "call K c s = (K (plog s) c, s\<lparr>plog := plog s @ [c]\<rparr>)"

fun request_node :: "pm_request \<Rightarrow> string" where
  "request_node (NodeVal node _) = node"
| "request_node (NodePriority node _ _ _) = node"

fun request_write :: "pm_request \<Rightarrow> int \<Rightarrow> pcall" where
  "request_write (NodeVal _ v) fd = PWriteInt fd v"
| "request_write (NodePriority _ priority mx mn) fd = PWrite fd (createConstraintCommand COMMAND_SIZE priority mx mn)"

definition openPmQosNode :: "os \<Rightarrow> pm_request \<Rightarrow> poker \<Rightarrow> int \<times> poker" where
  "openPmQosNode K rq s =
     (let (a, s) = call K (POpen (request_node rq)) s
      in if p_ret a < 0 then (-1, s)
         else
           let (_, s) = call K (request_write rq (p_ret a)) s
           in (p_ret a, s))"

text \<open>The same two calls on the thread of the client.\<close>

definition requestPmQos :: "os \<Rightarrow> pm_request \<Rightarrow> pcall list \<Rightarrow> int \<times> pcall list" where
  "requestPmQos K rq h =
     (let (a, h) = sys K (POpen (request_node rq)) h
      in if p_ret a < 0 then (-1, h)
         else
           let (_, h) = sys K (request_write rq (p_ret a)) h
           in (p_ret a, h))"

text \<open>The loop takes a descriptor when it answers 1; the result is negated.\<close>

definition listenForHandleToCloseFd :: "os \<Rightarrow> int \<Rightarrow> int \<Rightarrow> poker \<Rightarrow> bool \<times> poker" where
  "listenForHandleToCloseFd K handle fd s =
     (let (a, s) = call K (PAddFd handle) s
      in (p_ret a = 0, if p_ret a = 1 then s\<lparr>watched := (handle, fd) # watched s\<rparr> else s))"

text \<open>The result of listening is not looked at: \<open>res\<close> is still the result of \<open>pipe\<close>.\<close>

definition createHandleForFd :: "os \<Rightarrow> int \<Rightarrow> poker \<Rightarrow> int \<times> poker" where
  "createHandleForFd K fd s =
     (let (a, s) = call K PPipe s
      in if p_ret a \<noteq> 0 then
           let (_, s) = call K (PClose fd) s
           in (-1, s)
         else
           let (_, s) = listenForHandleToCloseFd K (p_server a) fd s
           in (p_client a, s))"

definition createHandleForPmQosRequest :: "os \<Rightarrow> pm_request \<Rightarrow> poker \<Rightarrow> int \<times> poker" where
  "createHandleForPmQosRequest K rq s =
     (let (fd, s) = openPmQosNode K rq s
      in if fd < 0 then (-1, s) else createHandleForFd K fd s)"

section \<open>Events\<close>

text \<open>The message loop keeps its messages sorted by time, equal times in the order they were sent.\<close>

fun enqueue :: "int \<times> u32 \<Rightarrow> (int \<times> u32) list \<Rightarrow> (int \<times> u32) list" where
  "enqueue m [] = [m]"
| "enqueue m (x # xs) = (if fst x \<le> fst m then x # enqueue m xs else m # x # xs)"

definition sendEventDelayed :: "int \<Rightarrow> queued_event \<Rightarrow> poker \<Rightarrow> poker" where
  "sendEventDelayed delay ev s =
     s\<lparr>mKey := mKey s + 1, mQueuedEvents := om_put (mKey s) ev (mQueuedEvents s),
       messages := enqueue (clock s + delay, mKey s) (messages s)\<rparr>"

definition pushEvent :: "queued_event \<Rightarrow> poker \<Rightarrow> poker" where
  "pushEvent ev s = sendEventDelayed 0 ev s"

definition openPmQosTimed :: "os \<Rightarrow> pm_request \<Rightarrow> int \<Rightarrow> poker \<Rightarrow> poker" where
  "openPmQosTimed K rq timeout s =
     (let (fd, s) = openPmQosNode K rq s
      in if fd < 0 then s else sendEventDelayed timeout (TimeoutEvent fd) s)"

definition timeoutRequest :: "os \<Rightarrow> int \<Rightarrow> poker \<Rightarrow> poker" where
  "timeoutRequest K fd s = snd (call K (PClose fd) s)"

fun event_run :: "os \<Rightarrow> queued_event \<Rightarrow> poker \<Rightarrow> poker" where
  "event_run K (PmQosOpenTimedEvent rq timeout) s = openPmQosTimed K rq timeout s"
| "event_run K (PmQosOpenHandleEvent rq client) s =
     (let (fd, s) = createHandleForPmQosRequest K rq s
      in s\<lparr>results := (client, fd) # results s\<rparr>)"
| "event_run K (TimeoutEvent fd) s = timeoutRequest K fd s"

text \<open>Looking up a key that is not there ends the process.\<close>

definition removeEventByKey :: "u32 \<Rightarrow> poker \<Rightarrow> (queued_event \<times> poker) option" where
  "removeEventByKey what s =
     (case map_of (mQueuedEvents s) what of
        None \<Rightarrow> None
      | Some e \<Rightarrow> Some (e, s\<lparr>mQueuedEvents := om_erase what (mQueuedEvents s)\<rparr>))"

definition handleMessage :: "os \<Rightarrow> u32 \<Rightarrow> poker \<Rightarrow> poker option" where
  "handleMessage K what s =
     (case removeEventByKey what s of
        None \<Rightarrow> None
      | Some (e, s) \<Rightarrow> Some (event_run K e s))"

text \<open>The callback of a watched pipe: the client has closed its end.\<close>

definition pipeCloseCb :: "os \<Rightarrow> int \<times> int \<Rightarrow> poker \<Rightarrow> poker" where
  "pipeCloseCb K ctx s =
     (let (_, s) = call K (PRemoveFd (fst ctx)) s;
          (_, s) = call K (PClose (fst ctx)) s;
          (_, s) = call K (PClose (snd ctx)) s
      in s\<lparr>watched := remove1 ctx (watched s)\<rparr>)"

section \<open>The interface of the client\<close>

definition requestPmQosTimed :: "pm_request \<Rightarrow> int \<Rightarrow> poker \<Rightarrow> poker" where
  "requestPmQosTimed rq timeout s = pushEvent (PmQosOpenTimedEvent rq timeout) s"

text \<open>The client waits until the event has run.\<close>

definition createPmQosHandle :: "pm_request \<Rightarrow> nat \<Rightarrow> poker \<Rightarrow> poker" where
  "createPmQosHandle rq client s = pushEvent (PmQosOpenHandleEvent rq client) s"

text \<open>One step of the loop: the first message, when its time has come.\<close>

definition deliver_next :: "os \<Rightarrow> poker \<Rightarrow> poker option" where
  "deliver_next K s =
     (case messages s of
        [] \<Rightarrow> Some s
      | (t, k) # ms \<Rightarrow> if clock s < t then Some s else handleMessage K k (s\<lparr>messages := ms\<rparr>))"

inductive poker_step :: "os \<Rightarrow> poker \<Rightarrow> poker \<Rightarrow> bool" for K where
  st_timed: "poker_step K s (requestPmQosTimed rq timeout s)"
| st_handle: "poker_step K s (createPmQosHandle rq client s)"
| st_deliver: "deliver_next K s = Some s' \<Longrightarrow> poker_step K s s'"
| st_hangup: "ctx \<in> set (watched s) \<Longrightarrow> poker_step K s (pipeCloseCb K ctx s)"
| st_clock: "clock s \<le> t \<Longrightarrow> poker_step K s (s\<lparr>clock := t\<rparr>)"

section \<open>Keys\<close>

text \<open>Every message has its event and every event its message, under keys below the next one.\<close>

definition key_inv :: "nat \<Rightarrow> poker \<Rightarrow> bool" where
  "key_inv n s \<longleftrightarrow> om_ok (mQueuedEvents s) \<and> distinct (map snd (messages s)) \<and>
     set (map snd (messages s)) = fst ` set (mQueuedEvents s) \<and>
     (\<forall>k \<in> fst ` set (mQueuedEvents s). k < mKey s) \<and> unat (mKey s) \<le> n"

lemma set_enqueue [simp]: "set (enqueue m ms) = insert m (set ms)"
  by (induction m ms rule: enqueue.induct) auto

lemma distinct_enqueue: "distinct (map snd ms) \<Longrightarrow> snd m \<notin> snd ` set ms \<Longrightarrow> distinct (map snd (enqueue m ms))"
  by (induction m ms rule: enqueue.induct) (auto simp: image_iff)

lemma key_inv_send:
  assumes "key_inv n s" "Suc n < 2 ^ 32"
  shows "key_inv (Suc n) (sendEventDelayed d ev s)" "mKey s \<notin> fst ` set (mQueuedEvents s)"
proof -
  have "unat (mKey s) + unat (1 :: u32) < 2 ^ 32" using assms by (simp add: key_inv_def)
  then have n: "unat (mKey s + 1) = Suc (unat (mKey s))" using unat_add_lem [of "mKey s" 1] by simp
  show f: "mKey s \<notin> fst ` set (mQueuedEvents s)" using assms(1) by (force simp: key_inv_def)
  have "k < mKey s + 1" if "k \<le> mKey s" for k using that n by (simp add: word_less_nat_alt word_le_nat_alt)
  then show "key_inv (Suc n) (sendEventDelayed d ev s)"
    using assms(1) f n om_put_keys [of "mKey s" ev "mQueuedEvents s"]
    by (auto simp: key_inv_def sendEventDelayed_def om_put_ok distinct_enqueue less_imp_le)
qed

lemma key_inv_cong:
  "mQueuedEvents s' = mQueuedEvents s \<Longrightarrow> messages s' = messages s \<Longrightarrow> mKey s' = mKey s \<Longrightarrow> key_inv n s' = key_inv n s"
  by (simp add: key_inv_def)

lemma key_inv_le: "key_inv n s \<Longrightarrow> n \<le> m \<Longrightarrow> key_inv m s"
  by (simp add: key_inv_def)

lemma key_inv_remove:
  assumes "key_inv n s" "messages s = (t, k) # ms"
  shows "\<exists>e. removeEventByKey k (s\<lparr>messages := ms\<rparr>) = Some (e, s\<lparr>messages := ms, mQueuedEvents := om_erase k (mQueuedEvents s)\<rparr>) \<and>
    map_of (mQueuedEvents s) k = Some e" "key_inv n (s\<lparr>messages := ms, mQueuedEvents := om_erase k (mQueuedEvents s)\<rparr>)"
proof -
  have "k \<in> fst ` set (mQueuedEvents s)" using assms unfolding key_inv_def by auto
  then obtain e where e: "map_of (mQueuedEvents s) k = Some e" by (metis map_of_eq_None_iff not_None_eq)
  then show "\<exists>e. removeEventByKey k (s\<lparr>messages := ms\<rparr>) = Some (e, s\<lparr>messages := ms, mQueuedEvents := om_erase k (mQueuedEvents s)\<rparr>) \<and>
    map_of (mQueuedEvents s) k = Some e" by (simp add: removeEventByKey_def)
  have "set (map snd (messages s)) = fst ` set (mQueuedEvents s)" "distinct (map snd (messages s))" using assms(1) by (simp_all add: key_inv_def)
  then have "snd ` set ms = fst ` set (mQueuedEvents s) - {k}" using assms(2) by auto
  moreover have "fst ` set (om_erase k (mQueuedEvents s)) = fst ` set (mQueuedEvents s) - {k}" by (auto simp: om_erase_def)
  ultimately show "key_inv n (s\<lparr>messages := ms, mQueuedEvents := om_erase k (mQueuedEvents s)\<rparr>)"
    using assms by (auto simp: key_inv_def om_erase_ok)
qed

section \<open>Who holds which descriptor\<close>

definition pending_on :: "int \<Rightarrow> poker \<Rightarrow> int" where
  "pending_on fd s = sum_list (map (\<lambda>p. of_bool (snd p = TimeoutEvent fd)) (mQueuedEvents s))"

definition watched_on :: "int \<Rightarrow> poker \<Rightarrow> int" where
  "watched_on fd s = sum_list (map (\<lambda>p. of_bool (fst p = fd) + of_bool (snd p = fd)) (watched s))"

text \<open>A descriptor is open exactly as often as a timeout is pending on it or a watched pipe needs it.\<close>

definition fd_inv :: "os \<Rightarrow> (int \<Rightarrow> int) \<Rightarrow> poker \<Rightarrow> bool" where
  "fd_inv K B s \<longleftrightarrow> (\<forall>fd \<ge> 0. balance K (plog s) fd = B fd + pending_on fd s + watched_on fd s)"

lemma sum_put:
  fixes f :: "'k::linorder \<times> 'v \<Rightarrow> 'b::comm_monoid_add"
  shows "k \<notin> fst ` set m \<Longrightarrow> sum_list (map f (om_put k v m)) = f (k, v) + sum_list (map f m)"
  by (induction k v m rule: om_put.induct) (auto simp: ac_simps)

lemma sum_erase:
  fixes f :: "'k::linorder \<times> 'v \<Rightarrow> 'b::comm_monoid_add"
  shows "om_ok m \<Longrightarrow> map_of m k = Some v \<Longrightarrow> sum_list (map f (om_erase k m)) + f (k, v) = sum_list (map f m)"
proof (induction m)
  case (Cons p m)
  have o: "om_ok m" "\<forall>x \<in> set m. fst p < fst x" using Cons.prems(1) by (auto simp: om_ok_def)
  show ?case
  proof (cases "fst p = k")
    case True
    then have "om_erase k m = m" using o(2) by (auto simp: om_erase_def filter_id_conv)
    then show ?thesis using True Cons.prems(2) by (cases p) (simp add: om_erase_def ac_simps)
  next
    case False
    then show ?thesis using Cons.IH [OF o(1)] Cons.prems(2) by (cases p) (simp add: om_erase_def ac_simps)
  qed
qed simp

lemma pending_on_send:
  "mKey s \<notin> fst ` set (mQueuedEvents s) \<Longrightarrow> pending_on fd (sendEventDelayed d ev s) = of_bool (ev = TimeoutEvent fd) + pending_on fd s"
  by (simp add: pending_on_def sendEventDelayed_def sum_put)

lemma send_fields [simp]:
  "watched (sendEventDelayed d ev s) = watched s" "plog (sendEventDelayed d ev s) = plog s" "watched_on fd (sendEventDelayed d ev s) = watched_on fd s"
  "clock (sendEventDelayed d ev s) = clock s"
  by (simp_all add: sendEventDelayed_def watched_on_def)

text \<open>What opening a node changes: the transcript, by an open descriptor when it succeeds.\<close>

lemma fd_delta_open: "fd_delta a (POpen node) f = of_bool (p_ret a = f \<and> 0 \<le> f)"
  by (simp add: fd_delta_def)

lemma openPmQosNode_effect:
  assumes "openPmQosNode K rq s = (fd, s')"
  shows "s' = s\<lparr>plog := plog s'\<rparr>" "0 \<le> f \<Longrightarrow> balance K (plog s') f = balance K (plog s) f + of_bool (f = fd)" "fd < 0 \<Longrightarrow> fd = -1"
proof -
  define r where "r = p_ret (K (plog s) (POpen (request_node rq)))"
  have w: "fd_delta a (request_write rq r) f = 0" for a f by (cases rq) (simp_all add: fd_delta_def)
  have *: "s' = s\<lparr>plog := plog s @ POpen (request_node rq) # (if r < 0 then [] else [request_write rq r])\<rparr>" "fd = (if r < 0 then -1 else r)"
    using assms by (auto simp: openPmQosNode_def call_def Let_def r_def split: if_splits)
  show "s' = s\<lparr>plog := plog s'\<rparr>" "fd < 0 \<Longrightarrow> fd = -1" using * by (simp_all split: if_splits)
  show "0 \<le> f \<Longrightarrow> balance K (plog s') f = balance K (plog s) f + of_bool (f = fd)"
    using * w by (cases "r < 0") (auto simp: fd_delta_open r_def)
qed

definition loop_accepts :: "os \<Rightarrow> bool" where
  "loop_accepts K \<longleftrightarrow> (\<forall>h fd. p_ret (K h (PAddFd fd)) = 1)"

lemma createHandleForFd_effect:
  assumes "createHandleForFd K fd s = (r, s')" "loop_accepts K" "0 \<le> fd"
  shows "s' = s\<lparr>plog := plog s', watched := watched s'\<rparr>"
    "0 \<le> f \<Longrightarrow> balance K (plog s') f + of_bool (f = fd) = balance K (plog s) f + (watched_on f s' - watched_on f s)"
proof -
  define a where "a = K (plog s) PPipe"
  have *: "s' = (if p_ret a \<noteq> 0 then s\<lparr>plog := plog s @ [PPipe, PClose fd]\<rparr>
    else s\<lparr>plog := plog s @ [PPipe, PAddFd (p_server a)], watched := (p_server a, fd) # watched s\<rparr>)"
    using assms(1,2) by (auto simp: createHandleForFd_def listenForHandleToCloseFd_def call_def Let_def a_def loop_accepts_def split: if_splits)
  then show "s' = s\<lparr>plog := plog s', watched := watched s'\<rparr>" by simp
  show "0 \<le> f \<Longrightarrow> balance K (plog s') f + of_bool (f = fd) = balance K (plog s) f + (watched_on f s' - watched_on f s)"
    using * assms(3) by (auto simp: fd_delta_def watched_on_def a_def split: if_splits)
qed

lemma poker_update [simp]:
  "key_inv n (s\<lparr>plog := h\<rparr>) = key_inv n s" "key_inv n (s\<lparr>watched := w\<rparr>) = key_inv n s" "key_inv n (s\<lparr>results := r\<rparr>) = key_inv n s"
  "key_inv n (s\<lparr>clock := t\<rparr>) = key_inv n s"
  "pending_on fd (s\<lparr>plog := h\<rparr>) = pending_on fd s" "pending_on fd (s\<lparr>watched := w\<rparr>) = pending_on fd s"
  "pending_on fd (s\<lparr>results := r\<rparr>) = pending_on fd s" "pending_on fd (s\<lparr>clock := t\<rparr>) = pending_on fd s"
  "pending_on fd (s\<lparr>messages := ms\<rparr>) = pending_on fd s"
  "watched_on fd (s\<lparr>plog := h\<rparr>) = watched_on fd s" "watched_on fd (s\<lparr>results := r\<rparr>) = watched_on fd s"
  "watched_on fd (s\<lparr>clock := t\<rparr>) = watched_on fd s" "watched_on fd (s\<lparr>messages := ms\<rparr>) = watched_on fd s"
  "watched_on fd (s\<lparr>mQueuedEvents := q\<rparr>) = watched_on fd s"
  by (simp_all add: key_inv_def pending_on_def watched_on_def)

lemma fd_inv_update [simp]: "fd_inv K B (s\<lparr>results := r\<rparr>) = fd_inv K B s" "fd_inv K B (s\<lparr>clock := t\<rparr>) = fd_inv K B s"
  by (simp_all add: fd_inv_def)

lemma event_run_inv:
  assumes "key_inv n s" "Suc n < 2 ^ 32" "loop_accepts K"
    "\<And>fd. 0 \<le> fd \<Longrightarrow> balance K (plog s) fd = B fd + pending_on fd s + of_bool (e = TimeoutEvent fd) + watched_on fd s"
  shows "key_inv (Suc n) (event_run K e s) \<and> fd_inv K B (event_run K e s)"
proof -
  have opened: "key_inv n s1" "pending_on f s1 = pending_on f s" "watched_on f s1 = watched_on f s"
      "0 \<le> f \<Longrightarrow> balance K (plog s1) f = balance K (plog s) f + of_bool (f = fd)"
    if o: "openPmQosNode K rq s = (fd, s1)" for rq fd s1 f
  proof -
    obtain h where "s1 = s\<lparr>plog := h\<rparr>" using openPmQosNode_effect(1) [OF o] by blast
    then show "key_inv n s1" "pending_on f s1 = pending_on f s" "watched_on f s1 = watched_on f s" using assms(1) by simp_all
  qed (rule openPmQosNode_effect(2) [OF o])
  show ?thesis
  proof (cases e)
    case (PmQosOpenTimedEvent rq d)
    obtain fd s1 where 1: "openPmQosNode K rq s = (fd, s1)" by (cases "openPmQosNode K rq s")
    show ?thesis
      using PmQosOpenTimedEvent 1 key_inv_le [OF opened(1) [OF 1], of "Suc n"] key_inv_send [OF opened(1) [OF 1] assms(2)]
        opened(2-4) [OF 1] assms(4)
      by (cases "fd < 0") (auto simp: openPmQosTimed_def fd_inv_def pending_on_send)
  next
    case (PmQosOpenHandleEvent rq c)
    obtain fd s1 where 1: "openPmQosNode K rq s = (fd, s1)" by (cases "openPmQosNode K rq s")
    obtain r s2 where 2: "createHandleForFd K fd s1 = (r, s2)" by (cases "createHandleForFd K fd s1")
    show ?thesis
    proof (cases "fd < 0")
      case True
      have "fd_inv K B s1" using opened(2-4) [OF 1] True assms(4) PmQosOpenHandleEvent by (auto simp: fd_inv_def)
      then show ?thesis using True PmQosOpenHandleEvent 1 key_inv_le [OF opened(1) [OF 1], of "Suc n"]
        by (simp add: createHandleForPmQosRequest_def)
    next
      case False
      then have pos: "0 \<le> fd" by simp
      obtain h w where s2: "s2 = s1\<lparr>plog := h, watched := w\<rparr>" using createHandleForFd_effect(1) [OF 2 assms(3) pos] by blast
      have "fd_inv K B s2" unfolding fd_inv_def
      proof (intro allI impI)
        fix f :: int assume f: "0 \<le> f"
        have "pending_on f s2 = pending_on f s" using s2 opened(2) [OF 1] by simp
        then show "balance K (plog s2) f = B f + pending_on f s2 + watched_on f s2"
          using createHandleForFd_effect(2) [OF 2 assms(3) pos f] opened(3,4) [OF 1, of f] f assms(4) [OF f] PmQosOpenHandleEvent by simp
      qed
      moreover have "key_inv (Suc n) s2" using key_inv_le [OF opened(1) [OF 1], of "Suc n"] s2 by simp
      ultimately show ?thesis using PmQosOpenHandleEvent 1 2 False by (simp add: createHandleForPmQosRequest_def)
    qed
  next
    case (TimeoutEvent f)
    then show ?thesis using assms(4) key_inv_le [OF assms(1), of "Suc n"]
      by (auto simp: timeoutRequest_def call_def fd_inv_def fd_delta_def)
  qed
qed

lemma deliver_run:
  assumes "key_inv n s" "messages s = (t, k) # ms" "t \<le> clock s" "fd_inv K B s" "Suc n < 2 ^ 32" "loop_accepts K"
  obtains e where "map_of (mQueuedEvents s) k = Some e"
    "deliver_next K s = Some (event_run K e (s\<lparr>messages := ms, mQueuedEvents := om_erase k (mQueuedEvents s)\<rparr>))"
    "key_inv (Suc n) (event_run K e (s\<lparr>messages := ms, mQueuedEvents := om_erase k (mQueuedEvents s)\<rparr>))"
    "fd_inv K B (event_run K e (s\<lparr>messages := ms, mQueuedEvents := om_erase k (mQueuedEvents s)\<rparr>))"
proof -
  define s1 where "s1 = s\<lparr>messages := ms, mQueuedEvents := om_erase k (mQueuedEvents s)\<rparr>"
  obtain e where e: "removeEventByKey k (s\<lparr>messages := ms\<rparr>) = Some (e, s1)" "map_of (mQueuedEvents s) k = Some e"
    using key_inv_remove(1) [OF assms(1,2)] by (auto simp: s1_def)
  have k1: "key_inv n s1" using key_inv_remove(2) [OF assms(1,2)] by (simp add: s1_def)
  have pe: "pending_on fd s1 + of_bool (e = TimeoutEvent fd) = pending_on fd s" for fd
    using sum_erase [OF _ e(2), of "\<lambda>p. of_bool (snd p = TimeoutEvent fd)"] assms(1) by (simp add: pending_on_def s1_def key_inv_def)
  have "plog s1 = plog s" "watched_on fd s1 = watched_on fd s" for fd by (simp_all add: s1_def)
  then have "balance K (plog s1) fd = B fd + pending_on fd s1 + of_bool (e = TimeoutEvent fd) + watched_on fd s1" if "0 \<le> fd" for fd
    using assms(4) that pe [of fd] by (simp add: fd_inv_def)
  from event_run_inv [OF k1 assms(5,6) this] show thesis
    using that [OF e(2)] e(1) assms(2,3) by (simp add: deliver_next_def handleMessage_def s1_def [symmetric])
qed

lemma watched_on_remove: "ctx \<in> set w \<Longrightarrow>
  sum_list (map (\<lambda>p. of_bool (fst p = fd) + of_bool (snd p = fd) :: int) (remove1 ctx w)) =
  sum_list (map (\<lambda>p. of_bool (fst p = fd) + of_bool (snd p = fd)) w) - of_bool (fst ctx = fd) - of_bool (snd ctx = fd)"
  by (induction w) auto

lemma poker_step_inv:
  assumes "poker_step K s s'" "key_inv n s" "fd_inv K B s" "Suc n < 2 ^ 32" "loop_accepts K"
  shows "key_inv (Suc n) s' \<and> fd_inv K B s'"
proof -
  have push: "key_inv (Suc n) (sendEventDelayed 0 ev s) \<and> fd_inv K B (sendEventDelayed 0 ev s)" if "\<forall>fd. ev \<noteq> TimeoutEvent fd" for ev
    using key_inv_send [OF assms(2,4)] assms(3) that by (simp add: fd_inv_def pending_on_send)
  note up = key_inv_le [OF assms(2), of "Suc n"]
  show ?thesis using assms(1)
  proof cases
    case (st_deliver)
    show ?thesis
    proof (cases "messages s = [] \<or> clock s < fst (hd (messages s))")
      case True
      then have "s' = s" using st_deliver by (auto simp: deliver_next_def split: list.splits)
      then show ?thesis using up assms(3) by simp
    next
      case False
      then obtain t k ms where m: "messages s = (t, k) # ms" "t \<le> clock s" by (cases "messages s") auto
      from assms(2) m assms(3-5) show ?thesis by (rule deliver_run) (use st_deliver in simp)
    qed
  next
    case (st_hangup ctx)
    have "watched_on fd s' = watched_on fd s - of_bool (fst ctx = fd) - of_bool (snd ctx = fd)" for fd
      using watched_on_remove [OF st_hangup(2)] st_hangup(1) by (simp add: watched_on_def pipeCloseCb_def call_def)
    then show ?thesis using st_hangup assms(3) up by (auto simp: fd_inv_def pipeCloseCb_def call_def fd_delta_def)
  qed (use push up assms(3) in \<open>simp_all add: requestPmQosTimed_def createPmQosHandle_def pushEvent_def\<close>)
qed

lemma poker_reach_inv:
  "(poker_step K ^^ n) (poker_new t0 h0) s \<Longrightarrow> n < 2 ^ 32 \<Longrightarrow> loop_accepts K \<Longrightarrow> key_inv n s \<and> fd_inv K (balance K h0) s"
proof (induction n arbitrary: s)
  case 0
  then show ?case by (auto simp: poker_new_def key_inv_def fd_inv_def om_ok_def pending_on_def watched_on_def)
next
  case (Suc n)
  then obtain s1 where "(poker_step K ^^ n) (poker_new t0 h0) s1" "poker_step K s1 s" by auto
  then show ?case using Suc.IH [of s1] Suc.prems poker_step_inv [of K s1 s n "balance K h0"] by simp
qed

section \<open>Draining\<close>

text \<open>What is left to run for an event: a timed request runs twice, at its start and at its end.\<close>

fun event_weight :: "queued_event \<Rightarrow> nat" where
  "event_weight (PmQosOpenTimedEvent _ _) = 2"
| "event_weight _ = 1"

definition weight :: "poker \<Rightarrow> nat" where
  "weight s = sum_list (map (\<lambda>p. event_weight (snd p)) (mQueuedEvents s))"

text \<open>The loop with the clock moved on to the time of each message.\<close>

fun drain :: "os \<Rightarrow> nat \<Rightarrow> poker \<Rightarrow> poker option" where
  "drain K 0 s = Some s"
| "drain K (Suc m) s =
     (case messages s of
        [] \<Rightarrow> Some s
      | (t, k) # ms \<Rightarrow> Option.bind (deliver_next K (s\<lparr>clock := max t (clock s)\<rparr>)) (drain K m))"

lemma weight_send: "mKey s \<notin> fst ` set (mQueuedEvents s) \<Longrightarrow> weight (sendEventDelayed d ev s) = event_weight ev + weight s"
  by (simp add: weight_def sendEventDelayed_def sum_put)

lemma weight_plog [simp]: "weight (s\<lparr>plog := h\<rparr>) = weight s" "weight (s\<lparr>clock := t\<rparr>) = weight s"
  "weight (s\<lparr>results := r\<rparr>) = weight s" "weight (s\<lparr>watched := w\<rparr>) = weight s" "weight (s\<lparr>messages := m\<rparr>) = weight s"
  by (simp_all add: weight_def)

lemma event_run_weight:
  assumes "key_inv n s" "Suc n < 2 ^ 32"
  shows "weight (event_run K e s) < weight s + event_weight e"
proof (cases e)
  case (PmQosOpenTimedEvent rq d)
  obtain fd s1 where 1: "openPmQosNode K rq s = (fd, s1)" by (cases "openPmQosNode K rq s")
  then obtain h where h: "s1 = s\<lparr>plog := h\<rparr>" using openPmQosNode_effect(1) by blast
  then have "key_inv n s1" using assms(1) by simp
  then show ?thesis using PmQosOpenTimedEvent 1 h weight_send key_inv_send(2) [of n s1] assms(2)
    by (simp add: openPmQosTimed_def)
next
  case (PmQosOpenHandleEvent rq c)
  then show ?thesis
    by (auto simp: createHandleForPmQosRequest_def openPmQosNode_def createHandleForFd_def listenForHandleToCloseFd_def call_def Let_def
        case_prod_beta)
qed (simp add: timeoutRequest_def call_def)

lemma weight_zero: "weight s = 0 \<longleftrightarrow> mQueuedEvents s = []"
proof -
  have "0 < event_weight e" for e by (cases e) simp_all
  then show ?thesis by (cases "mQueuedEvents s") (auto simp: weight_def)
qed

lemma drain_empties:
  "key_inv n s \<Longrightarrow> fd_inv K B s \<Longrightarrow> n + m < 2 ^ 32 \<Longrightarrow> loop_accepts K \<Longrightarrow> weight s \<le> m \<Longrightarrow>
    \<exists>s'. drain K m s = Some s' \<and> messages s' = [] \<and> fd_inv K B s' \<and> key_inv (n + m) s'"
proof (induction m arbitrary: n s)
  case 0
  then show ?case using weight_zero [of s] by (auto simp: key_inv_def)
next
  case (Suc m)
  show ?case
  proof (cases "messages s")
    case Nil
    then show ?thesis using Suc.prems key_inv_le [of n s "n + Suc m"] by simp
  next
    case (Cons p ms)
    obtain t k where p: "p = (t, k)" by (cases p)
    define s0 where "s0 = s\<lparr>clock := max t (clock s)\<rparr>"
    have s0: "key_inv n s0" "messages s0 = (t, k) # ms" "t \<le> clock s0" "fd_inv K B s0" "Suc n < 2 ^ 32"
      using Suc.prems Cons p by (simp_all add: s0_def)
    from s0 Suc.prems(4) obtain e where e: "map_of (mQueuedEvents s0) k = Some e"
      and r: "deliver_next K s0 = Some (event_run K e (s0\<lparr>messages := ms, mQueuedEvents := om_erase k (mQueuedEvents s0)\<rparr>))"
        "key_inv (Suc n) (event_run K e (s0\<lparr>messages := ms, mQueuedEvents := om_erase k (mQueuedEvents s0)\<rparr>))"
        "fd_inv K B (event_run K e (s0\<lparr>messages := ms, mQueuedEvents := om_erase k (mQueuedEvents s0)\<rparr>))"
      by (rule deliver_run)
    define s1 where "s1 = s0\<lparr>messages := ms, mQueuedEvents := om_erase k (mQueuedEvents s0)\<rparr>"
    have "weight s1 + event_weight e = weight s"
      using sum_erase [OF _ e, of "\<lambda>p. event_weight (snd p)"] s0(1) by (simp add: weight_def s1_def s0_def key_inv_def)
    moreover have "weight (event_run K e s1) < weight s1 + event_weight e"
      using event_run_weight [OF key_inv_remove(2) [OF s0(1,2)] s0(5)] by (simp add: s1_def)
    ultimately have "weight (event_run K e s1) \<le> m" using Suc.prems(5) by simp
    from Suc.IH [OF r(2,3) [folded s1_def] _ Suc.prems(4) this] Suc.prems(3)
    show ?thesis using Cons p r(1) by (simp add: s0_def [symmetric] s1_def [symmetric])
  qed
qed

section \<open>Properties\<close>

text \<open>C20. The request thread owns its descriptors exactly. After any sequence of timed requests, handle
  requests, deliveries, hang-ups and clock ticks, a descriptor is open as often as before the
  thread started plus once for every pending timeout on it and every watched pipe that needs it:
  nothing leaks and nothing is closed twice. The next message always finds its event.\<close>

theorem poker_descriptors:
  assumes "(poker_step K ^^ n) (poker_new t0 h0) s" "n < 2 ^ 32" "loop_accepts K" "0 \<le> fd"
  shows "balance K (plog s) fd = balance K h0 fd + pending_on fd s + watched_on fd s \<and>
    set (map snd (messages s)) = fst ` set (mQueuedEvents s) \<and> distinct (map snd (messages s))"
  using poker_reach_inv [OF assms(1-3)] assms(4) by (simp add: fd_inv_def key_inv_def)

text \<open>C21. Every timed request ends: when no new request comes, the loop empties its queue within a number
  of deliveries fixed by the queue, and then the only descriptors left open are those of watched
  pipes.\<close>

theorem timed_requests_end:
  assumes "(poker_step K ^^ n) (poker_new t0 h0) s" "n + weight s < 2 ^ 32" "loop_accepts K"
  shows "\<exists>s'. drain K (weight s) s = Some s' \<and> messages s' = [] \<and> mQueuedEvents s' = [] \<and>
    (\<forall>fd \<ge> 0. balance K (plog s') fd = balance K h0 fd + watched_on fd s')"
proof -
  have i: "key_inv n s" "fd_inv K (balance K h0) s" using poker_reach_inv [OF assms(1) _ assms(3)] assms(2) by simp_all
  obtain s' where s': "drain K (weight s) s = Some s'" "messages s' = []" "fd_inv K (balance K h0) s'" "key_inv (n + weight s) s'"
    using drain_empties [OF i assms(2,3) order_refl] by blast
  have "mQueuedEvents s' = []" using s'(2,4) by (simp add: key_inv_def)
  then show ?thesis using s' by (auto simp: fd_inv_def pending_on_def)
qed

text \<open>The command written to a constraint node reads back as the maximum, the minimum, the priority and
  a zero, whenever the priority has at most two digits and one of the bounds is the default -1, as in
  all calls of the power HAL: then the command fits its buffer of twenty bytes.\<close>

lemma constraint_command_reads_back:
  assumes "0 \<le> priority" "priority < 100" "mx = -1 \<or> mn = -1" "-(2 ^ 31) \<le> mx" "mx < 2 ^ 31" "-(2 ^ 31) \<le> mn" "mn < 2 ^ 31"
  shows "map atoi (tokens (createConstraintCommand COMMAND_SIZE priority mx mn)) = [mx, mn, priority, 0]"
proof -
  have one: "length (itoa (-1)) = 2" by (simp add: itoa_def itoa_nat.simps)
  have big: "length (itoa v) \<le> 11" if "-(2 ^ 31) \<le> v" "v < 2 ^ 31" for v
  proof -
    have "\<bar>v\<bar> < 10 ^ 10" using that by (simp add: abs_less_iff)
    then show ?thesis using itoa_length [of v 10] by (simp split: if_splits)
  qed
  have "length (itoa priority) \<le> 2" using itoa_length [of priority 2] assms(1,2) by simp
  moreover have "length (itoa mx) + length (itoa mn) \<le> 13" using assms(3) one big [OF assms(4,5)] big [OF assms(6,7)] by auto
  ultimately have cmd: "createConstraintCommand COMMAND_SIZE priority mx mn =
      itoa mx @ CHR '' '' # itoa mn @ CHR '' '' # itoa priority @ CHR '' '' # ''0''"
    by (simp add: createConstraintCommand_def snprintf_def COMMAND_SIZE_def)
  have "atoi ''0'' = 0" by (simp add: atoi_def blank_def digit_def)
  moreover have "atoi (itoa i) = i" for i using atoi_itoa [of "[]" i] by simp
  ultimately show ?thesis unfolding cmd by (simp add: tokens_one tokens_last)
qed

text \<open>When the message loop refuses a descriptor, the handle is still given to the client as if the
  request could be ended through it, and the descriptor of the request is never closed: the code
  tests the result of \<open>pipe\<close> a second time instead of the result of listening.\<close>

lemma refused_handle_leaks:
  assumes "p_ret (K (plog s) (POpen (request_node rq))) = fd" "0 \<le> fd"
    and "\<forall>h. p_ret (K h PPipe) = 0 \<and> p_client (K h PPipe) = client \<and> p_server (K h PPipe) = server" "server \<noteq> fd"
    and "\<forall>h. p_ret (K h (PAddFd server)) = -1"
  shows "\<exists>s'. createHandleForPmQosRequest K rq s = (client, s') \<and> watched s' = watched s \<and>
    mQueuedEvents s' = mQueuedEvents s \<and> balance K (plog s') fd = balance K (plog s) fd + 1"
proof -
  have w: "fd_delta a (request_write rq fd) f = 0" for a f by (cases rq) (simp_all add: fd_delta_def)
  show ?thesis using assms w
    by (simp add: createHandleForPmQosRequest_def openPmQosNode_def createHandleForFd_def listenForHandleToCloseFd_def call_def Let_def
        fd_delta_open) (simp add: fd_delta_def)
qed

section \<open>Concrete runs\<close>

definition test_os :: os where
  "test_os h c = (case c of
     POpen _ \<Rightarrow> \<lparr> p_ret = 5, p_text = [], p_client = 0, p_server = 0 \<rparr>
   | PPipe \<Rightarrow> \<lparr> p_ret = 0, p_text = [], p_client = 7, p_server = 8 \<rparr>
   | _ \<Rightarrow> \<lparr> p_ret = 1, p_text = [], p_client = 0, p_server = 0 \<rparr>)"

lemma test_os_accepts: "loop_accepts test_os"
  by (simp add: loop_accepts_def test_os_def)

definition test_poker :: poker where
  "test_poker = requestPmQosTimed (NodeVal ''/dev/emc_freq_min'' 792000) 1500000000 (poker_new 0 [])"

lemma test_poker_reached: "(poker_step test_os ^^ 1) (poker_new 0 []) test_poker"
  by (auto simp: test_poker_def intro: poker_step.st_timed)

theorem poker_descriptors_witness: "balance test_os (plog test_poker) 5 = 0 \<and> set (map snd (messages test_poker)) = {0}"
  using poker_descriptors [OF test_poker_reached _ test_os_accepts, of 5]
  by (simp add: test_poker_def requestPmQosTimed_def pushEvent_def sendEventDelayed_def poker_new_def balance_def)

theorem timed_requests_end_witness:
  "\<exists>s'. drain test_os 2 test_poker = Some s' \<and> messages s' = [] \<and> balance test_os (plog s') 5 = watched_on 5 s'"
proof -
  have w: "weight test_poker = 2"
    by (simp add: weight_def test_poker_def requestPmQosTimed_def pushEvent_def sendEventDelayed_def poker_new_def)
  then have "1 + weight test_poker < 2 ^ 32" by simp
  from timed_requests_end [OF test_poker_reached this test_os_accepts] w show ?thesis by (auto simp: balance_def)
qed

end
