(* ===== verification/PowerHAL.thy ===== *)
theory PowerHAL
  imports TimeoutPoker "HOL-Library.Monad_Syntax"
begin

text \<open>
  The common part of the power HAL (\<open>hardware/nvidia/power/nvpowerhal.cpp\<close>) as the build of this device
  configures it: reading the frequency table, the rate limit of hints, the boosts, the limits of
  application profiles and of the camera. The numbers of the hints come from the platform's header
  and are a parameter. An operation that leaves an array is \<open>None\<close>.
\<close>

section \<open>Data\<close>

record hint_codes =
  POWER_HINT_VSYNC :: nat
  POWER_HINT_INTERACTION :: nat
  POWER_HINT_VIDEO_ENCODE :: nat
  POWER_HINT_VIDEO_DECODE :: nat
  POWER_HINT_LOW_POWER :: nat
  POWER_HINT_LAUNCH :: nat
  POWER_HINT_SET_PROFILE :: nat

definition MAX_POWER_HINT_COUNT :: "hint_codes \<Rightarrow> nat" where
  "MAX_POWER_HINT_COUNT H = POWER_HINT_SET_PROFILE H"

record input_dev_map =
  dev_id :: int
  dev_name :: string

record camera_cap =
  min_online_cpus :: int
  max_online_cpus :: int
  cap_freq :: int
  minFreq :: int
  minCpuHint :: int
  maxCpuHint :: int
  minGpuHint :: int
  maxGpuHint :: int
  fpsHint :: int

text \<open>The condition variable that follows the two arrays: its bytes, or initialised.\<close>

datatype cond_var = CondBytes u64 | CondInit

text \<open>The descriptors of the application profile and of the vertical sync boost.\<close>

record app_fds =
  app_min_freq :: int
  app_max_freq :: int
  app_max_online_cpus :: int
  app_min_online_cpus :: int
  app_max_gpu :: int
  app_min_gpu :: int
  vsync_min_cpu :: int

record camera_power =
  fd_gpu :: int
  fd_cpu_freq_min :: int
  fd_cpu_freq_max :: int
  fd_min_online_cpus :: int
  fd_max_online_cpus :: int
  target_fps :: int
  cam_cap :: "camera_cap list"
  usecase_index :: int

text \<open>
  The state. The poker carries the transcript of the whole HAL; before \<open>common_power_open\<close> it stands
  for the transcript only. \<open>phs_loaded\<close> tells whether the two hint functions were found.
\<close>

record powerhal_info =
  mTimeoutPoker :: poker
  available_frequencies :: "int list"
  num_available_frequencies :: int
  lp_max_frequency :: int
  interaction_boost_frequency :: int
  animation_boost_frequency :: int
  cpu0_max_frequency :: int
  ftrace_enable :: bool
  input_cnt :: nat
  input_devs :: "input_dev_map list option"
  hint_time :: "u64 list"
  hint_interval :: "u64 list"
  wait_cond :: cond_var
  hints_thread :: bool
  exit_hints_thread :: bool
  default_min_freq :: int
  default_max_freq :: int
  default_core_cap :: int
  default_gpu_cap :: int
  default_fan_cap :: int
  default_power_cap :: int
  fan :: bool
  fds :: app_fds
  camera :: camera_power
  phs_loaded :: bool
  switch_cpu_emc_limit_enabled :: bool

definition PM_QOS_DEFAULT_VALUE :: int where "PM_QOS_DEFAULT_VALUE = -1"
definition PM_QOS_BOOST_PRIORITY :: int where "PM_QOS_BOOST_PRIORITY = 35"
definition PM_QOS_APP_PROFILE_PRIORITY :: int where "PM_QOS_APP_PROFILE_PRIORITY = 40"
definition VSyncActiveBoostFreq :: int where "VSyncActiveBoostFreq = 300000"
definition INT_MAX :: int where "INT_MAX = 2147483647"
definition PMQOS_CONSTRAINT_CPU_FREQ :: string where "PMQOS_CONSTRAINT_CPU_FREQ = ''/dev/constraint_cpu_freq''"
definition PMQOS_CONSTRAINT_GPU_FREQ :: string where "PMQOS_CONSTRAINT_GPU_FREQ = ''/dev/constraint_gpu_freq''"
definition PMQOS_CONSTRAINT_ONLINE_CPUS :: string where "PMQOS_CONSTRAINT_ONLINE_CPUS = ''/dev/constraint_online_cpus''"

section \<open>Calls of the HAL\<close>

definition logged :: "(pcall list \<Rightarrow> pcall list) \<Rightarrow> powerhal_info \<Rightarrow> powerhal_info" where
  "logged f p = p\<lparr>mTimeoutPoker := (mTimeoutPoker p)\<lparr>plog := f (plog (mTimeoutPoker p))\<rparr>\<rparr>"

definition asked :: "(pcall list \<Rightarrow> 'a \<times> pcall list) \<Rightarrow> powerhal_info \<Rightarrow> 'a \<times> powerhal_info" where
  "asked f p = (fst (f (plog (mTimeoutPoker p))), logged (\<lambda>h. snd (f h)) p)"

definition hal_request :: "os \<Rightarrow> pm_request \<Rightarrow> powerhal_info \<Rightarrow> int \<times> powerhal_info" where
  "hal_request K rq p = asked (requestPmQos K rq) p"

definition hal_close :: "os \<Rightarrow> int \<Rightarrow> powerhal_info \<Rightarrow> powerhal_info" where
  "hal_close K fd p = logged (run K (PClose fd)) p"

definition timed :: "pm_request \<Rightarrow> int \<Rightarrow> powerhal_info \<Rightarrow> powerhal_info" where
  "timed rq timeout p = p\<lparr>mTimeoutPoker := requestPmQosTimed rq timeout (mTimeoutPoker p)\<rparr>"

definition s2ns :: "int \<Rightarrow> int" where "s2ns s = s * 1000000000"
definition ms2ns :: "int \<Rightarrow> int" where "ms2ns ms = ms * 1000000"

section \<open>Input devices\<close>

definition input_path :: "nat \<Rightarrow> string \<Rightarrow> string" where
  "input_path i file = ''/sys/class/input/input'' @ itoa (int i) @ file"

text \<open>Counting ends at the first number without a device.\<close>

partial_function (option) get_input_count :: "os \<Rightarrow> nat \<Rightarrow> powerhal_info \<Rightarrow> (nat \<times> powerhal_info) option" where
  "get_input_count K i p =
     (let (a, p) = asked (sys K (PAccess (input_path i ''/name''))) p
      in if p_ret a < 0 then Some (i, p)
         else
           let (_, p) = asked (sysfs_read K (input_path i ''/name'') (replicate 32 (CHR 0x00)) 32) p
           in get_input_count K (Suc i) p)"

fun name_devices :: "nat \<Rightarrow> string \<Rightarrow> input_dev_map list \<Rightarrow> nat \<times> input_dev_map list" where
  "name_devices i name [] = (0, [])"
| "name_devices i name (d # ds) =
     (let (n, ds) = name_devices i name ds
      in if dev_id d = -1 \<and> strncmp_eq 32 (takeWhile (\<lambda>c. c \<noteq> CHR 0x00) name) (dev_name d)
         then (Suc n, d\<lparr>dev_id := int i\<rparr> # ds) else (n, d # ds))"

partial_function (option) find_input_device_ids :: "os \<Rightarrow> nat \<Rightarrow> nat \<Rightarrow> input_dev_map list \<Rightarrow> powerhal_info \<Rightarrow> powerhal_info option" where
  "find_input_device_ids K i count devs p =
     (let (a, p) = asked (sys K (PAccess (input_path i ''/name''))) p
      in if p_ret a < 0 then Some (p\<lparr>input_devs := Some devs\<rparr>)
         else
           let (name, p) = asked (sysfs_read K (input_path i ''/name'') (replicate 32 (CHR 0x00)) 32) p;
               (n, ds) = name_devices i name (take (input_cnt p) devs);
               devs = ds @ drop (input_cnt p) devs
           in if count + n = input_cnt p then Some (p\<lparr>input_devs := Some devs\<rparr>)
              else find_input_device_ids K (Suc i) (count + n) devs p)"

section \<open>Opening\<close>

text \<open>\<open>strtok\<close> overwrites the delimiter after every token.\<close>

fun strtok_marks :: "bool \<Rightarrow> string \<Rightarrow> string" where
  "strtok_marks inside [] = []"
| "strtok_marks inside (c # s) =
     (if c = CHR 0x00 then c # s
      else if c = CHR '' '' then (if inside then CHR 0x00 else c) # strtok_marks False s
      else c # strtok_marks True s)"

definition buf_atoi :: "string \<Rightarrow> int option" where
  "buf_atoi buf = map_option atoi (cstring buf)"

definition SCALING_AVAILABLE_FREQUENCIES :: string where
  "SCALING_AVAILABLE_FREQUENCIES = ''/sys/devices/system/cpu/cpu0/cpufreq/scaling_available_frequencies''"

text \<open>
  The table is read twice: first its tokens are counted, from -1 on, then as many are converted. A
  missing token in the second reading is a null pointer.
\<close>

definition read_frequencies :: "os \<Rightarrow> powerhal_info \<Rightarrow> (string \<times> powerhal_info) option" where
  "read_frequencies K p =
     (let (buf, p) = asked (sysfs_read K SCALING_AVAILABLE_FREQUENCIES (replicate 256 (CHR 0x00)) 256) p in
      do { s \<leftarrow> cstring buf;
           let num = int (length (tokens s)) - 1;
           let (buf, p) = asked (sysfs_read K SCALING_AVAILABLE_FREQUENCIES (strtok_marks False buf) 256) p;
           s \<leftarrow> cstring buf;
           if int (length (tokens s)) < num then None
           else Some (strtok_marks False buf,
                  p\<lparr>num_available_frequencies := num, available_frequencies := map atoi (take (nat num) (tokens s))\<rparr>) })"

definition first_at_least :: "int \<Rightarrow> int list \<Rightarrow> int \<Rightarrow> int" where
  "first_at_least f fs d = (case filter (\<lambda>x. x \<ge> f) fs of [] \<Rightarrow> d | x # _ \<Rightarrow> x)"

text \<open>
  A store into the array of intervals: one element past its end lies the condition variable, the
  next member of the structure.
\<close>

definition set_interval :: "nat \<Rightarrow> u64 \<Rightarrow> powerhal_info \<Rightarrow> powerhal_info option" where
  "set_interval i v p =
     (if i < length (hint_interval p) then Some (p\<lparr>hint_interval := (hint_interval p)[i := v]\<rparr>)
      else if i = length (hint_interval p) then Some (p\<lparr>wait_cond := CondBytes v\<rparr>)
      else None)"

definition init_intervals :: "hint_codes \<Rightarrow> powerhal_info \<Rightarrow> powerhal_info option" where
  "init_intervals H p =
     do { p \<leftarrow> set_interval (POWER_HINT_VSYNC H) 0 p;
          p \<leftarrow> set_interval (POWER_HINT_INTERACTION H) 90000 p;
          p \<leftarrow> set_interval (POWER_HINT_SET_PROFILE H) 200000 p;
          p \<leftarrow> set_interval (POWER_HINT_LAUNCH H) 1500000 p;
          p \<leftarrow> set_interval (POWER_HINT_VIDEO_DECODE H) 500000 p;
          p \<leftarrow> set_interval (POWER_HINT_VIDEO_ENCODE H) 500000 p;
          set_interval (POWER_HINT_LOW_POWER H) 0 p }"

definition no_fds :: app_fds where
  "no_fds = \<lparr> app_min_freq = -1, app_max_freq = -1, app_max_online_cpus = -1, app_min_online_cpus = -1,
     app_max_gpu = -1, app_min_gpu = -1, vsync_min_cpu = -1 \<rparr>"

definition init_defaults :: "powerhal_info \<Rightarrow> powerhal_info" where
  "init_defaults p =
     p\<lparr>default_min_freq := 0, default_max_freq := PM_QOS_DEFAULT_VALUE, default_core_cap := PM_QOS_DEFAULT_VALUE,
       default_gpu_cap := PM_QOS_DEFAULT_VALUE, default_fan_cap := 70, default_power_cap := 0, fds := no_fds\<rparr>"

text \<open>The functions of the hint library; a handle is a positive answer.\<close>

definition common_libphs_open :: "os \<Rightarrow> powerhal_info \<Rightarrow> powerhal_info" where
  "common_libphs_open K p =
     (let (a, p) = asked (sys K (PDlopen ''libphs.so'')) p
      in if p_ret a > 0 then
           let (f, p) = asked (sys K (PDlsym ''NvVaSendThroughputHints'')) p;
               (g, p) = asked (sys K (PDlsym ''NvCancelThroughputHints'')) p
           in p\<lparr>phs_loaded := (p_ret f > 0 \<and> p_ret g > 0)\<rparr>
         else p\<lparr>phs_loaded := False\<rparr>)"

definition common_power_open :: "hint_codes \<Rightarrow> os \<Rightarrow> powerhal_info \<Rightarrow> powerhal_info option" where
  "common_power_open H K p =
     do { p \<leftarrow> (case input_devs p of
                 Some devs \<Rightarrow>
                   if input_cnt p \<noteq> 0 then find_input_device_ids K 0 0 devs p
                   else map_option (\<lambda>(n, p). p\<lparr>input_cnt := n\<rparr>) (get_input_count K 0 p)
               | None \<Rightarrow> map_option (\<lambda>(n, p). p\<lparr>input_cnt := n\<rparr>) (get_input_count K 0 p));
          let p = p\<lparr>mTimeoutPoker := poker_new (clock (mTimeoutPoker p)) (plog (mTimeoutPoker p))\<rparr>;
          (buf, p) \<leftarrow> read_frequencies K p;
          let (buf, p) = asked (sysfs_read K ''/sys/devices/system/cpu/cpuquiet/tegra_cpuquiet/idle_top_freq'' buf 256) p;
          lp \<leftarrow> buf_atoi buf;
          let p = p\<lparr>lp_max_frequency := lp,
                    interaction_boost_frequency := first_at_least 1326000 (available_frequencies p) lp,
                    animation_boost_frequency := first_at_least 1024000 (available_frequencies p) lp\<rparr>;
          let (buf, p) = asked (sysfs_read K ''/sys/devices/system/cpu/cpu0/cpufreq/cpuinfo_max_freq'' buf 256) p;
          mx \<leftarrow> buf_atoi buf;
          p \<leftarrow> init_intervals H (p\<lparr>cpu0_max_frequency := mx\<rparr>);
          let (f, p) = asked (sysfs_exists K ''/sys/devices/platform/pwm-fan/pwm_cap'') (init_defaults p);
          Some (common_libphs_open K (p\<lparr>fan := f\<rparr>)) }"

text \<open>The boost at boot asks for the last frequency of the table.\<close>

definition common_power_init :: "hint_codes \<Rightarrow> os \<Rightarrow> powerhal_info \<Rightarrow> powerhal_info option" where
  "common_power_init H K p =
     do { p \<leftarrow> common_power_open H K p;
          let (ft, p) = asked (get_property_bool K ''nvidia.hwc.ftrace_enable'' False) p;
          let p = p\<lparr>ftrace_enable := ft\<rparr>;
          let i = num_available_frequencies p - 1;
          if i < 0 \<or> int (length (available_frequencies p)) \<le> i then None
          else
            let p = timed (NodePriority PMQOS_CONSTRAINT_CPU_FREQ PM_QOS_BOOST_PRIORITY PM_QOS_DEFAULT_VALUE
                             (available_frequencies p ! nat i)) (s2ns 15) p;
                (e, p) = asked (sysfs_exists K ''/sys/kernel/tegra_cpu_emc/table_src'') p
            in Some (p\<lparr>switch_cpu_emc_limit_enabled := e\<rparr>) }"

definition common_power_camera_init :: "camera_cap list \<Rightarrow> powerhal_info option \<Rightarrow> powerhal_info option" where
  "common_power_camera_init cap pInfo =
     map_option (\<lambda>p. p\<lparr>camera := \<lparr> fd_gpu = -1, fd_cpu_freq_min = -1, fd_cpu_freq_max = -1, fd_min_online_cpus = -1,
                        fd_max_online_cpus = 0, target_fps = 0, cam_cap = cap, usecase_index = -1 \<rparr>,
                      wait_cond := CondInit, hints_thread := False, exit_hints_thread := False\<rparr>) pInfo"

definition is_available_frequency :: "int \<Rightarrow> powerhal_info \<Rightarrow> bool" where
  "is_available_frequency f p \<longleftrightarrow> f \<in> set (take (nat (num_available_frequencies p)) (available_frequencies p))"

section \<open>Limits\<close>

text \<open>
  The setters of the application profile share one pattern: close the descriptor that is held, open
  the node, keep the new descriptor. The descriptor is a field of \<open>fds\<close>, given by its reader and its
  update.
\<close>

definition replace_fd :: "os \<Rightarrow> (app_fds \<Rightarrow> int) \<Rightarrow> ((int \<Rightarrow> int) \<Rightarrow> app_fds \<Rightarrow> app_fds) \<Rightarrow> pm_request \<Rightarrow> powerhal_info \<Rightarrow> powerhal_info" where
  "replace_fd K get upd rq p =
     (let p = (if get (fds p) \<ge> 0 then (hal_close K (get (fds p)) p)\<lparr>fds := upd (\<lambda>_. -1) (fds p)\<rparr> else p);
          (fd, p) = hal_request K rq p
      in p\<lparr>fds := upd (\<lambda>_. fd) (fds p)\<rparr>)"

definition set_vsync_min_cpu_freq :: "os \<Rightarrow> bool \<Rightarrow> powerhal_info \<Rightarrow> powerhal_info" where
  "set_vsync_min_cpu_freq K enabled p =
     (if enabled \<and> vsync_min_cpu (fds p) = -1 then
        let (fd, p) = hal_request K (NodePriority PMQOS_CONSTRAINT_CPU_FREQ PM_QOS_BOOST_PRIORITY PM_QOS_DEFAULT_VALUE VSyncActiveBoostFreq) p
        in p\<lparr>fds := (fds p)\<lparr>vsync_min_cpu := fd\<rparr>\<rparr>
      else if \<not> enabled \<and> vsync_min_cpu (fds p) \<ge> 0 then
        (hal_close K (vsync_min_cpu (fds p)) p)\<lparr>fds := (fds p)\<lparr>vsync_min_cpu := -1\<rparr>\<rparr>
      else p)"

definition profile_request :: "string \<Rightarrow> int \<Rightarrow> int \<Rightarrow> pm_request" where
  "profile_request node mx mn = NodePriority node PM_QOS_APP_PROFILE_PRIORITY mx mn"

definition set_app_profile_min_cpu_freq :: "os \<Rightarrow> int \<Rightarrow> powerhal_info \<Rightarrow> powerhal_info" where
  "set_app_profile_min_cpu_freq K v p =
     (let v = (if v < 0 then default_min_freq p else v)
      in replace_fd K app_min_freq app_min_freq_update (profile_request PMQOS_CONSTRAINT_CPU_FREQ PM_QOS_DEFAULT_VALUE v) p)"

definition set_app_profile_max_cpu_freq :: "os \<Rightarrow> int \<Rightarrow> powerhal_info \<Rightarrow> powerhal_info" where
  "set_app_profile_max_cpu_freq K v p =
     (let v = (if v \<le> 0 then default_max_freq p else v)
      in replace_fd K app_max_freq app_max_freq_update (profile_request PMQOS_CONSTRAINT_CPU_FREQ v PM_QOS_DEFAULT_VALUE) p)"

text \<open>The product is a 32-bit integer; the quotient truncates towards zero.\<close>

definition percent_of :: "int \<Rightarrow> int \<Rightarrow> int" where
  "percent_of percent f = (let x = sint (word_of_int (percent * f) :: 32 word) in sgn x * (\<bar>x\<bar> div 100))"

definition set_app_profile_max_cpu_freq_percent :: "os \<Rightarrow> int \<Rightarrow> powerhal_info \<Rightarrow> powerhal_info" where
  "set_app_profile_max_cpu_freq_percent K percent p =
     (let percent = (if percent = PM_QOS_DEFAULT_VALUE then 100 else percent);
          target = (if 0 < percent \<and> percent \<le> 100 \<and> cpu0_max_frequency p \<ge> 0
                    then percent_of percent (cpu0_max_frequency p) else cpu0_max_frequency p)
      in set_app_profile_max_cpu_freq K target p)"

definition set_app_profile_max_online_cpus :: "os \<Rightarrow> int \<Rightarrow> powerhal_info \<Rightarrow> powerhal_info" where
  "set_app_profile_max_online_cpus K v p =
     (let v = (if v \<le> 0 then default_core_cap p else v)
      in replace_fd K app_max_online_cpus app_max_online_cpus_update
           (profile_request PMQOS_CONSTRAINT_ONLINE_CPUS v PM_QOS_DEFAULT_VALUE) p)"

definition set_app_profile_min_online_cpus :: "os \<Rightarrow> int \<Rightarrow> powerhal_info \<Rightarrow> powerhal_info" where
  "set_app_profile_min_online_cpus K v p =
     replace_fd K app_min_online_cpus app_min_online_cpus_update
       (profile_request PMQOS_CONSTRAINT_ONLINE_CPUS PM_QOS_DEFAULT_VALUE v) p"

definition set_app_profile_min_gpu_freq :: "os \<Rightarrow> int \<Rightarrow> powerhal_info \<Rightarrow> powerhal_info" where
  "set_app_profile_min_gpu_freq K v p =
     replace_fd K app_min_gpu app_min_gpu_update
       (profile_request PMQOS_CONSTRAINT_GPU_FREQ PM_QOS_DEFAULT_VALUE (if v \<noteq> 0 then 0 else INT_MAX)) p"

definition set_app_profile_max_gpu_freq :: "os \<Rightarrow> int \<Rightarrow> powerhal_info \<Rightarrow> powerhal_info" where
  "set_app_profile_max_gpu_freq K v p =
     (let v = (if v \<le> 0 then default_gpu_cap p else v)
      in replace_fd K app_max_gpu app_max_gpu_update (profile_request PMQOS_CONSTRAINT_GPU_FREQ v PM_QOS_DEFAULT_VALUE) p)"

definition set_prism_control_enable :: "os \<Rightarrow> int \<Rightarrow> powerhal_info \<Rightarrow> powerhal_info" where
  "set_prism_control_enable K v p = logged (set_property_int K ''persist.sys.didim.enable'' (if v \<noteq> 0 then 1 else 0)) p"

definition set_pbc_power :: "os \<Rightarrow> int \<Rightarrow> powerhal_info \<Rightarrow> powerhal_info" where
  "set_pbc_power K v p = logged (set_property_int K ''persist.sys.NV_PBC_PWR_LIMIT'' (if v < 0 then default_power_cap p else v)) p"

definition set_fan_cap :: "os \<Rightarrow> int \<Rightarrow> powerhal_info \<Rightarrow> powerhal_info" where
  "set_fan_cap K v p =
     (if \<not> fan p then p
      else logged (sysfs_write_int K ''/sys/devices/platform/pwm-fan/pwm_cap'' (if v < 0 then default_fan_cap p else v)) p)"

section \<open>Camera\<close>

text \<open>The camera setters close whatever descriptor is not -1.\<close>

definition camera_fd :: "os \<Rightarrow> (camera_power \<Rightarrow> int) \<Rightarrow> ((int \<Rightarrow> int) \<Rightarrow> camera_power \<Rightarrow> camera_power) \<Rightarrow> pm_request \<Rightarrow>
    powerhal_info \<Rightarrow> powerhal_info" where
  "camera_fd K get upd rq p =
     (let p = (if get (camera p) \<noteq> -1 then hal_close K (get (camera p)) p else p);
          (fd, p) = hal_request K rq p
      in p\<lparr>camera := upd (\<lambda>_. fd) (camera p)\<rparr>)"

definition set_camera_cpu_freq_min :: "os \<Rightarrow> int \<Rightarrow> powerhal_info \<Rightarrow> powerhal_info" where
  "set_camera_cpu_freq_min K v p =
     (if v > 0 then camera_fd K fd_cpu_freq_min fd_cpu_freq_min_update (NodeVal ''/dev/cpu_freq_min'' v) p else p)"

definition set_camera_cpu_freq_max :: "os \<Rightarrow> int \<Rightarrow> powerhal_info \<Rightarrow> powerhal_info" where
  "set_camera_cpu_freq_max K v p =
     (if v > 0 then camera_fd K fd_cpu_freq_max fd_cpu_freq_max_update (NodeVal ''/dev/cpu_freq_max'' v) p else p)"

definition set_camera_min_online_cpus :: "os \<Rightarrow> int \<Rightarrow> powerhal_info \<Rightarrow> powerhal_info" where
  "set_camera_min_online_cpus K v p = camera_fd K fd_min_online_cpus fd_min_online_cpus_update (NodeVal ''/dev/min_online_cpus'' v) p"

definition set_camera_max_online_cpus :: "os \<Rightarrow> int \<Rightarrow> powerhal_info \<Rightarrow> powerhal_info" where
  "set_camera_max_online_cpus K v p =
     (if v > 0 then camera_fd K fd_max_online_cpus fd_max_online_cpus_update (NodeVal ''/dev/max_online_cpus'' v) p else p)"

definition NvUsecase_camera :: int where "NvUsecase_camera = 4"

definition set_camera_single_phs_hint :: "os \<Rightarrow> int \<Rightarrow> int \<Rightarrow> powerhal_info \<Rightarrow> powerhal_info" where
  "set_camera_single_phs_hint K hintType v p =
     (if phs_loaded p then logged (run K (PSendHint NvUsecase_camera hintType v)) p else p)"

definition set_camera_phs_hints :: "os \<Rightarrow> camera_cap \<Rightarrow> powerhal_info \<Rightarrow> powerhal_info" where
  "set_camera_phs_hints K cap p =
     (let p = (if minCpuHint cap \<noteq> 0 then set_camera_single_phs_hint K 2 (minCpuHint cap) p else p);
          p = (if maxCpuHint cap \<noteq> 0 then set_camera_single_phs_hint K 3 (maxCpuHint cap) p else p);
          p = (if minGpuHint cap \<noteq> 0 then set_camera_single_phs_hint K 4 (minGpuHint cap) p else p);
          p = (if maxGpuHint cap \<noteq> 0 then set_camera_single_phs_hint K 5 (maxGpuHint cap) p else p)
      in if fpsHint cap \<noteq> 0 then p\<lparr>camera := (camera p)\<lparr>target_fps := fpsHint cap\<rparr>\<rparr> else p)"

definition release_camera_fd :: "os \<Rightarrow> (camera_power \<Rightarrow> int) \<Rightarrow> ((int \<Rightarrow> int) \<Rightarrow> camera_power \<Rightarrow> camera_power) \<Rightarrow>
    powerhal_info \<Rightarrow> powerhal_info" where
  "release_camera_fd K get upd p =
     (if get (camera p) \<noteq> -1 then (hal_close K (get (camera p)) p)\<lparr>camera := upd (\<lambda>_. -1) (camera p)\<rparr> else p)"

definition release_app_min_freq :: "os \<Rightarrow> powerhal_info \<Rightarrow> powerhal_info" where
  "release_app_min_freq K p =
     (if app_min_freq (fds p) \<ge> 0
      then (hal_close K (app_min_freq (fds p)) p)\<lparr>fds := (fds p)\<lparr>app_min_freq := -1\<rparr>\<rparr> else p)"

definition cancel_usecase :: "os \<Rightarrow> powerhal_info \<Rightarrow> powerhal_info" where
  "cancel_usecase K p =
     (if usecase_index (camera p) \<noteq> -1 then
        let p = p\<lparr>camera := (camera p)\<lparr>usecase_index := -1\<rparr>\<rparr>
        in if phs_loaded p then logged (run K (PCancelHints NvUsecase_camera 0)) p else p
      else p)"

definition reset_camera_hint :: "os \<Rightarrow> powerhal_info \<Rightarrow> powerhal_info" where
  "reset_camera_hint K p =
     (let p = p\<lparr>camera := (camera p)\<lparr>fd_gpu := -1, target_fps := 0\<rparr>\<rparr>;
          p = release_camera_fd K fd_cpu_freq_min fd_cpu_freq_min_update p;
          p = release_camera_fd K fd_cpu_freq_max fd_cpu_freq_max_update p;
          p = release_app_min_freq K p;
          p = release_camera_fd K fd_min_online_cpus fd_min_online_cpus_update p;
          p = release_camera_fd K fd_max_online_cpus fd_max_online_cpus_update p
      in cancel_usecase K p)"

text \<open>
  One round of the hints thread: it ends when told to or when it is signalled, and sends the hints of
  the use case when its wait of a second has timed out. \<open>None\<close> is an index outside the table.
\<close>

definition CAMERA_USECASE_COUNT :: int where "CAMERA_USECASE_COUNT = 4"

definition regular_hints_round :: "os \<Rightarrow> bool \<Rightarrow> powerhal_info \<Rightarrow> (bool \<times> powerhal_info) option" where
  "regular_hints_round K timedout p =
     (if exit_hints_thread p then Some (False, p)
      else if \<not> timedout then Some (False, p)
      else if 0 \<le> usecase_index (camera p) \<and> usecase_index (camera p) < CAMERA_USECASE_COUNT then
        if nat (usecase_index (camera p)) < length (cam_cap (camera p))
        then Some (True, set_camera_phs_hints K (cam_cap (camera p) ! nat (usecase_index (camera p))) p)
        else None
      else Some (True, p))"

text \<open>Starting and stopping the thread, as the caller sees it: it is joined before the call returns.\<close>

definition send_regular_hints :: "bool \<Rightarrow> powerhal_info \<Rightarrow> powerhal_info" where
  "send_regular_hints created p = (if hints_thread p then p else p\<lparr>hints_thread := created\<rparr>)"

definition wait_for_regular_hints_thread :: "powerhal_info \<Rightarrow> powerhal_info" where
  "wait_for_regular_hints_thread p =
     (if hints_thread p then p\<lparr>hints_thread := False, exit_hints_thread := False\<rparr> else p)"

section \<open>Hints\<close>

text \<open>
  The time of a hint in microseconds. Seconds and nanoseconds are \<open>long\<close>, 32 bits wide on this device,
  and so are their product and sum, which wrap; the sum is then extended to 64 bits with its sign.
\<close>

definition hint_clock :: "int \<Rightarrow> int \<Rightarrow> u64" where
  "hint_clock tv_sec tv_nsec = scast (word_of_int tv_sec * 1000000 + word_of_int (tv_nsec div 1000) :: 32 word)"

text \<open>The time when the hint is accepted.\<close>

definition check_hint :: "hint_codes \<Rightarrow> nat \<Rightarrow> int \<Rightarrow> int \<Rightarrow> powerhal_info \<Rightarrow> u64 option" where
  "check_hint H hint tv_sec tv_nsec p =
     (if hint \<ge> MAX_POWER_HINT_COUNT H then None
      else
        let time = hint_clock tv_sec tv_nsec
        in if hint_time p ! hint \<noteq> 0 \<and> hint_interval p ! hint \<noteq> 0 \<and> time - hint_time p ! hint < hint_interval p ! hint then None
           else Some time)"

definition boost :: "string \<Rightarrow> int \<Rightarrow> int \<Rightarrow> powerhal_info \<Rightarrow> powerhal_info" where
  "boost node mn timeout p = timed (NodePriority node PM_QOS_BOOST_PRIORITY PM_QOS_DEFAULT_VALUE mn) timeout p"

definition hint_action :: "hint_codes \<Rightarrow> os \<Rightarrow> nat \<Rightarrow> int option \<Rightarrow> powerhal_info \<Rightarrow> powerhal_info" where
  "hint_action H K hint data p =
     (if hint = POWER_HINT_VSYNC H then
        (case data of None \<Rightarrow> p | Some v \<Rightarrow> set_vsync_min_cpu_freq K (v \<noteq> 0) p)
      else if hint = POWER_HINT_LAUNCH H then
        timed (NodeVal ''/dev/emc_freq_min'' 792000) (ms2ns 1500)
          (boost PMQOS_CONSTRAINT_GPU_FREQ 180000 (ms2ns 1500)
            (boost PMQOS_CONSTRAINT_ONLINE_CPUS 2 (ms2ns 1500)
              (boost PMQOS_CONSTRAINT_CPU_FREQ INT_MAX (ms2ns 1500) p)))
      else if hint = POWER_HINT_VIDEO_ENCODE H then
        boost PMQOS_CONSTRAINT_CPU_FREQ 816000 (s2ns 1) (boost PMQOS_CONSTRAINT_ONLINE_CPUS 2 (s2ns 1) p)
      else if hint = POWER_HINT_VIDEO_DECODE H then
        boost PMQOS_CONSTRAINT_CPU_FREQ 710000 (s2ns 1) (boost PMQOS_CONSTRAINT_ONLINE_CPUS 1 (s2ns 1) p)
      else p)"

definition common_power_hint :: "hint_codes \<Rightarrow> os \<Rightarrow> nat \<Rightarrow> int option \<Rightarrow> int \<Rightarrow> int \<Rightarrow> powerhal_info option \<Rightarrow> powerhal_info option" where
  "common_power_hint H K hint data tv_sec tv_nsec pInfo =
     map_option (\<lambda>p.
       (case check_hint H hint tv_sec tv_nsec p of
          None \<Rightarrow> p
        | Some t \<Rightarrow> let p = hint_action H K hint data p in p\<lparr>hint_time := (hint_time p)[hint := t]\<rparr>)) pInfo"

section \<open>Display state\<close>

definition set_input_enabled :: "os \<Rightarrow> string \<Rightarrow> int \<Rightarrow> powerhal_info \<Rightarrow> powerhal_info" where
  "set_input_enabled K state i p =
     (let path = ''/sys/class/input/input'' @ itoa i @ ''/enabled'';
          (a, p) = asked (sys K (PAccess path)) p
      in if p_ret a = 0 then logged (sysfs_write K path state) p else p)"

definition input_device :: "powerhal_info \<Rightarrow> nat \<Rightarrow> int option" where
  "input_device p i =
     (case input_devs p of
        None \<Rightarrow> Some (int i)
      | Some devs \<Rightarrow> if dev_id (devs ! i) = -1 then None else Some (dev_id (devs ! i)))"

definition set_inputs_enabled :: "os \<Rightarrow> string \<Rightarrow> powerhal_info \<Rightarrow> powerhal_info" where
  "set_inputs_enabled K state p =
     fold (\<lambda>i p. case input_device p i of None \<Rightarrow> p | Some d \<Rightarrow> set_input_enabled K state d p) [0..<input_cnt p] p"

definition governor_settings :: "bool \<Rightarrow> (string \<times> string) list" where
  "governor_settings on =
     [(''hispeed_freq'', if on then ''624000'' else ''420000''),
      (''target_loads'', if on then ''65 228000:75 624000:85'' else ''45 312000:75 564000:85''),
      (''above_hispeed_delay'', if on then ''19000'' else ''80000''),
      (''timer_rate'', if on then ''20000'' else ''300000''),
      (''boost_factor'', if on then ''0'' else ''2'')]"

definition set_governor :: "os \<Rightarrow> bool \<Rightarrow> powerhal_info \<Rightarrow> powerhal_info" where
  "set_governor K on p =
     fold (\<lambda>(node, v). logged (sysfs_write K (''/sys/devices/system/cpu/cpufreq/interactive/'' @ node) v)) (governor_settings on) p"

definition common_power_set_interactive :: "os \<Rightarrow> int \<Rightarrow> powerhal_info \<Rightarrow> powerhal_info" where
  "common_power_set_interactive K on p =
     (let state = (if on = 0 then ''0'' else ''1'');
          p = logged (sysfs_write K ''/sys/devices/platform/host1x/nvavp/boost_sclk'' state) p;
          p = set_inputs_enabled K state p;
          p = (if switch_cpu_emc_limit_enabled p then logged (sysfs_write_int K ''/sys/kernel/tegra_cpu_emc/table_src'' on) p else p)
      in set_governor K (on \<noteq> 0) p)"

end
