(* ===== verification/PowerHALProps.thy ===== *)
theory PowerHALProps
  imports PowerHAL
begin

text \<open>
  Properties of the power HAL: the rate limit of hints, the frequency table, and the descriptors the
  HAL holds.
\<close>

section \<open>Rate limit\<close>

definition micros :: "int \<Rightarrow> int \<Rightarrow> int" where
  "micros tv_sec tv_nsec = tv_sec * 1000000 + tv_nsec div 1000"

record hint_call =
  hc_hint :: nat
  hc_data :: "int option"
  hc_sec :: int
  hc_nsec :: int

definition hc_time :: "hint_call \<Rightarrow> int" where
  "hc_time c = micros (hc_sec c) (hc_nsec c)"

text \<open>The hints one after the other, with the times at which those of one kind are accepted.\<close>

fun accepted_times :: "hint_codes \<Rightarrow> os \<Rightarrow> nat \<Rightarrow> hint_call list \<Rightarrow> powerhal_info \<Rightarrow> int list" where
  "accepted_times H K k [] p = []"
| "accepted_times H K k (c # cs) p =
     (case common_power_hint H K (hc_hint c) (hc_data c) (hc_sec c) (hc_nsec c) (Some p) of
        None \<Rightarrow> []
      | Some p' \<Rightarrow>
          (if hc_hint c = k \<and> check_hint H k (hc_sec c) (hc_nsec c) p \<noteq> None then [hc_time c] else []) @ accepted_times H K k cs p')"

lemma logged_fields [simp]: "hint_time (logged f p) = hint_time p" "hint_interval (logged f p) = hint_interval p"
  "fds (logged f p) = fds p" "plog (mTimeoutPoker (logged f p)) = f (plog (mTimeoutPoker p))"
  "mKey (mTimeoutPoker (logged f p)) = mKey (mTimeoutPoker p)"
  by (simp_all add: logged_def)

lemma hint_action_keeps [simp]: "hint_time (hint_action H K hint data p) = hint_time p" "hint_interval (hint_action H K hint data p) = hint_interval p"
  by (auto simp: hint_action_def boost_def timed_def set_vsync_min_cpu_freq_def hal_request_def asked_def hal_close_def Let_def split: option.split)

lemma hint_clock_micros:
  assumes "0 \<le> micros s n" "micros s n < 2 ^ 31"
  shows "hint_clock s n = word_of_int (micros s n)"
proof -
  have w: "word_of_int s * 1000000 + word_of_int (n div 1000) = (word_of_int (micros s n) :: 32 word)"
    by (simp add: micros_def)
  have "sint (word_of_int (micros s n) :: 32 word) = micros s n"
    using assms by (simp add: int_word_sint)
  then show ?thesis unfolding hint_clock_def w by (simp add: scast_eq)
qed

text \<open>The remembered time of a kind of hint: none yet, or the last one accepted.\<close>

definition remembers :: "nat \<Rightarrow> int option \<Rightarrow> powerhal_info \<Rightarrow> bool" where
  "remembers k r p \<longleftrightarrow> k < length (hint_time p) \<and>
     (case r of None \<Rightarrow> hint_time p ! k = 0 | Some x \<Rightarrow> 0 < x \<and> x < 2 ^ 31 \<and> hint_time p ! k = word_of_int x)"

lemma u64_small: "0 \<le> x \<Longrightarrow> x < 2 ^ 31 \<Longrightarrow> uint (word_of_int x :: u64) = x"
  by (simp add: uint_word_of_int)

lemma check_hint_spaced:
  assumes "remembers k r p" "k < MAX_POWER_HINT_COUNT H" "hint_interval p ! k \<noteq> 0" "0 < micros s n" "micros s n < 2 ^ 31"
    and "\<And>x. r = Some x \<Longrightarrow> x \<le> micros s n"
  shows "check_hint H k s n p =
    (if \<exists>x. r = Some x \<and> micros s n < x + uint (hint_interval p ! k) then None else Some (word_of_int (micros s n)))"
proof (cases r)
  case None
  then show ?thesis using assms by (simp add: check_hint_def remembers_def hint_clock_micros Let_def)
next
  case (Some x)
  then have x: "0 < x" "x \<le> micros s n" "hint_time p ! k = word_of_int x" "x < 2 ^ 31"
    using assms(1,6) by (auto simp: remembers_def)
  then have "hint_time p ! k \<noteq> 0" using u64_small [of x] by auto
  moreover have "word_of_int (micros s n) - word_of_int x = (word_of_int (micros s n - x) :: u64)" by simp
  then have "uint (word_of_int (micros s n) - word_of_int x :: u64) = micros s n - x"
    using u64_small [of "micros s n - x"] x(1,2) assms(5) by simp
  ultimately show ?thesis using Some assms(2-5) x(3)
    by (simp add: check_hint_def hint_clock_micros Let_def word_less_def)
qed

lemma common_power_hint_keeps:
  assumes "common_power_hint H K h d s n (Some p) = Some p'"
  shows "hint_interval p' = hint_interval p" "length (hint_time p') = length (hint_time p)"
    "k \<noteq> h \<Longrightarrow> hint_time p' ! k = hint_time p ! k"
    "k < length (hint_time p) \<Longrightarrow> hint_time p' ! k =
       (case check_hint H h s n p of Some t \<Rightarrow> if k = h then t else hint_time p ! k | None \<Rightarrow> hint_time p ! k)"
  using assms by (auto simp: common_power_hint_def Let_def split: option.splits)

lemma accepted_spaced:
  assumes "k < MAX_POWER_HINT_COUNT H" "remembers k r p" "hint_interval p ! k = iv" "iv \<noteq> 0"
    and "sorted (map hc_time cs)" "\<forall>c \<in> set cs. 0 < hc_time c \<and> hc_time c < 2 ^ 31"
    and "\<forall>x. r = Some x \<longrightarrow> (\<forall>c \<in> set cs. x \<le> hc_time c)"
  shows "sorted_wrt (\<lambda>x y. x + uint iv \<le> y) (accepted_times H K k cs p) \<and>
    (\<forall>x. r = Some x \<longrightarrow> (\<forall>y \<in> set (accepted_times H K k cs p). x + uint iv \<le> y))"
  using assms(2-)
proof (induction cs arbitrary: p r)
  case (Cons c cs)
  obtain p' where run: "common_power_hint H K (hc_hint c) (hc_data c) (hc_sec c) (hc_nsec c) (Some p) = Some p'"
    by (simp add: common_power_hint_def)
  note keeps = common_power_hint_keeps [OF run]
  have iv: "hint_interval p' ! k = iv" "k < length (hint_time p')" using Cons.prems(1,2) keeps(1,2) by (simp_all add: remembers_def)
  have tail: "sorted (map hc_time cs)" "\<forall>c \<in> set cs. 0 < hc_time c \<and> hc_time c < 2 ^ 31" "\<forall>d \<in> set cs. hc_time c \<le> hc_time d"
    using Cons.prems(4,5) by auto
  have t: "0 < hc_time c" "hc_time c < 2 ^ 31" using Cons.prems(5) by simp_all
  define ok where "ok \<longleftrightarrow> hc_hint c = k \<and> check_hint H k (hc_sec c) (hc_nsec c) p \<noteq> None"
  have acc: "accepted_times H K k (c # cs) p = (if ok then [hc_time c] else []) @ accepted_times H K k cs p'"
    using run by (simp add: ok_def)
  have chk: "check_hint H k (hc_sec c) (hc_nsec c) p =
      (if \<exists>x. r = Some x \<and> hc_time c < x + uint iv then None else Some (word_of_int (hc_time c)))"
    unfolding hc_time_def using Cons.prems assms(1) t
    by (subst check_hint_spaced [of k r]) (auto simp: hc_time_def)
  show ?case
  proof (cases ok)
    case True
    then have h: "hc_hint c = k" "\<And>x. r = Some x \<Longrightarrow> x + uint iv \<le> hc_time c" and ht: "check_hint H k (hc_sec c) (hc_nsec c) p = Some (word_of_int (hc_time c))"
      using chk by (auto simp: ok_def split: if_splits)
    have "remembers k (Some (hc_time c)) p'" using keeps(4) [of k] iv(2) keeps(2) h(1) ht t by (simp add: remembers_def)
    from Cons.IH [OF this iv(1) Cons.prems(3) tail(1,2)] tail(3)
    have *: "sorted_wrt (\<lambda>x y. x + uint iv \<le> y) (accepted_times H K k cs p')" "\<forall>y \<in> set (accepted_times H K k cs p'). hc_time c + uint iv \<le> y"
      by auto
    have "x + uint iv \<le> y" if "r = Some x" "y \<in> set (accepted_times H K k cs p')" for x y
    proof -
      have "hc_time c \<le> y" using bspec [OF *(2) that(2)] uint_ge_0 [of iv] by linarith
      then show ?thesis using h(2) [OF that(1)] by simp
    qed
    then show ?thesis unfolding acc using True * h(2) by auto
  next
    case False
    then have "remembers k r p'" using Cons.prems(1) keeps(4) [of k] iv(2) keeps(2)
      by (auto simp: ok_def remembers_def split: option.splits)
    from Cons.IH [OF this iv(1) Cons.prems(3) tail(1,2)] Cons.prems(6) show ?thesis unfolding acc using False by simp
  qed
qed simp

section \<open>Descriptors\<close>

text \<open>The descriptors the HAL itself holds: those of the profile, of the vertical sync boost and of the camera.\<close>

definition held_by :: "int list \<Rightarrow> int \<Rightarrow> int" where
  "held_by xs fd = sum_list (map (\<lambda>x. of_bool (x = fd)) xs)"

definition app_held :: "app_fds \<Rightarrow> int \<Rightarrow> int" where
  "app_held a = held_by [app_min_freq a, app_max_freq a, app_max_online_cpus a, app_min_online_cpus a, app_max_gpu a, app_min_gpu a, vsync_min_cpu a]"

definition camera_held :: "camera_power \<Rightarrow> int \<Rightarrow> int" where
  "camera_held c = held_by [fd_cpu_freq_min c, fd_cpu_freq_max c, fd_min_online_cpus c, fd_max_online_cpus c]"

text \<open>How often a descriptor is open without an owner.\<close>

definition unowned :: "os \<Rightarrow> powerhal_info \<Rightarrow> int \<Rightarrow> int" where
  "unowned K p fd = balance K (plog (mTimeoutPoker p)) fd - pending_on fd (mTimeoutPoker p) - watched_on fd (mTimeoutPoker p)
     - app_held (fds p) fd - camera_held (camera p) fd"

text \<open>A step that sends at most \<open>m\<close> events and neither leaks a descriptor nor closes one too often.\<close>

definition conserves :: "os \<Rightarrow> nat \<Rightarrow> powerhal_info \<Rightarrow> powerhal_info \<Rightarrow> bool" where
  "conserves K m p p' \<longleftrightarrow> (\<forall>n. key_inv n (mTimeoutPoker p) \<longrightarrow> n + m < 2 ^ 32 \<longrightarrow>
     key_inv (n + m) (mTimeoutPoker p') \<and> (\<forall>fd \<ge> 0. unowned K p' fd = unowned K p fd))"

lemma conserves_refl [simp]: "conserves K m p p"
  by (auto simp: conserves_def intro: key_inv_le)

lemma conserves_trans: "conserves K a p p' \<Longrightarrow> conserves K b p' p'' \<Longrightarrow> conserves K (a + b) p p''"
proof -
  assume c: "conserves K a p p'" "conserves K b p' p''"
  show ?thesis unfolding conserves_def
  proof (intro allI impI)
    fix n assume n: "key_inv n (mTimeoutPoker p)" "n + (a + b) < 2 ^ 32"
    then have "key_inv (n + a) (mTimeoutPoker p')" "\<forall>fd \<ge> 0. unowned K p' fd = unowned K p fd"
      using c(1) by (auto simp: conserves_def)
    then show "key_inv (n + (a + b)) (mTimeoutPoker p'') \<and> (\<forall>fd \<ge> 0. unowned K p'' fd = unowned K p fd)"
      using c(2) n(2) by (auto simp: conserves_def add.assoc)
  qed
qed

lemma conserves_le: "conserves K a p p' \<Longrightarrow> a \<le> b \<Longrightarrow> conserves K b p p'"
  using conserves_trans [of K a p p' "b - a" p'] by simp

lemma conserves_0: "conserves K 0 p p' \<Longrightarrow> conserves K 0 p' p'' \<Longrightarrow> conserves K 0 p p''"
  using conserves_trans [of K 0 p p' 0 p''] by simp

text \<open>Only the owners and the transcript change.\<close>

lemma conservesI:
  assumes "mTimeoutPoker p' = (mTimeoutPoker p)\<lparr>plog := h\<rparr>"
    and "\<And>fd. 0 \<le> fd \<Longrightarrow> balance K h fd - app_held (fds p') fd - camera_held (camera p') fd =
      balance K (plog (mTimeoutPoker p)) fd - app_held (fds p) fd - camera_held (camera p) fd"
  shows "conserves K 0 p p'"
  using assms by (auto simp: conserves_def unowned_def algebra_simps watched_on_def)

lemma logged_keeps [simp]: "camera (logged f p) = camera p" "mTimeoutPoker (logged f p) = (mTimeoutPoker p)\<lparr>plog := f (plog (mTimeoutPoker p))\<rparr>"
  by (simp_all add: logged_def)

lemma logged_conserves: "(\<And>h fd. 0 \<le> fd \<Longrightarrow> balance K (f h) fd = balance K h fd) \<Longrightarrow> conserves K 0 p (logged f p)"
  by (rule conservesI [where h = "f (plog (mTimeoutPoker p))"]) simp_all

lemma asked_conserves: "(\<And>h fd. 0 \<le> fd \<Longrightarrow> balance K (snd (f h)) fd = balance K h fd) \<Longrightarrow> conserves K 0 p (snd (asked f p))"
  by (simp add: asked_def logged_conserves)

lemma requestPmQos_balance:
  "0 \<le> f \<Longrightarrow> balance K (snd (requestPmQos K rq h)) f = balance K h f + of_bool (f = fst (requestPmQos K rq h))"
proof -
  assume f: "0 \<le> f"
  have w: "fd_delta a (request_write rq fd) f = 0" for a fd by (cases rq) (simp_all add: fd_delta_def)
  show ?thesis using f w by (auto simp: requestPmQos_def sys_def Let_def fd_delta_open)
qed

lemma timed_conserves: "conserves K 1 p (timed rq t p)"
proof -
  have "key_inv (Suc n) (requestPmQosTimed rq t s) \<and> pending_on fd (requestPmQosTimed rq t s) = pending_on fd s \<and>
      watched_on fd (requestPmQosTimed rq t s) = watched_on fd s \<and> plog (requestPmQosTimed rq t s) = plog s"
    if "key_inv n s" "Suc n < 2 ^ 32" for n s fd
    using that key_inv_send [OF that] by (simp add: requestPmQosTimed_def pushEvent_def pending_on_send)
  then show ?thesis by (auto simp: conserves_def unowned_def timed_def)
qed

lemma held_by_simps [simp]: "held_by [] fd = 0" "held_by (x # xs) fd = of_bool (x = fd) + held_by xs fd"
  by (simp_all add: held_by_def)

lemma balance_close: "0 \<le> f \<Longrightarrow> balance K (h @ [PClose fd]) f = balance K h f - of_bool (f = fd)"
  by (simp add: fd_delta_def)

lemma replace_fd_conserves:
  assumes "\<And>v a f. app_held (upd (\<lambda>_. v) a) f = app_held a f - of_bool (get a = f) + of_bool (v = f)" "\<And>v a. get (upd (\<lambda>_. v) a) = v"
  shows "conserves K 0 p (replace_fd K get upd rq p)"
proof -
  define q where "q = (if get (fds p) \<ge> 0 then (hal_close K (get (fds p)) p)\<lparr>fds := upd (\<lambda>_. -1) (fds p)\<rparr> else p)"
  have q: "conserves K 0 p q" "get (fds q) < 0"
    by (auto simp: q_def hal_close_def assms balance_close simp del: balance_append intro!: conservesI)
  have "conserves K 0 q ((snd (hal_request K rq q))\<lparr>fds := upd (\<lambda>_. fst (hal_request K rq q)) (fds q)\<rparr>)"
    using q(2) by (auto simp: hal_request_def asked_def requestPmQos_balance assms(1) intro!: conservesI)
  moreover have "replace_fd K get upd rq p = (snd (hal_request K rq q))\<lparr>fds := upd (\<lambda>_. fst (hal_request K rq q)) (fds q)\<rparr>"
    by (simp add: replace_fd_def q_def [symmetric] Let_def case_prod_beta hal_request_def asked_def)
  ultimately show ?thesis using q(1) conserves_0 by simp
qed

lemma camera_fd_conserves:
  assumes "\<And>v c f. camera_held (upd (\<lambda>_. v) c) f = camera_held c f - of_bool (get c = f) + of_bool (v = f)"
  shows "conserves K 0 p (camera_fd K get upd rq p)"
proof -
  define h where "h = (if get (camera p) \<noteq> -1 then plog (mTimeoutPoker p) @ [PClose (get (camera p))] else plog (mTimeoutPoker p))"
  have h: "0 \<le> f \<Longrightarrow> balance K h f = balance K (plog (mTimeoutPoker p)) f - of_bool (get (camera p) = f)" for f
    by (auto simp: h_def balance_close simp del: balance_append)
  show ?thesis
    by (rule conservesI [where h = "snd (requestPmQos K rq h)"])
      (auto simp: camera_fd_def hal_close_def hal_request_def asked_def Let_def requestPmQos_balance assms h h_def [symmetric] logged_def
        simp del: balance_append, auto simp: h_def)
qed

lemma release_camera_fd_conserves:
  assumes "\<And>v c f. camera_held (upd (\<lambda>_. v) c) f = camera_held c f - of_bool (get c = f) + of_bool (v = f)"
  shows "conserves K 0 p (release_camera_fd K get upd p)"
  by (auto simp: release_camera_fd_def hal_close_def assms balance_close simp del: balance_append intro!: conservesI)

text \<open>The operations that change descriptors, one by one.\<close>

definition profile_setters :: "os \<Rightarrow> int \<Rightarrow> (powerhal_info \<Rightarrow> powerhal_info) list" where
  "profile_setters K v = [set_app_profile_min_cpu_freq K v, set_app_profile_max_cpu_freq K v, set_app_profile_max_cpu_freq_percent K v,
     set_app_profile_max_online_cpus K v, set_app_profile_min_online_cpus K v, set_app_profile_min_gpu_freq K v,
     set_app_profile_max_gpu_freq K v, set_prism_control_enable K v, set_pbc_power K v, set_fan_cap K v]"

definition camera_setters :: "os \<Rightarrow> int \<Rightarrow> (powerhal_info \<Rightarrow> powerhal_info) list" where
  "camera_setters K v = [set_camera_cpu_freq_min K v, set_camera_cpu_freq_max K v, set_camera_min_online_cpus K v,
     set_camera_max_online_cpus K v, reset_camera_hint K]"

inductive hal_power_step :: "hint_codes \<Rightarrow> os \<Rightarrow> powerhal_info \<Rightarrow> powerhal_info \<Rightarrow> bool" for H K where
  ps_hint: "common_power_hint H K hint data tv_sec tv_nsec (Some p) = Some p' \<Longrightarrow> hal_power_step H K p p'"
| ps_profile: "f \<in> set (profile_setters K v) \<Longrightarrow> hal_power_step H K p (f p)"
| ps_camera: "f \<in> set (camera_setters K v) \<Longrightarrow> hal_power_step H K p (f p)"
| ps_regular: "regular_hints_round K timedout p = Some (go, p') \<Longrightarrow> hal_power_step H K p p'"
| ps_interactive: "hal_power_step H K p (common_power_set_interactive K on p)"
| ps_poker: "poker_step K (mTimeoutPoker p) s \<Longrightarrow> hal_power_step H K p (p\<lparr>mTimeoutPoker := s\<rparr>)"

lemma app_held_update:
  "app_held (a\<lparr>app_min_freq := v\<rparr>) f = app_held a f - of_bool (app_min_freq a = f) + of_bool (v = f)"
  "app_held (a\<lparr>app_max_freq := v\<rparr>) f = app_held a f - of_bool (app_max_freq a = f) + of_bool (v = f)"
  "app_held (a\<lparr>app_max_online_cpus := v\<rparr>) f = app_held a f - of_bool (app_max_online_cpus a = f) + of_bool (v = f)"
  "app_held (a\<lparr>app_min_online_cpus := v\<rparr>) f = app_held a f - of_bool (app_min_online_cpus a = f) + of_bool (v = f)"
  "app_held (a\<lparr>app_max_gpu := v\<rparr>) f = app_held a f - of_bool (app_max_gpu a = f) + of_bool (v = f)"
  "app_held (a\<lparr>app_min_gpu := v\<rparr>) f = app_held a f - of_bool (app_min_gpu a = f) + of_bool (v = f)"
  "app_held (a\<lparr>vsync_min_cpu := v\<rparr>) f = app_held a f - of_bool (vsync_min_cpu a = f) + of_bool (v = f)"
  by (simp_all add: app_held_def)

lemma camera_held_update:
  "camera_held (c\<lparr>fd_cpu_freq_min := v\<rparr>) f = camera_held c f - of_bool (fd_cpu_freq_min c = f) + of_bool (v = f)"
  "camera_held (c\<lparr>fd_cpu_freq_max := v\<rparr>) f = camera_held c f - of_bool (fd_cpu_freq_max c = f) + of_bool (v = f)"
  "camera_held (c\<lparr>fd_min_online_cpus := v\<rparr>) f = camera_held c f - of_bool (fd_min_online_cpus c = f) + of_bool (v = f)"
  "camera_held (c\<lparr>fd_max_online_cpus := v\<rparr>) f = camera_held c f - of_bool (fd_max_online_cpus c = f) + of_bool (v = f)"
  by (simp_all add: camera_held_def)

lemma profile_setters_conserve: "f \<in> set (profile_setters K v) \<Longrightarrow> conserves K 0 p (f p)"
  by (auto simp: profile_setters_def set_app_profile_min_cpu_freq_def set_app_profile_max_cpu_freq_def set_app_profile_max_cpu_freq_percent_def
      set_app_profile_max_online_cpus_def set_app_profile_min_online_cpus_def set_app_profile_min_gpu_freq_def set_app_profile_max_gpu_freq_def
      set_prism_control_enable_def set_pbc_power_def set_fan_cap_def Let_def
      intro!: replace_fd_conserves logged_conserves app_held_update)

lemma camera_plain_conserves: "conserves K 0 p (p\<lparr>camera := (camera p)\<lparr>fd_gpu := a, target_fps := b\<rparr>\<rparr>)"
  "conserves K 0 p (p\<lparr>camera := (camera p)\<lparr>target_fps := b\<rparr>\<rparr>)" "conserves K 0 p (p\<lparr>camera := (camera p)\<lparr>usecase_index := u\<rparr>\<rparr>)"
  by (rule conservesI [where h = "plog (mTimeoutPoker p)"]; simp add: camera_held_def)+

lemma release_app_min_freq_conserves: "conserves K 0 p (release_app_min_freq K p)"
proof (cases "app_min_freq (fds p) \<ge> 0")
  case True
  then show ?thesis
    by (intro conservesI [where h = "plog (mTimeoutPoker p) @ [PClose (app_min_freq (fds p))]"])
      (auto simp: release_app_min_freq_def hal_close_def app_held_update balance_close simp del: balance_append)
qed (simp add: release_app_min_freq_def)

lemma cancel_usecase_conserves: "conserves K 0 p (cancel_usecase K p)"
proof -
  define q where "q = p\<lparr>camera := (camera p)\<lparr>usecase_index := -1\<rparr>\<rparr>"
  have q: "conserves K 0 p q" unfolding q_def by (rule camera_plain_conserves)
  moreover have "conserves K 0 q (logged (run K (PCancelHints NvUsecase_camera 0)) q)"
    by (rule logged_conserves) (simp add: fd_delta_def)
  ultimately have "conserves K 0 p (logged (run K (PCancelHints NvUsecase_camera 0)) q)" by (rule conserves_0)
  then show ?thesis using q by (simp add: cancel_usecase_def Let_def q_def [symmetric])
qed

lemma reset_camera_hint_conserves: "conserves K 0 p (reset_camera_hint K p)"
  unfolding reset_camera_hint_def Let_def
  by (rule conserves_0 [OF _ cancel_usecase_conserves]
      conserves_0 [OF _ release_camera_fd_conserves [OF camera_held_update(4)]]
      conserves_0 [OF _ release_camera_fd_conserves [OF camera_held_update(3)]] conserves_0 [OF _ release_app_min_freq_conserves]
      conserves_0 [OF _ release_camera_fd_conserves [OF camera_held_update(2)]]
      conserves_0 [OF _ release_camera_fd_conserves [OF camera_held_update(1)]] camera_plain_conserves(1))+

lemma camera_setters_conserve: "f \<in> set (camera_setters K v) \<Longrightarrow> conserves K 0 p (f p)"
  by (auto simp: camera_setters_def set_camera_cpu_freq_min_def set_camera_cpu_freq_max_def set_camera_min_online_cpus_def
      set_camera_max_online_cpus_def reset_camera_hint_conserves intro!: camera_fd_conserves camera_held_update)

lemma single_hint_conserves: "conserves K 0 p (set_camera_single_phs_hint K t v p)"
  by (simp add: set_camera_single_phs_hint_def fd_delta_def logged_conserves)

lemma conserves_if: "conserves K 0 p q \<Longrightarrow> conserves K 0 p (if b then q else p)"
  by simp

lemma phs_hints_conserve: "conserves K 0 p (set_camera_phs_hints K cap p)"
  unfolding set_camera_phs_hints_def Let_def
  by (rule conserves_0, rule conserves_0, rule conserves_0, rule conserves_0)
    (rule conserves_if, rule single_hint_conserves camera_plain_conserves)+

lemma regular_round_conserves: "regular_hints_round K b p = Some (go, p') \<Longrightarrow> conserves K 0 p p'"
  by (auto simp: regular_hints_round_def phs_hints_conserve split: if_splits)

lemma fold_conserves: "(\<And>x q. x \<in> set xs \<Longrightarrow> conserves K 0 q (f x q)) \<Longrightarrow> conserves K 0 p (fold f xs p)"
proof (induction xs arbitrary: p)
  case (Cons x xs)
  then show ?case by (auto intro: conserves_0 [of K p "f x p"])
qed simp

lemma input_enabled_conserves: "conserves K 0 p (set_input_enabled K state i p)"
proof -
  define path where "path = ''/sys/class/input/input'' @ itoa i @ ''/enabled''"
  define q where "q = snd (asked (sys K (PAccess path)) p)"
  have q: "conserves K 0 p q" unfolding q_def by (rule asked_conserves) (simp add: sys_def fd_delta_def)
  moreover have "conserves K 0 q (logged (sysfs_write K path state) q)" by (simp add: logged_conserves)
  ultimately have "conserves K 0 p (logged (sysfs_write K path state) q)" by (rule conserves_0)
  then show ?thesis using q unfolding set_input_enabled_def Let_def case_prod_beta path_def [symmetric] q_def [symmetric] by simp
qed

lemma set_interactive_conserves: "conserves K 0 p (common_power_set_interactive K on p)"
proof -
  have "conserves K 0 q (set_inputs_enabled K st q)" for q st
    unfolding set_inputs_enabled_def by (rule fold_conserves) (simp add: input_enabled_conserves split: option.split)
  moreover have "conserves K 0 q (set_governor K b q)" for q b
    unfolding set_governor_def by (rule fold_conserves) (auto intro: logged_conserves)
  moreover have "conserves K 0 q (logged (sysfs_write K c st) q)" "conserves K 0 q (logged (sysfs_write_int K c on) q)" for q c st
    by (simp_all add: logged_conserves)
  ultimately show ?thesis unfolding common_power_set_interactive_def Let_def
    by (meson conserves_0 conserves_if)
qed

lemma set_vsync_conserves: "conserves K 0 p (set_vsync_min_cpu_freq K b p)"
  by (auto simp: set_vsync_min_cpu_freq_def hal_request_def hal_close_def asked_def requestPmQos_balance app_held_update balance_close
      simp del: balance_append intro!: conservesI)

lemma hint_action_conserves: "conserves K 4 p (hint_action H K hint data p)"
proof -
  have 2: "conserves K 4 p (timed r s (timed q t p))" for q r s t
    using conserves_le [OF conserves_trans [OF timed_conserves timed_conserves], of 4] by simp
  have 4: "conserves K 4 p (timed r s (timed r' s' (timed r'' s'' (timed q t p))))" for q r r' r'' s s' s'' t
    using conserves_le [OF conserves_trans [OF conserves_trans [OF conserves_trans [OF timed_conserves timed_conserves] timed_conserves] timed_conserves], of 4]
    by simp
  show ?thesis using conserves_le [OF set_vsync_conserves, of 4]
    by (simp add: hint_action_def boost_def 2 4 split: option.split)
qed

lemma common_power_hint_conserves:
  assumes "common_power_hint H K hint data s n (Some p) = Some p'"
  shows "conserves K 4 p p'"
proof -
  have "conserves K 0 q (q\<lparr>hint_time := t\<rparr>)" for q t by (rule conservesI [where h = "plog (mTimeoutPoker q)"]) simp_all
  then have "conserves K 4 p ((hint_action H K hint data p)\<lparr>hint_time := t\<rparr>)" for t
    using conserves_trans [OF hint_action_conserves] by (metis add_0_right)
  then show ?thesis using assms by (auto simp: common_power_hint_def Let_def split: option.splits)
qed

lemma poker_step_conserves:
  assumes "poker_step K (mTimeoutPoker p) s" "loop_accepts K"
  shows "conserves K 4 p (p\<lparr>mTimeoutPoker := s\<rparr>)"
proof -
  have "conserves K 1 p (p\<lparr>mTimeoutPoker := s\<rparr>)" unfolding conserves_def
  proof (intro allI impI)
    fix n assume n: "key_inv n (mTimeoutPoker p)" "n + 1 < 2 ^ 32"
    let ?B = "\<lambda>fd. balance K (plog (mTimeoutPoker p)) fd - pending_on fd (mTimeoutPoker p) - watched_on fd (mTimeoutPoker p)"
    have "fd_inv K ?B (mTimeoutPoker p)" by (simp add: fd_inv_def)
    from poker_step_inv [OF assms(1) n(1) this _ assms(2)] n(2)
    show "key_inv (n + 1) (mTimeoutPoker (p\<lparr>mTimeoutPoker := s\<rparr>)) \<and> (\<forall>fd \<ge> 0. unowned K (p\<lparr>mTimeoutPoker := s\<rparr>) fd = unowned K p fd)"
      by (auto simp: fd_inv_def unowned_def)
  qed
  then show ?thesis by (rule conserves_le) simp
qed

lemma hal_power_step_conserves: "hal_power_step H K p p' \<Longrightarrow> loop_accepts K \<Longrightarrow> conserves K 4 p p'"
proof (induction rule: hal_power_step.induct)
  case (ps_hint hint data tv_sec tv_nsec p p')
  then show ?case by (simp add: common_power_hint_conserves)
next
  case (ps_poker p s)
  then show ?case by (simp add: poker_step_conserves)
next
  case (ps_profile f v p)
  then show ?case by (simp add: conserves_le [OF profile_setters_conserve])
next
  case (ps_camera f v p)
  then show ?case by (simp add: conserves_le [OF camera_setters_conserve])
next
  case (ps_regular timedout p go p')
  then show ?case by (simp add: conserves_le [OF regular_round_conserves])
next
  case (ps_interactive p on)
  then show ?case by (simp add: conserves_le [OF set_interactive_conserves])
qed

lemma hal_power_steps_conserve: "(hal_power_step H K ^^ n) p p' \<Longrightarrow> loop_accepts K \<Longrightarrow> conserves K (4 * n) p p'"
proof (induction n arbitrary: p')
  case (Suc n)
  then obtain q where "(hal_power_step H K ^^ n) p q" "hal_power_step H K q p'" by auto
  then show ?case using conserves_trans [OF Suc.IH hal_power_step_conserves, of q H p'] Suc.prems(2) by (simp add: add.commute)
qed simp

end
