(* ===== verification/PowerHALTheorems.thy ===== *)
theory PowerHALTheorems
  imports PowerHALProps
begin

text \<open>
  The properties of the power HAL: the spacing of hints, the descriptors, the table of frequencies;
  and what the code does at the borders: the clock that wraps, the interval stored behind its array,
  the empty table.
\<close>

section \<open>The table of frequencies\<close>

text \<open>The format of the kernel: every frequency with a space behind it, then a newline.\<close>

definition frequency_table :: "int list \<Rightarrow> string" where
  "frequency_table fs = concat (map (\<lambda>f. itoa f @ '' '') fs) @ [CHR 0x0A]"

lemma tokens_frequency_table: "tokens (frequency_table fs) = map itoa fs @ [[CHR 0x0A]]"
  unfolding frequency_table_def by (induction fs) (simp_all add: tokens_one tokens_last)

lemma frequency_table_no_nul: "CHR 0x00 \<notin> set (frequency_table fs)"
proof -
  have "CHR 0x00 \<notin> set (itoa f)" for f using itoa_clean [of "CHR 0x00" f] by (auto simp: digit_def)
  then show ?thesis by (auto simp: frequency_table_def)
qed

lemma strtok_marks_tail:
  "CHR 0x00 \<notin> set t \<Longrightarrow> \<exists>t'. length t' = length t \<and> strtok_marks b (t @ CHR 0x00 # r) = t' @ CHR 0x00 # r"
proof (induction t arbitrary: b)
  case (Cons c t)
  then have c: "c \<noteq> CHR 0x00" "CHR 0x00 \<notin> set t" by auto
  obtain t1 where t1: "length t1 = length t" "strtok_marks False (t @ CHR 0x00 # r) = t1 @ CHR 0x00 # r" using Cons.IH [OF c(2)] by blast
  obtain t2 where t2: "length t2 = length t" "strtok_marks True (t @ CHR 0x00 # r) = t2 @ CHR 0x00 # r" using Cons.IH [OF c(2)] by blast
  show ?case
  proof (cases "c = CHR '' ''")
    case True
    then show ?thesis using t1 by (intro exI [of _ "(if b then CHR 0x00 else c) # t1"]) simp
  next
    case False
    then show ?thesis using t2 c(1) by (intro exI [of _ "c # t2"]) simp
  qed
qed simp

text \<open>A node whose every reading delivers the same text.\<close>

definition node_reads :: "os \<Rightarrow> string \<Rightarrow> string \<Rightarrow> bool" where
  "node_reads K path t \<longleftrightarrow> (\<exists>fd \<ge> 0. \<forall>h. p_ret (K h (POpen path)) = fd \<and>
     p_ret (K (h @ [POpen path]) (PRead fd 256)) = int (length t) \<and> p_text (K (h @ [POpen path]) (PRead fd 256)) = t)"

lemma sysfs_read_node:
  assumes "node_reads K path t" "length t \<le> 256"
  shows "fst (sysfs_read K path s 256 h) = t @ drop (length t) s"
proof -
  obtain fd where "fd \<ge> 0" "\<forall>h. p_ret (K h (POpen path)) = fd \<and>
     p_ret (K (h @ [POpen path]) (PRead fd 256)) = int (length t) \<and> p_text (K (h @ [POpen path]) (PRead fd 256)) = t"
    using assms(1) by (auto simp: node_reads_def)
  then show ?thesis using assms(2) by (simp add: sysfs_read_def sys_def Let_def)
qed

lemma cstring_text: "CHR 0x00 \<notin> set t \<Longrightarrow> cstring (t @ CHR 0x00 # r) = Some t"
  by (auto simp: cstring_def takeWhile_append)

lemma read_frequencies_text:
  assumes "node_reads K SCALING_AVAILABLE_FREQUENCIES t" "CHR 0x00 \<notin> set t" "length t < 256"
  shows "\<exists>buf p'. read_frequencies K p = Some (buf, p') \<and> num_available_frequencies p' = int (length (tokens t)) - 1 \<and>
    available_frequencies p' = map atoi (butlast (tokens t))"
proof -
  define r where "r = replicate (255 - length t) (CHR 0x00)"
  have first: "fst (sysfs_read K SCALING_AVAILABLE_FREQUENCIES (replicate 256 (CHR 0x00)) 256 h) = t @ CHR 0x00 # r" for h
  proof -
    have "256 - length t = Suc (255 - length t)" using assms(3) by simp
    then show ?thesis using sysfs_read_node [OF assms(1)] assms(3) by (simp add: r_def)
  qed
  obtain t' where t': "length t' = length t" "strtok_marks False (t @ CHR 0x00 # r) = t' @ CHR 0x00 # r"
    using strtok_marks_tail [OF assms(2)] by blast
  have second: "fst (sysfs_read K SCALING_AVAILABLE_FREQUENCIES (strtok_marks False (t @ CHR 0x00 # r)) 256 h) = t @ CHR 0x00 # r" for h
    using sysfs_read_node [OF assms(1)] assms(3) t' by simp
  show ?thesis
    by (cases "tokens t" rule: rev_cases)
      (simp_all add: read_frequencies_def asked_def first second cstring_text [OF assms(2)] Let_def)
qed

section \<open>Borders\<close>

text \<open>
  The hint for a profile is refused whatever the clock says: the count of hints is its own number.
\<close>

lemma set_profile_refused: "check_hint H (POWER_HINT_SET_PROFILE H) s n p = None"
  by (simp add: check_hint_def MAX_POWER_HINT_COUNT_def)

text \<open>
  Its interval is stored one element behind the array, into the condition variable of the hints
  thread; the intervals of the other hints are those of the code.
\<close>

lemma init_intervals_effect:
  assumes "length (hint_interval p) = MAX_POWER_HINT_COUNT H"
    and "\<forall>k \<in> {POWER_HINT_VSYNC H, POWER_HINT_INTERACTION H, POWER_HINT_LAUNCH H, POWER_HINT_VIDEO_DECODE H, POWER_HINT_VIDEO_ENCODE H,
      POWER_HINT_LOW_POWER H}. k < MAX_POWER_HINT_COUNT H"
  shows "\<exists>p'. init_intervals H p = Some p' \<and> wait_cond p' = CondBytes 200000 \<and>
    p' = p\<lparr>wait_cond := CondBytes 200000, hint_interval := hint_interval p'\<rparr> \<and> length (hint_interval p') = length (hint_interval p)"
  using assms by (simp add: init_intervals_def set_interval_def MAX_POWER_HINT_COUNT_def)

text \<open>
  After 2147 seconds the 32-bit clock wraps. A hint in the microsecond after is accepted, whatever
  its interval, because the sign extension makes the difference huge.
\<close>

lemma hint_clock_wraps: "hint_clock 2147 483647000 = 2147483647" "hint_clock 2147 483648000 = 18446744071562067968"
  by (simp_all add: hint_clock_def)

lemma hint_after_wrap_accepted:
  assumes "k < MAX_POWER_HINT_COUNT H" "hint_time p ! k = hint_clock 2147 483647000" "hint_interval p ! k \<le> 2 ^ 63"
  shows "check_hint H k 2147 483648000 p = Some (hint_clock 2147 483648000)"
proof -
  have "\<not> (18446744069414584321 :: u64) < hint_interval p ! k" using assms(3) by (simp add: word_less_nat_alt word_le_nat_alt)
  then show ?thesis using assms(1,2) by (simp add: check_hint_def hint_clock_wraps)
qed

text \<open>With fewer than two tokens in the table the boost at boot reads the element before the table.\<close>

lemma empty_table_undefined:
  assumes "common_power_open H K p = Some p'" "num_available_frequencies p' \<le> 0"
  shows "common_power_init H K p = None"
  using assms by (simp add: common_power_init_def asked_def logged_def Let_def)

text \<open>
  The camera descriptors as they are initialised: the limit of online processors is not set to -1 by
  the code, so descriptor 0 counts as held, and the first such limit closes it.
\<close>

lemma camera_init_phantom:
  assumes "common_power_camera_init cap (Some p) = Some p'" "camera_held (camera p) 0 = 0"
  shows "unowned K p' 0 = unowned K p 0 - 1"
  using assms by (auto simp: common_power_camera_init_def unowned_def camera_held_def)

section \<open>Properties\<close>

text \<open>C22. Hints are rate limited. For a kind of hint with an interval, whatever hints of whatever kinds come
  in the order of the monotonic clock, any two accepted ones are at least the interval apart, as long
  as the clock in microseconds stays below 2 to the 31.\<close>

theorem hint_rate_limit:
  assumes "k < MAX_POWER_HINT_COUNT H" "length (hint_time p) = MAX_POWER_HINT_COUNT H" "hint_time p ! k = 0" "hint_interval p ! k \<noteq> 0"
    and "sorted (map hc_time cs)" "\<forall>c \<in> set cs. 0 < hc_time c \<and> hc_time c < 2 ^ 31"
  shows "sorted_wrt (\<lambda>x y. x + uint (hint_interval p ! k) \<le> y) (accepted_times H K k cs p)"
  using accepted_spaced [OF assms(1) _ refl assms(4-6), of None K] assms(1-3) by (simp add: remembers_def)

text \<open>C19. The power HAL conserves descriptors. However hints, profile limits, camera limits, rounds of the
  hints thread, changes of the display state and steps of the request thread interleave, the number
  of times a descriptor is open beyond what its owners account for never changes: every descriptor
  the HAL opens is held in exactly one field, one pending timeout or one watched pipe until it is
  closed once.\<close>

theorem power_descriptors:
  assumes "(hal_power_step H K ^^ n) p p'" "key_inv m (mTimeoutPoker p)" "m + 4 * n < 2 ^ 32" "loop_accepts K" "0 \<le> fd"
  shows "unowned K p' fd = unowned K p fd \<and> key_inv (m + 4 * n) (mTimeoutPoker p')"
  using hal_power_steps_conserve [OF assms(1,4)] assms(2,3,5) by (simp add: conserves_def)

text \<open>C23. The table of frequencies in the format of the kernel is read back exactly, when it is shorter than
  the buffer of 256 bytes: the count starts at -1 for the newline the kernel adds as a last token,
  and the second reading finds the text that \<open>strtok\<close> has cut up in the first.\<close>

theorem frequency_table_read:
  assumes "node_reads K SCALING_AVAILABLE_FREQUENCIES (frequency_table fs)" "length (frequency_table fs) < 256"
  shows "\<exists>buf p'. read_frequencies K p = Some (buf, p') \<and> num_available_frequencies p' = int (length fs) \<and> available_frequencies p' = fs"
proof -
  have "map (atoi \<circ> itoa) fs = fs" using atoi_itoa [of "[]"] by (simp add: map_idI)
  then show ?thesis using read_frequencies_text [OF assms(1) frequency_table_no_nul assms(2), of p] by (simp add: tokens_frequency_table)
qed

section \<open>Concrete runs\<close>

definition test_codes :: hint_codes where
  "test_codes = \<lparr> POWER_HINT_VSYNC = 1, POWER_HINT_INTERACTION = 2, POWER_HINT_VIDEO_ENCODE = 3, POWER_HINT_VIDEO_DECODE = 4,
     POWER_HINT_LOW_POWER = 5, POWER_HINT_LAUNCH = 8, POWER_HINT_SET_PROFILE = 9 \<rparr>"

definition test_camera :: camera_power where
  "test_camera = \<lparr> fd_gpu = -1, fd_cpu_freq_min = -1, fd_cpu_freq_max = -1, fd_min_online_cpus = -1, fd_max_online_cpus = 0, target_fps = 0,
     cam_cap = [], usecase_index = -1 \<rparr>"

definition test_power :: powerhal_info where
  "test_power = \<lparr> mTimeoutPoker = poker_new 0 [], available_frequencies = [204000], num_available_frequencies = 1, lp_max_frequency = 204000,
     interaction_boost_frequency = 204000, animation_boost_frequency = 204000, cpu0_max_frequency = 204000, ftrace_enable = False,
     input_cnt = 0, input_devs = None, hint_time = replicate 9 0, hint_interval = [0, 0, 90000, 500000, 500000, 0, 0, 0, 1500000],
     wait_cond = CondInit, hints_thread = False, exit_hints_thread = False, default_min_freq = 0, default_max_freq = -1,
     default_core_cap = -1, default_gpu_cap = -1, default_fan_cap = 70, default_power_cap = 0, fan = False, fds = no_fds, camera = test_camera,
     phs_loaded = False, switch_cpu_emc_limit_enabled = False \<rparr>"

definition test_hint :: "nat \<Rightarrow> int \<Rightarrow> hint_call" where
  "test_hint k ms = \<lparr> hc_hint = k, hc_data = None, hc_sec = 10, hc_nsec = ms * 1000000 \<rparr>"

theorem hint_rate_limit_witness:
  "sorted_wrt (\<lambda>x y. x + 90000 \<le> y) (accepted_times test_codes test_os 2 [test_hint 2 1, test_hint 8 40, test_hint 2 50, test_hint 2 95] test_power)"
  using hint_rate_limit [of 2 test_codes test_power "[test_hint 2 1, test_hint 8 40, test_hint 2 50, test_hint 2 95]" test_os]
  by (simp add: test_codes_def test_power_def MAX_POWER_HINT_COUNT_def test_hint_def hc_time_def micros_def)

theorem power_descriptors_witness:
  "unowned test_os (set_camera_max_online_cpus test_os 2 test_power) 0 = -1"
proof -
  have "hal_power_step test_codes test_os test_power (set_camera_max_online_cpus test_os 2 test_power)"
    by (rule hal_power_step.ps_camera [of _ _ 2]) (simp add: camera_setters_def)
  then have s: "(hal_power_step test_codes test_os ^^ 1) test_power (set_camera_max_online_cpus test_os 2 test_power)" by auto
  have "key_inv 0 (mTimeoutPoker test_power)" by (simp add: test_power_def poker_new_def key_inv_def om_ok_def)
  from power_descriptors [OF s this _ test_os_accepts, of 0]
  have "unowned test_os (set_camera_max_online_cpus test_os 2 test_power) 0 = unowned test_os test_power 0" by simp
  then show ?thesis
    by (simp add: unowned_def test_power_def poker_new_def balance_def pending_on_def watched_on_def app_held_def camera_held_def no_fds_def test_camera_def)
qed

definition table_os :: "int list \<Rightarrow> os" where
  "table_os fs h c = (case c of
     POpen _ \<Rightarrow> \<lparr> p_ret = 5, p_text = [], p_client = 0, p_server = 0 \<rparr>
   | PRead _ _ \<Rightarrow> \<lparr> p_ret = int (length (frequency_table fs)), p_text = frequency_table fs, p_client = 0, p_server = 0 \<rparr>
   | _ \<Rightarrow> \<lparr> p_ret = 0, p_text = [], p_client = 0, p_server = 0 \<rparr>)"

lemma table_os_reads: "node_reads (table_os fs) path (frequency_table fs)"
  by (auto simp: node_reads_def table_os_def)

theorem frequency_table_read_witness:
  "\<exists>buf p'. read_frequencies (table_os [204000, 1326000]) test_power = Some (buf, p') \<and> num_available_frequencies p' = 2 \<and>
    available_frequencies p' = [204000, 1326000]"
proof -
  have "length (itoa 204000) \<le> 7" "length (itoa 1326000) \<le> 7" using itoa_length [of 204000 7] itoa_length [of 1326000 7] by simp_all
  then have "length (frequency_table [204000, 1326000]) < 256" by (simp add: frequency_table_def)
  then show ?thesis using frequency_table_read [OF table_os_reads, of "[204000, 1326000]" test_power] by simp
qed

end
