(* ===== verification/PowerModule.thy ===== *)
theory PowerModule
  imports PowerHALTheorems
begin

text \<open>
  The module of the power HAL (\<open>hardware/nvidia/power/power.cpp\<close>) and the standby of a hard disk
  (\<open>tegra_sata_hal.cpp\<close>). The structure of the HAL is allocated by whichever of \<open>init\<close> and \<open>open\<close> comes
  first; before that it stands for the transcript only.
\<close>

section \<open>State\<close>

record shield =
  allocated :: bool
  pInfo :: powerhal_info
  input_devs_array :: "input_dev_map list"
  booting :: bool
  gpu_threads :: "bool list"

definition shield_devs :: "input_dev_map list" where
  "shield_devs = [\<lparr> dev_id = -1, dev_name = ''raydium_ts'' @ [CHR 0x0A] \<rparr>, \<lparr> dev_id = -1, dev_name = ''touch'' @ [CHR 0x0A] \<rparr>]"

definition no_cap :: camera_cap where
  "no_cap = \<lparr> min_online_cpus = 0, max_online_cpus = 0, cap_freq = 0, minFreq = 0, minCpuHint = 0, maxCpuHint = 0, minGpuHint = 0,
     maxGpuHint = 0, fpsHint = 0 \<rparr>"

definition shield_camera_cap :: "camera_cap list" where
  "shield_camera_cap = [no_cap, no_cap, no_cap, no_cap]"

text \<open>A structure from \<open>calloc\<close>; the transcript goes on.\<close>

definition zero_info :: "hint_codes \<Rightarrow> poker \<Rightarrow> powerhal_info" where
  "zero_info H s = \<lparr> mTimeoutPoker = s, available_frequencies = [], num_available_frequencies = 0, lp_max_frequency = 0,
     interaction_boost_frequency = 0, animation_boost_frequency = 0, cpu0_max_frequency = 0, ftrace_enable = False, input_cnt = 0,
     input_devs = None, hint_time = replicate (MAX_POWER_HINT_COUNT H) 0, hint_interval = replicate (MAX_POWER_HINT_COUNT H) 0,
     wait_cond = CondBytes 0, hints_thread = False, exit_hints_thread = False, default_min_freq = 0, default_max_freq = 0,
     default_core_cap = 0, default_gpu_cap = 0, default_fan_cap = 0, default_power_cap = 0, fan = False,
     fds = \<lparr> app_min_freq = 0, app_max_freq = 0, app_max_online_cpus = 0, app_min_online_cpus = 0, app_max_gpu = 0, app_min_gpu = 0, vsync_min_cpu = 0 \<rparr>,
     camera = \<lparr> fd_gpu = 0, fd_cpu_freq_min = 0, fd_cpu_freq_max = 0, fd_min_online_cpus = 0, fd_max_online_cpus = 0, target_fps = 0,
       cam_cap = [], usecase_index = 0 \<rparr>,
     phs_loaded = False, switch_cpu_emc_limit_enabled = False \<rparr>"

section \<open>Graphics power\<close>

definition GPU_DELAY_MAX :: nat where "GPU_DELAY_MAX = 20"
definition GPU_STATE :: string where "GPU_STATE = ''/dev/nvhost-gpu''"
definition GPU_PMU_STATE :: string where "GPU_PMU_STATE = ''/sys/devices/platform/gpu.0/pmu_state''"
definition GPU_RAIL_GATE_NODE :: string where "GPU_RAIL_GATE_NODE = ''/sys/devices/platform/host1x/gpu.0/railgate_enable''"
definition GPU_BLCG_NODE :: string where "GPU_BLCG_NODE = ''/sys/devices/platform/gpu.0/blcg_enable''"
definition GPU_ELCG_NODE :: string where "GPU_ELCG_NODE = ''/sys/devices/platform/gpu.0/elcg_enable''"
definition GPU_ELPG_NODE :: string where "GPU_ELPG_NODE = ''/sys/devices/platform/gpu.0/elpg_enable''"
definition GPU_SLCG_NODE :: string where "GPU_SLCG_NODE = ''/sys/devices/platform/gpu.0/slcg_enable''"

text \<open>The counter is decremented before it is tested.\<close>

fun await_gpu_node :: "os \<Rightarrow> nat \<Rightarrow> pcall list \<Rightarrow> bool \<times> pcall list" where
  "await_gpu_node K 0 h = (True, h)"
| "await_gpu_node K (Suc cnt) h =
     (if cnt = 0 then (False, h)
      else
        let (e, h) = sysfs_exists K GPU_STATE h
        in if e then (True, h) else await_gpu_node K cnt (run K (PSleep 1) h))"

definition wait_for_gpu_sysfs :: "os \<Rightarrow> pcall list \<Rightarrow> bool \<times> pcall list" where
  "wait_for_gpu_sysfs K h = await_gpu_node K (GPU_DELAY_MAX div 4) h"

text \<open>The state is read into four bytes; without a NUL among them the conversion runs on.\<close>

fun await_pmu :: "os \<Rightarrow> nat \<Rightarrow> pcall list \<Rightarrow> (bool \<times> pcall list) option" where
  "await_pmu K 0 h = Some (False, h)"
| "await_pmu K (Suc n) h =
     (let h = run K (PSleep 1) h;
          (buf, h) = sysfs_read K GPU_PMU_STATE (replicate 4 (CHR 0x00)) 4 h
      in case buf_atoi buf of None \<Rightarrow> None | Some v \<Rightarrow> if v \<noteq> 0 then Some (True, h) else await_pmu K n h)"

definition wait_for_gpu_ready :: "os \<Rightarrow> pcall list \<Rightarrow> (bool \<times> pcall list) option" where
  "wait_for_gpu_ready K h =
     (let (e, h) = wait_for_gpu_sysfs K h
      in if \<not> e then Some (False, h) else await_pmu K GPU_DELAY_MAX h)"

definition write_all :: "os \<Rightarrow> (string \<times> int) list \<Rightarrow> pcall list \<Rightarrow> pcall list" where
  "write_all K = fold (\<lambda>(node, v). sysfs_write_int K node v)"

text \<open>The two policies; the flag tells whether the end was reached, where \<open>booting\<close> is cleared.\<close>

definition set_gpu_power_knobs_off :: "os \<Rightarrow> pcall list \<Rightarrow> (bool \<times> pcall list) option" where
  "set_gpu_power_knobs_off K h =
     (let (e, h) = wait_for_gpu_sysfs K h
      in if \<not> e then Some (False, h)
         else
           case wait_for_gpu_ready K (sysfs_write_int K GPU_RAIL_GATE_NODE 0 h) of
             None \<Rightarrow> None
           | Some (r, h) \<Rightarrow>
               if \<not> r then Some (False, h)
               else Some (True, write_all K [(GPU_ELPG_NODE, 0), (GPU_SLCG_NODE, 0), (GPU_BLCG_NODE, 0), (GPU_ELCG_NODE, 0)] (run K (PSleep 1) h)))"

definition set_gpu_power_knobs_on :: "os \<Rightarrow> pcall list \<Rightarrow> (bool \<times> pcall list) option" where
  "set_gpu_power_knobs_on K h =
     (case wait_for_gpu_ready K h of
        None \<Rightarrow> None
      | Some (r, h) \<Rightarrow>
          if \<not> r then Some (False, h)
          else Some (True, write_all K [(GPU_ELCG_NODE, 1), (GPU_BLCG_NODE, 1), (GPU_SLCG_NODE, 1), (GPU_ELPG_NODE, 1)] (run K (PSleep 1) h)))"

definition shield_log :: "shield \<Rightarrow> pcall list" where
  "shield_log s = plog (mTimeoutPoker (pInfo s))"

definition shield_logged :: "pcall list \<Rightarrow> shield \<Rightarrow> shield" where
  "shield_logged h s = s\<lparr>pInfo := logged (\<lambda>_. h) (pInfo s)\<rparr>"

definition run_knobs :: "os \<Rightarrow> bool \<Rightarrow> shield \<Rightarrow> shield option" where
  "run_knobs K on s =
     map_option (\<lambda>(done, h). shield_logged h (if done then s\<lparr>booting := False\<rparr> else s))
       (if on then set_gpu_power_knobs_on K (shield_log s) else set_gpu_power_knobs_off K (shield_log s))"

text \<open>During the boot a thread does the work; \<open>created\<close> tells whether it could be started.\<close>

definition set_gpu_knobs :: "os \<Rightarrow> bool \<Rightarrow> bool \<Rightarrow> shield \<Rightarrow> shield option" where
  "set_gpu_knobs K created on s =
     (let (buf, h) = sysfs_read K GPU_ELPG_NODE (replicate 4 (CHR 0x00)) 4 (shield_log s); s = shield_logged h s
      in case buf_atoi buf of
           None \<Rightarrow> None
         | Some v \<Rightarrow>
             if v = of_bool on then Some s
             else if booting s then Some (if created then s\<lparr>gpu_threads := gpu_threads s @ [on]\<rparr> else s)
             else run_knobs K on s)"

definition gpu_thread_runs :: "os \<Rightarrow> shield \<Rightarrow> shield option" where
  "gpu_thread_runs K s = (case gpu_threads s of [] \<Rightarrow> Some s | on # ts \<Rightarrow> run_knobs K on (s\<lparr>gpu_threads := ts\<rparr>))"

section \<open>Power supplies\<close>

definition brick_whitelist :: "string list" where
  "brick_whitelist = [''PBTEST'', ''PB1706'', ''PB9999'']"

text \<open>The elements after the first are pairs of bounds.\<close>

fun brick_in_ranges :: "string list \<Rightarrow> string \<Rightarrow> bool" where
  "brick_in_ranges (lo # hi # rest) brick \<longleftrightarrow>
     (atoi (drop 2 brick) \<le> atoi (drop 2 hi) \<and> atoi (drop 2 brick) \<ge> atoi (drop 2 lo)) \<or> brick_in_ranges rest brick"
| "brick_in_ranges _ brick \<longleftrightarrow> False"

definition is_brick_whitelisted :: "string \<Rightarrow> bool" where
  "is_brick_whitelisted brick \<longleftrightarrow>
     (if length brick \<noteq> 6 \<or> \<not> strncmp_eq 2 (brick_whitelist ! 0) brick then False
      else if strncmp_eq 7 (brick_whitelist ! 0) brick then True
      else brick_in_ranges (tl brick_whitelist) brick)"

definition property_text :: "pans \<Rightarrow> string" where
  "property_text a = (if p_ret a > 0 then p_text a else [])"

definition CPU_CC_STATE_NODE :: string where "CPU_CC_STATE_NODE = ''/sys/kernel/debug/cpuidle_t210/fast_cluster_states_enable''"
definition CPU_FLOOR_NODE :: string where "CPU_FLOOR_NODE = ''/sys/devices/system/cpu/cpu0/cpufreq/scaling_min_freq''"
definition CPU_CEILING_NODE :: string where "CPU_CEILING_NODE = ''/sys/devices/system/cpu/cpu0/cpufreq/scaling_max_freq''"
definition GPU_MIN_FREQ :: string where "GPU_MIN_FREQ = ''/sys/devices/platform/host1x/gpu.0/devfreq/gpu.0/min_freq''"
definition ETHERNET_POWER_SAVER_NODE :: string where "ETHERNET_POWER_SAVER_NODE = ''/sys/kernel/rt8168_power/mode''"
definition SOC_DISABLE_DVFS_NODE :: string where "SOC_DISABLE_DVFS_NODE = ''/sys/module/tegra21_dvfs/parameters/disable_core''"

definition floor_settings :: "bool \<Rightarrow> (string \<times> int) list" where
  "floor_settings on =
     (if on then [(CPU_CC_STATE_NODE, 0xcf), (CPU_FLOOR_NODE, 1132800), (CPU_CEILING_NODE, 2014500), (GPU_MIN_FREQ, 768000000)]
      else [(CPU_CC_STATE_NODE, 1), (CPU_FLOOR_NODE, 1734000), (CPU_CEILING_NODE, 1836000), (GPU_MIN_FREQ, 844800000)]) @
     [(ETHERNET_POWER_SAVER_NODE, 0), (SOC_DISABLE_DVFS_NODE, 1)]"

definition whitelist_settings :: "(string \<times> int) list" where
  "whitelist_settings =
     [(ETHERNET_POWER_SAVER_NODE, 1), (SOC_DISABLE_DVFS_NODE, 0), (CPU_CC_STATE_NODE, 0xcf), (CPU_FLOOR_NODE, 1100000),
      (CPU_CEILING_NODE, 2014500), (GPU_MIN_FREQ, 384000000)]"

definition set_power_level_floor :: "os \<Rightarrow> bool \<Rightarrow> bool \<Rightarrow> shield \<Rightarrow> shield option" where
  "set_power_level_floor K created on s =
     (let (plat, h) = sys K (PPropertyGet ''ro.hardware'') (shield_log s);
          (brick, h) = sys K (PPropertyGet ''persist.power.brick'') h; s = shield_logged h s
      in if \<not> strncmp_eq 5 (property_text plat) ''darcy'' then Some s
         else if is_brick_whitelisted (property_text brick) then
           map_option (\<lambda>s. shield_logged (write_all K whitelist_settings (shield_log s)) s) (set_gpu_knobs K created True s)
         else set_gpu_knobs K created False (shield_logged (write_all K (floor_settings on) (shield_log s)) s))"

section \<open>The module\<close>

text \<open>The memory of \<open>malloc\<close> is not initialised: \<open>garbage\<close> is what it holds.\<close>

definition shield_power_init :: "hint_codes \<Rightarrow> os \<Rightarrow> powerhal_info \<Rightarrow> shield \<Rightarrow> shield option" where
  "shield_power_init H K garbage s =
     (let p = (if allocated s then pInfo s else garbage\<lparr>mTimeoutPoker := mTimeoutPoker (pInfo s)\<rparr>);
          p = p\<lparr>input_devs := Some (input_devs_array s), input_cnt := length (input_devs_array s)\<rparr>
      in map_option (\<lambda>p. s\<lparr>allocated := True, pInfo := p, booting := True, input_devs_array := the (input_devs p)\<rparr>) (common_power_init H K p))"

definition shield_power_set_interactive :: "os \<Rightarrow> bool \<Rightarrow> int \<Rightarrow> shield \<Rightarrow> shield option" where
  "shield_power_set_interactive K created on s =
     set_power_level_floor K created (on \<noteq> 0) (s\<lparr>pInfo := common_power_set_interactive K on (pInfo s)\<rparr>)"

definition shield_power_hint :: "hint_codes \<Rightarrow> os \<Rightarrow> nat \<Rightarrow> int option \<Rightarrow> int \<Rightarrow> int \<Rightarrow> shield \<Rightarrow> shield" where
  "shield_power_hint H K hint data tv_sec tv_nsec s =
     (case common_power_hint H K hint data tv_sec tv_nsec (if allocated s then Some (pInfo s) else None) of
        None \<Rightarrow> s
      | Some p \<Rightarrow> s\<lparr>pInfo := p\<rparr>)"

definition POWER_HARDWARE_MODULE_ID :: string where "POWER_HARDWARE_MODULE_ID = ''power''"

definition shield_power_open :: "hint_codes \<Rightarrow> os \<Rightarrow> bool \<Rightarrow> string \<Rightarrow> shield \<Rightarrow> (int \<times> shield) option" where
  "shield_power_open H K dev_alloc name s =
     (if name \<noteq> POWER_HARDWARE_MODULE_ID then Some (-EINVAL, s)
      else
        map_option (\<lambda>s. (if dev_alloc then 0 else -ENOMEM, s))
          (if allocated s then Some s
           else
             do { p \<leftarrow> common_power_open H K (zero_info H (mTimeoutPoker (pInfo s)));
                  p \<leftarrow> common_power_camera_init shield_camera_cap (Some p);
                  Some (s\<lparr>allocated := True, pInfo := p\<rparr>) }))"

section \<open>Hard disk\<close>

definition check_node_existence :: "os \<Rightarrow> string \<Rightarrow> pcall list \<Rightarrow> int \<times> pcall list" where
  "check_node_existence K node h =
     (let (a, h) = sys K (PAccess node) h
      in if p_ret a < 0 then (p_ret a, h)
         else
           let (a, h) = sys K (PAccess node) h
           in if p_ret a < 0 then (p_ret a, h) else (0, h))"

definition HDA_TEMP :: nat where "HDA_TEMP = 204"

text \<open>The answer of the control call is the buffer after it.\<close>

definition hdd_get_temperature :: "os \<Rightarrow> string \<Rightarrow> pcall list \<Rightarrow> int \<times> int option \<times> pcall list" where
  "hdd_get_temperature K node h =
     (let (e, h) = check_node_existence K node h
      in if e < 0 then (e, None, h)
         else
           let (a, h) = sys K (POpen node) h
           in if p_ret a < 0 then (p_ret a, None, h)
              else
                let (r, h) = sys K (PIoctl (p_ret a) [CHR 0xB0, CHR 0xE0, CHR 0xD5, CHR 0x01]) h;
                    h = run K (PClose (p_ret a)) h
                in if p_ret r < 0 then (p_ret r, None, h) else (0, Some (of_char (p_text r ! HDA_TEMP)), h))"

text \<open>
  One step of the standby: open a node, write, close. A negative value ends the function; \<open>fail\<close> is the
  value when the node cannot be opened.
\<close>

definition write_node :: "os \<Rightarrow> (int \<Rightarrow> int) \<Rightarrow> string \<Rightarrow> string \<Rightarrow> pcall list \<Rightarrow> int \<times> pcall list" where
  "write_node K fail path v h =
     (let (a, h) = sys K (POpen path) h
      in if p_ret a < 0 then (fail (p_ret a), h)
         else
           let (w, h) = sys K (PWrite (p_ret a) v) h
           in (min 0 (p_ret w), run K (PClose (p_ret a)) h))"

definition POWER_CONTROL_PATH :: string where
  "POWER_CONTROL_PATH = ''/sys/devices/platform/tegra-sata.0/ata1/power/control''"
definition AUTO_SUSPEND_DELAY_PATH :: string where
  "AUTO_SUSPEND_DELAY_PATH = ''/sys/devices/platform/tegra-sata.0/ata1/host0/target0:0:0/0:0:0:0/power/autosuspend_delay_ms''"
definition HOST_CONTROL_PATH :: string where
  "HOST_CONTROL_PATH = ''/sys/devices/platform/tegra-sata.0/ata1/host0/target0:0:0/0:0:0:0/power/control''"

definition hdd_set_standby_timer :: "os \<Rightarrow> int \<Rightarrow> pcall list \<Rightarrow> int \<times> pcall list" where
  "hdd_set_standby_timer K timer_sec h =
     (if timer_sec < 0 then (-EINVAL, h)
      else
        let ms = sint (word_of_int (timer_sec * 1000) :: 32 word);
            (e, h) = write_node K id POWER_CONTROL_PATH ''auto'' h
        in if e < 0 then (e, h)
           else
             let (e, h) = write_node K id AUTO_SUSPEND_DELAY_PATH (itoa ms) h
             in if e < 0 then (e, h) else write_node K id HOST_CONTROL_PATH ''auto'' h)"

text \<open>Here a node that cannot be opened gives -1, not the value of \<open>open\<close>.\<close>

definition hdd_disable_standby_timer :: "os \<Rightarrow> pcall list \<Rightarrow> int \<times> pcall list" where
  "hdd_disable_standby_timer K h =
     (let (e, h) = write_node K (\<lambda>_. -1) POWER_CONTROL_PATH ''on'' h
      in if e < 0 then (e, h) else write_node K (\<lambda>_. -1) HOST_CONTROL_PATH ''on'' h)"

section \<open>Lemmas\<close>

lemma write_all_balance [simp]: "balance K (write_all K xs h) fd = balance K h fd"
  unfolding write_all_def by (induction xs arbitrary: h) auto

lemma await_gpu_balance: "balance K (snd (await_gpu_node K n h)) fd = balance K h fd"
proof (induction n arbitrary: h)
  case (Suc n)
  show ?case using Suc.IH [of "snd (sysfs_exists K GPU_STATE h) @ [PSleep 1]"] by (simp add: Let_def case_prod_beta fd_delta_def)
qed simp

lemma await_pmu_balance: "await_pmu K n h = Some (b, h') \<Longrightarrow> balance K h' fd = balance K h fd"
proof (induction n arbitrary: h)
  case (Suc n)
  obtain buf h1 where r: "sysfs_read K GPU_PMU_STATE (replicate 4 (CHR 0x00)) 4 (h @ [PSleep 1]) = (buf, h1)" by (cases "sysfs_read K GPU_PMU_STATE (replicate 4 (CHR 0x00)) 4 (h @ [PSleep 1])")
  have "balance K h1 fd = balance K h fd"
    using sysfs_read_balance [of K GPU_PMU_STATE "replicate 4 (CHR 0x00)" 4 "h @ [PSleep 1]" fd] unfolding r by (simp add: fd_delta_def)
  then show ?case using Suc.prems Suc.IH [of h1] r by (auto simp: Let_def split: option.splits if_splits)
qed simp

lemma gpu_ready_balance: "wait_for_gpu_ready K h = Some (b, h') \<Longrightarrow> balance K h' fd = balance K h fd"
  by (auto simp: wait_for_gpu_ready_def wait_for_gpu_sysfs_def Let_def case_prod_beta await_gpu_balance
      split: if_splits dest!: await_pmu_balance)

lemma knobs_balance:
  "set_gpu_power_knobs_on K h = Some (b, h') \<Longrightarrow> balance K h' fd = balance K h fd"
  "set_gpu_power_knobs_off K h = Some (b, h') \<Longrightarrow> balance K h' fd = balance K h fd"
  by (auto simp: set_gpu_power_knobs_on_def set_gpu_power_knobs_off_def wait_for_gpu_sysfs_def Let_def case_prod_beta await_gpu_balance
      fd_delta_def split: option.splits if_splits dest!: gpu_ready_balance)

lemma shield_logged_simps [simp]: "shield_log (shield_logged h s) = h" "booting (shield_logged h s) = booting s"
  "gpu_threads (shield_logged h s) = gpu_threads s" "allocated (shield_logged h s) = allocated s" "shield_log (s\<lparr>booting := b\<rparr>) = shield_log s"
  "shield_log (s\<lparr>gpu_threads := t\<rparr>) = shield_log s"
  by (simp_all add: shield_log_def shield_logged_def)

lemma run_knobs_balance: "run_knobs K on s = Some s' \<Longrightarrow> balance K (shield_log s') fd = balance K (shield_log s) fd"
  by (auto simp: run_knobs_def split: if_splits dest!: knobs_balance)

lemma set_gpu_knobs_balance: "set_gpu_knobs K c on s = Some s' \<Longrightarrow> balance K (shield_log s') fd = balance K (shield_log s) fd"
  by (auto simp: set_gpu_knobs_def Let_def case_prod_beta split: option.splits if_splits dest!: run_knobs_balance)

lemma power_floor_balance: "set_power_level_floor K c on s = Some s' \<Longrightarrow> balance K (shield_log s') fd = balance K (shield_log s) fd"
  by (auto simp: set_power_level_floor_def sys_def Let_def fd_delta_def split: if_splits dest!: set_gpu_knobs_balance)

text \<open>How long the graphics policies wait, in seconds.\<close>

definition slept :: "pcall list \<Rightarrow> nat" where
  "slept h = sum_list (map (\<lambda>c. case c of PSleep n \<Rightarrow> n | _ \<Rightarrow> 0) h)"

lemma slept_append [simp]: "slept (a @ b) = slept a + slept b" "slept [] = 0" "slept (c # h) = (case c of PSleep n \<Rightarrow> n | _ \<Rightarrow> 0) + slept h"
  by (simp_all add: slept_def)

lemma slept_sysfs [simp]: "slept (snd (sysfs_exists K p h)) = slept h" "slept (snd (sysfs_read K p b n h)) = slept h"
  "slept (sysfs_write_int K p v h) = slept h"
  by (simp_all add: sysfs_exists_def sysfs_read_def sysfs_write_int_def sysfs_write_def sys_def Let_def)

lemma slept_write_all [simp]: "slept (write_all K xs h) = slept h"
  unfolding write_all_def by (induction xs arbitrary: h) auto

lemma await_gpu_slept: "slept (snd (await_gpu_node K n h)) \<le> slept h + (n - 1)"
proof (induction n arbitrary: h)
  case (Suc n)
  show ?case using Suc.IH [of "snd (sysfs_exists K GPU_STATE h) @ [PSleep 1]"] by (cases n) (simp_all add: Let_def case_prod_beta)
qed simp

lemma await_pmu_slept: "await_pmu K n h = Some (b, h') \<Longrightarrow> slept h' \<le> slept h + n"
proof (induction n arbitrary: h)
  case (Suc n)
  obtain buf h1 where r: "sysfs_read K GPU_PMU_STATE (replicate 4 (CHR 0x00)) 4 (h @ [PSleep 1]) = (buf, h1)" by (cases "sysfs_read K GPU_PMU_STATE (replicate 4 (CHR 0x00)) 4 (h @ [PSleep 1])")
  have "slept h1 = Suc (slept h)" using slept_sysfs(2) [of K GPU_PMU_STATE "replicate 4 (CHR 0x00)" 4 "h @ [PSleep 1]"] unfolding r by simp
  then show ?case using Suc.prems Suc.IH [of h1] r by (auto simp: Let_def split: option.splits if_splits)
qed simp

text \<open>The whitelist as the comment describes it.\<close>

lemma take_eq_all: "length b = n \<Longrightarrow> length a = n \<Longrightarrow> n \<le> m \<Longrightarrow> take m a = take m b \<longleftrightarrow> a = b"
  by simp

lemma whitelist_numbers: "atoi ''1706'' = 1706" "atoi ''9999'' = 9999"
  by (simp_all add: atoi_def blank_def digit_def)

lemma brick_spec:
  "is_brick_whitelisted b \<longleftrightarrow> length b = 6 \<and> take 2 b = ''PB'' \<and> (b = ''PBTEST'' \<or> 1706 \<le> atoi (drop 2 b) \<and> atoi (drop 2 b) \<le> 9999)"
  by (auto simp: is_brick_whitelisted_def strncmp_eq_def brick_whitelist_def whitelist_numbers)

lemma gpu_ready_slept: "wait_for_gpu_ready K h = Some (b, h') \<Longrightarrow> slept h' \<le> slept h + 24"
proof -
  assume w: "wait_for_gpu_ready K h = Some (b, h')"
  have "slept (snd (wait_for_gpu_sysfs K h)) \<le> slept h + 4"
    using await_gpu_slept [of K "GPU_DELAY_MAX div 4" h] by (simp add: wait_for_gpu_sysfs_def GPU_DELAY_MAX_def)
  then show ?thesis using w await_pmu_slept [of K GPU_DELAY_MAX "snd (wait_for_gpu_sysfs K h)" b h']
    by (auto simp: wait_for_gpu_ready_def GPU_DELAY_MAX_def Let_def case_prod_beta split: if_splits)
qed

lemma knobs_slept:
  "set_gpu_power_knobs_on K h = Some (b, h') \<Longrightarrow> slept h' \<le> slept h + 29"
  "set_gpu_power_knobs_off K h = Some (b, h') \<Longrightarrow> slept h' \<le> slept h + 29"
proof -
  show "slept h' \<le> slept h + 29" if "set_gpu_power_knobs_on K h = Some (b, h')"
    using that by (auto simp: set_gpu_power_knobs_on_def split: option.splits if_splits dest!: gpu_ready_slept)
  have "slept (snd (wait_for_gpu_sysfs K h)) \<le> slept h + 4"
    using await_gpu_slept [of K "GPU_DELAY_MAX div 4" h] by (simp add: wait_for_gpu_sysfs_def GPU_DELAY_MAX_def)
  then show "slept h' \<le> slept h + 29" if "set_gpu_power_knobs_off K h = Some (b, h')"
    using that by (auto simp: set_gpu_power_knobs_off_def Let_def case_prod_beta split: option.splits if_splits dest!: gpu_ready_slept)
qed

lemma set_gpu_knobs_slept: "set_gpu_knobs K c on s = Some s' \<Longrightarrow> slept (shield_log s') \<le> slept (shield_log s) + 29"
  by (auto simp: set_gpu_knobs_def run_knobs_def Let_def case_prod_beta split: option.splits if_splits dest!: knobs_slept)

lemma power_floor_slept: "set_power_level_floor K c on s = Some s' \<Longrightarrow> slept (shield_log s') \<le> slept (shield_log s) + 29"
  by (auto simp: set_power_level_floor_def sys_def Let_def split: if_splits dest!: set_gpu_knobs_slept)

text \<open>Whatever measure of a transcript is blind to accesses and complete writes does not change.\<close>

lemma set_interactive_measure:
  fixes \<mu> :: "pcall list \<Rightarrow> 'm"
  assumes w: "\<And>c v h. \<mu> (sysfs_write K c v h) = \<mu> h" and a: "\<And>c h. \<mu> (h @ [PAccess c]) = \<mu> h"
  shows "\<mu> (plog (mTimeoutPoker (common_power_set_interactive K on p))) = \<mu> (plog (mTimeoutPoker p))"
proof -
  have one: "\<mu> (plog (mTimeoutPoker (set_input_enabled K st i q))) = \<mu> (plog (mTimeoutPoker q))" for i q st
    by (simp add: set_input_enabled_def asked_def sys_def Let_def w a)
  have "\<mu> (plog (mTimeoutPoker (fold (\<lambda>i p. case input_device p i of None \<Rightarrow> p | Some d \<Rightarrow> set_input_enabled K st d p) xs q))) =
    \<mu> (plog (mTimeoutPoker q))" for xs q st
    by (induction xs arbitrary: q) (auto simp: one split: option.split)
  then have inputs: "\<mu> (plog (mTimeoutPoker (set_inputs_enabled K st q))) = \<mu> (plog (mTimeoutPoker q))" for q st
    by (simp add: set_inputs_enabled_def)
  have "\<mu> (plog (mTimeoutPoker (fold (\<lambda>(n, v). logged (sysfs_write K (c @ n) v)) xs q))) = \<mu> (plog (mTimeoutPoker q))" for xs q c
    by (induction xs arbitrary: q) (auto simp: w)
  then have governor: "\<mu> (plog (mTimeoutPoker (set_governor K b q))) = \<mu> (plog (mTimeoutPoker q))" for q b
    unfolding set_governor_def by blast
  show ?thesis by (simp add: common_power_set_interactive_def Let_def inputs governor w sysfs_write_int_def)
qed

lemma set_interactive_slept: "slept (plog (mTimeoutPoker (common_power_set_interactive K on p))) = slept (plog (mTimeoutPoker p))"
  by (rule set_interactive_measure) (simp_all add: sysfs_write_def sys_def Let_def)

lemma set_interactive_balance:
  "balance K (plog (mTimeoutPoker (common_power_set_interactive K on p))) fd = balance K (plog (mTimeoutPoker p)) fd"
  by (rule set_interactive_measure) (simp_all add: fd_delta_def)

lemma write_node_balance: "write_node K f p v h = (e, h') \<Longrightarrow> balance K h' fd = balance K h fd"
  by (auto simp: write_node_def sys_def Let_def fd_delta_def split: if_splits)

text \<open>The functions of the hard disk close what they open on every path.\<close>

lemma hdd_balance:
  "hdd_set_standby_timer K t h = (e, h') \<Longrightarrow> balance K h' fd = balance K h fd"
  "hdd_disable_standby_timer K h = (e, h') \<Longrightarrow> balance K h' fd = balance K h fd"
  "hdd_get_temperature K node h = (e, r, h') \<Longrightarrow> balance K h' fd = balance K h fd"
proof -
  show "hdd_set_standby_timer K t h = (e, h') \<Longrightarrow> balance K h' fd = balance K h fd"
    by (auto simp: hdd_set_standby_timer_def Let_def split: if_splits prod.splits dest!: write_node_balance [where fd = fd])
  show "hdd_disable_standby_timer K h = (e, h') \<Longrightarrow> balance K h' fd = balance K h fd"
    by (auto simp: hdd_disable_standby_timer_def Let_def split: if_splits prod.splits dest!: write_node_balance [where fd = fd])
  show "hdd_get_temperature K node h = (e, r, h') \<Longrightarrow> balance K h' fd = balance K h fd"
    by (auto simp: hdd_get_temperature_def check_node_existence_def sys_def Let_def fd_delta_def split: if_splits)
qed

text \<open>
  Opening the module and then initialising it opens the common part twice: the second request thread
  replaces the first, whose pending events are lost.
\<close>

lemma init_replaces_poker:
  assumes "common_power_open H K p = Some p'"
  shows "mQueuedEvents (mTimeoutPoker p') = []"
proof -
  have read: "mQueuedEvents (mTimeoutPoker q') = mQueuedEvents (mTimeoutPoker q)" if "read_frequencies K q = Some (b, q')" for q b q'
    using that by (auto simp: read_frequencies_def asked_def Let_def split: if_splits simp: bind_eq_Some_conv)
  have iv: "mTimeoutPoker q' = mTimeoutPoker q" if "set_interval i v q = Some q'" for i v q q'
    using that by (auto simp: set_interval_def split: if_splits)
  have ivs: "mTimeoutPoker q' = mTimeoutPoker q" if "init_intervals H q = Some q'" for q q'
    using that unfolding init_intervals_def by (auto simp: bind_eq_Some_conv dest!: iv)
  have lib: "mQueuedEvents (mTimeoutPoker (common_libphs_open K q)) = mQueuedEvents (mTimeoutPoker q)" for q
    by (simp add: common_libphs_open_def asked_def Let_def)
  show ?thesis using assms unfolding common_power_open_def
    by (auto simp: asked_def Let_def lib init_defaults_def poker_new_def simp: bind_eq_Some_conv dest!: read ivs)
qed

section \<open>Properties\<close>

text \<open>A power supply is whitelisted exactly when its name has six characters, starts with PB and either
  is the test supply or carries a number from 1706 to 9999; anything that is not a number reads as
  zero and is refused.\<close>

lemma brick_whitelist_correct:
  "is_brick_whitelisted b \<longleftrightarrow> length b = 6 \<and> take 2 b = ''PB'' \<and> (b = ''PBTEST'' \<or> 1706 \<le> atoi (drop 2 b) \<and> atoi (drop 2 b) \<le> 9999)"
  by (rule brick_spec)


section \<open>A concrete run\<close>

definition test_shield :: shield where
  "test_shield = \<lparr> allocated = True, pInfo = test_power, input_devs_array = shield_devs, booting = False, gpu_threads = [] \<rparr>"

lemma test_shield_runs: "\<exists>s'. shield_power_set_interactive test_os True on test_shield = Some s'"
  by (simp add: shield_power_set_interactive_def set_power_level_floor_def sys_def Let_def test_os_def property_text_def strncmp_eq_def)


end
