(* ===== verification/Thermal.thy ===== *)
theory Thermal
  imports CStrings Float32 "HOL-Library.Monad_Syntax"
begin

text \<open>
  The thermal HAL (\<open>hardware/nvidia/thermal\<close>): reading its configuration (\<open>parse_thermal.c\<close>), finding
  the files of the sensors and reading temperatures, processor usage and fans (\<open>thermal.c\<close>). The file
  system is read only: during a call it is a function from paths to contents. The XML reader of the
  platform is a parameter too: the nodes it delivers for a file. An operation that leaves an array,
  follows a null pointer or reads an uninitialised value is \<open>None\<close>. Memory is always granted.
\<close>

section \<open>Environment\<close>

datatype xml_node =
    Element string "(string \<times> string) list"
  | EndElement string
  | TextNode
  | OtherNode string

text \<open>A document is its nodes and whether the reader reached the end without an error.\<close>

record thermal_env =
  e_file :: "string \<Rightarrow> string option"
  e_dir :: "string \<Rightarrow> string list option"
  e_prop :: "string \<Rightarrow> string"
  e_xml :: "string \<Rightarrow> (xml_node list \<times> bool) option"
  e_errno :: "string \<Rightarrow> int"
  e_exists :: "string \<Rightarrow> bool"

definition MAX_LENGTH :: nat where "MAX_LENGTH = 100"

section \<open>Conversions of the C library\<close>

text \<open>A decimal number with optional sign, fraction and exponent; \<open>None\<close> when there is no digit.\<close>

definition scan_sign :: "string \<Rightarrow> bool \<times> string" where
  "scan_sign s = (case s of [] \<Rightarrow> (False, []) | c # t \<Rightarrow> if c = CHR ''-'' then (True, t) else if c = CHR ''+'' then (False, t) else (False, s))"

definition scan_exponent :: "string \<Rightarrow> int" where
  "scan_exponent s =
     (case s of
        c # t \<Rightarrow>
          if c = CHR ''e'' \<or> c = CHR ''E'' then
            let (neg, u) = scan_sign t; v = digits 0 (takeWhile digit u) in if neg then - v else v
          else 0
      | [] \<Rightarrow> 0)"

definition scan_decimal :: "string \<Rightarrow> rat option" where
  "scan_decimal s =
     (let (neg, t) = scan_sign (dropWhile blank s); a = takeWhile digit t; r = dropWhile digit t;
          (b, r') = (case r of c # u \<Rightarrow> if c = CHR ''.'' then (takeWhile digit u, dropWhile digit u) else ([], r) | [] \<Rightarrow> ([], r));
          v = of_int (digits 0 (a @ b)) * 10 powi (scan_exponent r' - int (length b))
      in if a = [] \<and> b = [] then None else Some (if neg then - v else v))"

text \<open>Double precision, for \<open>atof\<close>, which is then narrowed to \<open>float\<close>.\<close>

definition dround_pos :: "rat \<Rightarrow> rat" where
  "dround_pos x = (let u = 2 powi (find_exp 2045 (-1022) x - 52) in of_int (round_even (x / u)) * u)"

definition atof :: "string \<Rightarrow> rat" where
  "atof s = (case scan_decimal s of None \<Rightarrow> 0 | Some x \<Rightarrow> if x < 0 then - dround_pos (- x) else dround_pos x)"

definition scan_float :: "string \<Rightarrow> rat option" where
  "scan_float s = map_option fround (scan_decimal s)"

text \<open>\<open>%s\<close> into an array of \<open>MAX_LENGTH\<close> bytes: no word, a word, or a write behind the array.\<close>

definition scan_word :: "string \<Rightarrow> string option option" where
  "scan_word s =
     (let w = takeWhile (\<lambda>c. \<not> blank c) (dropWhile blank s)
      in if w = [] then Some None else if length w < MAX_LENGTH then Some (Some w) else None)"

fun strstr :: "string \<Rightarrow> string \<Rightarrow> bool" where
  "strstr pat [] \<longleftrightarrow> pat = []"
| "strstr pat (c # s) \<longleftrightarrow> take (length pat) (c # s) = pat \<or> strstr pat s"

section \<open>Configuration\<close>

datatype temperature_type = DEVICE_TEMPERATURE_UNKNOWN | DEVICE_TEMPERATURE_CPU | DEVICE_TEMPERATURE_GPU
  | DEVICE_TEMPERATURE_BATTERY | DEVICE_TEMPERATURE_SKIN

datatype cooling_type = FAN_RPM

text \<open>
  A sensor. \<open>multiplier\<close> is \<open>None\<close> while it has not been written; \<open>cluster\<close> tells whether the pointer
  \<open>read_temperature\<close> is set. The three threshold values are never read and are left out.
\<close>

record thermal_desc =
  td_name :: "string option"
  td_type :: temperature_type
  sensor_label :: "string option"
  threshold_label :: "string option"
  throttling_threshold_path :: "string option"
  vr_throttling_threshold_path :: "string option"
  shutdown_threshold_path :: "string option"
  multiplier :: "rat option"
  cores :: int
  core_names :: "string list"
  cluster :: bool
  temperature_path :: "string option"

record cooling_desc =
  cd_name :: "string option"
  cd_type :: "cooling_type option"
  cooling_path :: "string option"

text \<open>The arrays may have elements that were never written; a null pointer is \<open>None\<close>.\<close>

record thermal_state =
  platform_data :: "thermal_desc option list option"
  platform_data_count :: nat
  cooling_data :: "cooling_desc option list option"
  cooling_data_count :: nat
  num_cpus_total :: "int option"
  thermal_flag :: bool
  cooling_flag :: bool

definition thermal_init :: thermal_state where
  "thermal_init = \<lparr> platform_data = None, platform_data_count = 0, cooling_data = None, cooling_data_count = 0, num_cpus_total = None,
     thermal_flag = False, cooling_flag = False \<rparr>"

definition new_desc :: thermal_desc where
  "new_desc = \<lparr> td_name = None, td_type = DEVICE_TEMPERATURE_UNKNOWN, sensor_label = None, threshold_label = None,
     throttling_threshold_path = None, vr_throttling_threshold_path = None, shutdown_threshold_path = None, multiplier = None,
     cores = 0, core_names = [], cluster = False, temperature_path = None \<rparr>"

definition new_cooling :: cooling_desc where
  "new_cooling = \<lparr> cd_name = None, cd_type = None, cooling_path = None \<rparr>"

text \<open>\<open>realloc\<close> to \<open>n + 1\<close> elements, the last of which is then written.\<close>

definition grow :: "nat \<Rightarrow> 'a \<Rightarrow> 'a option list option \<Rightarrow> 'a option list option" where
  "grow n x arr = (let xs = (case arr of None \<Rightarrow> [] | Some xs \<Rightarrow> xs) in Some (take n (xs @ replicate n None) @ [Some x]))"

definition elem :: "nat \<Rightarrow> 'a option list option \<Rightarrow> 'a option" where
  "elem i arr = (case arr of None \<Rightarrow> None | Some xs \<Rightarrow> if i < length xs then xs ! i else None)"

definition set_elem :: "nat \<Rightarrow> 'a \<Rightarrow> 'a option list option \<Rightarrow> 'a option list option" where
  "set_elem i x arr = map_option (\<lambda>xs. xs[i := Some x]) arr"

definition keep_first :: "string option \<Rightarrow> string option \<Rightarrow> string option" where
  "keep_first old c = (if old = None then c else old)"

definition parse_cool_prop :: "(string \<times> string) list \<Rightarrow> cooling_desc \<Rightarrow> int \<times> cooling_desc" where
  "parse_cool_prop attrs d =
     (let d = d\<lparr>cd_name := keep_first (cd_name d) (map_of attrs ''name'')\<rparr>;
          finish = (\<lambda>d. (0, d\<lparr>cooling_path := keep_first (cooling_path d) (map_of attrs ''cooling-path'')\<rparr>))
      in case map_of attrs ''type'' of
           None \<Rightarrow> finish d
         | Some c \<Rightarrow> if c = ''FAN_RPM'' then finish (d\<lparr>cd_type := Some FAN_RPM\<rparr>) else (-ENOENT, d))"

definition type_of_name :: "string \<Rightarrow> temperature_type option" where
  "type_of_name c =
     (if c = ''DEVICE_TEMPERATURE_CPU'' then Some DEVICE_TEMPERATURE_CPU
      else if c = ''DEVICE_TEMPERATURE_GPU'' then Some DEVICE_TEMPERATURE_GPU
      else if c = ''DEVICE_TEMPERATURE_BATTERY'' then Some DEVICE_TEMPERATURE_BATTERY
      else if c = ''DEVICE_TEMPERATURE_SKIN'' then Some DEVICE_TEMPERATURE_SKIN else None)"

text \<open>The names of the cores need the name of the sensor, which must have been read.\<close>

definition parse_cores :: "string \<Rightarrow> thermal_desc \<Rightarrow> thermal_desc option" where
  "parse_cores c d =
     (let x = atoi c; d = (if x > 0 then d\<lparr>cores := x, cluster := True\<rparr> else d)
      in if x > 0 then
           case td_name d of
             None \<Rightarrow> None
           | Some nm \<Rightarrow> Some (d\<lparr>core_names := map (\<lambda>i. nm @ itoa (int i)) [0..<nat x]\<rparr>)
         else Some (d\<lparr>core_names := []\<rparr>))"

definition parse_therm_prop :: "(string \<times> string) list \<Rightarrow> thermal_desc \<Rightarrow> thermal_desc option" where
  "parse_therm_prop attrs d =
     (let d = d\<lparr>td_name := keep_first (td_name d) (map_of attrs ''name''),
                sensor_label := keep_first (sensor_label d) (map_of attrs ''sensor-label''),
                threshold_label := keep_first (threshold_label d) (map_of attrs ''threshold-label'')\<rparr>;
          d = (case map_of attrs ''multiplier'' of None \<Rightarrow> d | Some c \<Rightarrow> d\<lparr>multiplier := Some (fround (atof c))\<rparr>);
          d = (case Option.bind (map_of attrs ''type'') type_of_name of None \<Rightarrow> d | Some t \<Rightarrow> d\<lparr>td_type := t\<rparr>)
      in case map_of attrs ''cores'' of None \<Rightarrow> Some d | Some c \<Rightarrow> parse_cores c d)"

definition processNode :: "xml_node \<Rightarrow> thermal_state \<Rightarrow> (int \<times> thermal_state) option" where
  "processNode nd s =
     (case nd of
        TextNode \<Rightarrow> Some (0, s)
      | OtherNode _ \<Rightarrow> Some (0, s)
      | EndElement name \<Rightarrow>
          if name = ''thermal_device'' then Some (0, s\<lparr>thermal_flag := False, platform_data_count := platform_data_count s + 1\<rparr>)
          else if name = ''cooling_device'' then Some (0, s\<lparr>cooling_flag := False, cooling_data_count := cooling_data_count s + 1\<rparr>)
          else Some (0, s)
      | Element name attrs \<Rightarrow>
          if name = ''thermal_device'' then
            Some (0, s\<lparr>platform_data := grow (platform_data_count s) new_desc (platform_data s), thermal_flag := True\<rparr>)
          else if name = ''cooling_device'' then
            Some (0, s\<lparr>cooling_data := grow (cooling_data_count s) new_cooling (cooling_data s), cooling_flag := True\<rparr>)
          else if name = ''cpu_usages'' then
            (case map_of attrs ''cpus'' of
               None \<Rightarrow> Some (-EINVAL, s)
             | Some c \<Rightarrow> Some (0, s\<lparr>num_cpus_total := Some (atoi c)\<rparr>))
          else if thermal_flag s \<and> name = ''thermal-prop'' then
            do { d \<leftarrow> elem (platform_data_count s) (platform_data s);
                 d' \<leftarrow> parse_therm_prop attrs d;
                 Some (0, s\<lparr>platform_data := set_elem (platform_data_count s) d' (platform_data s)\<rparr>) }
          else if cooling_flag s \<and> name = ''cooling-prop'' then
            do { d \<leftarrow> elem (cooling_data_count s) (cooling_data s);
                 let (r, d') = parse_cool_prop attrs d;
                 Some (r, s\<lparr>cooling_data := set_elem (cooling_data_count s) d' (cooling_data s)\<rparr>) }
          else Some (0, s))"

fun processNodes :: "xml_node list \<Rightarrow> thermal_state \<Rightarrow> (int \<times> thermal_state) option" where
  "processNodes [] s = Some (0, s)"
| "processNodes (nd # nds) s =
     (case processNode nd s of
        None \<Rightarrow> None
      | Some (r, s') \<Rightarrow> if r \<noteq> 0 then Some (r, s') else processNodes nds s')"

definition streamFile :: "thermal_env \<Rightarrow> string \<Rightarrow> thermal_state \<Rightarrow> (int \<times> thermal_state) option" where
  "streamFile E filename s =
     (case e_xml E filename of
        None \<Rightarrow> Some (-EBADF, s)
      | Some (nds, clean) \<Rightarrow>
          map_option (\<lambda>(r, s'). (if r \<noteq> 0 then r else if clean then 0 else -EINVAL, s')) (processNodes nds s))"

definition parse_thermal_config_xml :: "thermal_env \<Rightarrow> string \<Rightarrow> thermal_state \<Rightarrow> (int \<times> thermal_state) option" where
  "parse_thermal_config_xml E hw_name s =
     (if platform_data s = None \<and> cooling_data s = None \<and> num_cpus_total s = None
      then streamFile E (''/system/etc/thermalhal.'' @ hw_name @ ''.xml'') s
      else Some (0, s))"

section \<open>Files of the sensors\<close>

definition THERMAL_ROOT_DIR :: string where "THERMAL_ROOT_DIR = ''/sys/class/thermal''"

definition fill_path :: "string option \<Rightarrow> string \<Rightarrow> string \<Rightarrow> string \<Rightarrow> string option" where
  "fill_path path type_cmp ty file_name = (if path = None \<and> type_cmp = ty then Some file_name else path)"

definition update_threshold_paths :: "string \<Rightarrow> string \<Rightarrow> thermal_desc \<Rightarrow> thermal_desc" where
  "update_threshold_paths ty file_name d =
     d\<lparr>throttling_threshold_path := fill_path (throttling_threshold_path d) ''passive'' ty file_name,
       vr_throttling_threshold_path := fill_path (vr_throttling_threshold_path d) ''passive'' ty file_name,
       shutdown_threshold_path := fill_path (shutdown_threshold_path d) ''critical'' ty file_name\<rparr>"

fun search_threshold_paths :: "thermal_env \<Rightarrow> string \<Rightarrow> string list \<Rightarrow> thermal_desc \<Rightarrow> thermal_desc option" where
  "search_threshold_paths E dir_name [] d = Some d"
| "search_threshold_paths E dir_name (f # fs) d =
     (if strstr ''trip_point'' f \<and> strstr ''type'' f then
        case e_file E (snprintf MAX_LENGTH (dir_name @ ''/'' @ f)) of
          None \<Rightarrow> search_threshold_paths E dir_name fs d
        | Some text \<Rightarrow>
            (case scan_word text of
               None \<Rightarrow> None
             | Some None \<Rightarrow> search_threshold_paths E dir_name fs d
             | Some (Some ty) \<Rightarrow>
                 search_threshold_paths E dir_name fs
                   (update_threshold_paths ty (snprintf MAX_LENGTH (dir_name @ ''/'' @ take (length f - 4) f @ ''temp'')) d))
      else search_threshold_paths E dir_name fs d)"

definition get_threshold_paths :: "thermal_env \<Rightarrow> string \<Rightarrow> string \<Rightarrow> thermal_desc \<Rightarrow> thermal_desc option" where
  "get_threshold_paths E current_label de d =
     do { label \<leftarrow> (case threshold_label d of Some l \<Rightarrow> Some l | None \<Rightarrow> sensor_label d);
          if snprintf MAX_LENGTH label = current_label then
            let dir_name = snprintf MAX_LENGTH (THERMAL_ROOT_DIR @ ''/'' @ de)
            in case e_dir E dir_name of None \<Rightarrow> Some d | Some fs \<Rightarrow> search_threshold_paths E dir_name fs d
          else Some d }"

definition get_temperature_path :: "string \<Rightarrow> string \<Rightarrow> thermal_desc \<Rightarrow> thermal_desc option" where
  "get_temperature_path current_label de d =
     do { label \<leftarrow> sensor_label d;
          Some (if label = current_label
                then d\<lparr>temperature_path := Some (snprintf MAX_LENGTH (THERMAL_ROOT_DIR @ ''/'' @ de @ ''/temp''))\<rparr> else d) }"

definition thresholds_known :: "thermal_desc \<Rightarrow> bool" where
  "thresholds_known d \<longleftrightarrow> throttling_threshold_path d \<noteq> None \<and> vr_throttling_threshold_path d \<noteq> None \<and> shutdown_threshold_path d \<noteq> None"

definition update_desc :: "thermal_env \<Rightarrow> string \<Rightarrow> string \<Rightarrow> thermal_desc \<Rightarrow> thermal_desc option" where
  "update_desc E current_label de d =
     do { d \<leftarrow> (if temperature_path d = None then get_temperature_path current_label de d else Some d);
          if \<not> thresholds_known d then get_threshold_paths E current_label de d else Some d }"

fun update_descs :: "(thermal_desc \<Rightarrow> thermal_desc option) \<Rightarrow> thermal_desc list \<Rightarrow> thermal_desc list option" where
  "update_descs f [] = Some []"
| "update_descs f (d # ds) = do { d' \<leftarrow> f d; ds' \<leftarrow> update_descs f ds; Some (d' # ds') }"

text \<open>
  The scan of the directory. The name of the type file is kept from one entry to the next: it is
  only set for the entries of thermal zones, and at first it holds whatever the stack held.
\<close>

fun scan_zones :: "thermal_env \<Rightarrow> string \<Rightarrow> string list \<Rightarrow> thermal_desc list \<Rightarrow> thermal_desc list option" where
  "scan_zones E file_name [] ds = Some ds"
| "scan_zones E file_name (de # des) ds =
     (let file_name = (if strncmp_eq 12 de ''thermal_zone'' then snprintf MAX_LENGTH (THERMAL_ROOT_DIR @ ''/'' @ de @ ''/type'') else file_name)
      in case e_file E file_name of
           None \<Rightarrow> scan_zones E file_name des ds
         | Some text \<Rightarrow>
             (case scan_word text of
                None \<Rightarrow> None
              | Some None \<Rightarrow> scan_zones E file_name des ds
              | Some (Some label) \<Rightarrow>
                  (case update_descs (update_desc E label de) ds of None \<Rightarrow> None | Some ds' \<Rightarrow> scan_zones E file_name des ds')))"

text \<open>The loop before the scan looks at the first sensor only: both of its branches leave it.\<close>

definition get_paths :: "thermal_env \<Rightarrow> string \<Rightarrow> thermal_desc list \<Rightarrow> thermal_desc list option" where
  "get_paths E stale ds =
     (if ds \<noteq> [] \<and> temperature_path (hd ds) \<noteq> None \<and> thresholds_known (hd ds) then Some ds
      else case e_dir E THERMAL_ROOT_DIR of None \<Rightarrow> None | Some des \<Rightarrow> scan_zones E stale des ds)"

section \<open>Temperatures\<close>

record temperature =
  t_type :: temperature_type
  t_name :: "string option"
  current_value :: rat
  throttling_threshold :: rat
  shutdown_threshold :: rat
  vr_throttling_threshold :: rat

text \<open>The result of the conversion is 1, 0 or -1; anything but 1 is a failure for the caller.\<close>

definition read_temp_file :: "thermal_env \<Rightarrow> string option \<Rightarrow> int \<Rightarrow> int + rat" where
  "read_temp_file E path sz =
     (if sz < 1 then Inl (-ENOMEM)
      else case Option.bind path (e_file E) of
             None \<Rightarrow> Inl (-ENOENT)
           | Some text \<Rightarrow> (case scan_float text of None \<Rightarrow> Inl 0 | Some v \<Rightarrow> Inr v))"

definition put :: "nat \<Rightarrow> 'a \<Rightarrow> 'a list \<Rightarrow> 'a list option" where
  "put i x xs = (if i < length xs then Some (xs[i := x]) else None)"

definition read_four :: "thermal_env \<Rightarrow> thermal_desc \<Rightarrow> int \<Rightarrow> (rat \<times> rat \<times> rat \<times> rat) option" where
  "read_four E d sz =
     (case read_temp_file E (temperature_path d) sz of
        Inl _ \<Rightarrow> None
      | Inr t \<Rightarrow>
          (case read_temp_file E (throttling_threshold_path d) sz of
             Inl _ \<Rightarrow> None
           | Inr th \<Rightarrow>
               (case read_temp_file E (vr_throttling_threshold_path d) sz of
                  Inl _ \<Rightarrow> None
                | Inr vr \<Rightarrow> (case read_temp_file E (shutdown_threshold_path d) sz of Inl _ \<Rightarrow> None | Inr sh \<Rightarrow> Some (t, th, vr, sh)))))"

definition read_temperature :: "thermal_env \<Rightarrow> thermal_desc \<Rightarrow> nat \<Rightarrow> int \<Rightarrow> temperature list \<Rightarrow> (int \<times> temperature list) option" where
  "read_temperature E d idx sz out =
     (case read_four E d sz of
        None \<Rightarrow> Some (-ENOENT, out)
      | Some (t, th, vr, sh) \<Rightarrow>
          do { m \<leftarrow> multiplier d;
               out \<leftarrow> put idx \<lparr> t_type = td_type d, t_name = td_name d, current_value = fmul t m, throttling_threshold = fmul th m,
                               shutdown_threshold = fmul sh m, vr_throttling_threshold = fmul vr m \<rparr> out;
               Some (1, out) })"

text \<open>The first element is copied to the others, each with the name of its core.\<close>

fun name_cores :: "thermal_desc \<Rightarrow> nat \<Rightarrow> nat \<Rightarrow> nat \<Rightarrow> temperature list \<Rightarrow> temperature list option" where
  "name_cores d idx i 0 out = Some out"
| "name_cores d idx i (Suc n) out =
     (if idx < length out \<and> i < length (core_names d) then
        do { out \<leftarrow> put (idx + i) ((out ! idx)\<lparr>t_name := Some (core_names d ! i)\<rparr>) out;
             name_cores d idx (Suc i) n out }
      else None)"

definition read_cluster_temperature :: "thermal_env \<Rightarrow> thermal_desc \<Rightarrow> nat \<Rightarrow> int \<Rightarrow> temperature list \<Rightarrow> (int \<times> temperature list) option" where
  "read_cluster_temperature E d idx sz out =
     (if sz < cores d then Some (-ENOMEM, out)
      else
        do { (ret, out) \<leftarrow> read_temperature E d idx sz out;
             if ret < 0 then Some (ret, out)
             else do { out \<leftarrow> name_cores d idx 0 1 out;
                       out \<leftarrow> name_cores d idx 1 (nat (cores d) - 1) out;
                       Some (cores d, out) } })"

fun read_all :: "thermal_env \<Rightarrow> int \<Rightarrow> thermal_desc list \<Rightarrow> nat \<Rightarrow> temperature list \<Rightarrow> (int \<times> temperature list) option" where
  "read_all E sz [] idx out = Some (int idx, out)"
| "read_all E sz (d # ds) idx out =
     (case (if cluster d then read_cluster_temperature E d idx (sz - int idx) out else read_temperature E d idx (sz - int idx) out) of
        None \<Rightarrow> None
      | Some (ret, out) \<Rightarrow> if ret < 0 then Some (ret, out) else read_all E sz ds (idx + nat ret) out)"

text \<open>The elements in use, which must all have been written.\<close>

definition used :: "nat \<Rightarrow> 'a option list option \<Rightarrow> 'a list option" where
  "used n arr = (if n = 0 then Some [] else
     case arr of None \<Rightarrow> None
     | Some xs \<Rightarrow> if n \<le> length xs \<and> None \<notin> set (take n xs) then Some (map the (take n xs)) else None)"

definition configured :: "thermal_env \<Rightarrow> thermal_state \<Rightarrow> (int \<times> thermal_state) option" where
  "configured E s =
     (let hw = e_prop E ''ro.hardware''
      in if hw = [] then Some (-ENOENT, s)
         else map_option (\<lambda>(r, s). (if r \<noteq> 0 then -EINVAL else 0, s)) (parse_thermal_config_xml E hw s))"

definition store_descs :: "thermal_desc list \<Rightarrow> thermal_state \<Rightarrow> thermal_state" where
  "store_descs ds s = s\<lparr>platform_data := map_option (\<lambda>xs. map Some ds @ drop (length ds) xs) (platform_data s)\<rparr>"

definition get_temperatures :: "thermal_env \<Rightarrow> string \<Rightarrow> temperature list option \<Rightarrow> thermal_state \<Rightarrow>
    (int \<times> temperature list option \<times> thermal_state) option" where
  "get_temperatures E stale list s =
     do { (r, s) \<leftarrow> configured E s;
          if r \<noteq> 0 then Some (r, list, s)
          else
            do { ds \<leftarrow> used (platform_data_count s) (platform_data s);
                 case list of
                   None \<Rightarrow> Some (sum_list (map (\<lambda>d. if cores d \<noteq> 0 then cores d else 1) ds), None, s)
                 | Some out \<Rightarrow>
                     if out = [] then Some (-ENOMEM, list, s)
                     else
                       do { ds \<leftarrow> get_paths E stale ds;
                            (ret, out') \<leftarrow> read_all E (int (length out)) ds 0 out;
                            let ds = (if ret < 0 then map (temperature_path_update (\<lambda>_. None)) ds else ds);
                            Some (ret, Some out', store_descs ds s) } } }"

section \<open>Processor usage and fans\<close>

record cpu_usage =
  active :: u64
  total_time :: u64
  is_online :: int

text \<open>\<open>sscanf\<close> with the format \<open>cpu%d\<close> and four unsigned numbers; the digits are there by the test before.\<close>

definition scan_unsigned :: "string \<Rightarrow> (u64 \<times> string) option" where
  "scan_unsigned s =
     (let t = dropWhile blank s; ds = takeWhile digit t
      in if ds = [] then None else Some (word_of_int (min (digits 0 ds) (2 ^ 64 - 1)), dropWhile digit t))"

definition scan_cpu_line :: "string \<Rightarrow> (int \<times> u64 \<times> u64 \<times> u64 \<times> u64) option" where
  "scan_cpu_line line =
     (let t = drop 3 line; n = digits 0 (takeWhile digit t); r = dropWhile digit t in
      do { (user, r) \<leftarrow> scan_unsigned r;
           (nice, r) \<leftarrow> scan_unsigned r;
           (system, r) \<leftarrow> scan_unsigned r;
           (idle, r) \<leftarrow> scan_unsigned r;
           Some (n, user, nice, system, idle) })"

definition cpu_line :: "string \<Rightarrow> bool" where
  "cpu_line line \<longleftrightarrow> 4 \<le> length line \<and> take 3 line = ''cpu'' \<and> digit (line ! 3)"

definition online_path :: "int \<Rightarrow> string" where
  "online_path n = snprintf MAX_LENGTH (''/sys/devices/system/cpu/cpu'' @ itoa n @ ''/online'')"

text \<open>The state of a processor: a missing file counts as online for processor 0 only; \<open>None\<close> is unreadable.\<close>

definition cpu_online :: "thermal_env \<Rightarrow> int \<Rightarrow> int option" where
  "cpu_online E n =
     (case e_file E (online_path n) of
        None \<Rightarrow> Some (of_bool (n = 0))
      | Some text \<Rightarrow> (let t = snd (scan_sign (dropWhile blank text)) in if t \<noteq> [] \<and> digit (hd t) then Some (atoi text) else None))"

definition io_error :: "int \<Rightarrow> int" where
  "io_error errno = (if errno \<noteq> 0 then - errno else -EIO)"

fun read_usages :: "thermal_env \<Rightarrow> int \<Rightarrow> string list \<Rightarrow> nat \<Rightarrow> cpu_usage list \<Rightarrow> (int \<times> cpu_usage list) option" where
  "read_usages E errno [] n out = Some (int n, out)"
| "read_usages E errno (line # lines) n out =
     (if \<not> cpu_line line then read_usages E errno lines n out
      else
        case scan_cpu_line line of
          None \<Rightarrow> Some (io_error errno, out)
        | Some (cpu, user, nice, system, idle) \<Rightarrow>
            (case cpu_online E cpu of
               None \<Rightarrow> Some (io_error errno, out)
             | Some onl \<Rightarrow>
                 (case put n \<lparr> active = user + nice + system, total_time = user + nice + system + idle, is_online = onl \<rparr> out of
                    None \<Rightarrow> None
                  | Some out \<Rightarrow> read_usages E errno lines (Suc n) out)))"

fun split_lines :: "string \<Rightarrow> string list" where
  "split_lines [] = []"
| "split_lines (c # s) =
     (if c = CHR 0x0A then [c] # split_lines s
      else case split_lines s of [] \<Rightarrow> [[c]] | l # ls \<Rightarrow> (c # l) # ls)"

text \<open>The caller gives no size: the array is what it allocated.\<close>

definition get_cpu_usages :: "thermal_env \<Rightarrow> int \<Rightarrow> cpu_usage list option \<Rightarrow> thermal_state \<Rightarrow> (int \<times> cpu_usage list option \<times> thermal_state) option" where
  "get_cpu_usages E errno list s =
     do { (r, s) \<leftarrow> configured E s;
          if r \<noteq> 0 then Some (r, list, s)
          else case list of
                 None \<Rightarrow> map_option (\<lambda>n. (n, None, s)) (num_cpus_total s)
               | Some out \<Rightarrow>
                   (case e_file E ''/proc/stat'' of
                      None \<Rightarrow> Some (- e_errno E ''/proc/stat'', list, s)
                    | Some text \<Rightarrow> map_option (\<lambda>(ret, out). (ret, Some out, s)) (read_usages E errno (split_lines text) 0 out)) }"

record cooling_device =
  c_type :: cooling_type
  c_name :: "string option"
  rpm :: rat

definition cooling_file :: "cooling_desc \<Rightarrow> string" where
  "cooling_file d = snprintf MAX_LENGTH (case cooling_path d of Some p \<Rightarrow> p | None \<Rightarrow> ''/sys/kernel/debug/tegra_fan/cur_rpm'')"

text \<open>The loop runs over the caller's array, not over the configured devices.\<close>

fun read_fans :: "thermal_env \<Rightarrow> thermal_state \<Rightarrow> nat \<Rightarrow> nat \<Rightarrow> cooling_device list \<Rightarrow> (int \<times> cooling_device list) option" where
  "read_fans E s count 0 out = Some (int count, out)"
| "read_fans E s count (Suc n) out =
     do { d \<leftarrow> elem count (cooling_data s);
          case e_file E (cooling_file d) of
            None \<Rightarrow> Some (- e_errno E (cooling_file d), out)
          | Some text \<Rightarrow>
              (case scan_float text of
                 None \<Rightarrow> Some (-ENOENT, out)
               | Some v \<Rightarrow>
                   do { t \<leftarrow> cd_type d;
                        out \<leftarrow> put count \<lparr> c_type = t, c_name = cd_name d, rpm = v \<rparr> out;
                        read_fans E s (Suc count) n out }) }"

definition get_cooling_devices :: "thermal_env \<Rightarrow> cooling_device list option \<Rightarrow> thermal_state \<Rightarrow>
    (int \<times> cooling_device list option \<times> thermal_state) option" where
  "get_cooling_devices E list s =
     do { (r, s) \<leftarrow> configured E s;
          if r \<noteq> 0 then Some (r, list, s)
          else case list of
                 None \<Rightarrow>
                   do { ds \<leftarrow> used (cooling_data_count s) (cooling_data s);
                        Some (int (length (filter (\<lambda>d. e_exists E (cooling_file d)) ds)), None, s) }
               | Some out \<Rightarrow>
                   if out = [] then Some (-ENOMEM, list, s)
                   else map_option (\<lambda>(ret, out). (ret, Some out, s)) (read_fans E s 0 (length out) out) }"

end
