(* ===== verification/ThermalProps.thy ===== *)
theory ThermalProps
  imports Thermal
begin

text \<open>
  Properties of the thermal HAL: the temperatures a call delivers and where it writes them, the file
  each sensor is read from, the order in which the configuration is collected, and the arrays that
  are indexed without a check.
\<close>

section \<open>Reading temperatures\<close>

text \<open>What one sensor contributes: one element, or one for every core.\<close>

definition base_entry :: "thermal_env \<Rightarrow> thermal_desc \<Rightarrow> temperature option" where
  "base_entry E d =
     (case (read_four E d 1, multiplier d) of
        (Some (t, th, vr, sh), Some m) \<Rightarrow>
          Some \<lparr> t_type = td_type d, t_name = td_name d, current_value = fmul t m, throttling_threshold = fmul th m,
                 shutdown_threshold = fmul sh m, vr_throttling_threshold = fmul vr m \<rparr>
      | _ \<Rightarrow> None)"

definition sensor_entries :: "thermal_env \<Rightarrow> thermal_desc \<Rightarrow> temperature list option" where
  "sensor_entries E d =
     map_option (\<lambda>b. if cluster d then map (\<lambda>n. b\<lparr>t_name := Some n\<rparr>) (core_names d) else [b]) (base_entry E d)"

text \<open>A sensor as the parser leaves it, with its multiplier given.\<close>

definition desc_ok :: "thermal_desc \<Rightarrow> bool" where
  "desc_ok d \<longleftrightarrow> multiplier d \<noteq> None \<and> (cluster d \<longrightarrow> 0 < cores d \<and> int (length (core_names d)) = cores d) \<and> (\<not> cluster d \<longrightarrow> cores d = 0)"

lemma read_temp_file_size: "1 \<le> sz \<Longrightarrow> read_temp_file E p sz = read_temp_file E p 1"
  by (simp add: read_temp_file_def)

lemma read_four_size: "read_four E d sz = (if sz < 1 then None else read_four E d 1)"
proof (cases "sz < 1")
  case True
  then show ?thesis by (simp add: read_four_def read_temp_file_def)
next
  case False
  then have "read_temp_file E p sz = read_temp_file E p 1" for p by (intro read_temp_file_size) simp
  then show ?thesis using False by (simp only: read_four_def if_False)
qed

lemma read_temperature_spec:
  assumes "multiplier d \<noteq> None" "sz = int (length out) - int idx"
  shows "read_temperature E d idx sz out =
    (case base_entry E d of Some b \<Rightarrow> if 1 \<le> sz then Some (1, out[idx := b]) else Some (-ENOENT, out) | None \<Rightarrow> Some (-ENOENT, out))"
  unfolding read_temperature_def read_four_size [of E d sz] using assms(1) assms(2)
  by (cases "read_four E d 1") (auto simp: base_entry_def put_def)

lemma name_cores_spec:
  assumes "length (core_names d) = i + n" "idx + i + n \<le> length out" "i \<noteq> 0 \<or> n = 0"
  shows "name_cores d idx i n out =
    Some (take (idx + i) out @ map (\<lambda>c. (out ! idx)\<lparr>t_name := Some c\<rparr>) (drop i (core_names d)) @ drop (idx + i + n) out)"
  using assms
proof (induction n arbitrary: i out)
  case (Suc n)
  define x where "x = (out ! idx)\<lparr>t_name := Some (core_names d ! i)\<rparr>"
  define out' where "out' = out[idx + i := x]"
  have i: "i < length (core_names d)" "idx + i < length out" "idx < length out" using Suc.prems by simp_all
  have nth: "out' ! idx = out ! idx" using Suc.prems(3) by (simp add: out'_def)
  have "name_cores d idx (Suc i) n out' = Some (take (idx + Suc i) out' @ map (\<lambda>c. (out' ! idx)\<lparr>t_name := Some c\<rparr>) (drop (Suc i) (core_names d)) @ drop (idx + Suc i + n) out')"
    using Suc.prems by (intro Suc.IH) (simp_all add: out'_def)
  moreover have "take (idx + Suc i) out' = take (idx + i) out @ [x]" using i(2) by (simp add: out'_def take_Suc_conv_app_nth)
  moreover have "drop (idx + Suc i + n) out' = drop (idx + i + Suc n) out" by (simp add: out'_def)
  moreover have "drop i (core_names d) = core_names d ! i # drop (Suc i) (core_names d)" using i(1) by (simp add: Cons_nth_drop_Suc)
  ultimately show ?case using i nth by (simp add: put_def x_def [symmetric] out'_def [symmetric])
qed simp

lemma splice_head: "idx < length out \<Longrightarrow> n \<ge> 1 \<Longrightarrow> take (idx + 1) (out[idx := b]) @ xs @ drop (idx + n) (out[idx := b]) = take idx out @ b # xs @ drop (idx + n) out"
  by (simp add: take_Suc_conv_app_nth)

lemma read_one_spec:
  assumes "desc_ok d" "idx \<le> length out"
  shows "(if cluster d then read_cluster_temperature E d idx (int (length out) - int idx) out
          else read_temperature E d idx (int (length out) - int idx) out) =
    (case sensor_entries E d of
       Some es \<Rightarrow> if idx + length es \<le> length out then Some (int (length es), take idx out @ es @ drop (idx + length es) out)
                  else Some (if cluster d then -ENOMEM else -ENOENT, out)
     | None \<Rightarrow> Some (if cluster d \<and> int (length out) - int idx < cores d then -ENOMEM else -ENOENT, out))"
proof (cases "cluster d")
  case False
  have m: "multiplier d \<noteq> None" using assms(1) by (simp add: desc_ok_def)
  show ?thesis using False assms(2)
    by (auto simp: read_temperature_spec [OF m refl] sensor_entries_def upd_conv_take_nth_drop split: option.split)
next
  case True
  have m: "multiplier d \<noteq> None" and c: "0 < cores d" "int (length (core_names d)) = cores d" using assms(1) True by (simp_all add: desc_ok_def)
  show ?thesis
  proof (cases "int (length out) - int idx < cores d")
    case True
    then show ?thesis using \<open>cluster d\<close> c by (auto simp: read_cluster_temperature_def sensor_entries_def split: option.split)
  next
    case False
    define k where "k = length (core_names d)"
    have k: "nat (cores d) = k" "0 < k" "idx + k \<le> length out" "cores d = int k" using False c unfolding k_def by linarith+
    obtain n0 ns where ns: "core_names d = n0 # ns" using k(2) by (cases "core_names d") (simp_all add: k_def)
    show ?thesis
    proof (cases "base_entry E d")
      case None
      then show ?thesis using \<open>cluster d\<close> False c(1)
        by (simp add: read_cluster_temperature_def read_temperature_spec [OF m refl] sensor_entries_def ENOENT_def)
    next
      case (Some b)
      define o1 where "o1 = out[idx := b]"
      define o2 where "o2 = o1[idx := b\<lparr>t_name := Some n0\<rparr>]"
      have len: "length o1 = length out" "length o2 = length out" "idx < length out" using k by (simp_all add: o1_def o2_def)
      have first: "name_cores d idx 0 (Suc 0) o1 = Some o2" using len ns by (simp add: put_def o2_def o1_def)
      have "name_cores d idx 1 (k - 1) o2 = Some (take (idx + 1) o2 @ map (\<lambda>c. (o2 ! idx)\<lparr>t_name := Some c\<rparr>) (drop 1 (core_names d)) @ drop (idx + 1 + (k - 1)) o2)"
        using k len by (intro name_cores_spec) (simp_all add: k_def)
      also have "\<dots> = Some (take idx out @ map (\<lambda>n. b\<lparr>t_name := Some n\<rparr>) (core_names d) @ drop (idx + k) out)"
        using k len ns by (simp add: o2_def o1_def take_Suc_conv_app_nth k_def)
      finally have rest: "name_cores d idx 1 (k - 1) o2 = Some (take idx out @ map (\<lambda>n. b\<lparr>t_name := Some n\<rparr>) (core_names d) @ drop (idx + k) out)" .
      show ?thesis using \<open>cluster d\<close> False c(1) Some k first rest
        by (simp add: read_cluster_temperature_def read_temperature_spec [OF m refl] sensor_entries_def o1_def [symmetric] k_def [symmetric])
    qed
  qed
qed

lemma read_all_spec:
  assumes "\<forall>d \<in> set ds. desc_ok d" "idx \<le> length out"
  shows "\<exists>ret out'. read_all E (int (length out)) ds idx out = Some (ret, out') \<and> length out' = length out \<and>
    (0 \<le> ret \<longrightarrow> (\<exists>ess. map (sensor_entries E) ds = map Some ess \<and> ret = int (idx + length (concat ess)) \<and> nat ret \<le> length out \<and>
       out' = take idx out @ concat ess @ drop (nat ret) out))"
  using assms
proof (induction ds arbitrary: idx out)
  case (Cons d ds)
  note one = read_one_spec [OF _ Cons.prems(2), of d E]
  have ok: "desc_ok d" using Cons.prems(1) by simp
  show ?case
  proof (cases "\<exists>es. sensor_entries E d = Some es \<and> idx + length es \<le> length out")
    case False
    then have "\<exists>r. r < 0 \<and> (if cluster d then read_cluster_temperature E d idx (int (length out) - int idx) out
          else read_temperature E d idx (int (length out) - int idx) out) = Some (r, out)"
      unfolding one [OF ok] by (auto simp: ENOENT_def ENOMEM_def split: option.splits)
    then show ?thesis by (auto split del: if_split)
  next
    case True
    then obtain es where es: "sensor_entries E d = Some es" "idx + length es \<le> length out" by blast
    define o1 where "o1 = take idx out @ es @ drop (idx + length es) out"
    have o1: "length o1 = length out" using es(2) by (simp add: o1_def)
    have step: "(if cluster d then read_cluster_temperature E d idx (int (length out) - int idx) out
          else read_temperature E d idx (int (length out) - int idx) out) = Some (int (length es), o1)"
      unfolding one [OF ok] using es by (simp add: o1_def)
    obtain ret out' where r: "read_all E (int (length o1)) ds (idx + length es) o1 = Some (ret, out')" "length out' = length o1"
      and p: "0 \<le> ret \<longrightarrow> (\<exists>ess. map (sensor_entries E) ds = map Some ess \<and> ret = int (idx + length es + length (concat ess)) \<and> nat ret \<le> length o1 \<and>
        out' = take (idx + length es) o1 @ concat ess @ drop (nat ret) o1)"
      using Cons.IH [of "idx + length es" o1] Cons.prems(1) es(2) o1 by auto
    have "\<exists>ess. map (sensor_entries E) (d # ds) = map Some ess \<and> ret = int (idx + length (concat ess)) \<and> nat ret \<le> length out \<and>
       out' = take idx out @ concat ess @ drop (nat ret) out" if nonneg: "0 \<le> ret"
    proof -
      obtain ess where e: "map (sensor_entries E) ds = map Some ess" "ret = int (idx + length es + length (concat ess))" "nat ret \<le> length o1"
        "out' = take (idx + length es) o1 @ concat ess @ drop (nat ret) o1" using p nonneg by blast
      have "take (idx + length es) o1 = take idx out @ es" using es(2) by (simp add: o1_def)
      moreover have "drop (nat ret) o1 = drop (nat ret) out" using e(2) es(2) by (simp add: o1_def)
      ultimately show ?thesis using e es(1) o1 by (intro exI [of _ "es # ess"]) simp
    qed
    moreover have "read_all E (int (length out)) (d # ds) idx out = Some (ret, out')"
      using step r(1) o1 by (simp split del: if_split)
    ultimately show ?thesis using r(2) o1 by auto
  qed
qed simp

lemma read_all_complete:
  "\<forall>d \<in> set ds. desc_ok d \<Longrightarrow> map (sensor_entries E) ds = map Some ess \<Longrightarrow> idx + length (concat ess) \<le> length out \<Longrightarrow>
    read_all E (int (length out)) ds idx out = Some (int (idx + length (concat ess)), take idx out @ concat ess @ drop (idx + length (concat ess)) out)"
proof (induction ds arbitrary: idx out ess)
  case (Cons d ds)
  obtain es ess' where e: "ess = es # ess'" "sensor_entries E d = Some es" "map (sensor_entries E) ds = map Some ess'"
    using Cons.prems(2) by (cases ess) auto
  have ok: "desc_ok d" "idx \<le> length out" "idx + length es \<le> length out" using Cons.prems e(1) by simp_all
  define o1 where "o1 = take idx out @ es @ drop (idx + length es) out"
  have o1: "length o1 = length out" "take (idx + length es) o1 = take idx out @ es" "drop (idx + length es + k) o1 = drop (idx + length es + k) out" for k
    using ok(3) by (simp_all add: o1_def add.commute [of k])
  have "(if cluster d then read_cluster_temperature E d idx (int (length out) - int idx) out
      else read_temperature E d idx (int (length out) - int idx) out) = Some (int (length es), o1)"
    unfolding read_one_spec [OF ok(1,2)] using e(2) ok(3) by (simp add: o1_def)
  then show ?case using Cons.IH [of ess' "idx + length es" o1] Cons.prems e(1,3) o1 by (simp add: add.assoc split del: if_split)
qed simp

section \<open>Finding the files\<close>

text \<open>Only paths change.\<close>

definition same_sensor :: "thermal_desc \<Rightarrow> thermal_desc \<Rightarrow> bool" where
  "same_sensor d d' \<longleftrightarrow> d' = d\<lparr>throttling_threshold_path := throttling_threshold_path d', vr_throttling_threshold_path := vr_throttling_threshold_path d',
     shutdown_threshold_path := shutdown_threshold_path d', temperature_path := temperature_path d'\<rparr>"

lemma same_sensor_refl [simp]: "same_sensor d d"
  by (simp add: same_sensor_def)

lemma same_sensor_fields: "same_sensor d d' \<Longrightarrow> td_name d' = td_name d \<and> td_type d' = td_type d \<and> sensor_label d' = sensor_label d \<and>
    threshold_label d' = threshold_label d \<and> multiplier d' = multiplier d \<and> cores d' = cores d \<and> core_names d' = core_names d \<and> cluster d' = cluster d"
  by (cases d, cases d') (simp add: same_sensor_def)

lemma same_sensorI: "td_name d' = td_name d \<Longrightarrow> td_type d' = td_type d \<Longrightarrow> sensor_label d' = sensor_label d \<Longrightarrow>
    threshold_label d' = threshold_label d \<Longrightarrow> multiplier d' = multiplier d \<Longrightarrow> cores d' = cores d \<Longrightarrow> core_names d' = core_names d \<Longrightarrow>
    cluster d' = cluster d \<Longrightarrow> same_sensor d d'"
  by (cases d, cases d') (simp add: same_sensor_def)

lemma same_sensor_trans: "same_sensor a b \<Longrightarrow> same_sensor b c \<Longrightarrow> same_sensor a c"
  by (auto intro!: same_sensorI dest!: same_sensor_fields)

lemma same_sensor_ok: "same_sensor d d' \<Longrightarrow> desc_ok d' = desc_ok d"
  using same_sensor_fields [of d d'] by (simp add: desc_ok_def)

lemma search_keeps: "search_threshold_paths E dn fs d = Some d' \<Longrightarrow> same_sensor d d' \<and> temperature_path d' = temperature_path d"
proof (induction E dn fs d rule: search_threshold_paths.induct)
  case (2 E dn f fs d)
  have "same_sensor d (update_threshold_paths ty fn d) \<and> temperature_path (update_threshold_paths ty fn d) = temperature_path d" for ty fn
    by (simp add: update_threshold_paths_def same_sensor_def)
  then show ?case using 2 by (fastforce split: if_splits option.splits intro: same_sensor_trans)
qed simp

lemma threshold_keeps: "get_threshold_paths E l de d = Some d' \<Longrightarrow> same_sensor d d' \<and> temperature_path d' = temperature_path d"
  by (auto simp: get_threshold_paths_def Let_def bind_eq_Some_conv split: if_splits option.splits dest!: search_keeps)

definition zone_path :: "string \<Rightarrow> string" where
  "zone_path de = snprintf MAX_LENGTH (THERMAL_ROOT_DIR @ ''/'' @ de @ ''/temp'')"

lemma update_desc_effect:
  assumes "update_desc E l de d = Some d'"
  shows "same_sensor d d'"
    "temperature_path d' = (if temperature_path d = None \<and> sensor_label d = Some l then Some (zone_path de) else temperature_path d)"
proof -
  obtain d1 where d1: "(if temperature_path d = None then get_temperature_path l de d else Some d) = Some d1"
    and d': "(if \<not> thresholds_known d1 then get_threshold_paths E l de d1 else Some d1) = Some d'"
    using assms by (auto simp: update_desc_def bind_eq_Some_conv)
  have 1: "d1 = (if temperature_path d = None \<and> sensor_label d = Some l then d\<lparr>temperature_path := Some (zone_path de)\<rparr> else d)"
    using d1 by (auto simp: get_temperature_path_def zone_path_def bind_eq_Some_conv split: if_splits)
  have 1: "same_sensor d d1" "temperature_path d1 = (if temperature_path d = None \<and> sensor_label d = Some l then Some (zone_path de) else temperature_path d)"
    unfolding 1 by (simp_all add: same_sensor_def)
  have 2: "same_sensor d1 d'" "temperature_path d' = temperature_path d1" using d' threshold_keeps [of E l de d1 d'] by (auto split: if_splits)
  show "same_sensor d d'" using 1(1) 2(1) by (rule same_sensor_trans)
  show "temperature_path d' = (if temperature_path d = None \<and> sensor_label d = Some l then Some (zone_path de) else temperature_path d)"
    using 1(2) 2(2) by simp
qed

lemma update_descs_nth:
  "update_descs f ds = Some ds' \<Longrightarrow> length ds' = length ds \<and> (\<forall>i < length ds. f (ds ! i) = Some (ds' ! i))"
proof (induction ds arbitrary: ds')
  case (Cons d ds)
  then show ?case by (auto simp: bind_eq_Some_conv nth_Cons split: nat.splits)
qed simp

text \<open>The word in the type file of a zone.\<close>

definition label_in :: "thermal_env \<Rightarrow> string \<Rightarrow> string option" where
  "label_in E file_name = Option.bind (e_file E file_name) (\<lambda>text. Option.bind (scan_word text) (\<lambda>w. w))"

definition is_zone :: "string \<Rightarrow> bool" where
  "is_zone de \<longleftrightarrow> strncmp_eq 12 de ''thermal_zone''"

definition zone_type_path :: "string \<Rightarrow> string" where
  "zone_type_path de = snprintf MAX_LENGTH (THERMAL_ROOT_DIR @ ''/'' @ de @ ''/type'')"

definition zone_of :: "thermal_env \<Rightarrow> string list \<Rightarrow> string \<Rightarrow> string option" where
  "zone_of E des l = find (\<lambda>de. is_zone de \<and> label_in E (zone_type_path de) = Some l) des"

lemma scan_zones_Cons:
  assumes "scan_zones E fn (de # des) ds = Some ds'"
  obtains ds1 where "scan_zones E (if is_zone de then zone_type_path de else fn) des ds1 = Some ds'" "length ds1 = length ds"
    "\<And>i. i < length ds \<Longrightarrow> same_sensor (ds ! i) (ds1 ! i) \<and> temperature_path (ds1 ! i) =
      (if temperature_path (ds ! i) = None \<and> sensor_label (ds ! i) \<noteq> None \<and> sensor_label (ds ! i) = label_in E (if is_zone de then zone_type_path de else fn)
       then Some (zone_path de) else temperature_path (ds ! i))"
proof -
  define fn' where "fn' = (if is_zone de then zone_type_path de else fn)"
  have run: "(case e_file E fn' of
           None \<Rightarrow> scan_zones E fn' des ds
         | Some text \<Rightarrow>
             (case scan_word text of
                None \<Rightarrow> None
              | Some None \<Rightarrow> scan_zones E fn' des ds
              | Some (Some label) \<Rightarrow>
                  (case update_descs (update_desc E label de) ds of None \<Rightarrow> None | Some ds' \<Rightarrow> scan_zones E fn' des ds'))) = Some ds'"
    using assms unfolding scan_zones.simps Let_def fn'_def is_zone_def zone_type_path_def .
  show thesis
  proof (cases "label_in E fn'")
    case None
    then have "scan_zones E fn' des ds = Some ds'" using run by (auto simp: label_in_def split: option.splits)
    then show thesis using None by (intro that [of ds]) (auto simp: fn'_def)
  next
    case (Some l)
    then obtain ds1 where u: "update_descs (update_desc E l de) ds = Some ds1" "scan_zones E fn' des ds1 = Some ds'"
      using run by (auto simp: label_in_def bind_eq_Some_conv split: option.splits)
    have "same_sensor (ds ! i) (ds1 ! i) \<and> temperature_path (ds1 ! i) =
        (if temperature_path (ds ! i) = None \<and> sensor_label (ds ! i) \<noteq> None \<and> sensor_label (ds ! i) = label_in E fn' then Some (zone_path de) else temperature_path (ds ! i))"
      if "i < length ds" for i
      using update_descs_nth [OF u(1)] that update_desc_effect [of E l de "ds ! i" "ds1 ! i"] Some by auto
    then show thesis using u update_descs_nth [OF u(1)] by (intro that [of ds1]) (simp_all add: fn'_def)
  qed
qed

text \<open>
  A name left over from the entry before does no harm to the temperature files: the sensors of its
  label have their file already.
\<close>

lemma scan_zones_finds:
  assumes "scan_zones E fn des ds = Some ds'" "i < length ds"
    and "temperature_path (ds ! i) = None \<Longrightarrow> sensor_label (ds ! i) = Some l" "temperature_path (ds ! i) = None \<Longrightarrow> label_in E fn \<noteq> Some l"
  shows "length ds' = length ds \<and> same_sensor (ds ! i) (ds' ! i) \<and>
    temperature_path (ds' ! i) = (if temperature_path (ds ! i) = None then map_option zone_path (zone_of E des l) else temperature_path (ds ! i))"
  using assms
proof (induction des arbitrary: fn ds)
  case (Cons de des)
  define fn' where "fn' = (if is_zone de then zone_type_path de else fn)"
  from Cons.prems(1) obtain ds1 where d: "scan_zones E fn' des ds1 = Some ds'" "length ds1 = length ds"
    and e: "same_sensor (ds ! i) (ds1 ! i)" "temperature_path (ds1 ! i) =
      (if temperature_path (ds ! i) = None \<and> sensor_label (ds ! i) \<noteq> None \<and> sensor_label (ds ! i) = label_in E fn' then Some (zone_path de) else temperature_path (ds ! i))"
    using scan_zones_Cons [OF Cons.prems(1)] Cons.prems(2) unfolding fn'_def by metis
  have lab: "sensor_label (ds1 ! i) = sensor_label (ds ! i)" using same_sensor_fields [OF e(1)] by simp
  have ih: "length ds' = length ds1 \<and> same_sensor (ds1 ! i) (ds' ! i) \<and>
    temperature_path (ds' ! i) = (if temperature_path (ds1 ! i) = None then map_option zone_path (zone_of E des l) else temperature_path (ds1 ! i))"
  proof (rule Cons.IH [OF d(1)])
    show "i < length ds1" using Cons.prems(2) d(2) by simp
    show "sensor_label (ds1 ! i) = Some l" if "temperature_path (ds1 ! i) = None" using that e(2) lab Cons.prems(3) by (simp split: if_splits)
    show "label_in E fn' \<noteq> Some l" if "temperature_path (ds1 ! i) = None" using that e(2) lab Cons.prems(3) by (auto split: if_splits)
  qed
  have "temperature_path (ds' ! i) = (if temperature_path (ds ! i) = None then map_option zone_path (zone_of E (de # des) l) else temperature_path (ds ! i))"
  proof (cases "temperature_path (ds ! i) = None")
    case True
    note lp = Cons.prems(3,4) [OF True]
    show ?thesis using ih e(2) True lp by (cases "is_zone de") (auto simp: zone_of_def fn'_def)
  next
    case False
    then have "temperature_path (ds1 ! i) = temperature_path (ds ! i)" using e(2) by simp
    then show ?thesis using ih False by auto
  qed
  then show ?case using ih d(2) same_sensor_trans [OF e(1)] by simp
qed (auto simp: zone_of_def)

lemma get_paths_keeps:
  assumes "get_paths E stale ds = Some ds'"
  shows "length ds' = length ds" "i < length ds \<Longrightarrow> same_sensor (ds ! i) (ds' ! i)"
proof -
  have scan: "length ds' = length ds \<and> (\<forall>i < length ds. same_sensor (ds ! i) (ds' ! i))" if "scan_zones E fn des ds = Some ds'" for fn des ds
    using that
  proof (induction des arbitrary: fn ds)
    case (Cons de des)
    obtain ds1 where d: "scan_zones E (if is_zone de then zone_type_path de else fn) des ds1 = Some ds'" "length ds1 = length ds"
      "\<And>i. i < length ds \<Longrightarrow> same_sensor (ds ! i) (ds1 ! i)" using scan_zones_Cons [OF Cons.prems] by metis
    have "same_sensor (ds ! i) (ds' ! i)" if "i < length ds" for i
      using Cons.IH [OF d(1)] d(2) that same_sensor_trans [OF d(3) [OF that]] by simp
    then show ?case using Cons.IH [OF d(1)] d(2) by simp
  qed simp
  show "length ds' = length ds" "i < length ds \<Longrightarrow> same_sensor (ds ! i) (ds' ! i)"
    using assms scan by (auto simp: get_paths_def split: if_splits option.splits)
qed

lemma get_paths_ok: "get_paths E stale ds = Some ds' \<Longrightarrow> \<forall>d \<in> set ds. desc_ok d \<Longrightarrow> \<forall>d \<in> set ds'. desc_ok d"
  using get_paths_keeps same_sensor_ok by (metis in_set_conv_nth)

section \<open>The configuration\<close>

text \<open>
  A document, as XML defines it: one root element, with comments around it. The reader of \<open>libxml2\<close>
  delivers an element written with an empty tag as one node, and any other as a start, what it
  contains, and an end.
\<close>

datatype xml_tree =
    Tag string "(string \<times> string) list" "xml_tree list option"
  | Chars
  | Comment string

fun reader_nodes :: "xml_tree \<Rightarrow> xml_node list" where
  "reader_nodes (Tag name attrs None) = [Element name attrs]"
| "reader_nodes (Tag name attrs (Some ts)) = Element name attrs # concat (map reader_nodes ts) @ [EndElement name]"
| "reader_nodes Chars = [TextNode]"
| "reader_nodes (Comment c) = [OtherNode c]"

definition document_nodes :: "string list \<Rightarrow> xml_tree \<Rightarrow> string list \<Rightarrow> xml_node list" where
  "document_nodes before t behind = map OtherNode before @ reader_nodes t @ map OtherNode behind"

fun plain :: "xml_tree \<Rightarrow> bool" where
  "plain (Tag _ _ _) = False"
| "plain _ = True"

text \<open>A property: an element of the given name with at most text in it.\<close>

fun is_prop :: "string \<Rightarrow> xml_tree \<Rightarrow> bool" where
  "is_prop name (Tag n a c) = (n = name \<and> (case c of None \<Rightarrow> True | Some ts \<Rightarrow> list_all plain ts))"
| "is_prop name _ = True"

text \<open>What may stand in the root: sensors, fans, the number of processors, text and comments.\<close>

fun is_item :: "xml_tree \<Rightarrow> bool" where
  "is_item (Tag n a c) =
     (if n = ''thermal_device'' then (case c of None \<Rightarrow> False | Some ts \<Rightarrow> list_all (is_prop ''thermal-prop'') ts)
      else if n = ''cooling_device'' then (case c of None \<Rightarrow> False | Some ts \<Rightarrow> list_all (is_prop ''cooling-prop'') ts)
      else n = ''cpu_usages'' \<and> map_of a ''cpus'' \<noteq> None \<and> (case c of None \<Rightarrow> True | Some ts \<Rightarrow> list_all plain ts))"
| "is_item _ = True"

fun attrs_of :: "string \<Rightarrow> xml_tree \<Rightarrow> (string \<times> string) list list" where
  "attrs_of name (Tag n a c) = (if n = name then [a] else [])"
| "attrs_of name _ = []"

definition props_of :: "string \<Rightarrow> xml_tree list \<Rightarrow> (string \<times> string) list list" where
  "props_of name ts = concat (map (attrs_of name) ts)"

fun content_of :: "string \<Rightarrow> xml_tree \<Rightarrow> xml_tree list list" where
  "content_of name (Tag n a (Some ts)) = (if n = name then [ts] else [])"
| "content_of name _ = []"

definition contents_of :: "string \<Rightarrow> xml_tree list \<Rightarrow> xml_tree list list" where
  "contents_of name ts = concat (map (content_of name) ts)"

fun parse_props :: "(string \<times> string) list list \<Rightarrow> thermal_desc \<Rightarrow> thermal_desc option" where
  "parse_props [] d = Some d"
| "parse_props (p # ps) d = Option.bind (parse_therm_prop p d) (parse_props ps)"

fun parse_cools :: "(string \<times> string) list list \<Rightarrow> cooling_desc \<Rightarrow> cooling_desc option" where
  "parse_cools [] d = Some d"
| "parse_cools (p # ps) d = (case parse_cool_prop p d of (r, d') \<Rightarrow> if r = 0 then parse_cools ps d' else None)"

lemma processNodes_append:
  "processNodes (xs @ ys) s = (case processNodes xs s of None \<Rightarrow> None | Some (r, s') \<Rightarrow> if r \<noteq> 0 then Some (r, s') else processNodes ys s')"
  by (induction xs arbitrary: s) (auto split: option.splits)

lemma elem_at: "length xs = n \<Longrightarrow> elem n (Some (xs @ [Some d])) = Some d" "length xs = n \<Longrightarrow> set_elem n d' (Some (xs @ [Some d])) = Some (xs @ [Some d'])"
  by (auto simp: elem_def set_elem_def nth_append)

lemma processNodes_plain: "list_all plain ts \<Longrightarrow> processNodes (concat (map reader_nodes ts)) s = Some (0, s)"
proof (induction ts)
  case (Cons t ts)
  then show ?case by (cases t) (simp_all add: processNode_def)
qed simp

lemma processNodes_comments: "processNodes (map OtherNode cs) s = Some (0, s)"
  by (induction cs) (simp_all add: processNode_def)

lemma prop_nodes:
  assumes "is_prop name (Tag n a c)" "name \<noteq> ''thermal_device''" "name \<noteq> ''cooling_device''"
  shows "processNodes (reader_nodes (Tag n a c)) s = processNodes [Element name a] s"
proof -
  have "processNode (EndElement name) s = Some (0, s)" for s using assms(2,3) by (simp add: processNode_def)
  then show ?thesis using assms(1) processNodes_plain
    by (cases c) (auto simp: processNodes_append split: option.splits)
qed

lemma props_run:
  "list_all (is_prop ''thermal-prop'') ts \<Longrightarrow> parse_props (props_of ''thermal-prop'' ts) d = Some d' \<Longrightarrow>
    length xs = platform_data_count s \<Longrightarrow> platform_data s = Some (xs @ [Some d]) \<Longrightarrow> thermal_flag s \<Longrightarrow>
    processNodes (concat (map reader_nodes ts)) s = Some (0, s\<lparr>platform_data := Some (xs @ [Some d'])\<rparr>)"
proof (induction ts arbitrary: d s)
  case (Cons t ts)
  show ?case
  proof (cases t)
    case (Tag n a c)
    obtain d1 where d1: "parse_therm_prop a d = Some d1" "parse_props (props_of ''thermal-prop'' ts) d1 = Some d'"
      using Cons.prems(1,2) Tag by (auto simp: props_of_def bind_eq_Some_conv)
    define s1 where "s1 = s\<lparr>platform_data := Some (xs @ [Some d1])\<rparr>"
    have "processNodes [Element ''thermal-prop'' a] s = Some (0, s1)"
      using Cons.prems d1(1) by (simp add: processNode_def elem_at s1_def)
    then have "processNodes (reader_nodes t) s = Some (0, s1)"
      using prop_nodes [of "''thermal-prop''" n a c s] Cons.prems(1) Tag by simp
    then show ?thesis using Cons.IH [OF _ d1(2), of s1] Cons.prems by (simp add: processNodes_append s1_def)
  qed (use Cons in \<open>simp_all add: props_of_def processNode_def\<close>)
qed (simp add: props_of_def)

lemma cools_run:
  "list_all (is_prop ''cooling-prop'') ts \<Longrightarrow> parse_cools (props_of ''cooling-prop'' ts) d = Some d' \<Longrightarrow>
    length xs = cooling_data_count s \<Longrightarrow> cooling_data s = Some (xs @ [Some d]) \<Longrightarrow> cooling_flag s \<Longrightarrow>
    processNodes (concat (map reader_nodes ts)) s = Some (0, s\<lparr>cooling_data := Some (xs @ [Some d'])\<rparr>)"
proof (induction ts arbitrary: d s)
  case (Cons t ts)
  show ?case
  proof (cases t)
    case (Tag n a c)
    obtain d1 where d1: "parse_cool_prop a d = (0, d1)" "parse_cools (props_of ''cooling-prop'' ts) d1 = Some d'"
      using Cons.prems(1,2) Tag by (auto simp: props_of_def split: prod.splits if_splits)
    define s1 where "s1 = s\<lparr>cooling_data := Some (xs @ [Some d1])\<rparr>"
    have "processNodes [Element ''cooling-prop'' a] s = Some (0, s1)"
      using Cons.prems d1(1) by (simp add: processNode_def elem_at s1_def)
    then have "processNodes (reader_nodes t) s = Some (0, s1)"
      using prop_nodes [of "''cooling-prop''" n a c s] Cons.prems(1) Tag by simp
    then show ?thesis using Cons.IH [OF _ d1(2), of s1] Cons.prems by (simp add: processNodes_append s1_def)
  qed (use Cons in \<open>simp_all add: props_of_def processNode_def\<close>)
qed (simp add: props_of_def)

definition platform_is :: "thermal_desc list \<Rightarrow> thermal_state \<Rightarrow> bool" where
  "platform_is ds s \<longleftrightarrow> platform_data_count s = length ds \<and> (case platform_data s of None \<Rightarrow> ds = [] | Some xs \<Rightarrow> xs = map Some ds)"

definition cooling_is :: "cooling_desc list \<Rightarrow> thermal_state \<Rightarrow> bool" where
  "cooling_is cs s \<longleftrightarrow> cooling_data_count s = length cs \<and> (case cooling_data s of None \<Rightarrow> cs = [] | Some xs \<Rightarrow> xs = map Some cs)"

text \<open>What has been collected when the reader is between two elements of the root.\<close>

definition collected :: "thermal_desc list \<Rightarrow> cooling_desc list \<Rightarrow> int option \<Rightarrow> thermal_state \<Rightarrow> bool" where
  "collected ds cs n s \<longleftrightarrow> platform_is ds s \<and> cooling_is cs s \<and> num_cpus_total s = n"

lemma device_run:
  assumes "collected ds cs n s" "list_all (is_prop ''thermal-prop'') ts" "parse_props (props_of ''thermal-prop'' ts) new_desc = Some d"
  shows "\<exists>s'. processNodes (reader_nodes (Tag ''thermal_device'' a (Some ts))) s = Some (0, s') \<and> collected (ds @ [d]) cs n s'"
proof -
  define s1 where "s1 = s\<lparr>platform_data := Some (map Some ds @ [Some new_desc]), thermal_flag := True\<rparr>"
  have g: "grow (platform_data_count s) new_desc (platform_data s) = Some (map Some ds @ [Some new_desc])"
    using assms(1) by (auto simp: collected_def platform_is_def grow_def split: option.splits)
  have "processNode (Element ''thermal_device'' a) s = Some (0, s1)" by (simp add: processNode_def g s1_def)
  moreover have "processNodes (concat (map reader_nodes ts)) s1 = Some (0, s1\<lparr>platform_data := Some (map Some ds @ [Some d])\<rparr>)"
    using props_run [OF assms(2,3), of "map Some ds" s1] assms(1) by (simp add: s1_def collected_def platform_is_def)
  ultimately show ?thesis using assms(1)
    by (auto simp: processNodes_append processNode_def s1_def collected_def platform_is_def cooling_is_def)
qed

lemma cooling_run:
  assumes "collected ds cs n s" "list_all (is_prop ''cooling-prop'') ts" "parse_cools (props_of ''cooling-prop'' ts) new_cooling = Some d"
  shows "\<exists>s'. processNodes (reader_nodes (Tag ''cooling_device'' a (Some ts))) s = Some (0, s') \<and> collected ds (cs @ [d]) n s'"
proof -
  define s1 where "s1 = s\<lparr>cooling_data := Some (map Some cs @ [Some new_cooling]), cooling_flag := True\<rparr>"
  have g: "grow (cooling_data_count s) new_cooling (cooling_data s) = Some (map Some cs @ [Some new_cooling])"
    using assms(1) by (auto simp: collected_def cooling_is_def grow_def split: option.splits)
  have "processNode (Element ''cooling_device'' a) s = Some (0, s1)" by (simp add: processNode_def g s1_def)
  moreover have "processNodes (concat (map reader_nodes ts)) s1 = Some (0, s1\<lparr>cooling_data := Some (map Some cs @ [Some d])\<rparr>)"
    using cools_run [OF assms(2,3), of "map Some cs" s1] assms(1) by (simp add: s1_def collected_def cooling_is_def)
  ultimately show ?thesis using assms(1)
    by (auto simp: processNodes_append processNode_def s1_def collected_def platform_is_def cooling_is_def)
qed

text \<open>The number of processors the last \<open>cpu_usages\<close> gives.\<close>

definition cpus_of :: "xml_tree list \<Rightarrow> int option \<Rightarrow> int option" where
  "cpus_of ts n = foldl (\<lambda>n a. map_option atoi (map_of a ''cpus'')) n (props_of ''cpu_usages'' ts)"

lemma usages_run:
  assumes "collected ds cs n s" "is_item (Tag ''cpu_usages'' a c)"
  shows "\<exists>s'. processNodes (reader_nodes (Tag ''cpu_usages'' a c)) s = Some (0, s') \<and>
    collected ds cs (map_option atoi (map_of a ''cpus'')) s'"
proof -
  obtain v where v: "map_of a ''cpus'' = Some v" using assms(2) by auto
  define s1 where "s1 = s\<lparr>num_cpus_total := Some (atoi v)\<rparr>"
  have "processNode (Element ''cpu_usages'' a) s = Some (0, s1)" by (simp add: processNode_def v s1_def)
  moreover have "processNode (EndElement ''cpu_usages'') s1 = Some (0, s1)" by (simp add: processNode_def)
  ultimately have "processNodes (reader_nodes (Tag ''cpu_usages'' a c)) s = Some (0, s1)"
    using assms(2) processNodes_plain by (cases c) (auto simp: processNodes_append)
  then show ?thesis using assms(1) v by (auto simp: s1_def collected_def platform_is_def cooling_is_def)
qed

lemma is_item_cases:
  assumes "is_item (Tag m a c)"
  obtains (dev) u where "m = ''thermal_device''" "c = Some u" "list_all (is_prop ''thermal-prop'') u"
  | (cool) u where "m = ''cooling_device''" "c = Some u" "list_all (is_prop ''cooling-prop'') u"
  | (cpu) "m = ''cpu_usages''"
proof (cases "m = ''thermal_device''")
  case True
  then show ?thesis using assms that(1) by (cases c) simp_all
next
  case False
  then show ?thesis using assms that(2,3) by (cases c; cases "m = ''cooling_device''") simp_all
qed

lemma map_Some_single: "map f [x] = map Some ys \<Longrightarrow> \<exists>y. ys = [y] \<and> f x = Some y"
  by (cases ys) auto

lemma item_run:
  assumes "collected ds cs n s" "is_item t"
    and "map (\<lambda>u. parse_props (props_of ''thermal-prop'' u) new_desc) (content_of ''thermal_device'' t) = map Some da"
    and "map (\<lambda>u. parse_cools (props_of ''cooling-prop'' u) new_cooling) (content_of ''cooling_device'' t) = map Some ca"
  shows "\<exists>s'. processNodes (reader_nodes t) s = Some (0, s') \<and> collected (ds @ da) (cs @ ca) (cpus_of [t] n) s'"
proof (cases t)
  case (Tag m a c)
  from assms(2) [unfolded Tag] show ?thesis
  proof (cases rule: is_item_cases)
    case (dev u)
    have k: "content_of ''thermal_device'' t = [u]" "content_of ''cooling_device'' t = []" "cpus_of [t] n = n"
      using Tag dev(1,2) by (simp_all add: cpus_of_def props_of_def)
    obtain d where d: "da = [d]" "parse_props (props_of ''thermal-prop'' u) new_desc = Some d"
      using map_Some_single [OF assms(3) [unfolded k]] by blast
    have "ca = []" using assms(4) unfolding k by simp
    then show ?thesis using device_run [OF assms(1) dev(3) d(2), of a] Tag dev(1,2) unfolding k d(1) by simp
  next
    case (cool u)
    have k: "content_of ''thermal_device'' t = []" "content_of ''cooling_device'' t = [u]" "cpus_of [t] n = n"
      using Tag cool(1,2) by (simp_all add: cpus_of_def props_of_def)
    obtain d where d: "ca = [d]" "parse_cools (props_of ''cooling-prop'' u) new_cooling = Some d"
      using map_Some_single [OF assms(4) [unfolded k]] by blast
    have "da = []" using assms(3) unfolding k by simp
    then show ?thesis using cooling_run [OF assms(1) cool(3) d(2), of a] Tag cool(1,2) unfolding k d(1) by simp
  next
    case cpu
    have k: "content_of ''thermal_device'' t = []" "content_of ''cooling_device'' t = []" "cpus_of [t] n = map_option atoi (map_of a ''cpus'')"
      using Tag cpu by (cases c; simp add: cpus_of_def props_of_def)+
    have "da = []" "ca = []" using assms(3,4) unfolding k by simp_all
    then show ?thesis using usages_run [OF assms(1) assms(2) [unfolded Tag cpu]] unfolding k(3) unfolding Tag cpu by (simp only: append_Nil2)
  qed
qed (use assms in \<open>simp_all add: cpus_of_def props_of_def processNode_def\<close>)

lemma items_run:
  "collected ds cs n s \<Longrightarrow> list_all is_item ts \<Longrightarrow>
    map (\<lambda>u. parse_props (props_of ''thermal-prop'' u) new_desc) (contents_of ''thermal_device'' ts) = map Some ds' \<Longrightarrow>
    map (\<lambda>u. parse_cools (props_of ''cooling-prop'' u) new_cooling) (contents_of ''cooling_device'' ts) = map Some cs' \<Longrightarrow>
    \<exists>s'. processNodes (concat (map reader_nodes ts)) s = Some (0, s') \<and> collected (ds @ ds') (cs @ cs') (cpus_of ts n) s'"
proof (induction ts arbitrary: ds cs n s ds' cs')
  case (Cons t ts)
  let ?P = "\<lambda>u. parse_props (props_of ''thermal-prop'' u) new_desc" and ?C = "\<lambda>u. parse_cools (props_of ''cooling-prop'' u) new_cooling"
  have "map Some ds' = map ?P (content_of ''thermal_device'' t) @ map ?P (contents_of ''thermal_device'' ts)"
    "map Some cs' = map ?C (content_of ''cooling_device'' t) @ map ?C (contents_of ''cooling_device'' ts)"
    using Cons.prems(3,4) by (simp_all add: contents_of_def)
  then obtain da db ca cb where
    d: "ds' = da @ db" "map ?P (content_of ''thermal_device'' t) = map Some da" "map ?P (contents_of ''thermal_device'' ts) = map Some db"
    and c: "cs' = ca @ cb" "map ?C (content_of ''cooling_device'' t) = map Some ca" "map ?C (contents_of ''cooling_device'' ts) = map Some cb"
    by (auto simp: map_eq_append_conv)
  obtain s1 where s1: "processNodes (reader_nodes t) s = Some (0, s1)" "collected (ds @ da) (cs @ ca) (cpus_of [t] n) s1"
    using item_run [OF Cons.prems(1) _ d(2) c(2)] Cons.prems(2) by auto
  have "cpus_of (t # ts) n = cpus_of ts (cpus_of [t] n)" by (simp add: cpus_of_def props_of_def)
  then show ?case using Cons.IH [OF s1(2) _ d(3) c(3)] Cons.prems(2) s1(1) d(1) c(1) by (simp add: processNodes_append)
qed (simp add: contents_of_def cpus_of_def props_of_def)

lemma used_platform: "platform_is ds s \<Longrightarrow> used (platform_data_count s) (platform_data s) = Some ds"
  by (auto simp: platform_is_def used_def split: option.splits)

text \<open>A configuration that failed once is taken as parsed the next time.\<close>

lemma failed_configuration_accepted:
  assumes "parse_thermal_config_xml E hw thermal_init = Some (r, s)" "r \<noteq> 0" "platform_data s \<noteq> None"
  shows "parse_thermal_config_xml E hw s = Some (0, s)"
  using assms(3) by (auto simp: parse_thermal_config_xml_def)

section \<open>Arrays without a check\<close>

lemma read_fans_total:
  assumes "\<forall>i < count + n. \<exists>d. elem i (cooling_data s) = Some d \<and> cd_type d \<noteq> None" "length out = count + n"
  shows "\<exists>ret out'. read_fans E s count n out = Some (ret, out') \<and> length out' = length out \<and> (0 \<le> ret \<longrightarrow> (\<forall>p. 0 < e_errno E p) \<longrightarrow> ret = int (count + n))"
  using assms
proof (induction n arbitrary: count out)
  case (Suc n)
  obtain d t where d: "elem count (cooling_data s) = Some d" "cd_type d = Some t" using Suc.prems(1) by (metis add_Suc_right less_add_Suc1 not_None_eq)
  show ?case
  proof (cases "\<exists>cont v. e_file E (cooling_file d) = Some cont \<and> scan_float cont = Some v")
    case True
    then obtain cont v where tv: "e_file E (cooling_file d) = Some cont" "scan_float cont = Some v" by blast
    define o1 where "o1 = out[count := \<lparr> c_type = t, c_name = cd_name d, rpm = v \<rparr>]"
    have "\<exists>ret out'. read_fans E s (Suc count) n o1 = Some (ret, out') \<and> length out' = length o1 \<and>
        (0 \<le> ret \<longrightarrow> (\<forall>p. 0 < e_errno E p) \<longrightarrow> ret = int (Suc count + n))"
      using Suc.prems by (intro Suc.IH) (simp_all add: o1_def)
    then show ?thesis using d tv Suc.prems(2) by (auto simp: put_def o1_def)
  next
    case False
    then show ?thesis using d by (auto simp: ENOENT_def not_le split: option.splits dest: spec [where x = "cooling_file d"])
  qed
qed simp

lemma read_fans_overrun:
  assumes "elem k (cooling_data s) = None" "count \<le> k" "k < count + n"
    and "\<forall>i < k. \<forall>d. elem i (cooling_data s) = Some d \<longrightarrow> (\<exists>cont v. e_file E (cooling_file d) = Some cont \<and> scan_float cont = Some v)"
  shows "read_fans E s count n out = None"
  using assms(2,3)
proof (induction n arbitrary: count out)
  case (Suc n)
  show ?case
  proof (cases "count = k")
    case False
    show ?thesis
    proof (cases "elem count (cooling_data s)")
      case (Some d)
      then obtain cont v where "e_file E (cooling_file d) = Some cont" "scan_float cont = Some v" using assms(4) False Suc.prems(1) by (metis le_neq_implies_less)
      then show ?thesis using Some Suc.IH [of "Suc count"] False Suc.prems by (auto simp: put_def Option.bind_eq_None_conv)
    qed simp
  qed (simp add: assms(1))
qed simp

text \<open>The entry of one line of the statistics.\<close>

definition usage_of :: "thermal_env \<Rightarrow> string \<Rightarrow> cpu_usage option" where
  "usage_of E line =
     (case scan_cpu_line line of
        None \<Rightarrow> None
      | Some (cpu, user, nice, system, idle) \<Rightarrow>
          map_option (\<lambda>onl. \<lparr> active = user + nice + system, total_time = user + nice + system + idle, is_online = onl \<rparr>) (cpu_online E cpu))"

lemma read_usages_step:
  "read_usages E errno (line # lines) n out =
     (if \<not> cpu_line line then read_usages E errno lines n out
      else case usage_of E line of
             None \<Rightarrow> Some (io_error errno, out)
           | Some u \<Rightarrow> Option.bind (put n u out) (read_usages E errno lines (Suc n)))"
  by (auto simp: usage_of_def split: option.split prod.split)

lemma read_usages_spec:
  assumes "map (usage_of E) (filter cpu_line lines) = map Some us" "n \<le> length out"
  shows "read_usages E errno lines n out =
    (if n + length us \<le> length out then Some (int (n + length us), take n out @ us @ drop (n + length us) out) else None)"
  using assms
proof (induction lines arbitrary: n out us)
  case (Cons line lines)
  show ?case
  proof (cases "cpu_line line")
    case False
    then show ?thesis using Cons by (simp add: read_usages_step del: read_usages.simps)
  next
    case True
    then obtain u us' where u: "us = u # us'" "usage_of E line = Some u" "map (usage_of E) (filter cpu_line lines) = map Some us'"
      using Cons.prems(1) by (cases us) auto
    show ?thesis
    proof (cases "n < length out")
      case False
      then show ?thesis using True u(1,2) by (simp add: read_usages_step put_def del: read_usages.simps)
    next
      case n: True
      have "read_usages E errno lines (Suc n) (out[n := u]) =
          (if Suc n + length us' \<le> length out then Some (int (Suc n + length us'), take (Suc n) (out[n := u]) @ us' @ drop (Suc n + length us') (out[n := u])) else None)"
        using Cons.IH [OF u(3), of "Suc n" "out[n := u]"] n by simp
      then show ?thesis using True u(1,2) n by (simp add: read_usages_step put_def take_Suc_conv_app_nth del: read_usages.simps)
    qed
  qed
qed simp

section \<open>Properties\<close>

text \<open>C24. A call for temperatures with an array, when the configuration has been read, every sensor has a
  multiplier and, if it has cores, their names, and the scan for the files of the sensors returns:
  the call returns and writes inside the caller's array only. It succeeds exactly when every sensor
  delivers and the array has room for what they deliver; then the array starts with it, in the order
  of the configuration, a cluster with one element per core, each value the text of its file times
  the multiplier in single precision, the result is the number of elements, and the rest of the
  array is unchanged. (Without a multiplier the code reads an uninitialised value; the scan does not
  return when the directory of the zones cannot be opened, when a sensor has no label, or when a
  file it reads holds a word of 100 characters or more.)\<close>

theorem temperatures_delivered:
  assumes "configured E s = Some (0, s1)" "platform_is ds s1" "\<forall>d \<in> set ds. desc_ok d" "get_paths E stale ds = Some ds'" "out \<noteq> []"
  shows "\<exists>ret out' s2. get_temperatures E stale (Some out) s = Some (ret, Some out', s2) \<and> length out' = length out \<and>
    (0 \<le> ret \<longrightarrow> (\<exists>ess. map (sensor_entries E) ds' = map Some ess \<and> length (concat ess) \<le> length out)) \<and>
    (\<forall>ess. map (sensor_entries E) ds' = map Some ess \<and> length (concat ess) \<le> length out \<longrightarrow>
       ret = int (length (concat ess)) \<and> out' = concat ess @ drop (length (concat ess)) out)"
proof -
  note ok = get_paths_ok [OF assms(4,3)]
  obtain ret out' where r: "read_all E (int (length out)) ds' 0 out = Some (ret, out')" "length out' = length out"
    "0 \<le> ret \<longrightarrow> (\<exists>ess. map (sensor_entries E) ds' = map Some ess \<and> ret = int (0 + length (concat ess)) \<and> nat ret \<le> length out \<and>
       out' = take 0 out @ concat ess @ drop (nat ret) out)"
    using read_all_spec [OF ok, of 0 out E] by auto
  have "ret = int (length (concat ess)) \<and> out' = concat ess @ drop (length (concat ess)) out"
    if "map (sensor_entries E) ds' = map Some ess" "length (concat ess) \<le> length out" for ess
    using read_all_complete [OF ok that(1), of 0 out] that(2) r(1) by simp
  moreover have "\<exists>ess. map (sensor_entries E) ds' = map Some ess \<and> length (concat ess) \<le> length out" if "0 \<le> ret"
    using r(3) that by auto
  ultimately show ?thesis using assms r(1,2) by (simp add: get_temperatures_def used_platform Let_def)
qed

text \<open>C25. Each sensor is read from the zone of its label: after a scan of the directory, a sensor without a
  file has the temperature file of the first thermal zone whose type is the label of the sensor, and
  none when there is no such zone; the file name the scan carries over from entry to entry does no
  harm, provided the first one cannot be opened.\<close>

theorem sensor_file_found:
  assumes "scan_zones E stale des ds = Some ds'" "i < length ds" "temperature_path (ds ! i) = None" "sensor_label (ds ! i) = Some l"
    and "e_file E stale = None"
  shows "temperature_path (ds' ! i) = map_option zone_path (zone_of E des l)"
  using scan_zones_finds [OF assms(1,2), of l] assms(3-5) by (simp add: label_in_def)

text \<open>C26. The configuration is collected in the order of the document. Let the file be a document whose root
  element, of any name the parser does not know, contains sensors, cooling devices, the number of
  processors, text and comments, each sensor or cooling device with its properties, and let the
  properties of every cooling device have a known type and the names of the cores come after the name
  of the sensor. Then from the empty state the configuration is read without an error: there is one
  description per sensor and per cooling device, in order, each made from its own properties only,
  starting from the defaults, the number of processors is the last one given, and the temperatures
  call without an array counts one element per sensor, or one per core.\<close>

theorem configuration_collected:
  assumes "e_prop E ''ro.hardware'' = hw" "hw \<noteq> []"
    and "e_xml E (''/system/etc/thermalhal.'' @ hw @ ''.xml'') = Some (document_nodes before (Tag rname attrs (Some ts)) behind, True)"
    and "rname \<notin> {''thermal_device'', ''cooling_device'', ''cpu_usages''}" "list_all is_item ts"
    and "map (\<lambda>u. parse_props (props_of ''thermal-prop'' u) new_desc) (contents_of ''thermal_device'' ts) = map Some ds"
    and "map (\<lambda>u. parse_cools (props_of ''cooling-prop'' u) new_cooling) (contents_of ''cooling_device'' ts) = map Some cs"
  shows "\<exists>s. get_temperatures E stale None thermal_init = Some (sum_list (map (\<lambda>d. if cores d \<noteq> 0 then cores d else 1) ds), None, s) \<and>
    platform_is ds s \<and> cooling_is cs s \<and> num_cpus_total s = cpus_of ts None"
proof -
  have "collected [] [] None thermal_init" by (simp add: collected_def platform_is_def cooling_is_def thermal_init_def)
  from items_run [OF this assms(5-7)] obtain s where
    s: "processNodes (concat (map reader_nodes ts)) thermal_init = Some (0, s)" "collected ds cs (cpus_of ts None) s" by auto
  have "processNode (Element rname attrs) thermal_init = Some (0, thermal_init)" "processNode (EndElement rname) s = Some (0, s)"
    using assms(4) by (simp_all add: processNode_def thermal_init_def)
  then have "processNodes (document_nodes before (Tag rname attrs (Some ts)) behind) thermal_init = Some (0, s)"
    using s(1) by (simp add: document_nodes_def processNodes_append processNodes_comments)
  then have "parse_thermal_config_xml E hw thermal_init = Some (0, s)"
    unfolding parse_thermal_config_xml_def streamFile_def assms(3) by (simp add: thermal_init_def)
  then have "configured E thermal_init = Some (0, s)" using assms(1,2) by (simp add: configured_def Let_def)
  moreover have "used (platform_data_count s) (platform_data s) = Some ds" using s(2) used_platform by (simp add: collected_def)
  ultimately show ?thesis using s(2) by (simp add: get_temperatures_def collected_def)
qed

text \<open>The statistics of the processors are written one entry per line, without regard to the caller's array.\<close>

lemma cpu_usages_written:
  assumes "configured E s = Some (0, s1)" "e_file E ''/proc/stat'' = Some stat" "map (usage_of E) (filter cpu_line (split_lines stat)) = map Some us"
  shows "get_cpu_usages E errno (Some out) s =
    (if length us \<le> length out then Some (int (length us), Some (us @ drop (length us) out), s1) else None)"
  using assms read_usages_spec [OF assms(3), of 0 out errno] by (simp add: get_cpu_usages_def)

text \<open>Asking for more cooling devices than are configured reads behind the array of the configuration.\<close>

lemma cooling_overrun:
  assumes "configured E s = Some (0, s1)" "elem k (cooling_data s1) = None" "k < length out"
    and "\<forall>i < k. \<forall>d. elem i (cooling_data s1) = Some d \<longrightarrow> (\<exists>cont v. e_file E (cooling_file d) = Some cont \<and> scan_float cont = Some v)"
  shows "get_cooling_devices E (Some out) s = None"
  using assms read_fans_overrun [OF assms(2), of 0 "length out"] by (auto simp: get_cooling_devices_def)

section \<open>Concrete runs\<close>

definition test_sensor :: thermal_desc where
  "test_sensor = new_desc\<lparr>td_name := Some ''CPU'', sensor_label := Some ''cpu'', multiplier := Some 1\<rparr>"

definition test_props :: "(string \<times> string) list list" where
  "test_props = [[(''name'', ''CPU''), (''sensor-label'', ''cpu'')], [(''type'', ''DEVICE_TEMPERATURE_CPU''), (''cores'', ''2'')]]"

definition test_document :: "xml_tree list" where
  "test_document = [Chars, Tag ''cpu_usages'' [(''cpus'', ''4'')] None, Comment ''sensors'',
     Tag ''thermal_device'' [] (Some (Chars # map (\<lambda>a. Tag ''thermal-prop'' a None) test_props @ [Chars])),
     Tag ''cooling_device'' [] (Some [Tag ''cooling-prop'' [(''name'', ''fan''), (''type'', ''FAN_RPM'')] (Some [])])]"

definition test_env :: thermal_env where
  "test_env = \<lparr> e_file = (\<lambda>p. if p = [] then None else if p = zone_type_path ''thermal_zone0'' then Some ''cpu'' else Some ''45''),
     e_dir = (\<lambda>p. if p = THERMAL_ROOT_DIR then Some [''.'', ''thermal_zone0''] else None), e_prop = (\<lambda>_. ''mocha''),
     e_xml = (\<lambda>_. Some (document_nodes [] (Tag ''thermal'' [] (Some test_document)) [], True)), e_errno = (\<lambda>_. 2), e_exists = (\<lambda>_. True) \<rparr>"

definition known_sensor :: thermal_desc where
  "known_sensor = test_sensor\<lparr>temperature_path := Some ''t'', throttling_threshold_path := Some ''a'', vr_throttling_threshold_path := Some ''b'',
     shutdown_threshold_path := Some ''c''\<rparr>"

definition known_state :: thermal_state where
  "known_state = thermal_init\<lparr>platform_data := Some [Some known_sensor], platform_data_count := 1\<rparr>"

definition no_temperature :: temperature where
  "no_temperature = \<lparr> t_type = DEVICE_TEMPERATURE_UNKNOWN, t_name = None, current_value = 0, throttling_threshold = 0,
     shutdown_threshold = 0, vr_throttling_threshold = 0 \<rparr>"

lemma test_entries: "\<exists>b. sensor_entries test_env known_sensor = Some [b] \<and> t_name b = Some ''CPU'' \<and> current_value b = fmul (fround 45) 1"
proof -
  have f: "e_file test_env p = Some ''45''" if "p \<in> {''t'', ''a'', ''b'', ''c''}" for p
    using that by (auto simp: test_env_def zone_type_path_def snprintf_def MAX_LENGTH_def THERMAL_ROOT_DIR_def)
  have "scan_float ''45'' = Some (fround 45)"
    by (simp add: scan_float_def scan_decimal_def scan_sign_def scan_exponent_def blank_def digit_def Let_def)
  then have "read_temp_file test_env (Some p) 1 = Inr (fround 45)" if "p \<in> {''t'', ''a'', ''b'', ''c''}" for p
    using f [OF that] by (simp add: read_temp_file_def)
  then show ?thesis
    by (simp add: sensor_entries_def base_entry_def read_four_def known_sensor_def test_sensor_def new_desc_def)
qed

theorem temperatures_delivered_witness:
  "\<exists>b s2. get_temperatures test_env [] (Some [no_temperature, no_temperature]) known_state = Some (1, Some [b, no_temperature], s2) \<and>
     t_name b = Some ''CPU'' \<and> current_value b = fmul (fround 45) 1"
proof -
  have "configured test_env known_state = Some (0, known_state)"
    by (simp add: configured_def test_env_def parse_thermal_config_xml_def known_state_def)
  moreover have "platform_is [known_sensor] known_state" by (simp add: platform_is_def known_state_def)
  moreover have "\<forall>d \<in> set [known_sensor]. desc_ok d" by (simp add: desc_ok_def known_sensor_def test_sensor_def new_desc_def)
  moreover have "get_paths test_env [] [known_sensor] = Some [known_sensor]" by (simp add: get_paths_def known_sensor_def thresholds_known_def)
  moreover obtain b where b: "sensor_entries test_env known_sensor = Some [b]" "t_name b = Some ''CPU''" "current_value b = fmul (fround 45) 1"
    using test_entries by blast
  ultimately obtain ret out' s2 where r: "get_temperatures test_env [] (Some [no_temperature, no_temperature]) known_state = Some (ret, Some out', s2)"
      "\<forall>ess. map (sensor_entries test_env) [known_sensor] = map Some ess \<and> length (concat ess) \<le> length [no_temperature, no_temperature] \<longrightarrow>
        ret = int (length (concat ess)) \<and> out' = concat ess @ drop (length (concat ess)) [no_temperature, no_temperature]"
    using temperatures_delivered [of test_env known_state known_state "[known_sensor]" "[]" "[known_sensor]" "[no_temperature, no_temperature]"] by blast
  have "ret = 1 \<and> out' = [b, no_temperature]" using r(2) [rule_format, of "[[b]]"] b(1) by simp
  then show ?thesis using r(1) b by blast
qed

lemma zone_type_path_nonempty [simp]: "zone_type_path z \<noteq> []"
  by (simp add: zone_type_path_def snprintf_def MAX_LENGTH_def THERMAL_ROOT_DIR_def)

lemma test_scan: "\<exists>ds'. scan_zones test_env [] [''.'', ''thermal_zone0''] [test_sensor] = Some ds'"
proof -
  have "scan_word ''cpu'' = Some (Some ''cpu'')" by (simp add: scan_word_def blank_def MAX_LENGTH_def)
  moreover have "get_threshold_paths test_env ''cpu'' de d = Some d" if "threshold_label d = None" "sensor_label d = Some ''cpu''" for de d
    using that by (simp add: get_threshold_paths_def test_env_def snprintf_def MAX_LENGTH_def THERMAL_ROOT_DIR_def)
  moreover have "e_file test_env [] = None" "e_file test_env (zone_type_path ''thermal_zone0'') = Some ''cpu''" by (simp_all add: test_env_def)
  moreover have "snprintf MAX_LENGTH (THERMAL_ROOT_DIR @ ''/thermal_zone0/type'') = zone_type_path ''thermal_zone0''" by (simp add: zone_type_path_def)
  ultimately show ?thesis
    by (simp add: strncmp_eq_def update_desc_def get_temperature_path_def test_sensor_def new_desc_def thresholds_known_def)
qed

theorem sensor_file_found_witness:
  "\<exists>ds'. scan_zones test_env [] [''.'', ''thermal_zone0''] [test_sensor] = Some ds' \<and> temperature_path (ds' ! 0) = Some (zone_path ''thermal_zone0'')"
proof -
  obtain ds' where ds': "scan_zones test_env [] [''.'', ''thermal_zone0''] [test_sensor] = Some ds'" using test_scan by blast
  have "zone_of test_env [''.'', ''thermal_zone0''] ''cpu'' = Some ''thermal_zone0''"
    by (simp add: zone_of_def is_zone_def strncmp_eq_def label_in_def test_env_def scan_word_def blank_def MAX_LENGTH_def)
  then show ?thesis using ds' sensor_file_found [OF ds', of 0 "''cpu''"] by (simp add: test_sensor_def new_desc_def test_env_def)
qed

definition test_collected :: thermal_desc where
  "test_collected = new_desc\<lparr>td_name := Some ''CPU'', sensor_label := Some ''cpu'', td_type := DEVICE_TEMPERATURE_CPU, cores := 2, cluster := True,
     core_names := [''CPU'' @ itoa 0, ''CPU'' @ itoa 1]\<rparr>"

lemma test_props_parsed: "parse_props test_props new_desc = Some test_collected"
proof -
  have "atoi ''2'' = 2" by (simp add: atoi_def blank_def digit_def)
  moreover have "[0..<2] = [0, 1]" by (simp add: upt_rec)
  ultimately show ?thesis
    by (simp add: test_props_def parse_therm_prop_def keep_first_def new_desc_def type_of_name_def parse_cores_def test_collected_def)
qed

theorem configuration_collected_witness:
  "\<exists>s. get_temperatures test_env [] None thermal_init = Some (2, None, s) \<and> platform_is [test_collected] s \<and>
     cooling_is [\<lparr> cd_name = Some ''fan'', cd_type = Some FAN_RPM, cooling_path = None \<rparr>] s \<and> num_cpus_total s = Some (atoi ''4'')"
proof -
  have x: "e_xml test_env (''/system/etc/thermalhal.'' @ ''mocha'' @ ''.xml'') =
      Some (document_nodes [] (Tag ''thermal'' [] (Some test_document)) [], True)" "e_prop test_env ''ro.hardware'' = ''mocha''"
    by (simp_all add: test_env_def)
  have i: "list_all is_item test_document" by (simp add: test_document_def test_props_def)
  have p: "map (\<lambda>u. parse_props (props_of ''thermal-prop'' u) new_desc) (contents_of ''thermal_device'' test_document) = map Some [test_collected]"
    using test_props_parsed by (simp add: test_document_def contents_of_def props_of_def test_props_def)
  have c: "map (\<lambda>u. parse_cools (props_of ''cooling-prop'' u) new_cooling) (contents_of ''cooling_device'' test_document) =
      map Some [\<lparr> cd_name = Some ''fan'', cd_type = Some FAN_RPM, cooling_path = None \<rparr>]"
    by (simp add: test_document_def contents_of_def props_of_def parse_cool_prop_def new_cooling_def keep_first_def Let_def)
  have n: "cpus_of test_document None = Some (atoi ''4'')" by (simp add: test_document_def cpus_of_def props_of_def)
  show ?thesis using configuration_collected [OF x(2) _ x(1) _ i p c, of "[]"] unfolding n
    by (simp add: test_collected_def new_desc_def)
qed

end
