(* ===== verification/AudioConfig.thy ===== *)
theory AudioConfig
  imports CStrings
begin

text \<open>
  The configuration manager of the audio HAL (\<open>configmgr/audio_config.c\<close>), first half: mixer controls,
  paths, the routing of streams to devices, and the streams themselves. The mixer library is a
  parameter: a table of its controls, fixed when the mixer is opened, and the answers to the calls
  that read and write values, which are kept as a transcript. The device masks come from the
  platform's header and are a parameter. Memory is always granted and locks are left out: every
  operation holds the lock of the manager for all of its work.
\<close>

section \<open>Mixer\<close>

datatype mixer_ctl_type = MIXER_CTL_TYPE_BOOL | MIXER_CTL_TYPE_INT | MIXER_CTL_TYPE_ENUM | MIXER_CTL_TYPE_BYTE
  | MIXER_CTL_TYPE_IEC958 | MIXER_CTL_TYPE_INT64 | MIXER_CTL_TYPE_UNKNOWN

text \<open>A control of the card; its number is its place in the table.\<close>

record mixer_ctl =
  mc_name :: string
  mc_type :: mixer_ctl_type
  mc_num_values :: nat
  mc_range_min :: int
  mc_range_max :: int

type_synonym mixer = "mixer_ctl list"

datatype mcall =
    MSetValue nat nat u32
  | MGetArray nat nat
  | MSetArray nat "u8 list"
  | MSetEnum nat string

record mans =
  m_ret :: int
  m_bytes :: "u8 list"

type_synonym card = "(mcall, mans) kernel"

fun ctl_by_name :: "mixer \<Rightarrow> string \<Rightarrow> nat option" where
  "ctl_by_name [] name = None"
| "ctl_by_name (c # cs) name = (if mc_name c = name then Some 0 else map_option Suc (ctl_by_name cs name))"

section \<open>Numbers\<close>

text \<open>\<open>strtoul\<close> with base 0 for a 32-bit \<open>unsigned long\<close>: the value and the rest; \<open>None\<close> without digits.\<close>

definition hex_value :: "char \<Rightarrow> int option" where
  "hex_value c =
     (let n = of_char c :: int
      in if 48 \<le> n \<and> n \<le> 57 then Some (n - 48)
         else if 97 \<le> n \<and> n \<le> 102 then Some (n - 87)
         else if 65 \<le> n \<and> n \<le> 70 then Some (n - 55) else None)"

fun digits_in :: "int \<Rightarrow> int \<Rightarrow> string \<Rightarrow> int \<times> string" where
  "digits_in base n [] = (n, [])"
| "digits_in base n (c # s) =
     (case hex_value c of
        None \<Rightarrow> (n, c # s)
      | Some v \<Rightarrow> if v < base then digits_in base (base * n + v) s else (n, c # s))"

definition is_digit_in :: "int \<Rightarrow> string \<Rightarrow> bool" where
  "is_digit_in base s \<longleftrightarrow> (case s of [] \<Rightarrow> False | c # _ \<Rightarrow> (case hex_value c of None \<Rightarrow> False | Some v \<Rightarrow> v < base))"

definition ULONG_MAX :: int where "ULONG_MAX = 4294967295"

definition strtoul :: "string \<Rightarrow> (u32 \<times> string) option" where
  "strtoul str =
     (let t = dropWhile blank str;
          neg = (t \<noteq> [] \<and> hd t = CHR ''-'');
          t = (if t \<noteq> [] \<and> (hd t = CHR ''-'' \<or> hd t = CHR ''+'') then tl t else t);
          (base, t) = (if (take 2 t = ''0x'' \<or> take 2 t = ''0X'') \<and> is_digit_in 16 (drop 2 t) then (16, drop 2 t)
                       else if take 1 t = ''0'' then (8, t) else (10, t))
      in if \<not> is_digit_in base t then None
         else
           let (v, rest) = digits_in base 0 t
           in Some (if v > ULONG_MAX then word_of_int ULONG_MAX else if neg then - word_of_int v else word_of_int v, rest))"

text \<open>The comparison with \<open>0xFFFFFFFF\<close> always holds for a 32-bit value.\<close>

definition string_to_uint :: "string option \<Rightarrow> int + u32" where
  "string_to_uint str =
     (case str of
        None \<Rightarrow> Inl (-ENOENT)
      | Some s \<Rightarrow> (case strtoul s of Some (v, []) \<Rightarrow> Inr v | _ \<Rightarrow> Inl (-EINVAL)))"

section \<open>Controls\<close>

datatype ctl_value = CtlString string | CtlUint u32 | CtlData "u8 list"

definition INVALID_CTL_INDEX :: u32 where "INVALID_CTL_INDEX = 0xFFFFFFFF"

text \<open>\<open>ctl_id\<close> is \<open>None\<close> for \<open>UINT_MAX\<close>: the control has not been found yet and its value is the text of the file.\<close>

record ctl =
  ctl_id :: "nat option"
  ctl_name :: string
  ctl_index :: u32
  array_count :: nat
  ctl_type :: mixer_ctl_type
  ctl_value :: ctl_value

record path =
  path_id :: int
  path_ctls :: "ctl list"

record device =
  dev_type :: u32
  use_count :: int
  dev_paths :: "path list"

record scase =
  case_name :: string
  case_ctls :: "ctl list"

record usecase =
  uc_name :: string
  uc_cases :: "scase list"

text \<open>The tokens of \<open>strtok\<close> between commas.\<close>

fun comma_tokens :: "string \<Rightarrow> string \<Rightarrow> string list" where
  "comma_tokens cur [] = (if cur = [] then [] else [rev cur])"
| "comma_tokens cur (c # s) =
     (if c = CHR '','' then (if cur = [] then comma_tokens [] s else rev cur # comma_tokens [] s)
      else comma_tokens (c # cur) s)"

definition BYTE_ARRAY_MAX_SIZE :: nat where "BYTE_ARRAY_MAX_SIZE = 512"

fun parse_bytes :: "string list \<Rightarrow> int + u8 list" where
  "parse_bytes [] = Inr []"
| "parse_bytes (t # ts) =
     (case string_to_uint (Some t) of
        Inl e \<Rightarrow> Inl e
      | Inr v \<Rightarrow> (case parse_bytes ts of Inl e \<Rightarrow> Inl e | Inr bs \<Rightarrow> Inr (ucast v # bs)))"

definition make_byte_array :: "mixer_ctl \<Rightarrow> string \<Rightarrow> ctl \<Rightarrow> int \<times> ctl" where
  "make_byte_array mc val_str c =
     (let vnum = mc_num_values mc; toks = comma_tokens [] val_str; count = length toks
      in if vnum > BYTE_ARRAY_MAX_SIZE then (-EINVAL, c)
         else if unat (ctl_index c) \<ge> vnum then (-EINVAL, c)
         else if unat (ctl_index c) + count > vnum then (-EINVAL, c)
         else
           let c = c\<lparr>array_count := count\<rparr>
           in case parse_bytes toks of Inl e \<Rightarrow> (e, c) | Inr bs \<Rightarrow> (0, c\<lparr>ctl_value := CtlData bs\<rparr>))"

text \<open>The value of a control that has not been opened is always a text.\<close>

definition val_string :: "ctl \<Rightarrow> string" where
  "val_string c = (case ctl_value c of CtlString s \<Rightarrow> s | _ \<Rightarrow> [])"

definition ctl_opened :: "mixer \<Rightarrow> nat \<Rightarrow> ctl \<Rightarrow> int \<times> ctl" where
  "ctl_opened m i c = (0, c\<lparr>ctl_type := mc_type (m ! i), ctl_id := Some i\<rparr>)"

definition open_byte_ctl :: "mixer \<Rightarrow> nat \<Rightarrow> ctl \<Rightarrow> int \<times> ctl" where
  "open_byte_ctl m i c =
     (let c = (if ctl_index c = INVALID_CTL_INDEX then c\<lparr>ctl_index := 0\<rparr> else c);
          (r, c) = make_byte_array (m ! i) (val_string c) c
      in if r \<noteq> 0 then (r, c) else ctl_opened m i c)"

definition open_int_ctl :: "mixer \<Rightarrow> nat \<Rightarrow> ctl \<Rightarrow> int \<times> ctl" where
  "open_int_ctl m i c =
     (case string_to_uint (Some (val_string c)) of
        Inl _ \<Rightarrow> (-EINVAL, c)
      | Inr v \<Rightarrow> ctl_opened m i (c\<lparr>ctl_value := CtlUint v\<rparr>))"

definition ctl_open :: "mixer \<Rightarrow> ctl \<Rightarrow> int \<times> ctl" where
  "ctl_open m c =
     (if ctl_id c \<noteq> None then (0, c)
      else
        (case ctl_by_name m (ctl_name c) of
           None \<Rightarrow> (-ENOENT, c)
         | Some i \<Rightarrow>
             (case mc_type (m ! i) of
                MIXER_CTL_TYPE_BYTE \<Rightarrow> open_byte_ctl m i c
              | MIXER_CTL_TYPE_BOOL \<Rightarrow> open_int_ctl m i c
              | MIXER_CTL_TYPE_INT \<Rightarrow> open_int_ctl m i c
              | MIXER_CTL_TYPE_ENUM \<Rightarrow> ctl_opened m i c
              | _ \<Rightarrow> (-EINVAL, c))))"

section \<open>Applying paths\<close>

definition uint_value :: "ctl \<Rightarrow> u32" where
  "uint_value c = (case ctl_value c of CtlUint v \<Rightarrow> v | _ \<Rightarrow> 0)"

definition data_value :: "ctl \<Rightarrow> u8 list" where
  "data_value c = (case ctl_value c of CtlData bs \<Rightarrow> bs | _ \<Rightarrow> [])"

text \<open>All values of a control are set; the first error ends the loop.\<close>

fun set_values :: "card \<Rightarrow> nat \<Rightarrow> u32 \<Rightarrow> nat \<Rightarrow> nat \<Rightarrow> mcall list \<Rightarrow> mcall list" where
  "set_values K i v vnum 0 h = h"
| "set_values K i v vnum (Suc n) h =
     (let (a, h) = sys K (MSetValue i vnum v) h
      in if m_ret a < 0 then h else set_values K i v (Suc vnum) n h)"

text \<open>
  One control. A byte control that is not written as a whole is read, changed and written back; the
  copy must stay inside the local array of \<open>BYTE_ARRAY_MAX_SIZE\<close> bytes.
\<close>

definition apply_ctl :: "mixer \<Rightarrow> card \<Rightarrow> nat \<Rightarrow> ctl \<Rightarrow> mcall list \<Rightarrow> mcall list option" where
  "apply_ctl m K i c h =
     (let mc = m ! i; vnum = mc_num_values mc
      in if mc_type mc = MIXER_CTL_TYPE_BOOL \<or> mc_type mc = MIXER_CTL_TYPE_INT then
           Some (if ctl_index c = INVALID_CTL_INDEX then set_values K i (uint_value c) 0 vnum h
                 else snd (sys K (MSetValue i (unat (ctl_index c)) (uint_value c)) h))
         else if mc_type mc = MIXER_CTL_TYPE_BYTE then
           if ctl_index c = 0 \<and> array_count c = vnum then Some (snd (sys K (MSetArray i (data_value c)) h))
           else
             let k = unat (ctl_index c); (a, h) = sys K (MGetArray i vnum) h
             in if vnum > BYTE_ARRAY_MAX_SIZE then None
                else if m_ret a < 0 then Some h
                else if k + array_count c \<le> BYTE_ARRAY_MAX_SIZE \<and> array_count c \<le> length (data_value c) then
                  let buf = m_bytes a @ replicate (BYTE_ARRAY_MAX_SIZE - length (m_bytes a)) 0;
                      buf = take k buf @ take (array_count c) (data_value c) @ drop (k + array_count c) buf
                  in Some (snd (sys K (MSetArray i (take vnum buf)) h))
                else None
         else if mc_type mc = MIXER_CTL_TYPE_ENUM then Some (snd (sys K (MSetEnum i (val_string c)) h))
         else Some h)"

text \<open>A control that cannot be opened ends the list.\<close>

fun apply_ctls_l :: "mixer \<Rightarrow> card \<Rightarrow> ctl list \<Rightarrow> mcall list \<Rightarrow> (ctl list \<times> mcall list) option" where
  "apply_ctls_l m K [] h = Some ([], h)"
| "apply_ctls_l m K (c # cs) h =
     (let (r, c) = ctl_open m c
      in if r \<noteq> 0 then Some (c # cs, h)
         else case ctl_id c of
                None \<Rightarrow> None
              | Some i \<Rightarrow>
                  (case apply_ctl m K i c h of
                     None \<Rightarrow> None
                   | Some h \<Rightarrow> map_option (\<lambda>(cs, h). (c # cs, h)) (apply_ctls_l m K cs h)))"

definition apply_path_l :: "mixer \<Rightarrow> card \<Rightarrow> path \<Rightarrow> mcall list \<Rightarrow> (path \<times> mcall list) option" where
  "apply_path_l m K p h = map_option (\<lambda>(cs, h). (p\<lparr>path_ctls := cs\<rparr>, h)) (apply_ctls_l m K (path_ctls p) h)"

definition e_path_id_off :: int where "e_path_id_off = 0"
definition e_path_id_on :: int where "e_path_id_on = 1"

text \<open>The on and off paths of a device are counted; \<open>i\<close> is the place of the path in the device.\<close>

definition apply_device_path_l :: "mixer \<Rightarrow> card \<Rightarrow> nat \<Rightarrow> device \<Rightarrow> mcall list \<Rightarrow> (device \<times> mcall list) option" where
  "apply_device_path_l m K i d h =
     (let p = dev_paths d ! i;
          n = (if path_id p = e_path_id_off then use_count d - 1 else if path_id p = e_path_id_on then use_count d + 1 else use_count d);
          d = d\<lparr>use_count := n\<rparr>
      in if (path_id p = e_path_id_off \<and> n > 0) \<or> (path_id p = e_path_id_on \<and> n > 1) then Some (d, h)
         else map_option (\<lambda>(p, h). (d\<lparr>dev_paths := (dev_paths d)[i := p]\<rparr>, h)) (apply_path_l m K p h))"

text \<open>The single walk that looks for both paths; \<open>f0\<close> and \<open>f1\<close> are those found so far.\<close>

fun find_paths :: "int \<Rightarrow> int \<Rightarrow> nat \<Rightarrow> path list \<Rightarrow> nat option \<Rightarrow> nat option \<Rightarrow> nat option \<times> nat option" where
  "find_paths a b i [] f0 f1 = (f0, f1)"
| "find_paths a b i (p # ps) f0 f1 =
     (if path_id p = a then
        if f1 \<noteq> None \<or> a = b then (Some i, f1) else find_paths a b (Suc i) ps (Some i) f1
      else if path_id p = b then
        if f0 \<noteq> None then (f0, Some i) else find_paths a b (Suc i) ps f0 (Some i)
      else find_paths a b (Suc i) ps f0 f1)"

definition apply_found :: "mixer \<Rightarrow> card \<Rightarrow> nat option \<Rightarrow> device \<Rightarrow> mcall list \<Rightarrow> (device \<times> mcall list) option" where
  "apply_found m K f d h = (case f of None \<Rightarrow> Some (d, h) | Some i \<Rightarrow> apply_device_path_l m K i d h)"

definition apply_paths_by_id_l :: "mixer \<Rightarrow> card \<Rightarrow> int \<Rightarrow> int \<Rightarrow> device \<Rightarrow> mcall list \<Rightarrow> (device \<times> mcall list) option" where
  "apply_paths_by_id_l m K first_id second_id d h =
     (let (f0, f1) = find_paths first_id second_id 0 (dev_paths d) None None
      in case apply_found m K f0 d h of None \<Rightarrow> None | Some (d, h) \<Rightarrow> apply_found m K f1 d h)"

text \<open>The masks of the platform's header.\<close>

record audio_masks =
  AUDIO_DEVICE_BIT_IN :: u32
  AUDIO_DEVICE_IN_ALL :: u32
  AUDIO_DEVICE_OUT_ALL :: u32
  AUDIO_DEVICE_OUT_SPEAKER :: u32
  AUDIO_DEVICE_OUT_EARPIECE :: u32
  AUDIO_DEVICE_OUT_WIRED_HEADSET :: u32
  AUDIO_DEVICE_IN_WIRED_HEADSET :: u32
  AUDIO_DEVICE_OUT_WIRED_HEADPHONE :: u32
  AUDIO_DEVICE_OUT_ALL_SCO :: u32
  AUDIO_DEVICE_IN_ALL_SCO :: u32
  AUDIO_DEVICE_OUT_ALL_A2DP :: u32
  AUDIO_DEVICE_OUT_ALL_USB :: u32
  AUDIO_DEVICE_IN_BUILTIN_MIC :: u32
  AUDIO_DEVICE_IN_BACK_MIC :: u32
  AUDIO_DEVICE_IN_VOICE_CALL :: u32
  AUDIO_DEVICE_IN_AUX_DIGITAL :: u32

fun apply_to_devices :: "mixer \<Rightarrow> card \<Rightarrow> u32 \<Rightarrow> u32 \<Rightarrow> int \<Rightarrow> int \<Rightarrow> device list \<Rightarrow> mcall list \<Rightarrow> (device list \<times> mcall list) option" where
  "apply_to_devices m K input_flag devices a b [] h = Some ([], h)"
| "apply_to_devices m K input_flag devices a b (d # ds) h =
     (if devices = 0 then Some (d # ds, h)
      else if dev_type d AND input_flag = input_flag \<and> dev_type d AND devices \<noteq> 0 then
        case apply_paths_by_id_l m K a b d h of
          None \<Rightarrow> None
        | Some (d', h) \<Rightarrow>
            map_option (\<lambda>(ds, h). (d' # ds, h)) (apply_to_devices m K input_flag (devices AND NOT (dev_type d)) a b ds h)
      else map_option (\<lambda>(ds, h). (d # ds, h)) (apply_to_devices m K input_flag devices a b ds h))"

definition apply_paths_to_devices_l :: "audio_masks \<Rightarrow> mixer \<Rightarrow> card \<Rightarrow> u32 \<Rightarrow> int \<Rightarrow> int \<Rightarrow> device list \<Rightarrow> mcall list \<Rightarrow> (device list \<times> mcall list) option" where
  "apply_paths_to_devices_l A m K devices first_id second_id ds h =
     apply_to_devices m K (devices AND AUDIO_DEVICE_BIT_IN A) (devices AND NOT (AUDIO_DEVICE_BIT_IN A)) first_id second_id ds h"

fun apply_paths_to_global_l :: "mixer \<Rightarrow> card \<Rightarrow> int \<Rightarrow> int \<Rightarrow> device list \<Rightarrow> mcall list \<Rightarrow> (device list \<times> mcall list) option" where
  "apply_paths_to_global_l m K a b [] h = Some ([], h)"
| "apply_paths_to_global_l m K a b (d # ds) h =
     (if dev_type d = 0 then map_option (\<lambda>(d', h). (d' # ds, h)) (apply_paths_by_id_l m K a b d h)
      else map_option (\<lambda>(ds, h). (d # ds, h)) (apply_paths_to_global_l m K a b ds h))"

section \<open>Streams\<close>

datatype hw_stream_type = e_stream_out_pcm | e_stream_in_pcm | e_stream_out_compress | e_stream_in_compress | e_stream_out_hw
  | e_stream_in_hw | e_stream_global

text \<open>Card and device numbers are \<open>None\<close> when the code stores an uninitialised variable.\<close>

record hw_stream =
  st_type :: hw_stream_type
  card_number :: "u8 option"
  device_number :: "u8 option"
  rate :: u32
  period_size :: u32
  period_count :: u32

definition stream_is_input :: "hw_stream \<Rightarrow> bool" where
  "stream_is_input s \<longleftrightarrow> st_type s = e_stream_in_pcm \<or> st_type s = e_stream_in_compress \<or> st_type s = e_stream_in_hw"

record stream_control =
  sc_id :: "nat option"
  sc_index :: u32
  sc_min :: u32
  sc_max :: u32

record stream =
  info :: hw_stream
  s_name :: "string option"
  ref_count :: int
  max_ref_count :: int
  enable_path :: int
  disable_path :: int
  current_devices :: u32
  volume_left :: stream_control
  volume_right :: stream_control
  usecases :: "usecase list"

record config_mgr =
  cm_mixer :: mixer
  supported_output_devices :: u32
  supported_input_devices :: u32
  devices :: "device list"
  streams :: "stream list"
  mlog :: "mcall list"

definition set_stream :: "nat \<Rightarrow> stream \<Rightarrow> config_mgr \<Rightarrow> config_mgr" where
  "set_stream i s cm = cm\<lparr>streams := (streams cm)[i := s]\<rparr>"

definition on_devices :: "(device list \<Rightarrow> mcall list \<Rightarrow> (device list \<times> mcall list) option) \<Rightarrow> config_mgr \<Rightarrow> config_mgr option" where
  "on_devices f cm = map_option (\<lambda>(ds, h). cm\<lparr>devices := ds, mlog := h\<rparr>) (f (devices cm) (mlog cm))"

definition get_current_routes :: "config_mgr \<Rightarrow> nat \<Rightarrow> u32" where
  "get_current_routes cm i = current_devices (streams cm ! i)"

text \<open>The masks of what changes are taken before the new devices are checked and cut to the known ones.\<close>

definition apply_route :: "audio_masks \<Rightarrow> card \<Rightarrow> nat \<Rightarrow> u32 \<Rightarrow> config_mgr \<Rightarrow> config_mgr option" where
  "apply_route A K i devs cm =
     (let s = streams cm ! i; m = cm_mixer cm;
          enabling = devs AND NOT (current_devices s);
          disabling = NOT devs AND current_devices s;
          is_in = devs AND AUDIO_DEVICE_BIT_IN A \<noteq> 0
      in if devs \<noteq> 0 \<and> is_in \<noteq> stream_is_input (info s) then Some cm
         else
           let devs' = (if devs = 0 then 0
                        else if is_in then devs AND AUDIO_DEVICE_IN_ALL A OR AUDIO_DEVICE_BIT_IN A
                        else devs AND AUDIO_DEVICE_OUT_ALL A)
           in case on_devices (apply_paths_to_devices_l A m K disabling (disable_path s) e_path_id_off) cm of
                None \<Rightarrow> None
              | Some cm \<Rightarrow>
                  (case on_devices (apply_paths_to_devices_l A m K enabling e_path_id_on (enable_path s)) cm of
                     None \<Rightarrow> None
                   | Some cm \<Rightarrow> Some (set_stream i (s\<lparr>current_devices := devs'\<rparr>) cm)))"

text \<open>Percentages outside 0 to 100 are not refused; the arithmetic is unsigned and wraps.\<close>

definition vol_value :: "stream_control \<Rightarrow> u32 \<Rightarrow> u32" where
  "vol_value c percent =
     (if percent = 0 then sc_min c
      else if percent = 100 then sc_max c
      else sc_min c + (percent * (sc_max c - sc_min c)) div 100)"

definition set_vol_ctl :: "card \<Rightarrow> nat \<Rightarrow> stream_control \<Rightarrow> u32 \<Rightarrow> config_mgr \<Rightarrow> config_mgr" where
  "set_vol_ctl K k c percent cm = cm\<lparr>mlog := snd (sys K (MSetValue k (unat (sc_index c)) (vol_value c percent)) (mlog cm))\<rparr>"

definition half_sum :: "int \<Rightarrow> int \<Rightarrow> int" where
  "half_sum a b = (let x = sint (word_of_int (a + b) :: 32 word) in sgn x * (\<bar>x\<bar> div 2))"

definition set_hw_volume :: "card \<Rightarrow> nat \<Rightarrow> int \<Rightarrow> int \<Rightarrow> config_mgr \<Rightarrow> int \<times> config_mgr" where
  "set_hw_volume K i left_pc right_pc cm =
     (let s = streams cm ! i; l = sc_id (volume_left s); r = sc_id (volume_right s);
          left_pc = (if l \<noteq> None \<and> r = None then half_sum left_pc right_pc else left_pc);
          cm = (case l of None \<Rightarrow> cm | Some k \<Rightarrow> set_vol_ctl K k (volume_left s) (word_of_int left_pc) cm);
          cm = (case r of None \<Rightarrow> cm | Some k \<Rightarrow> set_vol_ctl K k (volume_right s) (word_of_int right_pc) cm)
      in (if l = None \<and> r = None then -ENOSYS else 0, cm))"

fun find_named :: "string \<Rightarrow> nat \<Rightarrow> stream list \<Rightarrow> nat option" where
  "find_named name i [] = None"
| "find_named name i (s # ss) = (if s_name s = Some name then Some i else find_named name (Suc i) ss)"

definition find_named_stream :: "config_mgr \<Rightarrow> string \<Rightarrow> nat option" where
  "find_named_stream cm name = find_named name 0 (streams cm)"

definition open_stream_l :: "card \<Rightarrow> nat \<Rightarrow> config_mgr \<Rightarrow> (bool \<times> config_mgr) option" where
  "open_stream_l K i cm =
     (let s = streams cm ! i
      in if ref_count s < max_ref_count s then
           let s' = s\<lparr>ref_count := ref_count s + 1\<rparr>; cm = set_stream i s' cm
           in if ref_count s' = 1 then
                map_option (\<lambda>cm. (True, cm)) (on_devices (apply_paths_to_global_l (cm_mixer cm) K e_path_id_on (enable_path s)) cm)
              else Some (True, cm)
         else Some (False, cm))"

text \<open>The streams are tried from the last to the first; \<open>n\<close> of them are left.\<close>

fun try_streams :: "card \<Rightarrow> hw_stream_type \<Rightarrow> nat \<Rightarrow> config_mgr \<Rightarrow> (nat option \<times> config_mgr) option" where
  "try_streams K ty 0 cm = Some (None, cm)"
| "try_streams K ty (Suc n) cm =
     (if st_type (info (streams cm ! n)) = ty then
        case open_stream_l K n cm of
          None \<Rightarrow> None
        | Some (ok, cm) \<Rightarrow> if ok then Some (Some n, cm) else try_streams K ty n cm
      else try_streams K ty n cm)"

definition wanted_type :: "audio_masks \<Rightarrow> u32 \<Rightarrow> bool \<Rightarrow> hw_stream_type" where
  "wanted_type A devs pcm =
     (if devs AND AUDIO_DEVICE_BIT_IN A \<noteq> 0 then if pcm then e_stream_in_pcm else e_stream_in_compress
      else if pcm then e_stream_out_pcm else e_stream_out_compress)"

definition get_stream :: "audio_masks \<Rightarrow> card \<Rightarrow> u32 \<Rightarrow> bool \<Rightarrow> config_mgr \<Rightarrow> (nat option \<times> config_mgr) option" where
  "get_stream A K devs pcm cm = try_streams K (wanted_type A devs pcm) (length (streams cm)) cm"

definition get_named_stream :: "card \<Rightarrow> string \<Rightarrow> config_mgr \<Rightarrow> (nat option \<times> config_mgr) option" where
  "get_named_stream K name cm =
     (case find_named_stream cm name of
        None \<Rightarrow> Some (None, cm)
      | Some i \<Rightarrow> map_option (\<lambda>(ok, cm). (if ok then Some i else None, cm)) (open_stream_l K i cm))"

definition is_named_stream_defined :: "config_mgr \<Rightarrow> string \<Rightarrow> bool" where
  "is_named_stream_defined cm name \<longleftrightarrow> find_named_stream cm name \<noteq> None"

definition release_stream :: "audio_masks \<Rightarrow> card \<Rightarrow> nat option \<Rightarrow> config_mgr \<Rightarrow> config_mgr option" where
  "release_stream A K st cm =
     (case st of
        None \<Rightarrow> Some cm
      | Some i \<Rightarrow>
          let s = streams cm ! i; m = cm_mixer cm; s' = s\<lparr>ref_count := ref_count s - 1\<rparr>; cm = set_stream i s' cm
          in if ref_count s' = 0 then
               case on_devices (apply_paths_to_devices_l A m K (current_devices s) e_path_id_off (disable_path s)) cm of
                 None \<Rightarrow> None
               | Some cm \<Rightarrow>
                   map_option (set_stream i (s'\<lparr>current_devices := 0\<rparr>))
                     (on_devices (apply_paths_to_global_l m K (disable_path s) e_path_id_off) cm)
             else Some cm)"

text \<open>The first case of the name, in any use case of the name.\<close>

fun apply_case :: "mixer \<Rightarrow> card \<Rightarrow> string \<Rightarrow> scase list \<Rightarrow> mcall list \<Rightarrow> (scase list \<times> mcall list) option option" where
  "apply_case m K name [] h = None"
| "apply_case m K name (c # cs) h =
     (if case_name c = name then Some (map_option (\<lambda>(ctls, h). (c\<lparr>case_ctls := ctls\<rparr> # cs, h)) (apply_ctls_l m K (case_ctls c) h))
      else map_option (map_option (\<lambda>(cs, h). (c # cs, h))) (apply_case m K name cs h))"

fun apply_usecases :: "mixer \<Rightarrow> card \<Rightarrow> string \<Rightarrow> string \<Rightarrow> usecase list \<Rightarrow> mcall list \<Rightarrow> (usecase list \<times> mcall list) option option" where
  "apply_usecases m K setting name [] h = None"
| "apply_usecases m K setting name (u # us) h =
     (case (if uc_name u = setting then apply_case m K name (uc_cases u) h else None) of
        Some r \<Rightarrow> Some (map_option (\<lambda>(cs, h). (u\<lparr>uc_cases := cs\<rparr> # us, h)) r)
      | None \<Rightarrow> map_option (map_option (\<lambda>(us, h). (u # us, h))) (apply_usecases m K setting name us h))"

definition apply_use_case :: "card \<Rightarrow> nat \<Rightarrow> string \<Rightarrow> string \<Rightarrow> config_mgr \<Rightarrow> (int \<times> config_mgr) option" where
  "apply_use_case K i setting name cm =
     (case apply_usecases (cm_mixer cm) K setting name (usecases (streams cm ! i)) (mlog cm) of
        None \<Rightarrow> Some (-ENOSYS, cm)
      | Some None \<Rightarrow> None
      | Some (Some (us, h)) \<Rightarrow> Some (0, set_stream i ((streams cm ! i)\<lparr>usecases := us\<rparr>) (cm\<lparr>mlog := h\<rparr>)))"

definition get_routed_devices :: "config_mgr \<Rightarrow> nat \<Rightarrow> u32" where
  "get_routed_devices cm i = current_devices (streams cm ! i)"

definition get_supported_output_devices :: "config_mgr \<Rightarrow> u32" where
  "get_supported_output_devices cm = supported_output_devices cm"

definition get_supported_input_devices :: "config_mgr \<Rightarrow> u32" where
  "get_supported_input_devices cm = supported_input_devices cm"

end
