(* ===== verification/AudioParse.thy ===== *)
theory AudioParse
  imports AudioConfig "HOL-Library.Monad_Syntax"
begin

text \<open>
  The configuration manager of the audio HAL, second half: the reader of the configuration file. The XML
  library is a parameter: for every file, what each read of the file makes it report. A pointer into a
  growing array is a position, and may only be followed while it is the last one, so a pointer kept
  across a reallocation counts as undefined (\<open>None\<close>). Memory is always granted up to the limit of the
  arrays; the functions that free memory are left out.
\<close>

section \<open>Tables\<close>

datatype element_index = e_elem_ctl | e_elem_path | e_elem_device | e_elem_stream | e_elem_enable | e_elem_disable
  | e_elem_case | e_elem_usecase | e_elem_stream_ctl | e_elem_init | e_elem_mixer | e_elem_audiohal
  | e_elem_codec_probe | e_elem_codec_case

datatype attrib = e_attrib_name | e_attrib_val | e_attrib_path | e_attrib_function | e_attrib_type | e_attrib_index
  | e_attrib_dir | e_attrib_card | e_attrib_device | e_attrib_instances | e_attrib_rate | e_attrib_period_size
  | e_attrib_period_count | e_attrib_min | e_attrib_max | e_attrib_file

definition all_elems :: "element_index list" where
  "all_elems = [e_elem_ctl, e_elem_path, e_elem_device, e_elem_stream, e_elem_enable, e_elem_disable, e_elem_case,
     e_elem_usecase, e_elem_stream_ctl, e_elem_init, e_elem_mixer, e_elem_audiohal, e_elem_codec_probe, e_elem_codec_case]"

definition all_attribs :: "attrib list" where
  "all_attribs = [e_attrib_name, e_attrib_val, e_attrib_path, e_attrib_function, e_attrib_type, e_attrib_index,
     e_attrib_dir, e_attrib_card, e_attrib_device, e_attrib_instances, e_attrib_rate, e_attrib_period_size,
     e_attrib_period_count, e_attrib_min, e_attrib_max, e_attrib_file]"

text \<open>Sets of flags are lists.\<close>

record parse_element =
  pe_name :: string
  valid_attribs :: "attrib list"
  required_attribs :: "attrib list"
  valid_subelem :: "element_index list"

fun elem_table :: "element_index \<Rightarrow> parse_element" where
  "elem_table e_elem_ctl = \<lparr>pe_name = ''ctl'', valid_attribs = [e_attrib_name, e_attrib_val, e_attrib_index],
     required_attribs = [e_attrib_name, e_attrib_val], valid_subelem = []\<rparr>"
| "elem_table e_elem_path = \<lparr>pe_name = ''path'', valid_attribs = [e_attrib_name],
     required_attribs = [e_attrib_name], valid_subelem = [e_elem_ctl]\<rparr>"
| "elem_table e_elem_device = \<lparr>pe_name = ''device'', valid_attribs = [e_attrib_name],
     required_attribs = [e_attrib_name], valid_subelem = [e_elem_path]\<rparr>"
| "elem_table e_elem_stream = \<lparr>pe_name = ''stream'',
     valid_attribs = [e_attrib_name, e_attrib_type, e_attrib_dir, e_attrib_card, e_attrib_device, e_attrib_instances,
       e_attrib_rate, e_attrib_period_size, e_attrib_period_count],
     required_attribs = [e_attrib_type],
     valid_subelem = [e_elem_stream_ctl, e_elem_enable, e_elem_disable, e_elem_usecase]\<rparr>"
| "elem_table e_elem_enable = \<lparr>pe_name = ''enable'', valid_attribs = [e_attrib_path],
     required_attribs = [e_attrib_path], valid_subelem = []\<rparr>"
| "elem_table e_elem_disable = \<lparr>pe_name = ''disable'', valid_attribs = [e_attrib_path],
     required_attribs = [e_attrib_path], valid_subelem = []\<rparr>"
| "elem_table e_elem_case = \<lparr>pe_name = ''case'', valid_attribs = [e_attrib_name],
     required_attribs = [e_attrib_name], valid_subelem = [e_elem_ctl]\<rparr>"
| "elem_table e_elem_usecase = \<lparr>pe_name = ''usecase'', valid_attribs = [e_attrib_name],
     required_attribs = [e_attrib_name], valid_subelem = [e_elem_case]\<rparr>"
| "elem_table e_elem_stream_ctl = \<lparr>pe_name = ''ctl'',
     valid_attribs = [e_attrib_name, e_attrib_function, e_attrib_index, e_attrib_min, e_attrib_max],
     required_attribs = [e_attrib_name, e_attrib_function], valid_subelem = []\<rparr>"
| "elem_table e_elem_init = \<lparr>pe_name = ''init'', valid_attribs = [], required_attribs = [], valid_subelem = [e_elem_ctl]\<rparr>"
| "elem_table e_elem_mixer = \<lparr>pe_name = ''mixer'', valid_attribs = [e_attrib_card], required_attribs = [],
     valid_subelem = [e_elem_init]\<rparr>"
| "elem_table e_elem_audiohal = \<lparr>pe_name = ''audiohal'', valid_attribs = [], required_attribs = [],
     valid_subelem = [e_elem_mixer, e_elem_codec_probe]\<rparr>"
| "elem_table e_elem_codec_probe = \<lparr>pe_name = ''codec_probe'', valid_attribs = [e_attrib_file],
     required_attribs = [e_attrib_file], valid_subelem = [e_elem_codec_case]\<rparr>"
| "elem_table e_elem_codec_case = \<lparr>pe_name = ''case'', valid_attribs = [e_attrib_name, e_attrib_file],
     required_attribs = [e_attrib_name, e_attrib_file], valid_subelem = []\<rparr>"

fun attrib_table :: "attrib \<Rightarrow> string" where
  "attrib_table e_attrib_name = ''name''"
| "attrib_table e_attrib_val = ''val''"
| "attrib_table e_attrib_path = ''path''"
| "attrib_table e_attrib_function = ''function''"
| "attrib_table e_attrib_type = ''type''"
| "attrib_table e_attrib_index = ''index''"
| "attrib_table e_attrib_dir = ''dir''"
| "attrib_table e_attrib_card = ''card''"
| "attrib_table e_attrib_device = ''device''"
| "attrib_table e_attrib_instances = ''instances''"
| "attrib_table e_attrib_rate = ''rate''"
| "attrib_table e_attrib_period_size = ''period_size''"
| "attrib_table e_attrib_period_count = ''period_count''"
| "attrib_table e_attrib_min = ''min''"
| "attrib_table e_attrib_max = ''max''"
| "attrib_table e_attrib_file = ''file''"

definition device_table :: "audio_masks \<Rightarrow> (string \<times> u32) list" where
  "device_table A =
     [(''global'', 0), (''speaker'', AUDIO_DEVICE_OUT_SPEAKER A), (''earpiece'', AUDIO_DEVICE_OUT_EARPIECE A),
      (''headset'', AUDIO_DEVICE_OUT_WIRED_HEADSET A), (''headset_in'', AUDIO_DEVICE_IN_WIRED_HEADSET A),
      (''headphone'', AUDIO_DEVICE_OUT_WIRED_HEADPHONE A), (''sco'', AUDIO_DEVICE_OUT_ALL_SCO A),
      (''sco_in'', AUDIO_DEVICE_IN_ALL_SCO A), (''a2dp'', AUDIO_DEVICE_OUT_ALL_A2DP A),
      (''usb'', AUDIO_DEVICE_OUT_ALL_USB A), (''mic'', AUDIO_DEVICE_IN_BUILTIN_MIC A),
      (''back mic'', AUDIO_DEVICE_IN_BACK_MIC A), (''voice'', AUDIO_DEVICE_IN_VOICE_CALL A),
      (''aux'', AUDIO_DEVICE_IN_AUX_DIGITAL A)]"

definition parse_match_device :: "audio_masks \<Rightarrow> string \<Rightarrow> u32 option" where
  "parse_match_device A name = map_of (device_table A) name"

section \<open>Arrays\<close>

record 'a dyn_array =
  items :: "'a list"
  max_count :: nat

definition DYN_ARRAY_GRANULE :: nat where "DYN_ARRAY_GRANULE = 16"

definition dyn_array_extend :: "'a \<Rightarrow> 'a dyn_array \<Rightarrow> 'a dyn_array option" where
  "dyn_array_extend x a =
     (if length (items a) + 1 > max_count a then
        if max_count a > 0xFFFF - DYN_ARRAY_GRANULE then None
        else Some (a\<lparr>items := items a @ [x], max_count := max_count a + DYN_ARRAY_GRANULE\<rparr>)
      else Some (a\<lparr>items := items a @ [x]\<rparr>))"

definition dyn_array_fix :: "'a dyn_array \<Rightarrow> 'a dyn_array" where
  "dyn_array_fix a = a\<lparr>max_count := length (items a)\<rparr>"

text \<open>
  An array that is not shrunk before its last extension grows up to this many elements; all arrays
  but that of the codec cases are of this kind and are lists in the model.
\<close>

definition DYN_ARRAY_LIMIT :: nat where "DYN_ARRAY_LIMIT = 65520"

definition grow_list :: "'a \<Rightarrow> 'a list \<Rightarrow> 'a list option" where
  "grow_list x xs = (if length xs < DYN_ARRAY_LIMIT then Some (xs @ [x]) else None)"

text \<open>An operation on the element a pointer was taken to, while it is still the last.\<close>

definition at_last :: "nat option \<Rightarrow> ('a \<Rightarrow> (int \<times> 'a) option) \<Rightarrow> 'a list \<Rightarrow> (int \<times> 'a list) option" where
  "at_last p f xs =
     (case p of
        None \<Rightarrow> None
      | Some i \<Rightarrow> if Suc i = length xs then map_option (\<lambda>(r, x). (r, butlast xs @ [x])) (f (last xs)) else None)"

definition push :: "'a \<Rightarrow> 'a list \<Rightarrow> int \<times> 'a list" where
  "push x xs = (case grow_list x xs of None \<Rightarrow> (-ENOMEM, xs) | Some ys \<Rightarrow> (0, ys))"

definition new_ctl :: "string \<Rightarrow> ctl" where
  "new_ctl name = \<lparr>ctl_id = None, ctl_name = name, ctl_index = INVALID_CTL_INDEX, array_count = 0,
     ctl_type = MIXER_CTL_TYPE_UNKNOWN, ctl_value = CtlString []\<rparr>"

definition new_path :: "int \<Rightarrow> path" where
  "new_path i = \<lparr>path_id = i, path_ctls = []\<rparr>"

definition new_case :: "string \<Rightarrow> scase" where
  "new_case name = \<lparr>case_name = name, case_ctls = []\<rparr>"

definition new_usecase :: "string \<Rightarrow> usecase" where
  "new_usecase name = \<lparr>uc_name = name, uc_cases = []\<rparr>"

definition new_device :: "u32 \<Rightarrow> device" where
  "new_device ty = \<lparr>dev_type = ty, use_count = 0, dev_paths = []\<rparr>"

definition no_control :: stream_control where
  "no_control = \<lparr>sc_id = None, sc_index = 0, sc_min = 0, sc_max = 0\<rparr>"

definition new_stream :: stream where
  "new_stream = \<lparr>info = \<lparr>st_type = e_stream_out_pcm, card_number = Some 0, device_number = Some 0, rate = 0, period_size = 0, period_count = 0\<rparr>,
     s_name = None, ref_count = 0, max_ref_count = 0, enable_path = -1, disable_path = -1, current_devices = 0,
     volume_left = no_control, volume_right = no_control, usecases = []\<rparr>"

definition new_config_mgr :: config_mgr where
  "new_config_mgr = \<lparr>cm_mixer = [], supported_output_devices = 0, supported_input_devices = 0, devices = [], streams = [], mlog = []\<rparr>"

section \<open>State of the parser\<close>

datatype xml_event = XStart string "(string \<times> string) list" | XEnd string

text \<open>One read of the file: the events the library reports for it and whether it finds an error, or a failing read.\<close>

datatype xml_read = XRead "xml_event list" bool | XReadError

datatype parser_status = Parsing | Suspended | Aborted

record audio_env =
  masks :: audio_masks
  mixer_open :: "u32 \<Rightarrow> mixer option"
  xml_file :: "string \<Rightarrow> xml_read list option"
  probe_open :: "string \<Rightarrow> nat \<Rightarrow> string option"
  product_device :: string

datatype path_ptr = InitPath | DevicePath nat nat

record parse_state =
  ps_cm :: config_mgr
  cur_xml_file :: "string option"
  parse_error :: int
  attribs :: "attrib \<Rightarrow> string option"
  cur_device :: "nat option"
  cur_stream :: "nat option"
  cur_path :: "path_ptr option"
  cur_usecase :: "(nat \<times> nat) option"
  cur_scase :: "(nat \<times> nat \<times> nat) option"
  cur_probe :: bool
  path_names :: "string list"
  init_path :: "ctl list"
  probe_file :: "string option"
  new_xml_file :: "string option"
  codec_cases :: "(string \<times> string) dyn_array"
  stack :: "(element_index \<times> element_index list) list"
  status :: parser_status

type_synonym handler = "audio_env \<Rightarrow> parse_state \<Rightarrow> (int \<times> parse_state) option"

definition set_devices :: "device list \<Rightarrow> parse_state \<Rightarrow> parse_state" where
  "set_devices ds s = s\<lparr>ps_cm := (ps_cm s)\<lparr>devices := ds\<rparr>\<rparr>"

definition set_streams :: "stream list \<Rightarrow> parse_state \<Rightarrow> parse_state" where
  "set_streams ss s = s\<lparr>ps_cm := (ps_cm s)\<lparr>streams := ss\<rparr>\<rparr>"

text \<open>Operations on a device, a path, a stream, a use case and a case through a pointer.\<close>

definition on_device :: "nat option \<Rightarrow> (device \<Rightarrow> (int \<times> device) option) \<Rightarrow> parse_state \<Rightarrow> (int \<times> parse_state) option" where
  "on_device p f s = map_option (\<lambda>(r, ds). (r, set_devices ds s)) (at_last p f (devices (ps_cm s)))"

definition on_stream :: "nat option \<Rightarrow> (stream \<Rightarrow> (int \<times> stream) option) \<Rightarrow> parse_state \<Rightarrow> (int \<times> parse_state) option" where
  "on_stream p f s = map_option (\<lambda>(r, ss). (r, set_streams ss s)) (at_last p f (streams (ps_cm s)))"

definition in_paths :: "nat option \<Rightarrow> (path \<Rightarrow> (int \<times> path) option) \<Rightarrow> device \<Rightarrow> (int \<times> device) option" where
  "in_paths p f d = map_option (\<lambda>(r, ps). (r, d\<lparr>dev_paths := ps\<rparr>)) (at_last p f (dev_paths d))"

definition in_usecases :: "nat option \<Rightarrow> (usecase \<Rightarrow> (int \<times> usecase) option) \<Rightarrow> stream \<Rightarrow> (int \<times> stream) option" where
  "in_usecases p f st = map_option (\<lambda>(r, us). (r, st\<lparr>usecases := us\<rparr>)) (at_last p f (usecases st))"

definition in_cases :: "nat option \<Rightarrow> (scase \<Rightarrow> (int \<times> scase) option) \<Rightarrow> usecase \<Rightarrow> (int \<times> usecase) option" where
  "in_cases p f u = map_option (\<lambda>(r, cs). (r, u\<lparr>uc_cases := cs\<rparr>)) (at_last p f (uc_cases u))"

section \<open>Names and numbers\<close>

text \<open>The search goes from the last name to the first; \<open>n\<close> names are left.\<close>

fun find_name :: "string list \<Rightarrow> string \<Rightarrow> nat \<Rightarrow> int" where
  "find_name names name 0 = -EINVAL"
| "find_name names name (Suc n) = (if names ! n = name then int n else find_name names name n)"

definition find_path_name :: "parse_state \<Rightarrow> string \<Rightarrow> int" where
  "find_path_name s name = find_name (path_names s) name (length (path_names s))"

definition add_path_name :: "string \<Rightarrow> parse_state \<Rightarrow> int \<times> parse_state" where
  "add_path_name name s =
     (let i = find_path_name s name
      in if i \<ge> 0 then (i, s)
         else case grow_list name (path_names s) of
                None \<Rightarrow> (-ENOMEM, s)
              | Some ns \<Rightarrow> (int (length (path_names s)), s\<lparr>path_names := ns\<rparr>))"

definition attrib_to_uint :: "parse_state \<Rightarrow> attrib \<Rightarrow> int + u32" where
  "attrib_to_uint s a = string_to_uint (attribs s a)"

text \<open>A number that may be absent, with the value that stays when it is; \<open>None\<close> for a malformed one.\<close>

definition uint_or :: "'a \<Rightarrow> (u32 \<Rightarrow> 'a) \<Rightarrow> parse_state \<Rightarrow> attrib \<Rightarrow> 'a option" where
  "uint_or d f s a = (case attrib_to_uint s a of Inr v \<Rightarrow> Some (f v) | Inl e \<Rightarrow> if e = -EINVAL then None else Some d)"

section \<open>Handlers\<close>

definition with_attrib :: "parse_state \<Rightarrow> attrib \<Rightarrow> (string \<Rightarrow> 'a option) \<Rightarrow> 'a option" where
  "with_attrib s a f = (case attribs s a of None \<Rightarrow> None | Some v \<Rightarrow> f v)"

text \<open>
  A control is appended and opened; one the card does not have yet is kept. A malformed index frees a
  pointer into the array.
\<close>

definition add_ctl :: "parse_state \<Rightarrow> string \<Rightarrow> ctl list \<Rightarrow> (int \<times> ctl list) option" where
  "add_ctl s name ctls =
     (case grow_list (new_ctl name) ctls of
        None \<Rightarrow> Some (-ENOMEM, ctls)
      | Some _ \<Rightarrow>
          (case uint_or INVALID_CTL_INDEX (\<lambda>v. v) s e_attrib_index of
             None \<Rightarrow> None
           | Some i \<Rightarrow>
               with_attrib s e_attrib_val (\<lambda>val.
                 let (r, c) = ctl_open (cm_mixer (ps_cm s)) ((new_ctl name)\<lparr>ctl_index := i, ctl_value := CtlString val\<rparr>)
                 in Some (if r = -ENOENT then 0 else r, ctls @ [c]))))"

definition in_path_ctls :: "(ctl list \<Rightarrow> (int \<times> ctl list) option) \<Rightarrow> path \<Rightarrow> (int \<times> path) option" where
  "in_path_ctls f p = map_option (\<lambda>(r, cs). (r, p\<lparr>path_ctls := cs\<rparr>)) (f (path_ctls p))"

definition in_case_ctls :: "(ctl list \<Rightarrow> (int \<times> ctl list) option) \<Rightarrow> scase \<Rightarrow> (int \<times> scase) option" where
  "in_case_ctls f c = map_option (\<lambda>(r, cs). (r, c\<lparr>case_ctls := cs\<rparr>)) (f (case_ctls c))"

definition parse_ctl_start :: handler where
  "parse_ctl_start E s =
     with_attrib s e_attrib_name (\<lambda>name.
       case cur_path s of
         Some InitPath \<Rightarrow> map_option (\<lambda>(r, cs). (r, s\<lparr>init_path := cs\<rparr>)) (add_ctl s name (init_path s))
       | Some (DevicePath d p) \<Rightarrow> on_device (Some d) (in_paths (Some p) (in_path_ctls (add_ctl s name))) s
       | None \<Rightarrow>
           (case cur_scase s of
              None \<Rightarrow> None
            | Some (st, u, c) \<Rightarrow>
                on_stream (Some st) (in_usecases (Some u) (in_cases (Some c) (in_case_ctls (add_ctl s name)))) s))"

definition parse_codec_case_start :: handler where
  "parse_codec_case_start E s =
     with_attrib s e_attrib_name (\<lambda>codec. with_attrib s e_attrib_file (\<lambda>file.
       if \<not> cur_probe s then None
       else case dyn_array_extend (codec, file) (codec_cases s) of
              None \<Rightarrow> Some (-ENOMEM, s)
            | Some a \<Rightarrow> Some (0, s\<lparr>codec_cases := a\<rparr>)))"

definition parse_init_start :: handler where
  "parse_init_start E s = Some (0, s\<lparr>cur_path := Some InitPath\<rparr>)"

definition probe_trim_spaces :: "string \<Rightarrow> string" where
  "probe_trim_spaces str = rev (dropWhile blank (rev (dropWhile blank str)))"

text \<open>\<open>fgets\<close>: at most \<open>n - 1\<close> characters, up to the end of the line.\<close>

fun upto_newline :: "string \<Rightarrow> string" where
  "upto_newline [] = []"
| "upto_newline (c # s) = (if c = CHR 0x0A then [c] else c # upto_newline s)"

definition fgets :: "nat \<Rightarrow> string \<Rightarrow> string option" where
  "fgets n s = (if s = [] then None else Some (take (n - 1) (upto_newline s)))"

text \<open>The file is opened again and again until it is there: \<open>None\<close> is a wait without end.\<close>

partial_function (option) await_probe :: "(nat \<Rightarrow> string option) \<Rightarrow> nat \<Rightarrow> string option" where
  "await_probe f k = (case f k of Some content \<Rightarrow> Some content | None \<Rightarrow> await_probe f (Suc k))"

definition probe_config_file :: "audio_env \<Rightarrow> parse_state \<Rightarrow> (int \<times> parse_state) option" where
  "probe_config_file E s =
     (case probe_file s of
        None \<Rightarrow> None
      | Some file \<Rightarrow>
          (case await_probe (probe_open E file) 0 of
             None \<Rightarrow> None
           | Some content \<Rightarrow>
               (case fgets 40 content of
                  None \<Rightarrow> Some (-EIO, s)
                | Some buf \<Rightarrow>
                    (case map_of (items (codec_cases s)) (probe_trim_spaces buf) of
                       None \<Rightarrow> Some (0, s\<lparr>new_xml_file := None\<rparr>)
                     | Some f \<Rightarrow>
                         if cur_xml_file s = Some f then Some (-EINVAL, s\<lparr>new_xml_file := None, status := Aborted\<rparr>)
                         else Some (0, s\<lparr>new_xml_file := Some f, status := Suspended\<rparr>)))))"

definition parse_codec_probe_start :: handler where
  "parse_codec_probe_start E s =
     with_attrib s e_attrib_file (\<lambda>file.
       if probe_file s = None then Some (0, s\<lparr>probe_file := Some file, cur_probe := True\<rparr>) else Some (-EINVAL, s))"

text \<open>The result of the probe is dropped.\<close>

definition parse_codec_probe_end :: handler where
  "parse_codec_probe_end E s =
     (if \<not> cur_probe s then None
      else map_option (\<lambda>(_, s). (0, s)) (probe_config_file E (s\<lparr>codec_cases := dyn_array_fix (codec_cases s), cur_probe := False\<rparr>)))"

definition add_path :: "int \<Rightarrow> device \<Rightarrow> (int \<times> device) option" where
  "add_path i d = (let (r, ps) = push (new_path i) (dev_paths d) in Some (r, d\<lparr>dev_paths := ps\<rparr>))"

text \<open>Where the path, the use case or the case that was just added stands.\<close>

definition newest_path :: "parse_state \<Rightarrow> path_ptr option" where
  "newest_path s = map_option (\<lambda>d. DevicePath d (length (dev_paths (devices (ps_cm s) ! d)) - 1)) (cur_device s)"

definition parse_path_start :: handler where
  "parse_path_start E s =
     with_attrib s e_attrib_name (\<lambda>name.
       let (i, s) = add_path_name name s
       in if i < 0 then Some (i, s)
          else map_option (\<lambda>(r, s). (r, if r \<noteq> 0 then s else s\<lparr>cur_path := newest_path s\<rparr>)) (on_device (cur_device s) (add_path i) s))"

definition parse_path_end :: handler where
  "parse_path_end E s = (if cur_path s = None then None else Some (0, s\<lparr>cur_path := None\<rparr>))"

definition add_case :: "string \<Rightarrow> usecase \<Rightarrow> (int \<times> usecase) option" where
  "add_case name u = (let (r, cs) = push (new_case name) (uc_cases u) in Some (r, u\<lparr>uc_cases := cs\<rparr>))"

definition newest_case :: "parse_state \<Rightarrow> (nat \<times> nat \<times> nat) option" where
  "newest_case s = map_option (\<lambda>(st, u). (st, u, length (uc_cases (usecases (streams (ps_cm s) ! st) ! u)) - 1)) (cur_usecase s)"

definition parse_case_start :: handler where
  "parse_case_start E s =
     with_attrib s e_attrib_name (\<lambda>name.
       (case cur_usecase s of
          None \<Rightarrow> None
        | Some (st, u) \<Rightarrow>
            map_option (\<lambda>(r, s). (r, if r \<noteq> 0 then s else s\<lparr>cur_scase := newest_case s\<rparr>))
              (on_stream (Some st) (in_usecases (Some u) (add_case name)) s)))"

definition parse_case_end :: handler where
  "parse_case_end E s = (if cur_scase s = None then None else Some (0, s\<lparr>cur_scase := None\<rparr>))"

definition add_usecase :: "string \<Rightarrow> stream \<Rightarrow> (int \<times> stream) option" where
  "add_usecase name st = (let (r, us) = push (new_usecase name) (usecases st) in Some (r, st\<lparr>usecases := us\<rparr>))"

definition newest_usecase :: "parse_state \<Rightarrow> (nat \<times> nat) option" where
  "newest_usecase s = map_option (\<lambda>st. (st, length (usecases (streams (ps_cm s) ! st)) - 1)) (cur_stream s)"

definition parse_usecase_start :: handler where
  "parse_usecase_start E s =
     with_attrib s e_attrib_name (\<lambda>name.
       map_option (\<lambda>(r, s). (r, if r \<noteq> 0 then s else s\<lparr>cur_usecase := newest_usecase s\<rparr>))
         (on_stream (cur_stream s) (add_usecase name) s))"

definition parse_usecase_end :: handler where
  "parse_usecase_end E s = (if cur_usecase s = None then None else Some (0, s))"

definition parse_enable_disable_start :: "bool \<Rightarrow> handler" where
  "parse_enable_disable_start is_enable E s =
     with_attrib s e_attrib_path (\<lambda>path_name.
       let i = find_path_name s path_name
       in if i < 0 then Some (-EINVAL, s)
          else on_stream (cur_stream s) (\<lambda>st. Some (0, if is_enable then st\<lparr>enable_path := i\<rparr> else st\<lparr>disable_path := i\<rparr>)) s)"

definition parse_enable_start :: handler where
  "parse_enable_start = parse_enable_disable_start True"

definition parse_disable_start :: handler where
  "parse_disable_start = parse_enable_disable_start False"

text \<open>
  A volume control of a stream. The limits come from the file or from the control; what was stored
  before an error stays. \<open>limit_of\<close> is one of the two switches.
\<close>

definition limit_of :: "parse_state \<Rightarrow> attrib \<Rightarrow> int \<Rightarrow> int + u32" where
  "limit_of s a bound =
     (case attrib_to_uint s a of
        Inr v \<Rightarrow> Inr v
      | Inl e \<Rightarrow> if e = -EINVAL then Inl (-EINVAL) else if bound < 0 then Inl bound else Inr (word_of_int bound))"

definition set_stream_ctl :: "parse_state \<Rightarrow> nat \<Rightarrow> mixer_ctl \<Rightarrow> u32 \<Rightarrow> stream_control \<Rightarrow> int \<times> stream_control" where
  "set_stream_ctl s i mc idx sc =
     (let sc = sc\<lparr>sc_index := idx\<rparr>
      in case limit_of s e_attrib_min (mc_range_min mc) of
           Inl e \<Rightarrow> (e, sc)
         | Inr v \<Rightarrow>
             (let sc = sc\<lparr>sc_min := v\<rparr>
              in case limit_of s e_attrib_max (mc_range_max mc) of
                   Inl e \<Rightarrow> (e, sc)
                 | Inr w \<Rightarrow> (0, sc\<lparr>sc_max := w, sc_id := Some i\<rparr>)))"

definition parse_stream_ctl_start :: handler where
  "parse_stream_ctl_start E s =
     with_attrib s e_attrib_name (\<lambda>name. with_attrib s e_attrib_function (\<lambda>function.
       case ctl_by_name (cm_mixer (ps_cm s)) name of
         None \<Rightarrow> Some (-EINVAL, s)
       | Some i \<Rightarrow>
           (case uint_or 0 (\<lambda>v. v) s e_attrib_index of
              None \<Rightarrow> Some (-EINVAL, s)
            | Some idx \<Rightarrow>
                let mc = cm_mixer (ps_cm s) ! i
                in if function = ''leftvol'' then
                     on_stream (cur_stream s) (\<lambda>st. let (r, sc) = set_stream_ctl s i mc idx (volume_left st) in Some (r, st\<lparr>volume_left := sc\<rparr>)) s
                   else if function = ''rightvol'' then
                     on_stream (cur_stream s) (\<lambda>st. let (r, sc) = set_stream_ctl s i mc idx (volume_right st) in Some (r, st\<lparr>volume_right := sc\<rparr>)) s
                   else Some (-EINVAL, s))))"

definition PCM_CARD_DEFAULT :: u32 where "PCM_CARD_DEFAULT = 0"
definition PCM_DEVICE_DEFAULT :: u32 where "PCM_DEVICE_DEFAULT = 0"
definition COMPRESS_CARD_DEFAULT :: u32 where "COMPRESS_CARD_DEFAULT = 0"
definition COMPRESS_DEVICE_DEFAULT :: u32 where "COMPRESS_DEVICE_DEFAULT = 0"
definition MAXREF_DEFAULT :: int where "MAXREF_DEFAULT = 2147483647"

text \<open>
  The kind of a stream with the numbers it starts with: the card and the device are not initialised
  for hardware links and for the global stream.
\<close>

definition stream_kind :: "bool \<Rightarrow> string option \<Rightarrow> string \<Rightarrow> bool \<Rightarrow> (hw_stream_type \<times> u32 option \<times> u32 option) option" where
  "stream_kind global name ty out =
     (if global then Some (e_stream_global, None, None)
      else if ty = ''hw'' then
        if name = None then None else Some (if out then e_stream_out_hw else e_stream_in_hw, None, None)
      else if ty = ''pcm'' then
        Some (if out then e_stream_out_pcm else e_stream_in_pcm, Some PCM_CARD_DEFAULT, Some PCM_DEVICE_DEFAULT)
      else if ty = ''compress'' then
        Some (if out then e_stream_out_compress else e_stream_in_compress, Some COMPRESS_CARD_DEFAULT, Some COMPRESS_DEVICE_DEFAULT)
      else None)"

text \<open>The direction; \<open>None\<close> is refused. Without one, the global stream never reads it.\<close>

definition stream_dir :: "bool \<Rightarrow> string option \<Rightarrow> bool option" where
  "stream_dir global dir =
     (case dir of
        None \<Rightarrow> if global then Some True else None
      | Some d \<Rightarrow> if d = ''out'' then Some True else if d = ''in'' then Some False else None)"

definition stream_of_attribs :: "parse_state \<Rightarrow> string \<Rightarrow> stream option" where
  "stream_of_attribs s ty =
     (let name = attribs s e_attrib_name; global = (name = Some ''global'')
      in do {
        out \<leftarrow> stream_dir global (attribs s e_attrib_dir);
        (kind, card, dev) \<leftarrow> stream_kind global name ty out;
        card \<leftarrow> uint_or card Some s e_attrib_card;
        dev \<leftarrow> uint_or dev Some s e_attrib_device;
        maxref \<leftarrow> uint_or MAXREF_DEFAULT sint s e_attrib_instances;
        r \<leftarrow> uint_or 0 (\<lambda>v. v) s e_attrib_rate;
        count \<leftarrow> uint_or 0 (\<lambda>v. v) s e_attrib_period_count;
        psize \<leftarrow> uint_or 0 (\<lambda>v. v) s e_attrib_period_size;
        Some (new_stream\<lparr>info := \<lparr>st_type = kind, card_number = map_option ucast card, device_number = map_option ucast dev,
                rate = r, period_size = psize, period_count = count\<rparr>,
              s_name := name, max_ref_count := maxref\<rparr>)
      })"

text \<open>On an error the array stays extended; what the new stream holds then is not kept, since the configuration is dropped.\<close>

definition parse_stream_start :: handler where
  "parse_stream_start E s =
     with_attrib s e_attrib_type (\<lambda>ty.
       let taken = (case attribs s e_attrib_name of None \<Rightarrow> False | Some n \<Rightarrow> find_named_stream (ps_cm s) n \<noteq> None)
       in if taken then Some (-EINVAL, s)
          else
            let n = length (streams (ps_cm s)); (r, ss) = push new_stream (streams (ps_cm s))
            in if r \<noteq> 0 then Some (r, s)
               else case stream_of_attribs s ty of
                      None \<Rightarrow> Some (-EINVAL, set_streams ss s)
                    | Some st \<Rightarrow> Some (0, (set_streams (streams (ps_cm s) @ [st]) s)\<lparr>cur_stream := Some n\<rparr>))"

definition parse_stream_end :: handler where
  "parse_stream_end E s = (if cur_stream s = None then None else Some (0, s))"

definition add_supported :: "audio_masks \<Rightarrow> u32 \<Rightarrow> config_mgr \<Rightarrow> config_mgr option" where
  "add_supported A flag cm =
     (if flag = 0 then Some cm
      else if flag AND AUDIO_DEVICE_BIT_IN A \<noteq> 0 then
        if flag AND supported_input_devices cm = flag then None
        else Some (cm\<lparr>supported_input_devices := supported_input_devices cm OR flag\<rparr>)
      else
        if flag AND supported_output_devices cm = flag then None
        else Some (cm\<lparr>supported_output_devices := supported_output_devices cm OR flag\<rparr>))"

definition parse_device_start :: handler where
  "parse_device_start E s =
     with_attrib s e_attrib_name (\<lambda>dev_name.
       case parse_match_device (masks E) dev_name of
         None \<Rightarrow> Some (-EINVAL, s)
       | Some flag \<Rightarrow>
           (case add_supported (masks E) flag (ps_cm s) of
              None \<Rightarrow> Some (-EINVAL, s)
            | Some cm \<Rightarrow>
                let s = s\<lparr>ps_cm := cm\<rparr>; n = length (devices cm); (r, ds) = push (new_device flag) (devices cm)
                in if r \<noteq> 0 then Some (r, s) else Some (0, (set_devices ds s)\<lparr>cur_device := Some n\<rparr>)))"

definition parse_device_end :: handler where
  "parse_device_end E s = (if cur_device s = None then None else Some (0, s))"

definition MIXER_CARD_DEFAULT :: u32 where "MIXER_CARD_DEFAULT = 0"

definition parse_mixer_start :: handler where
  "parse_mixer_start E s =
     (case uint_or MIXER_CARD_DEFAULT (\<lambda>v. v) s e_attrib_card of
        None \<Rightarrow> Some (-EINVAL, s)
      | Some number \<Rightarrow>
          (case mixer_open E number of
             None \<Rightarrow> Some (-EINVAL, s\<lparr>ps_cm := (ps_cm s)\<lparr>cm_mixer := []\<rparr>\<rparr>)
           | Some m \<Rightarrow>
               (case stack s of
                  t # (e, _) # rest \<Rightarrow>
                    Some (0, s\<lparr>ps_cm := (ps_cm s)\<lparr>cm_mixer := m\<rparr>, stack := t # (e, [e_elem_device, e_elem_stream]) # rest\<rparr>)
                | _ \<Rightarrow> None)))"

fun start_fn :: "element_index \<Rightarrow> handler option" where
  "start_fn e_elem_ctl = Some parse_ctl_start"
| "start_fn e_elem_path = Some parse_path_start"
| "start_fn e_elem_device = Some parse_device_start"
| "start_fn e_elem_stream = Some parse_stream_start"
| "start_fn e_elem_enable = Some parse_enable_start"
| "start_fn e_elem_disable = Some parse_disable_start"
| "start_fn e_elem_case = Some parse_case_start"
| "start_fn e_elem_usecase = Some parse_usecase_start"
| "start_fn e_elem_stream_ctl = Some parse_stream_ctl_start"
| "start_fn e_elem_init = Some parse_init_start"
| "start_fn e_elem_mixer = Some parse_mixer_start"
| "start_fn e_elem_audiohal = None"
| "start_fn e_elem_codec_probe = Some parse_codec_probe_start"
| "start_fn e_elem_codec_case = Some parse_codec_case_start"

fun end_fn :: "element_index \<Rightarrow> handler option" where
  "end_fn e_elem_path = Some parse_path_end"
| "end_fn e_elem_device = Some parse_device_end"
| "end_fn e_elem_stream = Some parse_stream_end"
| "end_fn e_elem_case = Some parse_case_end"
| "end_fn e_elem_usecase = Some parse_usecase_end"
| "end_fn e_elem_codec_probe = Some parse_codec_probe_end"
| "end_fn _ = None"

section \<open>Elements\<close>

text \<open>The attributes of an element: each must be allowed, and the required ones must be there.\<close>

fun match_attribs :: "attrib list \<Rightarrow> (string \<times> string) list \<Rightarrow> (attrib \<Rightarrow> string option) \<Rightarrow> attrib list \<Rightarrow> ((attrib \<Rightarrow> string option) \<times> attrib list) option" where
  "match_attribs valid [] vals required = Some (vals, required)"
| "match_attribs valid ((n, v) # as) vals required =
     (case find (\<lambda>a. a \<in> set valid \<and> attrib_table a = n) all_attribs of
        None \<Rightarrow> None
      | Some a \<Rightarrow> match_attribs valid as (vals(a \<mapsto> v)) (filter (\<lambda>b. b \<noteq> a) required))"

definition extract_attribs :: "element_index \<Rightarrow> (string \<times> string) list \<Rightarrow> (attrib \<Rightarrow> string option) option" where
  "extract_attribs e as =
     (case match_attribs (valid_attribs (elem_table e)) as (\<lambda>_. None) (required_attribs (elem_table e)) of
        Some (vals, []) \<Rightarrow> Some vals
      | _ \<Rightarrow> None)"

definition MAX_PARSE_DEPTH :: nat where "MAX_PARSE_DEPTH = 6"

definition parse_set_error :: "int \<Rightarrow> parse_state \<Rightarrow> parse_state" where
  "parse_set_error e s = s\<lparr>parse_error := e\<rparr>"

text \<open>
  The stack of the source is an array with the index of its top; here it is a list with the top first,
  so the index is one less than its length. The array has \<open>MAX_PARSE_DEPTH\<close> entries.
\<close>

definition stack_index :: "parse_state \<Rightarrow> nat" where
  "stack_index s = length (stack s) - 1"

definition call_start :: "audio_env \<Rightarrow> element_index \<Rightarrow> parse_state \<Rightarrow> parse_state option" where
  "call_start E e s =
     (case start_fn e of
        None \<Rightarrow> Some s
      | Some f \<Rightarrow> map_option (\<lambda>(r, s). parse_set_error r s) (f E s))"

definition enter_elem :: "audio_env \<Rightarrow> element_index \<Rightarrow> (string \<times> string) list \<Rightarrow> parse_state \<Rightarrow> parse_state option" where
  "enter_elem E e as s =
     (let s = s\<lparr>stack := (e, valid_subelem (elem_table e)) # stack s\<rparr>
      in (case extract_attribs e as of
            None \<Rightarrow> Some (parse_set_error (-EINVAL) s)
          | Some vals \<Rightarrow> call_start E e (s\<lparr>attribs := vals\<rparr>)))"

definition parse_section_start :: "audio_env \<Rightarrow> string \<Rightarrow> (string \<times> string) list \<Rightarrow> parse_state \<Rightarrow> parse_state option" where
  "parse_section_start E name as s =
     (case stack s of
        [] \<Rightarrow> None
      | (_, valid) # _ \<Rightarrow>
          if parse_error s \<noteq> 0 then Some s
          else
            (case find (\<lambda>e. e \<in> set valid \<and> pe_name (elem_table e) = name) all_elems of
               None \<Rightarrow> Some (parse_set_error (-EINVAL) s)
             | Some e \<Rightarrow>
                 if stack_index s \<ge> MAX_PARSE_DEPTH then Some (parse_set_error (-EINVAL) s)
                 else if stack_index s + 1 \<ge> MAX_PARSE_DEPTH then None
                 else enter_elem E e as s))"

text \<open>The end of an element below the first would make the index negative.\<close>

definition parse_section_end :: "audio_env \<Rightarrow> string \<Rightarrow> parse_state \<Rightarrow> parse_state option" where
  "parse_section_end E name s =
     (case stack s of
        [] \<Rightarrow> None
      | (e, _) # rest \<Rightarrow>
          if parse_error s \<noteq> 0 then Some s
          else if rest = [] then None
          else
            (case end_fn e of
               None \<Rightarrow> Some (s\<lparr>stack := rest\<rparr>)
             | Some f \<Rightarrow> map_option (\<lambda>(r, s). s\<lparr>parse_error := r, stack := tl (stack s)\<rparr>) (f E s)))"

fun parse_event :: "audio_env \<Rightarrow> xml_event \<Rightarrow> parse_state \<Rightarrow> parse_state option" where
  "parse_event E (XStart n as) s = parse_section_start E n as s"
| "parse_event E (XEnd n) s = parse_section_end E n s"

text \<open>The library reports nothing more once it was stopped.\<close>

fun parse_events :: "audio_env \<Rightarrow> xml_event list \<Rightarrow> parse_state \<Rightarrow> parse_state option" where
  "parse_events E [] s = Some s"
| "parse_events E (ev # evs) s =
     (if status s \<noteq> Parsing then Some s
      else case parse_event E ev s of None \<Rightarrow> None | Some s \<Rightarrow> parse_events E evs s)"

section \<open>Files\<close>

definition parse_log_error :: "bool \<Rightarrow> parse_state \<Rightarrow> int" where
  "parse_log_error xml_err s = (if parse_error s < 0 \<or> xml_err then -EINVAL else 0)"

text \<open>A call of the stopped library is an error; the error of a text counts unless the library stopped before.\<close>

fun parse_reads :: "audio_env \<Rightarrow> xml_read list \<Rightarrow> parse_state \<Rightarrow> (int \<times> parse_state) option" where
  "parse_reads E [] s = Some (0, s)"
| "parse_reads E (XReadError # rs) s = Some (-EIO, s)"
| "parse_reads E (XRead evs bad # rs) s =
     (if status s \<noteq> Parsing then Some (-EINVAL, s)
      else
        case parse_events E evs s of
          None \<Rightarrow> None
        | Some s \<Rightarrow>
            if parse_log_error (status s = Aborted \<or> (status s = Parsing \<and> bad)) s < 0 then Some (-EINVAL, s)
            else if parse_error s \<noteq> 0 then Some (0, s)
            else parse_reads E rs s)"

definition do_parse :: "audio_env \<Rightarrow> xml_read list \<Rightarrow> parse_state \<Rightarrow> (int \<times> parse_state) option" where
  "do_parse E rs s = parse_reads E rs (s\<lparr>parse_error := 0, stack := [(e_elem_ctl, [e_elem_audiohal])]\<rparr>)"

definition config_file_name :: "audio_env \<Rightarrow> string option \<Rightarrow> string" where
  "config_file_name E file =
     (case file of
        None \<Rightarrow> snprintf 80 (''/vendor/etc/audio.'' @ product_device E @ ''.xml'')
      | Some f \<Rightarrow> snprintf 80 (''/vendor/etc/'' @ f))"

definition open_config_file :: "audio_env \<Rightarrow> string option \<Rightarrow> parse_state \<Rightarrow> xml_read list option \<times> parse_state" where
  "open_config_file E file s =
     (let cur = (case file of None \<Rightarrow> snprintf 40 (''audio.'' @ product_device E @ ''.xml'') | Some f \<Rightarrow> f)
      in (xml_file E (config_file_name E file), s\<lparr>cur_xml_file := Some cur\<rparr>))"

definition blank_state :: "config_mgr \<Rightarrow> parse_state" where
  "blank_state cm = \<lparr>ps_cm = cm, cur_xml_file = None, parse_error = 0, attribs = (\<lambda>_. None), cur_device = None, cur_stream = None,
     cur_path = None, cur_usecase = None, cur_scase = None, cur_probe = False, path_names = [], init_path = [], probe_file = None,
     new_xml_file = None, codec_cases = \<lparr>items = [], max_count = 0\<rparr>, stack = [(e_elem_ctl, [])], status = Parsing\<rparr>"

definition init_state :: "parse_state \<Rightarrow> int \<times> parse_state" where
  "init_state s =
     (let (r, s) = add_path_name ''off'' s
      in if r < 0 then (r, s)
         else let (r, s) = add_path_name ''on'' s in if r < 0 then (r, s) else (0, s))"

text \<open>Files may redirect to one another without end: \<open>None\<close> is then that the loop does not return.\<close>

definition redirect :: "parse_state \<Rightarrow> parse_state" where
  "redirect s = (if new_xml_file s \<noteq> None then s\<lparr>probe_file := None, status := Parsing, new_xml_file := None\<rparr> else s)"

partial_function (option) parse_files :: "audio_env \<Rightarrow> parse_state \<Rightarrow> (int \<times> parse_state) option" where
  "parse_files E s =
     (case open_config_file E (new_xml_file s) s of
        (None, s) \<Rightarrow> Some (-ENOMEM, s)
      | (Some rs, s) \<Rightarrow>
          (case do_parse E rs (redirect s) of
             None \<Rightarrow> None
           | Some (r, s) \<Rightarrow> if new_xml_file s \<noteq> None then parse_files E s else Some (r, s)))"

definition parse_config_file :: "audio_env \<Rightarrow> card \<Rightarrow> config_mgr \<Rightarrow> (int \<times> config_mgr) option" where
  "parse_config_file E K cm =
     (let (r, s) = init_state (blank_state cm)
      in if r < 0 then Some (r, cm)
         else
           (case parse_files E s of
              None \<Rightarrow> None
            | Some (r, s) \<Rightarrow>
                if r < 0 then Some (r, ps_cm s)
                else
                  map_option (\<lambda>(_, h). (r, (ps_cm s)\<lparr>mlog := h\<rparr>))
                    (apply_ctls_l (cm_mixer (ps_cm s)) K (init_path s) (mlog (ps_cm s)))))"

definition init_audio_config :: "audio_env \<Rightarrow> card \<Rightarrow> config_mgr option option" where
  "init_audio_config E K =
     map_option (\<lambda>(r, cm). if r \<noteq> 0 then None else Some cm) (parse_config_file E K new_config_mgr)"

end
