(* ===== verification/AudioHal.thy ===== *)
theory AudioHal
  imports AudioParse
begin

text \<open>
  The audio HAL (\<open>audio/audio_hw.c\<close>): output streams over PCM and compressed devices, input streams,
  parameters, and the voice trigger. The sound libraries are a parameter that answers calls; a call
  that opens something is named by its place in the transcript, so every handle is different. The
  configuration manager is the model of \<open>AudioConfig\<close> and \<open>AudioParse\<close>. A null handle that is used,
  and a division by zero, are undefined (\<open>None\<close>). Streams are never given a callback, so the thread of
  the compressed output never runs; volumes in floating point, time stamps and the samples are left out.
\<close>

section \<open>Libraries\<close>

record pcm_config =
  pc_channels :: u32
  pc_rate :: u32
  pc_period_size :: u32
  pc_period_count :: u32

datatype codec_id = SND_AUDIOCODEC_NONE | SND_AUDIOCODEC_PCM | SND_AUDIOCODEC_MP3 | SND_AUDIOCODEC_AAC | SND_AUDIOCODEC_VORBIS

record snd_codec =
  codec_id :: codec_id
  he_level :: bool
  codec_rate :: u32
  codec_channels :: u32

datatype lcall =
    PcmOpen bool "u8 option" "u8 option" pcm_config | PcmClose nat | PcmWrite nat u32 | PcmRead nat u32
  | ResamplerOpen u32 u32 u32 | ResamplerRelease nat | Resample nat u32
  | CompressOpen bool "u8 option" "u8 option" snd_codec | CompressClose nat | CompressStart nat | CompressStop nat
  | CompressPause nat | CompressResume nat | CompressWrite nat u32 | CompressRead nat u32
  | CompressDrain nat | CompressNextTrack nat | CompressPartialDrain nat | CompressMaxPoll nat int
  | CompressNonblock nat bool | CompressMetadata nat int int

record lans =
  l_ptr :: bool
  l_ready :: bool
  l_ret :: int
  fragment_size :: u32
  fragments :: u32

record audio_config_t =
  cfg_rate :: u32
  cfg_mask :: u32
  cfg_format :: u32

text \<open>Constants and inline functions of the platform's headers, the parameter parser of its C utilities, and the libraries.\<close>

record hal_env =
  he_config :: audio_env
  he_card :: card
  he_lib :: "(lcall, lans) kernel"
  he_interface :: string
  audio_is_linear_pcm :: "u32 \<Rightarrow> bool"
  stream_frame_size :: "u32 \<Rightarrow> u32 \<Rightarrow> u32"
  str_parm :: "string \<Rightarrow> string \<Rightarrow> string option"
  key_routing :: string
  key_input_source :: string
  key_delay_samples :: string
  key_padding_samples :: string
  source_voice_recognition :: int
  format_main_mask :: u32
  AUDIO_FORMAT_MP3 :: u32
  AUDIO_FORMAT_AAC :: u32
  AUDIO_FORMAT_HE_AAC_V1 :: u32
  AUDIO_FORMAT_HE_AAC_V2 :: u32
  AUDIO_FORMAT_VORBIS :: u32

abbreviation he_masks :: "hal_env \<Rightarrow> audio_masks" where
  "he_masks E \<equiv> masks (he_config E)"

definition popcount :: "u32 \<Rightarrow> u32" where
  "popcount w = word_of_nat (length (filter (bit w) [0..<32]))"

definition pcm_frames_to_bytes :: "pcm_config \<Rightarrow> u32 \<Rightarrow> u32" where
  "pcm_frames_to_bytes c frames = frames * pc_channels c * 2"

definition pcm_bytes_to_frames :: "pcm_config \<Rightarrow> u32 \<Rightarrow> u32" where
  "pcm_bytes_to_frames c bytes = bytes div (pc_channels c * 2)"

section \<open>State\<close>

datatype voice_state = eVoiceNone | eVoiceTriggerIdle | eVoiceTriggerArmed | eVoiceTriggerFired | eVoiceRecogIdle | eVoiceRecogArmed
  | eVoiceRecogFired | eVoiceRecogAudio | eVoiceRecogReArm

record stream_out_pcm =
  op_pcm :: "(nat \<times> pcm_config) option"
  op_hw_sample_rate :: u32
  op_hw_channel_count :: u32

record stream_out_compress =
  oc_compress :: "nat option"
  oc_codec :: snd_codec
  oc_started :: bool
  oc_paused :: bool
  encoder_delay :: int
  encoder_padding :: int
  refresh_gapless_meta :: bool

datatype out_kind = OutPcm stream_out_pcm | OutCompress stream_out_compress

record stream_out =
  o_hw :: nat
  o_standby :: bool
  o_format :: u32
  o_channel_mask :: u32
  o_channel_count :: u32
  o_sample_rate :: u32
  o_frame_size :: u32
  o_buffer_size :: u32
  o_latency :: u32
  o_kind :: out_kind

text \<open>The handle of an input stream is a PCM or a compressed one, after the kind of its configured stream.\<close>

record stream_in =
  i_hw :: "nat option"
  i_standby :: bool
  i_devices :: u32
  i_format :: u32
  i_channel_mask :: u32
  i_channel_count :: u32
  i_sample_rate :: u32
  i_frame_size :: u32
  i_buffer_size :: u32
  input_source :: int
  has_read :: bool
  i_handle :: "nat option"
  i_config :: pcm_config
  i_hw_sample_rate :: u32
  i_hw_channel_count :: u32
  i_period_size :: u32
  i_resampler :: "nat option"

text \<open>Streams given to the framework are numbered in the order they were opened; a freed one is \<open>None\<close>.\<close>

record audio_device =
  ad_cm :: config_mgr
  mic_mute :: bool
  active_voice_control :: "nat option"
  voice_st :: voice_state
  voice_trig_mic :: u32
  global_stream :: "nat option"
  voice_trig_stream :: "nat option"
  outs :: "stream_out option list"
  ins :: "stream_in option list"
  llog :: "lcall list"

section \<open>Calls\<close>

definition lib :: "hal_env \<Rightarrow> lcall \<Rightarrow> audio_device \<Rightarrow> lans \<times> audio_device" where
  "lib E c ad = (let (a, h) = sys (he_lib E) c (llog ad) in (a, ad\<lparr>llog := h\<rparr>))"

definition lib_call :: "hal_env \<Rightarrow> lcall \<Rightarrow> audio_device \<Rightarrow> audio_device" where
  "lib_call E c ad = snd (lib E c ad)"

definition new_handle :: "audio_device \<Rightarrow> nat" where
  "new_handle ad = length (llog ad)"

definition cm_op :: "(config_mgr \<Rightarrow> config_mgr option) \<Rightarrow> audio_device \<Rightarrow> audio_device option" where
  "cm_op f ad = map_option (\<lambda>cm. ad\<lparr>ad_cm := cm\<rparr>) (f (ad_cm ad))"

definition cm_get :: "(config_mgr \<Rightarrow> ('a \<times> config_mgr) option) \<Rightarrow> audio_device \<Rightarrow> ('a \<times> audio_device) option" where
  "cm_get f ad = map_option (\<lambda>(r, cm). (r, ad\<lparr>ad_cm := cm\<rparr>)) (f (ad_cm ad))"

definition route :: "hal_env \<Rightarrow> nat \<Rightarrow> u32 \<Rightarrow> audio_device \<Rightarrow> audio_device option" where
  "route E i devs = cm_op (apply_route (he_masks E) (he_card E) i devs)"

definition release :: "hal_env \<Rightarrow> nat option \<Rightarrow> audio_device \<Rightarrow> audio_device option" where
  "release E st = cm_op (release_stream (he_masks E) (he_card E) st)"

definition get_named :: "hal_env \<Rightarrow> string \<Rightarrow> audio_device \<Rightarrow> (nat option \<times> audio_device) option" where
  "get_named E name = cm_get (get_named_stream (he_card E) name)"

definition hw_info :: "audio_device \<Rightarrow> nat \<Rightarrow> hw_stream" where
  "hw_info ad i = info (streams (ad_cm ad) ! i)"

definition get_out :: "nat \<Rightarrow> audio_device \<Rightarrow> stream_out option" where
  "get_out k ad = (if k < length (outs ad) then outs ad ! k else None)"

definition put_out :: "nat \<Rightarrow> stream_out option \<Rightarrow> audio_device \<Rightarrow> audio_device" where
  "put_out k out ad = ad\<lparr>outs := (outs ad)[k := out]\<rparr>"

definition get_in :: "nat \<Rightarrow> audio_device \<Rightarrow> stream_in option" where
  "get_in k ad = (if k < length (ins ad) then ins ad ! k else None)"

definition put_in :: "nat \<Rightarrow> stream_in option \<Rightarrow> audio_device \<Rightarrow> audio_device" where
  "put_in k inp ad = ad\<lparr>ins := (ins ad)[k := inp]\<rparr>"

section \<open>Parameters\<close>

definition ENOTSUP :: int where "ENOTSUP = 95"

text \<open>\<open>strtok_r\<close> with a semicolon, and the split of a token at its first equals sign.\<close>

fun semicolon_tokens :: "string \<Rightarrow> string \<Rightarrow> string list" where
  "semicolon_tokens acc [] = (if acc = [] then [] else [acc])"
| "semicolon_tokens acc (c # s) =
     (if c = CHR '';'' then (if acc = [] then semicolon_tokens [] s else acc # semicolon_tokens [] s)
      else semicolon_tokens (acc @ [c]) s)"

definition setting_of :: "string \<Rightarrow> (string \<times> string) option" where
  "setting_of p =
     (case dropWhile (\<lambda>c. c \<noteq> CHR ''='') p of
        [] \<Rightarrow> None
      | _ # v \<Rightarrow> if v = [] then None else Some (takeWhile (\<lambda>c. c \<noteq> CHR ''='') p, v))"

fun invoke_tokens :: "hal_env \<Rightarrow> nat \<Rightarrow> string list \<Rightarrow> int \<Rightarrow> audio_device \<Rightarrow> (int \<times> audio_device) option" where
  "invoke_tokens E i [] ret ad = Some (ret, ad)"
| "invoke_tokens E i (p # ps) ret ad =
     (case setting_of p of
        None \<Rightarrow> invoke_tokens E i ps ret ad
      | Some (k, v) \<Rightarrow>
          (case cm_get (apply_use_case (he_card E) i k v) ad of
             None \<Rightarrow> None
           | Some (r, ad) \<Rightarrow> invoke_tokens E i ps (if r \<ge> 0 then 0 else ret) ad))"

definition stream_invoke_usecases :: "hal_env \<Rightarrow> nat option \<Rightarrow> string \<Rightarrow> audio_device \<Rightarrow> (int \<times> audio_device) option" where
  "stream_invoke_usecases E st kv ad =
     (case st of None \<Rightarrow> Some (-ENOTSUP, ad) | Some i \<Rightarrow> invoke_tokens E i (semicolon_tokens [] kv) (-ENOTSUP) ad)"

definition common_get_routing_param :: "hal_env \<Rightarrow> string \<Rightarrow> u32 option" where
  "common_get_routing_param E kv = map_option (\<lambda>v. word_of_int (atoi v)) (str_parm E kv (key_routing E))"

section \<open>Voice trigger\<close>

definition kVoiceTriggerStreamName :: string where "kVoiceTriggerStreamName = ''voice trigger''"
definition kVoiceRecogStreamName :: string where "kVoiceRecogStreamName = ''voice recognition''"

definition do_voice_trigger_open_stream :: "hal_env \<Rightarrow> string \<Rightarrow> audio_device \<Rightarrow> audio_device option" where
  "do_voice_trigger_open_stream E name ad =
     (case get_named E name ad of
        None \<Rightarrow> None
      | Some (st, ad) \<Rightarrow>
          let ad = ad\<lparr>voice_trig_stream := st\<rparr>;
              mic = (if voice_trig_mic ad = 0 then AUDIO_DEVICE_IN_BUILTIN_MIC (he_masks E) else voice_trig_mic ad)
          in (case st of None \<Rightarrow> Some ad | Some i \<Rightarrow> route E i mic ad))"

text \<open>The source compares the pointer with null where it means to clear it, so it keeps its value.\<close>

definition do_voice_trigger_close_stream :: "hal_env \<Rightarrow> audio_device \<Rightarrow> audio_device option" where
  "do_voice_trigger_close_stream E ad =
     (case voice_trig_stream ad of
        None \<Rightarrow> Some ad
      | Some i \<Rightarrow> (case route E i 0 ad of None \<Rightarrow> None | Some ad \<Rightarrow> release E (Some i) ad))"

definition set_voice :: "voice_state \<Rightarrow> audio_device option \<Rightarrow> audio_device option" where
  "set_voice st r = map_option (\<lambda>ad. ad\<lparr>voice_st := st\<rparr>) r"

definition voice_trigger_enable :: "hal_env \<Rightarrow> audio_device \<Rightarrow> audio_device option" where
  "voice_trigger_enable E ad =
     (case voice_st ad of
        eVoiceNone \<Rightarrow> Some ad
      | eVoiceTriggerIdle \<Rightarrow> set_voice eVoiceTriggerArmed (do_voice_trigger_open_stream E kVoiceTriggerStreamName ad)
      | eVoiceTriggerFired \<Rightarrow> set_voice eVoiceTriggerArmed (do_voice_trigger_open_stream E kVoiceTriggerStreamName ad)
      | eVoiceTriggerArmed \<Rightarrow> Some ad
      | eVoiceRecogIdle \<Rightarrow> set_voice eVoiceRecogArmed (do_voice_trigger_open_stream E kVoiceRecogStreamName ad)
      | eVoiceRecogArmed \<Rightarrow> Some ad
      | eVoiceRecogFired \<Rightarrow> Some ad
      | eVoiceRecogReArm \<Rightarrow> Some ad
      | eVoiceRecogAudio \<Rightarrow> set_voice eVoiceRecogReArm (Some ad))"

definition voice_trigger_disable :: "hal_env \<Rightarrow> audio_device \<Rightarrow> audio_device option" where
  "voice_trigger_disable E ad =
     (case voice_st ad of
        eVoiceNone \<Rightarrow> Some ad
      | eVoiceTriggerIdle \<Rightarrow> Some ad
      | eVoiceTriggerFired \<Rightarrow> set_voice eVoiceTriggerIdle (do_voice_trigger_close_stream E ad)
      | eVoiceTriggerArmed \<Rightarrow> set_voice eVoiceTriggerIdle (do_voice_trigger_close_stream E ad)
      | eVoiceRecogIdle \<Rightarrow> Some ad
      | eVoiceRecogArmed \<Rightarrow> set_voice eVoiceRecogIdle (do_voice_trigger_close_stream E ad)
      | eVoiceRecogFired \<Rightarrow> Some ad
      | eVoiceRecogAudio \<Rightarrow> Some ad
      | eVoiceRecogReArm \<Rightarrow> set_voice eVoiceRecogAudio (Some ad))"

definition voice_trigger_triggered :: "audio_device \<Rightarrow> audio_device" where
  "voice_trigger_triggered ad =
     (case voice_st ad of
        eVoiceTriggerArmed \<Rightarrow> ad\<lparr>voice_st := eVoiceTriggerFired\<rparr>
      | eVoiceRecogArmed \<Rightarrow> ad\<lparr>voice_st := eVoiceRecogFired\<rparr>
      | _ \<Rightarrow> ad)"

definition voice_trigger_audio_started_locked :: "audio_device \<Rightarrow> audio_device" where
  "voice_trigger_audio_started_locked ad =
     (case voice_st ad of eVoiceRecogFired \<Rightarrow> ad\<lparr>voice_st := eVoiceRecogAudio\<rparr> | _ \<Rightarrow> ad)"

definition voice_trigger_audio_ended_locked :: "hal_env \<Rightarrow> audio_device \<Rightarrow> audio_device option" where
  "voice_trigger_audio_ended_locked E ad =
     (case voice_st ad of
        eVoiceRecogAudio \<Rightarrow> set_voice eVoiceRecogIdle (do_voice_trigger_close_stream E ad)
      | eVoiceRecogReArm \<Rightarrow> set_voice eVoiceRecogArmed (Some ad)
      | _ \<Rightarrow> Some ad)"

definition voice_trigger_set_params :: "hal_env \<Rightarrow> string \<Rightarrow> audio_device \<Rightarrow> audio_device option" where
  "voice_trigger_set_params E kv ad =
     (let ad = (case str_parm E kv ''voice_trigger_mic'' of None \<Rightarrow> ad | Some v \<Rightarrow> ad\<lparr>voice_trig_mic := word_of_int (atoi v)\<rparr>)
      in case str_parm E kv ''voice_trigger'' of
           None \<Rightarrow> Some ad
         | Some v \<Rightarrow>
             if v = ''2'' then Some (voice_trigger_triggered ad)
             else if v = ''1'' then voice_trigger_enable E ad
             else if v = ''0'' then voice_trigger_disable E ad
             else Some ad)"

definition voice_trigger_audio_stream_name :: "audio_device \<Rightarrow> string option" where
  "voice_trigger_audio_stream_name ad =
     (if voice_st ad \<in> {eVoiceNone, eVoiceTriggerIdle, eVoiceTriggerArmed, eVoiceTriggerFired, eVoiceRecogFired}
      then Some kVoiceRecogStreamName else None)"

definition voice_trigger_init :: "audio_device \<Rightarrow> audio_device" where
  "voice_trigger_init ad =
     (if is_named_stream_defined (ad_cm ad) kVoiceRecogStreamName then ad\<lparr>voice_st := eVoiceRecogIdle\<rparr>
      else if is_named_stream_defined (ad_cm ad) kVoiceTriggerStreamName then ad\<lparr>voice_st := eVoiceTriggerIdle\<rparr>
      else ad\<lparr>voice_st := eVoiceNone\<rparr>)"

section \<open>Output streams\<close>

definition OUT_PERIOD_SIZE_DEFAULT :: u32 where "OUT_PERIOD_SIZE_DEFAULT = 256"
definition OUT_PERIOD_COUNT_DEFAULT :: u32 where "OUT_PERIOD_COUNT_DEFAULT = 4"
definition OUT_CHANNEL_COUNT_DEFAULT :: u32 where "OUT_CHANNEL_COUNT_DEFAULT = 2"
definition OUT_RATE_DEFAULT :: u32 where "OUT_RATE_DEFAULT = 44100"

definition or_default :: "u32 \<Rightarrow> u32 \<Rightarrow> u32" where
  "or_default v d = (if v \<noteq> 0 then v else d)"

definition out_pcm_cfg_period_count :: "hw_stream \<Rightarrow> u32" where
  "out_pcm_cfg_period_count hw = or_default (period_count hw) OUT_PERIOD_COUNT_DEFAULT"

definition out_pcm_cfg_period_size :: "hw_stream \<Rightarrow> u32" where
  "out_pcm_cfg_period_size hw = or_default (period_size hw) OUT_PERIOD_SIZE_DEFAULT"

definition out_pcm_cfg_rate :: "hw_stream \<Rightarrow> u32" where
  "out_pcm_cfg_rate hw = or_default (rate hw) OUT_RATE_DEFAULT"

definition out_pcm_cfg_channel_count :: "stream_out \<Rightarrow> u32" where
  "out_pcm_cfg_channel_count out = or_default (o_channel_count out) OUT_CHANNEL_COUNT_DEFAULT"

definition out_get_sample_rate :: "hw_stream \<Rightarrow> stream_out \<Rightarrow> u32" where
  "out_get_sample_rate hw out = (if o_sample_rate out \<noteq> 0 then o_sample_rate out else rate hw)"

definition udiv :: "u32 \<Rightarrow> u32 \<Rightarrow> u32 option" where
  "udiv a b = (if b = 0 then None else Some (a div b))"

definition out_pcm_fill_params :: "pcm_config \<Rightarrow> stream_out_pcm \<Rightarrow> stream_out \<Rightarrow> stream_out option" where
  "out_pcm_fill_params c pcm out =
     do {
       latency \<leftarrow> udiv (pc_period_size c * pc_period_count c * 1000) (pc_rate c);
       Some (out\<lparr>o_buffer_size := pcm_frames_to_bytes c (pc_period_size c), o_latency := latency,
               o_kind := OutPcm (pcm\<lparr>op_hw_sample_rate := pc_rate c, op_hw_channel_count := pc_channels c\<rparr>)\<rparr>)
     }"

definition start_output_pcm :: "hal_env \<Rightarrow> stream_out_pcm \<Rightarrow> stream_out \<Rightarrow> audio_device \<Rightarrow> (int \<times> stream_out \<times> audio_device) option" where
  "start_output_pcm E pcm out ad =
     (let hw = hw_info ad (o_hw out);
          c = \<lparr>pc_channels = out_pcm_cfg_channel_count out, pc_rate = out_pcm_cfg_rate hw,
               pc_period_size = out_pcm_cfg_period_size hw, pc_period_count = out_pcm_cfg_period_count hw\<rparr>;
          h = new_handle ad; (a, ad) = lib E (PcmOpen False (card_number hw) (device_number hw) c) ad;
          pcm = pcm\<lparr>op_pcm := Some (h, c)\<rparr>
      in if \<not> l_ptr a then None
         else if \<not> l_ready a then Some (-ENOMEM, out\<lparr>o_kind := OutPcm pcm\<rparr>, lib_call E (PcmClose h) ad)
         else map_option (\<lambda>out. (0, out, ad)) (out_pcm_fill_params c pcm out))"

definition do_out_pcm_standby :: "hal_env \<Rightarrow> stream_out_pcm \<Rightarrow> stream_out \<Rightarrow> audio_device \<Rightarrow> (stream_out \<times> audio_device) option" where
  "do_out_pcm_standby E pcm out ad =
     (if o_standby out then Some (out, ad)
      else case op_pcm pcm of
             None \<Rightarrow> None
           | Some (h, c) \<Rightarrow> Some (out\<lparr>o_standby := True, o_kind := OutPcm (pcm\<lparr>op_pcm := None\<rparr>)\<rparr>, lib_call E (PcmClose h) ad))"

definition pcm_write :: "hal_env \<Rightarrow> stream_out \<Rightarrow> u32 \<Rightarrow> audio_device \<Rightarrow> (int \<times> audio_device) option" where
  "pcm_write E out bytes ad =
     (case o_kind out of
        OutPcm pcm \<Rightarrow>
          (case op_pcm pcm of
             None \<Rightarrow> None
           | Some (h, c) \<Rightarrow>
               let (a, ad) = lib E (PcmWrite h (pcm_bytes_to_frames c bytes)) ad
               in Some (if l_ret a \<ge> 0 then sint bytes else l_ret a, ad))
      | OutCompress _ \<Rightarrow> None)"

definition out_pcm_write :: "hal_env \<Rightarrow> nat \<Rightarrow> stream_out_pcm \<Rightarrow> stream_out \<Rightarrow> u32 \<Rightarrow> audio_device \<Rightarrow> (int \<times> audio_device) option" where
  "out_pcm_write E k pcm out bytes ad =
     (if get_current_routes (ad_cm ad) (o_hw out) = 0 then Some (0, ad)
      else if o_standby out then
        (case start_output_pcm E pcm out ad of
           None \<Rightarrow> None
         | Some (ret, out, ad) \<Rightarrow>
             if ret \<noteq> 0 then Some (ret, put_out k (Some out) ad)
             else pcm_write E out bytes (put_out k (Some (out\<lparr>o_standby := False\<rparr>)) ad))
      else pcm_write E out bytes ad)"

definition do_init_out_pcm :: "hw_stream \<Rightarrow> stream_out \<Rightarrow> stream_out option" where
  "do_init_out_pcm hw out =
     do {
       latency \<leftarrow> udiv (out_pcm_cfg_period_size hw * out_pcm_cfg_period_count hw * 1000) (o_sample_rate out);
       Some (out\<lparr>o_buffer_size := out_pcm_cfg_period_size hw * o_frame_size out, o_latency := latency,
               o_kind := OutPcm \<lparr>op_pcm = None, op_hw_sample_rate = 0, op_hw_channel_count = 0\<rparr>\<rparr>)
     }"

section \<open>Compressed output\<close>

definition MAX_COMPRESS_POLL_WAIT_MS :: int where "MAX_COMPRESS_POLL_WAIT_MS = -1"

definition EBADFD :: int where "EBADFD = 77"

definition do_standby_compress_l :: "hal_env \<Rightarrow> stream_out_compress \<Rightarrow> audio_device \<Rightarrow> stream_out_compress \<times> audio_device" where
  "do_standby_compress_l E cs ad =
     (case oc_compress cs of
        None \<Rightarrow> (cs, ad)
      | Some h \<Rightarrow>
          if oc_paused cs then (cs, ad)
          else
            let (cs, ad) = (if oc_started cs then (cs\<lparr>oc_started := False\<rparr>, lib_call E (CompressStop h) ad) else (cs, ad))
            in (cs\<lparr>oc_compress := None\<rparr>, lib_call E (CompressClose h) ad))"

text \<open>A null result of the library is passed to it again, to be asked for its state and closed.\<close>

definition open_output_compress :: "hal_env \<Rightarrow> stream_out_compress \<Rightarrow> stream_out \<Rightarrow> audio_device \<Rightarrow> (int \<times> stream_out_compress \<times> stream_out \<times> audio_device) option" where
  "open_output_compress E cs out ad =
     (if oc_compress cs \<noteq> None then Some (0, cs, out, ad)
      else
        let hw = hw_info ad (o_hw out); h = new_handle ad;
            (a, ad) = lib E (CompressOpen False (card_number hw) (device_number hw) (oc_codec cs)) ad
        in if \<not> l_ptr a then None
           else if \<not> l_ready a then Some (-EBUSY, cs, out, lib_call E (CompressClose h) ad)
           else Some (0, cs\<lparr>oc_compress := Some h\<rparr>, out\<lparr>o_buffer_size := fragment_size a * fragments a\<rparr>,
                  lib_call E (CompressNonblock h False) (lib_call E (CompressMaxPoll h MAX_COMPRESS_POLL_WAIT_MS) ad)))"

definition start_output_compress :: "hal_env \<Rightarrow> nat \<Rightarrow> stream_out_compress \<Rightarrow> audio_device \<Rightarrow> int \<times> stream_out_compress \<times> audio_device" where
  "start_output_compress E h cs ad =
     (let (a, ad) = lib E (CompressStart h) ad
      in if l_ret a < 0 then let (cs, ad) = do_standby_compress_l E cs ad in (l_ret a, cs, ad)
         else if refresh_gapless_meta cs then
           (l_ret a, cs\<lparr>oc_started := True, refresh_gapless_meta := False, encoder_delay := 0, encoder_padding := 0\<rparr>,
            lib_call E (CompressMetadata h (encoder_delay cs) (encoder_padding cs)) ad)
         else (l_ret a, cs\<lparr>oc_started := True\<rparr>, ad))"

definition put_compress :: "nat \<Rightarrow> stream_out_compress \<Rightarrow> stream_out \<Rightarrow> audio_device \<Rightarrow> audio_device" where
  "put_compress k cs out ad = put_out k (Some (out\<lparr>o_kind := OutCompress cs\<rparr>)) ad"

definition out_compress_write :: "hal_env \<Rightarrow> nat \<Rightarrow> stream_out_compress \<Rightarrow> stream_out \<Rightarrow> u32 \<Rightarrow> audio_device \<Rightarrow> (int \<times> audio_device) option" where
  "out_compress_write E k cs out bytes ad =
     (case open_output_compress E cs out ad of
        None \<Rightarrow> None
      | Some (ret, cs, out, ad) \<Rightarrow>
          if ret < 0 then Some (ret, put_compress k cs out ad)
          else
            (case oc_compress cs of
               None \<Rightarrow> None
             | Some h \<Rightarrow>
                 let (a, ad) = lib E (CompressWrite h bytes) ad
                 in if l_ret a \<ge> 0 \<and> \<not> oc_started cs then
                      let (r, cs, ad) = start_output_compress E h cs ad
                      in Some (if r < 0 then -1 else l_ret a, put_compress k cs out ad)
                    else Some (l_ret a, put_compress k cs out ad)))"

definition out_compress_pause :: "hal_env \<Rightarrow> nat \<Rightarrow> stream_out_compress \<Rightarrow> stream_out \<Rightarrow> audio_device \<Rightarrow> int \<times> audio_device" where
  "out_compress_pause E k cs out ad =
     (case oc_compress cs of
        None \<Rightarrow> (-EBADFD, ad)
      | Some h \<Rightarrow>
          if oc_paused cs then (-EBADFD, ad)
          else let (a, ad) = lib E (CompressPause h) ad in (l_ret a, put_compress k (cs\<lparr>oc_paused := True\<rparr>) out ad))"

definition out_compress_resume :: "hal_env \<Rightarrow> nat \<Rightarrow> stream_out_compress \<Rightarrow> stream_out \<Rightarrow> audio_device \<Rightarrow> int \<times> audio_device" where
  "out_compress_resume E k cs out ad =
     (case oc_compress cs of
        None \<Rightarrow> (-EBADFD, ad)
      | Some h \<Rightarrow>
          if \<not> oc_paused cs then (-EBADFD, ad)
          else let (a, ad) = lib E (CompressResume h) ad in (l_ret a, put_compress k (cs\<lparr>oc_paused := False\<rparr>) out ad))"

text \<open>Draining a stream without a handle passes a null pointer to the library.\<close>

definition out_compress_drain :: "hal_env \<Rightarrow> nat \<Rightarrow> stream_out_compress \<Rightarrow> stream_out \<Rightarrow> bool \<Rightarrow> audio_device \<Rightarrow> (int \<times> audio_device) option" where
  "out_compress_drain E k cs out early ad =
     (case oc_compress cs of
        None \<Rightarrow> None
      | Some h \<Rightarrow>
          if early then
            let (a, ad) = lib E (CompressNextTrack h) ad
            in if l_ret a \<noteq> 0 then Some (l_ret a, ad)
               else let (a, ad) = lib E (CompressPartialDrain h) ad in Some (l_ret a, put_compress k (cs\<lparr>oc_started := False\<rparr>) out ad)
          else let (a, ad) = lib E (CompressDrain h) ad in Some (l_ret a, put_compress k (cs\<lparr>oc_started := False\<rparr>) out ad))"

definition out_compress_flush :: "hal_env \<Rightarrow> nat \<Rightarrow> stream_out_compress \<Rightarrow> stream_out \<Rightarrow> audio_device \<Rightarrow> audio_device" where
  "out_compress_flush E k cs out ad =
     (case oc_compress cs of
        Some h \<Rightarrow>
          if oc_started cs then put_compress k (cs\<lparr>oc_paused := False, oc_started := False\<rparr>) out (lib_call E (CompressStop h) ad) else ad
      | None \<Rightarrow> ad)"

definition compress_params :: "hal_env \<Rightarrow> string \<Rightarrow> stream_out_compress \<Rightarrow> stream_out_compress" where
  "compress_params E kv cs =
     (let cs = (case str_parm E kv (key_delay_samples E) of None \<Rightarrow> cs | Some v \<Rightarrow> cs\<lparr>encoder_delay := atoi v, refresh_gapless_meta := True\<rparr>)
      in case str_parm E kv (key_padding_samples E) of None \<Rightarrow> cs | Some v \<Rightarrow> cs\<lparr>encoder_padding := atoi v, refresh_gapless_meta := True\<rparr>)"

definition codec_of :: "hal_env \<Rightarrow> u32 \<Rightarrow> (codec_id \<times> bool) option" where
  "codec_of E f =
     (if f = AUDIO_FORMAT_MP3 E then Some (SND_AUDIOCODEC_MP3, False)
      else if f = AUDIO_FORMAT_AAC E then Some (SND_AUDIOCODEC_AAC, False)
      else if f = AUDIO_FORMAT_HE_AAC_V1 E then Some (SND_AUDIOCODEC_AAC, True)
      else if f = AUDIO_FORMAT_HE_AAC_V2 E then Some (SND_AUDIOCODEC_AAC, True)
      else if f = AUDIO_FORMAT_VORBIS E then Some (SND_AUDIOCODEC_VORBIS, False)
      else None)"

definition do_init_out_compress :: "hal_env \<Rightarrow> audio_config_t \<Rightarrow> stream_out \<Rightarrow> audio_device \<Rightarrow> (int \<times> stream_out \<times> audio_device) option" where
  "do_init_out_compress E cfg out ad =
     (case codec_of E (cfg_format cfg AND format_main_mask E) of
        None \<Rightarrow> Some (-EINVAL, out, ad)
      | Some (cid, he) \<Rightarrow>
          let cs = \<lparr>oc_compress = None, oc_codec = \<lparr>codec_id = cid, he_level = he, codec_rate = cfg_rate cfg, codec_channels = popcount (cfg_mask cfg)\<rparr>,
                    oc_started = False, oc_paused = False, encoder_delay = 0, encoder_padding = 0, refresh_gapless_meta = False\<rparr>
          in map_option (\<lambda>(ret, cs, out, ad). (ret, out\<lparr>o_kind := OutCompress cs\<rparr>, ad)) (open_output_compress E cs out ad))"

section \<open>Operations on output streams\<close>

definition do_init_out_common :: "hal_env \<Rightarrow> audio_config_t \<Rightarrow> u32 \<Rightarrow> nat \<Rightarrow> audio_device \<Rightarrow> (stream_out \<times> audio_device) option" where
  "do_init_out_common E cfg devs hw ad =
     map_option
       (Pair \<lparr>o_hw = hw, o_standby = True, o_format = cfg_format cfg, o_channel_mask = cfg_mask cfg, o_channel_count = popcount (cfg_mask cfg),
          o_sample_rate = cfg_rate cfg, o_frame_size = stream_frame_size E (cfg_format cfg) (cfg_mask cfg), o_buffer_size = 0, o_latency = 0,
          o_kind = OutPcm \<lparr>op_pcm = None, op_hw_sample_rate = 0, op_hw_channel_count = 0\<rparr>\<rparr>)
       (route E hw devs ad)"

text \<open>The streams of the configuration, and a stream that fails to initialise, which is freed but keeps its reference.\<close>

definition adev_open_output_stream :: "hal_env \<Rightarrow> u32 \<Rightarrow> audio_config_t \<Rightarrow> audio_device \<Rightarrow> (int \<times> audio_device) option" where
  "adev_open_output_stream E dmask cfg ad =
     (let devs = dmask AND AUDIO_DEVICE_OUT_ALL (he_masks E)
      in case cm_get (get_stream (he_masks E) (he_card E) devs (audio_is_linear_pcm E (cfg_format cfg))) ad of
           None \<Rightarrow> None
         | Some (None, ad) \<Rightarrow> Some (-EINVAL, ad)
         | Some (Some hw, ad) \<Rightarrow>
             (case do_init_out_common E cfg devs hw ad of
                None \<Rightarrow> None
              | Some (out, ad) \<Rightarrow>
                  if st_type (hw_info ad hw) = e_stream_out_pcm then
                    map_option (\<lambda>out. (0, ad\<lparr>outs := outs ad @ [Some out]\<rparr>)) (do_init_out_pcm (hw_info ad hw) out)
                  else
                    map_option (\<lambda>(ret, out, ad). if ret < 0 then (ret, ad) else (0, ad\<lparr>outs := outs ad @ [Some out]\<rparr>))
                      (do_init_out_compress E cfg out ad)))"

definition out_standby :: "hal_env \<Rightarrow> nat \<Rightarrow> stream_out \<Rightarrow> audio_device \<Rightarrow> (stream_out \<times> audio_device) option" where
  "out_standby E k out ad =
     (case o_kind out of
        OutPcm pcm \<Rightarrow> do_out_pcm_standby E pcm out ad
      | OutCompress cs \<Rightarrow> let (cs, ad) = do_standby_compress_l E cs ad in Some (out\<lparr>o_kind := OutCompress cs\<rparr>, ad))"

definition stream_standby :: "hal_env \<Rightarrow> nat \<Rightarrow> audio_device \<Rightarrow> audio_device option" where
  "stream_standby E k ad =
     (case get_out k ad of
        None \<Rightarrow> None
      | Some out \<Rightarrow> map_option (\<lambda>(out, ad). put_out k (Some out) ad) (out_standby E k out ad))"

definition unpause :: "stream_out \<Rightarrow> stream_out" where
  "unpause out = (case o_kind out of OutCompress cs \<Rightarrow> out\<lparr>o_kind := OutCompress (cs\<lparr>oc_paused := False\<rparr>)\<rparr> | OutPcm _ \<Rightarrow> out)"

definition adev_close_output_stream :: "hal_env \<Rightarrow> nat \<Rightarrow> audio_device \<Rightarrow> audio_device option" where
  "adev_close_output_stream E k ad =
     (case get_out k ad of
        None \<Rightarrow> None
      | Some out \<Rightarrow>
          (case out_standby E k (unpause out) ad of
             None \<Rightarrow> None
           | Some (out, ad) \<Rightarrow> map_option (put_out k None) (release E (Some (o_hw out)) ad)))"

definition out_write :: "hal_env \<Rightarrow> nat \<Rightarrow> u32 \<Rightarrow> audio_device \<Rightarrow> (int \<times> audio_device) option" where
  "out_write E k bytes ad =
     (case get_out k ad of
        None \<Rightarrow> None
      | Some out \<Rightarrow>
          (case o_kind out of OutPcm pcm \<Rightarrow> out_pcm_write E k pcm out bytes ad | OutCompress cs \<Rightarrow> out_compress_write E k cs out bytes ad))"

definition out_set_parameters :: "hal_env \<Rightarrow> stream_out \<Rightarrow> string \<Rightarrow> audio_device \<Rightarrow> audio_device option" where
  "out_set_parameters E out kv ad =
     do {
       ad \<leftarrow> (case common_get_routing_param E kv of None \<Rightarrow> Some ad | Some v \<Rightarrow> route E (o_hw out) v ad);
       map_option snd (stream_invoke_usecases E (Some (o_hw out)) kv ad)
     }"

definition stream_set_parameters :: "hal_env \<Rightarrow> nat \<Rightarrow> string \<Rightarrow> audio_device \<Rightarrow> audio_device option" where
  "stream_set_parameters E k kv ad =
     (case get_out k ad of
        None \<Rightarrow> None
      | Some out \<Rightarrow>
          (case o_kind out of
             OutPcm _ \<Rightarrow> out_set_parameters E out kv ad
           | OutCompress cs \<Rightarrow> out_set_parameters E out kv (put_compress k (compress_params E kv cs) out ad)))"

datatype compress_op = CPause | CResume | CDrain bool | CFlush

text \<open>The operations that only compressed streams offer.\<close>

definition out_compress_op :: "hal_env \<Rightarrow> nat \<Rightarrow> compress_op \<Rightarrow> audio_device \<Rightarrow> (int \<times> audio_device) option" where
  "out_compress_op E k op ad =
     (case get_out k ad of
        None \<Rightarrow> None
      | Some out \<Rightarrow>
          (case o_kind out of
             OutPcm _ \<Rightarrow> None
           | OutCompress cs \<Rightarrow>
               (case op of
                  CPause \<Rightarrow> Some (out_compress_pause E k cs out ad)
                | CResume \<Rightarrow> Some (out_compress_resume E k cs out ad)
                | CDrain early \<Rightarrow> out_compress_drain E k cs out early ad
                | CFlush \<Rightarrow> Some (0, out_compress_flush E k cs out ad))))"

section \<open>Input streams\<close>

definition IN_PERIOD_SIZE_DEFAULT :: u32 where "IN_PERIOD_SIZE_DEFAULT = 256"
definition IN_PERIOD_COUNT_DEFAULT :: u32 where "IN_PERIOD_COUNT_DEFAULT = 4"
definition IN_CHANNEL_COUNT_DEFAULT :: u32 where "IN_CHANNEL_COUNT_DEFAULT = 1"
definition IN_RATE_DEFAULT :: u32 where "IN_RATE_DEFAULT = 44100"
definition IN_COMPRESS_BUFFER_SIZE_DEFAULT :: u32 where "IN_COMPRESS_BUFFER_SIZE_DEFAULT = 1024"

definition in_pcm_cfg_period_count :: "hw_stream \<Rightarrow> u32" where
  "in_pcm_cfg_period_count hw = or_default (period_count hw) IN_PERIOD_COUNT_DEFAULT"

definition in_pcm_cfg_period_size :: "hw_stream \<Rightarrow> u32" where
  "in_pcm_cfg_period_size hw = or_default (period_size hw) IN_PERIOD_SIZE_DEFAULT"

definition in_pcm_cfg_rate :: "hw_stream \<Rightarrow> u32" where
  "in_pcm_cfg_rate hw = or_default (rate hw) IN_RATE_DEFAULT"

definition in_pcm_cfg_channel_count :: "stream_in \<Rightarrow> u32" where
  "in_pcm_cfg_channel_count inp = or_default (i_channel_count inp) IN_CHANNEL_COUNT_DEFAULT"

definition in_get_sample_rate :: "hw_stream \<Rightarrow> stream_in \<Rightarrow> u32" where
  "in_get_sample_rate hw inp = (if i_sample_rate inp \<noteq> 0 then i_sample_rate inp else rate hw)"

text \<open>The delay for the time of a read; only whether it is defined matters here.\<close>

definition do_in_realtime_delay :: "stream_in \<Rightarrow> u32 \<Rightarrow> u32 option" where
  "do_in_realtime_delay inp bytes =
     (if has_read inp then udiv (1907 * bytes) (i_frame_size inp * i_sample_rate inp) else Some 0)"

definition do_init_in_common :: "hal_env \<Rightarrow> audio_config_t \<Rightarrow> u32 \<Rightarrow> stream_in" where
  "do_init_in_common E cfg devs =
     \<lparr>i_hw = None, i_standby = True, i_devices = devs, i_format = cfg_format cfg, i_channel_mask = cfg_mask cfg,
      i_channel_count = popcount (cfg_mask cfg), i_sample_rate = cfg_rate cfg, i_frame_size = stream_frame_size E (cfg_format cfg) (cfg_mask cfg),
      i_buffer_size = 0, input_source = 0, has_read = False, i_handle = None,
      i_config = \<lparr>pc_channels = 0, pc_rate = 0, pc_period_size = 0, pc_period_count = 0\<rparr>,
      i_hw_sample_rate = 0, i_hw_channel_count = 0, i_period_size = 0, i_resampler = None\<rparr>"

definition do_init_in_pcm :: "stream_in \<Rightarrow> stream_in" where
  "do_init_in_pcm inp = inp\<lparr>i_buffer_size := IN_COMPRESS_BUFFER_SIZE_DEFAULT\<rparr>"

definition adev_open_input_stream :: "hal_env \<Rightarrow> u32 \<Rightarrow> audio_config_t \<Rightarrow> audio_device \<Rightarrow> int \<times> audio_device" where
  "adev_open_input_stream E dmask cfg ad =
     (let inp = do_init_in_pcm (do_init_in_common E cfg (dmask AND AUDIO_DEVICE_IN_ALL (he_masks E)))
      in (0, ad\<lparr>ins := ins ad @ [Some inp]\<rparr>))"

definition in_resampler_init :: "hal_env \<Rightarrow> stream_in \<Rightarrow> u32 \<Rightarrow> u32 \<Rightarrow> audio_device \<Rightarrow> (int \<times> stream_in \<times> audio_device) option" where
  "in_resampler_init E inp hw_rate channels ad =
     (if channels * i_frame_size inp = 0 then None
      else
        let h = new_handle ad; (a, ad) = lib E (ResamplerOpen hw_rate (i_sample_rate inp) (i_channel_count inp)) ad
        in if l_ret a < 0 then Some (l_ret a, inp, ad) else Some (l_ret a, inp\<lparr>i_resampler := Some h\<rparr>, ad))"

definition in_resampler_free :: "hal_env \<Rightarrow> stream_in \<Rightarrow> audio_device \<Rightarrow> stream_in \<times> audio_device" where
  "in_resampler_free E inp ad =
     (case i_resampler inp of
        None \<Rightarrow> (inp, ad)
      | Some h \<Rightarrow> (inp\<lparr>i_resampler := None\<rparr>, lib_call E (ResamplerRelease h) ad))"

definition in_pcm_fill_params :: "pcm_config \<Rightarrow> stream_in \<Rightarrow> stream_in option" where
  "in_pcm_fill_params c inp =
     do {
       q \<leftarrow> udiv (pc_period_size c * i_sample_rate inp) (pc_rate c);
       Some (inp\<lparr>i_hw_sample_rate := pc_rate c, i_hw_channel_count := pc_channels c, i_period_size := pc_period_size c,
               i_buffer_size := ((q + 15) div 16 * 16) * i_frame_size inp\<rparr>)
     }"

definition do_open_pcm_input :: "hal_env \<Rightarrow> stream_in \<Rightarrow> audio_device \<Rightarrow> (int \<times> stream_in \<times> audio_device) option" where
  "do_open_pcm_input E inp ad =
     (case i_hw inp of
        None \<Rightarrow> Some (-EINVAL, inp, ad)
      | Some i \<Rightarrow>
          let hw = hw_info ad i;
              c = \<lparr>pc_channels = in_pcm_cfg_channel_count inp, pc_rate = in_pcm_cfg_rate hw,
                   pc_period_size = in_pcm_cfg_period_size hw, pc_period_count = in_pcm_cfg_period_count hw\<rparr>;
              h = new_handle ad; (a, ad) = lib E (PcmOpen True (card_number hw) (device_number hw) c) ad
          in if \<not> l_ptr a then None
             else if \<not> l_ready a then Some (-ENOMEM, inp\<lparr>i_handle := None\<rparr>, lib_call E (PcmClose h) ad)
             else
               (case in_pcm_fill_params c (inp\<lparr>i_handle := Some h, i_config := c\<rparr>) of
                  None \<Rightarrow> None
                | Some inp \<Rightarrow>
                    if in_get_sample_rate hw inp = pc_rate c then Some (0, inp, ad)
                    else
                      (case in_resampler_init E inp (pc_rate c) (pc_channels c) ad of
                         None \<Rightarrow> None
                       | Some (ret, inp, ad) \<Rightarrow>
                           if ret < 0 then Some (ret, inp\<lparr>i_handle := None\<rparr>, lib_call E (PcmClose h) ad) else Some (0, inp, ad))))"

definition start_pcm_input_stream :: "hal_env \<Rightarrow> stream_in \<Rightarrow> audio_device \<Rightarrow> (int \<times> stream_in \<times> audio_device) option" where
  "start_pcm_input_stream E inp ad =
     (if i_standby inp then
        map_option (\<lambda>(ret, inp, ad). (ret, if ret = 0 then inp\<lparr>i_standby := False\<rparr> else inp, ad)) (do_open_pcm_input E inp ad)
      else Some (0, inp, ad))"

definition do_in_pcm_standby :: "hal_env \<Rightarrow> stream_in \<Rightarrow> audio_device \<Rightarrow> (stream_in \<times> audio_device) option" where
  "do_in_pcm_standby E inp ad =
     (if i_standby inp then
        let (inp, ad) = in_resampler_free E inp ad in Some (inp\<lparr>i_standby := True\<rparr>, ad)
      else
        case i_handle inp of
          None \<Rightarrow> None
        | Some h \<Rightarrow> let (inp, ad) = in_resampler_free E (inp\<lparr>i_handle := None\<rparr>) (lib_call E (PcmClose h) ad) in Some (inp\<lparr>i_standby := True\<rparr>, ad))"

text \<open>A read through the resampler is one call; the buffers it asks for in turn are not followed.\<close>

definition do_in_pcm_read :: "hal_env \<Rightarrow> stream_in \<Rightarrow> u32 \<Rightarrow> audio_device \<Rightarrow> (int \<times> stream_in \<times> audio_device) option" where
  "do_in_pcm_read E inp bytes ad =
     do {
       frames_rq \<leftarrow> udiv bytes (i_frame_size inp);
       (ret, inp, ad) \<leftarrow> start_pcm_input_stream E inp ad;
       if ret < 0 then Some (ret, inp, ad)
       else case i_handle inp of
              None \<Rightarrow> None
            | Some h \<Rightarrow>
                let (a, ad) = lib E (case i_resampler inp of Some r \<Rightarrow> Resample r frames_rq | None \<Rightarrow> PcmRead h (pcm_bytes_to_frames (i_config inp) bytes)) ad
                in Some (if l_ret a \<ge> 0 then sint bytes else l_ret a, inp, ad)
     }"

section \<open>Compressed input\<close>

text \<open>
  A device that cannot be opened gives the positive \<open>errno\<close>, which the caller takes for success and then
  uses the null handle; here that is undefined.
\<close>

definition do_open_compress_pcm_in :: "hal_env \<Rightarrow> nat \<Rightarrow> stream_in \<Rightarrow> audio_device \<Rightarrow> (stream_in \<times> audio_device) option" where
  "do_open_compress_pcm_in E i inp ad =
     (let hw = hw_info ad i; h = new_handle ad;
          (a, ad) = lib E (CompressOpen True (card_number hw) (device_number hw)
            \<lparr>codec_id = SND_AUDIOCODEC_PCM, he_level = False, codec_rate = i_sample_rate inp, codec_channels = i_channel_count inp\<rparr>) ad
      in if \<not> l_ptr a \<or> \<not> l_ready a then None
         else Some (inp\<lparr>i_handle := Some h, i_buffer_size := fragment_size a * fragments a * i_frame_size inp\<rparr>, lib_call E (CompressStart h) ad))"

definition start_compress_pcm_input_stream :: "hal_env \<Rightarrow> nat \<Rightarrow> stream_in \<Rightarrow> audio_device \<Rightarrow> (stream_in \<times> audio_device) option" where
  "start_compress_pcm_input_stream E i inp ad =
     (if i_standby inp then
        do {
          (inp, ad) \<leftarrow> do_open_compress_pcm_in E i inp ad;
          h \<leftarrow> i_handle inp;
          (if i_frame_size inp * i_sample_rate inp = 0 then None
           else
             let ms = sint (word_of_int (1000 * uint (i_buffer_size inp) div uint (i_frame_size inp * i_sample_rate inp)) :: u32)
             in Some (inp\<lparr>i_standby := False\<rparr>, lib_call E (CompressMaxPoll h (ms * 2)) ad))
        }
      else Some (inp, ad))"

definition do_in_compress_pcm_standby :: "hal_env \<Rightarrow> stream_in \<Rightarrow> audio_device \<Rightarrow> (stream_in \<times> audio_device) option" where
  "do_in_compress_pcm_standby E inp ad =
     (if i_standby inp then Some (inp, ad)
      else
        case i_handle inp of
          None \<Rightarrow> None
        | Some h \<Rightarrow> Some (inp\<lparr>i_handle := None, i_standby := True\<rparr>, lib_call E (CompressClose h) (lib_call E (CompressStop h) ad)))"

definition do_in_compress_pcm_read :: "hal_env \<Rightarrow> nat \<Rightarrow> stream_in \<Rightarrow> u32 \<Rightarrow> audio_device \<Rightarrow> (int \<times> stream_in \<times> audio_device) option" where
  "do_in_compress_pcm_read E i inp bytes ad =
     do {
       (inp, ad) \<leftarrow> start_compress_pcm_input_stream E i inp ad;
       h \<leftarrow> i_handle inp;
       (let (a, ad) = lib E (CompressRead h bytes) ad
        in if l_ret a > 0 then map_option (\<lambda>_. (l_ret a, inp, ad)) (do_in_realtime_delay inp (bytes div 4)) else Some (l_ret a, inp, ad))
     }"

text \<open>The handle is stopped and closed, and stays in the stream.\<close>

definition do_in_compress_pcm_close :: "hal_env \<Rightarrow> stream_in \<Rightarrow> audio_device \<Rightarrow> audio_device" where
  "do_in_compress_pcm_close E inp ad =
     (case i_handle inp of None \<Rightarrow> ad | Some h \<Rightarrow> lib_call E (CompressClose h) (lib_call E (CompressStop h) ad))"

section \<open>Operations on input streams\<close>

definition in_pcm_standby :: "hal_env \<Rightarrow> stream_in \<Rightarrow> audio_device \<Rightarrow> (stream_in \<times> audio_device) option" where
  "in_pcm_standby E inp ad =
     (case i_hw inp of
        None \<Rightarrow> Some (inp, ad)
      | Some i \<Rightarrow>
          if st_type (hw_info ad i) = e_stream_in_compress then do_in_compress_pcm_standby E inp ad else do_in_pcm_standby E inp ad)"

definition in_standby :: "hal_env \<Rightarrow> nat \<Rightarrow> audio_device \<Rightarrow> audio_device option" where
  "in_standby E k ad =
     (case get_in k ad of
        None \<Rightarrow> None
      | Some inp \<Rightarrow> map_option (\<lambda>(inp, ad). put_in k (Some inp) ad) (in_pcm_standby E inp ad))"

definition read_input :: "hal_env \<Rightarrow> stream_in \<Rightarrow> u32 \<Rightarrow> audio_device \<Rightarrow> (int \<times> stream_in \<times> audio_device) option" where
  "read_input E inp bytes ad =
     (case i_hw inp of
        None \<Rightarrow> Some (-EINVAL, inp, ad)
      | Some i \<Rightarrow>
          if get_current_routes (ad_cm ad) i = 0 then Some (-EINVAL, inp, ad)
          else if st_type (hw_info ad i) = e_stream_in_compress then do_in_compress_pcm_read E i inp bytes ad
          else do_in_pcm_read E inp bytes ad)"

text \<open>The result, with whether silence was delivered in place of what was captured.\<close>

definition in_pcm_read :: "hal_env \<Rightarrow> nat \<Rightarrow> u32 \<Rightarrow> audio_device \<Rightarrow> ((int \<times> bool) \<times> audio_device) option" where
  "in_pcm_read E k bytes ad =
     do {
       inp \<leftarrow> get_in k ad;
       (ret, inp, ad) \<leftarrow> read_input E inp bytes ad;
       (if ret \<le> 0 then
          map_option (\<lambda>_. ((sint bytes, True), put_in k (Some (inp\<lparr>has_read := True\<rparr>)) ad)) (do_in_realtime_delay inp bytes)
        else Some ((if mic_mute ad then sint bytes else ret, mic_mute ad), put_in k (Some (inp\<lparr>has_read := True\<rparr>)) ad))
     }"

definition do_close_in_common :: "hal_env \<Rightarrow> nat \<Rightarrow> stream_in \<Rightarrow> audio_device \<Rightarrow> audio_device option" where
  "do_close_in_common E k inp ad =
     do {
       (inp, ad) \<leftarrow> in_pcm_standby E inp ad;
       ad \<leftarrow> (if active_voice_control ad = Some k then voice_trigger_audio_ended_locked E (ad\<lparr>active_voice_control := None\<rparr>) else Some ad);
       ad \<leftarrow> release E (i_hw inp) ad;
       Some (put_in k None ad)
     }"

definition adev_close_input_stream :: "hal_env \<Rightarrow> nat \<Rightarrow> audio_device \<Rightarrow> audio_device option" where
  "adev_close_input_stream E k ad =
     (case get_in k ad of
        None \<Rightarrow> None
      | Some inp \<Rightarrow>
          let ad = (case i_hw inp of
                      Some i \<Rightarrow> if st_type (hw_info ad i) \<in> {e_stream_out_compress, e_stream_in_compress} then do_in_compress_pcm_close E inp ad else ad
                    | None \<Rightarrow> ad)
          in do_close_in_common E k inp ad)"

definition open_source :: "hal_env \<Rightarrow> stream_in \<Rightarrow> string option \<Rightarrow> u32 \<Rightarrow> audio_device \<Rightarrow> (nat option \<times> audio_device) option" where
  "open_source E inp name devs ad =
     do {
       (hw, ad) \<leftarrow> (case name of None \<Rightarrow> Some (None, ad) | Some n \<Rightarrow> get_named E n ad);
       (if hw \<noteq> None then Some (hw, ad)
        else cm_get (get_stream (he_masks E) (he_card E) devs (audio_is_linear_pcm E (i_format inp))) ad)
     }"

text \<open>The stream takes over the configured stream \<open>hw\<close>, and the voice control follows.\<close>

definition take_source :: "hal_env \<Rightarrow> nat \<Rightarrow> stream_in \<Rightarrow> nat \<Rightarrow> bool \<Rightarrow> int \<Rightarrow> audio_device \<Rightarrow> audio_device option" where
  "take_source E k inp hw voice_control source ad =
     do {
       ad \<leftarrow> release E (i_hw inp) ad;
       let ad = put_in k (Some (inp\<lparr>i_hw := Some hw, input_source := source\<rparr>)) ad;
       (if voice_control then Some (voice_trigger_audio_started_locked (ad\<lparr>active_voice_control := Some k\<rparr>))
        else if active_voice_control ad = Some k then voice_trigger_audio_ended_locked E (ad\<lparr>active_voice_control := None\<rparr>)
        else Some ad)
     }"

definition change_input_source_locked :: "hal_env \<Rightarrow> nat \<Rightarrow> stream_in \<Rightarrow> string \<Rightarrow> u32 \<Rightarrow> audio_device \<Rightarrow> (int \<times> audio_device) option" where
  "change_input_source_locked E k inp value devs ad =
     (let new_source = sint (word_of_int (atoi value) :: u32); voice_control = (new_source = source_voice_recognition E)
      in if \<not> i_standby inp then Some (-EINVAL, ad)
         else if input_source inp = new_source then Some (0, ad)
         else
           (case open_source E inp (if voice_control then voice_trigger_audio_stream_name ad else None) devs ad of
              None \<Rightarrow> None
            | Some (None, ad) \<Rightarrow> Some (-EINVAL, ad)
            | Some (Some hw, ad) \<Rightarrow> map_option (Pair 0) (take_source E k inp hw voice_control new_source ad)))"

definition route_input :: "hal_env \<Rightarrow> nat \<Rightarrow> u32 \<Rightarrow> audio_device \<Rightarrow> audio_device option" where
  "route_input E k devs ad =
     do {
       inp \<leftarrow> get_in k ad;
       let ad = put_in k (Some (inp\<lparr>i_devices := devs\<rparr>)) ad;
       (case i_hw inp of None \<Rightarrow> Some ad | Some i \<Rightarrow> route E i devs ad)
     }"

definition in_pcm_set_parameters :: "hal_env \<Rightarrow> nat \<Rightarrow> string \<Rightarrow> audio_device \<Rightarrow> audio_device option" where
  "in_pcm_set_parameters E k kv ad =
     do {
       inp \<leftarrow> get_in k ad;
       let routing = common_get_routing_param E kv;
       (ret, routing, ad) \<leftarrow>
         (case str_parm E kv (key_input_source E) of
            None \<Rightarrow> Some (0, routing, ad)
          | Some value \<Rightarrow>
              let devs = (case routing of Some v \<Rightarrow> v | None \<Rightarrow> (case i_hw inp of Some i \<Rightarrow> get_routed_devices (ad_cm ad) i | None \<Rightarrow> 0))
              in map_option (\<lambda>(ret, ad). (ret, Some devs, ad)) (change_input_source_locked E k inp value devs ad));
       (if ret < 0 then Some ad
        else do {
          ad \<leftarrow> (case routing of None \<Rightarrow> Some ad | Some devs \<Rightarrow> route_input E k devs ad);
          inp \<leftarrow> get_in k ad;
          map_option snd (stream_invoke_usecases E (i_hw inp) kv ad)
        })
     }"

section \<open>Device\<close>

definition adev_set_parameters :: "hal_env \<Rightarrow> string \<Rightarrow> audio_device \<Rightarrow> audio_device option" where
  "adev_set_parameters E kv ad =
     do {
       ad \<leftarrow> voice_trigger_set_params E kv ad;
       (case global_stream ad of None \<Rightarrow> Some ad | Some i \<Rightarrow> map_option snd (stream_invoke_usecases E (Some i) kv ad))
     }"

definition adev_set_mic_mute :: "bool \<Rightarrow> audio_device \<Rightarrow> audio_device" where
  "adev_set_mic_mute m ad = ad\<lparr>mic_mute := m\<rparr>"

definition adev_open :: "hal_env \<Rightarrow> string \<Rightarrow> (int \<times> audio_device option) option" where
  "adev_open E name =
     (if name \<noteq> he_interface E then Some (-EINVAL, None)
      else
        (case init_audio_config (he_config E) (he_card E) of
           None \<Rightarrow> None
         | Some None \<Rightarrow> Some (-EINVAL, None)
         | Some (Some cm) \<Rightarrow>
             map_option (\<lambda>(st, ad). (0, Some (voice_trigger_init (ad\<lparr>global_stream := st\<rparr>))))
               (get_named E ''global''
                 \<lparr>ad_cm = cm, mic_mute = False, active_voice_control = None, voice_st = eVoiceNone, voice_trig_mic = 0, global_stream = None,
                  voice_trig_stream = None, outs = [], ins = [], llog = []\<rparr>)))"

end
