(* ===== verification/AudioRoute.thy ===== *)
theory AudioRoute
  imports AudioConfig
begin

text \<open>
  Properties of the routing of audio streams: the controls of a configuration can always be applied, a
  byte array stays inside its control, and the use counts of the devices follow the streams.
\<close>

section \<open>Controls are applied safely\<close>

text \<open>A control is either still the text of the file, or opened with a value of the type of its mixer control.\<close>

definition ctl_ok :: "mixer \<Rightarrow> ctl \<Rightarrow> bool" where
  "ctl_ok m c =
     (case ctl_id c of
        None \<Rightarrow> (case ctl_value c of CtlString _ \<Rightarrow> True | _ \<Rightarrow> False)
      | Some i \<Rightarrow>
          i < length m \<and> ctl_type c = mc_type (m ! i) \<and>
          (case ctl_value c of
             CtlUint v \<Rightarrow> mc_type (m ! i) = MIXER_CTL_TYPE_BOOL \<or> mc_type (m ! i) = MIXER_CTL_TYPE_INT
           | CtlString v \<Rightarrow> mc_type (m ! i) = MIXER_CTL_TYPE_ENUM
           | CtlData bs \<Rightarrow>
               mc_type (m ! i) = MIXER_CTL_TYPE_BYTE \<and> mc_num_values (m ! i) \<le> BYTE_ARRAY_MAX_SIZE \<and>
               length bs = array_count c \<and> unat (ctl_index c) + array_count c \<le> mc_num_values (m ! i)))"

lemma ctl_by_name_less: "ctl_by_name m name = Some i \<Longrightarrow> i < length m \<and> mc_name (m ! i) = name"
  by (induction m name arbitrary: i rule: ctl_by_name.induct) (auto split: if_splits)

lemma parse_bytes_length: "parse_bytes ts = Inr bs \<Longrightarrow> length bs = length ts"
  by (induction ts arbitrary: bs) (auto split: sum.splits)

lemma errno_nonzero [simp]: "EINVAL \<noteq> 0" "ENOENT \<noteq> 0" "EIO \<noteq> 0" "ENOMEM \<noteq> 0" "EINVAL > 0" "ENOENT > 0" "EIO > 0" "ENOMEM > 0"
  by (simp_all add: errno_defs)

lemma string_to_uint_error: "string_to_uint (Some t) = Inl e \<Longrightarrow> e = -EINVAL"
  by (auto simp: string_to_uint_def split: option.splits prod.splits list.splits)

lemma parse_bytes_error: "parse_bytes ts = Inl e \<Longrightarrow> e = -EINVAL"
  by (induction ts) (auto split: sum.splits dest: string_to_uint_error)

lemma make_byte_array_effect:
  assumes "make_byte_array mc v c = (r, c')" "ctl_id c = None" "ctl_value c = CtlString s"
  shows "ctl_id c' = None \<and> (r \<noteq> 0 \<longrightarrow> ctl_value c' = CtlString s) \<and>
    (r = 0 \<longrightarrow> (\<exists>bs. ctl_value c' = CtlData bs \<and> length bs = array_count c' \<and> mc_num_values mc \<le> BYTE_ARRAY_MAX_SIZE \<and>
       unat (ctl_index c') + array_count c' \<le> mc_num_values mc))"
  using assms by (auto simp: make_byte_array_def Let_def split: if_splits sum.splits dest: parse_bytes_length parse_bytes_error)

lemma val_string_ok: "ctl_ok m c \<Longrightarrow> ctl_id c = None \<Longrightarrow> ctl_value c = CtlString (val_string c)"
  by (auto simp: ctl_ok_def val_string_def split: ctl_value.splits)

lemma open_byte_ok:
  assumes "ctl_ok m c" "ctl_id c = None" "i < length m" "mc_type (m ! i) = MIXER_CTL_TYPE_BYTE" "open_byte_ctl m i c = (r, c')"
  shows "ctl_ok m c' \<and> (r = 0 \<longrightarrow> ctl_id c' \<noteq> None)"
proof -
  define c0 where "c0 = (if ctl_index c = INVALID_CTL_INDEX then c\<lparr>ctl_index := 0\<rparr> else c)"
  obtain q c1 where q: "make_byte_array (m ! i) (val_string c0) c0 = (q, c1)" by fastforce
  have v: "ctl_value c0 = CtlString (val_string c)" and n: "ctl_id c0 = None"
    using val_string_ok [OF assms(1,2)] assms(2) by (auto simp: c0_def)
  show ?thesis using make_byte_array_effect [OF q n v] assms q
    by (auto simp: open_byte_ctl_def Let_def c0_def [symmetric] ctl_opened_def ctl_ok_def split: if_splits)
qed

lemma ctl_open_ok:
  assumes "ctl_ok m c" "ctl_open m c = (r, c')"
  shows "ctl_ok m c' \<and> (r = 0 \<longrightarrow> ctl_id c' \<noteq> None)"
proof (cases "ctl_id c \<noteq> None \<or> ctl_by_name m (ctl_name c) = None")
  case True
  then show ?thesis using assms by (auto simp: ctl_open_def split: if_splits)
next
  case False
  then obtain i where i: "ctl_by_name m (ctl_name c) = Some i" and n: "ctl_id c = None" by auto
  have len: "i < length m" using ctl_by_name_less [OF i] by simp
  have v: "ctl_value c = CtlString (val_string c)" using val_string_ok [OF assms(1) n] .
  show ?thesis
  proof (cases "mc_type (m ! i)")
    case MIXER_CTL_TYPE_BYTE
    then show ?thesis using open_byte_ok [OF assms(1) n len] assms(2) i n by (simp add: ctl_open_def)
  qed (use assms i n len v in \<open>auto simp: ctl_open_def open_int_ctl_def ctl_opened_def ctl_ok_def split: sum.splits\<close>)
qed

lemma apply_ctl_total:
  assumes "ctl_ok m c" "ctl_id c = Some i"
  shows "\<exists>h'. apply_ctl m K i c h = Some h'"
proof (cases "mc_type (m ! i) = MIXER_CTL_TYPE_BYTE")
  case True
  then obtain bs where bs: "ctl_value c = CtlData bs" "mc_num_values (m ! i) \<le> BYTE_ARRAY_MAX_SIZE" "length bs = array_count c"
      "unat (ctl_index c) + array_count c \<le> mc_num_values (m ! i)"
    using assms by (auto simp: ctl_ok_def split: ctl_value.splits)
  then show ?thesis using True by (auto simp: apply_ctl_def Let_def data_value_def split: prod.splits)
next
  case False
  then show ?thesis by (auto simp: apply_ctl_def Let_def)
qed

lemma apply_ctls_total:
  assumes "\<forall>c \<in> set cs. ctl_ok m c"
  shows "\<exists>cs' h'. apply_ctls_l m K cs h = Some (cs', h') \<and> (\<forall>c \<in> set cs'. ctl_ok m c)"
  using assms
proof (induction cs arbitrary: h)
  case (Cons c cs)
  obtain r c' where o: "ctl_open m c = (r, c')" by fastforce
  have ok: "ctl_ok m c'" and id: "r = 0 \<longrightarrow> ctl_id c' \<noteq> None" using ctl_open_ok [OF _ o] Cons.prems by auto
  show ?case
  proof (cases "r = 0")
    case True
    then obtain i where i: "ctl_id c' = Some i" using id by auto
    obtain h1 where h1: "apply_ctl m K i c' h = Some h1" using apply_ctl_total [OF ok i] by blast
    obtain cs' h2 where "apply_ctls_l m K cs h1 = Some (cs', h2)" "\<forall>c \<in> set cs'. ctl_ok m c" using Cons by fastforce
    then show ?thesis using o True i h1 ok by simp
  next
    case False
    then show ?thesis using o ok Cons.prems by simp
  qed
qed simp

section \<open>Devices\<close>

definition path_ok :: "mixer \<Rightarrow> path \<Rightarrow> bool" where
  "path_ok m p \<longleftrightarrow> (\<forall>c \<in> set (path_ctls p). ctl_ok m c)"

definition device_ok :: "mixer \<Rightarrow> device \<Rightarrow> bool" where
  "device_ok m d \<longleftrightarrow> (\<forall>p \<in> set (dev_paths d). path_ok m p)"

definition path_ids :: "device \<Rightarrow> int list" where
  "path_ids d = map path_id (dev_paths d)"

text \<open>What applying the paths does to the use count of a device: its on and off paths are counted.\<close>

definition step_of :: "int \<Rightarrow> int" where
  "step_of i = (if i = e_path_id_on then 1 else if i = e_path_id_off then -1 else 0)"

definition count_change :: "int \<Rightarrow> int \<Rightarrow> device \<Rightarrow> int" where
  "count_change a b d =
     (if a \<in> set (path_ids d) then step_of a else 0) + (if b \<noteq> a \<and> b \<in> set (path_ids d) then step_of b else 0)"

definition same_dev :: "device \<Rightarrow> device \<Rightarrow> bool" where
  "same_dev d d' \<longleftrightarrow> dev_type d' = dev_type d \<and> path_ids d' = path_ids d"

lemma apply_path_total:
  assumes "path_ok m p"
  shows "\<exists>p' h'. apply_path_l m K p h = Some (p', h') \<and> path_ok m p' \<and> path_id p' = path_id p"
proof -
  obtain cs h' where "apply_ctls_l m K (path_ctls p) h = Some (cs, h')" "\<forall>c \<in> set cs. ctl_ok m c"
    using apply_ctls_total [of "path_ctls p" m K h] assms by (auto simp: path_ok_def)
  then show ?thesis by (simp add: apply_path_l_def path_ok_def)
qed

lemma path_ids_update: "i < length (dev_paths d) \<Longrightarrow> path_id p = path_ids d ! i \<Longrightarrow> map path_id ((dev_paths d)[i := p]) = path_ids d"
  by (auto simp: path_ids_def map_update list_update_same_conv)

lemma apply_device_path_effect:
  assumes "device_ok m d" "i < length (dev_paths d)"
  shows "\<exists>d' h'. apply_device_path_l m K i d h = Some (d', h') \<and> device_ok m d' \<and> same_dev d d' \<and>
    use_count d' = use_count d + step_of (path_ids d ! i)"
proof -
  let ?p = "dev_paths d ! i"
  have pid: "path_ids d ! i = path_id ?p" using assms(2) by (simp add: path_ids_def)
  obtain p' h' where p': "apply_path_l m K ?p h = Some (p', h')" "path_ok m p'" "path_id p' = path_id ?p"
    using apply_path_total [of m ?p K h] assms by (auto simp: device_ok_def)
  have ids: "map path_id ((dev_paths d)[i := p']) = path_ids d" using path_ids_update [OF assms(2)] p' pid by simp
  have ok: "\<forall>q \<in> set ((dev_paths d)[i := p']). path_ok m q"
    using assms(1) p'(2) set_update_subset_insert [of "dev_paths d" i p'] by (auto simp: device_ok_def)
  show ?thesis using assms(1) p' pid ids ok
    by (auto simp: apply_device_path_l_def Let_def same_dev_def step_of_def device_ok_def path_ids_def e_path_id_on_def e_path_id_off_def)
qed

lemma find_paths_spec:
  assumes "find_paths a b (length pre) ps f0 f1 = (r0, r1)"
    "\<forall>i. f0 = Some i \<longrightarrow> i < length pre \<and> path_id (pre ! i) = a" "\<forall>i. f1 = Some i \<longrightarrow> i < length pre \<and> path_id (pre ! i) = b \<and> a \<noteq> b"
    "f0 = None \<longrightarrow> a \<notin> path_id ` set pre" "f1 = None \<longrightarrow> a \<noteq> b \<longrightarrow> b \<notin> path_id ` set pre" "f0 = None \<or> f1 = None" "f0 \<noteq> None \<longrightarrow> a \<noteq> b"
  shows "(case r0 of None \<Rightarrow> a \<notin> path_id ` set (pre @ ps) | Some i \<Rightarrow> i < length (pre @ ps) \<and> path_id ((pre @ ps) ! i) = a) \<and>
    (case r1 of None \<Rightarrow> a = b \<or> b \<notin> path_id ` set (pre @ ps) | Some i \<Rightarrow> a \<noteq> b \<and> i < length (pre @ ps) \<and> path_id ((pre @ ps) ! i) = b)"
  using assms
proof (induction ps arbitrary: pre f0 f1)
  case Nil
  then show ?case by (auto split: option.splits)
next
  case (Cons p ps)
  have IH: "find_paths a b (Suc (length pre)) ps g0 g1 = (r0, r1) \<Longrightarrow>
     \<forall>i. g0 = Some i \<longrightarrow> i < length (pre @ [p]) \<and> path_id ((pre @ [p]) ! i) = a \<Longrightarrow>
     \<forall>i. g1 = Some i \<longrightarrow> i < length (pre @ [p]) \<and> path_id ((pre @ [p]) ! i) = b \<and> a \<noteq> b \<Longrightarrow>
     g0 = None \<longrightarrow> a \<notin> path_id ` set (pre @ [p]) \<Longrightarrow> g1 = None \<longrightarrow> a \<noteq> b \<longrightarrow> b \<notin> path_id ` set (pre @ [p]) \<Longrightarrow>
     g0 = None \<or> g1 = None \<Longrightarrow> g0 \<noteq> None \<longrightarrow> a \<noteq> b \<Longrightarrow> ?case" for g0 g1
    by (rule Cons.IH [of "pre @ [p]" g0 g1, unfolded append_assoc append_Cons append_Nil]) simp_all
  show ?case
  proof (cases "path_id p = a")
    case True
    show ?thesis
    proof (cases "f1 \<noteq> None \<or> a = b")
      case t: True
      then show ?thesis using True Cons.prems by (auto split: option.splits simp: nth_append)
    next
      case False
      then show ?thesis using True Cons.prems by (intro IH [of "Some (length pre)" f1]) (auto simp: nth_append)
    qed
  next
    case na: False
    show ?thesis
    proof (cases "path_id p = b")
      case True
      show ?thesis
      proof (cases "f0 \<noteq> None")
        case t: True
        then show ?thesis using True na Cons.prems by (auto split: option.splits simp: nth_append)
      next
        case False
        then show ?thesis using True na Cons.prems by (intro IH [of f0 "Some (length pre)"]) (auto simp: nth_append)
      qed
    next
      case False
      then show ?thesis using na Cons.prems by (intro IH [of f0 f1]) (auto simp: nth_append)
    qed
  qed
qed

lemma same_dev_refl [simp]: "same_dev d d"
  by (simp add: same_dev_def)

lemma same_dev_trans: "same_dev a b \<Longrightarrow> same_dev b c \<Longrightarrow> same_dev a c"
  by (simp add: same_dev_def)

lemma apply_found_effect:
  assumes "device_ok m d" "\<forall>i. f = Some i \<longrightarrow> i < length (dev_paths d)"
  shows "\<exists>d' h'. apply_found m K f d h = Some (d', h') \<and> device_ok m d' \<and> same_dev d d' \<and>
    use_count d' = use_count d + (case f of None \<Rightarrow> 0 | Some i \<Rightarrow> step_of (path_ids d ! i))"
  using assms apply_device_path_effect [OF assms(1)] by (cases f) (auto simp: apply_found_def)

lemma same_device_length: "same_dev d d' \<Longrightarrow> length (dev_paths d') = length (dev_paths d)"
  by (metis length_map path_ids_def same_dev_def)

text \<open>Both paths are found wherever they stand, and each counts once.\<close>

lemma apply_paths_by_id_effect:
  assumes "device_ok m d"
  shows "\<exists>d' h'. apply_paths_by_id_l m K a b d h = Some (d', h') \<and> device_ok m d' \<and> same_dev d d' \<and>
    use_count d' = use_count d + count_change a b d"
proof -
  obtain f0 f1 where f: "find_paths a b 0 (dev_paths d) None None = (f0, f1)" by fastforce
  have spec: "case f0 of None \<Rightarrow> a \<notin> path_id ` set (dev_paths d) | Some i \<Rightarrow> i < length (dev_paths d) \<and> path_id (dev_paths d ! i) = a"
    "case f1 of None \<Rightarrow> a = b \<or> b \<notin> path_id ` set (dev_paths d) | Some i \<Rightarrow> a \<noteq> b \<and> i < length (dev_paths d) \<and> path_id (dev_paths d ! i) = b"
    using find_paths_spec [of a b "[]" "dev_paths d" None None f0 f1, unfolded append_Nil] f by simp_all
  have v0: "\<forall>i. f0 = Some i \<longrightarrow> i < length (dev_paths d)" and v1: "\<forall>i. f1 = Some i \<longrightarrow> i < length (dev_paths d)" using spec by auto
  obtain d1 h1 where d1: "apply_found m K f0 d h = Some (d1, h1)" "device_ok m d1" "same_dev d d1"
    "use_count d1 = use_count d + (case f0 of None \<Rightarrow> 0 | Some i \<Rightarrow> step_of (path_ids d ! i))" using apply_found_effect [OF assms v0] by blast
  obtain d2 h2 where d2: "apply_found m K f1 d1 h1 = Some (d2, h2)" "device_ok m d2" "same_dev d1 d2"
    "use_count d2 = use_count d1 + (case f1 of None \<Rightarrow> 0 | Some i \<Rightarrow> step_of (path_ids d1 ! i))"
    using apply_found_effect [OF d1(2)] v1 same_device_length [OF d1(3)] by metis
  have in_ids: "x \<in> set (path_ids d) \<longleftrightarrow> x \<in> path_id ` set (dev_paths d)" for x by (simp add: path_ids_def)
  have at: "i < length (dev_paths d) \<Longrightarrow> path_ids d ! i = path_id (dev_paths d ! i) \<and> path_ids d ! i \<in> set (path_ids d)" for i
    by (simp add: path_ids_def)
  have "(case f0 of None \<Rightarrow> 0 | Some i \<Rightarrow> step_of (path_ids d ! i)) = (if a \<in> set (path_ids d) then step_of a else 0)"
    using spec(1) at by (cases f0) (auto simp: in_ids)
  moreover have "(case f1 of None \<Rightarrow> 0 | Some i \<Rightarrow> step_of (path_ids d ! i)) = (if b \<noteq> a \<and> b \<in> set (path_ids d) then step_of b else 0)"
    using spec(2) at by (cases f1) (auto simp: in_ids)
  moreover have "path_ids d1 = path_ids d" using d1(3) by (simp add: same_dev_def)
  ultimately have "use_count d2 = use_count d + count_change a b d" using d1(4) d2(4) by (simp only: count_change_def add.assoc)
  moreover have "apply_paths_by_id_l m K a b d h = Some (d2, h2)" using f d1(1) d2(1) by (simp add: apply_paths_by_id_l_def)
  ultimately show ?thesis using d2(2) same_dev_trans [OF d1(3) d2(3)] by blast
qed

section \<open>Sets of devices\<close>

text \<open>The bits that are still to be served when the walk has passed some devices.\<close>

fun served :: "u32 \<Rightarrow> u32 \<Rightarrow> device list \<Rightarrow> u32" where
  "served f w [] = w"
| "served f w (d # ds) = served f (if dev_type d AND f = f then w AND NOT (dev_type d) else w) ds"

definition matches :: "u32 \<Rightarrow> u32 \<Rightarrow> device \<Rightarrow> bool" where
  "matches f w d \<longleftrightarrow> dev_type d AND f = f \<and> dev_type d AND w \<noteq> 0"

definition devices_ok :: "mixer \<Rightarrow> device list \<Rightarrow> bool" where
  "devices_ok m ds \<longleftrightarrow> (\<forall>d \<in> set ds. device_ok m d)"

text \<open>Every device keeps its type and its paths and counts what is applied to it.\<close>

definition counted :: "(nat \<Rightarrow> int) \<Rightarrow> device list \<Rightarrow> device list \<Rightarrow> bool" where
  "counted f ds ds' \<longleftrightarrow> length ds' = length ds \<and>
     (\<forall>j < length ds. same_dev (ds ! j) (ds' ! j) \<and> use_count (ds' ! j) = use_count (ds ! j) + f j)"

lemma counted_Cons:
  assumes "same_dev d d'" "use_count d' = use_count d + f 0" "counted (\<lambda>j. f (Suc j)) ds ds'"
  shows "counted f (d # ds) (d' # ds')"
  using assms by (auto simp: counted_def less_Suc_eq_0_disj)

lemma counted_refl: "(\<And>j. j < length ds \<Longrightarrow> f j = 0) \<Longrightarrow> counted f ds ds"
  by (simp add: counted_def)

lemma counted_trans: "counted f a b \<Longrightarrow> counted g b c \<Longrightarrow> counted (\<lambda>j. f j + g j) a c"
  by (auto simp: counted_def same_dev_def)

lemma counted_cong: "counted f a b \<Longrightarrow> (\<And>j. j < length a \<Longrightarrow> f j = g j) \<Longrightarrow> counted g a b"
  by (simp add: counted_def)

lemma served_0 [simp]: "served f 0 ds = 0"
  by (induction ds) auto

lemma bit_served: "bit (served f w ds) x \<longleftrightarrow> bit w x \<and> (\<forall>d \<in> set ds. dev_type d AND f = f \<longrightarrow> \<not> bit (dev_type d) x)"
proof (induction ds arbitrary: w)
  case (Cons d ds)
  have "x < 32" if "bit w x" using bit_imp_le_length [OF that] by simp
  then show ?case using Cons by (auto simp: bit_and_iff bit_not_iff)
qed simp

lemma served_skip: "\<not> matches f w d \<Longrightarrow> (if dev_type d AND f = f then w AND NOT (dev_type d) else w) = w"
proof -
  assume a: "\<not> matches f w d"
  have "w AND NOT (dev_type d) = w" if "dev_type d AND w = 0"
  proof (rule bit_word_eqI)
    fix n assume n: "n < LENGTH(32)"
    have "\<not> bit (dev_type d AND w) n" using that by simp
    then show "bit (w AND NOT (dev_type d)) n = bit w n" using n by (auto simp: bit_and_iff bit_not_iff)
  qed
  then show ?thesis using a by (auto simp: matches_def)
qed

lemma apply_to_devices_effect:
  assumes "devices_ok m ds"
  shows "\<exists>ds' h'. apply_to_devices m K f w a b ds h = Some (ds', h') \<and> devices_ok m ds' \<and>
    counted (\<lambda>j. if matches f (served f w (take j ds)) (ds ! j) then count_change a b (ds ! j) else 0) ds ds'"
  using assms
proof (induction ds arbitrary: w h)
  case Nil
  then show ?case by (auto simp: devices_ok_def counted_def)
next
  case (Cons d ds)
  have okd: "device_ok m d" and okds: "devices_ok m ds" using Cons.prems by (auto simp: devices_ok_def)
  let ?f = "\<lambda>w ds j. if matches f (served f w (take j ds)) (ds ! j) then count_change a b (ds ! j) else 0"
  show ?case
  proof (cases "w = 0")
    case True
    then show ?thesis using Cons.prems by (auto simp: matches_def intro!: counted_refl)
  next
    case w: False
    show ?thesis
    proof (cases "matches f w d")
      case True
      obtain d' h1 where d': "apply_paths_by_id_l m K a b d h = Some (d', h1)" "device_ok m d'" "same_dev d d'"
        "use_count d' = use_count d + count_change a b d" using apply_paths_by_id_effect [OF okd] by blast
      obtain ds' h2 where ds': "apply_to_devices m K f (w AND NOT (dev_type d)) a b ds h1 = Some (ds', h2)" "devices_ok m ds'"
        "counted (?f (w AND NOT (dev_type d)) ds) ds ds'" using Cons.IH [OF okds] by blast
      have "counted (?f w (d # ds)) (d # ds) (d' # ds')" using d' ds'(3) True by (intro counted_Cons) (auto simp: matches_def elim!: counted_cong)
      moreover have "devices_ok m (d' # ds')" using d'(2) ds'(2) by (simp add: devices_ok_def)
      moreover have "apply_to_devices m K f w a b (d # ds) h = Some (d' # ds', h2)" using True w d'(1) ds'(1) by (simp add: matches_def)
      ultimately show ?thesis by blast
    next
      case False
      obtain ds' h2 where ds': "apply_to_devices m K f w a b ds h = Some (ds', h2)" "devices_ok m ds'"
        "counted (?f w ds) ds ds'" using Cons.IH [OF okds] by blast
      have "counted (?f w (d # ds)) (d # ds) (d # ds')" using ds'(3) False
        by (intro counted_Cons) (auto simp: served_skip [OF False] elim!: counted_cong)
      moreover have "devices_ok m (d # ds')" using okd ds'(2) by (simp add: devices_ok_def)
      moreover have "apply_to_devices m K f w a b (d # ds) h = Some (d # ds', h2)" using False w ds'(1) by (auto simp: matches_def)
      ultimately show ?thesis by blast
    qed
  qed
qed

lemma apply_to_global_effect:
  assumes "devices_ok m ds"
  shows "\<exists>ds' h'. apply_paths_to_global_l m K a b ds h = Some (ds', h') \<and> devices_ok m ds' \<and>
    counted (\<lambda>j. if dev_type (ds ! j) = 0 \<and> (\<forall>i < j. dev_type (ds ! i) \<noteq> 0) then count_change a b (ds ! j) else 0) ds ds'"
  using assms
proof (induction ds arbitrary: h)
  case Nil
  then show ?case by (auto simp: devices_ok_def counted_def)
next
  case (Cons d ds)
  have okd: "device_ok m d" and okds: "devices_ok m ds" using Cons.prems by (auto simp: devices_ok_def)
  show ?case
  proof (cases "dev_type d = 0")
    case True
    obtain d' h1 where d': "apply_paths_by_id_l m K a b d h = Some (d', h1)" "device_ok m d'" "same_dev d d'"
      "use_count d' = use_count d + count_change a b d" using apply_paths_by_id_effect [OF okd] by blast
    then show ?thesis using True okds by (auto simp: devices_ok_def All_less_Suc2 intro!: counted_Cons counted_refl)
  next
    case False
    obtain ds' h2 where ds': "apply_paths_to_global_l m K a b ds h = Some (ds', h2)" "devices_ok m ds'"
      "counted (\<lambda>j. if dev_type (ds ! j) = 0 \<and> (\<forall>i < j. dev_type (ds ! i) \<noteq> 0) then count_change a b (ds ! j) else 0) ds ds'"
      using Cons.IH [OF okds] by blast
    have "counted (\<lambda>j. if dev_type ((d # ds) ! j) = 0 \<and> (\<forall>i < j. dev_type ((d # ds) ! i) \<noteq> 0) then count_change a b ((d # ds) ! j) else 0)
        (d # ds) (d # ds')"
      using ds'(3) False by (intro counted_Cons) (auto simp: All_less_Suc2 elim!: counted_cong)
    then show ?thesis using ds'(1,2) False okd by (simp add: devices_ok_def)
  qed
qed

end
