(* ===== verification/AudioCounts.thy ===== *)
theory AudioCounts
  imports AudioRoute
begin

text \<open>
  The use counts of the audio devices. When the device table is laid out so that masks are not
  ambiguous, the count of a device is at every moment the number of streams routed to it.
\<close>

section \<open>Masks\<close>

definition is_input_device :: "audio_masks \<Rightarrow> device \<Rightarrow> bool" where
  "is_input_device A d \<longleftrightarrow> dev_type d AND AUDIO_DEVICE_BIT_IN A \<noteq> 0"

definition low :: "audio_masks \<Rightarrow> u32 \<Rightarrow> u32" where
  "low A w = w AND NOT (AUDIO_DEVICE_BIT_IN A)"

definition top_bit :: u32 where "top_bit = push_bit 31 1"

definition one_bit :: "u32 \<Rightarrow> bool" where
  "one_bit w \<longleftrightarrow> (\<forall>x < 32. \<forall>y < x. \<not> (bit w x \<and> bit w y))"

text \<open>
  The input flag is the top bit. Two devices share a bit only when the first is an output and the
  second an input; each has one bit besides the flag; there is one global device at most.
\<close>

definition layout_ok :: "audio_masks \<Rightarrow> device list \<Rightarrow> bool" where
  "layout_ok A ds \<longleftrightarrow> AUDIO_DEVICE_BIT_IN A = top_bit \<and>
     (\<forall>k < length ds. \<forall>j < k.
        (low A (dev_type (ds ! j)) AND low A (dev_type (ds ! k)) = 0 \<or> (\<not> is_input_device A (ds ! j) \<and> is_input_device A (ds ! k))) \<and>
        \<not> (dev_type (ds ! j) = 0 \<and> dev_type (ds ! k) = 0)) \<and>
     (\<forall>d \<in> set ds. one_bit (low A (dev_type d)))"

fun output_types :: "audio_masks \<Rightarrow> device list \<Rightarrow> u32" where
  "output_types A [] = 0"
| "output_types A (d # ds) = (if is_input_device A d then 0 else dev_type d) OR output_types A ds"

lemma top_bit_value: "top_bit = 0x80000000"
  by (simp add: top_bit_def push_bit_eq_mult)

lemma top_bit_nonzero [simp]: "top_bit \<noteq> 0"
  by (simp add: top_bit_value)

lemma and_nonzero: "a AND b \<noteq> 0 \<longleftrightarrow> (\<exists>x. bit a x \<and> bit b x)" for a b :: u32
proof -
  have "a AND b = 0 \<longleftrightarrow> (\<forall>x. \<not> bit (a AND b) x)" by (metis bit_0_eq bit_word_eqI bot_apply bot_bool_def)
  then show ?thesis by (auto simp: bit_and_iff)
qed

lemma and_zero_sub: "w AND f = 0 \<Longrightarrow> (w AND v) AND f = 0" "w AND f = 0 \<Longrightarrow> (v AND w) AND f = 0" for w v f :: u32
  by (simp_all add: and.assoc and.left_commute [of w v f])

lemma bit_flag: "bit top_bit x \<longleftrightarrow> x = 31"
  by (simp only: top_bit_def bit_push_bit_iff bit_1_iff) auto

lemma bit_low: "AUDIO_DEVICE_BIT_IN A = top_bit \<Longrightarrow> bit (low A w) x \<longleftrightarrow> bit w x \<and> x \<noteq> 31"
  using bit_imp_le_length [of w x] by (auto simp: low_def bit_and_iff bit_not_iff bit_flag)

lemma input_device_bit: "AUDIO_DEVICE_BIT_IN A = top_bit \<Longrightarrow> is_input_device A d \<longleftrightarrow> bit (dev_type d) 31"
  by (auto simp: is_input_device_def and_nonzero bit_flag)

lemma flag_matches: "AUDIO_DEVICE_BIT_IN A = top_bit \<Longrightarrow> dev_type d AND top_bit = top_bit \<longleftrightarrow> is_input_device A d"
proof
  assume "AUDIO_DEVICE_BIT_IN A = top_bit" "dev_type d AND top_bit = top_bit"
  then show "is_input_device A d" by (metis bit_and_iff bit_flag input_device_bit)
next
  assume "AUDIO_DEVICE_BIT_IN A = top_bit" "is_input_device A d"
  then show "dev_type d AND top_bit = top_bit" by (auto simp: input_device_bit bit_eq_iff [of _ top_bit] bit_and_iff bit_flag)
qed

lemma bit_output_types: "bit (output_types A ds) x \<longleftrightarrow> (\<exists>d \<in> set ds. \<not> is_input_device A d \<and> bit (dev_type d) x)"
  by (induction ds) (auto simp: bit_or_iff)

text \<open>A mask that can be served without ambiguity: an input mask, or one of known outputs.\<close>

definition mask_ok :: "audio_masks \<Rightarrow> device list \<Rightarrow> u32 \<Rightarrow> bool" where
  "mask_ok A ds w \<longleftrightarrow> w AND AUDIO_DEVICE_BIT_IN A \<noteq> 0 \<or> w AND NOT (output_types A ds) = 0"

definition hits :: "audio_masks \<Rightarrow> u32 \<Rightarrow> device \<Rightarrow> bool" where
  "hits A w d \<longleftrightarrow> is_input_device A d = (w AND AUDIO_DEVICE_BIT_IN A \<noteq> 0) \<and> dev_type d AND low A w \<noteq> 0"

lemma mask_subset: "w AND NOT v = 0 \<Longrightarrow> bit w x \<Longrightarrow> bit v x" for w v :: u32
proof -
  assume a: "w AND NOT v = 0" "bit w x"
  have "\<not> bit (w AND NOT v) x" using a(1) by simp
  then show "bit v x" using a(2) bit_imp_le_length [OF a(2)] by (auto simp: bit_and_iff bit_not_iff)
qed

lemma apartD:
  assumes "layout_ok A ds" "j < length ds" "k < length ds" "j \<noteq> k" "bit (dev_type (ds ! j)) x" "bit (dev_type (ds ! k)) x" "x \<noteq> 31"
  shows "(j < k \<and> \<not> is_input_device A (ds ! j) \<and> is_input_device A (ds ! k)) \<or> (k < j \<and> \<not> is_input_device A (ds ! k) \<and> is_input_device A (ds ! j))"
proof -
  have b: "AUDIO_DEVICE_BIT_IN A = top_bit" using assms(1) by (simp add: layout_ok_def)
  have n: "low A (dev_type (ds ! j)) AND low A (dev_type (ds ! k)) \<noteq> 0" "low A (dev_type (ds ! k)) AND low A (dev_type (ds ! j)) \<noteq> 0"
    using assms(5-7) bit_low [OF b] by (auto simp: and_nonzero)
  show ?thesis using assms(1-4) n unfolding layout_ok_def by (metis linorder_neq_iff)
qed

lemma matches_eq:
  assumes lay: "layout_ok A ds" and ok: "mask_ok A ds w" and j: "j < length ds"
  shows "matches (w AND AUDIO_DEVICE_BIT_IN A) (served (w AND AUDIO_DEVICE_BIT_IN A) (low A w) (take j ds)) (ds ! j) \<longleftrightarrow> hits A w (ds ! j)"
proof -
  have b: "AUDIO_DEVICE_BIT_IN A = top_bit" using lay by (simp add: layout_ok_def)
  have earlier: "(\<forall>d \<in> set (take j ds). P d) \<longleftrightarrow> (\<forall>k < j. P (ds ! k))" for P
    using j by (metis (no_types, lifting) in_set_conv_nth length_take min.absorb4 nth_take)
  show ?thesis
  proof (cases "w AND AUDIO_DEVICE_BIT_IN A = 0")
    case True
    then have sub: "w AND NOT (output_types A ds) = 0" using ok by (simp add: mask_ok_def)
    have no31: "\<not> bit w 31" using True and_nonzero [of w "AUDIO_DEVICE_BIT_IN A"] by (auto simp: b bit_flag)
    have low: "bit (low A w) x \<longleftrightarrow> bit w x" for x using bit_low [OF b, of w x] no31 by auto
    have "matches 0 (served 0 (low A w) (take j ds)) (ds ! j) \<longleftrightarrow>
        (\<exists>x. bit (dev_type (ds ! j)) x \<and> bit w x \<and> (\<forall>k < j. \<not> bit (dev_type (ds ! k)) x))"
      by (auto simp: matches_def and_nonzero bit_served low earlier)
    also have "\<dots> \<longleftrightarrow> \<not> is_input_device A (ds ! j) \<and> (\<exists>x. bit (dev_type (ds ! j)) x \<and> bit w x)"
    proof safe
      fix x assume x: "bit (dev_type (ds ! j)) x" "bit w x" "\<forall>k < j. \<not> bit (dev_type (ds ! k)) x" and inp: "is_input_device A (ds ! j)"
      have "bit (output_types A ds) x" using mask_subset [OF sub x(2)] .
      then obtain k where k: "k < length ds" "\<not> is_input_device A (ds ! k)" "bit (dev_type (ds ! k)) x"
        unfolding bit_output_types by (metis in_set_conv_nth)
      have "x \<noteq> 31" using x(2) no31 by metis
      then show False using apartD [OF lay k(1) j _ k(3) x(1)] k x(3) inp by metis
    next
      fix x assume x: "bit (dev_type (ds ! j)) x" "bit w x" and out: "\<not> is_input_device A (ds ! j)"
      have "x \<noteq> 31" using x(2) no31 by metis
      then have "\<not> bit (dev_type (ds ! k)) x" if "k < j" for k
        using apartD [OF lay _ j _ _ x(1), of k] that out j by (metis less_trans not_less_iff_gr_or_eq)
      then show "\<exists>x. bit (dev_type (ds ! j)) x \<and> bit w x \<and> (\<forall>k < j. \<not> bit (dev_type (ds ! k)) x)" using x by blast
    qed auto
    finally show ?thesis using True by (auto simp: hits_def and_nonzero low)
  next
    case False
    have in31: "bit w 31" using False by (auto simp: and_nonzero b bit_flag)
    have f: "w AND AUDIO_DEVICE_BIT_IN A = top_bit" using in31 by (auto simp: b bit_eq_iff [of _ top_bit] bit_and_iff bit_flag)
    have "matches top_bit (served top_bit (low A w) (take j ds)) (ds ! j) \<longleftrightarrow>
        is_input_device A (ds ! j) \<and> (\<exists>x. bit (dev_type (ds ! j)) x \<and> bit (low A w) x \<and> (\<forall>k < j. is_input_device A (ds ! k) \<longrightarrow> \<not> bit (dev_type (ds ! k)) x))"
      by (auto simp: matches_def and_nonzero bit_served earlier flag_matches [OF b])
    also have "\<dots> \<longleftrightarrow> is_input_device A (ds ! j) \<and> (\<exists>x. bit (dev_type (ds ! j)) x \<and> bit (low A w) x)"
    proof safe
      fix x assume inp: "is_input_device A (ds ! j)" and x: "bit (dev_type (ds ! j)) x" "bit (low A w) x"
      have "x \<noteq> 31" using x(2) bit_low [OF b] by metis
      then have "is_input_device A (ds ! k) \<longrightarrow> \<not> bit (dev_type (ds ! k)) x" if "k < j" for k
        using apartD [OF lay _ j _ _ x(1), of k] that inp j by (metis less_trans not_less_iff_gr_or_eq)
      then show "\<exists>x. bit (dev_type (ds ! j)) x \<and> bit (low A w) x \<and> (\<forall>k < j. is_input_device A (ds ! k) \<longrightarrow> \<not> bit (dev_type (ds ! k)) x)" using x by blast
    qed auto
    finally show ?thesis using f by (auto simp: hits_def and_nonzero)
  qed
qed

lemma apply_devices_counts:
  assumes "layout_ok A ds" "devices_ok m ds" "mask_ok A ds w"
  shows "\<exists>ds' h'. apply_paths_to_devices_l A m K w a b ds h = Some (ds', h') \<and> devices_ok m ds' \<and>
    counted (\<lambda>j. if hits A w (ds ! j) then count_change a b (ds ! j) else 0) ds ds'"
proof -
  obtain ds' h' where r: "apply_to_devices m K (w AND AUDIO_DEVICE_BIT_IN A) (low A w) a b ds h = Some (ds', h')" "devices_ok m ds'"
    "counted (\<lambda>j. if matches (w AND AUDIO_DEVICE_BIT_IN A) (served (w AND AUDIO_DEVICE_BIT_IN A) (low A w) (take j ds)) (ds ! j)
       then count_change a b (ds ! j) else 0) ds ds'"
    using apply_to_devices_effect [OF assms(2)] by blast
  show ?thesis using r(1,2) counted_cong [OF r(3)] matches_eq [OF assms(1,3)] by (simp add: apply_paths_to_devices_l_def low_def)
qed

lemma global_counts:
  assumes "layout_ok A ds" "devices_ok m ds"
  shows "\<exists>ds' h'. apply_paths_to_global_l m K a b ds h = Some (ds', h') \<and> devices_ok m ds' \<and>
    counted (\<lambda>j. if dev_type (ds ! j) = 0 then count_change a b (ds ! j) else 0) ds ds'"
proof -
  obtain ds' h' where r: "apply_paths_to_global_l m K a b ds h = Some (ds', h')" "devices_ok m ds'"
    "counted (\<lambda>j. if dev_type (ds ! j) = 0 \<and> (\<forall>i < j. dev_type (ds ! i) \<noteq> 0) then count_change a b (ds ! j) else 0) ds ds'"
    using apply_to_global_effect [OF assms(2)] by blast
  have "dev_type (ds ! j) = 0 \<Longrightarrow> j < length ds \<Longrightarrow> i < j \<Longrightarrow> dev_type (ds ! i) \<noteq> 0" for i j
    using assms(1) by (auto simp: layout_ok_def)
  then show ?thesis using r(1,2) counted_cong [OF r(3)] by auto
qed

section \<open>Streams and counts\<close>

definition uses :: "audio_masks \<Rightarrow> stream \<Rightarrow> device \<Rightarrow> bool" where
  "uses A s d \<longleftrightarrow>
     (if dev_type d = 0 then ref_count s > 0
      else stream_is_input (info s) = is_input_device A d \<and> dev_type d AND low A (current_devices s) \<noteq> 0)"

definition users :: "audio_masks \<Rightarrow> stream list \<Rightarrow> device \<Rightarrow> int" where
  "users A ss d = (\<Sum>s\<leftarrow>ss. if uses A s d then 1 else 0)"

text \<open>The devices of a stream are of its direction and known; a closed stream has none.\<close>

definition stream_ok :: "audio_masks \<Rightarrow> device list \<Rightarrow> stream \<Rightarrow> bool" where
  "stream_ok A ds s \<longleftrightarrow> enable_path s \<noteq> e_path_id_off \<and> disable_path s \<noteq> e_path_id_on \<and>
     0 \<le> ref_count s \<and> ref_count s \<le> max 0 (max_ref_count s) \<and> (ref_count s = 0 \<longrightarrow> current_devices s = 0) \<and>
     mask_ok A ds (current_devices s) \<and>
     (current_devices s \<noteq> 0 \<longrightarrow> (current_devices s AND AUDIO_DEVICE_BIT_IN A \<noteq> 0) = stream_is_input (info s))"

definition switchable :: "device \<Rightarrow> bool" where
  "switchable d \<longleftrightarrow> e_path_id_on \<in> set (path_ids d) \<and> e_path_id_off \<in> set (path_ids d)"

definition usecases_ok :: "mixer \<Rightarrow> stream \<Rightarrow> bool" where
  "usecases_ok m s \<longleftrightarrow> (\<forall>u \<in> set (usecases s). \<forall>c \<in> set (uc_cases u). \<forall>x \<in> set (case_ctls c). ctl_ok m x)"

definition audio_inv :: "audio_masks \<Rightarrow> config_mgr \<Rightarrow> bool" where
  "audio_inv A cm \<longleftrightarrow> layout_ok A (devices cm) \<and> devices_ok (cm_mixer cm) (devices cm) \<and>
     (\<forall>s \<in> set (streams cm). stream_ok A (devices cm) s \<and> usecases_ok (cm_mixer cm) s) \<and>
     (\<forall>d \<in> set (devices cm). switchable d \<longrightarrow> use_count d = users A (streams cm) d)"

lemma users_update:
  "i < length ss \<Longrightarrow> users A (ss[i := s]) d = users A ss d + ((if uses A s d then 1 else 0) - (if uses A (ss ! i) d then 1 else 0))"
  by (induction ss arbitrary: i) (auto simp: users_def nth_Cons split: nat.splits)

lemma same_type_uses: "dev_type d' = dev_type d \<Longrightarrow> uses A s d' = uses A s d"
  by (simp add: uses_def is_input_device_def)

lemma same_type_users: "dev_type d' = dev_type d \<Longrightarrow> users A ss d' = users A ss d"
proof -
  assume "dev_type d' = dev_type d"
  then have "uses A s d' = uses A s d" for s by (rule same_type_uses)
  then show ?thesis by (simp add: users_def)
qed

lemma counted_types: "counted f ds ds' \<Longrightarrow> map dev_type ds' = map dev_type ds"
  by (auto simp: counted_def same_dev_def intro!: nth_equalityI)

lemma output_types_cong: "map dev_type ds' = map dev_type ds \<Longrightarrow> output_types A ds' = output_types A ds"
proof (induction ds arbitrary: ds')
  case (Cons d ds)
  then obtain e es where "ds' = e # es" "dev_type e = dev_type d" "map dev_type es = map dev_type ds" by auto
  then show ?case using Cons.IH [of es] by (simp add: is_input_device_def)
qed simp

lemma mask_ok_counted: "counted f ds ds' \<Longrightarrow> mask_ok A ds' w = mask_ok A ds w"
proof -
  assume "counted f ds ds'"
  then have "output_types A ds' = output_types A ds" by (intro output_types_cong counted_types)
  then show ?thesis by (simp add: mask_ok_def)
qed

lemma stream_ok_counted: "counted f ds ds' \<Longrightarrow> stream_ok A ds' s = stream_ok A ds s"
  unfolding stream_ok_def by (simp only: mask_ok_counted [of f ds ds'])

lemma layout_counted: "counted f ds ds' \<Longrightarrow> layout_ok A ds' = layout_ok A ds"
proof -
  assume c: "counted f ds ds'"
  have t: "dev_type (ds' ! j) = dev_type (ds ! j)" if "j < length ds" for j using c that by (simp add: counted_def same_dev_def)
  have n: "length ds' = length ds" using c by (simp add: counted_def)
  have i: "is_input_device A (ds' ! j) = is_input_device A (ds ! j)" if "j < length ds" for j using t [OF that] by (simp add: is_input_device_def)
  have "dev_type ` set ds' = dev_type ` set ds" using counted_types [OF c] by (metis list.set_map)
  then have "(\<forall>t \<in> dev_type ` set ds'. P t) = (\<forall>t \<in> dev_type ` set ds. P t)" for P by (rule arg_cong)
  then have all: "(\<forall>d \<in> set ds'. P (dev_type d)) = (\<forall>d \<in> set ds. P (dev_type d))" for P by simp
  then show ?thesis using t i n all [of "\<lambda>t. one_bit (low A t)"] by (simp add: layout_ok_def)
qed

text \<open>
  The invariant after a change of one stream and of the counts: every switchable device must have
  counted the change.
\<close>

lemma audio_inv_update:
  assumes inv: "audio_inv A cm" and i: "i < length (streams cm)" and c: "counted f (devices cm) ds'"
    and ok: "devices_ok (cm_mixer cm) ds'" "stream_ok A (devices cm) s" "usecases_ok (cm_mixer cm) s"
    and f: "\<And>j. j < length (devices cm) \<Longrightarrow> switchable (devices cm ! j) \<Longrightarrow>
      f j = (if uses A s (devices cm ! j) then 1 else 0) - (if uses A (streams cm ! i) (devices cm ! j) then 1 else 0)"
    and cm': "devices cm' = ds'" "streams cm' = (streams cm)[i := s]" "cm_mixer cm' = cm_mixer cm"
  shows "audio_inv A cm'"
proof -
  have "use_count d = users A (streams cm') d" if din: "d \<in> set ds'" and dsw: "switchable d" for d
  proof -
    obtain j where j: "j < length ds'" "d = ds' ! j" using din by (auto simp: in_set_conv_nth)
    have jl: "j < length (devices cm)" and same: "same_dev (devices cm ! j) d"
      and u: "use_count d = use_count (devices cm ! j) + f j" using c j by (auto simp: counted_def)
    have sw: "switchable (devices cm ! j)" using dsw same by (simp add: switchable_def same_dev_def)
    have "use_count (devices cm ! j) = users A (streams cm) (devices cm ! j)" using inv jl sw by (simp add: audio_inv_def)
    then show ?thesis using u f [OF jl sw] users_update [OF i, of A s "devices cm ! j"] same_type_users [of d "devices cm ! j" A] same cm'(2)
      by (simp add: same_dev_def)
  qed
  moreover have "stream_ok A ds' t \<and> usecases_ok (cm_mixer cm) t" if "t \<in> set (streams cm')" for t
  proof -
    have "t = s \<or> t \<in> set (streams cm)" using that set_update_subset_insert [of "streams cm" i s] cm'(2) by auto
    moreover have "\<forall>t \<in> set (streams cm). stream_ok A (devices cm) t \<and> usecases_ok (cm_mixer cm) t" using inv by (simp add: audio_inv_def)
    ultimately show ?thesis using ok(2,3) stream_ok_counted [OF c, of A t] by blast
  qed
  ultimately show ?thesis using inv ok(1) layout_counted [OF c, of A] cm' by (simp add: audio_inv_def)
qed

section \<open>Operations\<close>

lemma change_on: "switchable d \<Longrightarrow> x \<noteq> e_path_id_off \<Longrightarrow> count_change e_path_id_on x d = 1"
  by (auto simp: count_change_def switchable_def step_of_def)

lemma change_off:
  "switchable d \<Longrightarrow> x \<noteq> e_path_id_on \<Longrightarrow> count_change e_path_id_off x d = -1"
  "switchable d \<Longrightarrow> x \<noteq> e_path_id_on \<Longrightarrow> count_change x e_path_id_off d = -1"
  by (auto simp: count_change_def switchable_def step_of_def e_path_id_on_def e_path_id_off_def)

lemma audio_invD:
  assumes "audio_inv A cm"
  shows "layout_ok A (devices cm)" "devices_ok (cm_mixer cm) (devices cm)"
    "i < length (streams cm) \<Longrightarrow> stream_ok A (devices cm) (streams cm ! i) \<and> usecases_ok (cm_mixer cm) (streams cm ! i)"
  using assms by (auto simp: audio_inv_def)

lemma set_stream_sel [simp]:
  "devices (set_stream i s cm) = devices cm" "streams (set_stream i s cm) = (streams cm)[i := s]" "cm_mixer (set_stream i s cm) = cm_mixer cm"
  "mlog (set_stream i s cm) = mlog cm"
  by (simp_all add: set_stream_def)

lemma hits_uses:
  assumes "stream_ok A ds s" "dev_type d \<noteq> 0"
  shows "hits A (current_devices s) d = uses A s d"
proof (cases "current_devices s = 0")
  case True
  then show ?thesis using assms(2) by (simp add: hits_def uses_def low_def)
next
  case False
  then show ?thesis using assms by (auto simp: hits_def uses_def stream_ok_def)
qed

lemma hits_zero: "dev_type d = 0 \<Longrightarrow> \<not> hits A w d"
  by (simp add: hits_def)

lemma open_stream_inv:
  assumes inv: "audio_inv A cm" and i: "i < length (streams cm)"
  shows "\<exists>b cm'. open_stream_l K i cm = Some (b, cm') \<and> audio_inv A cm' \<and> length (streams cm') = length (streams cm)"
proof (cases "ref_count (streams cm ! i) < max_ref_count (streams cm ! i)")
  case False
  then have "open_stream_l K i cm = Some (False, cm)" by (simp add: open_stream_l_def)
  then show ?thesis using inv by blast
next
  case lt: True
  let ?s = "streams cm ! i"
  let ?s' = "?s\<lparr>ref_count := ref_count ?s + 1\<rparr>"
  have sok: "stream_ok A (devices cm) ?s" "usecases_ok (cm_mixer cm) ?s" using audio_invD(3) [OF inv i] by auto
  have sok': "stream_ok A (devices cm) ?s'" "usecases_ok (cm_mixer cm) ?s'" using sok lt by (auto simp: stream_ok_def usecases_ok_def)
  have uses_eq: "uses A ?s' d = uses A ?s d" if "dev_type d \<noteq> 0 \<or> ref_count ?s > 0" for d
    using that sok(1) by (auto simp: uses_def stream_ok_def)
  show ?thesis
  proof (cases "ref_count ?s = 0")
    case True
    obtain ds' h where g: "apply_paths_to_global_l (cm_mixer cm) K e_path_id_on (enable_path ?s) (devices cm) (mlog cm) = Some (ds', h)"
      "devices_ok (cm_mixer cm) ds'"
      "counted (\<lambda>j. if dev_type (devices cm ! j) = 0 then count_change e_path_id_on (enable_path ?s) (devices cm ! j) else 0) (devices cm) ds'"
      using global_counts [OF audio_invD(1,2) [OF inv]] by blast
    let ?cm = "(set_stream i ?s' cm)\<lparr>devices := ds', mlog := h\<rparr>"
    have "audio_inv A ?cm"
      using sok' g(2,3) True uses_eq sok
      by (intro audio_inv_update [OF inv i g(3) g(2) sok'])
         (auto simp: change_on stream_ok_def uses_def)
    moreover have "open_stream_l K i cm = Some (True, ?cm)" using lt g(1) True by (simp add: open_stream_l_def Let_def on_devices_def)
    moreover have "length (streams ?cm) = length (streams cm)" by simp
    ultimately show ?thesis by blast
  next
    case False
    then have "ref_count ?s > 0" using sok(1) by (simp add: stream_ok_def)
    then have "audio_inv A (set_stream i ?s' cm)"
      using sok' uses_eq audio_invD(2) [OF inv]
      by (intro audio_inv_update [OF inv i counted_refl [of _ "\<lambda>_. 0"] _ sok']) auto
    moreover have "open_stream_l K i cm = Some (True, set_stream i ?s' cm)" using lt False by (simp add: open_stream_l_def Let_def)
    moreover have "length (streams (set_stream i ?s' cm)) = length (streams cm)" by simp
    ultimately show ?thesis by blast
  qed
qed

lemma try_streams_inv:
  assumes "audio_inv A cm" "n \<le> length (streams cm)"
  shows "\<exists>r cm'. try_streams K ty n cm = Some (r, cm') \<and> audio_inv A cm' \<and> length (streams cm') = length (streams cm)"
  using assms
proof (induction n arbitrary: cm)
  case (Suc n)
  show ?case
  proof (cases "st_type (info (streams cm ! n)) = ty")
    case True
    obtain b cm' where o: "open_stream_l K n cm = Some (b, cm')" "audio_inv A cm'" "length (streams cm') = length (streams cm)"
      using open_stream_inv [OF Suc.prems(1), of n K] Suc.prems(2) by auto
    then show ?thesis using True Suc.IH [OF o(2)] Suc.prems(2) by (cases b) auto
  next
    case False
    then show ?thesis using Suc.IH [OF Suc.prems(1)] Suc.prems(2) by auto
  qed
qed simp

lemma find_named_less: "find_named name k ss = Some i \<Longrightarrow> k \<le> i \<and> i < k + length ss \<and> s_name (ss ! (i - k)) = Some name"
  by (induction name k ss rule: find_named.induct) (auto split: if_splits simp: nth_Cons' Suc_diff_le)

lemma get_named_stream_inv:
  assumes "audio_inv A cm"
  shows "\<exists>r cm'. get_named_stream K name cm = Some (r, cm') \<and> audio_inv A cm' \<and> length (streams cm') = length (streams cm)"
proof (cases "find_named_stream cm name")
  case None
  then show ?thesis using assms by (simp add: get_named_stream_def)
next
  case (Some i)
  then have "i < length (streams cm)" using find_named_less [of name 0 "streams cm" i] by (simp add: find_named_stream_def)
  then obtain b cm' where "open_stream_l K i cm = Some (b, cm')" "audio_inv A cm'" "length (streams cm') = length (streams cm)"
    using open_stream_inv [OF assms, of i K] by blast
  then show ?thesis using Some by (simp add: get_named_stream_def)
qed

text \<open>
  A route that is served as meant: of the direction of the stream, known to the device table and to
  the platform's masks; an input stream is taken off its devices before it gets others.
\<close>

definition safe_route :: "audio_masks \<Rightarrow> config_mgr \<Rightarrow> nat \<Rightarrow> u32 \<Rightarrow> bool" where
  "safe_route A cm i devs \<longleftrightarrow>
     (let s = streams cm ! i
      in devs = 0 \<or>
         (if stream_is_input (info s)
          then current_devices s = 0 \<and> devs AND AUDIO_DEVICE_BIT_IN A \<noteq> 0 \<and> devs AND AUDIO_DEVICE_IN_ALL A OR AUDIO_DEVICE_BIT_IN A = devs
          else devs AND AUDIO_DEVICE_BIT_IN A = 0 \<and> devs AND AUDIO_DEVICE_OUT_ALL A = devs \<and> devs AND NOT (output_types A (devices cm)) = 0))"

lemma one_bit_unique: "one_bit w \<Longrightarrow> bit w x \<Longrightarrow> bit w y \<Longrightarrow> x = y"
proof -
  assume w: "one_bit w" "bit w x" "bit w y"
  have "x < 32" "y < 32" using bit_imp_le_length [OF w(2)] bit_imp_le_length [OF w(3)] by simp_all
  then show "x = y" using w unfolding one_bit_def by (metis linorder_neq_iff)
qed

text \<open>A device with one bit is hit by a mask of outputs when the mask has the bit.\<close>

lemma output_bit:
  assumes "layout_ok A ds" "d \<in> set ds" "\<not> is_input_device A d" "dev_type d \<noteq> 0"
  shows "\<exists>x. x \<noteq> 31 \<and> (\<forall>w. (dev_type d AND low A w \<noteq> 0) = bit w x)"
proof -
  have b: "AUDIO_DEVICE_BIT_IN A = top_bit" and one: "one_bit (low A (dev_type d))" using assms(1,2) by (auto simp: layout_ok_def)
  have no31: "\<not> bit (dev_type d) 31" using assms(3) input_device_bit [OF b] by blast
  obtain x where x: "bit (dev_type d) x" using assms(4) and_nonzero [of "dev_type d" "dev_type d"] by auto
  have "bit (low A (dev_type d)) y = bit (dev_type d) y" for y using bit_low [OF b] no31 by metis
  then have "bit (dev_type d) y = (y = x)" for y using one_bit_unique [OF one] x by metis
  then have "(dev_type d AND low A w \<noteq> 0) = bit w x" for w using bit_low [OF b] no31 x by (auto simp: and_nonzero)
  moreover have "x \<noteq> 31" using x no31 by metis
  ultimately show ?thesis by blast
qed

definition delta :: "bool \<Rightarrow> bool \<Rightarrow> int" where
  "delta a b = (if a then 1 else 0) - (if b then 1 else 0)"

lemma route_delta:
  assumes inv: "audio_inv A cm" and i: "i < length (streams cm)" and ok: "safe_route A cm i devs" and d: "d \<in> set (devices cm)"
  defines "s \<equiv> streams cm ! i"
  shows "delta (hits A (devs AND NOT (current_devices s)) d) (hits A (NOT devs AND current_devices s) d) =
    delta (uses A (s\<lparr>current_devices := devs\<rparr>) d) (uses A s d)"
proof -
  have sok: "stream_ok A (devices cm) s" using audio_invD(3) [OF inv i] by (simp add: s_def)
  have lay: "layout_ok A (devices cm)" using audio_invD(1) [OF inv] .
  consider (zero) "dev_type d = 0" | (clear) "dev_type d \<noteq> 0" "devs = 0" | (inp) "dev_type d \<noteq> 0" "devs \<noteq> 0" "stream_is_input (info s)"
    | (out) "dev_type d \<noteq> 0" "devs \<noteq> 0" "\<not> stream_is_input (info s)" by blast
  then show ?thesis
  proof cases
    case zero
    then show ?thesis by (simp add: hits_zero uses_def delta_def)
  next
    case clear
    then show ?thesis using hits_uses [OF sok, of d] by (simp add: delta_def hits_def uses_def low_def)
  next
    case inp
    then have cur: "current_devices s = 0" and "devs AND AUDIO_DEVICE_BIT_IN A \<noteq> 0" using ok by (auto simp: safe_route_def s_def)
    then show ?thesis using inp by (simp add: delta_def hits_def uses_def low_def)
  next
    case out
    have new: "devs AND AUDIO_DEVICE_BIT_IN A = 0" using ok out by (auto simp: safe_route_def s_def Let_def)
    have old: "current_devices s AND AUDIO_DEVICE_BIT_IN A = 0" using sok out by (auto simp: stream_ok_def)
    have flags: "(devs AND NOT (current_devices s)) AND AUDIO_DEVICE_BIT_IN A = 0" "(NOT devs AND current_devices s) AND AUDIO_DEVICE_BIT_IN A = 0"
      using and_zero_sub(1) [OF new] and_zero_sub(2) [OF old] by blast+
    show ?thesis
    proof (cases "is_input_device A d")
      case True
      then show ?thesis using out flags by (simp add: delta_def hits_def uses_def)
    next
      case False
      then obtain x where x: "\<And>w. (dev_type d AND low A w \<noteq> 0) = bit w x" using output_bit [OF lay d False out(1)] by blast
      have lt: "bit w x \<Longrightarrow> x < 32" for w :: u32 using bit_imp_le_length [of w x] by simp
      have e: "bit (devs AND NOT (current_devices s)) x = (bit devs x \<and> \<not> bit (current_devices s) x)"
        "bit (NOT devs AND current_devices s) x = (\<not> bit devs x \<and> bit (current_devices s) x)"
        using lt by (auto simp: bit_and_iff bit_not_iff)
      have h: "hits A (devs AND NOT (current_devices s)) d = (bit devs x \<and> \<not> bit (current_devices s) x)"
        "hits A (NOT devs AND current_devices s) d = (\<not> bit devs x \<and> bit (current_devices s) x)"
        unfolding hits_def x e flags using False by auto
      have u: "uses A (s\<lparr>current_devices := devs\<rparr>) d = bit devs x" "uses A s d = bit (current_devices s) x"
        unfolding uses_def x using False out by auto
      show ?thesis unfolding h u by (simp add: delta_def)
    qed
  qed
qed

lemma mask_ok_sub:
  assumes "mask_ok A ds w" "w AND AUDIO_DEVICE_BIT_IN A = 0"
  shows "mask_ok A ds (v AND w)" "mask_ok A ds (w AND v)"
proof -
  have "w AND NOT (output_types A ds) = 0" using assms by (simp add: mask_ok_def)
  then have "(v AND w) AND NOT (output_types A ds) = 0" "(w AND v) AND NOT (output_types A ds) = 0"
    by (blast intro: and_zero_sub)+
  then show "mask_ok A ds (v AND w)" "mask_ok A ds (w AND v)" by (simp_all add: mask_ok_def)
qed

lemma mask_ok_0 [simp]: "mask_ok A ds 0"
  by (simp add: mask_ok_def)

lemma route_masks_ok:
  assumes inv: "audio_inv A cm" and i: "i < length (streams cm)" and ok: "safe_route A cm i devs"
  defines "s \<equiv> streams cm ! i"
  shows "mask_ok A (devices cm) devs" "mask_ok A (devices cm) (devs AND NOT (current_devices s))" "mask_ok A (devices cm) (NOT devs AND current_devices s)"
proof -
  have sok: "stream_ok A (devices cm) s" using audio_invD(3) [OF inv i] by (simp add: s_def)
  have cur: "mask_ok A (devices cm) (current_devices s)" using sok by (simp add: stream_ok_def)
  show new: "mask_ok A (devices cm) devs" using ok by (auto simp: safe_route_def mask_ok_def Let_def split: if_splits)
  consider (clear) "devs = 0" | (inp) "devs \<noteq> 0" "stream_is_input (info s)" | (out) "devs \<noteq> 0" "\<not> stream_is_input (info s)" by blast
  then have "mask_ok A (devices cm) (devs AND NOT (current_devices s)) \<and> mask_ok A (devices cm) (NOT devs AND current_devices s)"
  proof cases
    case clear
    then show ?thesis using cur by simp
  next
    case inp
    then have "current_devices s = 0" using ok by (auto simp: safe_route_def s_def)
    then show ?thesis using new by simp
  next
    case out
    have "devs AND AUDIO_DEVICE_BIT_IN A = 0" using ok out by (auto simp: safe_route_def s_def Let_def)
    moreover have "current_devices s AND AUDIO_DEVICE_BIT_IN A = 0" using sok out by (auto simp: stream_ok_def)
    ultimately show ?thesis using mask_ok_sub new cur by blast
  qed
  then show "mask_ok A (devices cm) (devs AND NOT (current_devices s))" "mask_ok A (devices cm) (NOT devs AND current_devices s)" by auto
qed

lemma counted_hits: "counted f ds ds' \<Longrightarrow> j < length ds \<Longrightarrow> hits A w (ds' ! j) = hits A w (ds ! j) \<and> count_change a b (ds' ! j) = count_change a b (ds ! j)"
  by (simp add: counted_def same_dev_def hits_def is_input_device_def count_change_def)

lemma apply_route_inv:
  assumes inv: "audio_inv A cm" and i: "i < length (streams cm)" and open_: "ref_count (streams cm ! i) > 0" and ok: "safe_route A cm i devs"
  shows "\<exists>cm'. apply_route A K i devs cm = Some cm' \<and> audio_inv A cm' \<and> length (streams cm') = length (streams cm) \<and>
    current_devices (streams cm' ! i) = devs"
proof -
  let ?s = "streams cm ! i"
  let ?s' = "?s\<lparr>current_devices := devs\<rparr>"
  let ?on = "devs AND NOT (current_devices ?s)" and ?off = "NOT devs AND current_devices ?s"
  have sok: "stream_ok A (devices cm) ?s" "usecases_ok (cm_mixer cm) ?s" using audio_invD(3) [OF inv i] by auto
  note masks = route_masks_ok [OF inv i ok]
  obtain ds1 h1 where r1: "apply_paths_to_devices_l A (cm_mixer cm) K ?off (disable_path ?s) e_path_id_off (devices cm) (mlog cm) = Some (ds1, h1)"
    "devices_ok (cm_mixer cm) ds1"
    "counted (\<lambda>j. if hits A ?off (devices cm ! j) then count_change (disable_path ?s) e_path_id_off (devices cm ! j) else 0) (devices cm) ds1"
    using apply_devices_counts [OF audio_invD(1,2) [OF inv] masks(3)] by blast
  have lay1: "layout_ok A ds1" using layout_counted [OF r1(3)] audio_invD(1) [OF inv] by simp
  obtain ds2 h2 where r2: "apply_paths_to_devices_l A (cm_mixer cm) K ?on e_path_id_on (enable_path ?s) ds1 h1 = Some (ds2, h2)"
    "devices_ok (cm_mixer cm) ds2"
    "counted (\<lambda>j. if hits A ?on (ds1 ! j) then count_change e_path_id_on (enable_path ?s) (ds1 ! j) else 0) ds1 ds2"
    using apply_devices_counts [OF lay1 r1(2)] masks(2) mask_ok_counted [OF r1(3), of A ?on] by blast
  have dir: "devs \<noteq> 0 \<Longrightarrow> (devs AND AUDIO_DEVICE_BIT_IN A \<noteq> 0) = stream_is_input (info ?s)"
    and cut: "(if devs = 0 then 0 else if devs AND AUDIO_DEVICE_BIT_IN A \<noteq> 0 then devs AND AUDIO_DEVICE_IN_ALL A OR AUDIO_DEVICE_BIT_IN A
      else devs AND AUDIO_DEVICE_OUT_ALL A) = devs"
    using ok by (auto simp: safe_route_def Let_def split: if_splits)
  let ?cm = "set_stream i ?s' (cm\<lparr>devices := ds2, mlog := h2\<rparr>)"
  have run: "apply_route A K i devs cm = Some ?cm"
    using dir cut r1(1) r2(1) by (auto simp: apply_route_def Let_def on_devices_def)
  have sok': "stream_ok A (devices cm) ?s'" "usecases_ok (cm_mixer cm) ?s'"
    using sok open_ dir masks(1) by (auto simp: stream_ok_def usecases_ok_def)
  let ?f = "\<lambda>j. (if hits A ?off (devices cm ! j) then count_change (disable_path ?s) e_path_id_off (devices cm ! j) else 0) +
    (if hits A ?on (ds1 ! j) then count_change e_path_id_on (enable_path ?s) (ds1 ! j) else 0)"
  have "audio_inv A ?cm"
  proof (rule audio_inv_update [OF inv i counted_trans [OF r1(3) r2(3)] r2(2) sok'])
    fix j assume j: "j < length (devices cm)" and sw: "switchable (devices cm ! j)"
    have en: "enable_path ?s \<noteq> e_path_id_off" "disable_path ?s \<noteq> e_path_id_on" using sok(1) by (auto simp: stream_ok_def)
    have "?f j = delta (hits A ?on (devices cm ! j)) (hits A ?off (devices cm ! j))"
      using counted_hits [OF r1(3) j] change_on [OF sw en(1)] change_off(2) [OF sw en(2)] by (simp add: delta_def)
    also have "\<dots> = delta (uses A ?s' (devices cm ! j)) (uses A ?s (devices cm ! j))" using route_delta [OF inv i ok, of "devices cm ! j"] j by simp
    finally show "?f j = (if uses A ?s' (devices cm ! j) then 1 else 0) - (if uses A ?s (devices cm ! j) then 1 else 0)" by (simp only: delta_def)
  qed simp_all
  then show ?thesis using run i by auto
qed

lemma release_stream_inv:
  assumes inv: "audio_inv A cm" and i: "i < length (streams cm)" and open_: "ref_count (streams cm ! i) > 0"
  shows "\<exists>cm'. release_stream A K (Some i) cm = Some cm' \<and> audio_inv A cm' \<and> length (streams cm') = length (streams cm)"
proof (cases "ref_count (streams cm ! i) = 1")
  case False
  let ?s = "streams cm ! i"
  let ?s' = "?s\<lparr>ref_count := ref_count ?s - 1\<rparr>"
  have sok: "stream_ok A (devices cm) ?s" "usecases_ok (cm_mixer cm) ?s" using audio_invD(3) [OF inv i] by auto
  have sok': "stream_ok A (devices cm) ?s'" "usecases_ok (cm_mixer cm) ?s'" using sok False open_ by (auto simp: stream_ok_def usecases_ok_def)
  have "audio_inv A (set_stream i ?s' cm)"
    using audio_invD(2) [OF inv] False open_ by (intro audio_inv_update [OF inv i counted_refl [of _ "\<lambda>_. 0"] _ sok']) (auto simp: uses_def)
  then show ?thesis using False by (simp add: release_stream_def Let_def)
next
  case True
  let ?s = "streams cm ! i"
  let ?s' = "?s\<lparr>ref_count := 0, current_devices := 0\<rparr>"
  have sok: "stream_ok A (devices cm) ?s" "usecases_ok (cm_mixer cm) ?s" using audio_invD(3) [OF inv i] by auto
  have sok': "stream_ok A (devices cm) ?s'" "usecases_ok (cm_mixer cm) ?s'" using sok by (auto simp: stream_ok_def usecases_ok_def)
  have mask: "mask_ok A (devices cm) (current_devices ?s)" and en: "disable_path ?s \<noteq> e_path_id_on" using sok(1) by (auto simp: stream_ok_def)
  obtain ds1 h1 where r1: "apply_paths_to_devices_l A (cm_mixer cm) K (current_devices ?s) e_path_id_off (disable_path ?s) (devices cm) (mlog cm) = Some (ds1, h1)"
    "devices_ok (cm_mixer cm) ds1"
    "counted (\<lambda>j. if hits A (current_devices ?s) (devices cm ! j) then count_change e_path_id_off (disable_path ?s) (devices cm ! j) else 0) (devices cm) ds1"
    using apply_devices_counts [OF audio_invD(1,2) [OF inv] mask] by blast
  have lay1: "layout_ok A ds1" using layout_counted [OF r1(3)] audio_invD(1) [OF inv] by simp
  obtain ds2 h2 where r2: "apply_paths_to_global_l (cm_mixer cm) K (disable_path ?s) e_path_id_off ds1 h1 = Some (ds2, h2)"
    "devices_ok (cm_mixer cm) ds2"
    "counted (\<lambda>j. if dev_type (ds1 ! j) = 0 then count_change (disable_path ?s) e_path_id_off (ds1 ! j) else 0) ds1 ds2"
    using global_counts [OF lay1 r1(2)] by blast
  let ?cm = "set_stream i ?s' ((set_stream i (?s\<lparr>ref_count := 0\<rparr>) cm)\<lparr>devices := ds2, mlog := h2\<rparr>)"
  have run: "release_stream A K (Some i) cm = Some ?cm"
    using True r1(1) r2(1) by (simp add: release_stream_def Let_def on_devices_def)
  let ?f = "\<lambda>j. (if hits A (current_devices ?s) (devices cm ! j) then count_change e_path_id_off (disable_path ?s) (devices cm ! j) else 0) +
    (if dev_type (ds1 ! j) = 0 then count_change (disable_path ?s) e_path_id_off (ds1 ! j) else 0)"
  have "audio_inv A ?cm"
  proof (rule audio_inv_update [OF inv i counted_trans [OF r1(3) r2(3)] r2(2) sok'])
    fix j assume j: "j < length (devices cm)" and sw: "switchable (devices cm ! j)"
    have t: "dev_type (ds1 ! j) = dev_type (devices cm ! j)" using r1(3) j by (simp add: counted_def same_dev_def)
    show "?f j = (if uses A ?s' (devices cm ! j) then 1 else 0) - (if uses A ?s (devices cm ! j) then 1 else 0)"
    proof (cases "dev_type (devices cm ! j) = 0")
      case z: True
      then show ?thesis using counted_hits [OF r1(3) j] change_off(2) [OF sw en] True t by (simp add: hits_zero uses_def)
    next
      case nz: False
      then have "\<not> uses A ?s' (devices cm ! j)" by (simp add: uses_def low_def)
      then show ?thesis using nz t hits_uses [OF sok(1) nz] change_off(1) [OF sw en] by simp
    qed
  qed simp_all
  then show ?thesis using run by auto
qed

end
