(* ===== verification/AudioProps.thy ===== *)
theory AudioProps
  imports AudioCounts
begin

text \<open>
  Operations of the audio configuration manager in any order: memory safety of all of them, the use
  counts, the range of the volume, and the cases in which routing goes wrong.
\<close>

section \<open>Use cases and volume\<close>

lemma apply_case_ok:
  assumes "\<forall>c \<in> set cs. \<forall>x \<in> set (case_ctls c). ctl_ok m x"
  shows "apply_case m K name cs h = None \<or>
    (\<exists>cs' h'. apply_case m K name cs h = Some (Some (cs', h')) \<and> (\<forall>c \<in> set cs'. \<forall>x \<in> set (case_ctls c). ctl_ok m x))"
  using assms
proof (induction cs)
  case (Cons c cs)
  show ?case
  proof (cases "case_name c = name")
    case True
    obtain ctls h' where "apply_ctls_l m K (case_ctls c) h = Some (ctls, h')" "\<forall>x \<in> set ctls. ctl_ok m x"
      using apply_ctls_total [of "case_ctls c" m K h] Cons.prems by auto
    then show ?thesis using True Cons.prems by simp
  next
    case False
    then show ?thesis using Cons by fastforce
  qed
qed simp

lemma apply_usecases_ok:
  assumes "\<forall>u \<in> set us. \<forall>c \<in> set (uc_cases u). \<forall>x \<in> set (case_ctls c). ctl_ok m x"
  shows "apply_usecases m K setting name us h = None \<or>
    (\<exists>us' h'. apply_usecases m K setting name us h = Some (Some (us', h')) \<and>
       (\<forall>u \<in> set us'. \<forall>c \<in> set (uc_cases u). \<forall>x \<in> set (case_ctls c). ctl_ok m x))"
  using assms
proof (induction us)
  case (Cons u us)
  have ok: "\<forall>c \<in> set (uc_cases u). \<forall>x \<in> set (case_ctls c). ctl_ok m x" using Cons.prems by simp
  let ?r = "if uc_name u = setting then apply_case m K name (uc_cases u) h else None"
  consider (skip) "?r = None" | (found) cs' h' where "?r = Some (Some (cs', h'))" "\<forall>c \<in> set cs'. \<forall>x \<in> set (case_ctls c). ctl_ok m x"
    using apply_case_ok [OF ok, of K name h] by (cases "uc_name u = setting") auto
  then show ?case
  proof cases
    case skip
    then show ?thesis using Cons by fastforce
  next
    case found
    then show ?thesis using Cons.prems by simp
  qed
qed simp

text \<open>All that the operations need to be defined: controls that fit the mixer.\<close>

definition config_safe :: "config_mgr \<Rightarrow> bool" where
  "config_safe cm \<longleftrightarrow> devices_ok (cm_mixer cm) (devices cm) \<and> (\<forall>s \<in> set (streams cm). usecases_ok (cm_mixer cm) s)"

lemma config_safe_stream:
  assumes "config_safe cm" "usecases s = usecases (streams cm ! i) \<or> usecases_ok (cm_mixer cm) s" "i < length (streams cm)"
    "devices_ok (cm_mixer cm) (devices cm')" "streams cm' = (streams cm)[i := s]" "cm_mixer cm' = cm_mixer cm"
  shows "config_safe cm'"
proof -
  have "usecases_ok (cm_mixer cm) (streams cm ! i)" using assms(1,3) by (simp add: config_safe_def)
  then have "usecases_ok (cm_mixer cm) s" using assms(2) by (auto simp: usecases_ok_def)
  then show ?thesis using assms set_update_subset_insert [of "streams cm" i s] by (auto simp: config_safe_def)
qed

lemma use_case_effect:
  assumes "\<forall>s \<in> set (streams cm). usecases_ok (cm_mixer cm) s" "i < length (streams cm)"
  shows "\<exists>r cm' us. apply_use_case K i setting name cm = Some (r, cm') \<and> devices cm' = devices cm \<and> cm_mixer cm' = cm_mixer cm \<and>
    streams cm' = (streams cm)[i := (streams cm ! i)\<lparr>usecases := us\<rparr>] \<and> usecases_ok (cm_mixer cm) ((streams cm ! i)\<lparr>usecases := us\<rparr>)"
proof -
  have "usecases_ok (cm_mixer cm) (streams cm ! i)" using assms by simp
  then have ok: "\<forall>u \<in> set (usecases (streams cm ! i)). \<forall>c \<in> set (uc_cases u). \<forall>x \<in> set (case_ctls c). ctl_ok (cm_mixer cm) x"
    by (simp add: usecases_ok_def)
  show ?thesis
  proof (cases "apply_usecases (cm_mixer cm) K setting name (usecases (streams cm ! i)) (mlog cm)")
    case None
    have "(streams cm)[i := (streams cm ! i)\<lparr>usecases := usecases (streams cm ! i)\<rparr>] = streams cm" by simp
    then show ?thesis using None ok by (auto simp: apply_use_case_def usecases_ok_def intro!: exI [of _ "usecases (streams cm ! i)"])
  next
    case (Some r)
    then obtain us h where "r = Some (us, h)" "\<forall>u \<in> set us. \<forall>c \<in> set (uc_cases u). \<forall>x \<in> set (case_ctls c). ctl_ok (cm_mixer cm) x"
      using apply_usecases_ok [OF ok, of K setting name "mlog cm"] by auto
    then show ?thesis using Some by (auto simp: apply_use_case_def usecases_ok_def intro!: exI [of _ us])
  qed
qed

lemma set_hw_volume_effect:
  assumes "set_hw_volume K i l r cm = (e, cm')"
  shows "devices cm' = devices cm" "streams cm' = streams cm" "cm_mixer cm' = cm_mixer cm"
  using assms by (auto simp: set_hw_volume_def set_vol_ctl_def Let_def split: option.splits)

section \<open>Reachable states\<close>

text \<open>Operations on streams that are open; the routes are those that can be served as meant.\<close>

inductive audio_step :: "audio_masks \<Rightarrow> card \<Rightarrow> config_mgr \<Rightarrow> config_mgr \<Rightarrow> bool" for A K where
  step_get: "get_stream A K devs pcm cm = Some (r, cm') \<Longrightarrow> audio_step A K cm cm'"
| step_named: "get_named_stream K name cm = Some (r, cm') \<Longrightarrow> audio_step A K cm cm'"
| step_route: "i < length (streams cm) \<Longrightarrow> ref_count (streams cm ! i) > 0 \<Longrightarrow> safe_route A cm i devs \<Longrightarrow>
    apply_route A K i devs cm = Some cm' \<Longrightarrow> audio_step A K cm cm'"
| step_release: "i < length (streams cm) \<Longrightarrow> ref_count (streams cm ! i) > 0 \<Longrightarrow>
    release_stream A K (Some i) cm = Some cm' \<Longrightarrow> audio_step A K cm cm'"
| step_volume: "i < length (streams cm) \<Longrightarrow> set_hw_volume K i l r cm = (e, cm') \<Longrightarrow> audio_step A K cm cm'"
| step_use_case: "i < length (streams cm) \<Longrightarrow> apply_use_case K i setting name cm = Some (e, cm') \<Longrightarrow> audio_step A K cm cm'"

lemma uses_usecases: "uses A (s\<lparr>usecases := us\<rparr>) d = uses A s d"
  by (simp add: uses_def)

lemma audio_step_inv:
  assumes "audio_step A K cm cm'" "audio_inv A cm"
  shows "audio_inv A cm'"
  using assms
proof (induction rule: audio_step.induct)
  case (step_get devs pcm cm r cm')
  then show ?case using try_streams_inv [of A cm "length (streams cm)" K "wanted_type A devs pcm"] by (auto simp: get_stream_def)
next
  case (step_named name cm r cm')
  then show ?case using get_named_stream_inv [of A cm K name] by auto
next
  case (step_route i cm devs cm')
  then show ?case using apply_route_inv [of A cm i devs K] by auto
next
  case (step_release i cm cm')
  then show ?case using release_stream_inv [of A cm i K] by auto
next
  case (step_volume i cm l r e cm')
  then show ?case using set_hw_volume_effect [OF step_volume(2)] by (simp add: audio_inv_def)
next
  case (step_use_case i cm setting name e cm')
  obtain us where us: "devices cm' = devices cm" "cm_mixer cm' = cm_mixer cm" "streams cm' = (streams cm)[i := (streams cm ! i)\<lparr>usecases := us\<rparr>]"
    "usecases_ok (cm_mixer cm) ((streams cm ! i)\<lparr>usecases := us\<rparr>)"
    using use_case_effect [of cm i K setting name] step_use_case by (auto simp: audio_inv_def)
  have ok: "stream_ok A (devices cm) ((streams cm ! i)\<lparr>usecases := us\<rparr>)"
    using audio_invD(3) [OF step_use_case(3) step_use_case(1)] by (simp add: stream_ok_def)
  show ?case
    by (rule audio_inv_update [OF step_use_case(3,1) counted_refl [of _ "\<lambda>_. 0"] audio_invD(2) [OF step_use_case(3)] ok us(4)])
       (simp_all add: us uses_usecases)
qed

lemma audio_reach_inv: "(audio_step A K)\<^sup>*\<^sup>* cm cm' \<Longrightarrow> audio_inv A cm \<Longrightarrow> audio_inv A cm'"
  by (induction rule: rtranclp_induct) (auto intro: audio_step_inv)

section \<open>Safety without the layout\<close>

lemma on_devices_safe:
  assumes "config_safe cm" "\<And>h. \<exists>ds' h'. f (devices cm) h = Some (ds', h') \<and> devices_ok (cm_mixer cm) ds'"
  shows "\<exists>cm'. on_devices f cm = Some cm' \<and> config_safe cm' \<and> cm_mixer cm' = cm_mixer cm \<and> streams cm' = streams cm"
proof -
  obtain ds' h' where "f (devices cm) (mlog cm) = Some (ds', h')" "devices_ok (cm_mixer cm) ds'" using assms(2) by blast
  then show ?thesis using assms(1) by (simp add: on_devices_def config_safe_def)
qed

lemma to_devices_safe: "config_safe cm \<Longrightarrow>
    \<exists>cm'. on_devices (apply_paths_to_devices_l A (cm_mixer cm) K w a b) cm = Some cm' \<and> config_safe cm' \<and> cm_mixer cm' = cm_mixer cm \<and> streams cm' = streams cm"
  by (rule on_devices_safe, assumption) (use apply_to_devices_effect in \<open>fastforce simp: apply_paths_to_devices_l_def config_safe_def\<close>)

lemma to_global_safe: "config_safe cm \<Longrightarrow>
    \<exists>cm'. on_devices (apply_paths_to_global_l (cm_mixer cm) K a b) cm = Some cm' \<and> config_safe cm' \<and> cm_mixer cm' = cm_mixer cm \<and> streams cm' = streams cm"
  by (rule on_devices_safe, assumption) (use apply_to_global_effect in \<open>fastforce simp: config_safe_def\<close>)

lemma set_stream_safe:
  "config_safe cm \<Longrightarrow> i < length (streams cm) \<Longrightarrow> usecases s = usecases (streams cm ! i) \<Longrightarrow> config_safe (set_stream i s cm)"
  by (rule config_safe_stream [of cm s i]) (auto simp: config_safe_def)

lemma apply_route_safe:
  assumes "config_safe cm" "i < length (streams cm)"
  shows "\<exists>cm'. apply_route A K i devs cm = Some cm' \<and> config_safe cm' \<and> length (streams cm') = length (streams cm)"
proof -
  let ?s = "streams cm ! i"
  obtain cm1 where r1: "on_devices (apply_paths_to_devices_l A (cm_mixer cm) K (NOT devs AND current_devices ?s) (disable_path ?s) e_path_id_off) cm = Some cm1"
    "config_safe cm1" "cm_mixer cm1 = cm_mixer cm" "streams cm1 = streams cm" using to_devices_safe [OF assms(1)] by blast
  obtain cm2 where r2: "on_devices (apply_paths_to_devices_l A (cm_mixer cm) K (devs AND NOT (current_devices ?s)) e_path_id_on (enable_path ?s)) cm1 = Some cm2"
    "config_safe cm2" "cm_mixer cm2 = cm_mixer cm1" "streams cm2 = streams cm1"
    using to_devices_safe [OF r1(2)] unfolding r1(3) by blast
  have "config_safe (set_stream i (?s\<lparr>current_devices := w\<rparr>) cm2)" for w
    using assms(2) r1(4) r2(4) by (intro set_stream_safe [OF r2(2)]) auto
  then show ?thesis using assms r1 r2 by (auto simp: apply_route_def Let_def)
qed

lemma open_stream_safe:
  assumes "config_safe cm" "i < length (streams cm)"
  shows "\<exists>b cm'. open_stream_l K i cm = Some (b, cm') \<and> config_safe cm' \<and> length (streams cm') = length (streams cm)"
proof -
  let ?s = "streams cm ! i" and ?cm = "set_stream i ((streams cm ! i)\<lparr>ref_count := ref_count (streams cm ! i) + 1\<rparr>) cm"
  have safe: "config_safe ?cm" using assms by (intro set_stream_safe) auto
  obtain cm' where g: "on_devices (apply_paths_to_global_l (cm_mixer ?cm) K e_path_id_on (enable_path ?s)) ?cm = Some cm'"
    "config_safe cm'" "streams cm' = streams ?cm" using to_global_safe [OF safe] by blast
  have "open_stream_l K i cm = (if ref_count ?s < max_ref_count ?s then if ref_count ?s + 1 = 1 then Some (True, cm') else Some (True, ?cm) else Some (False, cm))"
    using g(1) by (cases "ref_count ?s = 0") (simp_all add: open_stream_l_def Let_def)
  moreover have "length (streams ?cm) = length (streams cm)" "length (streams cm') = length (streams cm)" using g(3) by simp_all
  ultimately show ?thesis using assms(1) safe g(2) by (metis (full_types))
qed

lemma try_streams_safe:
  assumes "config_safe cm" "n \<le> length (streams cm)"
  shows "\<exists>r cm'. try_streams K ty n cm = Some (r, cm') \<and> config_safe cm' \<and> length (streams cm') = length (streams cm)"
  using assms
proof (induction n arbitrary: cm)
  case (Suc n)
  show ?case
  proof (cases "st_type (info (streams cm ! n)) = ty")
    case True
    obtain b cm' where o: "open_stream_l K n cm = Some (b, cm')" "config_safe cm'" "length (streams cm') = length (streams cm)"
      using open_stream_safe [OF Suc.prems(1), of n K] Suc.prems(2) by auto
    then show ?thesis using True Suc.IH [OF o(2)] Suc.prems(2) by (cases b) auto
  next
    case False
    then show ?thesis using Suc.IH [OF Suc.prems(1)] Suc.prems(2) by auto
  qed
qed simp

lemma get_named_stream_safe:
  assumes "config_safe cm"
  shows "\<exists>r cm'. get_named_stream K name cm = Some (r, cm') \<and> config_safe cm' \<and> length (streams cm') = length (streams cm)"
proof (cases "find_named_stream cm name")
  case None
  then show ?thesis using assms by (simp add: get_named_stream_def)
next
  case (Some i)
  then have "i < length (streams cm)" using find_named_less [of name 0 "streams cm" i] by (simp add: find_named_stream_def)
  then obtain b cm' where "open_stream_l K i cm = Some (b, cm')" "config_safe cm'" "length (streams cm') = length (streams cm)"
    using open_stream_safe [OF assms, of i K] by blast
  then show ?thesis using Some by (simp add: get_named_stream_def)
qed

lemma release_stream_safe:
  assumes "config_safe cm" "i < length (streams cm)"
  shows "\<exists>cm'. release_stream A K (Some i) cm = Some cm' \<and> config_safe cm' \<and> length (streams cm') = length (streams cm)"
proof -
  let ?s = "streams cm ! i" and ?cm = "set_stream i ((streams cm ! i)\<lparr>ref_count := ref_count (streams cm ! i) - 1\<rparr>) cm"
  have safe: "config_safe ?cm" using assms by (intro set_stream_safe) auto
  obtain cm1 where r1: "on_devices (apply_paths_to_devices_l A (cm_mixer ?cm) K (current_devices ?s) e_path_id_off (disable_path ?s)) ?cm = Some cm1"
    "config_safe cm1" "cm_mixer cm1 = cm_mixer ?cm" "streams cm1 = streams ?cm" using to_devices_safe [OF safe] by blast
  obtain cm2 where r2: "on_devices (apply_paths_to_global_l (cm_mixer cm1) K (disable_path ?s) e_path_id_off) cm1 = Some cm2"
    "config_safe cm2" "cm_mixer cm2 = cm_mixer cm1" "streams cm2 = streams cm1" using to_global_safe [OF r1(2)] by blast
  have "config_safe (set_stream i (?s\<lparr>ref_count := ref_count ?s - 1, current_devices := 0\<rparr>) cm2)"
    using assms(2) r1(4) r2(4) by (intro set_stream_safe [OF r2(2)]) auto
  then show ?thesis using r1 r2 safe by (auto simp: release_stream_def Let_def)
qed

section \<open>Sequences of operations\<close>

datatype audio_op = OpGet u32 bool | OpNamed string | OpRoute nat u32 | OpRelease nat | OpVolume nat int int | OpUseCase nat string string

fun run_op :: "audio_masks \<Rightarrow> card \<Rightarrow> audio_op \<Rightarrow> config_mgr \<Rightarrow> config_mgr option" where
  "run_op A K (OpGet devs pcm) cm = map_option snd (get_stream A K devs pcm cm)"
| "run_op A K (OpNamed name) cm = map_option snd (get_named_stream K name cm)"
| "run_op A K (OpRoute i devs) cm = apply_route A K i devs cm"
| "run_op A K (OpRelease i) cm = release_stream A K (Some i) cm"
| "run_op A K (OpVolume i l r) cm = Some (snd (set_hw_volume K i l r cm))"
| "run_op A K (OpUseCase i setting name) cm = map_option snd (apply_use_case K i setting name cm)"

fun op_stream :: "audio_op \<Rightarrow> nat option" where
  "op_stream (OpRoute i _) = Some i"
| "op_stream (OpRelease i) = Some i"
| "op_stream (OpVolume i _ _) = Some i"
| "op_stream (OpUseCase i _ _) = Some i"
| "op_stream _ = None"

fun run_ops :: "audio_masks \<Rightarrow> card \<Rightarrow> audio_op list \<Rightarrow> config_mgr \<Rightarrow> config_mgr option" where
  "run_ops A K [] cm = Some cm"
| "run_ops A K (op # ops) cm = (case run_op A K op cm of None \<Rightarrow> None | Some cm \<Rightarrow> run_ops A K ops cm)"

lemma run_op_safe:
  assumes "config_safe cm" "\<forall>i. op_stream op = Some i \<longrightarrow> i < length (streams cm)"
  shows "\<exists>cm'. run_op A K op cm = Some cm' \<and> config_safe cm' \<and> length (streams cm') = length (streams cm)"
proof (cases op)
  case (OpGet devs pcm)
  obtain r cm' where "get_stream A K devs pcm cm = Some (r, cm')" "config_safe cm'" "length (streams cm') = length (streams cm)"
    using try_streams_safe [OF assms(1) order_refl, of K "wanted_type A devs pcm"] by (auto simp: get_stream_def)
  then show ?thesis using OpGet by simp
next
  case (OpNamed name)
  then show ?thesis using get_named_stream_safe [OF assms(1), of K name] by auto
next
  case (OpRoute i devs)
  then show ?thesis using apply_route_safe [OF assms(1)] assms(2) by simp
next
  case (OpRelease i)
  then show ?thesis using release_stream_safe [OF assms(1)] assms(2) by simp
next
  case (OpVolume i l r)
  obtain e cm' where v: "set_hw_volume K i l r cm = (e, cm')" by fastforce
  then show ?thesis using OpVolume set_hw_volume_effect [OF v] assms(1) by (simp add: config_safe_def)
next
  case (OpUseCase i setting name)
  then have i: "i < length (streams cm)" using assms(2) by simp
  obtain r cm' us where u: "apply_use_case K i setting name cm = Some (r, cm')" "devices cm' = devices cm" "cm_mixer cm' = cm_mixer cm"
    "streams cm' = (streams cm)[i := (streams cm ! i)\<lparr>usecases := us\<rparr>]" "usecases_ok (cm_mixer cm) ((streams cm ! i)\<lparr>usecases := us\<rparr>)"
    using use_case_effect [OF _ i, of K setting name] assms(1) unfolding config_safe_def by blast
  have "config_safe cm'" using config_safe_stream [OF assms(1) disjI2 [OF u(5)] i _ u(4,3)] u(2) assms(1) by (simp add: config_safe_def)
  then show ?thesis using OpUseCase u by simp
qed

lemma run_ops_safe:
  assumes "config_safe cm" "\<forall>op \<in> set ops. \<forall>i. op_stream op = Some i \<longrightarrow> i < length (streams cm)"
  shows "\<exists>cm'. run_ops A K ops cm = Some cm' \<and> config_safe cm'"
  using assms
proof (induction ops arbitrary: cm)
  case (Cons op ops)
  obtain cm' where "run_op A K op cm = Some cm'" "config_safe cm'" "length (streams cm') = length (streams cm)"
    using run_op_safe [OF Cons.prems(1), of op A K] Cons.prems(2) by auto
  then show ?case using Cons.IH [of cm'] Cons.prems(2) by simp
qed simp

section \<open>Volume\<close>

text \<open>A control whose range can be multiplied by a percentage in 32 bits.\<close>

definition volume_ok :: "stream_control \<Rightarrow> bool" where
  "volume_ok c \<longleftrightarrow> sc_min c \<le> sc_max c \<and> unat (sc_max c - sc_min c) \<le> 42949672"

lemma vol_value_range:
  assumes "volume_ok c" "unat p \<le> 100"
  shows "sc_min c \<le> vol_value c p \<and> vol_value c p \<le> sc_max c"
proof -
  let ?r = "sc_max c - sc_min c"
  have le: "sc_min c \<le> sc_max c" and small: "unat ?r \<le> 42949672" using assms(1) by (auto simp: volume_ok_def)
  have r: "unat ?r = unat (sc_max c) - unat (sc_min c)" using le by (rule unat_sub)
  have prod: "unat p * unat ?r \<le> 100 * 42949672" using mult_le_mono [OF assms(2) small] .
  then have "unat (p * ?r) = unat p * unat ?r" by (subst unat_mult_lem [symmetric]) simp
  then have q: "unat ((p * ?r) div 100) = unat p * unat ?r div 100" by (simp add: unat_div)
  have "unat p * unat ?r div 100 \<le> 100 * unat ?r div 100" using assms(2) by (intro div_le_mono mult_le_mono1)
  then have ql: "unat ((p * ?r) div 100) \<le> unat (sc_max c) - unat (sc_min c)" using q r by simp
  have lemax: "unat (sc_min c) \<le> unat (sc_max c)" using le by (simp add: word_le_nat_alt)
  then have fit: "unat (sc_min c) + unat ((p * ?r) div 100) < 2 ^ LENGTH(32)"
    using ql unsigned_less [of "sc_max c", where 'a = nat] by linarith
  have "unat (sc_min c + (p * ?r) div 100) = unat (sc_min c) + unat ((p * ?r) div 100)"
    using unat_add_lem [THEN iffD1, OF fit] .
  then have "sc_min c \<le> sc_min c + (p * ?r) div 100" "sc_min c + (p * ?r) div 100 \<le> sc_max c"
    using ql lemax by (simp_all add: word_le_nat_alt)
  then show ?thesis using le by (simp add: vol_value_def)
qed

lemma half_sum_range: "0 \<le> l \<Longrightarrow> l \<le> 100 \<Longrightarrow> 0 \<le> r \<Longrightarrow> r \<le> 100 \<Longrightarrow> 0 \<le> half_sum l r \<and> half_sum l r \<le> 100"
proof -
  assume a: "0 \<le> l" "l \<le> 100" "0 \<le> r" "r \<le> 100"
  have "sint (word_of_int (l + r) :: u32) = l + r" using a by (simp only: sint_sbintrunc') (simp add: signed_take_bit_int_eq_self)
  then have "half_sum l r = sgn (l + r) * (\<bar>l + r\<bar> div 2)" by (simp add: half_sum_def Let_def)
  then show ?thesis using a by (auto simp: sgn_if)
qed

lemma percent_word: "0 \<le> l \<Longrightarrow> l \<le> 100 \<Longrightarrow> unat (word_of_int l :: u32) \<le> 100"
proof -
  assume a: "0 \<le> l" "l \<le> 100"
  have "uint (word_of_int l :: u32) = l" using a by (simp add: uint_word_of_int)
  then show ?thesis using a by (simp add: unat_eq_nat_uint)
qed

text \<open>The write of a volume to one of the two controls, inside its limits.\<close>

definition volume_write :: "stream_control \<Rightarrow> mcall \<Rightarrow> bool" where
  "volume_write c w \<longleftrightarrow> (\<exists>k v. sc_id c = Some k \<and> w = MSetValue k (unat (sc_index c)) v \<and> sc_min c \<le> v \<and> v \<le> sc_max c)"

lemma set_vol_writes:
  assumes "volume_ok c" "sc_id c = Some k" "0 \<le> l" "l \<le> 100"
  shows "\<exists>w. mlog (set_vol_ctl K k c (word_of_int l) cm) = mlog cm @ [w] \<and> volume_write c w"
  using vol_value_range [OF assms(1) percent_word [OF assms(3,4)]] assms(2) by (auto simp: set_vol_ctl_def sys_def volume_write_def)

section \<open>Idle configurations\<close>

definition config_idle :: "audio_masks \<Rightarrow> config_mgr \<Rightarrow> bool" where
  "config_idle A cm \<longleftrightarrow> layout_ok A (devices cm) \<and> config_safe cm \<and> (\<forall>d \<in> set (devices cm). use_count d = 0) \<and>
     (\<forall>s \<in> set (streams cm). ref_count s = 0 \<and> current_devices s = 0 \<and> enable_path s \<noteq> e_path_id_off \<and> disable_path s \<noteq> e_path_id_on)"

lemma config_idle_inv: "config_idle A cm \<Longrightarrow> audio_inv A cm"
proof -
  assume idle: "config_idle A cm"
  then have "\<not> uses A s d" if "s \<in> set (streams cm)" for s d using that by (auto simp: config_idle_def uses_def low_def)
  then have "users A (streams cm) d = 0" for d by (simp add: users_def cong: map_cong)
  then show ?thesis using idle by (auto simp: config_idle_def audio_inv_def stream_ok_def config_safe_def)
qed

lemma users_count: "users A ss d = int (length (filter (\<lambda>s. uses A s d) ss))"
  by (induction ss) (auto simp: users_def)

section \<open>Properties\<close>

text \<open>C31. From an idle configuration with an unambiguous device table, after any sequence of openings, releases, volume
  changes, use cases and routes that can be served, the use count of every device with an on and an off path is the number
  of streams that use it, and no stream is opened more often than its limit.\<close>

theorem device_use_counted:
  assumes "config_idle A cm" "(audio_step A K)\<^sup>*\<^sup>* cm cm'"
  shows "(\<forall>d \<in> set (devices cm'). switchable d \<longrightarrow> use_count d = int (length (filter (\<lambda>s. uses A s d) (streams cm')))) \<and>
    (\<forall>s \<in> set (streams cm'). 0 \<le> ref_count s \<and> ref_count s \<le> max 0 (max_ref_count s) \<and> (ref_count s = 0 \<longrightarrow> current_devices s = 0))"
  using audio_reach_inv [OF assms(2) config_idle_inv [OF assms(1)]] by (auto simp: audio_inv_def stream_ok_def users_count)

text \<open>C33. For percentages from 0 to 100 the volume written to a control of a stream lies between the limits of the control,
  when its range is at most 42949672, and nothing else is written.\<close>

theorem volume_in_range:
  assumes "volume_ok (volume_left (streams cm ! i))" "volume_ok (volume_right (streams cm ! i))"
    "0 \<le> l" "l \<le> 100" "0 \<le> r" "r \<le> 100" "set_hw_volume K i l r cm = (e, cm')"
  shows "\<exists>ws. mlog cm' = mlog cm @ ws \<and> length ws \<le> 2 \<and>
    (\<forall>w \<in> set ws. volume_write (volume_left (streams cm ! i)) w \<or> volume_write (volume_right (streams cm ! i)) w)"
proof -
  let ?s = "streams cm ! i"
  define l' where "l' = (if sc_id (volume_left ?s) \<noteq> None \<and> sc_id (volume_right ?s) = None then half_sum l r else l)"
  have l': "0 \<le> l'" "l' \<le> 100" using half_sum_range [OF assms(3-6)] assms(3,4) by (auto simp: l'_def)
  define cm1 where "cm1 = (case sc_id (volume_left ?s) of None \<Rightarrow> cm | Some k \<Rightarrow> set_vol_ctl K k (volume_left ?s) (word_of_int l') cm)"
  have cm': "cm' = (case sc_id (volume_right ?s) of None \<Rightarrow> cm1 | Some k \<Rightarrow> set_vol_ctl K k (volume_right ?s) (word_of_int r) cm1)"
    using assms(7) by (simp only: set_hw_volume_def Let_def cm1_def l'_def) auto
  have 1: "\<exists>ws. mlog cm1 = mlog cm @ ws \<and> length ws \<le> 1 \<and> (\<forall>w \<in> set ws. volume_write (volume_left ?s) w)"
    using set_vol_writes [OF assms(1) _ l', of _ K cm] by (cases "sc_id (volume_left ?s)") (auto simp: cm1_def)
  have 2: "\<exists>ws. mlog cm' = mlog cm1 @ ws \<and> length ws \<le> 1 \<and> (\<forall>w \<in> set ws. volume_write (volume_right ?s) w)"
    using set_vol_writes [OF assms(2) _ assms(5,6), of _ K cm1] by (cases "sc_id (volume_right ?s)") (auto simp: cm')
  obtain a b where "mlog cm1 = mlog cm @ a" "length a \<le> 1" "\<forall>w \<in> set a. volume_write (volume_left ?s) w"
    "mlog cm' = mlog cm1 @ b" "length b \<le> 1" "\<forall>w \<in> set b. volume_write (volume_right ?s) w" using 1 2 by blast
  then show ?thesis by (intro exI [of _ "a @ b"]) auto
qed

text \<open>What a mask does to the first device of the table.\<close>

lemma first_device_count:
  assumes "devices_ok m (d # ds)"
  shows "\<exists>d' ds' h'. apply_paths_to_devices_l A m K w a b (d # ds) h = Some (d' # ds', h') \<and> devices_ok m (d' # ds') \<and> same_dev d d' \<and>
    use_count d' = use_count d + (if matches (w AND AUDIO_DEVICE_BIT_IN A) (low A w) d then count_change a b d else 0)"
proof -
  obtain es h' where r: "apply_to_devices m K (w AND AUDIO_DEVICE_BIT_IN A) (low A w) a b (d # ds) h = Some (es, h')" "devices_ok m es"
    "counted (\<lambda>j. if matches (w AND AUDIO_DEVICE_BIT_IN A) (served (w AND AUDIO_DEVICE_BIT_IN A) (low A w) (take j (d # ds))) ((d # ds) ! j)
       then count_change a b ((d # ds) ! j) else 0) (d # ds) es"
    using apply_to_devices_effect [OF assms] by blast
  then obtain d' ds' where es: "es = d' # ds'" by (cases es) (auto simp: counted_def)
  have "0 < length (d # ds)" by simp
  then have "same_dev d d' \<and> use_count d' = use_count d + (if matches (w AND AUDIO_DEVICE_BIT_IN A) (low A w) d then count_change a b d else 0)"
    using r(3) unfolding es counted_def by (metis nth_Cons_0 served.simps(1) take0)
  then show ?thesis using r(1,2) es by (simp add: apply_paths_to_devices_l_def low_def)
qed

text \<open>C38. An input stream that is moved from one device to another without being taken off in between loses the input flag
  from the masks of what changes: the first device of the table is switched on when it shares a bit with the new input,
  although it is an output and the stream does not use it.\<close>

theorem input_switch_misroutes:
  assumes "config_safe cm" "i < length (streams cm)" "AUDIO_DEVICE_BIT_IN A = top_bit"
    "devices cm = d # ds" "\<not> is_input_device A d" "switchable d"
    "stream_is_input (info (streams cm ! i))" "enable_path (streams cm ! i) \<noteq> e_path_id_off"
    "current_devices (streams cm ! i) AND AUDIO_DEVICE_BIT_IN A \<noteq> 0" "devs AND AUDIO_DEVICE_BIT_IN A \<noteq> 0"
    "dev_type d AND devs \<noteq> 0" "dev_type d AND current_devices (streams cm ! i) = 0"
  shows "\<exists>cm'. apply_route A K i devs cm = Some cm' \<and> use_count (hd (devices cm')) = use_count d + 1 \<and> \<not> uses A (streams cm' ! i) d"
proof -
  let ?s = "streams cm ! i"
  let ?on = "devs AND NOT (current_devices ?s)" and ?off = "NOT devs AND current_devices ?s"
  have ok: "devices_ok (cm_mixer cm) (d # ds)" using assms(1,4) by (simp add: config_safe_def)
  have b31: "bit devs 31" "bit (current_devices ?s) 31" using assms(3,9,10) by (auto simp: and_nonzero bit_flag)
  have on_flag: "?on AND AUDIO_DEVICE_BIT_IN A = 0" and off_flag: "?off AND AUDIO_DEVICE_BIT_IN A = 0"
    using b31 and_nonzero [of ?on "AUDIO_DEVICE_BIT_IN A"] and_nonzero [of ?off "AUDIO_DEVICE_BIT_IN A"] assms(3)
    by (auto simp: bit_flag bit_and_iff bit_not_iff)
  have disj: "\<not> (bit (dev_type d) x \<and> bit (current_devices ?s) x)" for x using assms(12) and_nonzero by metis
  have off_no: "\<not> matches 0 (low A ?off) d" using disj by (auto simp: matches_def and_nonzero low_def bit_and_iff)
  obtain x where x: "bit (dev_type d) x" "bit devs x" using assms(11) and_nonzero by metis
  have "x \<noteq> 31" using x(1) assms(5) input_device_bit [OF assms(3)] by metis
  moreover have "x < 32" using bit_imp_le_length [OF x(1)] by simp
  ultimately have on_yes: "matches 0 (low A ?on) d" using x disj [of x] bit_low [OF assms(3), of ?on x]
    by (auto simp: matches_def and_nonzero bit_and_iff bit_not_iff)
  obtain d1 ds1 h1 where r1: "apply_paths_to_devices_l A (cm_mixer cm) K ?off (disable_path ?s) e_path_id_off (d # ds) (mlog cm) = Some (d1 # ds1, h1)"
    "devices_ok (cm_mixer cm) (d1 # ds1)" "same_dev d d1" "use_count d1 = use_count d"
    using first_device_count [OF ok, of A K ?off "disable_path ?s" e_path_id_off "mlog cm"] off_flag off_no by auto
  have on1: "matches 0 (low A ?on) d1" using on_yes r1(3) by (simp add: matches_def same_dev_def)
  have sw: "switchable d1" using assms(6) r1(3) by (simp add: switchable_def same_dev_def)
  obtain d2 ds2 h2 where r2: "apply_paths_to_devices_l A (cm_mixer cm) K ?on e_path_id_on (enable_path ?s) (d1 # ds1) h1 = Some (d2 # ds2, h2)"
    "use_count d2 = use_count d1 + 1"
    using first_device_count [OF r1(2), of A K ?on e_path_id_on "enable_path ?s" h1] on_flag on1 change_on [OF sw assms(8)] by auto
  have "devs \<noteq> 0" using assms(10) by auto
  then have "apply_route A K i devs cm = Some (set_stream i (?s\<lparr>current_devices := devs AND AUDIO_DEVICE_IN_ALL A OR AUDIO_DEVICE_BIT_IN A\<rparr>)
      (cm\<lparr>devices := d2 # ds2, mlog := h2\<rparr>))"
    using assms(4,7,10) r1(1) r2(1) by (simp add: apply_route_def Let_def on_devices_def)
  moreover have "dev_type d \<noteq> 0" using assms(11) by auto
  then have "\<not> uses A (?s\<lparr>current_devices := w\<rparr>) d" for w using assms(5,7) by (simp add: uses_def)
  ultimately show ?thesis using assms(2) r1(4) r2(2) by simp
qed

section \<open>Concrete runs\<close>

definition test_masks :: audio_masks where
  "test_masks = \<lparr>AUDIO_DEVICE_BIT_IN = 0x80000000, AUDIO_DEVICE_IN_ALL = 0x801FFFFF, AUDIO_DEVICE_OUT_ALL = 0x403FFFFF,
     AUDIO_DEVICE_OUT_SPEAKER = 0x2, AUDIO_DEVICE_OUT_EARPIECE = 0x1, AUDIO_DEVICE_OUT_WIRED_HEADSET = 0x4,
     AUDIO_DEVICE_IN_WIRED_HEADSET = 0x80000010, AUDIO_DEVICE_OUT_WIRED_HEADPHONE = 0x8, AUDIO_DEVICE_OUT_ALL_SCO = 0x70,
     AUDIO_DEVICE_IN_ALL_SCO = 0x80000008, AUDIO_DEVICE_OUT_ALL_A2DP = 0x380, AUDIO_DEVICE_OUT_ALL_USB = 0x6000,
     AUDIO_DEVICE_IN_BUILTIN_MIC = 0x80000004, AUDIO_DEVICE_IN_BACK_MIC = 0x80000080, AUDIO_DEVICE_IN_VOICE_CALL = 0x80000040,
     AUDIO_DEVICE_IN_AUX_DIGITAL = 0x80000020\<rparr>"

definition on_off_device :: "u32 \<Rightarrow> device" where
  "on_off_device t = \<lparr>dev_type = t, use_count = 0, dev_paths = [\<lparr>path_id = 1, path_ctls = []\<rparr>, \<lparr>path_id = 0, path_ctls = []\<rparr>]\<rparr>"

definition test_stream :: "hw_stream_type \<Rightarrow> stream" where
  "test_stream ty = \<lparr>info = \<lparr>st_type = ty, card_number = Some 1, device_number = Some 0, rate = 48000, period_size = 0, period_count = 0\<rparr>,
     s_name = None, ref_count = 0, max_ref_count = 2, enable_path = -1, disable_path = -1, current_devices = 0,
     volume_left = \<lparr>sc_id = Some 0, sc_index = 0, sc_min = 0, sc_max = 63\<rparr>,
     volume_right = \<lparr>sc_id = None, sc_index = 0, sc_min = 0, sc_max = 0\<rparr>, usecases = []\<rparr>"

text \<open>A headset and the built-in microphone share a bit, as they do on the device.\<close>

definition test_audio_config :: config_mgr where
  "test_audio_config = \<lparr>cm_mixer = [], supported_output_devices = 0x4, supported_input_devices = 0x80000004,
     devices = [on_off_device 0x4, on_off_device 0x80000004], streams = [test_stream e_stream_out_pcm, test_stream e_stream_in_pcm], mlog = []\<rparr>"

definition test_card :: card where
  "test_card h c = \<lparr>m_ret = 0, m_bytes = []\<rparr>"

lemma test_config_safe: "config_safe test_audio_config"
  by (simp add: config_safe_def test_audio_config_def devices_ok_def device_ok_def on_off_device_def path_ok_def usecases_ok_def test_stream_def)

lemma one_bit_push: "one_bit (push_bit n 1)"
  unfolding one_bit_def bit_push_bit_iff bit_1_iff by auto

lemma one_bit_4: "one_bit 4"
  using one_bit_push [of 2] by (simp add: push_bit_eq_mult)

lemma test_layout: "layout_ok test_masks (devices test_audio_config)"
  by (simp add: layout_ok_def test_masks_def test_audio_config_def on_off_device_def top_bit_value is_input_device_def low_def one_bit_4 All_less_Suc)

lemma test_idle: "config_idle test_masks test_audio_config"
  using test_layout test_config_safe
  by (simp add: config_idle_def) (simp add: test_audio_config_def on_off_device_def test_stream_def e_path_id_off_def e_path_id_on_def)

lemma test_opened:
  "get_stream test_masks test_card 4 True test_audio_config =
     Some (Some 0, set_stream 0 ((test_stream e_stream_out_pcm)\<lparr>ref_count := 1\<rparr>) test_audio_config)"
proof -
  have "wanted_type test_masks 4 True = e_stream_out_pcm" by (simp add: wanted_type_def test_masks_def)
  then show ?thesis
    by (simp add: get_stream_def test_audio_config_def test_stream_def open_stream_l_def Let_def on_devices_def on_off_device_def set_stream_def)
qed

theorem device_use_counted_witness:
  "\<exists>cm'. (audio_step test_masks test_card)\<^sup>*\<^sup>* test_audio_config cm' \<and> current_devices (streams cm' ! 0) = 4 \<and>
    (\<forall>d \<in> set (devices cm'). switchable d \<longrightarrow> use_count d = int (length (filter (\<lambda>s. uses test_masks s d) (streams cm'))))"
proof -
  let ?cm1 = "set_stream 0 ((test_stream e_stream_out_pcm)\<lparr>ref_count := 1\<rparr>) test_audio_config"
  have s1: "audio_step test_masks test_card test_audio_config ?cm1" using step_get [OF test_opened] .
  have inv1: "audio_inv test_masks ?cm1" using audio_step_inv [OF s1 config_idle_inv [OF test_idle]] .
  have i: "0 < length (streams ?cm1)" "ref_count (streams ?cm1 ! 0) > 0" by (simp_all add: test_audio_config_def)
  have safe: "safe_route test_masks ?cm1 0 4"
    by (simp add: safe_route_def Let_def) (simp add: test_audio_config_def test_stream_def stream_is_input_def test_masks_def on_off_device_def is_input_device_def)
  obtain cm2 where r: "apply_route test_masks test_card 0 4 ?cm1 = Some cm2" "current_devices (streams cm2 ! 0) = 4"
    using apply_route_inv [OF inv1 i safe] by blast
  have s2: "audio_step test_masks test_card ?cm1 cm2" using step_route [OF i safe r(1)] .
  have reach: "(audio_step test_masks test_card)\<^sup>*\<^sup>* test_audio_config cm2" using s1 s2 by auto
  show ?thesis using reach r(2) device_use_counted [OF test_idle reach] by blast
qed

lemma test_volume_ok: "volume_ok (volume_left (streams test_audio_config ! 0))" "volume_ok (volume_right (streams test_audio_config ! 0))"
  by (simp_all add: volume_ok_def test_audio_config_def test_stream_def)

theorem volume_in_range_witness:
  "\<exists>ws. mlog (snd (set_hw_volume test_card 0 50 70 test_audio_config)) = mlog test_audio_config @ ws \<and> length ws \<le> 2 \<and>
    (\<forall>w \<in> set ws. volume_write (volume_left (streams test_audio_config ! 0)) w \<or> volume_write (volume_right (streams test_audio_config ! 0)) w)"
  using volume_in_range [OF test_volume_ok, of 50 70 test_card "fst (set_hw_volume test_card 0 50 70 test_audio_config)" "snd (set_hw_volume test_card 0 50 70 test_audio_config)"]
  by simp

definition recording_config :: config_mgr where
  "recording_config = set_stream 1 ((test_stream e_stream_in_pcm)\<lparr>ref_count := 1, current_devices := 0x80000010\<rparr>) test_audio_config"

theorem input_switch_misroutes_witness:
  "\<exists>cm'. apply_route test_masks test_card 1 0x80000004 recording_config = Some cm' \<and> use_count (hd (devices cm')) = 1 \<and>
    \<not> uses test_masks (streams cm' ! 1) (on_off_device 4)"
proof -
  have safe: "config_safe recording_config" unfolding recording_config_def
    by (rule set_stream_safe [OF test_config_safe]) (simp_all add: test_audio_config_def test_stream_def)
  have "\<exists>cm'. apply_route test_masks test_card 1 0x80000004 recording_config = Some cm' \<and> use_count (hd (devices cm')) = use_count (on_off_device 4) + 1 \<and>
    \<not> uses test_masks (streams cm' ! 1) (on_off_device 4)"
    by (rule input_switch_misroutes [OF safe, where ds = "[on_off_device 0x80000004]"])
       (simp_all add: recording_config_def test_audio_config_def test_masks_def test_stream_def top_bit_value on_off_device_def is_input_device_def
         switchable_def path_ids_def e_path_id_on_def e_path_id_off_def stream_is_input_def)
  then show ?thesis by (simp add: on_off_device_def)
qed

section \<open>Numbers\<close>

lemma hex_value_digit: "digit c \<Longrightarrow> hex_value c = Some (of_char c - 48) \<and> of_char c - 48 < (10 :: int)"
  by (simp add: digit_def hex_value_def Let_def)

lemma digits_in_decimal: "\<forall>c \<in> set s. digit c \<Longrightarrow> digits_in 10 n s = (digits n s, [])"
  by (induction s arbitrary: n) (simp_all add: hex_value_digit)

lemma itoa_nat_head: "n \<noteq> 0 \<Longrightarrow> hd (itoa_nat n) \<noteq> CHR ''0''"
proof (induction n rule: itoa_nat.induct)
  case (1 n)
  show ?case
  proof (cases "n < 10")
    case True
    have "of_char (digit_char n) = (48 + int n)" using digit_char_code [OF True] by simp
    then have "digit_char n \<noteq> CHR ''0''" using 1(2) by auto
    then show ?thesis using True by (simp add: itoa_nat.simps [of n])
  next
    case False
    then have "hd (itoa_nat (n div 10)) \<noteq> CHR ''0''" using 1(1) by simp
    then show ?thesis using False by (simp add: itoa_nat.simps [of n])
  qed
qed

text \<open>A decimal number is read back; a number with a leading zero is read in base eight, although the comment of the
  source speaks of decimal and hexadecimal numbers only.\<close>

lemma string_to_uint_decimal:
  assumes "n < 2 ^ 32"
  shows "string_to_uint (Some (itoa_nat n)) = Inr (word_of_nat n)"
proof -
  let ?t = "itoa_nat n"
  have dig: "\<forall>c \<in> set ?t. digit c" using itoa_nat_digits .
  have hd: "digit (hd ?t)" using dig by simp
  obtain c cs where t: "?t = c # cs" by (metis itoa_nat_nonempty neq_Nil_conv)
  have c: "\<not> blank c" "c \<noteq> CHR ''-''" "c \<noteq> CHR ''+''" using not_digit_special [of c] hd t by auto
  have d10: "digits_in 10 0 ?t = (int n, [])" using digits_in_decimal [OF dig, of 0] digits_itoa_nat [of "[]" n] by simp
  show ?thesis
  proof (cases "n = 0")
    case True
    have "of_char (digit_char 0) = (of_char (CHR ''0'') :: int)" by simp
    then have "digit_char 0 = CHR ''0''" by (simp only: of_char_eq_iff)
    then have "?t = ''0''" using True by (simp add: itoa_nat.simps [of 0])
    then show ?thesis using True by (simp add: string_to_uint_def strtoul_def is_digit_in_def hex_value_def ULONG_MAX_def blank_def)
  next
    case False
    then have c0: "c \<noteq> CHR ''0''" using itoa_nat_head [OF False] t by simp
    have first: "is_digit_in 10 ?t" using hex_value_digit hd t by (simp add: is_digit_in_def)
    have "strtoul ?t = Some (word_of_int (int n), [])"
      using c c0 first d10 assms t by (simp add: strtoul_def ULONG_MAX_def)
    then show ?thesis by (simp add: string_to_uint_def)
  qed
qed

lemma string_to_uint_octal: "string_to_uint (Some ''010'') = Inr 8"
  by (simp add: string_to_uint_def strtoul_def is_digit_in_def hex_value_def ULONG_MAX_def blank_def)

end
