(* ===== verification/AudioParseSafe.thy ===== *)
theory AudioParseSafe
  imports AudioParse AudioProps
begin

text \<open>
  Safety of the reader of the audio configuration: whatever a well-formed document holds, the stack of
  open elements stays in its array and every pointer to a current object is valid when it is followed.
\<close>

section \<open>Stacks\<close>

text \<open>The open elements, innermost first, that the element table allows.\<close>

definition shapes :: "element_index list list" where
  "shapes = [[], [e_elem_audiohal], [e_elem_mixer, e_elem_audiohal], [e_elem_init, e_elem_mixer, e_elem_audiohal],
     [e_elem_ctl, e_elem_init, e_elem_mixer, e_elem_audiohal], [e_elem_codec_probe, e_elem_audiohal],
     [e_elem_codec_case, e_elem_codec_probe, e_elem_audiohal], [e_elem_device, e_elem_audiohal],
     [e_elem_path, e_elem_device, e_elem_audiohal], [e_elem_ctl, e_elem_path, e_elem_device, e_elem_audiohal],
     [e_elem_stream, e_elem_audiohal], [e_elem_stream_ctl, e_elem_stream, e_elem_audiohal],
     [e_elem_enable, e_elem_stream, e_elem_audiohal], [e_elem_disable, e_elem_stream, e_elem_audiohal],
     [e_elem_usecase, e_elem_stream, e_elem_audiohal], [e_elem_case, e_elem_usecase, e_elem_stream, e_elem_audiohal],
     [e_elem_ctl, e_elem_case, e_elem_usecase, e_elem_stream, e_elem_audiohal]]"

definition elems :: "(element_index \<times> element_index list) list \<Rightarrow> element_index list" where
  "elems st = map fst (butlast st)"

definition entry_ok :: "element_index \<times> element_index list \<Rightarrow> bool" where
  "entry_ok q \<longleftrightarrow> snd q = valid_subelem (elem_table (fst q)) \<or> (fst q = e_elem_audiohal \<and> snd q = [e_elem_device, e_elem_stream])"

definition stack_ok :: "(element_index \<times> element_index list) list \<Rightarrow> bool" where
  "stack_ok st \<longleftrightarrow> st \<noteq> [] \<and> snd (last st) = [e_elem_audiohal] \<and> elems st \<in> set shapes \<and> (\<forall>q \<in> set (butlast st). entry_ok q)"

lemma elems_Cons: "st \<noteq> [] \<Longrightarrow> elems ((e, v) # st) = e # elems st"
  by (simp add: elems_def)

text \<open>The table only ever allows one of the shapes, so the array of six entries is enough.\<close>

lemma shapes_closed:
  "list_all (\<lambda>S. case S of [] \<Rightarrow> True | t # T \<Rightarrow> list_all (\<lambda>e. List.member shapes (e # S)) (valid_subelem (elem_table t)) \<and> List.member shapes T) shapes"
  "list_all (\<lambda>S. case S of [] \<Rightarrow> True | t # T \<Rightarrow> t = e_elem_audiohal \<longrightarrow> List.member shapes (e_elem_device # S) \<and> List.member shapes (e_elem_stream # S)) shapes"
  "list_all (\<lambda>S. length S \<le> 5) shapes"
  by code_simp+

lemma shape_step: "t # T \<in> set shapes \<Longrightarrow> e \<in> set (valid_subelem (elem_table t)) \<Longrightarrow> e # t # T \<in> set shapes"
  using shapes_closed(1) by (fastforce simp: list_all_iff)

lemma shape_device: "e_elem_audiohal # T \<in> set shapes \<Longrightarrow> e = e_elem_device \<or> e = e_elem_stream \<Longrightarrow> e # e_elem_audiohal # T \<in> set shapes"
  using shapes_closed(2) by (fastforce simp: list_all_iff)

lemma shape_tail: "e # S \<in> set shapes \<Longrightarrow> S \<in> set shapes"
  using shapes_closed(1) by (fastforce simp: list_all_iff)

lemma shape_length: "S \<in> set shapes \<Longrightarrow> length S \<le> 5"
  using shapes_closed(3) by (simp add: list_all_iff)

lemma stack_ok_push:
  assumes ok: "stack_ok ((p, valid) # st)" and e: "e \<in> set valid"
  shows "stack_ok ((e, valid_subelem (elem_table e)) # (p, valid) # st)"
proof -
  have "e # elems ((p, valid) # st) \<in> set shapes"
  proof (cases "st = []")
    case True
    then show ?thesis using ok e by (simp add: stack_ok_def elems_def shapes_def)
  next
    case False
    then have S: "elems ((p, valid) # st) = p # elems st" by (rule elems_Cons)
    have sh: "p # elems st \<in> set shapes" using ok S by (simp add: stack_ok_def)
    have "entry_ok (p, valid)" using ok False by (simp add: stack_ok_def)
    then show ?thesis using e sh shape_step [OF sh, of e] shape_device [of "elems st" e] unfolding S by (auto simp: entry_ok_def)
  qed
  then show ?thesis using ok by (simp add: stack_ok_def elems_Cons entry_ok_def)
qed

lemma stack_ok_pop: "stack_ok ((e, v) # st) \<Longrightarrow> st \<noteq> [] \<Longrightarrow> stack_ok st"
  using shape_tail [of e "elems st"] by (auto simp: stack_ok_def elems_Cons)

lemma stack_ok_depth: "stack_ok st \<Longrightarrow> length st \<le> MAX_PARSE_DEPTH"
  using shape_length [of "elems st"] by (cases st rule: rev_cases) (auto simp: stack_ok_def elems_def MAX_PARSE_DEPTH_def)

section \<open>Attributes\<close>

lemma match_attribs_source:
  "match_attribs valid as vals req = Some (vals', req') \<Longrightarrow> vals' a = Some v \<Longrightarrow> vals a = Some v \<or> (attrib_table a, v) \<in> set as"
proof (induction valid as vals req arbitrary: vals' req' rule: match_attribs.induct)
  case (2 valid n v' as vals req)
  then obtain b where b: "find (\<lambda>a. a \<in> set valid \<and> attrib_table a = n) all_attribs = Some b" by (auto split: option.splits)
  then have n: "attrib_table b = n" by (auto simp: find_Some_iff)
  have m: "match_attribs valid as (vals(b \<mapsto> v')) (filter (\<lambda>c. c \<noteq> b) req) = Some (vals', req')" using 2(2) b by simp
  show ?case using 2(1) [OF b m 2(3)] n by (auto split: if_splits)
qed auto

lemma match_attribs_required:
  "match_attribs valid as vals req = Some (vals', req') \<Longrightarrow> a \<in> set req \<Longrightarrow> a \<in> set req' \<or> vals' a \<noteq> None"
proof -
  have keep: "match_attribs valid as vals req = Some (vals', req') \<Longrightarrow> vals a \<noteq> None \<Longrightarrow> vals' a \<noteq> None" for valid as vals req vals' req' a
    by (induction valid as vals req arbitrary: vals' req' rule: match_attribs.induct) (auto split: option.splits)
  show "match_attribs valid as vals req = Some (vals', req') \<Longrightarrow> a \<in> set req \<Longrightarrow> a \<in> set req' \<or> vals' a \<noteq> None"
  proof (induction valid as vals req arbitrary: vals' req' rule: match_attribs.induct)
    case (2 valid n v as vals req)
    then obtain b where b: "find (\<lambda>a. a \<in> set valid \<and> attrib_table a = n) all_attribs = Some b" by (auto split: option.splits)
    then have m: "match_attribs valid as (vals(b \<mapsto> v)) (filter (\<lambda>c. c \<noteq> b) req) = Some (vals', req')" using 2(2) by simp
    show ?case
    proof (cases "a = b")
      case True
      then show ?thesis using keep [OF m, of a] by simp
    next
      case False
      then show ?thesis using 2(1) [OF b m] 2(3) by simp
    qed
  qed auto
qed

lemma extract_attribs_ok:
  assumes "extract_attribs e as = Some vals"
  shows "a \<in> set (required_attribs (elem_table e)) \<Longrightarrow> \<exists>v. vals a = Some v" "vals a = Some v \<Longrightarrow> (attrib_table a, v) \<in> set as"
proof -
  have m: "match_attribs (valid_attribs (elem_table e)) as (\<lambda>_. None) (required_attribs (elem_table e)) = Some (vals, [])"
    using assms by (auto simp: extract_attribs_def split: option.splits list.splits)
  show "a \<in> set (required_attribs (elem_table e)) \<Longrightarrow> \<exists>v. vals a = Some v" using match_attribs_required [OF m, of a] by auto
  show "vals a = Some v \<Longrightarrow> (attrib_table a, v) \<in> set as" using match_attribs_source [OF m, of a v] by simp
qed

section \<open>Pointers\<close>

definition n_devices :: "parse_state \<Rightarrow> nat" where "n_devices s = length (devices (ps_cm s))"
definition n_paths :: "parse_state \<Rightarrow> nat" where "n_paths s = length (dev_paths (last (devices (ps_cm s))))"
definition n_streams :: "parse_state \<Rightarrow> nat" where "n_streams s = length (streams (ps_cm s))"
definition n_usecases :: "parse_state \<Rightarrow> nat" where "n_usecases s = length (usecases (last (streams (ps_cm s))))"
definition n_cases :: "parse_state \<Rightarrow> nat" where "n_cases s = length (uc_cases (last (usecases (last (streams (ps_cm s))))))"

lemmas counts = n_devices_def n_paths_def n_streams_def n_usecases_def n_cases_def

text \<open>The pointers an open element relies on.\<close>

definition ptr_ok :: "element_index list \<Rightarrow> parse_state \<Rightarrow> bool" where
  "ptr_ok es s \<longleftrightarrow>
     (e_elem_device \<in> set es \<longrightarrow> n_devices s > 0 \<and> cur_device s = Some (n_devices s - 1)) \<and>
     (e_elem_path \<in> set es \<longrightarrow> n_devices s > 0 \<and> n_paths s > 0 \<and> cur_path s = Some (DevicePath (n_devices s - 1) (n_paths s - 1))) \<and>
     (e_elem_path \<notin> set es \<longrightarrow> cur_path s = None \<or> cur_path s = Some InitPath) \<and>
     (e_elem_init \<in> set es \<longrightarrow> cur_path s = Some InitPath) \<and>
     (e_elem_stream \<in> set es \<longrightarrow> n_streams s > 0 \<and> cur_stream s = Some (n_streams s - 1)) \<and>
     (e_elem_usecase \<in> set es \<longrightarrow> n_streams s > 0 \<and> n_usecases s > 0 \<and> cur_usecase s = Some (n_streams s - 1, n_usecases s - 1)) \<and>
     (e_elem_case \<in> set es \<longrightarrow> n_streams s > 0 \<and> n_usecases s > 0 \<and> n_cases s > 0 \<and>
        cur_scase s = Some (n_streams s - 1, n_usecases s - 1, n_cases s - 1)) \<and>
     (e_elem_codec_probe \<in> set es \<longrightarrow> cur_probe s \<and> probe_file s \<noteq> None)"

definition content_ok :: "parse_state \<Rightarrow> bool" where
  "content_ok s \<longleftrightarrow> config_safe (ps_cm s) \<and> (\<forall>c \<in> set (init_path s). ctl_ok (cm_mixer (ps_cm s)) c)"

definition handled :: "element_index list \<Rightarrow> parse_state \<Rightarrow> int \<times> parse_state \<Rightarrow> bool" where
  "handled es s q \<longleftrightarrow> (case q of (r, s') \<Rightarrow> stack s' = stack s \<and> status s' = status s \<and> new_xml_file s' = new_xml_file s \<and>
     (r = 0 \<longrightarrow> ptr_ok es s' \<and> content_ok s'))"

lemma at_last_Some: "xs \<noteq> [] \<Longrightarrow> at_last (Some (length xs - 1)) f xs = map_option (\<lambda>(r, x). (r, butlast xs @ [x])) (f (last xs))"
  by (simp add: at_last_def)

lemma set_replace_last: "y \<in> set (butlast xs @ [x]) \<Longrightarrow> y = x \<or> y \<in> set xs"
  by (auto dest: in_set_butlastD)

lemma devices_ok_replace: "devices_ok m ds \<Longrightarrow> device_ok m d \<Longrightarrow> devices_ok m (butlast ds @ [d])"
  by (auto simp: devices_ok_def dest: in_set_butlastD)

lemma on_device_run:
  assumes "n_devices s > 0" "cur = Some (n_devices s - 1)" "f (last (devices (ps_cm s))) = Some (r, d)"
  shows "on_device cur f s = Some (r, set_devices (butlast (devices (ps_cm s)) @ [d]) s)"
  using assms by (simp add: on_device_def n_devices_def at_last_def)

lemma on_stream_run:
  assumes "n_streams s > 0" "cur = Some (n_streams s - 1)" "f (last (streams (ps_cm s))) = Some (r, st)"
  shows "on_stream cur f s = Some (r, set_streams (butlast (streams (ps_cm s)) @ [st]) s)"
  using assms by (simp add: on_stream_def n_streams_def at_last_def)

lemma ptr_ok_leaf:
  "e \<notin> {e_elem_device, e_elem_path, e_elem_init, e_elem_stream, e_elem_usecase, e_elem_case, e_elem_codec_probe} \<Longrightarrow> ptr_ok (e # S) s = ptr_ok S s"
  by (cases e) (simp_all add: ptr_ok_def)

lemma ptr_ok_cong:
  assumes "n_devices s' = n_devices s" "n_paths s' = n_paths s" "n_streams s' = n_streams s" "n_usecases s' = n_usecases s" "n_cases s' = n_cases s"
    "cur_device s' = cur_device s" "cur_path s' = cur_path s" "cur_stream s' = cur_stream s" "cur_usecase s' = cur_usecase s"
    "cur_scase s' = cur_scase s" "cur_probe s' = cur_probe s" "probe_file s' = probe_file s"
  shows "ptr_ok S s' = ptr_ok S s"
  by (simp only: ptr_ok_def assms)

lemma set_devices_sel [simp]:
  "devices (ps_cm (set_devices ds s)) = ds" "streams (ps_cm (set_devices ds s)) = streams (ps_cm s)" "cm_mixer (ps_cm (set_devices ds s)) = cm_mixer (ps_cm s)"
  "cur_device (set_devices ds s) = cur_device s" "cur_path (set_devices ds s) = cur_path s" "cur_stream (set_devices ds s) = cur_stream s"
  "cur_usecase (set_devices ds s) = cur_usecase s" "cur_scase (set_devices ds s) = cur_scase s" "cur_probe (set_devices ds s) = cur_probe s"
  "probe_file (set_devices ds s) = probe_file s" "stack (set_devices ds s) = stack s" "status (set_devices ds s) = status s"
  "new_xml_file (set_devices ds s) = new_xml_file s" "init_path (set_devices ds s) = init_path s"
  by (simp_all add: set_devices_def)

lemma set_streams_sel [simp]:
  "devices (ps_cm (set_streams ss s)) = devices (ps_cm s)" "streams (ps_cm (set_streams ss s)) = ss" "cm_mixer (ps_cm (set_streams ss s)) = cm_mixer (ps_cm s)"
  "cur_device (set_streams ss s) = cur_device s" "cur_path (set_streams ss s) = cur_path s" "cur_stream (set_streams ss s) = cur_stream s"
  "cur_usecase (set_streams ss s) = cur_usecase s" "cur_scase (set_streams ss s) = cur_scase s" "cur_probe (set_streams ss s) = cur_probe s"
  "probe_file (set_streams ss s) = probe_file s" "stack (set_streams ss s) = stack s" "status (set_streams ss s) = status s"
  "new_xml_file (set_streams ss s) = new_xml_file s" "init_path (set_streams ss s) = init_path s"
  by (simp_all add: set_streams_def)

lemma content_set_devices:
  "content_ok s \<Longrightarrow> device_ok (cm_mixer (ps_cm s)) d \<Longrightarrow> content_ok (set_devices (butlast (devices (ps_cm s)) @ [d]) s)"
  by (simp add: content_ok_def config_safe_def devices_ok_replace)

lemma content_set_streams:
  "content_ok s \<Longrightarrow> usecases_ok (cm_mixer (ps_cm s)) st \<Longrightarrow> content_ok (set_streams (butlast (streams (ps_cm s)) @ [st]) s)"
  by (auto simp: content_ok_def config_safe_def dest: in_set_butlastD)

lemma last_device_ok: "content_ok s \<Longrightarrow> n_devices s > 0 \<Longrightarrow> device_ok (cm_mixer (ps_cm s)) (last (devices (ps_cm s)))"
  by (auto simp: content_ok_def config_safe_def devices_ok_def n_devices_def)

lemma last_stream_ok: "content_ok s \<Longrightarrow> n_streams s > 0 \<Longrightarrow> usecases_ok (cm_mixer (ps_cm s)) (last (streams (ps_cm s)))"
  by (auto simp: content_ok_def config_safe_def n_streams_def)

section \<open>Controls\<close>

definition index_ok :: "parse_state \<Rightarrow> bool" where
  "index_ok s \<longleftrightarrow> (\<forall>v. attribs s e_attrib_index = Some v \<longrightarrow> (\<exists>w. string_to_uint (Some v) = Inr w))"

lemma uint_or_index: "index_ok s \<Longrightarrow> \<exists>i. uint_or d f s e_attrib_index = Some i"
  by (cases "attribs s e_attrib_index") (auto simp: index_ok_def uint_or_def attrib_to_uint_def string_to_uint_def errno_defs)

lemma add_ctl_ok:
  assumes "index_ok s" "attribs s e_attrib_val = Some v" "\<forall>c \<in> set ctls. ctl_ok (cm_mixer (ps_cm s)) c"
  shows "\<exists>r ctls'. add_ctl s name ctls = Some (r, ctls') \<and> (\<forall>c \<in> set ctls'. ctl_ok (cm_mixer (ps_cm s)) c)"
proof (cases "grow_list (new_ctl name) ctls")
  case None
  then show ?thesis using assms(3) by (simp add: add_ctl_def)
next
  case (Some l)
  obtain i where i: "uint_or INVALID_CTL_INDEX (\<lambda>v. v) s e_attrib_index = Some i" using uint_or_index [OF assms(1), of INVALID_CTL_INDEX "\<lambda>v. v"] by blast
  let ?c = "(new_ctl name)\<lparr>ctl_index := i, ctl_value := CtlString v\<rparr>"
  obtain r c where o: "ctl_open (cm_mixer (ps_cm s)) ?c = (r, c)" by fastforce
  have "ctl_ok (cm_mixer (ps_cm s)) ?c" by (simp add: ctl_ok_def new_ctl_def)
  then have "ctl_ok (cm_mixer (ps_cm s)) c" using ctl_open_ok [OF _ o] by blast
  then show ?thesis using Some i assms(2,3) o by (simp add: add_ctl_def with_attrib_def)
qed

lemma path_ctls_run:
  assumes "n_devices s > 0" "n_paths s > 0" "content_ok s" "\<And>ctls. \<forall>c \<in> set ctls. ctl_ok (cm_mixer (ps_cm s)) c \<Longrightarrow>
    \<exists>r ctls'. f ctls = Some (r, ctls') \<and> (\<forall>c \<in> set ctls'. ctl_ok (cm_mixer (ps_cm s)) c)"
  shows "\<exists>r d. on_device (Some (n_devices s - 1)) (in_paths (Some (n_paths s - 1)) (in_path_ctls f)) s =
      Some (r, set_devices (butlast (devices (ps_cm s)) @ [d]) s) \<and>
    device_ok (cm_mixer (ps_cm s)) d \<and> length (dev_paths d) = n_paths s"
proof -
  let ?d = "last (devices (ps_cm s))"
  have ok: "device_ok (cm_mixer (ps_cm s)) ?d" using last_device_ok [OF assms(3,1)] .
  have ne: "dev_paths ?d \<noteq> []" using assms(2) by (simp add: n_paths_def)
  then have "path_ok (cm_mixer (ps_cm s)) (last (dev_paths ?d))" using ok by (simp add: device_ok_def)
  then obtain r ctls' where f: "f (path_ctls (last (dev_paths ?d))) = Some (r, ctls')" "\<forall>c \<in> set ctls'. ctl_ok (cm_mixer (ps_cm s)) c"
    using assms(4) unfolding path_ok_def by blast
  let ?p = "(last (dev_paths ?d))\<lparr>path_ctls := ctls'\<rparr>"
  have in_p: "in_paths (Some (n_paths s - 1)) (in_path_ctls f) ?d = Some (r, ?d\<lparr>dev_paths := butlast (dev_paths ?d) @ [?p]\<rparr>)"
    using f(1) ne by (simp add: in_paths_def in_path_ctls_def at_last_def n_paths_def)
  have "device_ok (cm_mixer (ps_cm s)) (?d\<lparr>dev_paths := butlast (dev_paths ?d) @ [?p]\<rparr>)"
    using ok f(2) by (auto simp: device_ok_def path_ok_def dest: in_set_butlastD)
  then show ?thesis using on_device_run [OF assms(1) refl, of "in_paths (Some (n_paths s - 1)) (in_path_ctls f)", OF in_p] ne by (auto simp: n_paths_def)
qed

lemma case_ctls_run:
  assumes "n_streams s > 0" "n_usecases s > 0" "n_cases s > 0" "content_ok s" "\<And>ctls. \<forall>c \<in> set ctls. ctl_ok (cm_mixer (ps_cm s)) c \<Longrightarrow>
    \<exists>r ctls'. f ctls = Some (r, ctls') \<and> (\<forall>c \<in> set ctls'. ctl_ok (cm_mixer (ps_cm s)) c)"
  shows "\<exists>r st. on_stream (Some (n_streams s - 1)) (in_usecases (Some (n_usecases s - 1)) (in_cases (Some (n_cases s - 1)) (in_case_ctls f))) s =
      Some (r, set_streams (butlast (streams (ps_cm s)) @ [st]) s) \<and>
    usecases_ok (cm_mixer (ps_cm s)) st \<and> length (usecases st) = n_usecases s \<and> length (uc_cases (last (usecases st))) = n_cases s"
proof -
  let ?st = "last (streams (ps_cm s))"
  let ?u = "last (usecases ?st)"
  let ?c = "last (uc_cases ?u)"
  have ok: "usecases_ok (cm_mixer (ps_cm s)) ?st" using last_stream_ok [OF assms(4,1)] .
  have ne: "usecases ?st \<noteq> []" "uc_cases ?u \<noteq> []" using assms(2,3) by (simp_all add: counts)
  then have "?u \<in> set (usecases ?st)" "?c \<in> set (uc_cases ?u)" by simp_all
  then have "\<forall>x \<in> set (case_ctls ?c). ctl_ok (cm_mixer (ps_cm s)) x" using ok unfolding usecases_ok_def by blast
  then obtain r ctls' where f: "f (case_ctls ?c) = Some (r, ctls')" "\<forall>c \<in> set ctls'. ctl_ok (cm_mixer (ps_cm s)) c" using assms(5) by blast
  let ?u' = "?u\<lparr>uc_cases := butlast (uc_cases ?u) @ [?c\<lparr>case_ctls := ctls'\<rparr>]\<rparr>"
  have run: "in_usecases (Some (n_usecases s - 1)) (in_cases (Some (n_cases s - 1)) (in_case_ctls f)) ?st = Some (r, ?st\<lparr>usecases := butlast (usecases ?st) @ [?u']\<rparr>)"
    using f(1) ne by (simp add: in_usecases_def in_cases_def in_case_ctls_def at_last_def counts)
  have "usecases_ok (cm_mixer (ps_cm s)) (?st\<lparr>usecases := butlast (usecases ?st) @ [?u']\<rparr>)"
    using ok f(2) ne by (fastforce simp: usecases_ok_def dest: in_set_butlastD)
  then show ?thesis using on_stream_run [OF assms(1) refl, of "in_usecases (Some (n_usecases s - 1)) (in_cases (Some (n_cases s - 1)) (in_case_ctls f))", OF run] ne by (auto simp: counts)
qed

lemma parse_ctl_ok:
  assumes "e_elem_ctl # S \<in> set shapes" "ptr_ok S s" "content_ok s" "index_ok s" "attribs s e_attrib_name = Some name" "attribs s e_attrib_val = Some v"
  shows "\<exists>q. parse_ctl_start E s = Some q \<and> handled (e_elem_ctl # S) s q"
proof -
  note add = add_ctl_ok [OF assms(4,6)]
  have S: "e_elem_init \<in> set S \<or> e_elem_path \<in> set S \<or> e_elem_case \<in> set S" using assms(1) by (auto simp: shapes_def)
  consider (init) "cur_path s = Some InitPath"
    | (path) "n_devices s > 0" "n_paths s > 0" "cur_path s = Some (DevicePath (n_devices s - 1) (n_paths s - 1))"
    | (case_) "cur_path s = None" "n_streams s > 0" "n_usecases s > 0" "n_cases s > 0" "cur_scase s = Some (n_streams s - 1, n_usecases s - 1, n_cases s - 1)"
    using assms(2) S unfolding ptr_ok_def by fastforce
  then show ?thesis
  proof cases
    case init
    obtain r cs where "add_ctl s name (init_path s) = Some (r, cs)" "\<forall>c \<in> set cs. ctl_ok (cm_mixer (ps_cm s)) c"
      using add [of "init_path s" name] assms(3) by (auto simp: content_ok_def)
    moreover have "ptr_ok (e_elem_ctl # S) (s\<lparr>init_path := cs\<rparr>)" using assms(2) by (simp add: ptr_ok_leaf) (simp add: ptr_ok_def counts)
    ultimately show ?thesis using init assms(3,5) by (simp add: parse_ctl_start_def with_attrib_def handled_def content_ok_def)
  next
    case path
    obtain r d where run: "on_device (Some (n_devices s - 1)) (in_paths (Some (n_paths s - 1)) (in_path_ctls (add_ctl s name))) s =
        Some (r, set_devices (butlast (devices (ps_cm s)) @ [d]) s)" "device_ok (cm_mixer (ps_cm s)) d" "length (dev_paths d) = n_paths s"
      using path_ctls_run [OF path(1,2) assms(3), of "add_ctl s name"] add by blast
    let ?s = "set_devices (butlast (devices (ps_cm s)) @ [d]) s"
    have "ptr_ok S ?s = ptr_ok S s" using run(3) path(1) by (intro ptr_ok_cong) (simp_all add: counts)
    then show ?thesis using run path(3) assms(2,3,5) content_set_devices [OF assms(3) run(2)]
      by (simp add: parse_ctl_start_def with_attrib_def handled_def ptr_ok_leaf)
  next
    case case_
    obtain r st where run: "on_stream (Some (n_streams s - 1)) (in_usecases (Some (n_usecases s - 1)) (in_cases (Some (n_cases s - 1)) (in_case_ctls (add_ctl s name)))) s =
        Some (r, set_streams (butlast (streams (ps_cm s)) @ [st]) s)"
      "usecases_ok (cm_mixer (ps_cm s)) st" "length (usecases st) = n_usecases s" "length (uc_cases (last (usecases st))) = n_cases s"
      using case_ctls_run [OF case_(2-4) assms(3), of "add_ctl s name"] add by blast
    let ?s = "set_streams (butlast (streams (ps_cm s)) @ [st]) s"
    have "ptr_ok S ?s = ptr_ok S s" using run(3,4) case_(2) by (intro ptr_ok_cong) (simp_all add: counts)
    then show ?thesis using run case_(1,5) assms(2,3,5) content_set_streams [OF assms(3) run(2)]
      by (simp add: parse_ctl_start_def with_attrib_def handled_def ptr_ok_leaf)
  qed
qed

section \<open>Devices and paths\<close>

lemma push_cases: "push x xs = (0, xs @ [x]) \<or> push x xs = (-ENOMEM, xs)"
  by (auto simp: push_def grow_list_def)

lemma add_path_name_effect:
  assumes "add_path_name name s = (i, s')"
  shows "s' = s\<lparr>path_names := path_names s'\<rparr>"
  using assms by (auto simp: add_path_name_def Let_def split: if_splits option.splits)

lemma content_cong:
  "config_safe (ps_cm s') = config_safe (ps_cm s) \<Longrightarrow> init_path s' = init_path s \<Longrightarrow> cm_mixer (ps_cm s') = cm_mixer (ps_cm s) \<Longrightarrow>
   content_ok s' = content_ok s"
  by (simp add: content_ok_def)

lemma handled_error: "r \<noteq> 0 \<Longrightarrow> stack s' = stack s \<Longrightarrow> status s' = status s \<Longrightarrow> new_xml_file s' = new_xml_file s \<Longrightarrow> handled es s (r, s')"
  by (simp add: handled_def)

lemma parse_path_ok:
  assumes "ptr_ok [e_elem_device, e_elem_audiohal] s" "content_ok s" "attribs s e_attrib_name = Some name"
  shows "\<exists>q. parse_path_start E s = Some q \<and> handled [e_elem_path, e_elem_device, e_elem_audiohal] s q"
proof -
  obtain i s1 where a: "add_path_name name s = (i, s1)" by fastforce
  then have s1: "s1 = s\<lparr>path_names := path_names s1\<rparr>" by (rule add_path_name_effect)
  have flds: "ps_cm s1 = ps_cm s" "cur_device s1 = cur_device s" "stack s1 = stack s" "status s1 = status s" "new_xml_file s1 = new_xml_file s" "init_path s1 = init_path s"
    by (subst s1, simp)+
  have dev: "n_devices s1 > 0" "cur_device s1 = Some (n_devices s1 - 1)" using assms(1) flds by (auto simp: ptr_ok_def counts)
  show ?thesis
  proof (cases "i < 0")
    case True
    then show ?thesis using a assms(3) flds by (simp add: parse_path_start_def with_attrib_def handled_def)
  next
    case False
    let ?d = "last (devices (ps_cm s1))"
    consider (ok) "add_path i ?d = Some (0, ?d\<lparr>dev_paths := dev_paths ?d @ [new_path i]\<rparr>)" | (full) "add_path i ?d = Some (-ENOMEM, ?d\<lparr>dev_paths := dev_paths ?d\<rparr>)"
      using push_cases [of "new_path i" "dev_paths ?d"] by (auto simp: add_path_def)
    then show ?thesis
    proof cases
      case full
      then show ?thesis using a False assms(3) flds on_device_run [of s1 "cur_device s1" "add_path i", OF dev full] by (simp add: parse_path_start_def with_attrib_def handled_def)
    next
      case ok
      let ?d' = "?d\<lparr>dev_paths := dev_paths ?d @ [new_path i]\<rparr>"
      let ?s2 = "set_devices (butlast (devices (ps_cm s1)) @ [?d']) s1"
      have run: "on_device (cur_device s1) (add_path i) s1 = Some (0, ?s2)" using on_device_run [of s1 "cur_device s1" "add_path i", OF dev ok] .
      have cont1: "content_ok s1" using assms(2) flds by (simp add: content_ok_def)
      have "device_ok (cm_mixer (ps_cm s1)) ?d'" using last_device_ok [OF cont1 dev(1)] by (auto simp: device_ok_def path_ok_def new_path_def)
      then have cont: "content_ok ?s2" using content_set_devices [OF cont1] by blast
      have new: "newest_path ?s2 = Some (DevicePath (n_devices s1 - 1) (length (dev_paths ?d)))"
        using dev by (simp add: newest_path_def n_devices_def nth_append)
      have "ptr_ok [e_elem_path, e_elem_device, e_elem_audiohal] (?s2\<lparr>cur_path := newest_path ?s2\<rparr>)"
        using dev new by (simp add: ptr_ok_def counts)
      moreover have "content_ok (?s2\<lparr>cur_path := newest_path ?s2\<rparr>)" using cont by (simp add: content_ok_def)
      ultimately show ?thesis using a False assms(3) run flds by (simp add: parse_path_start_def with_attrib_def handled_def)
    qed
  qed
qed

lemma add_supported_effect:
  "add_supported A flag cm = Some cm' \<Longrightarrow> devices cm' = devices cm \<and> streams cm' = streams cm \<and> cm_mixer cm' = cm_mixer cm"
  by (auto simp: add_supported_def split: if_splits)

lemma parse_device_ok:
  assumes "ptr_ok [e_elem_audiohal] s" "content_ok s" "attribs s e_attrib_name = Some name"
  shows "\<exists>q. parse_device_start E s = Some q \<and> handled [e_elem_device, e_elem_audiohal] s q"
proof (cases "parse_match_device (masks E) name")
  case None
  then show ?thesis using assms(3) by (simp add: parse_device_start_def with_attrib_def handled_def)
next
  case (Some flag)
  show ?thesis
  proof (cases "add_supported (masks E) flag (ps_cm s)")
    case None
    then show ?thesis using assms(3) Some by (simp add: parse_device_start_def with_attrib_def handled_def)
  next
    case cm: (Some cm)
    have eff: "devices cm = devices (ps_cm s)" "streams cm = streams (ps_cm s)" "cm_mixer cm = cm_mixer (ps_cm s)" using add_supported_effect [OF cm] by auto
    have cont: "config_safe (cm\<lparr>devices := devices (ps_cm s) @ [new_device flag]\<rparr>)"
      using assms(2) eff by (simp add: content_ok_def config_safe_def devices_ok_def device_ok_def new_device_def)
    show ?thesis
      using push_cases [of "new_device flag" "devices cm"] Some cm assms eff cont
      by (auto simp: parse_device_start_def with_attrib_def handled_def Let_def ptr_ok_def counts content_ok_def set_devices_def)
  qed
qed

section \<open>Streams and use cases\<close>

lemma stream_of_attribs_usecases: "stream_of_attribs s ty = Some st \<Longrightarrow> usecases st = []"
  by (auto simp: stream_of_attribs_def Let_def bind_eq_Some_conv new_stream_def)

lemma parse_stream_ok:
  assumes "ptr_ok [e_elem_audiohal] s" "content_ok s" "attribs s e_attrib_type = Some ty"
  shows "\<exists>q. parse_stream_start E s = Some q \<and> handled [e_elem_stream, e_elem_audiohal] s q"
proof (cases "stream_of_attribs s ty")
  case None
  then show ?thesis using assms(3) push_cases [of new_stream "streams (ps_cm s)"]
    by (auto simp: parse_stream_start_def with_attrib_def handled_def Let_def)
next
  case (Some st)
  have "usecases_ok (cm_mixer (ps_cm s)) st" using stream_of_attribs_usecases [OF Some] by (simp add: usecases_ok_def)
  then have cont: "content_ok ((set_streams (streams (ps_cm s) @ [st]) s)\<lparr>cur_stream := Some (length (streams (ps_cm s)))\<rparr>)"
    using assms(2) by (auto simp: content_ok_def config_safe_def)
  have ptr: "ptr_ok [e_elem_stream, e_elem_audiohal] ((set_streams (streams (ps_cm s) @ [st]) s)\<lparr>cur_stream := Some (length (streams (ps_cm s)))\<rparr>)"
    using assms(1) by (simp add: ptr_ok_def counts)
  show ?thesis using assms(3) push_cases [of new_stream "streams (ps_cm s)"] Some cont ptr
    by (auto simp: parse_stream_start_def with_attrib_def handled_def Let_def)
qed

lemma on_stream_handled:
  assumes "ptr_ok (e # S) s" "e_elem_stream \<in> set S" "e_elem_usecase \<notin> set (e # S)" "e_elem_case \<notin> set (e # S)" "content_ok s" "f (last (streams (ps_cm s))) = Some (r, st)"
    "usecases_ok (cm_mixer (ps_cm s)) st"
  shows "\<exists>s'. on_stream (cur_stream s) f s = Some (r, s') \<and> s' = set_streams (butlast (streams (ps_cm s)) @ [st]) s \<and> ptr_ok (e # S) s' \<and> content_ok s'"
proof -
  have n: "n_streams s > 0" "cur_stream s = Some (n_streams s - 1)" using assms(1,2) by (auto simp: ptr_ok_def)
  have run: "on_stream (cur_stream s) f s = Some (r, set_streams (butlast (streams (ps_cm s)) @ [st]) s)" using on_stream_run [of s "cur_stream s" f, OF n assms(6)] .
  have "ptr_ok (e # S) (set_streams (butlast (streams (ps_cm s)) @ [st]) s)"
    using assms(1,3,4) n(1) by (simp add: ptr_ok_def counts)
  then show ?thesis using run content_set_streams [OF assms(5,7)] by blast
qed

lemma parse_usecase_ok:
  assumes "ptr_ok [e_elem_stream, e_elem_audiohal] s" "content_ok s" "attribs s e_attrib_name = Some name"
  shows "\<exists>q. parse_usecase_start E s = Some q \<and> handled [e_elem_usecase, e_elem_stream, e_elem_audiohal] s q"
proof -
  let ?st = "last (streams (ps_cm s))"
  have n: "n_streams s > 0" "cur_stream s = Some (n_streams s - 1)" using assms(1) by (auto simp: ptr_ok_def)
  consider (ok) "add_usecase name ?st = Some (0, ?st\<lparr>usecases := usecases ?st @ [new_usecase name]\<rparr>)"
    | (full) "add_usecase name ?st = Some (-ENOMEM, ?st\<lparr>usecases := usecases ?st\<rparr>)"
    using push_cases [of "new_usecase name" "usecases ?st"] by (auto simp: add_usecase_def)
  then show ?thesis
  proof cases
    case full
    then show ?thesis using assms(3) on_stream_run [of s "cur_stream s" "add_usecase name", OF n full]
      by (simp add: parse_usecase_start_def with_attrib_def handled_def)
  next
    case ok
    let ?st' = "?st\<lparr>usecases := usecases ?st @ [new_usecase name]\<rparr>"
    let ?s2 = "set_streams (butlast (streams (ps_cm s)) @ [?st']) s"
    have run: "on_stream (cur_stream s) (add_usecase name) s = Some (0, ?s2)" using on_stream_run [of s "cur_stream s" "add_usecase name", OF n ok] .
    have "usecases_ok (cm_mixer (ps_cm s)) ?st'" using last_stream_ok [OF assms(2) n(1)] by (auto simp: usecases_ok_def new_usecase_def)
    then have cont: "content_ok ?s2" using content_set_streams [OF assms(2)] by blast
    have new: "newest_usecase ?s2 = Some (n_streams s - 1, length (usecases ?st))"
      using n by (simp add: newest_usecase_def n_streams_def nth_append)
    have "ptr_ok [e_elem_usecase, e_elem_stream, e_elem_audiohal] (?s2\<lparr>cur_usecase := newest_usecase ?s2\<rparr>)"
      using assms(1) n new by (simp add: ptr_ok_def counts)
    moreover have "content_ok (?s2\<lparr>cur_usecase := newest_usecase ?s2\<rparr>)" using cont by (simp add: content_ok_def)
    ultimately show ?thesis using assms(3) run by (simp add: parse_usecase_start_def with_attrib_def handled_def)
  qed
qed

lemma parse_case_ok:
  assumes "ptr_ok [e_elem_usecase, e_elem_stream, e_elem_audiohal] s" "content_ok s" "attribs s e_attrib_name = Some name"
  shows "\<exists>q. parse_case_start E s = Some q \<and> handled [e_elem_case, e_elem_usecase, e_elem_stream, e_elem_audiohal] s q"
proof -
  let ?st = "last (streams (ps_cm s))"
  let ?u = "last (usecases ?st)"
  have n: "n_streams s > 0" "n_usecases s > 0" "cur_usecase s = Some (n_streams s - 1, n_usecases s - 1)" using assms(1) by (auto simp: ptr_ok_def)
  have ne: "usecases ?st \<noteq> []" using n(2) by (simp add: n_usecases_def)
  let ?f = "in_usecases (Some (n_usecases s - 1)) (add_case name)"
  consider (ok) "add_case name ?u = Some (0, ?u\<lparr>uc_cases := uc_cases ?u @ [new_case name]\<rparr>)"
    | (full) "add_case name ?u = Some (-ENOMEM, ?u\<lparr>uc_cases := uc_cases ?u\<rparr>)"
    using push_cases [of "new_case name" "uc_cases ?u"] by (auto simp: add_case_def)
  then show ?thesis
  proof cases
    case full
    have f: "?f ?st = Some (-ENOMEM, ?st\<lparr>usecases := butlast (usecases ?st) @ [?u\<lparr>uc_cases := uc_cases ?u\<rparr>]\<rparr>)"
      using full ne by (simp add: in_usecases_def at_last_def n_usecases_def)
    then show ?thesis using assms(3) n(3) on_stream_run [of s "Some (n_streams s - 1)" ?f, OF n(1) refl f]
      by (simp add: parse_case_start_def with_attrib_def handled_def)
  next
    case ok
    let ?u' = "?u\<lparr>uc_cases := uc_cases ?u @ [new_case name]\<rparr>"
    let ?st' = "?st\<lparr>usecases := butlast (usecases ?st) @ [?u']\<rparr>"
    let ?s2 = "set_streams (butlast (streams (ps_cm s)) @ [?st']) s"
    have f: "?f ?st = Some (0, ?st')" using ok ne by (simp add: in_usecases_def at_last_def n_usecases_def)
    have run: "on_stream (Some (n_streams s - 1)) ?f s = Some (0, ?s2)" using on_stream_run [of s "Some (n_streams s - 1)" ?f, OF n(1) refl f] .
    have "usecases_ok (cm_mixer (ps_cm s)) ?st'" using last_stream_ok [OF assms(2) n(1)] last_in_set [OF ne]
      by (auto simp: usecases_ok_def new_case_def dest: in_set_butlastD)
    then have cont: "content_ok ?s2" using content_set_streams [OF assms(2)] by blast
    have new: "newest_case ?s2 = Some (n_streams s - 1, n_usecases s - 1, length (uc_cases ?u))"
      using n ne by (simp add: newest_case_def n_streams_def n_usecases_def nth_append)
    have "ptr_ok [e_elem_case, e_elem_usecase, e_elem_stream, e_elem_audiohal] (?s2\<lparr>cur_scase := newest_case ?s2\<rparr>)"
      using assms(1) n ne new by (simp add: ptr_ok_def counts)
    moreover have "content_ok (?s2\<lparr>cur_scase := newest_case ?s2\<rparr>)" using cont by (simp add: content_ok_def)
    ultimately show ?thesis using assms(3) n(3) run by (simp add: parse_case_start_def with_attrib_def handled_def)
  qed
qed

text \<open>An update of the current stream that leaves its use cases alone.\<close>

lemma stream_update_handled:
  assumes "ptr_ok [e_elem_stream, e_elem_audiohal] s" "content_ok s" "f (last (streams (ps_cm s))) = Some (r, st)"
    "usecases st = usecases (last (streams (ps_cm s)))" "e \<in> {e_elem_enable, e_elem_disable, e_elem_stream_ctl}"
  shows "\<exists>q. on_stream (cur_stream s) f s = Some q \<and> handled (e # [e_elem_stream, e_elem_audiohal]) s q"
proof -
  have n: "n_streams s > 0" "cur_stream s = Some (n_streams s - 1)" using assms(1) by (auto simp: ptr_ok_def)
  let ?s2 = "set_streams (butlast (streams (ps_cm s)) @ [st]) s"
  have run: "on_stream (cur_stream s) f s = Some (r, ?s2)" using on_stream_run [of s "cur_stream s" f, OF n assms(3)] .
  have "usecases_ok (cm_mixer (ps_cm s)) st" using last_stream_ok [OF assms(2) n(1)] assms(4) by (simp add: usecases_ok_def)
  then have cont: "content_ok ?s2" using content_set_streams [OF assms(2)] by blast
  have "ptr_ok [e_elem_stream, e_elem_audiohal] ?s2" using assms(1) n by (simp add: ptr_ok_def counts)
  then have "ptr_ok (e # [e_elem_stream, e_elem_audiohal]) ?s2" using assms(5) by (subst ptr_ok_leaf) auto
  then show ?thesis using run cont by (simp add: handled_def)
qed

lemma handled_same: "r \<noteq> 0 \<Longrightarrow> handled es s (r, s)"
  by (simp add: handled_def)

lemma parse_enable_disable_ok:
  assumes "ptr_ok [e_elem_stream, e_elem_audiohal] s" "content_ok s" "attribs s e_attrib_path = Some name" "e \<in> {e_elem_enable, e_elem_disable}"
  shows "\<exists>q. parse_enable_disable_start b E s = Some q \<and> handled (e # [e_elem_stream, e_elem_audiohal]) s q"
proof (cases "find_path_name s name < 0")
  case True
  then show ?thesis using assms(3) handled_same by (simp add: parse_enable_disable_start_def with_attrib_def)
next
  case False
  let ?i = "find_path_name s name"
  let ?f = "\<lambda>st. Some (0, if b then st\<lparr>enable_path := ?i\<rparr> else st\<lparr>disable_path := ?i\<rparr>)"
  have "\<exists>q. on_stream (cur_stream s) ?f s = Some q \<and> handled (e # [e_elem_stream, e_elem_audiohal]) s q"
    using assms(4) by (intro stream_update_handled [OF assms(1,2), of ?f 0 "if b then (last (streams (ps_cm s)))\<lparr>enable_path := ?i\<rparr> else (last (streams (ps_cm s)))\<lparr>disable_path := ?i\<rparr>"]) auto
  then show ?thesis using assms(3) False by (simp add: parse_enable_disable_start_def with_attrib_def Let_def)
qed

lemma parse_stream_ctl_ok:
  assumes "ptr_ok [e_elem_stream, e_elem_audiohal] s" "content_ok s" "attribs s e_attrib_name = Some name" "attribs s e_attrib_function = Some fn"
  shows "\<exists>q. parse_stream_ctl_start E s = Some q \<and> handled (e_elem_stream_ctl # [e_elem_stream, e_elem_audiohal]) s q"
proof (cases "ctl_by_name (cm_mixer (ps_cm s)) name = None \<or> uint_or 0 (\<lambda>v. v) s e_attrib_index = None \<or> (fn \<noteq> ''leftvol'' \<and> fn \<noteq> ''rightvol'')")
  case True
  then have "parse_stream_ctl_start E s = Some (-EINVAL, s)"
    using assms(3,4) by (auto simp: parse_stream_ctl_start_def with_attrib_def Let_def split: option.splits)
  then show ?thesis using handled_same by simp
next
  case False
  then obtain i idx where i: "ctl_by_name (cm_mixer (ps_cm s)) name = Some i" "uint_or 0 (\<lambda>v. v) s e_attrib_index = Some idx" by auto
  let ?mc = "cm_mixer (ps_cm s) ! i" and ?st = "last (streams (ps_cm s))"
  obtain r sc where l: "set_stream_ctl s i ?mc idx (volume_left ?st) = (r, sc)" by fastforce
  obtain r' sc' where rt: "set_stream_ctl s i ?mc idx (volume_right ?st) = (r', sc')" by fastforce
  let ?fl = "\<lambda>st. let (r, sc) = set_stream_ctl s i ?mc idx (volume_left st) in Some (r, st\<lparr>volume_left := sc\<rparr>)"
  let ?fr = "\<lambda>st. let (r, sc) = set_stream_ctl s i ?mc idx (volume_right st) in Some (r, st\<lparr>volume_right := sc\<rparr>)"
  have L: "\<exists>q. on_stream (cur_stream s) ?fl s = Some q \<and> handled (e_elem_stream_ctl # [e_elem_stream, e_elem_audiohal]) s q"
    using l by (intro stream_update_handled [OF assms(1,2), of ?fl r "?st\<lparr>volume_left := sc\<rparr>"]) auto
  have R: "\<exists>q. on_stream (cur_stream s) ?fr s = Some q \<and> handled (e_elem_stream_ctl # [e_elem_stream, e_elem_audiohal]) s q"
    using rt by (intro stream_update_handled [OF assms(1,2), of ?fr r' "?st\<lparr>volume_right := sc'\<rparr>"]) auto
  show ?thesis
  proof (cases "fn = ''leftvol''")
    case True
    then show ?thesis using L assms(3,4) i by (simp add: parse_stream_ctl_start_def with_attrib_def Let_def)
  next
    case ne: False
    then have "fn = ''rightvol''" using False by simp
    then show ?thesis using R assms(3,4) i by (simp add: parse_stream_ctl_start_def with_attrib_def Let_def)
  qed
qed

section \<open>Initial controls and codec probes\<close>

lemma parse_init_ok:
  assumes "ptr_ok [e_elem_mixer, e_elem_audiohal] s" "content_ok s"
  shows "\<exists>q. parse_init_start E s = Some q \<and> handled [e_elem_init, e_elem_mixer, e_elem_audiohal] s q"
  using assms by (simp add: parse_init_start_def handled_def ptr_ok_def counts content_ok_def)

lemma parse_codec_probe_ok:
  assumes "ptr_ok [e_elem_audiohal] s" "content_ok s" "attribs s e_attrib_file = Some file"
  shows "\<exists>q. parse_codec_probe_start E s = Some q \<and> handled [e_elem_codec_probe, e_elem_audiohal] s q"
  using assms by (auto simp: parse_codec_probe_start_def with_attrib_def handled_def ptr_ok_def counts content_ok_def)

lemma parse_codec_case_ok:
  assumes "ptr_ok [e_elem_codec_probe, e_elem_audiohal] s" "content_ok s" "attribs s e_attrib_name = Some name" "attribs s e_attrib_file = Some file"
  shows "\<exists>q. parse_codec_case_start E s = Some q \<and> handled [e_elem_codec_case, e_elem_codec_probe, e_elem_audiohal] s q"
  using assms by (auto simp: parse_codec_case_start_def with_attrib_def handled_def ptr_ok_def counts content_ok_def split: option.splits)

section \<open>The invariant\<close>

text \<open>Nothing was collected yet; only then may the mixer be opened or another file take over.\<close>

definition fresh :: "parse_state \<Rightarrow> bool" where
  "fresh s \<longleftrightarrow> devices (ps_cm s) = [] \<and> streams (ps_cm s) = [] \<and> init_path s = []"

definition before_mixer :: "(element_index \<times> element_index list) list \<Rightarrow> bool" where
  "before_mixer st \<longleftrightarrow> (\<exists>v. (e_elem_audiohal, v) \<in> set (butlast st) \<and> e_elem_mixer \<in> set v)"

definition parse_inv :: "parse_state \<Rightarrow> bool" where
  "parse_inv s \<longleftrightarrow> stack_ok (stack s) \<and> ptr_ok (elems (stack s)) s \<and> content_ok s \<and>
     (before_mixer (stack s) \<longrightarrow> fresh s \<and> e_elem_mixer \<notin> set (elems (stack s))) \<and>
     (e_elem_codec_probe \<in> set (elems (stack s)) \<longrightarrow> fresh s) \<and> (new_xml_file s \<noteq> None \<longrightarrow> fresh s) \<and> (status s = Parsing \<longrightarrow> new_xml_file s = None)"

lemma fresh_content: "fresh s \<Longrightarrow> content_ok s"
  by (simp add: fresh_def content_ok_def config_safe_def devices_ok_def)

lemma fresh_mixer: "fresh s \<Longrightarrow> fresh (s\<lparr>ps_cm := (ps_cm s)\<lparr>cm_mixer := m\<rparr>, stack := st\<rparr>)"
  by (simp add: fresh_def)

text \<open>The handlers that keep an unread state fresh.\<close>

lemma fresh_codec_probe: "parse_codec_probe_start E s = Some (r, s') \<Longrightarrow> fresh s' = fresh s"
  by (auto simp: parse_codec_probe_start_def with_attrib_def fresh_def split: option.splits if_splits)

lemma fresh_codec_case: "parse_codec_case_start E s = Some (r, s') \<Longrightarrow> fresh s' = fresh s"
  by (auto simp: parse_codec_case_start_def with_attrib_def fresh_def split: option.splits if_splits)

lemma mixer_start_ok:
  assumes "stack s = (e_elem_mixer, v) # (e_elem_audiohal, w) # rest" "rest \<noteq> []" "stack_ok (stack s)" "ptr_ok [e_elem_audiohal] s" "fresh s"
    "status s = Parsing" "new_xml_file s = None"
  shows "\<exists>r s'. parse_mixer_start E s = Some (r, s') \<and> length (stack s') = length (stack s) \<and> (r = 0 \<longrightarrow> parse_inv s') \<and>
    status s' = status s \<and> new_xml_file s' = new_xml_file s"
proof -
  have "elems (stack s) = e_elem_mixer # e_elem_audiohal # elems rest" using assms(1,2) by (simp add: elems_Cons)
  then have "butlast rest = []" using assms(3) unfolding stack_ok_def by (auto simp: shapes_def elems_def)
  then obtain q where q: "rest = [q]" using assms(2) by (metis append_Nil append_butlast_last_id)
  have "parse_inv (s\<lparr>ps_cm := (ps_cm s)\<lparr>cm_mixer := m\<rparr>, stack := (e_elem_mixer, v) # (e_elem_audiohal, [e_elem_device, e_elem_stream]) # rest\<rparr>)" for m
  proof -
    let ?s = "s\<lparr>ps_cm := (ps_cm s)\<lparr>cm_mixer := m\<rparr>, stack := (e_elem_mixer, v) # (e_elem_audiohal, [e_elem_device, e_elem_stream]) # rest\<rparr>"
    have e2: "elems (stack ?s) = [e_elem_mixer, e_elem_audiohal]" by (simp add: elems_def q)
    have "stack_ok (stack ?s)" using assms(1,3) unfolding q by (simp add: stack_ok_def elems_def entry_ok_def shapes_def)
    moreover have "ptr_ok (elems (stack ?s)) ?s" unfolding e2 using assms(4) by (simp add: ptr_ok_leaf) (simp add: ptr_ok_def counts)
    moreover have "\<not> before_mixer (stack ?s)" using q by (simp add: before_mixer_def)
    moreover have "content_ok ?s" using fresh_content [OF fresh_mixer [OF assms(5)]] by simp
    moreover have "e_elem_codec_probe \<notin> set (elems (stack ?s))" unfolding e2 by simp
    ultimately show ?thesis using assms(7) by (simp add: parse_inv_def)
  qed
  then show ?thesis using assms(1,6,7) by (auto simp: parse_mixer_start_def split: option.splits)
qed

section \<open>Start of an element\<close>

lemma before_mixer_push: "st \<noteq> [] \<Longrightarrow> before_mixer ((e, v) # st) \<longleftrightarrow> before_mixer st \<or> (e = e_elem_audiohal \<and> e_elem_mixer \<in> set v)"
  by (auto simp: before_mixer_def)

text \<open>The state a start function sees: the element is on the stack and its attributes are read.\<close>

lemma ptr_ok_stack: "ptr_ok S (s\<lparr>stack := st, attribs := vals\<rparr>) = ptr_ok S s"
  by (rule ptr_ok_cong) (simp_all add: counts)

lemma shape_parent:
  assumes "e # S \<in> set shapes"
  shows "e \<in> {e_elem_device, e_elem_stream, e_elem_codec_probe, e_elem_mixer} \<Longrightarrow> S = [e_elem_audiohal]"
    "e = e_elem_path \<Longrightarrow> S = [e_elem_device, e_elem_audiohal]"
    "e \<in> {e_elem_enable, e_elem_disable, e_elem_stream_ctl, e_elem_usecase} \<Longrightarrow> S = [e_elem_stream, e_elem_audiohal]"
    "e = e_elem_case \<Longrightarrow> S = [e_elem_usecase, e_elem_stream, e_elem_audiohal]"
    "e = e_elem_init \<Longrightarrow> S = [e_elem_mixer, e_elem_audiohal]"
    "e = e_elem_codec_case \<Longrightarrow> S = [e_elem_codec_probe, e_elem_audiohal]"
    "e = e_elem_audiohal \<Longrightarrow> S = []"
  using assms unfolding shapes_def by auto

lemma plain_start_ok:
  assumes shape: "e # S \<in> set shapes" and ptr: "ptr_ok S s" and cont: "content_ok s"
    and req: "\<And>a. a \<in> set (required_attribs (elem_table e)) \<Longrightarrow> \<exists>v. attribs s a = Some v"
    and idx: "e = e_elem_ctl \<Longrightarrow> index_ok s" and e: "e \<noteq> e_elem_mixer" "e \<noteq> e_elem_audiohal"
  shows "\<exists>f q. start_fn e = Some f \<and> f E s = Some q \<and> handled (e # S) s q"
proof (cases e)
  case e_elem_ctl
  then show ?thesis using parse_ctl_ok [of S s _ _ E] shape ptr cont idx req [of e_attrib_name] req [of e_attrib_val] by fastforce
next
  case e_elem_path
  then show ?thesis using parse_path_ok [of s _ E] shape_parent(2) [OF shape] ptr cont req [of e_attrib_name] by fastforce
next
  case e_elem_device
  then show ?thesis using parse_device_ok [of s _ E] shape_parent(1) [OF shape] ptr cont req [of e_attrib_name] by fastforce
next
  case e_elem_stream
  then show ?thesis using parse_stream_ok [of s _ E] shape_parent(1) [OF shape] ptr cont req [of e_attrib_type] by fastforce
next
  case e_elem_enable
  then show ?thesis using parse_enable_disable_ok [of s _ e True E] shape_parent(3) [OF shape] ptr cont req [of e_attrib_path] by (fastforce simp: parse_enable_start_def)
next
  case e_elem_disable
  then show ?thesis using parse_enable_disable_ok [of s _ e False E] shape_parent(3) [OF shape] ptr cont req [of e_attrib_path] by (fastforce simp: parse_disable_start_def)
next
  case e_elem_case
  then show ?thesis using parse_case_ok [of s _ E] shape_parent(4) [OF shape] ptr cont req [of e_attrib_name] by fastforce
next
  case e_elem_usecase
  then show ?thesis using parse_usecase_ok [of s _ E] shape_parent(3) [OF shape] ptr cont req [of e_attrib_name] by fastforce
next
  case e_elem_stream_ctl
  then show ?thesis using parse_stream_ctl_ok [of s _ _ E] shape_parent(3) [OF shape] ptr cont req [of e_attrib_name] req [of e_attrib_function] by fastforce
next
  case e_elem_init
  then show ?thesis using parse_init_ok [of s E] shape_parent(5) [OF shape] ptr cont by fastforce
next
  case e_elem_codec_probe
  then show ?thesis using parse_codec_probe_ok [of s _ E] shape_parent(1) [OF shape] ptr cont req [of e_attrib_file] by fastforce
next
  case e_elem_codec_case
  then show ?thesis using parse_codec_case_ok [of s _ _ E] shape_parent(6) [OF shape] ptr cont req [of e_attrib_name] req [of e_attrib_file] by fastforce
qed (use e in simp_all)

text \<open>With a device, a stream, a mixer or initial controls open, the mixer was opened.\<close>

lemma not_before_mixer:
  assumes inv: "parse_inv s" and ne: "stack s = (p, valid) # st" and e: "e \<in> set valid" and k: "e \<notin> {e_elem_audiohal, e_elem_mixer, e_elem_codec_probe, e_elem_codec_case}"
  shows "\<not> before_mixer (stack s)"
proof
  assume bm: "before_mixer (stack s)"
  let ?S = "elems (stack s)"
  have fr: "fresh s" "e_elem_mixer \<notin> set ?S" and ptr: "ptr_ok ?S s" and ok: "stack_ok (stack s)" using inv bm by (auto simp: parse_inv_def)
  have no: "e_elem_device \<notin> set ?S" "e_elem_stream \<notin> set ?S" using ptr fr(1) by (auto simp: ptr_ok_def fresh_def counts)
  have shape: "e # ?S \<in> set shapes" using stack_ok_push [of p valid st e] ok e ne by (auto simp: stack_ok_def elems_Cons)
  have "?S = [e_elem_audiohal]" using shape no fr(2) k unfolding shapes_def by auto
  then have "p = e_elem_audiohal" "st \<noteq> []" using ne by (auto simp: elems_def split: if_splits)
  moreover have "e_elem_device \<in> set valid"
  proof -
    have "entry_ok (p, valid)" using ok ne \<open>st \<noteq> []\<close> by (simp add: stack_ok_def)
    then show ?thesis using e k \<open>p = e_elem_audiohal\<close> by (auto simp: entry_ok_def)
  qed
  ultimately have "\<not> e_elem_mixer \<in> set valid" using ok ne by (auto simp: stack_ok_def entry_ok_def)
  moreover have "(p, valid) \<in> set (butlast (stack s))" using ne \<open>st \<noteq> []\<close> by simp
  moreover have "length (butlast (stack s)) = 1" using \<open>?S = [e_elem_audiohal]\<close> by (metis elems_def length_map length_Cons list.size(3) One_nat_def)
  ultimately show False using bm unfolding before_mixer_def by (cases "butlast (stack s)") auto
qed

lemma handled_inv:
  assumes inv: "parse_inv s" and par: "status s = Parsing" "parse_error s = 0"
    and s2: "s2 = s\<lparr>stack := (e, valid_subelem (elem_table e)) # stack s, attribs := vals\<rparr>"
    and push: "stack_ok ((e, valid_subelem (elem_table e)) # stack s)"
    and h: "handled (e # elems (stack s)) s2 (r, s3)" and k: "e \<noteq> e_elem_audiohal" "e \<noteq> e_elem_mixer"
    and fr: "before_mixer (stack s) \<Longrightarrow> fresh s3" "e_elem_codec_probe \<in> set (e # elems (stack s)) \<Longrightarrow> fresh s3"
  shows "status s3 = Parsing \<and> new_xml_file s3 = None \<and> stack s3 \<noteq> [] \<and> (r = 0 \<longrightarrow> parse_inv s3 \<and> length (stack s3) = Suc (length (stack s)))"
proof -
  have ne: "stack s \<noteq> []" using inv by (simp add: parse_inv_def stack_ok_def)
  have st3: "stack s3 = (e, valid_subelem (elem_table e)) # stack s" "status s3 = Parsing" "new_xml_file s3 = None"
    using h par inv by (auto simp: handled_def s2 parse_inv_def)
  have el: "elems (stack s3) = e # elems (stack s)" using st3(1) ne by (simp add: elems_Cons)
  have "before_mixer (stack s3) \<Longrightarrow> before_mixer (stack s)" using st3(1) k before_mixer_push [OF ne] by auto
  then have bm: "before_mixer (stack s3) \<longrightarrow> fresh s3 \<and> e_elem_mixer \<notin> set (elems (stack s3))"
    using fr(1) inv k el by (auto simp: parse_inv_def)
  have "parse_inv s3" if "r = 0"
    unfolding parse_inv_def using h that push st3 el bm fr(2) by (simp add: handled_def)
  then show ?thesis using st3 by simp
qed

lemma section_start_ok:
  assumes inv: "parse_inv s" and par: "status s = Parsing" "parse_error s = 0" and root: "length (stack s) = 1 \<Longrightarrow> fresh s"
    and idx: "\<And>v. name = ''ctl'' \<Longrightarrow> (''index'', v) \<in> set as \<Longrightarrow> \<exists>w. string_to_uint (Some v) = Inr w"
  shows "\<exists>s'. parse_section_start E name as s = Some s' \<and> status s' = Parsing \<and> new_xml_file s' = None \<and> stack s' \<noteq> [] \<and>
    (parse_error s' = 0 \<longrightarrow> parse_inv s' \<and> length (stack s') = Suc (length (stack s)))"
proof -
  have ok: "stack_ok (stack s)" and ptr: "ptr_ok (elems (stack s)) s" and cont: "content_ok s" and new: "new_xml_file s = None" using inv par by (auto simp: parse_inv_def)
  obtain p valid st where stk: "stack s = (p, valid) # st" using ok by (cases "stack s") (auto simp: stack_ok_def)
  let ?find = "find (\<lambda>e. e \<in> set valid \<and> pe_name (elem_table e) = name) all_elems"
  show ?thesis
  proof (cases ?find)
    case None
    then show ?thesis using stk par new by (simp add: parse_section_start_def parse_set_error_def)
  next
    case (Some e)
    then have e: "e \<in> set valid" "pe_name (elem_table e) = name" by (auto simp: find_Some_iff)
    have push: "stack_ok ((e, valid_subelem (elem_table e)) # stack s)" using stack_ok_push [of p valid st e] ok e(1) stk by simp
    have shape: "e # elems (stack s) \<in> set shapes" using push stk by (simp add: stack_ok_def elems_Cons)
    have depth: "stack_index s + 1 < MAX_PARSE_DEPTH" using stack_ok_depth [OF push] stk by (simp add: stack_index_def)
    have run: "parse_section_start E name as s = enter_elem E e as s" using stk par(2) Some depth by (simp add: parse_section_start_def)
    show ?thesis
    proof (cases "extract_attribs e as")
      case None
      then show ?thesis using run par new by (simp add: enter_elem_def parse_set_error_def)
    next
      case vals: (Some vals)
      define s2 where "s2 = s\<lparr>stack := (e, valid_subelem (elem_table e)) # stack s, attribs := vals\<rparr>"
      have run2: "parse_section_start E name as s = call_start E e s2" using run vals by (simp add: enter_elem_def s2_def)
      have ptr2: "ptr_ok (elems (stack s)) s2" using ptr by (simp add: s2_def ptr_ok_stack)
      have cont2: "content_ok s2" using cont by (simp add: s2_def content_ok_def)
      have req: "\<exists>v. attribs s2 a = Some v" if "a \<in> set (required_attribs (elem_table e))" for a
        using extract_attribs_ok(1) [OF vals that] by (simp add: s2_def)
      consider (root) "e = e_elem_audiohal" | (mixer) "e = e_elem_mixer" | (plain) "e \<noteq> e_elem_audiohal" "e \<noteq> e_elem_mixer" by blast
      then show ?thesis
      proof cases
        case root
        have "elems (stack s) = []" using shape_parent(7) [OF shape root] .
        then have st: "st = []" using stk by (cases st) (auto simp: elems_def)
        then have fr: "fresh s2" using assms(4) stk by (simp add: s2_def fresh_def)
        have p1: "ptr_ok (elems (stack s2)) s2" using ptr2 stk st root by (simp add: s2_def elems_def ptr_ok_leaf)
        have "parse_inv s2" using push fr p1 fresh_content [OF fr] new stk st root
          by (simp add: parse_inv_def s2_def elems_def)
        then show ?thesis using run2 root par new by (simp add: call_start_def s2_def)
      next
        case mixer
        have S: "elems (stack s) = [e_elem_audiohal]" using shape_parent(1) [OF shape] mixer by simp
        then have pst: "p = e_elem_audiohal" "st \<noteq> []" using stk by (auto simp: elems_def split: if_splits)
        have "before_mixer (stack s)" using stk pst e(1) mixer by (auto simp: before_mixer_def)
        then have fr: "fresh s2" using inv by (simp add: parse_inv_def s2_def fresh_def)
        have "stack s2 = (e_elem_mixer, valid_subelem (elem_table e)) # (e_elem_audiohal, valid) # st" "stack_ok (stack s2)" "ptr_ok [e_elem_audiohal] s2"
          "status s2 = Parsing" "new_xml_file s2 = None" using stk pst mixer push ptr2 S par new by (simp_all add: s2_def)
        then obtain r s3 where "parse_mixer_start E s2 = Some (r, s3)" "length (stack s3) = length (stack s2)" "r = 0 \<longrightarrow> parse_inv s3"
          "status s3 = Parsing" "new_xml_file s3 = None" using mixer_start_ok [of s2 _ valid st E] pst(2) fr by metis
        then show ?thesis using run2 mixer by (auto simp: call_start_def parse_set_error_def s2_def parse_inv_def ptr_ok_def counts content_ok_def fresh_def)
      next
        case plain
        have "index_ok s2" if "e = e_elem_ctl"
        proof -
          have "name = ''ctl''" using that e(2) by simp
          then show ?thesis using idx extract_attribs_ok(2) [OF vals, of e_attrib_index] by (auto simp: index_ok_def s2_def)
        qed
        then obtain f r s3 where f: "start_fn e = Some f" "f E s2 = Some (r, s3)" "handled (e # elems (stack s)) s2 (r, s3)"
          using plain_start_ok [OF shape ptr2 cont2 req _ plain(2,1), of E] by (metis surj_pair)
        have fr: "fresh s3" if c: "before_mixer (stack s) \<or> e_elem_codec_probe \<in> set (e # elems (stack s))"
        proof -
          have cc: "e \<in> {e_elem_codec_probe, e_elem_codec_case}"
          proof (rule ccontr)
            assume "e \<notin> {e_elem_codec_probe, e_elem_codec_case}"
            then have "\<not> before_mixer (stack s)" "e_elem_codec_probe \<notin> set (e # elems (stack s))"
              using not_before_mixer [OF inv stk e(1)] plain shape by (auto simp: shapes_def)
            then show False using c by blast
          qed
          have "fresh s"
          proof (cases "e = e_elem_codec_case")
            case True
            then show ?thesis using shape_parent(6) [OF shape] inv by (simp add: parse_inv_def)
          next
            case False
            then have "e = e_elem_codec_probe" using cc by simp
            then have "elems (stack s) = [e_elem_audiohal]" "e_elem_codec_probe \<in> set valid" using shape_parent(1) [OF shape] e(1) by auto
            then have "p = e_elem_audiohal" "st \<noteq> []" using stk by (auto simp: elems_def split: if_splits)
            then have "before_mixer (stack s)" using ok stk \<open>e_elem_codec_probe \<in> set valid\<close>
              by (auto simp: before_mixer_def stack_ok_def entry_ok_def)
            then show ?thesis using inv by (simp add: parse_inv_def)
          qed
          then have "fresh s2" by (simp add: s2_def fresh_def)
          then show ?thesis using cc f(1,2) fresh_codec_probe [of E s2 r s3] fresh_codec_case [of E s2 r s3] by auto
        qed
        have "status s3 = Parsing \<and> new_xml_file s3 = None \<and> stack s3 \<noteq> [] \<and> (r = 0 \<longrightarrow> parse_inv s3 \<and> length (stack s3) = Suc (length (stack s)))"
          using handled_inv [OF inv par s2_def push f(3) plain] fr by blast
        then show ?thesis using run2 f by (auto simp: call_start_def parse_set_error_def parse_inv_def ptr_ok_def counts content_ok_def fresh_def)
      qed
    qed
  qed
qed

section \<open>End of an element\<close>

text \<open>A file a codec probe waits for appears some time.\<close>

definition probes_appear :: "audio_env \<Rightarrow> bool" where
  "probes_appear E \<longleftrightarrow> (\<forall>file. \<exists>k. probe_open E file k \<noteq> None)"

lemma await_probe_returns:
  assumes "f k \<noteq> None" "j \<le> k"
  shows "\<exists>content. await_probe f j = Some content"
  using assms(2)
proof (induction "k - j" arbitrary: j)
  case 0
  then have "j = k" by simp
  then show ?case using assms(1) by (subst await_probe.simps) auto
next
  case (Suc n)
  show ?case
  proof (cases "f j")
    case None
    moreover have "\<exists>content. await_probe f (Suc j) = Some content" using Suc by simp
    ultimately show ?thesis by (subst await_probe.simps) simp
  next
    case (Some c)
    then show ?thesis by (subst await_probe.simps) simp
  qed
qed

lemma probe_config_effect:
  assumes "probes_appear E" "probe_file s = Some file" "fresh s" "new_xml_file s = None" "status s = Parsing"
  shows "\<exists>r s'. probe_config_file E s = Some (r, s') \<and> stack s' = stack s \<and> ptr_ok S s' = ptr_ok S s \<and> fresh s' \<and> parse_error s' = parse_error s \<and>
    (status s' = Parsing \<longrightarrow> new_xml_file s' = None)"
proof -
  obtain k where k: "probe_open E file k \<noteq> None" using assms(1) unfolding probes_appear_def by blast
  obtain content where w: "await_probe (probe_open E file) 0 = Some content" using await_probe_returns [of "probe_open E file" k 0, OF k] by auto
  have "ptr_ok S (s\<lparr>new_xml_file := x, status := y\<rparr>) = ptr_ok S s" "ptr_ok S (s\<lparr>new_xml_file := x\<rparr>) = ptr_ok S s" for x y
    by (rule ptr_ok_cong; simp add: counts)+
  then show ?thesis using assms w by (auto simp: probe_config_file_def fresh_def split: option.splits)
qed

lemma ptr_ok_pop:
  assumes "e # S \<in> set shapes" "ptr_ok (e # S) s" "e \<notin> {e_elem_path, e_elem_codec_probe}"
  shows "ptr_ok S s"
proof (cases "e \<in> {e_elem_device, e_elem_init, e_elem_stream, e_elem_usecase, e_elem_case}")
  case True
  then show ?thesis using assms(2,3) by (auto simp: ptr_ok_def)
next
  case False
  then show ?thesis using assms(2,3) ptr_ok_leaf [of e S s] by auto
qed

lemma ptr_ok_parse_error: "ptr_ok S (s\<lparr>parse_error := r, stack := st\<rparr>) = ptr_ok S s" "ptr_ok S (s\<lparr>stack := st\<rparr>) = ptr_ok S s"
  "ptr_ok S (s\<lparr>parse_error := r\<rparr>) = ptr_ok S s"
  by (rule ptr_ok_cong; simp add: counts)+

text \<open>Leaving an element keeps what the elements around it need.\<close>

lemma pop_inv:
  assumes "stack_ok ((e, v) # rest)" "rest \<noteq> []" "ptr_ok (elems rest) s" "content_ok s" "before_mixer ((e, v) # rest) \<Longrightarrow> fresh s \<and> e_elem_mixer \<notin> set (elems ((e, v) # rest))"
    "e_elem_codec_probe \<in> set (elems ((e, v) # rest)) \<Longrightarrow> fresh s" "new_xml_file s \<noteq> None \<Longrightarrow> fresh s" "status s = Parsing \<Longrightarrow> new_xml_file s = None"
  shows "parse_inv (s\<lparr>parse_error := r, stack := rest\<rparr>)"
proof -
  have el: "elems ((e, v) # rest) = e # elems rest" using elems_Cons [OF assms(2)] .
  have "before_mixer rest \<Longrightarrow> before_mixer ((e, v) # rest)" using before_mixer_push [OF assms(2)] by simp
  then show ?thesis using assms stack_ok_pop [OF assms(1,2)] unfolding parse_inv_def el
    by (simp add: ptr_ok_parse_error content_ok_def fresh_def)
qed

lemma section_end_ok:
  assumes inv: "parse_inv s" and par: "status s = Parsing" "parse_error s = 0" and deep: "length (stack s) > 1" and pr: "probes_appear E"
  shows "\<exists>s'. parse_section_end E name s = Some s' \<and> parse_error s' = 0 \<and> parse_inv s' \<and> Suc (length (stack s')) = length (stack s)"
proof -
  obtain q rest where "stack s = q # rest" using deep by (cases "stack s") auto
  then obtain e v where stk: "stack s = (e, v) # rest" "rest \<noteq> []" using deep by (cases q) auto
  have ok: "stack_ok ((e, v) # rest)" and ptr: "ptr_ok (e # elems rest) s" and cont: "content_ok s" and new: "new_xml_file s = None"
    using inv par stk elems_Cons [OF stk(2)] by (auto simp: parse_inv_def)
  have shape: "e # elems rest \<in> set shapes" using ok elems_Cons [OF stk(2)] by (simp add: stack_ok_def)
  have bm: "before_mixer ((e, v) # rest) \<Longrightarrow> fresh s \<and> e_elem_mixer \<notin> set (elems ((e, v) # rest))"
    and cp: "e_elem_codec_probe \<in> set (elems ((e, v) # rest)) \<Longrightarrow> fresh s" using inv stk by (auto simp: parse_inv_def)
  consider (none) "end_fn e = None" | (path) "e = e_elem_path" | (case_) "e = e_elem_case" | (probe) "e = e_elem_codec_probe"
    | (keep) "e \<in> {e_elem_device, e_elem_stream, e_elem_usecase}" by (cases e) auto
  then show ?thesis
  proof cases
    case none
    then have "e \<notin> {e_elem_path, e_elem_codec_probe}" by auto
    then have "ptr_ok (elems rest) s" using ptr_ok_pop [OF shape ptr] by blast
    then have "parse_inv (s\<lparr>parse_error := 0, stack := rest\<rparr>)" using pop_inv [OF ok stk(2) _ cont bm cp] new by simp
    moreover have "s\<lparr>parse_error := 0, stack := rest\<rparr> = s\<lparr>stack := rest\<rparr>" using par(2) by (cases s) simp
    ultimately show ?thesis using none stk par by (simp add: parse_section_end_def)
  next
    case path
    have cur: "cur_path s \<noteq> None" using ptr path by (simp add: ptr_ok_def)
    have "elems rest = [e_elem_device, e_elem_audiohal]" using shape_parent(2) [OF shape path] .
    then have p: "ptr_ok (elems rest) (s\<lparr>cur_path := None\<rparr>)" using ptr path by (simp add: ptr_ok_def counts)
    have "parse_inv (s\<lparr>cur_path := None, parse_error := 0, stack := rest\<rparr>)"
      using pop_inv [OF ok stk(2) p, of 0] cont bm cp new by (simp add: content_ok_def fresh_def)
    then show ?thesis using path cur stk par by (simp add: parse_section_end_def parse_path_end_def)
  next
    case case_
    have cur: "cur_scase s \<noteq> None" using ptr case_ by (simp add: ptr_ok_def)
    have "elems rest = [e_elem_usecase, e_elem_stream, e_elem_audiohal]" using shape_parent(4) [OF shape case_] .
    then have p: "ptr_ok (elems rest) (s\<lparr>cur_scase := None\<rparr>)" using ptr case_ by (simp add: ptr_ok_def counts)
    have "parse_inv (s\<lparr>cur_scase := None, parse_error := 0, stack := rest\<rparr>)"
      using pop_inv [OF ok stk(2) p, of 0] cont bm cp new by (simp add: content_ok_def fresh_def)
    then show ?thesis using case_ cur stk par by (simp add: parse_section_end_def parse_case_end_def)
  next
    case keep
    have cur: "cur_device s \<noteq> None" if "e = e_elem_device" using ptr that by (simp add: ptr_ok_def)
    have cur2: "cur_stream s \<noteq> None" if "e = e_elem_stream" using ptr that by (simp add: ptr_ok_def)
    have cur3: "cur_usecase s \<noteq> None" if "e = e_elem_usecase" using ptr that by (simp add: ptr_ok_def)
    have "ptr_ok (elems rest) s" using ptr_ok_pop [OF shape ptr] keep by auto
    then have "parse_inv (s\<lparr>parse_error := 0, stack := rest\<rparr>)" using pop_inv [OF ok stk(2) _ cont bm cp] new by simp
    then show ?thesis using keep cur cur2 cur3 stk par
      by (auto simp: parse_section_end_def parse_device_end_def parse_stream_end_def parse_usecase_end_def)
  next
    case probe
    have fr: "fresh s" using cp elems_Cons [OF stk(2)] probe by simp
    obtain fname where fname: "probe_file s = Some fname" "cur_probe s" using ptr probe by (auto simp: ptr_ok_def)
    let ?s = "s\<lparr>codec_cases := dyn_array_fix (codec_cases s), cur_probe := False\<rparr>"
    have S: "elems rest = [e_elem_audiohal]" using shape_parent(1) [OF shape] probe by simp
    have p: "ptr_ok (elems rest) ?s" using ptr probe S by (simp add: ptr_ok_def counts)
    obtain r s' where r: "probe_config_file E ?s = Some (r, s')" "stack s' = stack ?s" "ptr_ok (elems rest) s'" "fresh s'" "status s' = Parsing \<longrightarrow> new_xml_file s' = None"
      using probe_config_effect [OF pr, of ?s fname "elems rest"] fname(1) fr new par(1) p by (auto simp: fresh_def)
    have mx: "e_elem_mixer \<notin> set (elems ((e, v) # rest))" using elems_Cons [OF stk(2)] S probe by simp
    have "parse_inv (s'\<lparr>parse_error := 0, stack := rest\<rparr>)"
      using pop_inv [OF ok stk(2) r(3) fresh_content [OF r(4)], of 0] r(4,5) mx by auto
    then show ?thesis using probe fname stk par r by (simp add: parse_section_end_def parse_codec_probe_end_def)
  qed
qed

section \<open>Documents\<close>

text \<open>
  What an XML library reports for a text, up to where it stops: no element ends that was not started,
  and there is one outermost element.
\<close>

fun xml_prefix :: "nat \<Rightarrow> bool \<Rightarrow> xml_event list \<Rightarrow> bool" where
  "xml_prefix d seen [] = True"
| "xml_prefix d seen (XStart n as # evs) = ((d = 0 \<longrightarrow> \<not> seen) \<and> xml_prefix (Suc d) True evs)"
| "xml_prefix d seen (XEnd n # evs) = (d > 0 \<and> xml_prefix (d - 1) seen evs)"

fun index_numeric :: "xml_event \<Rightarrow> bool" where
  "index_numeric (XStart n as) = (n = ''ctl'' \<longrightarrow> (\<forall>(a, v) \<in> set as. a = ''index'' \<longrightarrow> (case string_to_uint (Some v) of Inr _ \<Rightarrow> True | Inl _ \<Rightarrow> False)))"
| "index_numeric (XEnd n) = True"

definition doc_inv :: "nat \<Rightarrow> bool \<Rightarrow> parse_state \<Rightarrow> bool" where
  "doc_inv d seen s \<longleftrightarrow> (parse_error s = 0 \<longrightarrow> parse_inv s \<and> length (stack s) = Suc d \<and> (\<not> seen \<longrightarrow> fresh s \<and> d = 0)) \<and>
     (parse_error s \<noteq> 0 \<longrightarrow> stack s \<noteq> [] \<and> new_xml_file s = None)"

fun depth_after :: "nat \<Rightarrow> bool \<Rightarrow> xml_event list \<Rightarrow> nat \<times> bool" where
  "depth_after d seen [] = (d, seen)"
| "depth_after d seen (XStart n as # evs) = depth_after (Suc d) True evs"
| "depth_after d seen (XEnd n # evs) = depth_after (d - 1) seen evs"

lemma xml_prefix_append:
  "xml_prefix d seen (a @ b) \<longleftrightarrow> xml_prefix d seen a \<and> xml_prefix (fst (depth_after d seen a)) (snd (depth_after d seen a)) b"
  by (induction d seen a rule: xml_prefix.induct) auto

lemma parse_event_inv:
  assumes "doc_inv d seen s" "status s = Parsing" "xml_prefix d seen [ev]" "index_numeric ev" "probes_appear E"
  shows "\<exists>s'. parse_event E ev s = Some s' \<and> doc_inv (fst (depth_after d seen [ev])) (snd (depth_after d seen [ev])) s'"
proof (cases "parse_error s = 0")
  case False
  then show ?thesis using assms(1) by (cases ev; cases "stack s") (auto simp: doc_inv_def parse_section_start_def parse_section_end_def)
next
  case True
  then have inv: "parse_inv s" "length (stack s) = Suc d" "\<not> seen \<longrightarrow> fresh s \<and> d = 0" using assms(1) by (auto simp: doc_inv_def)
  show ?thesis
  proof (cases ev)
    case (XStart n as)
    have root: "fresh s" if "length (stack s) = 1" using that assms(3) inv XStart by auto
    have idx: "\<exists>w. string_to_uint (Some v) = Inr w" if "n = ''ctl''" "(''index'', v) \<in> set as" for v
      using that assms(4) XStart by (cases "string_to_uint (Some v)") auto
    obtain s' where s': "parse_section_start E n as s = Some s'" "new_xml_file s' = None" "stack s' \<noteq> []" "parse_error s' = 0 \<longrightarrow> parse_inv s' \<and> length (stack s') = Suc (length (stack s))"
      using section_start_ok [where E = E, OF inv(1) assms(2) True root idx] by blast
    then show ?thesis using XStart s' inv(2) by (auto simp: doc_inv_def)
  next
    case (XEnd n)
    then have "length (stack s) > 1" using assms(3) inv(2) by simp
    then obtain s' where "parse_section_end E n s = Some s'" "parse_error s' = 0" "parse_inv s'" "Suc (length (stack s')) = length (stack s)"
      using section_end_ok [OF inv(1) assms(2) True _ assms(5), of n] by blast
    then show ?thesis using XEnd assms(3) inv by (auto simp: doc_inv_def)
  qed
qed

end
