(* ===== verification/AudioParseProps.thy ===== *)
theory AudioParseProps
  imports AudioParseSafe
begin

text \<open>
  Properties of the reader of the audio configuration: whole files, the tables that a file leaves
  behind, and the composition with the operations on streams.
\<close>

section \<open>Results of the handlers\<close>

lemma at_last_ret: "at_last p f xs = Some (r, ys) \<Longrightarrow> \<exists>x y. f x = Some (r, y)"
  by (auto simp: at_last_def split: option.splits if_splits)

lemma on_device_ret: "on_device p f s = Some (r, s') \<Longrightarrow> \<exists>x y. f x = Some (r, y)"
  by (auto simp: on_device_def dest: at_last_ret)

lemma on_stream_ret: "on_stream p f s = Some (r, s') \<Longrightarrow> \<exists>x y. f x = Some (r, y)"
  by (auto simp: on_stream_def dest: at_last_ret)

lemma in_ret:
  "in_paths p f d = Some (r, d') \<Longrightarrow> \<exists>x y. f x = Some (r, y)" "in_usecases p g st = Some (r, st') \<Longrightarrow> \<exists>x y. g x = Some (r, y)"
  "in_cases p h u = Some (r, u') \<Longrightarrow> \<exists>x y. h x = Some (r, y)" "in_path_ctls k pt = Some (r, pt') \<Longrightarrow> \<exists>x y. k x = Some (r, y)"
  "in_case_ctls k c = Some (r, c') \<Longrightarrow> \<exists>x y. k x = Some (r, y)"
  by (auto simp: in_paths_def in_usecases_def in_cases_def in_path_ctls_def in_case_ctls_def dest: at_last_ret)

lemma make_byte_array_ret: "make_byte_array mc v c = (r, c') \<Longrightarrow> r \<le> 0"
  by (auto simp: make_byte_array_def Let_def errno_defs split: if_splits sum.splits dest: parse_bytes_error)

lemma ctl_open_ret: "ctl_open m c = (r, c') \<Longrightarrow> r \<le> 0"
  by (auto simp: ctl_open_def open_byte_ctl_def open_int_ctl_def ctl_opened_def Let_def errno_defs
      split: if_splits option.splits mixer_ctl_type.splits sum.splits prod.splits dest: make_byte_array_ret)

lemma add_ctl_ret: "add_ctl s name ctls = Some (r, ctls') \<Longrightarrow> r \<le> 0"
  by (auto simp: add_ctl_def with_attrib_def errno_defs split: option.splits if_splits prod.splits dest: ctl_open_ret)

lemma push_ret: "push x xs = (r, ys) \<Longrightarrow> r \<le> 0"
  by (auto simp: push_def errno_defs split: option.splits)

lemma set_stream_ctl_ret: "set_stream_ctl s i mc idx sc = (r, sc') \<Longrightarrow> r \<le> 0"
  by (auto simp: set_stream_ctl_def limit_of_def Let_def errno_defs split: sum.splits if_splits)

lemma parse_ctl_ret: "parse_ctl_start E s = Some (r, s') \<Longrightarrow> r \<le> 0"
  by (auto simp: parse_ctl_start_def with_attrib_def split: option.splits path_ptr.splits dest!: on_device_ret on_stream_ret in_ret add_ctl_ret)

lemma parse_path_ret: "parse_path_start E s = Some (r, s') \<Longrightarrow> r \<le> 0"
  by (auto simp: parse_path_start_def with_attrib_def add_path_def Let_def split: option.splits prod.splits if_splits dest!: on_device_ret push_ret)

lemma parse_usecase_ret: "parse_usecase_start E s = Some (r, s') \<Longrightarrow> r \<le> 0"
  by (auto simp: parse_usecase_start_def with_attrib_def add_usecase_def Let_def split: option.splits prod.splits if_splits dest!: on_stream_ret push_ret)

lemma parse_case_ret: "parse_case_start E s = Some (r, s') \<Longrightarrow> r \<le> 0"
  by (auto simp: parse_case_start_def with_attrib_def add_case_def Let_def split: option.splits prod.splits if_splits dest!: on_stream_ret in_ret push_ret)

lemma parse_stream_ctl_ret: "parse_stream_ctl_start E s = Some (r, s') \<Longrightarrow> r \<le> 0"
  by (auto simp: parse_stream_ctl_start_def with_attrib_def Let_def errno_defs split: option.splits prod.splits if_splits
      dest!: on_stream_ret set_stream_ctl_ret)

lemma other_start_ret:
  "parse_device_start E s = Some (r, s') \<Longrightarrow> r \<le> 0" "parse_stream_start E s = Some (r, s') \<Longrightarrow> r \<le> 0"
  "parse_enable_disable_start b E s = Some (r, s') \<Longrightarrow> r \<le> 0" "parse_init_start E s = Some (r, s') \<Longrightarrow> r \<le> 0"
  "parse_mixer_start E s = Some (r, s') \<Longrightarrow> r \<le> 0" "parse_codec_probe_start E s = Some (r, s') \<Longrightarrow> r \<le> 0"
  "parse_codec_case_start E s = Some (r, s') \<Longrightarrow> r \<le> 0"
  by (auto simp: parse_device_start_def parse_stream_start_def parse_enable_disable_start_def parse_init_start_def parse_mixer_start_def
      parse_codec_probe_start_def parse_codec_case_start_def with_attrib_def Let_def errno_defs
      split: option.splits prod.splits if_splits list.splits dest!: on_stream_ret push_ret)

lemmas start_rets = parse_ctl_ret parse_path_ret parse_usecase_ret parse_case_ret parse_stream_ctl_ret other_start_ret

lemma start_fn_ret: "start_fn e = Some f \<Longrightarrow> f E s = Some (r, s') \<Longrightarrow> r \<le> 0"
  by (cases e) (auto simp: parse_enable_start_def parse_disable_start_def dest: start_rets)

lemma end_fn_ret: "end_fn e = Some f \<Longrightarrow> f E s = Some (r, s') \<Longrightarrow> r = 0"
  by (cases e) (auto simp: parse_path_end_def parse_device_end_def parse_stream_end_def parse_case_end_def parse_usecase_end_def
      parse_codec_probe_end_def split: if_splits)

lemma parse_event_ret: "parse_event E ev s = Some s' \<Longrightarrow> parse_error s \<le> 0 \<Longrightarrow> parse_error s' \<le> 0"
proof (cases ev)
  case (XStart n as)
  assume "parse_event E ev s = Some s'" "parse_error s \<le> 0"
  then show ?thesis using XStart
    by (auto simp: parse_section_start_def enter_elem_def call_start_def parse_set_error_def Let_def errno_defs
        split: list.splits prod.splits if_splits option.splits dest: start_fn_ret)
next
  case (XEnd n)
  assume "parse_event E ev s = Some s'" "parse_error s \<le> 0"
  then show ?thesis using XEnd
    by (auto simp: parse_section_end_def split: list.splits prod.splits if_splits option.splits dest: end_fn_ret)
qed

section \<open>Whole files\<close>

fun read_events :: "xml_read \<Rightarrow> xml_event list" where
  "read_events (XRead evs bad) = evs"
| "read_events XReadError = []"

definition document_ok :: "xml_read list \<Rightarrow> bool" where
  "document_ok rs \<longleftrightarrow> xml_prefix 0 False (concat (map read_events rs)) \<and> (\<forall>ev \<in> set (concat (map read_events rs)). index_numeric ev)"

lemma parse_events_inv:
  assumes "doc_inv d seen s" "xml_prefix d seen evs" "\<forall>ev \<in> set evs. index_numeric ev" "probes_appear E" "parse_error s \<le> 0"
  shows "\<exists>s' d' seen'. parse_events E evs s = Some s' \<and> doc_inv d' seen' s' \<and> parse_error s' \<le> 0 \<and>
    (status s' = Parsing \<longrightarrow> (d', seen') = depth_after d seen evs)"
  using assms
proof (induction evs arbitrary: d seen s)
  case Nil
  then show ?case by auto
next
  case (Cons ev evs)
  show ?case
  proof (cases "status s = Parsing")
    case False
    then show ?thesis using Cons.prems by auto
  next
    case True
    have split: "xml_prefix d seen [ev]" "xml_prefix (fst (depth_after d seen [ev])) (snd (depth_after d seen [ev])) evs"
      using Cons.prems(2) xml_prefix_append [of d seen "[ev]" evs] by auto
    obtain s1 where s1: "parse_event E ev s = Some s1" "doc_inv (fst (depth_after d seen [ev])) (snd (depth_after d seen [ev])) s1"
      using parse_event_inv [OF Cons.prems(1) True split(1) _ Cons.prems(4)] Cons.prems(3) by auto
    have "parse_error s1 \<le> 0" using parse_event_ret [OF s1(1) Cons.prems(5)] .
    moreover have "depth_after d seen (ev # evs) = depth_after (fst (depth_after d seen [ev])) (snd (depth_after d seen [ev])) evs" by (cases ev) simp_all
    ultimately show ?thesis using Cons.IH [OF s1(2) split(2) _ Cons.prems(4)] Cons.prems(3) True s1(1) by auto
  qed
qed

lemma parse_reads_inv:
  assumes "doc_inv d seen s" "xml_prefix d seen (concat (map read_events rs))" "\<forall>ev \<in> set (concat (map read_events rs)). index_numeric ev"
    "probes_appear E" "parse_error s = 0"
  shows "\<exists>r s' d' seen'. parse_reads E rs s = Some (r, s') \<and> doc_inv d' seen' s' \<and> r \<le> 0 \<and> (r = 0 \<longrightarrow> parse_error s' = 0)"
  using assms
proof (induction rs arbitrary: d seen s)
  case Nil
  then show ?case by auto
next
  case (Cons rd rs)
  show ?case
  proof (cases rd)
    case XReadError
    then show ?thesis using Cons.prems(1) by (auto simp: errno_defs)
  next
    case (XRead evs bad)
    show ?thesis
    proof (cases "status s = Parsing")
      case False
      then show ?thesis using XRead Cons.prems(1) by (auto simp: errno_defs)
    next
      case True
      have pre: "xml_prefix d seen evs" "xml_prefix (fst (depth_after d seen evs)) (snd (depth_after d seen evs)) (concat (map read_events rs))"
        using Cons.prems(2) XRead xml_prefix_append by auto
      obtain s1 d1 seen1 where s1: "parse_events E evs s = Some s1" "doc_inv d1 seen1 s1" "parse_error s1 \<le> 0" "status s1 = Parsing \<longrightarrow> (d1, seen1) = depth_after d seen evs"
        using parse_events_inv [OF Cons.prems(1) pre(1) _ Cons.prems(4)] Cons.prems(3,5) XRead by auto
      show ?thesis
      proof (cases "parse_error s1 = 0 \<and> status s1 = Parsing \<and> \<not> bad")
        case t: True
        then have "(d1, seen1) = depth_after d seen evs" using s1(4) by blast
        then have "fst (depth_after d seen evs) = d1" "snd (depth_after d seen evs) = seen1" by (metis fst_conv, metis snd_conv)
        then have "\<exists>r s' d' seen'. parse_reads E rs s1 = Some (r, s') \<and> doc_inv d' seen' s' \<and> r \<le> 0 \<and> (r = 0 \<longrightarrow> parse_error s' = 0)"
          using Cons.IH [OF s1(2)] pre(2) Cons.prems(3,4) t by auto
        then show ?thesis using XRead True s1(1) t by (simp add: parse_log_error_def)
      next
        case f: False
        show ?thesis
        proof (cases "parse_error s1 < 0 \<or> status s1 = Aborted \<or> (status s1 = Parsing \<and> bad)")
          case True
          then show ?thesis using XRead \<open>status s = Parsing\<close> s1 by (auto simp: parse_log_error_def errno_defs)
        next
          case nf: False
          then have susp: "parse_error s1 = 0" "status s1 = Suspended" using f s1(3) by (auto, cases "status s1", auto)
          have "\<exists>r. parse_reads E rs s1 = Some (r, s1) \<and> r \<le> 0"
            using susp by (cases rs; cases "hd rs") (auto simp: errno_defs)
          then show ?thesis using XRead True s1 susp by (auto simp: parse_log_error_def)
        qed
      qed
    qed
  qed
qed

text \<open>A file is read from a state in which nothing was collected.\<close>

lemma do_parse_inv:
  assumes "document_ok rs" "probes_appear E" "fresh s" "status s = Parsing" "new_xml_file s = None" "cur_path s = None \<or> cur_path s = Some InitPath"
  shows "\<exists>r s' d seen. do_parse E rs s = Some (r, s') \<and> doc_inv d seen s' \<and> r \<le> 0 \<and> (r = 0 \<longrightarrow> parse_error s' = 0)"
proof -
  let ?s = "s\<lparr>parse_error := 0, stack := [(e_elem_ctl, [e_elem_audiohal])]\<rparr>"
  have fr: "fresh ?s" using assms(3) by (simp add: fresh_def)
  have "ptr_ok [] ?s" using assms(6) by (simp add: ptr_ok_def)
  then have "parse_inv ?s" using fr fresh_content [OF fr] assms(5) by (simp add: parse_inv_def stack_ok_def elems_def shapes_def before_mixer_def)
  then have "doc_inv 0 False ?s" using fr by (simp add: doc_inv_def)
  then show ?thesis using parse_reads_inv [of 0 False ?s rs E] assms(1,2) by (auto simp: do_parse_def document_ok_def)
qed

section \<open>Files that redirect\<close>

text \<open>The loop over files, stopped after a number of them; the result is \<open>None\<close> while it still runs.\<close>

fun parse_up_to :: "nat \<Rightarrow> audio_env \<Rightarrow> parse_state \<Rightarrow> (int option \<times> parse_state) option" where
  "parse_up_to 0 E s = Some (None, s)"
| "parse_up_to (Suc n) E s =
     (case open_config_file E (new_xml_file s) s of
        (None, s) \<Rightarrow> Some (Some (-ENOMEM), s)
      | (Some rs, s) \<Rightarrow>
          (case do_parse E rs (redirect s) of
             None \<Rightarrow> None
           | Some (r, s) \<Rightarrow> if new_xml_file s \<noteq> None then parse_up_to n E s else Some (Some r, s)))"

lemma parse_up_to_files: "parse_up_to n E s = Some (Some r, s') \<Longrightarrow> parse_files E s = Some (r, s')"
proof (induction n arbitrary: s)
  case (Suc n)
  then show ?case by (subst parse_files.simps) (auto split: prod.splits option.splits if_splits)
qed simp

lemma parse_files_up_to: "parse_files E s = Some q \<Longrightarrow> \<exists>n. parse_up_to n E s = Some (Some (fst q), snd q)"
proof (rule parse_files.raw_induct [where P = "\<lambda>E s q. \<exists>n. parse_up_to n E s = Some (Some (fst q), snd q)"])
  fix f E s q
  assume IH: "\<And>E s q. f E s = Some q \<Longrightarrow> \<exists>n. parse_up_to n E s = Some (Some (fst q), snd q)"
    and run: "(case open_config_file E (new_xml_file s) s of (None, s) \<Rightarrow> Some (- ENOMEM, s)
      | (Some rs, s) \<Rightarrow> (case do_parse E rs (redirect s) of None \<Rightarrow> None
          | Some (r, s) \<Rightarrow> if new_xml_file s \<noteq> None then f E s else Some (r, s))) = Some q"
  obtain ors s1 where o: "open_config_file E (new_xml_file s) s = (ors, s1)" by fastforce
  show "\<exists>n. parse_up_to n E s = Some (Some (fst q), snd q)"
  proof (cases ors)
    case None
    then show ?thesis using run o by (intro exI [of _ "Suc 0"]) auto
  next
    case (Some rs)
    then obtain r s2 where p: "do_parse E rs (redirect s1) = Some (r, s2)" using run o by (cases "do_parse E rs (redirect s1)") auto
    show ?thesis
    proof (cases "new_xml_file s2 = None")
      case True
      then show ?thesis using run o Some p by (intro exI [of _ "Suc 0"]) auto
    next
      case False
      then have "f E s2 = Some q" using run o Some p by simp
      then obtain n where "parse_up_to n E s2 = Some (Some (fst q), snd q)" using IH by blast
      then show ?thesis using False o Some p by (intro exI [of _ "Suc n"]) simp
    qed
  qed
qed

text \<open>The files and the XML library: documents are well formed, control indices are numbers, probed files appear.\<close>

definition env_ok :: "audio_env \<Rightarrow> bool" where
  "env_ok E \<longleftrightarrow> probes_appear E \<and> (\<forall>name rs. xml_file E name = Some rs \<longrightarrow> document_ok rs)"

definition start_ok :: "parse_state \<Rightarrow> bool" where
  "start_ok s \<longleftrightarrow> fresh s \<and> (cur_path s = None \<or> cur_path s = Some InitPath) \<and> (new_xml_file s = None \<longrightarrow> status s = Parsing)"

lemma doc_inv_restart:
  assumes "doc_inv d seen s" "new_xml_file s \<noteq> None"
  shows "start_ok s"
proof -
  have inv: "parse_inv s" using assms by (auto simp: doc_inv_def)
  then have fr: "fresh s" and ptr: "ptr_ok (elems (stack s)) s" using assms(2) by (auto simp: parse_inv_def)
  have "e_elem_path \<notin> set (elems (stack s))" using ptr fr by (auto simp: ptr_ok_def fresh_def counts)
  then show ?thesis using fr ptr assms(2) by (auto simp: start_ok_def ptr_ok_def)
qed

lemma parse_up_to_inv:
  assumes "env_ok E" "start_ok s"
  shows "\<exists>res s'. parse_up_to n E s = Some (res, s') \<and> (res = Some 0 \<longrightarrow> content_ok s') \<and> (\<forall>r. res = Some r \<longrightarrow> r \<le> 0)"
  using assms(2)
proof (induction n arbitrary: s)
  case (Suc n)
  define s1 where "s1 = snd (open_config_file E (new_xml_file s) s)"
  have o: "open_config_file E (new_xml_file s) s = (xml_file E (config_file_name E (new_xml_file s)), s1)"
    by (simp add: s1_def open_config_file_def Let_def)
  have s1: "start_ok s1" using Suc.prems by (auto simp: s1_def open_config_file_def Let_def start_ok_def fresh_def)
  show ?case
  proof (cases "xml_file E (config_file_name E (new_xml_file s))")
    case None
    then show ?thesis using o by (simp add: errno_defs)
  next
    case (Some rs)
    have doc: "document_ok rs" "probes_appear E" using assms(1) Some by (auto simp: env_ok_def)
    have "fresh (redirect s1)" "status (redirect s1) = Parsing" "new_xml_file (redirect s1) = None" "cur_path (redirect s1) = None \<or> cur_path (redirect s1) = Some InitPath"
      using s1 by (auto simp: redirect_def start_ok_def fresh_def)
    then obtain r s2 d seen where r: "do_parse E rs (redirect s1) = Some (r, s2)" "doc_inv d seen s2" "r \<le> 0" "r = 0 \<longrightarrow> parse_error s2 = 0"
      using do_parse_inv [OF doc] by blast
    show ?thesis
    proof (cases "new_xml_file s2 = None")
      case True
      have "content_ok s2" if "r = 0" using r(2,4) that by (auto simp: doc_inv_def parse_inv_def)
      then show ?thesis using True o Some r(1,3) by simp
    next
      case False
      then show ?thesis using Suc.IH [OF doc_inv_restart [OF r(2) False]] o Some r(1) by simp
    qed
  qed
qed simp

definition start_state :: parse_state where
  "start_state = snd (init_state (blank_state new_config_mgr))"

lemma find_name_other: "n \<le> length ns \<Longrightarrow> name \<notin> set ns \<Longrightarrow> find_name ns name n = -EINVAL"
  by (induction n) auto

lemma add_new_name: "name \<notin> set (path_names s) \<Longrightarrow> length (path_names s) < DYN_ARRAY_LIMIT \<Longrightarrow>
    add_path_name name s = (int (length (path_names s)), s\<lparr>path_names := path_names s @ [name]\<rparr>)"
  by (simp add: add_path_name_def find_path_name_def find_name_other grow_list_def errno_defs)

lemma init_state_run: "init_state (blank_state cm) = (0, (blank_state cm)\<lparr>path_names := [''off'', ''on'']\<rparr>)"
  by (simp add: init_state_def add_new_name blank_state_def DYN_ARRAY_LIMIT_def)

lemma start_state_ok: "start_ok start_state"
  unfolding start_state_def init_state_run by (simp add: blank_state_def start_ok_def fresh_def new_config_mgr_def)

lemma init_audio_config_run:
  "init_audio_config E K =
     (case parse_files E start_state of
        None \<Rightarrow> None
      | Some (r, s) \<Rightarrow>
          if r < 0 then Some None
          else map_option (\<lambda>(_, h). if r \<noteq> 0 then None else Some ((ps_cm s)\<lparr>mlog := h\<rparr>)) (apply_ctls_l (cm_mixer (ps_cm s)) K (init_path s) (mlog (ps_cm s))))"
  by (auto simp: init_audio_config_def parse_config_file_def start_state_def init_state_run option.map_comp comp_def case_prod_unfold intro!: option.map_cong
      split: option.splits)

lemma init_audio_config_safe:
  assumes "env_ok E" "parse_files E start_state = Some (r, s)"
  shows "\<exists>res. init_audio_config E K = Some res \<and> (\<forall>cm. res = Some cm \<longrightarrow> r = 0 \<and> (\<exists>h. cm = (ps_cm s)\<lparr>mlog := h\<rparr>) \<and> config_safe cm)"
proof -
  obtain n where n: "parse_up_to n E start_state = Some (Some r, s)" using parse_files_up_to [OF assms(2)] by auto
  have c: "r = 0 \<longrightarrow> content_ok s" "r \<le> 0" using parse_up_to_inv [OF assms(1) start_state_ok, of n] n by auto
  show ?thesis
  proof (cases "r = 0")
    case False
    then show ?thesis using c assms(2) by (simp add: init_audio_config_run)
  next
    case True
    then obtain cs h where "apply_ctls_l (cm_mixer (ps_cm s)) K (init_path s) (mlog (ps_cm s)) = Some (cs, h)"
      using c apply_ctls_total [of "init_path s" "cm_mixer (ps_cm s)" K "mlog (ps_cm s)"] by (auto simp: content_ok_def)
    then show ?thesis using True c assms(2) by (auto simp: init_audio_config_run content_ok_def config_safe_def)
  qed
qed

text \<open>C30. For every set of well-formed configuration files whose control indices are numbers and whose probed files
  appear, reading any number of files is defined: the stack of open elements stays in its array and no pointer to a
  current object is followed when it is not valid. When the files stop redirecting, initialisation returns, and every
  operation on the configuration it delivers is defined.\<close>

theorem audio_configuration_safe:
  assumes "env_ok E"
  shows "\<exists>res s'. parse_up_to n E start_state = Some (res, s') \<and>
    (res \<noteq> None \<longrightarrow> (\<exists>mgr. init_audio_config E K = Some mgr \<and>
       (\<forall>cm ops. mgr = Some cm \<longrightarrow> (\<forall>op \<in> set ops. \<forall>i. op_stream op = Some i \<longrightarrow> i < length (streams cm)) \<longrightarrow>
          (\<exists>cm'. run_ops (masks E) K ops cm = Some cm'))))"
proof -
  obtain res s' where r: "parse_up_to n E start_state = Some (res, s')" using parse_up_to_inv [OF assms start_state_ok] by blast
  have "\<exists>mgr. init_audio_config E K = Some mgr \<and> (\<forall>cm. mgr = Some cm \<longrightarrow> config_safe cm)" if "res \<noteq> None"
  proof -
    obtain v where "res = Some v" using \<open>res \<noteq> None\<close> by auto
    then show ?thesis using init_audio_config_safe [OF assms parse_up_to_files, of n v s' K] r by blast
  qed
  then show ?thesis using r run_ops_safe by blast
qed

section \<open>Concrete files\<close>

text \<open>A file with a card, a headset that can be switched on and off, and one output stream.\<close>

definition test_document :: "xml_event list" where
  "test_document =
     [XStart ''audiohal'' [], XStart ''mixer'' [(''card'', ''1'')], XEnd ''mixer'',
      XStart ''device'' [(''name'', ''headset'')],
        XStart ''path'' [(''name'', ''on'')], XEnd ''path'', XStart ''path'' [(''name'', ''off'')], XEnd ''path'',
      XEnd ''device'',
      XStart ''stream'' [(''type'', ''pcm''), (''dir'', ''out''), (''card'', ''1''), (''instances'', ''2'')],
        XStart ''enable'' [(''path'', ''on'')], XEnd ''enable'',
      XEnd ''stream'', XEnd ''audiohal'']"

definition test_audio_env :: audio_env where
  "test_audio_env = \<lparr>masks = test_masks, mixer_open = (\<lambda>_. Some []), xml_file = (\<lambda>_. Some [XRead test_document False]),
     probe_open = (\<lambda>_ _. Some ''wm5102''), product_device = ''mocha''\<rparr>"

lemma test_audio_env_ok: "env_ok test_audio_env"
  by (simp add: env_ok_def probes_appear_def test_audio_env_def document_ok_def test_document_def)


lemmas handler_defs = parse_path_start_def parse_device_start_def parse_stream_start_def parse_enable_start_def parse_enable_disable_start_def
  parse_mixer_start_def parse_path_end_def parse_device_end_def parse_stream_end_def add_path_def newest_path_def on_device_def on_stream_def
  at_last_def push_def grow_list_def add_supported_def stream_of_attribs_def stream_dir_def stream_kind_def find_named_stream_def find_path_name_def add_path_name_def
  set_devices_def set_streams_def with_attrib_def uint_or_def attrib_to_uint_def parse_match_device_def device_table_def

lemmas section_defs = parse_section_start_def parse_section_end_def enter_elem_def call_start_def extract_attribs_def parse_set_error_def all_elems_def all_attribs_def
  stack_index_def MAX_PARSE_DEPTH_def DYN_ARRAY_LIMIT_def


lemma test_numbers: "string_to_uint (Some ''1'') = Inr 1" "string_to_uint (Some ''2'') = Inr 2" "string_to_uint None = Inl (-ENOENT)"
  by code_simp+


definition test_audio_stream :: stream where
  "test_audio_stream = \<lparr>info = \<lparr>st_type = e_stream_out_pcm, card_number = Some 1, device_number = Some 0, rate = 0, period_size = 0, period_count = 0\<rparr>,
     s_name = None, ref_count = 0, max_ref_count = 2, enable_path = 1, disable_path = -1, current_devices = 0,
     volume_left = no_control, volume_right = no_control, usecases = []\<rparr>"

lemma test_parse_run:
  "(case parse_up_to 1 test_audio_env start_state of
      Some (Some r, s) \<Rightarrow> r = 0 \<and> init_path s = [] \<and> devices (ps_cm s) = [on_off_device 4] \<and> streams (ps_cm s) = [test_audio_stream]
    | _ \<Rightarrow> False)"
  unfolding start_state_def init_state_run
  by (simp add: test_document_def handler_defs section_defs test_audio_env_def test_numbers blank_state_def open_config_file_def redirect_def do_parse_def
      parse_log_error_def new_config_mgr_def Let_def new_device_def new_path_def test_masks_def errno_defs new_stream_def no_control_def on_off_device_def
      test_audio_stream_def PCM_DEVICE_DEFAULT_def)

lemma test_parse:
  "\<exists>s. parse_up_to 1 test_audio_env start_state = Some (Some 0, s) \<and> init_path s = [] \<and> devices (ps_cm s) = [on_off_device 4] \<and>
     streams (ps_cm s) = [test_audio_stream]"
proof -
  obtain q where q: "parse_up_to 1 test_audio_env start_state = q" by simp
  show ?thesis using test_parse_run unfolding q by (auto split: option.splits prod.splits)
qed

lemma test_init:
  "\<exists>cm. init_audio_config test_audio_env test_card = Some (Some cm) \<and> devices cm = [on_off_device 4] \<and> streams cm = [test_audio_stream]"
proof -
  from test_parse obtain s where s: "parse_up_to 1 test_audio_env start_state = Some (Some 0, s)" "init_path s = []" "devices (ps_cm s) = [on_off_device 4]"
    "streams (ps_cm s) = [test_audio_stream]" by (elim exE conjE)
  have "parse_files test_audio_env start_state = Some (0, s)" by (rule parse_up_to_files [OF s(1)])
  then have "init_audio_config test_audio_env test_card = Some (Some ((ps_cm s)\<lparr>mlog := mlog (ps_cm s)\<rparr>))"
    using s(2) by (simp add: init_audio_config_run)
  then show ?thesis using s(3,4) by auto
qed

theorem audio_configuration_safe_witness:
  "\<exists>cm. init_audio_config test_audio_env test_card = Some (Some cm) \<and>
     (\<exists>cm'. run_ops test_masks test_card [OpGet 4 True, OpRoute 0 4, OpRelease 0] cm = Some cm')"
proof -
  from test_parse obtain s where s: "parse_up_to 1 test_audio_env start_state = Some (Some 0, s)" by (elim exE conjE)
  obtain cm where cm: "init_audio_config test_audio_env test_card = Some (Some cm)" "streams cm = [test_audio_stream]" using test_init by blast
  have "masks test_audio_env = test_masks" by (simp add: test_audio_env_def)
  then show ?thesis
    using audio_configuration_safe [OF test_audio_env_ok, of 1 test_card] cm unfolding s
    by (auto dest!: spec [where x = "[OpGet 4 True, OpRoute 0 4, OpRelease 0]"])
qed

end
