(* ===== verification/AudioTables.thy ===== *)
theory AudioTables
  imports AudioParseProps
begin

text \<open>
  The tables a configuration file leaves behind: path identifiers, stream names and the masks of the
  supported devices are consistent, and nothing is in use.
\<close>

section \<open>Skeletons\<close>

text \<open>What the tables hold apart from controls.\<close>

definition dev_skel :: "device \<Rightarrow> u32 \<times> int \<times> int list" where
  "dev_skel d = (dev_type d, use_count d, path_ids d)"

definition st_skel :: "stream \<Rightarrow> string option \<times> int \<times> u32 \<times> int \<times> int" where
  "st_skel st = (s_name st, ref_count st, current_devices st, enable_path st, disable_path st)"

definition same_skel :: "parse_state \<Rightarrow> parse_state \<Rightarrow> bool" where
  "same_skel s s' \<longleftrightarrow> map dev_skel (devices (ps_cm s')) = map dev_skel (devices (ps_cm s)) \<and> map st_skel (streams (ps_cm s')) = map st_skel (streams (ps_cm s)) \<and>
     supported_output_devices (ps_cm s') = supported_output_devices (ps_cm s) \<and> supported_input_devices (ps_cm s') = supported_input_devices (ps_cm s) \<and>
     path_names s' = path_names s"

fun types_or :: "audio_masks \<Rightarrow> bool \<Rightarrow> u32 list \<Rightarrow> u32" where
  "types_or A inp [] = 0"
| "types_or A inp (t # ts) = (if (t AND AUDIO_DEVICE_BIT_IN A \<noteq> 0) = inp then t else 0) OR types_or A inp ts"

definition device_entry_ok :: "nat \<Rightarrow> u32 \<times> int \<times> int list \<Rightarrow> bool" where
  "device_entry_ok n q \<longleftrightarrow> (case q of (t, c, ids) \<Rightarrow> c = 0 \<and> (\<forall>i \<in> set ids. 0 \<le> i \<and> i < int n))"

definition stream_entry_ok :: "nat \<Rightarrow> string option \<times> int \<times> u32 \<times> int \<times> int \<Rightarrow> bool" where
  "stream_entry_ok n q \<longleftrightarrow> (case q of (nm, rc, cur, e, d) \<Rightarrow> rc = 0 \<and> cur = 0 \<and> -1 \<le> e \<and> e < int n \<and> -1 \<le> d \<and> d < int n)"

text \<open>Names of streams are unique; the masks of supported devices are those of the device table.\<close>

definition tables_ok :: "audio_masks \<Rightarrow> string list \<Rightarrow> config_mgr \<Rightarrow> bool" where
  "tables_ok A names cm \<longleftrightarrow> distinct names \<and> take 2 names = [''off'', ''on''] \<and>
     (\<forall>q \<in> set (map dev_skel (devices cm)). device_entry_ok (length names) q) \<and>
     (\<forall>q \<in> set (map st_skel (streams cm)). stream_entry_ok (length names) q) \<and>
     distinct (filter (\<lambda>x. x \<noteq> None) (map fst (map st_skel (streams cm)))) \<and>
     supported_output_devices cm = types_or A False (map fst (map dev_skel (devices cm))) \<and>
     supported_input_devices cm = types_or A True (map fst (map dev_skel (devices cm)))"

lemma tables_same: "same_skel s s' \<Longrightarrow> tables_ok A (path_names s') (ps_cm s') = tables_ok A (path_names s) (ps_cm s)"
  by (simp only: same_skel_def tables_ok_def)

lemma types_or_append: "types_or A inp (a @ b) = types_or A inp a OR types_or A inp b"
  by (induction a) (simp_all add: or.assoc)

lemma output_types_or: "output_types A ds = types_or A False (map dev_type ds)"
  by (induction ds) (simp_all add: is_input_device_def)

section \<open>Handlers\<close>

lemma at_last_elim: "at_last p f xs = Some (r, ys) \<Longrightarrow> \<exists>zs x y. xs = zs @ [x] \<and> f x = Some (r, y) \<and> ys = zs @ [y]"
  by (cases xs rule: rev_cases) (auto simp: at_last_def split: option.splits if_splits)

lemma on_device_elim: "on_device p f s = Some (r, s') \<Longrightarrow> \<exists>zs x y. devices (ps_cm s) = zs @ [x] \<and> f x = Some (r, y) \<and> s' = set_devices (zs @ [y]) s"
  by (auto simp: on_device_def dest!: at_last_elim)

lemma on_stream_elim: "on_stream p f s = Some (r, s') \<Longrightarrow> \<exists>zs x y. streams (ps_cm s) = zs @ [x] \<and> f x = Some (r, y) \<and> s' = set_streams (zs @ [y]) s"
  by (auto simp: on_stream_def dest!: at_last_elim)

lemma skel_sel [simp]:
  "supported_output_devices (ps_cm (set_devices ds s)) = supported_output_devices (ps_cm s)"
  "supported_input_devices (ps_cm (set_devices ds s)) = supported_input_devices (ps_cm s)" "path_names (set_devices ds s) = path_names s"
  "supported_output_devices (ps_cm (set_streams ss s)) = supported_output_devices (ps_cm s)"
  "supported_input_devices (ps_cm (set_streams ss s)) = supported_input_devices (ps_cm s)" "path_names (set_streams ss s) = path_names s"
  by (simp_all add: set_devices_def set_streams_def)

lemma on_device_skel: "on_device p f s = Some (r, s') \<Longrightarrow> (\<And>x y. f x = Some (r, y) \<Longrightarrow> dev_skel y = dev_skel x) \<Longrightarrow> same_skel s s'"
  by (auto simp: same_skel_def dest!: on_device_elim)

lemma on_stream_skel: "on_stream p f s = Some (r, s') \<Longrightarrow> (\<And>x y. f x = Some (r, y) \<Longrightarrow> st_skel y = st_skel x) \<Longrightarrow> same_skel s s'"
  by (auto simp: same_skel_def dest!: on_stream_elim)

lemma path_ctls_skel: "in_paths p (in_path_ctls f) d = Some (r, d') \<Longrightarrow> dev_skel d' = dev_skel d"
  by (auto simp: in_paths_def in_path_ctls_def dev_skel_def path_ids_def dest!: at_last_elim)

lemma usecases_skel: "in_usecases p f st = Some (r, st') \<Longrightarrow> st_skel st' = st_skel st"
  by (auto simp: in_usecases_def st_skel_def)

lemma ctl_skel: "parse_ctl_start E s = Some (r, s') \<Longrightarrow> same_skel s s'"
  by (auto simp: parse_ctl_start_def with_attrib_def split: option.splits path_ptr.splits
      elim!: on_device_skel on_stream_skel dest: path_ctls_skel usecases_skel) (auto simp: same_skel_def)

lemma same_skel_upd [simp]: "same_skel s (s'\<lparr>cur_path := a\<rparr>) = same_skel s s'" "same_skel s (s'\<lparr>cur_usecase := b\<rparr>) = same_skel s s'"
  "same_skel s (s'\<lparr>cur_scase := c\<rparr>) = same_skel s s'"
  by (simp_all add: same_skel_def)

lemma usecase_skel: "parse_usecase_start E s = Some (r, s') \<Longrightarrow> same_skel s s'"
  by (auto simp: parse_usecase_start_def with_attrib_def add_usecase_def Let_def st_skel_def split: option.splits prod.splits elim!: on_stream_skel)

lemma case_skel: "parse_case_start E s = Some (r, s') \<Longrightarrow> same_skel s s'"
  by (auto simp: parse_case_start_def with_attrib_def split: option.splits prod.splits elim!: on_stream_skel dest: usecases_skel)

lemma stream_ctl_skel: "parse_stream_ctl_start E s = Some (r, s') \<Longrightarrow> same_skel s s'"
  by (auto simp: parse_stream_ctl_start_def with_attrib_def Let_def st_skel_def split: option.splits prod.splits if_splits elim!: on_stream_skel)
     (auto simp: same_skel_def)

lemma other_skel:
  "parse_init_start E s = Some (r, s') \<Longrightarrow> same_skel s s'" "parse_mixer_start E s = Some (r, s') \<Longrightarrow> same_skel s s'"
  "parse_codec_probe_start E s = Some (r, s') \<Longrightarrow> same_skel s s'" "parse_codec_case_start E s = Some (r, s') \<Longrightarrow> same_skel s s'"
  by (auto simp: parse_init_start_def parse_mixer_start_def parse_codec_probe_start_def parse_codec_case_start_def with_attrib_def same_skel_def
      split: option.splits if_splits list.splits)


text \<open>Handlers that extend the tables.\<close>

lemma find_name_bound: "find_name names name n < int n"
  by (induction n) (auto simp: errno_defs)

lemma find_name_absent: "find_name names name n < 0 \<Longrightarrow> n \<le> length names \<Longrightarrow> name \<notin> set (take n names)"
  by (induction n) (auto simp: take_Suc_conv_app_nth split: if_splits)

lemma add_path_name_tables:
  assumes "add_path_name name s = (i, s')" "i \<ge> 0" "distinct (path_names s)" "take 2 (path_names s) = [''off'', ''on'']"
  shows "distinct (path_names s') \<and> take 2 (path_names s') = [''off'', ''on''] \<and> i < int (length (path_names s')) \<and>
    length (path_names s) \<le> length (path_names s') \<and> ps_cm s' = ps_cm s"
proof (cases "find_path_name s name \<ge> 0")
  case True
  then show ?thesis using assms find_name_bound [of "path_names s" name "length (path_names s)"]
    by (auto simp: add_path_name_def Let_def find_path_name_def)
next
  case False
  then have "name \<notin> set (path_names s)" using find_name_absent [of "path_names s" name "length (path_names s)"]
    by (auto simp: find_path_name_def)
  moreover have "length (path_names s) \<ge> 2" using arg_cong [OF assms(4), of length] by simp
  ultimately show ?thesis using False assms by (auto simp: add_path_name_def grow_list_def errno_defs split: if_splits)
qed

definition tables_at :: "audio_masks \<Rightarrow> parse_state \<Rightarrow> bool" where
  "tables_at A s = tables_ok A (path_names s) (ps_cm s)"

lemma device_entry_mono: "device_entry_ok n q \<Longrightarrow> n \<le> m \<Longrightarrow> device_entry_ok m q"
  by (fastforce simp: device_entry_ok_def split: prod.splits)

lemma stream_entry_mono: "stream_entry_ok n q \<Longrightarrow> n \<le> m \<Longrightarrow> stream_entry_ok m q"
  by (auto simp: stream_entry_ok_def split: prod.splits)

lemma tables_names:
  assumes "tables_ok A names cm" "distinct names'" "take 2 names' = [''off'', ''on'']" "length names \<le> length names'"
  shows "tables_ok A names' cm"
  using assms unfolding tables_ok_def by (blast intro: device_entry_mono stream_entry_mono)

lemma path_tables: 
  assumes "parse_path_start E s = Some (0, s')" "tables_at A s"
  shows "tables_at A s'"
proof -
  obtain name i s1 where n: "add_path_name name s = (i, s1)" "i \<ge> 0" 
    and r: "\<exists>s2. on_device (cur_device s1) (add_path i) s1 = Some (0, s2) \<and> s' = s2\<lparr>cur_path := newest_path s2\<rparr>"
    using assms(1) by (auto simp: parse_path_start_def with_attrib_def errno_defs split: option.splits prod.splits if_splits)
  have names: "distinct (path_names s)" "take 2 (path_names s) = [''off'', ''on'']" using assms(2) by (auto simp: tables_at_def tables_ok_def)
  note e = add_path_name_tables [OF n names]
  have t1: "tables_ok A (path_names s1) (ps_cm s1)" using tables_names [of A "path_names s" "ps_cm s"] e assms(2) by (simp add: tables_at_def)
  obtain s2 zs d d' where d: "devices (ps_cm s1) = zs @ [d]" "add_path i d = Some (0, d')" "s2 = set_devices (zs @ [d']) s1" "s' = s2\<lparr>cur_path := newest_path s2\<rparr>"
    using r by (auto dest!: on_device_elim)
  have "d' = d\<lparr>dev_paths := dev_paths d @ [new_path i]\<rparr>" using d(2) push_cases [of "new_path i" "dev_paths d"] by (auto simp: add_path_def errno_defs)
  then have sk: "dev_skel d' = (dev_type d, use_count d, path_ids d @ [i])" by (simp add: dev_skel_def path_ids_def new_path_def)
  show ?thesis using t1 e n(2) d(1) sk unfolding tables_at_def d(3,4)
    by (auto simp: tables_ok_def set_devices_def device_entry_ok_def dev_skel_def)
qed

lemma device_tables:
  assumes "parse_device_start E s = Some (0, s')" "tables_at (masks E) s"
  shows "tables_at (masks E) s'"
proof -
  obtain flag cm where f: "add_supported (masks E) flag (ps_cm s) = Some cm" 
    "s' = (set_devices (devices cm @ [new_device flag]) (s\<lparr>ps_cm := cm\<rparr>))\<lparr>cur_device := Some (length (devices cm))\<rparr>"
    using assms(1) push_cases by (auto simp: parse_device_start_def with_attrib_def Let_def errno_defs push_def grow_list_def split: option.splits prod.splits if_splits)
  have "path_names s' = path_names s" "devices (ps_cm s') = devices (ps_cm s) @ [new_device flag]" "streams (ps_cm s') = streams (ps_cm s)"
    "supported_output_devices (ps_cm s') = supported_output_devices (ps_cm s) OR (if flag AND AUDIO_DEVICE_BIT_IN (masks E) \<noteq> 0 then 0 else flag)"
    "supported_input_devices (ps_cm s') = supported_input_devices (ps_cm s) OR (if flag AND AUDIO_DEVICE_BIT_IN (masks E) \<noteq> 0 then flag else 0)"
    using f by (auto simp: set_devices_def add_supported_def split: if_splits)
  then show ?thesis using assms(2) by (auto simp: tables_at_def tables_ok_def types_or_append dev_skel_def new_device_def device_entry_ok_def path_ids_def)
qed

lemma stream_of_attribs_skel: "stream_of_attribs s ty = Some st \<Longrightarrow> st_skel st = (attribs s e_attrib_name, 0, 0, -1, -1)"
  by (auto simp: stream_of_attribs_def Let_def st_skel_def new_stream_def split: bind_splits prod.splits)

lemma find_named_none: "find_named name i ss = None \<Longrightarrow> Some name \<notin> set (map s_name ss)"
  by (induction ss arbitrary: i) (auto split: if_splits)

lemma stream_tables:
  assumes "parse_stream_start E s = Some (0, s')" "tables_at A s"
  shows "tables_at A s'"
proof -
  obtain ty st where f: "stream_of_attribs s ty = Some st" "\<And>n. attribs s e_attrib_name = Some n \<Longrightarrow> find_named_stream (ps_cm s) n = None"
    "s' = (set_streams (streams (ps_cm s) @ [st]) s)\<lparr>cur_stream := Some (length (streams (ps_cm s)))\<rparr>"
    using assms(1) by (auto simp: parse_stream_start_def with_attrib_def Let_def errno_defs push_def grow_list_def split: option.splits prod.splits if_splits)
  have sk: "st_skel st = (attribs s e_attrib_name, 0, 0, -1, -1)" using stream_of_attribs_skel [OF f(1)] .
  have new: "attribs s e_attrib_name = None \<or> attribs s e_attrib_name \<notin> set (map fst (map st_skel (streams (ps_cm s))))"
    using f(2) by (cases "attribs s e_attrib_name") (auto simp: find_named_stream_def st_skel_def dest: find_named_none)
  have eq: "path_names s' = path_names s" "devices (ps_cm s') = devices (ps_cm s)" "streams (ps_cm s') = streams (ps_cm s) @ [st]"
    "supported_output_devices (ps_cm s') = supported_output_devices (ps_cm s)" "supported_input_devices (ps_cm s') = supported_input_devices (ps_cm s)"
    using f(3) by (simp_all add: set_streams_def)
  show ?thesis using assms(2) new sk unfolding tables_at_def tables_ok_def eq by (auto simp: stream_entry_ok_def)
qed

lemma enable_tables:
  assumes "parse_enable_disable_start b E s = Some (0, s')" "tables_at A s"
  shows "tables_at A s'"
proof -
  obtain name where n: "\<not> find_path_name s name < 0" "on_stream (cur_stream s) (\<lambda>st. Some (0, if b then st\<lparr>enable_path := find_path_name s name\<rparr>
      else st\<lparr>disable_path := find_path_name s name\<rparr>)) s = Some (0, s')"
    using assms(1) by (auto simp: parse_enable_disable_start_def with_attrib_def Let_def errno_defs split: option.splits if_splits)
  define i where "i = find_path_name s name"
  have i: "0 \<le> i" "i < int (length (path_names s))"
    "on_stream (cur_stream s) (\<lambda>st. Some (0, if b then st\<lparr>enable_path := i\<rparr> else st\<lparr>disable_path := i\<rparr>)) s = Some (0, s')"
    using n unfolding i_def by (simp_all add: find_path_name_def find_name_bound)
  then obtain zs st where d: "streams (ps_cm s) = zs @ [st]" "s' = set_streams (zs @ [if b then st\<lparr>enable_path := i\<rparr> else st\<lparr>disable_path := i\<rparr>]) s"
    by (auto dest!: on_stream_elim)
  show ?thesis using assms(2) i d unfolding tables_at_def by (auto simp: tables_ok_def set_streams_def stream_entry_ok_def st_skel_def)
qed

lemma same_tables: "same_skel s s' \<Longrightarrow> tables_at A s' = tables_at A s"
  by (simp add: tables_at_def tables_same)

lemma start_tables: "start_fn e = Some f \<Longrightarrow> f E s = Some (0, s') \<Longrightarrow> tables_at (masks E) s \<Longrightarrow> tables_at (masks E) s'"
  by (cases e) (auto simp: parse_enable_start_def parse_disable_start_def intro: path_tables device_tables stream_tables enable_tables
      dest: same_tables ctl_skel usecase_skel case_skel stream_ctl_skel other_skel)

lemma probe_skel: "probe_config_file E s = Some (r, s') \<Longrightarrow> same_skel s s' \<and> (new_xml_file s' \<noteq> None \<longrightarrow> new_xml_file s \<noteq> None \<or> status s' \<noteq> Parsing)"
  by (auto simp: probe_config_file_def same_skel_def split: option.splits if_splits)

lemma end_skel: "end_fn e = Some f \<Longrightarrow> f E s = Some (r, s') \<Longrightarrow> same_skel s s' \<and> (new_xml_file s' \<noteq> None \<longrightarrow> new_xml_file s \<noteq> None \<or> status s' \<noteq> Parsing)"
  by (cases e) (auto simp: parse_path_end_def parse_device_end_def parse_stream_end_def parse_case_end_def parse_usecase_end_def
      parse_codec_probe_end_def same_skel_def split: if_splits dest!: probe_skel)


section \<open>Documents\<close>

text \<open>A state that failed is dropped, unless a redirection was found before.\<close>

definition file_inv :: "audio_masks \<Rightarrow> parse_state \<Rightarrow> bool" where
  "file_inv A s \<longleftrightarrow> parse_error s \<le> 0 \<and> (parse_error s = 0 \<or> new_xml_file s \<noteq> None \<longrightarrow> tables_at A s) \<and> (new_xml_file s \<noteq> None \<longrightarrow> status s \<noteq> Parsing)"

lemma on_device_keep: "on_device p f s = Some (r, s') \<Longrightarrow> new_xml_file s' = new_xml_file s"
  by (auto simp: set_devices_def dest!: on_device_elim)

lemma on_stream_keep: "on_stream p f s = Some (r, s') \<Longrightarrow> new_xml_file s' = new_xml_file s"
  by (auto simp: set_streams_def dest!: on_stream_elim)

lemma add_path_name_keep: "add_path_name name s = (i, s') \<Longrightarrow> new_xml_file s' = new_xml_file s"
  by (auto simp: add_path_name_def Let_def split: if_splits option.splits)

lemma start_keep: "start_fn e = Some f \<Longrightarrow> f E s = Some (r, s') \<Longrightarrow> new_xml_file s' = new_xml_file s"
  by (cases e) (auto simp: parse_ctl_start_def parse_path_start_def parse_usecase_start_def parse_case_start_def parse_stream_ctl_start_def
      parse_device_start_def parse_stream_start_def parse_enable_start_def parse_disable_start_def parse_enable_disable_start_def parse_init_start_def
      parse_mixer_start_def parse_codec_probe_start_def parse_codec_case_start_def with_attrib_def Let_def set_devices_def set_streams_def
      split: option.splits prod.splits if_splits list.splits path_ptr.splits dest!: on_device_keep on_stream_keep add_path_name_keep)

lemma tables_stack [simp]: "tables_at A (s\<lparr>stack := st\<rparr>) = tables_at A s" "tables_at A (s\<lparr>attribs := vals\<rparr>) = tables_at A s"
  "tables_at A (s\<lparr>parse_error := r\<rparr>) = tables_at A s" "tables_at A (s\<lparr>cur_xml_file := n\<rparr>) = tables_at A s"
  by (simp_all add: tables_at_def)

lemma section_start_cases:
  assumes "parse_section_start E name as s = Some s'" "parse_error s = 0"
  shows "s' = parse_set_error (-EINVAL) s \<or> (\<exists>e. enter_elem E e as s = Some s')"
proof -
  obtain t v rest where st: "stack s = (t, v) # rest" using assms(1) by (auto simp: parse_section_start_def split: list.splits)
  obtain q where q: "find (\<lambda>e. e \<in> set v \<and> pe_name (elem_table e) = name) all_elems = q" by simp
  have "(case q of None \<Rightarrow> Some (parse_set_error (-EINVAL) s)
      | Some e \<Rightarrow> if stack_index s \<ge> MAX_PARSE_DEPTH then Some (parse_set_error (-EINVAL) s)
                 else if stack_index s + 1 \<ge> MAX_PARSE_DEPTH then None
                 else enter_elem E e as s) = Some s'"
    using assms st q by (simp add: parse_section_start_def)
  then show ?thesis by (cases q) (simp_all split: if_splits, blast+)
qed

lemma section_start_inv:
  assumes "parse_section_start E name as s = Some s'" "file_inv (masks E) s" "status s = Parsing"
  shows "file_inv (masks E) s'"
proof (cases "parse_error s = 0")
  case False
  then have "s' = s" using assms(1) by (simp add: parse_section_start_def split: list.splits prod.splits)
  then show ?thesis using assms(2) by simp
next
  case True
  then have pre: "tables_at (masks E) s" "new_xml_file s = None" using assms by (auto simp: file_inv_def)
  consider "s' = parse_set_error (-EINVAL) s" | e where "enter_elem E e as s = Some s'"
    using section_start_cases [OF assms(1) True] by blast
  then show ?thesis
  proof cases
    case 1
    then show ?thesis using pre by (simp add: file_inv_def parse_set_error_def errno_defs)
  next
    case (2 e)
    let ?s = "s\<lparr>stack := (e, valid_subelem (elem_table e)) # stack s\<rparr>"
    show ?thesis
    proof (cases "extract_attribs e as")
      case None
      then show ?thesis using 2 pre by (auto simp: enter_elem_def file_inv_def parse_set_error_def errno_defs)
    next
      case (Some vals)
      then have c: "call_start E e (?s\<lparr>attribs := vals\<rparr>) = Some s'" using 2 by (simp add: enter_elem_def)
      show ?thesis
      proof (cases "start_fn e")
        case None
        then show ?thesis using c pre True assms(3) by (auto simp: call_start_def file_inv_def)
      next
        case h: (Some f)
        then obtain r s1 where s1: "f E (?s\<lparr>attribs := vals\<rparr>) = Some (r, s1)" "s' = parse_set_error r s1" using c by (auto simp: call_start_def)
        have "r \<le> 0" "new_xml_file s1 = None" "r = 0 \<longrightarrow> tables_at (masks E) s1"
          using start_fn_ret [OF h s1(1)] start_keep [OF h s1(1)] start_tables [OF h, of E "?s\<lparr>attribs := vals\<rparr>" s1] s1(1) pre by auto
        then show ?thesis using s1(2) by (auto simp: file_inv_def parse_set_error_def)
      qed
    qed
  qed
qed

lemma section_end_inv:
  assumes "parse_section_end E name s = Some s'" "file_inv A s" "status s = Parsing"
  shows "file_inv A s'"
proof (cases "parse_error s = 0")
  case False
  then show ?thesis using assms by (auto simp: parse_section_end_def split: list.splits prod.splits)
next
  case True
  then have pre: "tables_at A s" "new_xml_file s = None" using assms by (auto simp: file_inv_def)
  obtain e v rest where st: "stack s = (e, v) # rest" using assms(1) by (auto simp: parse_section_end_def split: list.splits)
  show ?thesis
  proof (cases "end_fn e")
    case None
    then show ?thesis using assms(1,3) st True pre by (auto simp: parse_section_end_def file_inv_def split: if_splits)
  next
    case (Some f)
    then obtain r s1 where s1: "f E s = Some (r, s1)" "s' = s1\<lparr>parse_error := r, stack := tl (stack s1)\<rparr>"
      using assms(1) st True by (auto simp: parse_section_end_def split: if_splits)
    have "r = 0" "tables_at A s1" "new_xml_file s1 \<noteq> None \<longrightarrow> status s1 \<noteq> Parsing"
      using end_fn_ret [OF Some s1(1)] end_skel [OF Some s1(1)] same_tables pre by auto
    then show ?thesis using s1(2) by (auto simp: file_inv_def)
  qed
qed

lemma parse_events_file: "parse_events E evs s = Some s' \<Longrightarrow> file_inv (masks E) s \<Longrightarrow> file_inv (masks E) s'"
proof (induction evs arbitrary: s)
  case (Cons ev evs)
  then show ?case by (cases ev) (auto split: if_splits option.splits dest: section_start_inv section_end_inv)
qed simp

lemma parse_reads_file: "parse_reads E rs s = Some (r, s') \<Longrightarrow> file_inv (masks E) s \<Longrightarrow> parse_error s = 0 \<Longrightarrow> file_inv (masks E) s' \<and> (r = 0 \<longrightarrow> parse_error s' = 0)"
proof (induction rs arbitrary: s)
  case (Cons rd rs)
  show ?case
  proof (cases rd)
    case (XRead evs bad)
    show ?thesis
    proof (cases "status s = Parsing")
      case True
      then obtain s1 where s1: "parse_events E evs s = Some s1" using Cons.prems XRead by (auto split: option.splits)
      have inv: "file_inv (masks E) s1" using parse_events_file [OF s1 Cons.prems(2)] .
      then have "parse_error s1 = 0 \<or> parse_error s1 < 0" by (auto simp: file_inv_def)
      then show ?thesis using Cons.prems(1) Cons.IH [OF _ inv] XRead True s1 inv by (auto simp: parse_log_error_def errno_defs split: if_splits)
    qed (use Cons.prems XRead in \<open>auto simp: errno_defs\<close>)
  qed (use Cons.prems in \<open>auto simp: errno_defs\<close>)
qed auto

lemma do_parse_file:
  assumes "do_parse E rs s = Some (r, s')" "tables_at (masks E) s" "new_xml_file s = None"
  shows "file_inv (masks E) s' \<and> (r = 0 \<longrightarrow> parse_error s' = 0)"
  using assms parse_reads_file [of E rs "s\<lparr>parse_error := 0, stack := [(e_elem_ctl, [e_elem_audiohal])]\<rparr>" r s']
  by (auto simp: do_parse_def file_inv_def)

lemma parse_up_to_tables: "parse_up_to n E s = Some (Some r, s') \<Longrightarrow> tables_at (masks E) s \<Longrightarrow> r = 0 \<Longrightarrow> tables_at (masks E) s'"
proof (induction n arbitrary: s)
  case (Suc n)
  obtain ors s1 where o: "open_config_file E (new_xml_file s) s = (ors, s1)" by fastforce
  have t1: "tables_at (masks E) (redirect s1)" "new_xml_file (redirect s1) = None"
    using Suc.prems(2) o by (auto simp: redirect_def open_config_file_def Let_def tables_at_def)
  show ?case
  proof (cases ors)
    case None
    then show ?thesis using Suc.prems o by (auto simp: errno_defs)
  next
    case (Some rs)
    then obtain q s2 where p: "do_parse E rs (redirect s1) = Some (q, s2)" using Suc.prems(1) o by (auto split: option.splits)
    have inv: "file_inv (masks E) s2" "q = 0 \<longrightarrow> parse_error s2 = 0" using do_parse_file [OF p t1] by auto
    show ?thesis
    proof (cases "new_xml_file s2 = None")
      case True
      then show ?thesis using Suc.prems o Some p inv by (auto simp: file_inv_def)
    next
      case False
      then have "tables_at (masks E) s2" using inv by (simp add: file_inv_def)
      then show ?thesis using Suc.IH [of s2] Suc.prems o Some p False by auto
    qed
  qed
qed simp

lemma start_tables_at: "tables_at A start_state"
  unfolding start_state_def init_state_run by (simp add: tables_at_def tables_ok_def blank_state_def new_config_mgr_def)

lemma init_tables:
  assumes "init_audio_config E K = Some (Some cm)"
  shows "\<exists>s. parse_files E start_state = Some (0, s) \<and> cm = (ps_cm s)\<lparr>mlog := mlog cm\<rparr> \<and> tables_ok (masks E) (path_names s) cm"
proof -
  obtain s h where r: "parse_files E start_state = Some (0, s)" "cm = (ps_cm s)\<lparr>mlog := h\<rparr>"
    using assms by (auto simp: init_audio_config_run split: option.splits if_splits)
  obtain n where "parse_up_to n E start_state = Some (Some 0, s)" using parse_files_up_to [OF r(1)] by auto
  then have "tables_at (masks E) s" using parse_up_to_tables start_tables_at by blast
  then have "tables_ok (masks E) (path_names s) cm" using r(2) by (simp add: tables_at_def tables_ok_def)
  then show ?thesis using r by simp
qed

section \<open>Properties\<close>

text \<open>C32. Whenever initialisation delivers a configuration, the parser has read the files to the end without an error,
  the configuration has the tables of the parser's final state, and with the table of path names the parser has then,
  they are consistent: the path names are distinct and start with off and on, every path identifier of a device is the
  position of one of these names and those of a stream are too, or are the -1 of no path, names of streams are unique,
  the masks of supported devices are exactly the device table's, and nothing is in use.\<close>

theorem configuration_tables_ok:
  assumes "init_audio_config E K = Some (Some cm)"
  shows "\<exists>s. parse_files E start_state = Some (0, s) \<and> cm = (ps_cm s)\<lparr>mlog := mlog cm\<rparr> \<and> tables_ok (masks E) (path_names s) cm"
  using init_tables [OF assms] .

theorem configuration_tables_ok_witness:
  "\<exists>cm s. init_audio_config test_audio_env test_card = Some (Some cm) \<and> devices cm = [on_off_device 4] \<and>
     parse_files test_audio_env start_state = Some (0, s) \<and> tables_ok test_masks (path_names s) cm"
proof -
  obtain cm where cm: "init_audio_config test_audio_env test_card = Some (Some cm)" "devices cm = [on_off_device 4]" using test_init by blast
  moreover have "masks test_audio_env = test_masks" by (simp add: test_audio_env_def)
  ultimately show ?thesis using configuration_tables_ok [OF cm(1)] by metis
qed

end
