(* ===== verification/AudioHalRefs.thy ===== *)
theory AudioHalRefs
  imports AudioHal AudioTables
begin

text \<open>
  References to configured streams: what every operation of the audio HAL does to the count of a
  stream, compared with the number of places that hold it.
\<close>

section \<open>Counts in the configuration manager\<close>

definition refs :: "config_mgr \<Rightarrow> int list" where
  "refs cm = map ref_count (streams cm)"

definition types :: "config_mgr \<Rightarrow> hw_stream_type list" where
  "types cm = map (\<lambda>s. st_type (info s)) (streams cm)"

lemma length_types [simp]: "length (types cm) = length (streams cm)" and length_refs [simp]: "length (refs cm) = length (streams cm)"
  by (simp_all add: types_def refs_def)

lemma update_self [simp]: "(map f xs)[i := f (xs ! i)] = map f xs"
  by (metis list_update_id map_update)

lemmas update_type [simp] = update_self [of "\<lambda>s. st_type (info s)"]

lemma on_devices_streams: "on_devices f cm = Some cm' \<Longrightarrow> streams cm' = streams cm"
  by (auto simp: on_devices_def)

lemma apply_route_refs: "apply_route A K i d cm = Some cm' \<Longrightarrow> refs cm' = refs cm \<and> types cm' = types cm"
  by (auto simp: apply_route_def Let_def refs_def types_def map_update split: if_splits option.splits dest!: on_devices_streams)

lemma apply_use_case_refs: "apply_use_case K i k v cm = Some (r, cm') \<Longrightarrow> refs cm' = refs cm \<and> types cm' = types cm"
  by (auto simp: apply_use_case_def refs_def types_def map_update split: option.splits)

lemma open_stream_refs:
  "open_stream_l K i cm = Some (ok, cm') \<Longrightarrow> types cm' = types cm \<and> refs cm' = (if ok then (refs cm)[i := ref_count (streams cm ! i) + 1] else refs cm)"
  by (auto simp: open_stream_l_def Let_def refs_def types_def map_update split: if_splits dest!: on_devices_streams)

lemma find_named_bound: "find_named name j ss = Some i \<Longrightarrow> j \<le> i \<and> i < j + length ss"
  by (induction ss arbitrary: j) (fastforce split: if_splits)+

definition acquired :: "config_mgr \<Rightarrow> nat option \<Rightarrow> config_mgr \<Rightarrow> bool" where
  "acquired cm st cm' \<longleftrightarrow> types cm' = types cm \<and>
     (case st of None \<Rightarrow> refs cm' = refs cm | Some i \<Rightarrow> i < length (streams cm) \<and> refs cm' = (refs cm)[i := refs cm ! i + 1])"

lemma get_named_acquired: "get_named_stream K name cm = Some (st, cm') \<Longrightarrow> acquired cm st cm'"
  by (auto simp: get_named_stream_def acquired_def find_named_stream_def refs_def split: option.splits if_splits
      dest!: open_stream_refs find_named_bound)

lemma try_streams_acquired: "try_streams K ty n cm = Some (st, cm') \<Longrightarrow> n \<le> length (streams cm) \<Longrightarrow>
    acquired cm st cm' \<and> (\<forall>i. st = Some i \<longrightarrow> types cm ! i = ty)"
proof (induction n arbitrary: cm)
  case (Suc n)
  show ?case
  proof (cases "st_type (info (streams cm ! n)) = ty")
    case True
    then obtain ok cm1 where o: "open_stream_l K n cm = Some (ok, cm1)" using Suc.prems(1) by (auto split: option.splits)
    have r: "types cm1 = types cm" "refs cm1 = (if ok then (refs cm)[n := ref_count (streams cm ! n) + 1] else refs cm)"
      using open_stream_refs [OF o] by auto
    show ?thesis
    proof (cases ok)
      case t: True
      then have "st = Some n" "cm' = cm1" using Suc.prems(1) True o by auto
      then show ?thesis using r t True Suc.prems(2) by (auto simp: acquired_def refs_def types_def)
    next
      case False
      have len: "length (streams cm1) = length (streams cm)" using arg_cong [OF r(1), of length] by simp
      have "try_streams K ty n cm1 = Some (st, cm')" using Suc.prems(1) True o False by simp
      then have "acquired cm1 st cm' \<and> (\<forall>i. st = Some i \<longrightarrow> types cm1 ! i = ty)" using Suc.IH [of cm1] Suc.prems(2) len by simp
      then show ?thesis using r False len by (simp add: acquired_def split: option.splits)
    qed
  next
    case False
    then show ?thesis using Suc by simp
  qed
qed (simp add: acquired_def)

lemma get_stream_acquired: "get_stream A K devs pcm cm = Some (st, cm') \<Longrightarrow> acquired cm st cm' \<and> (\<forall>i. st = Some i \<longrightarrow> types cm ! i = wanted_type A devs pcm)"
  using try_streams_acquired by (simp add: get_stream_def)

definition released :: "config_mgr \<Rightarrow> nat option \<Rightarrow> config_mgr \<Rightarrow> bool" where
  "released cm st cm' \<longleftrightarrow> types cm' = types cm \<and> (case st of None \<Rightarrow> refs cm' = refs cm | Some i \<Rightarrow> refs cm' = (refs cm)[i := refs cm ! i - 1])"

lemma release_released: "release_stream A K st cm = Some cm' \<Longrightarrow> released cm st cm'"
proof (cases st)
  case (Some i)
  assume r: "release_stream A K st cm = Some cm'"
  show ?thesis
  proof (cases "i < length (streams cm)")
    case True
    then show ?thesis using r Some
      by (auto simp: release_stream_def released_def Let_def refs_def types_def map_update split: if_splits option.splits dest!: on_devices_streams)
  next
    case False
    then show ?thesis using r Some
      by (auto simp: release_stream_def released_def Let_def refs_def types_def not_less list_update_beyond split: if_splits option.splits dest!: on_devices_streams)
  qed
qed (simp add: release_stream_def released_def)


section \<open>Holders\<close>

definition voice_busy :: "voice_state \<Rightarrow> bool" where
  "voice_busy v \<longleftrightarrow> v \<notin> {eVoiceNone, eVoiceTriggerIdle, eVoiceRecogIdle}"

definition trigger_only :: "voice_state \<Rightarrow> bool" where
  "trigger_only v \<longleftrightarrow> v \<in> {eVoiceTriggerIdle, eVoiceTriggerArmed, eVoiceTriggerFired}"

definition out_holds :: "nat \<Rightarrow> stream_out option \<Rightarrow> int" where
  "out_holds i x = (case x of None \<Rightarrow> 0 | Some out \<Rightarrow> of_bool (o_hw out = i))"

definition in_holds :: "nat \<Rightarrow> stream_in option \<Rightarrow> int" where
  "in_holds i x = (case x of None \<Rightarrow> 0 | Some inp \<Rightarrow> of_bool (i_hw inp = Some i))"

definition voice_holds :: "audio_device \<Rightarrow> nat \<Rightarrow> int" where
  "voice_holds ad i = of_bool (voice_busy (voice_st ad) \<and> voice_trig_stream ad = Some i)"

definition holders :: "audio_device \<Rightarrow> nat \<Rightarrow> int" where
  "holders ad i = of_bool (global_stream ad = Some i) + voice_holds ad i + sum_list (map (out_holds i) (outs ad)) + sum_list (map (in_holds i) (ins ad))"

definition excess :: "audio_device \<Rightarrow> nat \<Rightarrow> int" where
  "excess ad i = refs (ad_cm ad) ! i - holders ad i"

text \<open>
  From one state to the next, no count falls against its holders; with \<open>c\<close>, none rises either.
\<close>

definition accounts :: "bool \<Rightarrow> audio_device \<Rightarrow> audio_device \<Rightarrow> bool" where
  "accounts c ad ad' \<longleftrightarrow> types (ad_cm ad') = types (ad_cm ad) \<and> trigger_only (voice_st ad') = trigger_only (voice_st ad) \<and>
     (\<forall>i < length (types (ad_cm ad)). excess ad i \<le> excess ad' i \<and> (c \<longrightarrow> excess ad' i = excess ad i))"

lemma accounts_refl [simp]: "accounts c ad ad"
  by (simp add: accounts_def)

lemma accounts_trans: "accounts c a b \<Longrightarrow> accounts c b d \<Longrightarrow> accounts c a d"
  unfolding accounts_def by (metis order.trans)

lemma sum_list_put: "k < length xs \<Longrightarrow> sum_list (map f (xs[k := y])) = sum_list (map f xs) - f (xs ! k) + (f y :: int)"
  by (induction xs arbitrary: k) (auto split: nat.splits)

text \<open>A step that only calls the libraries.\<close>

definition quiet :: "audio_device \<Rightarrow> audio_device \<Rightarrow> bool" where
  "quiet ad ad' \<longleftrightarrow> (\<exists>h. ad' = ad\<lparr>llog := h\<rparr>)"

lemma quiet_refl [simp]: "quiet ad ad"
  unfolding quiet_def by (rule exI [of _ "llog ad"]) simp

lemma quiet_trans: "quiet a b \<Longrightarrow> quiet b c \<Longrightarrow> quiet a c"
  by (auto simp: quiet_def)

lemma quiet_lib: "lib E c ad = (a, ad') \<Longrightarrow> quiet ad ad'"
  by (auto simp: lib_def sys_def quiet_def)

lemma quiet_call [simp]: "quiet ad (lib_call E c ad)"
  unfolding lib_call_def by (rule quiet_lib [of E c ad "fst (lib E c ad)"]) simp

lemma quiet_call_iff [simp]: "quiet a b \<Longrightarrow> quiet a (lib_call E c b)"
  using quiet_trans quiet_call by blast

lemma quiet_sel: "quiet ad ad' \<Longrightarrow> ad_cm ad' = ad_cm ad \<and> outs ad' = outs ad \<and> ins ad' = ins ad \<and> voice_st ad' = voice_st ad \<and>
    voice_trig_stream ad' = voice_trig_stream ad \<and> global_stream ad' = global_stream ad \<and> active_voice_control ad' = active_voice_control ad \<and>
    get_out k ad' = get_out k ad \<and> get_in k ad' = get_in k ad"
  by (auto simp: quiet_def get_out_def get_in_def)

lemma accounts_same:
  assumes "types (ad_cm ad') = types (ad_cm ad)" "refs (ad_cm ad') = refs (ad_cm ad)" "trigger_only (voice_st ad') = trigger_only (voice_st ad)"
    "\<And>i. holders ad' i = holders ad i"
  shows "accounts c ad ad'"
  using assms by (simp add: accounts_def excess_def)

lemma quiet_accounts: "quiet ad ad' \<Longrightarrow> accounts c ad ad'"
  by (rule accounts_same) (auto simp: holders_def voice_holds_def dest: quiet_sel)

lemma get_out_bound: "get_out k ad = Some out \<Longrightarrow> k < length (outs ad) \<and> outs ad ! k = Some out"
  by (simp add: get_out_def split: if_splits)

lemma get_in_bound: "get_in k ad = Some inp \<Longrightarrow> k < length (ins ad) \<and> ins ad ! k = Some inp"
  by (simp add: get_in_def split: if_splits)

lemma put_out_accounts:
  assumes "get_out k ad = Some out" "quiet ad ad1" "o_hw out' = o_hw out"
  shows "accounts c ad (put_out k (Some out') ad1)"
proof -
  have k: "k < length (outs ad)" "outs ad ! k = Some out" using get_out_bound [OF assms(1)] by auto
  show ?thesis using quiet_sel [OF assms(2)] k assms(3)
    by (intro accounts_same) (auto simp: put_out_def holders_def voice_holds_def sum_list_put out_holds_def)
qed

lemma put_in_accounts:
  assumes "get_in k ad = Some inp" "quiet ad ad1" "i_hw inp' = i_hw inp"
  shows "accounts c ad (put_in k (Some inp') ad1)"
proof -
  have k: "k < length (ins ad)" "ins ad ! k = Some inp" using get_in_bound [OF assms(1)] by auto
  show ?thesis using quiet_sel [OF assms(2)] k assms(3)
    by (intro accounts_same) (auto simp: put_in_def holders_def voice_holds_def sum_list_put in_holds_def)
qed

text \<open>Operations of the configuration manager that leave the counts alone.\<close>

lemma cm_same: "types cm = types (ad_cm ad) \<Longrightarrow> refs cm = refs (ad_cm ad) \<Longrightarrow> accounts c ad (ad\<lparr>ad_cm := cm\<rparr>)"
  by (rule accounts_same) (simp_all add: holders_def voice_holds_def)

lemma route_accounts: "route E i d ad = Some ad' \<Longrightarrow> accounts c ad ad'"
  by (auto simp: route_def cm_op_def intro!: cm_same dest: apply_route_refs)

lemma route_sel: "route E i d ad = Some ad' \<Longrightarrow> \<exists>cm. ad' = ad\<lparr>ad_cm := cm\<rparr> \<and> types cm = types (ad_cm ad) \<and> refs cm = refs (ad_cm ad)"
  by (auto simp: route_def cm_op_def dest: apply_route_refs)

lemma invoke_tokens_sel: "invoke_tokens E i ps ret ad = Some (r, ad') \<Longrightarrow> \<exists>cm. ad' = ad\<lparr>ad_cm := cm\<rparr> \<and> types cm = types (ad_cm ad) \<and> refs cm = refs (ad_cm ad)"
proof (induction ps arbitrary: ret ad)
  case Nil
  then show ?case by (intro exI [of _ "ad_cm ad"]) simp
next
  case (Cons p ps)
  then show ?case by (fastforce simp: cm_get_def split: option.splits prod.splits dest!: apply_use_case_refs)
qed

lemma usecases_sel: "stream_invoke_usecases E st kv ad = Some (r, ad') \<Longrightarrow> \<exists>cm. ad' = ad\<lparr>ad_cm := cm\<rparr> \<and> types cm = types (ad_cm ad) \<and> refs cm = refs (ad_cm ad)"
proof (cases st)
  case None
  assume "stream_invoke_usecases E st kv ad = Some (r, ad')"
  then show ?thesis using None by (intro exI [of _ "ad_cm ad"]) (simp add: stream_invoke_usecases_def)
next
  case (Some i)
  assume "stream_invoke_usecases E st kv ad = Some (r, ad')"
  then show ?thesis using Some invoke_tokens_sel by (auto simp: stream_invoke_usecases_def)
qed

lemma usecases_accounts: "stream_invoke_usecases E st kv ad = Some (r, ad') \<Longrightarrow> accounts c ad ad'"
  by (auto dest!: usecases_sel intro!: cm_same)


section \<open>Output streams\<close>

lemma quiet_lib_pair: "quiet a b \<Longrightarrow> lib E c b = (x, d) \<Longrightarrow> quiet a d"
  using quiet_lib quiet_trans by blast

lemma start_output_pcm_quiet: "start_output_pcm E pcm out ad = Some (r, out', ad') \<Longrightarrow> quiet ad ad' \<and> o_hw out' = o_hw out"
  by (auto simp: start_output_pcm_def out_pcm_fill_params_def udiv_def Let_def split: if_splits prod.splits bind_splits dest: quiet_lib)

lemma do_out_pcm_standby_quiet: "do_out_pcm_standby E pcm out ad = Some (out', ad') \<Longrightarrow> quiet ad ad' \<and> o_hw out' = o_hw out"
  by (auto simp: do_out_pcm_standby_def split: if_splits option.splits)

lemma pcm_write_quiet: "pcm_write E out bytes ad = Some (r, ad') \<Longrightarrow> quiet ad ad'"
  by (auto simp: pcm_write_def Let_def split: out_kind.splits option.splits prod.splits dest: quiet_lib)

lemma out_pcm_write_accounts:
  assumes "get_out k ad = Some out" "out_pcm_write E k pcm out bytes ad = Some (r, ad')"
  shows "accounts c ad ad'"
proof -
  consider "ad' = ad" | out1 ad1 r1 where "start_output_pcm E pcm out ad = Some (r1, out1, ad1)" "ad' = put_out k (Some out1) ad1"
    | out1 ad1 where "start_output_pcm E pcm out ad = Some (0, out1, ad1)" "pcm_write E out1 bytes (put_out k (Some (out1\<lparr>o_standby := False\<rparr>)) ad1) = Some (r, ad')"
    | "pcm_write E out bytes ad = Some (r, ad')"
    using assms(2) by (auto simp: out_pcm_write_def split: if_splits option.splits)
  then show ?thesis
  proof cases
    case 2
    then show ?thesis using put_out_accounts [OF assms(1)] start_output_pcm_quiet by blast
  next
    case 3
    have "accounts c ad (put_out k (Some (out1\<lparr>o_standby := False\<rparr>)) ad1)"
      using put_out_accounts [OF assms(1)] start_output_pcm_quiet [OF 3(1)] by simp
    then show ?thesis using pcm_write_quiet [OF 3(2)] quiet_accounts accounts_trans by blast
  qed (auto dest: pcm_write_quiet quiet_accounts)
qed

lemma do_standby_compress_quiet: "do_standby_compress_l E cs ad = (cs', ad') \<Longrightarrow> quiet ad ad'"
  by (auto simp: do_standby_compress_l_def Let_def split: option.splits if_splits)

lemma open_output_compress_quiet: "open_output_compress E cs out ad = Some (r, cs', out', ad') \<Longrightarrow> quiet ad ad' \<and> o_hw out' = o_hw out"
  by (auto simp: open_output_compress_def Let_def split: if_splits prod.splits dest: quiet_lib)

lemma start_output_compress_quiet: "start_output_compress E h cs ad = (r, cs', ad') \<Longrightarrow> quiet ad ad'"
  by (auto simp: start_output_compress_def Let_def split: if_splits prod.splits dest: quiet_lib do_standby_compress_quiet intro: quiet_trans)

lemma put_compress_accounts: "get_out k ad = Some out \<Longrightarrow> quiet ad ad1 \<Longrightarrow> o_hw out' = o_hw out \<Longrightarrow> accounts c ad (put_compress k cs out' ad1)"
  by (simp add: put_compress_def put_out_accounts)

lemma out_compress_write_accounts:
  assumes "get_out k ad = Some out" "out_compress_write E k cs out bytes ad = Some (r, ad')"
  shows "accounts c ad ad'"
proof -
  obtain ret cs1 out1 ad1 where o: "open_output_compress E cs out ad = Some (ret, cs1, out1, ad1)" using assms(2) by (auto simp: out_compress_write_def split: option.splits)
  have q: "quiet ad ad1" "o_hw out1 = o_hw out" using open_output_compress_quiet [OF o] by auto
  have put: "accounts c ad (put_compress k cs2 out1 ad2)" if "quiet ad1 ad2" for cs2 ad2
    using put_compress_accounts [OF assms(1)] quiet_trans [OF q(1) that] q(2) by blast
  show ?thesis
  proof (cases "ret < 0")
    case True
    then show ?thesis using assms(2) o put [OF quiet_refl] by (auto simp: out_compress_write_def)
  next
    case False
    then obtain h where h: "oc_compress cs1 = Some h" using assms(2) o by (auto simp: out_compress_write_def split: option.splits)
    obtain a ad2 where w: "lib E (CompressWrite h bytes) ad1 = (a, ad2)" by fastforce
    obtain r3 cs3 ad3 where st: "start_output_compress E h cs1 ad2 = (r3, cs3, ad3)" by (metis prod_cases3)
    have "quiet ad1 ad2" "quiet ad1 ad3" using quiet_lib [OF w] start_output_compress_quiet [OF st] quiet_trans by blast+
    then show ?thesis using False assms(2) o h w st put by (auto simp: out_compress_write_def split: if_splits)
  qed
qed

lemma lib_put_accounts: "get_out k ad = Some out \<Longrightarrow> accounts c ad (put_compress k cs out (snd (lib E x ad)))"
  by (rule put_compress_accounts) (auto intro: quiet_lib [of E x ad "fst (lib E x ad)"])

lemma lib_accounts [simp]: "accounts c ad (snd (lib E x ad))"
  by (rule quiet_accounts) (rule quiet_lib [of E x ad "fst (lib E x ad)"], simp)

lemma out_compress_pause_accounts: "get_out k ad = Some out \<Longrightarrow> accounts c ad (snd (out_compress_pause E k cs out ad))"
  by (simp add: out_compress_pause_def Let_def case_prod_unfold lib_put_accounts split: option.split)

lemma out_compress_resume_accounts: "get_out k ad = Some out \<Longrightarrow> accounts c ad (snd (out_compress_resume E k cs out ad))"
  by (simp add: out_compress_resume_def Let_def case_prod_unfold lib_put_accounts split: option.split)

lemma out_compress_drain_accounts:
  assumes "get_out k ad = Some out" "out_compress_drain E k cs out early ad = Some (r, ad')"
  shows "accounts c ad ad'"
proof (cases early)
  case True
  have o: "get_out k (snd (lib E x ad)) = Some out" for x using quiet_sel [OF quiet_lib [of E x ad "fst (lib E x ad)"]] assms(1) by simp
  have "accounts c (snd (lib E x ad)) (put_compress k s out (snd (lib E y (snd (lib E x ad)))))" for x y s by (rule lib_put_accounts [OF o])
  then have "accounts c ad (put_compress k s out (snd (lib E y (snd (lib E x ad)))))" for x y s using lib_accounts accounts_trans by blast
  then show ?thesis using True assms(2) by (auto simp: out_compress_drain_def Let_def case_prod_unfold split: option.splits if_splits)
next
  case False
  then show ?thesis using assms lib_put_accounts [OF assms(1)] by (auto simp: out_compress_drain_def Let_def case_prod_unfold split: option.splits)
qed

lemma out_compress_flush_accounts: "get_out k ad = Some out \<Longrightarrow> accounts c ad (out_compress_flush E k cs out ad)"
  by (auto simp: out_compress_flush_def split: option.splits intro: put_compress_accounts)

lemma out_compress_op_accounts:
  assumes "out_compress_op E k op ad = Some (r, ad')"
  shows "accounts c ad ad'"
proof -
  obtain out cs where o: "get_out k ad = Some out" "o_kind out = OutCompress cs" using assms by (auto simp: out_compress_op_def split: option.splits out_kind.splits)
  show ?thesis
  proof (cases op)
    case CPause
    then show ?thesis using assms o out_compress_pause_accounts [OF o(1), of c E cs] by (simp add: out_compress_op_def)
  next
    case CResume
    then show ?thesis using assms o out_compress_resume_accounts [OF o(1), of c E cs] by (simp add: out_compress_op_def)
  next
    case (CDrain early)
    then show ?thesis using assms o out_compress_drain_accounts [OF o(1), of E cs early] by (simp add: out_compress_op_def)
  next
    case CFlush
    then show ?thesis using assms o out_compress_flush_accounts [OF o(1), of c E cs] by (simp add: out_compress_op_def)
  qed
qed

lemma out_write_accounts: "out_write E k bytes ad = Some (r, ad') \<Longrightarrow> accounts c ad ad'"
  by (auto simp: out_write_def split: option.splits out_kind.splits dest: out_pcm_write_accounts out_compress_write_accounts)

lemma out_standby_quiet: "out_standby E k out ad = Some (out', ad') \<Longrightarrow> quiet ad ad' \<and> o_hw out' = o_hw out"
  by (auto simp: out_standby_def split: out_kind.splits prod.splits dest: do_out_pcm_standby_quiet do_standby_compress_quiet)

lemma stream_standby_accounts: "stream_standby E k ad = Some ad' \<Longrightarrow> accounts c ad ad'"
  by (auto simp: stream_standby_def split: option.splits dest!: out_standby_quiet intro!: put_out_accounts)

lemma out_set_parameters_accounts: "out_set_parameters E out kv ad = Some ad' \<Longrightarrow> accounts c ad ad'"
  by (auto simp: out_set_parameters_def split: bind_splits option.splits intro: accounts_trans route_accounts usecases_accounts)

lemma stream_set_parameters_accounts:
  assumes "stream_set_parameters E k kv ad = Some ad'"
  shows "accounts c ad ad'"
proof -
  obtain out where o: "get_out k ad = Some out" using assms by (auto simp: stream_set_parameters_def split: option.splits)
  show ?thesis
  proof (cases "o_kind out")
    case (OutPcm pcm)
    then show ?thesis using assms o out_set_parameters_accounts by (simp add: stream_set_parameters_def)
  next
    case (OutCompress cs)
    then have "accounts c (put_compress k (compress_params E kv cs) out ad) ad'"
      using assms o out_set_parameters_accounts by (simp add: stream_set_parameters_def)
    then show ?thesis using put_compress_accounts [OF o quiet_refl refl] accounts_trans by blast
  qed
qed

text \<open>A release and the end of a holder balance each other.\<close>

definition drops :: "nat option \<Rightarrow> audio_device \<Rightarrow> audio_device \<Rightarrow> bool" where
  "drops st ad ad' \<longleftrightarrow> (\<exists>cm. ad' = ad\<lparr>ad_cm := cm\<rparr> \<and> released (ad_cm ad) st cm)"

lemma release_drops: "release E st ad = Some ad' \<Longrightarrow> drops st ad ad'"
  by (auto simp: release_def cm_op_def drops_def dest: release_released)

lemma released_refs: "released cm st cm' \<Longrightarrow> i < length (types cm) \<Longrightarrow> refs cm' ! i = refs cm ! i - of_bool (st = Some i)"
  by (cases st) (auto simp: released_def nth_list_update)

lemma accounts_drop:
  assumes "drops st ad ad1" "types (ad_cm ad2) = types (ad_cm ad1)" "refs (ad_cm ad2) = refs (ad_cm ad1)" "trigger_only (voice_st ad2) = trigger_only (voice_st ad1)"
    "\<And>i. holders ad2 i = holders ad i - of_bool (st = Some i)"
  shows "accounts c ad ad2"
proof -
  obtain cm where cm: "ad1 = ad\<lparr>ad_cm := cm\<rparr>" "released (ad_cm ad) st cm" using assms(1) by (auto simp: drops_def)
  then have "types cm = types (ad_cm ad)" by (simp add: released_def)
  then show ?thesis using released_refs [OF cm(2)] assms(2-5) cm(1) by (simp add: accounts_def excess_def)
qed

lemma unpause_hw [simp]: "o_hw (unpause out) = o_hw out"
  by (simp add: unpause_def split: out_kind.splits)

lemma close_output_accounts:
  assumes "adev_close_output_stream E k ad = Some ad'"
  shows "accounts c ad ad'"
proof -
  obtain out out1 ad1 ad2 where o: "get_out k ad = Some out" "out_standby E k (unpause out) ad = Some (out1, ad1)"
    "release E (Some (o_hw out1)) ad1 = Some ad2" "ad' = put_out k None ad2"
    using assms by (auto simp: adev_close_output_stream_def split: option.splits)
  have q: "quiet ad ad1" "o_hw out1 = o_hw out" using out_standby_quiet [OF o(2)] by auto
  have d: "drops (Some (o_hw out)) ad1 ad2" using release_drops [OF o(3)] q(2) by simp
  have k: "k < length (outs ad1)" "outs ad1 ! k = Some out" using get_out_bound [OF o(1)] quiet_sel [OF q(1)] by auto
  have "accounts c ad1 ad'"
  proof (rule accounts_drop [OF d])
    fix i
    show "holders ad' i = holders ad1 i - of_bool (Some (o_hw out) = Some i)"
      using d k unfolding o(4) by (auto simp: drops_def put_out_def holders_def voice_holds_def sum_list_put out_holds_def)
  qed (simp_all add: o(4) put_out_def)
  then show ?thesis using quiet_accounts [OF q(1)] accounts_trans by blast
qed


definition takes :: "nat option \<Rightarrow> audio_device \<Rightarrow> audio_device \<Rightarrow> bool" where
  "takes st ad ad' \<longleftrightarrow> (\<exists>cm. ad' = ad\<lparr>ad_cm := cm\<rparr> \<and> acquired (ad_cm ad) st cm)"

lemma get_named_takes: "get_named E name ad = Some (st, ad') \<Longrightarrow> takes st ad ad'"
  by (auto simp: get_named_def cm_get_def takes_def dest: get_named_acquired)

lemma get_stream_takes: "cm_get (get_stream A K devs pcm) ad = Some (st, ad') \<Longrightarrow> takes st ad ad' \<and> (\<forall>i. st = Some i \<longrightarrow> types (ad_cm ad) ! i = wanted_type A devs pcm)"
  by (auto simp: cm_get_def takes_def dest: get_stream_acquired)

lemma acquired_refs: "acquired cm st cm' \<Longrightarrow> i < length (types cm) \<Longrightarrow> refs cm' ! i = refs cm ! i + of_bool (st = Some i)"
  by (cases st) (auto simp: acquired_def nth_list_update)

lemma accounts_take:
  assumes "takes st ad ad1" "types (ad_cm ad2) = types (ad_cm ad1)" "refs (ad_cm ad2) = refs (ad_cm ad1)" "trigger_only (voice_st ad2) = trigger_only (voice_st ad)"
    "\<And>i. holders ad2 i \<le> holders ad i + of_bool (st = Some i)" "\<And>i. c \<Longrightarrow> holders ad2 i = holders ad i + of_bool (st = Some i)"
  shows "accounts c ad ad2"
proof -
  obtain cm where cm: "ad1 = ad\<lparr>ad_cm := cm\<rparr>" "acquired (ad_cm ad) st cm" using assms(1) by (auto simp: takes_def)
  then have ty: "types cm = types (ad_cm ad)" by (simp add: acquired_def)
  have r: "refs (ad_cm ad2) ! i = refs (ad_cm ad) ! i + of_bool (st = Some i)" if "i < length (types (ad_cm ad))" for i
    using acquired_refs [OF cm(2) that] assms(3) cm(1) by simp
  have "excess ad i \<le> excess ad2 i \<and> (c \<longrightarrow> excess ad2 i = excess ad i)" if "i < length (types (ad_cm ad))" for i
    using r [OF that] assms(5) [of i] assms(6) [of i] unfolding excess_def by linarith
  then show ?thesis using assms(2,4) cm(1) ty by (simp add: accounts_def)
qed

text \<open>The outputs of the configuration are PCM streams.\<close>

definition pcm_outputs :: "hal_env \<Rightarrow> config_mgr \<Rightarrow> bool" where
  "pcm_outputs E cm \<longleftrightarrow> AUDIO_DEVICE_OUT_ALL (he_masks E) AND AUDIO_DEVICE_BIT_IN (he_masks E) = 0 \<and> e_stream_out_compress \<notin> set (types cm)"

lemma do_init_out_compress_quiet: "do_init_out_compress E cfg out ad = Some (r, out', ad') \<Longrightarrow> quiet ad ad' \<and> o_hw out' = o_hw out"
  by (auto simp: do_init_out_compress_def Let_def split: option.splits dest!: open_output_compress_quiet)

lemma do_init_out_pcm_hw: "do_init_out_pcm hw out = Some out' \<Longrightarrow> o_hw out' = o_hw out"
  by (auto simp: do_init_out_pcm_def split: bind_splits)

lemma open_output_accounts:
  assumes "adev_open_output_stream E d cfg ad = Some (r, ad')" "c \<Longrightarrow> pcm_outputs E (ad_cm ad)"
  shows "accounts c ad ad'"
proof -
  let ?devs = "d AND AUDIO_DEVICE_OUT_ALL (he_masks E)"
  let ?pcm = "audio_is_linear_pcm E (cfg_format cfg)"
  obtain st ad1 where g: "cm_get (get_stream (he_masks E) (he_card E) ?devs ?pcm) ad = Some (st, ad1)"
    using assms(1) by (auto simp: adev_open_output_stream_def Let_def split: option.splits)
  have t: "takes st ad ad1" "\<And>i. st = Some i \<Longrightarrow> types (ad_cm ad) ! i = wanted_type (he_masks E) ?devs ?pcm" using get_stream_takes [OF g] by auto
  have sel: "outs ad1 = outs ad" "ins ad1 = ins ad" "voice_st ad1 = voice_st ad" "voice_trig_stream ad1 = voice_trig_stream ad" "global_stream ad1 = global_stream ad"
    using t(1) by (auto simp: takes_def)
  show ?thesis
  proof (cases st)
    case None
    then have "ad' = ad1" using assms(1) g by (simp add: adev_open_output_stream_def Let_def)
    then show ?thesis using accounts_take [OF t(1)] None sel by (simp add: holders_def voice_holds_def)
  next
    case (Some hw)
    obtain out ad2 where i: "do_init_out_common E cfg ?devs hw ad1 = Some (out, ad2)"
      using assms(1) g Some by (auto simp: adev_open_output_stream_def Let_def split: option.splits)
    then have hw: "o_hw out = hw" and rt: "route E hw ?devs ad1 = Some ad2" by (auto simp: do_init_out_common_def)
    obtain cm where cm: "ad2 = ad1\<lparr>ad_cm := cm\<rparr>" "types cm = types (ad_cm ad1)" "refs cm = refs (ad_cm ad1)" using route_sel [OF rt] by auto
    consider out' ad3 where "quiet ad2 ad3" "o_hw out' = hw" "ad' = ad3\<lparr>outs := outs ad3 @ [Some out']\<rparr>"
      | "quiet ad2 ad'" "st_type (hw_info ad2 hw) \<noteq> e_stream_out_pcm"
      using assms(1) g Some i hw
      by (auto simp: adev_open_output_stream_def Let_def split: if_splits dest!: do_init_out_compress_quiet do_init_out_pcm_hw intro: quiet_refl)
    then show ?thesis
    proof cases
      case (1 out' ad3)
      then show ?thesis using quiet_sel [OF 1(1)] cm sel Some
        by (intro accounts_take [OF t(1)]) (auto simp: holders_def voice_holds_def out_holds_def)
    next
      case 2
      have same: "types (ad_cm ad2) = types (ad_cm ad)" using cm t(1) by (auto simp: takes_def acquired_def)
      have bound: "hw < length (streams (ad_cm ad))" using t(1) Some by (auto simp: takes_def acquired_def)
      have len: "length (streams (ad_cm ad2)) = length (streams (ad_cm ad))" using arg_cong [OF same, of length] by simp
      have "\<not> c"
      proof
        assume c
        then have m: "AUDIO_DEVICE_OUT_ALL (he_masks E) AND AUDIO_DEVICE_BIT_IN (he_masks E) = 0" and nc: "e_stream_out_compress \<notin> set (types (ad_cm ad))"
          using assms(2) by (auto simp: pcm_outputs_def)
        have "?devs AND AUDIO_DEVICE_BIT_IN (he_masks E) = 0" using m by (simp add: and.assoc)
        then have "wanted_type (he_masks E) ?devs ?pcm \<in> {e_stream_out_pcm, e_stream_out_compress}" by (simp add: wanted_type_def)
        moreover have "types (ad_cm ad) ! hw \<in> set (types (ad_cm ad))" using bound by simp
        ultimately have "types (ad_cm ad) ! hw = e_stream_out_pcm" using t(2) [OF Some] nc by auto
        then have "st_type (hw_info ad2 hw) = e_stream_out_pcm" using same bound len by (metis (no_types, lifting) hw_info_def nth_map types_def)
        then show False using 2(2) by simp
      qed
      then show ?thesis using quiet_sel [OF 2(1)] cm sel
        by (intro accounts_take [OF t(1)]) (auto simp: holders_def voice_holds_def)
    qed
  qed
qed

section \<open>Voice trigger\<close>

lemma voice_open_takes:
  assumes "do_voice_trigger_open_stream E name ad = Some ad'"
  shows "\<exists>st ad1. takes st ad ad1 \<and> types (ad_cm ad') = types (ad_cm ad1) \<and> refs (ad_cm ad') = refs (ad_cm ad1) \<and> voice_trig_stream ad' = st \<and>
    outs ad' = outs ad \<and> ins ad' = ins ad \<and> voice_st ad' = voice_st ad \<and> global_stream ad' = global_stream ad"
proof -
  obtain st ad1 where g: "get_named E name ad = Some (st, ad1)" using assms by (auto simp: do_voice_trigger_open_stream_def split: option.splits)
  have t: "takes st ad ad1" using get_named_takes [OF g] .
  then obtain cm where cm: "ad1 = ad\<lparr>ad_cm := cm\<rparr>" by (auto simp: takes_def)
  obtain cm' where "ad' = ad1\<lparr>voice_trig_stream := st, ad_cm := cm'\<rparr>" "types cm' = types cm" "refs cm' = refs cm"
  proof (cases st)
    case None
    then show ?thesis using that [of cm] assms g cm by (auto simp: do_voice_trigger_open_stream_def Let_def)
  next
    case (Some i)
    then obtain mic where "route E i mic (ad1\<lparr>voice_trig_stream := st\<rparr>) = Some ad'" using assms g by (auto simp: do_voice_trigger_open_stream_def Let_def)
    then show ?thesis using that cm by (auto dest!: route_sel)
  qed
  then show ?thesis using t cm by (intro exI [of _ st] exI [of _ ad1]) auto
qed

lemma voice_arm_accounts:
  assumes "set_voice v (do_voice_trigger_open_stream E name ad) = Some ad'" "voice_busy v" "trigger_only v = trigger_only (voice_st ad)" "c \<Longrightarrow> \<not> voice_busy (voice_st ad)"
  shows "accounts c ad ad'"
proof -
  obtain ad2 where a: "do_voice_trigger_open_stream E name ad = Some ad2" "ad' = ad2\<lparr>voice_st := v\<rparr>" using assms(1) by (auto simp: set_voice_def)
  obtain st ad1 where o: "takes st ad ad1" "types (ad_cm ad2) = types (ad_cm ad1)" "refs (ad_cm ad2) = refs (ad_cm ad1)" "voice_trig_stream ad2 = st"
    "outs ad2 = outs ad" "ins ad2 = ins ad" "global_stream ad2 = global_stream ad" using voice_open_takes [OF a(1)] by blast
  show ?thesis using o assms(2-4) a(2) by (intro accounts_take [OF o(1)]) (auto simp: holders_def voice_holds_def)
qed

lemma voice_close_accounts:
  assumes "set_voice v (do_voice_trigger_close_stream E ad) = Some ad'" "\<not> voice_busy v" "voice_busy (voice_st ad)" "trigger_only v = trigger_only (voice_st ad)"
  shows "accounts c ad ad'"
proof (cases "voice_trig_stream ad")
  case None
  then show ?thesis using assms by (intro accounts_same) (auto simp: set_voice_def do_voice_trigger_close_stream_def holders_def voice_holds_def)
next
  case (Some i)
  obtain ad1 ad2 where a: "route E i 0 ad = Some ad1" "release E (Some i) ad1 = Some ad2" "ad' = ad2\<lparr>voice_st := v\<rparr>"
    using assms(1) Some by (auto simp: set_voice_def do_voice_trigger_close_stream_def split: option.splits)
  obtain cm where cm: "ad1 = ad\<lparr>ad_cm := cm\<rparr>" using route_sel [OF a(1)] by auto
  have "accounts c ad1 ad'"
    using release_drops [OF a(2)] assms(2-4) Some cm a(3)
    by (intro accounts_drop [OF release_drops [OF a(2)]]) (auto simp: drops_def holders_def voice_holds_def)
  then show ?thesis using route_accounts [OF a(1)] accounts_trans by blast
qed

lemma voice_move: "voice_busy v = voice_busy (voice_st ad) \<Longrightarrow> trigger_only v = trigger_only (voice_st ad) \<Longrightarrow> accounts c ad (ad\<lparr>voice_st := v\<rparr>)"
  by (rule accounts_same) (simp_all add: holders_def voice_holds_def)

lemmas voice_defs = voice_busy_def trigger_only_def

lemma enable_accounts: "voice_trigger_enable E ad = Some ad' \<Longrightarrow> (c \<Longrightarrow> \<not> trigger_only (voice_st ad)) \<Longrightarrow> accounts c ad ad'"
  by (cases "voice_st ad") (auto simp: voice_trigger_enable_def voice_defs set_voice_def [of _ "Some ad"] intro!: voice_move elim!: voice_arm_accounts)

lemma disable_accounts: "voice_trigger_disable E ad = Some ad' \<Longrightarrow> accounts c ad ad'"
  by (cases "voice_st ad") (auto simp: voice_trigger_disable_def voice_defs set_voice_def [of _ "Some ad"] intro!: voice_move elim!: voice_close_accounts)

lemma triggered_accounts: "accounts c ad (voice_trigger_triggered ad)"
  by (cases "voice_st ad") (auto simp: voice_trigger_triggered_def voice_defs intro!: voice_move)

lemma started_accounts: "accounts c ad (voice_trigger_audio_started_locked ad)"
  by (cases "voice_st ad") (auto simp: voice_trigger_audio_started_locked_def voice_defs intro!: voice_move)

lemma ended_accounts: "voice_trigger_audio_ended_locked E ad = Some ad' \<Longrightarrow> accounts c ad ad'"
  by (cases "voice_st ad") (auto simp: voice_trigger_audio_ended_locked_def voice_defs set_voice_def [of _ "Some ad"] intro!: voice_move elim!: voice_close_accounts)


section \<open>Input streams\<close>

lemma in_resampler_free_quiet: "in_resampler_free E inp ad = (inp', ad') \<Longrightarrow> quiet ad ad' \<and> i_hw inp' = i_hw inp"
  by (auto simp: in_resampler_free_def split: option.splits)

lemma in_resampler_init_quiet: "in_resampler_init E inp hr ch ad = Some (r, inp', ad') \<Longrightarrow> quiet ad ad' \<and> i_hw inp' = i_hw inp"
  by (auto simp: in_resampler_init_def Let_def split: if_splits prod.splits dest: quiet_lib)

lemma in_pcm_fill_params_hw: "in_pcm_fill_params cf inp = Some inp' \<Longrightarrow> i_hw inp' = i_hw inp"
  by (auto simp: in_pcm_fill_params_def split: bind_splits)

lemma do_open_pcm_input_quiet:
  assumes "do_open_pcm_input E inp ad = Some (r, inp', ad')"
  shows "quiet ad ad' \<and> i_hw inp' = i_hw inp"
proof (cases "i_hw inp")
  case None
  then show ?thesis using assms by (simp add: do_open_pcm_input_def)
next
  case (Some i)
  define hw where "hw = hw_info ad i"
  define cf where "cf = \<lparr>pc_channels = in_pcm_cfg_channel_count inp, pc_rate = in_pcm_cfg_rate hw, pc_period_size = in_pcm_cfg_period_size hw, pc_period_count = in_pcm_cfg_period_count hw\<rparr>"
  obtain a ad1 where l: "lib E (PcmOpen True (card_number hw) (device_number hw) cf) ad = (a, ad1)" by fastforce
  have q1: "quiet ad ad1" using quiet_lib [OF l] .
  show ?thesis
  proof (cases "l_ptr a \<and> l_ready a")
    case False
    then show ?thesis using assms Some l q1 by (auto simp: do_open_pcm_input_def Let_def hw_def cf_def split: if_splits)
  next
    case True
    then obtain inp1 where f: "in_pcm_fill_params cf (inp\<lparr>i_handle := Some (new_handle ad), i_config := cf\<rparr>) = Some inp1"
      using assms Some l by (auto simp: do_open_pcm_input_def Let_def hw_def cf_def split: option.splits)
    have h1: "i_hw inp1 = i_hw inp" using in_pcm_fill_params_hw [OF f] by simp
    show ?thesis
    proof (cases "in_get_sample_rate hw inp1 = pc_rate cf")
      case t: True
      then show ?thesis using assms Some l f True q1 h1 by (simp add: do_open_pcm_input_def Let_def hw_def cf_def)
    next
      case nt: False
      then obtain r2 inp2 ad2 where rs: "in_resampler_init E inp1 (pc_rate cf) (pc_channels cf) ad1 = Some (r2, inp2, ad2)"
        using assms Some l f True by (auto simp: do_open_pcm_input_def Let_def hw_def cf_def split: option.splits)
      have "quiet ad1 ad2" "i_hw inp2 = i_hw inp" using in_resampler_init_quiet [OF rs] h1 by auto
      then show ?thesis using assms Some l f True nt rs quiet_trans [OF q1]
        by (auto simp: do_open_pcm_input_def Let_def hw_def cf_def split: if_splits)
    qed
  qed
qed

lemma start_pcm_input_quiet: "start_pcm_input_stream E inp ad = Some (r, inp', ad') \<Longrightarrow> quiet ad ad' \<and> i_hw inp' = i_hw inp"
  by (auto simp: start_pcm_input_stream_def split: if_splits dest!: do_open_pcm_input_quiet)

lemma do_in_pcm_standby_quiet: "do_in_pcm_standby E inp ad = Some (inp', ad') \<Longrightarrow> quiet ad ad' \<and> i_hw inp' = i_hw inp"
proof -
  assume s: "do_in_pcm_standby E inp ad = Some (inp', ad')"
  obtain inp1 ad1 where 1: "in_resampler_free E inp ad = (inp1, ad1)" by fastforce
  show ?thesis
  proof (cases "i_standby inp")
    case True
    then show ?thesis using s 1 in_resampler_free_quiet [OF 1] by (auto simp: do_in_pcm_standby_def)
  next
    case False
    then obtain h where h: "i_handle inp = Some h" using s by (auto simp: do_in_pcm_standby_def split: option.splits)
    obtain inp2 ad2 where 2: "in_resampler_free E (inp\<lparr>i_handle := None\<rparr>) (lib_call E (PcmClose h) ad) = (inp2, ad2)" by fastforce
    then show ?thesis using s False h in_resampler_free_quiet [OF 2] quiet_trans [OF quiet_call] by (auto simp: do_in_pcm_standby_def)
  qed
qed

lemma do_in_compress_pcm_standby_quiet: "do_in_compress_pcm_standby E inp ad = Some (inp', ad') \<Longrightarrow> quiet ad ad' \<and> i_hw inp' = i_hw inp"
  by (auto simp: do_in_compress_pcm_standby_def split: if_splits option.splits)

lemma in_pcm_standby_quiet: "in_pcm_standby E inp ad = Some (inp', ad') \<Longrightarrow> quiet ad ad' \<and> i_hw inp' = i_hw inp"
  by (auto simp: in_pcm_standby_def split: option.splits if_splits dest: do_in_pcm_standby_quiet do_in_compress_pcm_standby_quiet)

lemma do_in_pcm_read_quiet:
  assumes "do_in_pcm_read E inp bytes ad = Some (r, inp', ad')"
  shows "quiet ad ad' \<and> i_hw inp' = i_hw inp"
proof -
  obtain r1 inp1 ad1 where s: "start_pcm_input_stream E inp ad = Some (r1, inp1, ad1)" using assms by (auto simp: do_in_pcm_read_def split: bind_splits)
  have q: "quiet ad ad1" "i_hw inp1 = i_hw inp" using start_pcm_input_quiet [OF s] by auto
  then show ?thesis using assms s
    by (auto simp: do_in_pcm_read_def Let_def split: bind_splits if_splits option.splits prod.splits dest!: quiet_lib_pair [OF q(1)])
qed

lemma do_in_compress_pcm_read_quiet:
  assumes "do_in_compress_pcm_read E i inp bytes ad = Some (r, inp', ad')"
  shows "quiet ad ad' \<and> i_hw inp' = i_hw inp"
proof -
  obtain inp1 ad1 where s: "start_compress_pcm_input_stream E i inp ad = Some (inp1, ad1)" using assms by (auto simp: do_in_compress_pcm_read_def split: bind_splits)
  have q: "quiet ad ad1" "i_hw inp1 = i_hw inp"
    using s by (auto simp: start_compress_pcm_input_stream_def do_open_compress_pcm_in_def Let_def split: if_splits bind_splits prod.splits dest: quiet_lib)
  then show ?thesis using assms s
    by (auto simp: do_in_compress_pcm_read_def Let_def split: bind_splits if_splits prod.splits dest!: quiet_lib_pair [OF q(1)])
qed

lemma read_input_quiet: "read_input E inp bytes ad = Some (r, inp', ad') \<Longrightarrow> quiet ad ad' \<and> i_hw inp' = i_hw inp"
  by (auto simp: read_input_def split: option.splits if_splits dest: do_in_pcm_read_quiet do_in_compress_pcm_read_quiet)

lemma in_standby_accounts: "in_standby E k ad = Some ad' \<Longrightarrow> accounts c ad ad'"
  by (auto simp: in_standby_def split: option.splits dest!: in_pcm_standby_quiet intro!: put_in_accounts)

lemma in_pcm_read_accounts: "in_pcm_read E k bytes ad = Some (r, ad') \<Longrightarrow> accounts c ad ad'"
  by (auto simp: in_pcm_read_def split: bind_splits if_splits dest!: read_input_quiet intro!: put_in_accounts)

lemma voice_control_accounts [simp]: "accounts c ad (ad\<lparr>active_voice_control := v\<rparr>)"
  by (rule accounts_same) (simp_all add: holders_def voice_holds_def)

lemma ended_ins: "voice_trigger_audio_ended_locked E ad = Some ad' \<Longrightarrow> ins ad' = ins ad"
  by (auto simp: voice_trigger_audio_ended_locked_def set_voice_def do_voice_trigger_close_stream_def split: voice_state.splits option.splits
      dest!: route_sel release_drops simp: drops_def)

lemma close_input_accounts:
  assumes "adev_close_input_stream E k ad = Some ad'"
  shows "accounts c ad ad'"
proof -
  obtain inp where i: "get_in k ad = Some inp" using assms by (auto simp: adev_close_input_stream_def split: option.splits)
  define ad0 where "ad0 = (case i_hw inp of Some i \<Rightarrow> if st_type (hw_info ad i) \<in> {e_stream_out_compress, e_stream_in_compress}
      then do_in_compress_pcm_close E inp ad else ad | None \<Rightarrow> ad)"
  have q0: "quiet ad ad0" by (auto simp: ad0_def do_in_compress_pcm_close_def split: option.splits)
  have c0: "do_close_in_common E k inp ad0 = Some ad'" using assms i by (simp add: adev_close_input_stream_def ad0_def)
  obtain inp1 ad1 where s: "in_pcm_standby E inp ad0 = Some (inp1, ad1)" using c0 by (auto simp: do_close_in_common_def split: bind_splits)
  have q1: "quiet ad ad1" "i_hw inp1 = i_hw inp" using in_pcm_standby_quiet [OF s] quiet_trans [OF q0] by auto
  obtain ad2 ad3 where v: "(if active_voice_control ad1 = Some k then voice_trigger_audio_ended_locked E (ad1\<lparr>active_voice_control := None\<rparr>) else Some ad1) = Some ad2"
    and r: "release E (i_hw inp1) ad2 = Some ad3" and e: "ad' = put_in k None ad3" using c0 s by (auto simp: do_close_in_common_def split: bind_splits)
  have a2: "accounts c ad1 ad2" "ins ad2 = ins ad"
    using v quiet_sel [OF q1(1)] by (auto split: if_splits dest: ended_ins ended_accounts intro: accounts_trans [OF voice_control_accounts])
  have k: "k < length (ins ad2)" "ins ad2 ! k = Some inp" using get_in_bound [OF i] a2(2) by auto
  have d: "drops (i_hw inp) ad2 ad3" using release_drops [OF r] q1(2) by simp
  have "accounts c ad2 ad'"
    using d k by (intro accounts_drop [OF d]) (auto simp: e drops_def put_in_def holders_def voice_holds_def sum_list_put in_holds_def)
  then show ?thesis using quiet_accounts [OF q1(1)] a2(1) accounts_trans by blast
qed


lemma takes_sel: "takes st ad ad1 \<Longrightarrow> outs ad1 = outs ad \<and> ins ad1 = ins ad \<and> voice_st ad1 = voice_st ad \<and> voice_trig_stream ad1 = voice_trig_stream ad \<and>
    global_stream ad1 = global_stream ad \<and> types (ad_cm ad1) = types (ad_cm ad)"
  by (auto simp: takes_def acquired_def)

lemma open_source_takes: "open_source E inp name devs ad = Some (st, ad') \<Longrightarrow> takes st ad ad'"
proof -
  assume o: "open_source E inp name devs ad = Some (st, ad')"
  obtain hw ad1 where n: "(case name of None \<Rightarrow> Some (None, ad) | Some n \<Rightarrow> get_named E n ad) = Some (hw, ad1)" using o by (auto simp: open_source_def split: bind_splits)
  have t: "takes hw ad ad1"
  proof (cases name)
    case None
    then show ?thesis using n by (auto simp: takes_def acquired_def intro: exI [of _ "ad_cm ad"])
  next
    case (Some m)
    then show ?thesis using n get_named_takes by simp
  qed
  show ?thesis
  proof (cases hw)
    case None
    then have "cm_get (get_stream (he_masks E) (he_card E) devs (audio_is_linear_pcm E (i_format inp))) ad1 = Some (st, ad')" using o n by (simp add: open_source_def)
    then have "takes st ad1 ad'" using get_stream_takes by blast
    moreover have "length (streams (ad_cm ad1)) = length (streams (ad_cm ad))" using takes_sel [OF t] by (metis length_types)
    ultimately show ?thesis using t None by (cases st) (auto simp: takes_def acquired_def)
  next
    case (Some i)
    then show ?thesis using o n t by (simp add: open_source_def)
  qed
qed

text \<open>The new stream is taken, the old one is released, and the input stream changes from one to the other.\<close>

lemma take_source_accounts:
  assumes "takes (Some hw) ad ad1" "get_in k ad = Some inp" "take_source E k inp hw vc src ad1 = Some ad'"
  shows "accounts c ad ad'"
proof -
  obtain ad2 where r: "release E (i_hw inp) ad1 = Some ad2" using assms(3) by (auto simp: take_source_def split: bind_splits)
  define ad3 where "ad3 = put_in k (Some (inp\<lparr>i_hw := Some hw, input_source := src\<rparr>)) ad2"
  have v: "(if vc then Some (voice_trigger_audio_started_locked (ad3\<lparr>active_voice_control := Some k\<rparr>))
        else if active_voice_control ad3 = Some k then voice_trigger_audio_ended_locked E (ad3\<lparr>active_voice_control := None\<rparr>)
        else Some ad3) = Some ad'" using assms(3) by (simp only: take_source_def r Option.bind.bind_lunit Let_def ad3_def)
  have d: "drops (i_hw inp) ad1 ad2" using release_drops [OF r] .
  have k: "k < length (ins ad)" "ins ad ! k = Some inp" using get_in_bound [OF assms(2)] by auto
  obtain cm where cm: "ad2 = ad1\<lparr>ad_cm := cm\<rparr>" "released (ad_cm ad1) (i_hw inp) cm" using d by (auto simp: drops_def)
  obtain cm1 where cm1: "ad1 = ad\<lparr>ad_cm := cm1\<rparr>" "acquired (ad_cm ad) (Some hw) cm1" using assms(1) by (auto simp: takes_def)
  have ty: "types cm = types (ad_cm ad)" "types cm1 = types (ad_cm ad)" using cm(2) cm1 by (auto simp: released_def acquired_def)
  have "refs cm ! i = refs (ad_cm ad) ! i + of_bool (hw = i) - of_bool (i_hw inp = Some i)" if "i < length (types (ad_cm ad))" for i
    using acquired_refs [OF cm1(2) that] released_refs [OF cm(2), of i] that ty cm1(1) by simp
  moreover have "holders ad3 i = holders ad i + of_bool (hw = i) - of_bool (i_hw inp = Some i)" for i
    using k cm(1) cm1(1) by (simp add: ad3_def put_in_def holders_def voice_holds_def sum_list_put in_holds_def)
  ultimately have a3: "accounts c ad ad3" using cm(1) cm1(1) ty by (simp add: accounts_def excess_def ad3_def put_in_def)
  have "accounts c ad3 ad'"
    using v by (auto split: if_splits dest: ended_accounts intro: accounts_trans [OF voice_control_accounts] started_accounts)
  then show ?thesis using a3 accounts_trans by blast
qed

lemma change_source_accounts:
  assumes "change_input_source_locked E k inp value devs ad = Some (r, ad')" "get_in k ad = Some inp"
  shows "accounts c ad ad'"
proof -
  consider "ad' = ad" | name ad1 where "open_source E inp name devs ad = Some (None, ad1)" "ad' = ad1"
    | name hw ad1 vc src where "open_source E inp name devs ad = Some (Some hw, ad1)" "take_source E k inp hw vc src ad1 = Some ad'"
    using assms(1) by (auto simp: change_input_source_locked_def Let_def split: if_splits option.splits)
  then show ?thesis
  proof cases
    case (2 name ad1)
    then have t: "takes None ad ad'" using open_source_takes by blast
    then show ?thesis using takes_sel [OF t] by (intro accounts_take [OF t]) (auto simp: holders_def voice_holds_def)
  next
    case (3 name hw ad1 vc src)
    then show ?thesis using take_source_accounts [OF open_source_takes assms(2)] by blast
  qed simp
qed

lemma route_input_accounts:
  assumes "route_input E k devs ad = Some ad'"
  shows "accounts c ad ad'"
proof -
  obtain inp where i: "get_in k ad = Some inp" using assms by (auto simp: route_input_def split: bind_splits)
  let ?ad = "put_in k (Some (inp\<lparr>i_devices := devs\<rparr>)) ad"
  have "accounts c ad ?ad" by (rule put_in_accounts [OF i]) simp_all
  moreover have "accounts c ?ad ad'" using assms i by (auto simp: route_input_def Let_def split: option.splits dest: route_accounts)
  ultimately show ?thesis using accounts_trans by blast
qed

lemma in_set_parameters_accounts:
  assumes "in_pcm_set_parameters E k kv ad = Some ad'"
  shows "accounts c ad ad'"
proof -
  obtain inp where i: "get_in k ad = Some inp" using assms by (auto simp: in_pcm_set_parameters_def split: bind_splits)
  let ?S = "(case str_parm E kv (key_input_source E) of
            None \<Rightarrow> Some (0, common_get_routing_param E kv, ad)
          | Some value \<Rightarrow>
              let devs = (case common_get_routing_param E kv of Some v \<Rightarrow> v | None \<Rightarrow> (case i_hw inp of Some i \<Rightarrow> get_routed_devices (ad_cm ad) i | None \<Rightarrow> 0))
              in map_option (\<lambda>(ret, ad). (ret, Some devs, ad)) (change_input_source_locked E k inp value devs ad))"
  have run: "?S \<bind> (\<lambda>(ret, routing, ad). if ret < 0 then Some ad
        else (case routing of None \<Rightarrow> Some ad | Some devs \<Rightarrow> route_input E k devs ad) \<bind> (\<lambda>ad. get_in k ad \<bind>
          (\<lambda>inp. map_option snd (stream_invoke_usecases E (i_hw inp) kv ad)))) = Some ad'"
    using assms by (simp only: in_pcm_set_parameters_def i Option.bind.bind_lunit Let_def)
  then obtain ret rt ad1 where s: "?S = Some (ret, rt, ad1)" by (cases ?S) auto
  have a1: "accounts c ad ad1" using s i by (auto simp: Let_def split: option.splits dest: change_source_accounts)
  show ?thesis
  proof (cases "ret < 0")
    case True
    then have "ad' = ad1" using run s by simp
    then show ?thesis using a1 by simp
  next
    case False
    then obtain ad2 r and inp2 :: stream_in where 2: "(case rt of None \<Rightarrow> Some ad1 | Some devs \<Rightarrow> route_input E k devs ad1) = Some ad2"
      "stream_invoke_usecases E (i_hw inp2) kv ad2 = Some (r, ad')"
      using run s by (auto split: bind_splits)
    have "accounts c ad1 ad2" using 2(1) by (auto split: option.splits dest: route_input_accounts)
    then show ?thesis using a1 usecases_accounts [OF 2(2)] accounts_trans by blast
  qed
qed

section \<open>Device\<close>

lemma voice_mic_accounts [simp]: "accounts c ad (ad\<lparr>voice_trig_mic := v\<rparr>)"
  by (rule accounts_same) (simp_all add: holders_def voice_holds_def)

lemma voice_command_accounts:
  assumes "(if v = ''2'' then Some (voice_trigger_triggered ad) else if v = ''1'' then voice_trigger_enable E ad
      else if v = ''0'' then voice_trigger_disable E ad else Some ad) = Some ad'" "c \<Longrightarrow> \<not> trigger_only (voice_st ad)"
  shows "accounts c ad ad'"
proof (cases "v = ''2''")
  case True
  then show ?thesis using assms(1) triggered_accounts by auto
next
  case n2: False
  show ?thesis
  proof (cases "v = ''1''")
    case True
    then show ?thesis using assms enable_accounts by simp
  next
    case n1: False
    show ?thesis
    proof (cases "v = ''0''")
      case True
      then show ?thesis using assms(1) disable_accounts by simp
    next
      case False
      then show ?thesis using assms(1) n1 n2 by simp
    qed
  qed
qed

lemma voice_params_accounts:
  assumes "voice_trigger_set_params E kv ad = Some ad'" "c \<Longrightarrow> \<not> trigger_only (voice_st ad)"
  shows "accounts c ad ad'"
proof -
  define ad1 where "ad1 = (case str_parm E kv ''voice_trigger_mic'' of None \<Rightarrow> ad | Some v \<Rightarrow> ad\<lparr>voice_trig_mic := word_of_int (atoi v)\<rparr>)"
  have a1: "accounts c ad ad1" "voice_st ad1 = voice_st ad" by (simp_all add: ad1_def split: option.split)
  have run: "(case str_parm E kv ''voice_trigger'' of
           None \<Rightarrow> Some ad1
         | Some v \<Rightarrow>
             if v = ''2'' then Some (voice_trigger_triggered ad1)
             else if v = ''1'' then voice_trigger_enable E ad1
             else if v = ''0'' then voice_trigger_disable E ad1
             else Some ad1) = Some ad'"
    using assms(1) by (simp only: voice_trigger_set_params_def Let_def ad1_def)
  have "accounts c ad1 ad'"
  proof (cases "str_parm E kv ''voice_trigger''")
    case None
    then show ?thesis using run by simp
  next
    case (Some v)
    then show ?thesis using voice_command_accounts [of v ad1 E ad' c] run assms(2) a1(2) by simp
  qed
  then show ?thesis using a1(1) accounts_trans by blast
qed

lemma adev_set_parameters_accounts:
  assumes "adev_set_parameters E kv ad = Some ad'" "c \<Longrightarrow> \<not> trigger_only (voice_st ad)"
  shows "accounts c ad ad'"
proof -
  obtain ad1 where v: "voice_trigger_set_params E kv ad = Some ad1" using assms(1) by (auto simp: adev_set_parameters_def split: bind_splits)
  have "accounts c ad1 ad'"
  proof (cases "global_stream ad1")
    case None
    then show ?thesis using assms(1) v by (simp add: adev_set_parameters_def)
  next
    case (Some i)
    then obtain r where "stream_invoke_usecases E (Some i) kv ad1 = Some (r, ad')" using assms(1) v by (auto simp: adev_set_parameters_def)
    then show ?thesis using usecases_accounts by blast
  qed
  then show ?thesis using voice_params_accounts [OF v assms(2)] accounts_trans by blast
qed

datatype hal_call = OpenOutput u32 audio_config_t | CloseOutput nat | StandbyOutput nat | WriteOutput nat u32 | OutputParameters nat string
  | CompressOp nat compress_op | OpenInput u32 audio_config_t | CloseInput nat | StandbyInput nat | ReadInput nat u32 | InputParameters nat string
  | DeviceParameters string | MicMute bool

text \<open>The calls of the framework.\<close>

fun hal_op :: "hal_env \<Rightarrow> hal_call \<Rightarrow> audio_device \<Rightarrow> audio_device option" where
  "hal_op E (OpenOutput d cfg) ad = map_option snd (adev_open_output_stream E d cfg ad)"
| "hal_op E (CloseOutput k) ad = adev_close_output_stream E k ad"
| "hal_op E (StandbyOutput k) ad = stream_standby E k ad"
| "hal_op E (WriteOutput k n) ad = map_option snd (out_write E k n ad)"
| "hal_op E (OutputParameters k kv) ad = stream_set_parameters E k kv ad"
| "hal_op E (CompressOp k op) ad = map_option snd (out_compress_op E k op ad)"
| "hal_op E (OpenInput d cfg) ad = Some (snd (adev_open_input_stream E d cfg ad))"
| "hal_op E (CloseInput k) ad = adev_close_input_stream E k ad"
| "hal_op E (StandbyInput k) ad = in_standby E k ad"
| "hal_op E (ReadInput k n) ad = map_option snd (in_pcm_read E k n ad)"
| "hal_op E (InputParameters k kv) ad = in_pcm_set_parameters E k kv ad"
| "hal_op E (DeviceParameters kv) ad = adev_set_parameters E kv ad"
| "hal_op E (MicMute m) ad = Some (adev_set_mic_mute m ad)"

fun hal_ops :: "hal_env \<Rightarrow> hal_call list \<Rightarrow> audio_device \<Rightarrow> audio_device option" where
  "hal_ops E [] ad = Some ad"
| "hal_ops E (op # ops) ad = (case hal_op E op ad of None \<Rightarrow> None | Some ad \<Rightarrow> hal_ops E ops ad)"

lemma open_input_accounts: "accounts c ad (snd (adev_open_input_stream E d cfg ad))"
  by (rule accounts_same) (simp_all add: adev_open_input_stream_def Let_def do_init_in_pcm_def do_init_in_common_def holders_def voice_holds_def in_holds_def)

lemma mute_accounts: "accounts c ad (adev_set_mic_mute m ad)"
  by (rule accounts_same) (simp_all add: adev_set_mic_mute_def holders_def voice_holds_def)

lemma hal_op_accounts:
  assumes "hal_op E op ad = Some ad'" "c \<Longrightarrow> pcm_outputs E (ad_cm ad) \<and> \<not> trigger_only (voice_st ad)"
  shows "accounts c ad ad'"
  using assms by (cases op) (auto intro: open_input_accounts mute_accounts dest: open_output_accounts close_output_accounts stream_standby_accounts out_write_accounts
      stream_set_parameters_accounts out_compress_op_accounts close_input_accounts in_standby_accounts in_pcm_read_accounts in_set_parameters_accounts
      adev_set_parameters_accounts)

lemma hal_ops_accounts:
  assumes "hal_ops E ops ad = Some ad'" "c \<Longrightarrow> pcm_outputs E (ad_cm ad) \<and> \<not> trigger_only (voice_st ad)"
  shows "accounts c ad ad'"
  using assms
proof (induction ops arbitrary: ad)
  case (Cons op ops)
  obtain ad1 where o: "hal_op E op ad = Some ad1" "hal_ops E ops ad1 = Some ad'" using Cons.prems(1) by (auto split: option.splits)
  have a: "accounts c ad ad1" using hal_op_accounts [OF o(1) Cons.prems(2)] .
  then have "c \<Longrightarrow> pcm_outputs E (ad_cm ad1) \<and> \<not> trigger_only (voice_st ad1)" using Cons.prems(2) by (simp add: accounts_def pcm_outputs_def)
  then show ?case using Cons.IH [OF o(2)] a accounts_trans by blast
qed simp

end
