(* ===== verification/AudioHalProps.thy ===== *)
theory AudioHalProps
  imports AudioHalRefs
begin

text \<open>
  Properties of the audio HAL: the references to configured streams over whole runs, the places where
  the code loses or mixes up streams, and concrete runs.
\<close>

section \<open>Opening the device\<close>

lemma open_excess:
  assumes "adev_open E name = Some (0, Some ad)" "i < length (streams (ad_cm ad))"
  shows "excess ad i = 0"
proof -
  obtain cm st ad1 where o: "init_audio_config (he_config E) (he_card E) = Some (Some cm)"
    "get_named E ''global'' \<lparr>ad_cm = cm, mic_mute = False, active_voice_control = None, voice_st = eVoiceNone, voice_trig_mic = 0, global_stream = None,
       voice_trig_stream = None, outs = [], ins = [], llog = []\<rparr> = Some (st, ad1)" "ad = voice_trigger_init (ad1\<lparr>global_stream := st\<rparr>)"
    using assms(1) by (auto simp: adev_open_def split: if_splits option.splits)
  obtain names where "tables_ok (he_masks E) names cm" using init_tables [OF o(1)] by blast
  then have z: "ref_count s = 0" if "s \<in> set (streams cm)" for s using that by (auto simp: tables_ok_def st_skel_def stream_entry_ok_def)
  obtain cm1 where c: "ad1 = \<lparr>ad_cm = cm1, mic_mute = False, active_voice_control = None, voice_st = eVoiceNone, voice_trig_mic = 0, global_stream = None,
       voice_trig_stream = None, outs = [], ins = [], llog = []\<rparr>" "acquired cm st cm1" using get_named_takes [OF o(2)] by (auto simp: takes_def)
  have f: "ad_cm ad = cm1" "holders ad i = of_bool (st = Some i)"
    using o(3) c(1) by (auto simp: voice_trigger_init_def holders_def voice_holds_def voice_busy_def)
  have len: "i < length (types cm)" using assms(2) f(1) c(2) by (metis acquired_def length_types)
  then have "refs cm1 ! i = refs cm ! i + of_bool (st = Some i)" using acquired_refs [OF c(2)] by simp
  moreover have "refs cm ! i = 0" using len z by (simp add: refs_def)
  ultimately show ?thesis using f by (simp add: excess_def)
qed

section \<open>Properties\<close>

text \<open>C29. After any calls of the framework on an opened device, a configured stream is counted at least as often as it is
  held, by an open output or input stream, by the voice trigger or as the global stream, so none is released while it is in use. When the
  outputs are PCM streams and the device is not in trigger-only mode, the count is exact.\<close>

theorem stream_references_counted:
  assumes "adev_open E name = Some (0, Some ad0)" "hal_ops E ops ad0 = Some ad" "i < length (streams (ad_cm ad))"
  shows "holders ad i \<le> ref_count (streams (ad_cm ad) ! i) \<and>
    (pcm_outputs E (ad_cm ad) \<and> \<not> trigger_only (voice_st ad) \<longrightarrow> ref_count (streams (ad_cm ad) ! i) = holders ad i)"
proof -
  let ?c = "pcm_outputs E (ad_cm ad) \<and> \<not> trigger_only (voice_st ad)"
  have any: "accounts False ad0 ad" using hal_ops_accounts [OF assms(2), of False] by simp
  then have ty: "types (ad_cm ad) = types (ad_cm ad0)" "trigger_only (voice_st ad) = trigger_only (voice_st ad0)" by (auto simp: accounts_def)
  then have "accounts ?c ad0 ad" using hal_ops_accounts [OF assms(2), of ?c] by (auto simp: pcm_outputs_def)
  moreover have i: "i < length (types (ad_cm ad0))" using assms(3) ty(1) by (metis length_types)
  ultimately have "0 \<le> excess ad i \<and> (?c \<longrightarrow> excess ad i = 0)" using open_excess [OF assms(1), of i] by (auto simp: accounts_def)
  then show ?thesis using assms(3) by (simp add: excess_def refs_def)
qed

text \<open>C36. In trigger-only mode, arming again after a trigger loses a reference: either the count of the voice stream rises while it is
  held by the trigger as before, or the limit is reached and the trigger drops the stream without releasing it.\<close>

theorem rearming_loses_reference:
  assumes "voice_st ad = eVoiceTriggerFired" "find_named_stream (ad_cm ad) kVoiceTriggerStreamName = Some i" "voice_trig_stream ad = Some i"
    "voice_trigger_enable E ad = Some ad'"
  shows "excess ad' i = excess ad i + 1"
proof -
  obtain ad1 where a: "do_voice_trigger_open_stream E kVoiceTriggerStreamName ad = Some ad1" "ad' = ad1\<lparr>voice_st := eVoiceTriggerArmed\<rparr>"
    using assms(1,4) by (auto simp: voice_trigger_enable_def set_voice_def)
  obtain st ad2 where o: "takes st ad ad2" "refs (ad_cm ad1) = refs (ad_cm ad2)" "voice_trig_stream ad1 = st"
    "outs ad1 = outs ad" "ins ad1 = ins ad" "global_stream ad1 = global_stream ad" using voice_open_takes [OF a(1)] by blast
  have "st = None \<or> st = Some i"
    using a(1) assms(2) o(3) by (auto simp: do_voice_trigger_open_stream_def get_named_def cm_get_def get_named_stream_def Let_def
        split: option.splits if_splits dest!: route_sel)
  moreover have "i < length (types (ad_cm ad))" using assms(2) find_named_bound by (force simp: find_named_stream_def)
  ultimately show ?thesis using o acquired_refs [of "ad_cm ad" st] assms(1,3) a(2)
    by (auto simp: takes_def excess_def holders_def voice_holds_def voice_busy_def)
qed

text \<open>The search finds a stream of the wanted type exactly when one has a free reference.\<close>

definition free_stream :: "hw_stream_type \<Rightarrow> stream \<Rightarrow> bool" where
  "free_stream ty s \<longleftrightarrow> st_type (info s) = ty \<and> ref_count s < max_ref_count s"

lemma open_stream_free:
  "open_stream_l K i cm = Some (ok, cm') \<Longrightarrow> ok = (ref_count (streams cm ! i) < max_ref_count (streams cm ! i)) \<and> (\<not> ok \<longrightarrow> cm' = cm)"
  by (auto simp: open_stream_l_def Let_def split: if_splits)

lemma try_streams_free:
  "try_streams K ty n cm = Some (st, cm') \<Longrightarrow> st \<noteq> None \<longleftrightarrow> (\<exists>i < n. free_stream ty (streams cm ! i))"
proof (induction n arbitrary: cm)
  case (Suc n)
  show ?case
  proof (cases "st_type (info (streams cm ! n)) = ty")
    case False
    then show ?thesis using Suc by (auto simp: less_Suc_eq free_stream_def)
  next
    case True
    then obtain ok cm1 where o: "open_stream_l K n cm = Some (ok, cm1)" using Suc.prems by (auto split: option.splits)
    show ?thesis
    proof (cases ok)
      case yes: True
      then show ?thesis using Suc.prems True o open_stream_free [OF o] by (auto simp: free_stream_def)
    next
      case False
      then have "cm1 = cm" "\<not> free_stream ty (streams cm ! n)" using open_stream_free [OF o] by (auto simp: free_stream_def)
      then show ?thesis using Suc True o False by (auto simp: less_Suc_eq)
    qed
  qed
qed simp

lemma get_stream_free:
  assumes "cm_get (get_stream A K devs pcm) ad = Some (st, ad')"
  shows "st \<noteq> None \<longleftrightarrow> (\<exists>s \<in> set (streams (ad_cm ad)). free_stream (wanted_type A devs pcm) s)"
proof -
  obtain cm where "try_streams K (wanted_type A devs pcm) (length (streams (ad_cm ad))) (ad_cm ad) = Some (st, cm)"
    using assms by (auto simp: cm_get_def get_stream_def)
  from try_streams_free [OF this] show ?thesis by (metis in_set_conv_nth)
qed

text \<open>C37. An input stream for linear PCM that is in standby and has neither a route nor a stream of the configuration yet,
  when it is told a source other than its current one and other than voice recognition, and no route, takes an output
  stream: it gets a stream exactly when an output PCM stream of the configuration has a free reference, and the stream
  it gets is such an output stream, never an input stream. (A source given for voice recognition may take the stream of
  the voice trigger instead; an unchanged source, 0 on a new stream, takes nothing.)\<close>

theorem source_without_route_takes_output:
  assumes "get_in k ad = Some inp" "i_hw inp = None" "i_standby inp" "common_get_routing_param E kv = None" "audio_is_linear_pcm E (i_format inp)"
    "str_parm E kv (key_input_source E) = Some value" "src = sint (word_of_int (atoi value) :: u32)" "src \<noteq> input_source inp" "src \<noteq> source_voice_recognition E"
    "in_pcm_set_parameters E k kv ad = Some ad'"
  shows "\<exists>inp'. get_in k ad' = Some inp' \<and>
    (i_hw inp' \<noteq> None \<longleftrightarrow> (\<exists>s \<in> set (streams (ad_cm ad)). st_type (info s) = e_stream_out_pcm \<and> ref_count s < max_ref_count s)) \<and>
    (\<forall>i. i_hw inp' = Some i \<longrightarrow> types (ad_cm ad') ! i = e_stream_out_pcm)"
proof -
  have run: "map_option (\<lambda>(ret, ad). (ret, Some 0, ad)) (change_input_source_locked E k inp value 0 ad) \<bind> (\<lambda>(ret, routing, ad). if ret < 0 then Some ad
        else (case routing of None \<Rightarrow> Some ad | Some devs \<Rightarrow> route_input E k devs ad) \<bind> (\<lambda>ad. get_in k ad \<bind>
          (\<lambda>inp. map_option snd (stream_invoke_usecases E (i_hw inp) kv ad)))) = Some ad'"
    using assms(10) by (simp only: in_pcm_set_parameters_def assms(1,2,4,6) Option.bind.bind_lunit Let_def option.case)
  obtain ret ad1 where ch: "change_input_source_locked E k inp value 0 ad = Some (ret, ad1)"
    using run by (cases "change_input_source_locked E k inp value 0 ad") auto
  obtain st ad2 where g: "cm_get (get_stream (he_masks E) (he_card E) 0 True) ad = Some (st, ad2)"
    and after: "(case st of None \<Rightarrow> Some (-EINVAL, ad2) | Some hw \<Rightarrow> map_option (Pair 0) (take_source E k inp hw False src ad2)) = Some (ret, ad1)"
    using ch assms(3,5,7,8,9) by (auto simp: change_input_source_locked_def open_source_def Let_def split: option.splits)
  have t: "takes st ad ad2" "\<And>j. st = Some j \<Longrightarrow> types (ad_cm ad) ! j = e_stream_out_pcm"
    using get_stream_takes [OF g] by (auto simp: wanted_type_def)
  have free: "st \<noteq> None \<longleftrightarrow> (\<exists>s \<in> set (streams (ad_cm ad)). st_type (info s) = e_stream_out_pcm \<and> ref_count s < max_ref_count s)"
    using get_stream_free [OF g] by (simp add: wanted_type_def free_stream_def)
  have ty: "types (ad_cm ad') = types (ad_cm ad)" using in_set_parameters_accounts [OF assms(10)] by (simp add: accounts_def)
  have "\<exists>inp'. get_in k ad' = Some inp' \<and> i_hw inp' = st"
  proof (cases st)
    case None
    then have "ad' = ad2" using run ch after by (auto simp: errno_defs)
    then show ?thesis using assms(1,2) takes_sel [OF t(1)] None by (auto simp: get_in_def split: if_splits)
  next
    case (Some hw)
    have ts: "take_source E k inp hw False src ad2 = Some ad1" "ret = 0" using after Some by auto
    obtain ad3 where r: "release E (i_hw inp) ad2 = Some ad3" using ts(1) by (auto simp: take_source_def split: bind_splits)
    have k: "k < length (ins ad)" using get_in_bound [OF assms(1)] by simp
    have "ins ad1 = ins (put_in k (Some (inp\<lparr>i_hw := Some hw, input_source := src\<rparr>)) ad3)"
      using ts(1) r by (auto simp: take_source_def Let_def split: if_splits dest: ended_ins)
    then have hw1: "map_option i_hw (get_in k ad1) = Some (Some hw)" using k takes_sel [OF t(1)] release_drops [OF r] by (auto simp: get_in_def put_in_def drops_def)
    obtain ad4 r4 and inp4 :: stream_in where l: "route_input E k 0 ad1 = Some ad4" "stream_invoke_usecases E (i_hw inp4) kv ad4 = Some (r4, ad')"
      using run ch ts(2) by (auto split: bind_splits)
    have "map_option i_hw (get_in k ad4) = Some (Some hw)"
      using l(1) hw1 by (auto simp: route_input_def Let_def get_in_def put_in_def split: bind_splits if_splits option.splits dest!: route_sel)
    then show ?thesis using usecases_sel [OF l(2)] Some by (auto simp: get_in_def split: if_splits)
  qed
  then show ?thesis using free t(2) ty by auto
qed

text \<open>Closing a compressed input stream that is running stops and closes its handle twice.\<close>

lemma call_log: "lib_call E c ad = ad\<lparr>llog := llog ad @ [c]\<rparr>"
  by (simp add: lib_call_def lib_def sys_def)

lemma active_capture_closed_twice:
  assumes "get_in k ad = Some inp" "i_hw inp = Some i" "st_type (hw_info ad i) = e_stream_in_compress" "\<not> i_standby inp" "i_handle inp = Some h"
    "active_voice_control ad \<noteq> Some k" "adev_close_input_stream E k ad = Some ad'"
  shows "llog ad' = llog ad @ [CompressStop h, CompressClose h, CompressStop h, CompressClose h]"
  using assms by (auto simp: adev_close_input_stream_def do_close_in_common_def do_in_compress_pcm_close_def in_pcm_standby_def do_in_compress_pcm_standby_def
      call_log hw_info_def put_in_def drops_def split: bind_splits dest!: release_drops)


section \<open>Concrete runs\<close>

definition test_hal :: hal_env where
  "test_hal = \<lparr>he_config = test_audio_env, he_card = test_card,
     he_lib = (\<lambda>_ _. \<lparr>l_ptr = True, l_ready = True, l_ret = 0, fragment_size = 1024, fragments = 4\<rparr>), he_interface = ''audio_hw_if'',
     audio_is_linear_pcm = (\<lambda>f. f = 1), stream_frame_size = (\<lambda>_ _. 4),
     str_parm = (\<lambda>kv key. map_of (List.map_filter setting_of (semicolon_tokens [] kv)) key),
     key_routing = ''routing'', key_input_source = ''input_source'', key_delay_samples = ''delay_samples'', key_padding_samples = ''padding_samples'',
     source_voice_recognition = 6, format_main_mask = 0xFF000000, AUDIO_FORMAT_MP3 = 0x01000000, AUDIO_FORMAT_AAC = 0x04000000,
     AUDIO_FORMAT_HE_AAC_V1 = 0x05000000, AUDIO_FORMAT_HE_AAC_V2 = 0x06000000, AUDIO_FORMAT_VORBIS = 0x07000000\<rparr>"

definition test_audio_format :: audio_config_t where
  "test_audio_format = \<lparr>cfg_rate = 48000, cfg_mask = 3, cfg_format = 1\<rparr>"

definition test_device :: "config_mgr \<Rightarrow> audio_device" where
  "test_device cm = \<lparr>ad_cm = cm, mic_mute = False, active_voice_control = None, voice_st = eVoiceNone, voice_trig_mic = 0, global_stream = None,
     voice_trig_stream = None, outs = [], ins = [], llog = []\<rparr>"

lemma test_adev_open:
  "\<exists>cm. adev_open test_hal ''audio_hw_if'' = Some (0, Some (test_device cm)) \<and> devices cm = [on_off_device 4] \<and> streams cm = [test_audio_stream]"
proof -
  obtain cm where cm: "init_audio_config test_audio_env test_card = Some (Some cm)" "devices cm = [on_off_device 4]" "streams cm = [test_audio_stream]" using test_init by blast
  then show ?thesis
    by (intro exI [of _ cm]) (simp add: adev_open_def test_hal_def get_named_def cm_get_def get_named_stream_def find_named_stream_def test_audio_stream_def
        voice_trigger_init_def is_named_stream_defined_def test_device_def)
qed

lemmas test_route_defs = route_def cm_op_def apply_route_def on_devices_def stream_is_input_def apply_paths_to_devices_l_def apply_paths_by_id_l_def apply_found_def
  apply_device_path_l_def apply_path_l_def e_path_id_on_def e_path_id_off_def

lemma test_open_output_run:
  assumes "devices cm = [on_off_device 4]" "streams cm = [test_audio_stream]"
  shows "case hal_op test_hal (OpenOutput 4 test_audio_format) (test_device cm) of
      None \<Rightarrow> False
    | Some ad \<Rightarrow> types (ad_cm ad) = [e_stream_out_pcm] \<and> holders ad 0 = 1 \<and> voice_st ad = eVoiceNone"
  using assms by (simp add: adev_open_output_stream_def Let_def test_hal_def test_audio_env_def test_audio_format_def cm_get_def get_stream_def wanted_type_def test_masks_def
      test_device_def test_audio_stream_def open_stream_l_def on_off_device_def do_init_out_common_def test_route_defs
      hw_info_def do_init_out_pcm_def udiv_def types_def holders_def voice_holds_def voice_busy_def out_holds_def)

lemma test_open_output:
  assumes "devices cm = [on_off_device 4]" "streams cm = [test_audio_stream]"
  shows "\<exists>ad. hal_ops test_hal [OpenOutput 4 test_audio_format] (test_device cm) = Some ad \<and> types (ad_cm ad) = [e_stream_out_pcm] \<and> holders ad 0 = 1 \<and>
    voice_st ad = eVoiceNone"
  using test_open_output_run [OF assms] by (cases "hal_op test_hal (OpenOutput 4 test_audio_format) (test_device cm)") (simp_all del: hal_op.simps)

theorem stream_references_counted_witness:
  "\<exists>ad0 ad. adev_open test_hal ''audio_hw_if'' = Some (0, Some ad0) \<and> hal_ops test_hal [OpenOutput 4 test_audio_format] ad0 = Some ad \<and>
     ref_count (streams (ad_cm ad) ! 0) = 1"
proof -
  obtain cm where cm: "adev_open test_hal ''audio_hw_if'' = Some (0, Some (test_device cm))" "devices cm = [on_off_device 4]" "streams cm = [test_audio_stream]"
    using test_adev_open by blast
  obtain ad where ad: "hal_ops test_hal [OpenOutput 4 test_audio_format] (test_device cm) = Some ad" "types (ad_cm ad) = [e_stream_out_pcm]" "holders ad 0 = 1"
    "voice_st ad = eVoiceNone" using test_open_output [OF cm(2,3)] by blast
  have "0 < length (streams (ad_cm ad))" using arg_cong [OF ad(2), of length] by simp
  moreover have "pcm_outputs test_hal (ad_cm ad)" "\<not> trigger_only (voice_st ad)"
    using ad(2,4) by (simp_all add: pcm_outputs_def test_hal_def test_audio_env_def test_masks_def trigger_only_def)
  ultimately have "ref_count (streams (ad_cm ad) ! 0) = 1" using stream_references_counted [OF cm(1) ad(1), of 0] ad(3) by simp
  then show ?thesis using cm(1) ad(1) by blast
qed

text \<open>A configuration whose only stream is the voice trigger, and one whose only stream is an output.\<close>

definition one_stream :: "hw_stream_type \<Rightarrow> string option \<Rightarrow> config_mgr" where
  "one_stream ty name = \<lparr>cm_mixer = [], supported_output_devices = 0, supported_input_devices = 0, devices = [],
     streams = [test_audio_stream\<lparr>info := (info test_audio_stream)\<lparr>st_type := ty\<rparr>, s_name := name\<rparr>], mlog = []\<rparr>"

definition fired_device :: audio_device where
  "fired_device = (test_device (one_stream e_stream_in_hw (Some kVoiceTriggerStreamName)))\<lparr>voice_st := eVoiceTriggerFired, voice_trig_stream := Some 0\<rparr>"

theorem rearming_loses_reference_witness:
  "\<exists>ad'. voice_trigger_enable test_hal fired_device = Some ad' \<and> excess ad' 0 = excess fired_device 0 + 1"
proof -
  have f: "voice_st fired_device = eVoiceTriggerFired" "find_named_stream (ad_cm fired_device) kVoiceTriggerStreamName = Some 0" "voice_trig_stream fired_device = Some 0"
    by (simp_all add: fired_device_def test_device_def one_stream_def find_named_stream_def test_audio_stream_def)
  have "voice_trigger_enable test_hal fired_device \<noteq> None"
    by (simp add: voice_trigger_enable_def f(1) set_voice_def do_voice_trigger_open_stream_def get_named_def cm_get_def get_named_stream_def f(2) Let_def)
       (simp add: fired_device_def test_device_def one_stream_def test_audio_stream_def open_stream_l_def test_route_defs test_hal_def test_audio_env_def test_masks_def)
  then obtain ad' where "voice_trigger_enable test_hal fired_device = Some ad'" by blast
  then show ?thesis using rearming_loses_reference [OF f] by blast
qed

definition unrouted_device :: audio_device where
  "unrouted_device = snd (adev_open_input_stream test_hal 0 test_audio_format (test_device (one_stream e_stream_out_pcm None)))"

lemma test_parms:
  "str_parm test_hal ''input_source=1'' (key_input_source test_hal) = Some ''1''" "common_get_routing_param test_hal ''input_source=1'' = None"
  by (simp_all add: test_hal_def common_get_routing_param_def setting_of_def)

lemma test_unrouted:
  "\<exists>inp. get_in 0 unrouted_device = Some inp \<and> i_hw inp = None \<and> i_standby inp \<and> i_format inp = 1 \<and> input_source inp = 0"
  by (simp add: unrouted_device_def get_in_def adev_open_input_stream_def Let_def do_init_in_pcm_def do_init_in_common_def test_device_def test_audio_format_def)

lemma test_source_run:
  "case in_pcm_set_parameters test_hal 0 ''input_source=1'' unrouted_device of
     None \<Rightarrow> False
   | Some ad \<Rightarrow> (case get_in 0 ad of None \<Rightarrow> False | Some inp \<Rightarrow> i_hw inp = Some 0)"
  by (simp add: in_pcm_set_parameters_def test_parms)
     (simp add: unrouted_device_def get_in_def adev_open_input_stream_def Let_def do_init_in_pcm_def do_init_in_common_def test_device_def test_audio_format_def
      change_input_source_locked_def open_source_def take_source_def put_in_def cm_get_def get_stream_def wanted_type_def one_stream_def test_audio_stream_def
      open_stream_l_def release_def release_stream_def route_input_def stream_invoke_usecases_def setting_of_def apply_use_case_def
      test_route_defs atoi_def blank_def digit_def test_hal_def)

theorem source_without_route_takes_output_witness:
  "\<exists>ad' inp'. in_pcm_set_parameters test_hal 0 ''input_source=1'' unrouted_device = Some ad' \<and> get_in 0 ad' = Some inp' \<and>
     (\<exists>i. i_hw inp' = Some i \<and> types (ad_cm ad') ! i = e_stream_out_pcm)"
proof -
  obtain inp where inp: "get_in 0 unrouted_device = Some inp" "i_hw inp = None" "i_standby inp" "i_format inp = 1" "input_source inp = 0" using test_unrouted by blast
  obtain ad' where a: "in_pcm_set_parameters test_hal 0 ''input_source=1'' unrouted_device = Some ad'"
    using test_source_run by (auto split: option.splits)
  have n: "sint (word_of_int (atoi ''1'') :: u32) = 1" by (simp add: atoi_def blank_def digit_def)
  have p: "audio_is_linear_pcm test_hal (i_format inp)" "1 \<noteq> input_source inp" "1 \<noteq> source_voice_recognition test_hal" using inp by (simp_all add: test_hal_def)
  have "\<exists>s \<in> set (streams (ad_cm unrouted_device)). st_type (info s) = e_stream_out_pcm \<and> ref_count s < max_ref_count s"
    by (simp add: unrouted_device_def adev_open_input_stream_def Let_def do_init_in_pcm_def do_init_in_common_def test_device_def one_stream_def test_audio_stream_def)
  then show ?thesis using source_without_route_takes_output [OF inp(1-3) test_parms(2) p(1) test_parms(1) n [symmetric] p(2,3) a] a by blast
qed

end
