(* ===== verification/Spec2Isabelle.thy ===== *)
theory Spec2Isabelle
  imports SensorList MultiHalThreads InFlightTracker PipelineProps CameraHALTheorems PowerModule ThermalProps AudioHalProps
begin

text \<open>
  Verification library of the device tree of the Xiaomi Mi Pad (mocha).

  \<^bold>\<open>The program.\<close> The repository holds the hardware abstraction libraries of an Android tablet. The
  parts with logic of their own are the sensor multi-HAL (\<open>src/sensors\<close>), which merges the sensors of
  several vendor libraries into one device with one event queue per library, the camera HAL
  (\<open>src/camera\<close>), which captures Bayer frames through V4L2, develops them in software and answers the
  capture requests of the framework, the power HAL (\<open>src/hardware/nvidia/power\<close>), which turns hints
  of the framework into requests to the kernel that end after a time, the thermal HAL
  (\<open>src/hardware/nvidia/thermal\<close>), and the audio HAL (\<open>src/audio\<close>) with its configuration manager
  (\<open>src/configmgr\<close>), which reads mixer settings from a file and applies them when streams are opened and routed.

  \<^bold>\<open>Shared theories.\<close> \<open>Mocha_Prelude\<close> has the machine integers, the errno values, the outcome of an
  operation with undefined behaviour, the operating system as a transcript of calls that a parameter
  answers, and ring indices. \<open>Buffers\<close> has byte buffers whose accesses out of bounds are \<open>None\<close>, the
  loops of the image code with their invariant rules, and the lanes of the NEON registers. \<open>Float32\<close>
  has single precision rounding over the rationals.

  \<^bold>\<open>Sensors.\<close>
  \<^item> \<open>SensorEventQueue\<close>: the ring buffer of \<open>SensorEventQueue.cpp\<close>. A locale states the contract of a
    queue of events; the ring refines a list.
  \<^item> \<open>MultiHal\<close>: handle tables and device calls of \<open>multihal.cpp\<close>; \<open>MultiHalPoll\<close>: \<open>poll\<close>, with the
    exact list of events a scan delivers and its termination; \<open>SensorList\<close>: loading the libraries,
    publishing the merged list, opening the devices; \<open>MultiHalThreads\<close>: the writer threads and the
    reader as an interleaving of their critical sections, with first-in first-out delivery, no
    overwritten event and no lost wake-up.

  \<^bold>\<open>Image processing.\<close>
  \<^item> \<open>Demosaic\<close>: \<open>DemosaicNEON.cpp\<close>, vector batch by vector batch; the value of every pixel the code
    writes, the columns it never writes, and the error of its interpolation.
  \<^item> \<open>ColorConv\<close>: \<open>ColorConvNEON.cpp\<close>; the vector loops equal the pixel formulas.

  \<^bold>\<open>Capture pipeline.\<close> \<open>Pipeline\<close> has the operations of \<open>CameraPipeline.cpp\<close>; every V4L2 call is an
  element of the transcript and the driver's answers are a parameter. \<open>PipelineControl\<close> has the control
  loops, \<open>PipelineStates\<close> the state machine: every public operation in any state is a step, labelled with the number
  of mappings it forgets, and the invariant relates state, descriptor, mapped buffers and transcript.
  \<open>PipelineProps\<close> has the properties: the account of all mappings, captures inside their buffers, bounds of exposure, gain and focus.

  \<^bold>\<open>Camera device.\<close>
  \<^item> \<open>InFlightTracker\<close>: the requests in flight; a locale states the ordered map of the standard library,
    interpreted on sorted association lists.
  \<^item> \<open>JpegEncoder\<close>: the row loop and the destination manager over a library with a stated contract; the
    encoder stores exactly what the library delivers, or the library ends the process for lack of room.
  \<^item> \<open>CameraCharacteristics\<close>: the metadata tables of \<open>MochaCameraHAL.cpp\<close> entry by entry, over a metadata
    library that stores entries up to its capacities.
  \<^item> \<open>CameraHAL\<close>: the operations of the device. \<open>CameraHALProps\<close> has the invariant and the outcome of
    requests, flushes and configurations, \<open>CameraHALSafety\<close> the readiness of a configured device, and
    \<open>CameraHALTheorems\<close> the properties with concrete runs.

  \<^bold>\<open>Power.\<close> \<open>CStrings\<close> has the numbers, tokens and buffers of the C library; \<open>PowerSys\<close> the files and
  properties of \<open>powerhal_utils.cpp\<close> and the balance of descriptors in a transcript; \<open>TimeoutPoker\<close> the
  request thread of \<open>timeoutpoker.cpp\<close> with its events, its step relation and the account of every
  descriptor. \<open>PowerHAL\<close> has the operations of \<open>nvpowerhal.cpp\<close> as this device builds them,
  \<open>PowerHALProps\<close> the conservation of descriptors and the spacing of hints, and \<open>PowerHALTheorems\<close> the
  properties, the borders at which the code goes wrong, and concrete runs. \<open>PowerModule\<close> has the module
  of this device (\<open>power.cpp\<close>) and the disk calls of \<open>tegra_sata_hal.cpp\<close>: the list of power bricks, the
  bounded waits for the graphics processor, and what opening and initialising do to the state.

  \<^bold>\<open>Thermal.\<close> \<open>Thermal\<close> has \<open>parse_thermal.c\<close>, which builds the sensor table from the nodes of an XML
  reader, and \<open>thermal.c\<close>, which finds the files of the sensors and answers the three queries of the
  module. \<open>ThermalProps\<close> shows that the configuration of a document is collected in order, that a sensor finds the zone
  with its label, and which entries a query of temperatures writes. The nodes of a document are those the reader
  delivers for one root element (\<open>reader_nodes\<close>).

  \<^bold>\<open>Audio.\<close> The configuration manager of \<open>audio_config.c\<close> and the HAL of \<open>audio_hw.c\<close>.
  \<^item> \<open>AudioConfig\<close>: controls, paths, the routing of streams, volumes, use cases. The mixer library is a
    table of controls and the answers to its calls. \<open>AudioRoute\<close> shows that controls stay well typed and
    that applying paths is total, and gives its effect on the use counts; \<open>AudioCounts\<close> has the
    invariant that ties the counts of the devices to the streams, for device tables in which every
    device has one bit (\<open>layout_ok\<close>) and routes whose switch reaches the devices it names
    (\<open>safe_route\<close>); \<open>AudioProps\<close> has the step relation, the properties, and the route change that
    reaches the wrong device.
  \<^item> \<open>AudioParse\<close>: the reader of the file with its element tables and handlers. Pointers to current
    objects are positions that may be followed only while they are the last of their array.
    \<open>AudioParseSafe\<close> has the invariant of the element stack and of these pointers, \<open>AudioParseProps\<close>
    whole files and redirections, composed with the operations on streams, and \<open>AudioTables\<close> the
    consistency of the tables that a file leaves. Files may redirect to one another without end: \<open>parse_files\<close> is
    \<open>None\<close> then, and \<open>parse_up_to\<close> bounds the number of files; a bound that suffices gives the same result.
  \<^item> \<open>AudioHal\<close>: output and input streams, PCM and compressed, their parameters, and the state machine of the
    voice trigger, on top of the configuration manager. The sound libraries answer calls of a transcript,
    and a handle is the place of the call that opened it. \<open>AudioHalRefs\<close> compares, operation by operation, the
    count of a configured stream with the places that hold it, and \<open>AudioHalProps\<close> concludes for whole
    runs from the opening of the device, and shows where the code loses a reference or takes the wrong stream.

  \<^bold>\<open>Conventions.\<close> An operation that may leave a buffer or follow a null pointer is a partial function
  (\<open>None\<close>, or \<open>Crash\<close>), and the safety theorems show that it returns. Loops over ranges are structural;
  the retries of a poll carry the constant of the source as fuel (six polls of 300 ms, one row per
  round of the encoder), so running out of fuel is the behaviour of the source. Floating point is
  rounded after every operation; \<open>powf\<close> is a parameter without a law.

  \<^bold>\<open>Hypotheses about the environment.\<close> \<open>four_buffers\<close>: the driver grants at most the four buffers the
  array has. \<open>errno_set\<close>: a failing system call sets a positive \<open>errno\<close>. \<open>rejects_userptr\<close>: a queue of
  memory-mapped buffers refuses user pointers. \<open>frames_ok\<close>: a dequeued frame has the configured
  size and ten-bit samples. \<open>jpeg_contract\<close> and \<open>capacity_law\<close>: what \<open>libjpeg\<close> and the metadata library
  document. \<open>never_short\<close>: the buffer of a still picture has room for the encoded image. \<open>stable\<close>: a sensor library
  answers with the same list every time. \<open>loop_accepts\<close>: the message loop takes every descriptor it is given. \<open>node_reads\<close>: a file
  delivers the same text at every reading. \<open>env_ok\<close>: the XML library reports nested elements under one
  root, indices of controls are numbers, and a probed file appears at some time. Each is shown to hold of a concrete driver or library in the runs.

  \<^bold>\<open>Simplifications.\<close> The sums of the two sharpness measures (\<open>sobelEnergy\<close>, \<open>sobelEnergyNw\<close>) and the result of
  \<open>atoi\<close> are unbounded integers, where the code has \<open>int\<close>. The keys of the request thread wrap at 32 bits; in the code the
  counter is a signed \<open>int\<close>, which would overflow after \<open>2 ^ 31\<close> timed requests. The power module's state is there
  when the display changes (\<open>pInfo\<close> is not null), as after \<open>open\<close> or \<open>init\<close>. Sorting the metadata, which
  the library does in place, keeps its entries and is left out.

  \<^bold>\<open>Not modelled.\<close> Log output; \<open>dump\<close> and \<open>set_callbacks\<close> of the camera module; a flush that runs while
  another thread is inside a capture; the thread of compressed audio outputs with a callback, audio volumes in
  floating point, the buffers of the input resampler, and the vendored \<open>tinyalsa\<close>; the functions of the configuration manager that free
  memory or print; the light and vibrator services; the wrappers around vendor blobs and the copies of platform client
  libraries, which forward calls.
\<close>

end
